(* ===== verification/Prelude.thy ===== *)
theory Prelude
  imports Main "HOL-Library.Word"
begin

text \<open>
  Shared vocabulary of the development: the machine integers of the ARM target, faults of C
  code as values, NUL-terminated strings in a byte buffer, and the generic lemmas the component
  theories use.

  A C pointer into a byte buffer is the list of the bytes from the pointer to the end of the
  buffer.  Dereferencing the empty list is a read past the end of the object and is the fault
  \<open>OutOfBounds\<close>; a string is terminated when the value 0 occurs in the list.
\<close>

unbundle bit_operations_syntax

named_theorems wp_intros \<open>rules that a computation does not fault\<close>
named_theorems byte_defs \<open>definitions of the character classes\<close>

type_synonym u8 = "8 word"
type_synonym u16 = "16 word"
type_synonym u32 = "32 word"

text \<open>A C \<open>int\<close> is kept as its 32-bit pattern; \<open>sint\<close> reads it.\<close>

type_synonym s32 = "32 word"
type_synonym mem = "8 word list"

section \<open>Faults\<close>

text \<open>
  What C leaves undefined, and what the code does without a check: a read or write outside an
  object, a use of the null pointer, a read of an automatic variable that was never assigned,
  a conversion of a floating value that does not fit the integer type, a division by zero, a
  signed result that does not fit its type, and a read of a block that has been freed.  An
  assertion of the operating system that does not hold stops the program.
\<close>

datatype cfault =
    OutOfBounds | NullDeref | UninitRead | FloatRange | DivByZero | IntOverflow | UseAfterFree | AssertFail

type_synonym 'a res = "cfault + 'a"

fun and_then :: "'a res \<Rightarrow> ('a \<Rightarrow> 'b res) \<Rightarrow> 'b res" where
  "and_then (Inl e) f = Inl e"
| "and_then (Inr x) f = f x"

fun returns :: "'a res \<Rightarrow> bool" where
  "returns (Inl e) = False"
| "returns (Inr x) = True"

lemma returns_iff: "returns m \<longleftrightarrow> (\<exists>x. m = Inr x)"
  by (cases m) auto

lemma and_then_Inr_iff [simp]: "and_then m f = Inr y \<longleftrightarrow> (\<exists>x. m = Inr x \<and> f x = Inr y)"
  by (cases m) auto

lemma and_then_Inl_iff:
  "and_then m f = Inl e \<longleftrightarrow> m = Inl e \<or> (\<exists>x. m = Inr x \<and> f x = Inl e)"
  by (cases m) auto

lemma and_then_assoc: "and_then (and_then m f) g = and_then m (\<lambda>x. and_then (f x) g)"
  by (cases m) auto

lemma and_then_cong [fundef_cong]:
  "m = m' \<Longrightarrow> (\<And>x. m' = Inr x \<Longrightarrow> f x = f' x) \<Longrightarrow> and_then m f = and_then m' f'"
  by (cases m') auto

lemma returns_and_then [wp_intros]:
  "returns m \<Longrightarrow> (\<And>x. m = Inr x \<Longrightarrow> returns (f x)) \<Longrightarrow> returns (and_then m f)"
  by (cases m) auto

section \<open>Bytes and strings\<close>

definition bytes :: "string \<Rightarrow> mem" where
  "bytes s = map of_char s"

lemma bytes_Nil [simp]: "bytes [] = []"
  by (simp add: bytes_def)

lemma bytes_Cons [simp]: "bytes (c # cs) = of_char c # bytes cs"
  by (simp add: bytes_def)

lemma bytes_append [simp]: "bytes (s @ t) = bytes s @ bytes t"
  by (simp add: bytes_def)

lemma length_bytes [simp]: "length (bytes s) = length s"
  by (simp add: bytes_def)

text \<open>\<open>*p\<close>: the byte a pointer refers to.\<close>

fun deref :: "mem \<Rightarrow> u8 res" where
  "deref [] = Inl OutOfBounds"
| "deref (c # cs) = Inr c"

text \<open>\<open>p[i]\<close>\<close>

definition mem_at :: "mem \<Rightarrow> nat \<Rightarrow> u8 res" where
  "mem_at m i = (if i < length m then Inr (m ! i) else Inl OutOfBounds)"

lemma mem_at_Cons_0 [simp]: "mem_at (c # cs) 0 = Inr c"
  by (simp add: mem_at_def)

lemma mem_at_Cons_Suc [simp]: "mem_at (c # cs) (Suc i) = mem_at cs i"
  by (simp add: mem_at_def)

lemma mem_at_Nil [simp]: "mem_at [] i = Inl OutOfBounds"
  by (simp add: mem_at_def)

lemma mem_at_drop: "mem_at (drop k m) i = mem_at m (k + i)"
  by (auto simp: mem_at_def)

lemma returns_mem_at [simp]: "returns (mem_at m i) \<longleftrightarrow> i < length m"
  by (simp add: mem_at_def)

text \<open>A buffer that holds a string: a NUL occurs in it.\<close>

definition cstring :: "mem \<Rightarrow> bool" where
  "cstring m \<longleftrightarrow> 0 \<in> set m"

lemma cstring_Nil [simp]: "\<not> cstring []"
  by (simp add: cstring_def)

lemma cstring_Cons: "cstring (c # cs) \<longleftrightarrow> c = 0 \<or> cstring cs"
  by (auto simp: cstring_def)

lemma cstring_tl: "cstring (c # cs) \<Longrightarrow> c \<noteq> 0 \<Longrightarrow> cstring cs"
  by (simp add: cstring_Cons)

lemma cstring_append: "cstring (xs @ ys) \<longleftrightarrow> cstring xs \<or> cstring ys"
  by (auto simp: cstring_def)

text \<open>The string a buffer holds: the bytes before the first NUL.\<close>

fun str_of :: "mem \<Rightarrow> mem" where
  "str_of [] = []"
| "str_of (c # cs) = (if c = 0 then [] else c # str_of cs)"

lemma str_of_no_nul: "0 \<notin> set (str_of m)"
  by (induction m) auto

lemma str_of_append_nul [simp]: "0 \<notin> set s \<Longrightarrow> str_of (s @ 0 # r) = s"
  by (induction s) auto

lemma length_str_of: "length (str_of m) \<le> length m"
  by (induction m) auto

lemma cstring_split: "cstring m \<Longrightarrow> \<exists>r. m = str_of m @ 0 # r"
  by (induction m) (auto simp: cstring_Cons)

text \<open>
  \<open>strstr\<close>: the pointer to the first occurrence of a needle, \<open>None\<close> for the null pointer.
  A haystack without a NUL before the end of the buffer is read past its end.
\<close>

fun has_prefix :: "mem \<Rightarrow> mem \<Rightarrow> bool" where
  "has_prefix [] m = True"
| "has_prefix (c # cs) [] = False"
| "has_prefix (c # cs) (d # ds) = (c = d \<and> has_prefix cs ds)"

fun strstr :: "mem \<Rightarrow> mem \<Rightarrow> (mem option) res" where
  "strstr needle [] = Inl OutOfBounds"
| "strstr needle (c # cs) =
     (if has_prefix needle (c # cs) then Inr (Some (c # cs))
      else if c = 0 then Inr None
      else strstr needle cs)"

lemma has_prefix_iff: "has_prefix p m \<longleftrightarrow> (\<exists>r. m = p @ r)"
  by (induction p m rule: has_prefix.induct) auto

lemma strstr_returns: "cstring m \<Longrightarrow> \<exists>r. strstr p m = Inr r"
  by (induction p m rule: strstr.induct) (auto simp: cstring_Cons)

lemma strstr_Some:
  "strstr p m = Inr (Some q) \<Longrightarrow> has_prefix p q \<and> (\<exists>a. m = a @ q \<and> 0 \<notin> set a)"
proof (induction p m rule: strstr.induct)
  case (2 p c cs)
  show ?case
  proof (cases "has_prefix p (c # cs)")
    case True
    then show ?thesis using "2.prems" by auto
  next
    case False
    with "2.prems" have nz: "c \<noteq> 0" and r: "strstr p cs = Inr (Some q)"
      by (auto split: if_splits)
    from "2.IH" [OF False nz r] obtain a where "has_prefix p q" "cs = a @ q" "0 \<notin> set a" by auto
    then have "c # cs = (c # a) @ q" "0 \<notin> set (c # a)" using nz by auto
    with \<open>has_prefix p q\<close> show ?thesis by blast
  qed
qed simp

lemma strstr_Some_cstring: "strstr p m = Inr (Some q) \<Longrightarrow> cstring m \<Longrightarrow> cstring q"
  by (drule strstr_Some) (auto simp: cstring_def)

lemma strstr_Some_length: "strstr p m = Inr (Some q) \<Longrightarrow> length q \<le> length m"
  by (drule strstr_Some) auto

lemma strstr_hit: "has_prefix p m \<Longrightarrow> m \<noteq> [] \<Longrightarrow> strstr p m = Inr (Some m)"
  by (cases m) auto

section \<open>Decimal digits\<close>

definition is_dig :: "u8 \<Rightarrow> bool" where
  "is_dig c \<longleftrightarrow> 0x30 \<le> c \<and> c \<le> 0x39"

definition dval :: "u8 \<Rightarrow> nat" where
  "dval c = unat c - 48"

lemma is_dig_iff: "is_dig c \<longleftrightarrow> 48 \<le> unat c \<and> unat c \<le> 57"
  by (simp add: is_dig_def word_le_nat_alt)

lemma dval_lt: "is_dig c \<Longrightarrow> dval c < 10"
  by (auto simp: is_dig_iff dval_def)

lemma unat_dig: "is_dig c \<Longrightarrow> unat c = dval c + 48"
  by (auto simp: is_dig_iff dval_def)

text \<open>The number a string of decimal digits denotes.\<close>

fun dec_val :: "mem \<Rightarrow> nat" where
  "dec_val [] = 0"
| "dec_val (c # cs) = dval c * 10 ^ length cs + dec_val cs"

lemma dec_val_append: "dec_val (xs @ ys) = dec_val xs * 10 ^ length ys + dec_val ys"
  by (induction xs) (auto simp: algebra_simps power_add)

lemma dec_val_lt: "list_all is_dig xs \<Longrightarrow> dec_val xs < 10 ^ length xs"
proof (induction xs)
  case (Cons c cs)
  then have "dval c \<le> 9" "dec_val cs < 10 ^ length cs"
    using dval_lt [of c] by auto
  then have "dval c * 10 ^ length cs + dec_val cs < 9 * 10 ^ length cs + 10 ^ length cs"
    by (meson add_le_less_mono mult_le_mono1)
  then show ?case by simp
qed simp

section \<open>Words\<close>

lemma word_unat_eqI: "unat (x :: 'a::len word) = unat y \<Longrightarrow> x = y"
  by (simp add: word_unat_eq_iff)

lemma unat_of_nat_small: "n < 2 ^ LENGTH('a) \<Longrightarrow> unat (of_nat n :: 'a::len word) = n"
  by (simp add: unat_of_nat)

lemma unat_u8_lt: "unat (w :: u8) < 256"
proof -
  have "unat w < 2 ^ LENGTH(8)" by (rule unsigned_less)
  then show ?thesis by simp
qed

lemma unat_u16_lt: "unat (w :: u16) < 65536"
proof -
  have "unat w < 2 ^ LENGTH(16)" by (rule unsigned_less)
  then show ?thesis by simp
qed

lemma unat_Suc_word: "(w :: 'a::len word) + 1 \<noteq> 0 \<Longrightarrow> unat (w + 1) = Suc (unat w)"
  by (metis add.commute unatSuc)

end
