(* ===== verification/Nmea_Number.thy ===== *)
theory Nmea_Number
  imports Prelude
begin

text \<open>
  The field scanner of \<open>applications/gps.c\<close>: \<open>NMEA_Comma_Pos\<close> finds a comma-separated field,
  \<open>NMEA_Pow\<close> is the integer power and \<open>NMEA_Str2num\<close> reads a fixed-point number up to the next
  \<open>','\<close> or \<open>'*'\<close>.  All three keep the widths of the source: offsets and digit counts are
  \<open>uint8\<close>, values \<open>uint32\<close>.
\<close>

section \<open>Definitions\<close>

text \<open>\<open>NMEA_Comma_Pos\<close>: \<open>k\<close> is \<open>buf - p\<close>, truncated to a byte on return.\<close>

fun comma_scan :: "mem \<Rightarrow> u8 \<Rightarrow> nat \<Rightarrow> u8 res" where
  "comma_scan [] cx k = (if cx = 0 then Inr (of_nat k) else Inl OutOfBounds)"
| "comma_scan (c # cs) cx k =
     (if cx = 0 then Inr (of_nat k)
      else if c = 0x2A \<or> c < 0x20 \<or> c > 0x7A then Inr 0xFF
      else comma_scan cs (if c = 0x2C then cx - 1 else cx) (Suc k))"

definition NMEA_Comma_Pos :: "mem \<Rightarrow> u8 \<Rightarrow> u8 res" where
  "NMEA_Comma_Pos buf cx = comma_scan buf cx 0"

text \<open>\<open>NMEA_Pow\<close>: \<open>while(n--) result *= m\<close>, on \<open>uint32\<close>.\<close>

primrec pow_loop :: "nat \<Rightarrow> u8 \<Rightarrow> u32 \<Rightarrow> u32" where
  "pow_loop 0 m result = result"
| "pow_loop (Suc n) m result = pow_loop n m (result * ucast m)"

definition NMEA_Pow :: "u8 \<Rightarrow> u8 \<Rightarrow> u32" where
  "NMEA_Pow m n = pow_loop (unat n) m 1"

text \<open>
  The length loop of \<open>NMEA_Str2num\<close>.  Its state is \<open>(ilen, flen, msk)\<close>; one turn either stops
  with the state or goes on from a later byte.  After a \<open>'.'\<close> the pointer is advanced twice and
  the byte behind the point is not looked at.
\<close>

type_synonym num_st = "u8 \<times> u8 \<times> u8"

definition count_digit :: "num_st \<Rightarrow> num_st" where
  "count_digit st =
     (case st of (ilen, flen, msk) \<Rightarrow>
        if msk AND 1 \<noteq> 0 then (ilen, flen + 1, msk) else (ilen + 1, flen, msk))"

definition num_char :: "u8 \<Rightarrow> mem \<Rightarrow> num_st \<Rightarrow> num_st + mem \<times> num_st" where
  "num_char d ds st =
     (case st of (ilen, flen, msk) \<Rightarrow>
        if d = 0x2C \<or> d = 0x2A then Inl st
        else if d = 0x2E then Inr (drop 1 ds, count_digit (ilen, flen, msk OR 1))
        else if d > 0x39 \<or> d < 0x30 then Inl (0, 0, msk)
        else Inr (ds, count_digit st))"

fun num_turn :: "mem \<Rightarrow> num_st \<Rightarrow> (num_st + mem \<times> num_st) res" where
  "num_turn [] st = Inl OutOfBounds"
| "num_turn (c # cs) (ilen, flen, msk) =
     (if c = 0x2D
      then (case cs of [] \<Rightarrow> Inl OutOfBounds
            | d # ds \<Rightarrow> Inr (num_char d ds (ilen, flen, msk OR 2)))
      else Inr (num_char c cs (ilen, flen, msk)))"

lemma num_char_shorter: "num_char d ds st = Inr (p', st') \<Longrightarrow> length p' \<le> length ds"
  by (auto simp: num_char_def split: prod.splits if_splits)

lemma num_turn_shorter: "num_turn p st = Inr (Inr (p', st')) \<Longrightarrow> length p' < length p"
  by (induction p st rule: num_turn.induct)
     (auto split: if_splits list.splits dest!: num_char_shorter)

function num_len :: "mem \<Rightarrow> num_st \<Rightarrow> num_st res" where
  "num_len p st =
     (case num_turn p st of
        Inl e \<Rightarrow> Inl e
      | Inr (Inl st') \<Rightarrow> Inr st'
      | Inr (Inr (p', st')) \<Rightarrow> num_len p' st')"
  by pat_completeness auto
termination
  by (relation "measure (\<lambda>(p, st). length p)") (auto dest: num_turn_shorter)

declare num_len.simps [simp del]

text \<open>The two summation loops: \<open>n\<close> digits from \<open>buf[off]\<close> on.\<close>

function digit_sum :: "mem \<Rightarrow> nat \<Rightarrow> nat \<Rightarrow> nat \<Rightarrow> u32 \<Rightarrow> u32 res" where
  "digit_sum buf off n i acc =
     (if i < n
      then and_then (mem_at buf (off + i))
             (\<lambda>c. digit_sum buf off n (Suc i)
                    (acc + NMEA_Pow 10 (of_nat (n - 1 - i)) * (ucast c - 0x30)))
      else Inr acc)"
  by pat_completeness auto
termination
  by (relation "measure (\<lambda>(buf, off, n, i, acc). n - i)") auto

declare digit_sum.simps [simp del]

text \<open>
  \<open>NMEA_Str2num\<close>: the value, as the bit pattern of a C \<open>int\<close>, and the number of decimals
  stored through \<open>dx\<close>.
\<close>

definition NMEA_Str2num :: "mem \<Rightarrow> (s32 \<times> u8) res" where
  "NMEA_Str2num buf =
     and_then (num_len buf (0, 0, 0)) (\<lambda>(ilen, flen0, msk).
       let buf' = (if msk AND 2 \<noteq> 0 then drop 1 buf else buf);
           flen = (if flen0 > 5 then 5 else flen0)
       in and_then (digit_sum buf' 0 (unat ilen) 0 0) (\<lambda>ires.
          and_then (digit_sum buf' (unat ilen + 1) (unat flen) 0 0) (\<lambda>fres.
            let res = ires * NMEA_Pow 10 flen + fres
            in Inr (if msk AND 2 \<noteq> 0 then - res else res, flen))))"

section \<open>Powers\<close>

lemma pow_loop_eq: "pow_loop n m r = r * ucast m ^ n"
  by (induction n arbitrary: r) (auto simp: mult.assoc)

lemma NMEA_Pow_eq: "NMEA_Pow m n = ucast m ^ unat n"
  by (simp add: NMEA_Pow_def pow_loop_eq)

lemma NMEA_Pow_10: "NMEA_Pow 10 n = of_nat (10 ^ unat n)"
  by (simp add: NMEA_Pow_eq)

lemma unat_NMEA_Pow_10: "unat n \<le> 9 \<Longrightarrow> unat (NMEA_Pow 10 n) = 10 ^ unat n"
proof -
  assume "unat n \<le> 9"
  then have "(10::nat) ^ unat n \<le> 10 ^ 9" by (intro power_increasing) auto
  then have "(10::nat) ^ unat n < 2 ^ LENGTH(32)" by simp
  then show ?thesis by (simp only: NMEA_Pow_10 unat_of_nat_small)
qed

section \<open>Finding a field\<close>

text \<open>A byte that \<open>NMEA_Comma_Pos\<close> walks over.\<close>

definition walkable :: "u8 \<Rightarrow> bool" where
  "walkable c \<longleftrightarrow> c \<noteq> 0x2A \<and> 0x20 \<le> c \<and> c \<le> 0x7A"

definition field_char :: "u8 \<Rightarrow> bool" where
  "field_char c \<longleftrightarrow> walkable c \<and> c \<noteq> 0x2C"

lemma comma_scan_returns:
  "cstring m \<Longrightarrow> \<exists>r. comma_scan m cx k = Inr r"
  by (induction m cx k rule: comma_scan.induct) (auto simp: cstring_Cons)

lemma comma_scan_field:
  "list_all field_char f \<Longrightarrow> cx \<noteq> 0 \<Longrightarrow>
   comma_scan (f @ 0x2C # r) cx k = comma_scan r (cx - 1) (k + length f + 1)"
proof (induction f arbitrary: k)
  case Nil
  then show ?case by simp
next
  case (Cons c f)
  then have "walkable c" "c \<noteq> 0x2C" by (auto simp: field_char_def)
  then have "comma_scan ((c # f) @ 0x2C # r) cx k = comma_scan (f @ 0x2C # r) cx (Suc k)"
    using Cons.prems(2) by (auto simp: walkable_def)
  also have "\<dots> = comma_scan r (cx - 1) (Suc k + length f + 1)"
    using Cons by simp
  finally show ?case by (simp add: add_ac)
qed

text \<open>Sentence prefixes: the fields before the wanted one, each followed by its comma.\<close>

definition csv :: "mem list \<Rightarrow> mem" where
  "csv fs = concat (map (\<lambda>f. f @ [0x2C]) fs)"

lemma csv_Nil [simp]: "csv [] = []"
  by (simp add: csv_def)

lemma csv_Cons: "csv (f # fs) = f @ 0x2C # csv fs"
  by (simp add: csv_def)

lemma comma_scan_csv:
  "list_all (list_all field_char) fs \<Longrightarrow> unat cx = length fs \<Longrightarrow>
   comma_scan (csv fs @ r) cx k = Inr (of_nat (k + length (csv fs)))"
proof (induction fs arbitrary: cx k)
  case Nil
  then have "cx = 0" by (simp add: unat_eq_zero)
  then show ?case by (cases r) auto
next
  case (Cons f fs)
  have nz: "cx \<noteq> 0" using Cons.prems(2) by auto
  have u: "unat (cx - 1) = length fs"
    using Cons.prems(2) nz by (simp add: unat_minus_one)
  have "comma_scan (csv (f # fs) @ r) cx k
        = comma_scan (f @ 0x2C # (csv fs @ r)) cx k" by (simp add: csv_Cons)
  also have "\<dots> = comma_scan (csv fs @ r) (cx - 1) (k + length f + 1)"
    using Cons.prems nz by (intro comma_scan_field) auto
  also have "\<dots> = Inr (of_nat (k + length f + 1 + length (csv fs)))"
    using Cons.prems u by (intro Cons.IH) auto
  finally show ?case by (simp add: csv_Cons add_ac)
qed

section \<open>Reading a number\<close>

lemma digit_sum_dec:
  assumes "\<forall>j < n. mem_at buf (off + j) = Inr (ds ! j)" "length ds = n" "n \<le> 255"
    and "i \<le> n" "list_all is_dig ds"
  shows "digit_sum buf off n i acc = Inr (acc + of_nat (dec_val (drop i ds)))"
  using assms
proof (induction buf off n i acc rule: digit_sum.induct)
  case (1 buf off n i acc)
  show ?case
  proof (cases "i < n")
    case False
    with "1.prems" show ?thesis by (subst digit_sum.simps) simp
  next
    case True
    let ?d = "ds ! i"
    have dig: "is_dig ?d" using "1.prems" True by (auto simp: list_all_length)
    have m: "mem_at buf (off + i) = Inr ?d" using "1.prems"(1) True by blast
    have dr: "drop i ds = ?d # drop (Suc i) ds"
      using True "1.prems"(2) by (simp add: Cons_nth_drop_Suc)
    have c: "(ucast ?d - 0x30 :: u32) = of_nat (dval ?d)"
    proof -
      have "(ucast ?d :: u32) = of_nat (unat ?d)" by simp
      then show ?thesis by (simp add: unat_dig [OF dig])
    qed
    have p: "NMEA_Pow 10 (of_nat (n - 1 - i)) = of_nat (10 ^ (n - 1 - i))"
    proof -
      have "n - 1 - i < 2 ^ LENGTH(8)" using "1.prems"(3) by simp
      then show ?thesis by (simp only: NMEA_Pow_10 unat_of_nat_small)
    qed
    have l: "length (drop (Suc i) ds) = n - 1 - i" using "1.prems"(2) by simp
    have "digit_sum buf off n i acc
          = digit_sum buf off n (Suc i) (acc + NMEA_Pow 10 (of_nat (n - 1 - i)) * (ucast ?d - 0x30))"
      using True m by (simp add: digit_sum.simps [of buf off n i acc])
    also have "\<dots> = Inr (acc + NMEA_Pow 10 (of_nat (n - 1 - i)) * (ucast ?d - 0x30)
                        + of_nat (dec_val (drop (Suc i) ds)))"
      using "1.prems" True by (intro "1.IH") auto
    also have "\<dots> = Inr (acc + of_nat (dec_val (drop i ds)))"
      using "1.prems"(2) by (simp add: p [simplified] c dr l ac_simps)
    finally show ?thesis .
  qed
qed

lemma mem_at_append_nth:
  "j < length ds \<Longrightarrow> mem_at (a @ ds @ r) (length a + j) = Inr (ds ! j)"
  by (simp add: mem_at_def nth_append)

lemma digit_sum_at:
  assumes "list_all is_dig ds" "length ds \<le> 255"
  shows "digit_sum (a @ ds @ r) (length a) (length ds) 0 0 = Inr (of_nat (dec_val ds))"
proof -
  have "digit_sum (a @ ds @ r) (length a) (length ds) 0 0 = Inr (0 + of_nat (dec_val (drop 0 ds)))"
    using assms by (intro digit_sum_dec) (auto simp: mem_at_append_nth)
  then show ?thesis by simp
qed

lemma is_dig_cases: "is_dig c \<Longrightarrow> c \<noteq> 0x2C \<and> c \<noteq> 0x2A \<and> c \<noteq> 0x2E \<and> c \<noteq> 0x2D \<and> \<not> c > 0x39 \<and> \<not> c < 0x30"
  by (auto simp: is_dig_def)

lemma num_len_digit:
  "is_dig c \<Longrightarrow> num_len (c # cs) (il, fl, mk) = num_len cs (count_digit (il, fl, mk))"
  by (subst num_len.simps) (simp add: num_char_def is_dig_cases)

lemma num_len_int_digits:
  "list_all is_dig ds \<Longrightarrow> mk AND 1 = 0 \<Longrightarrow>
   num_len (ds @ r) (il, fl, mk) = num_len r (il + of_nat (length ds), fl, mk)"
  by (induction ds arbitrary: il) (auto simp: num_len_digit count_digit_def add_ac)

lemma num_len_frac_digits:
  "list_all is_dig ds \<Longrightarrow> mk AND 1 \<noteq> 0 \<Longrightarrow>
   num_len (ds @ r) (il, fl, mk) = num_len r (il, fl + of_nat (length ds), mk)"
  by (induction ds arbitrary: fl) (auto simp: num_len_digit count_digit_def add_ac)

lemma num_len_end: "c = 0x2C \<or> c = 0x2A \<Longrightarrow> num_len (c # r) (il, fl, mk) = Inr (il, fl, mk)"
  by (subst num_len.simps) (auto simp: num_char_def)

lemma num_len_point:
  "num_len (0x2E # d # cs) (il, fl, mk) = num_len cs (count_digit (il, fl, mk OR 1))"
  by (subst num_len.simps) (simp add: num_char_def)

text \<open>A signed fixed-point field: optional minus, digits, and a point with at least one decimal.\<close>

definition num_text :: "bool \<Rightarrow> mem \<Rightarrow> mem \<Rightarrow> mem" where
  "num_text neg ip fp =
     (if neg then [0x2D] else []) @ ip @ (if fp = [] then [] else 0x2E # fp)"

lemma or1_and1 [simp]: "(mk OR 1) AND 1 = (1 :: u8)"
  by (simp add: bit_eq_iff bit_simps)

lemma count_digit_frac: "count_digit (il, fl, mk OR 1) = (il, fl + 1, mk OR 1)"
  by (simp add: count_digit_def)

lemma num_len_unsigned:
  assumes "list_all is_dig ip" "list_all is_dig fp" "t = 0x2C \<or> t = 0x2A" "mk AND 1 = 0"
  shows "num_len (ip @ (if fp = [] then [] else 0x2E # fp) @ t # r) (0, 0, mk) =
         Inr (of_nat (length ip), of_nat (length fp), if fp = [] then mk else mk OR 1)"
proof (cases fp)
  case Nil
  then show ?thesis using assms num_len_int_digits [of ip mk "t # r" 0 0] by (simp add: num_len_end)
next
  case (Cons d fp')
  have "num_len (ip @ 0x2E # d # fp' @ t # r) (0, 0, mk)
        = num_len (0x2E # d # fp' @ t # r) (of_nat (length ip), 0, mk)"
    using assms num_len_int_digits [of ip mk _ 0 0] by simp
  also have "\<dots> = num_len (fp' @ t # r) (of_nat (length ip), 1, mk OR 1)"
    by (simp add: num_len_point count_digit_frac)
  also have "\<dots> = num_len (t # r) (of_nat (length ip), 1 + of_nat (length fp'), mk OR 1)"
    using assms Cons by (intro num_len_frac_digits) auto
  also have "\<dots> = Inr (of_nat (length ip), 1 + of_nat (length fp'), mk OR 1)"
    using assms(3) by (rule num_len_end)
  finally show ?thesis using Cons by simp
qed

lemma num_len_minus:
  "d \<noteq> 0x2D \<Longrightarrow> num_len (0x2D # d # cs) (il, fl, mk) = num_len (d # cs) (il, fl, mk OR 2)"
  by (simp add: num_len.simps [of "0x2D # d # cs"] num_len.simps [of "d # cs"])

lemma num_len_text:
  assumes "list_all is_dig ip" "list_all is_dig fp" "t = 0x2C \<or> t = 0x2A"
  shows "num_len (num_text neg ip fp @ t # r) (0, 0, 0) =
         Inr (of_nat (length ip), of_nat (length fp),
              (if neg then 2 else 0) OR (if fp = [] then 0 else 1))"
proof (cases neg)
  case False
  then show ?thesis using num_len_unsigned [OF assms, of 0 r] by (simp add: num_text_def)
next
  case True
  let ?u = "ip @ (if fp = [] then [] else 0x2E # fp) @ t # r"
  obtain d ds where d: "?u = d # ds" by (cases ?u) auto
  moreover have "d \<noteq> 0x2D"
    using d assms by (cases ip) (auto simp: is_dig_def split: if_splits)
  ultimately have "num_len (0x2D # ?u) (0, 0, 0) = num_len ?u (0, 0, 2)"
    using num_len_minus [of d ds 0 0 0] by simp
  then show ?thesis using True num_len_unsigned [OF assms, of 2 r] by (simp add: num_text_def)
qed

lemma or_mask_2 [simp]:
  "((if neg then 2 else 0) OR (if b then 0 else (1::u8))) AND 2 = (if neg then 2 else 0)"
  by simp

text \<open>The value a fixed-point text denotes, in units of the kept decimals.\<close>

definition num_value :: "bool \<Rightarrow> mem \<Rightarrow> mem \<Rightarrow> s32" where
  "num_value neg ip fp =
     (let v = of_nat (dec_val (ip @ take 5 fp)) in if neg then - v else v)"

lemma digit_sum_0 [simp]: "digit_sum buf off 0 i acc = Inr acc"
  by (subst digit_sum.simps) simp

lemma min5_word:
  assumes "n \<le> 255"
  shows "unat (if (of_nat n :: u8) > 5 then 5 else of_nat n :: u8) = min 5 n"
proof -
  have "unat (of_nat n :: u8) = n" using assms by (intro unat_of_nat_small) simp
  then show ?thesis by (simp add: word_less_nat_alt)
qed

lemma frac_sum:
  assumes "list_all is_dig fp" "length fp \<le> 255"
  shows "digit_sum (ip @ (if fp = [] then [] else 0x2E # fp) @ t # r) (length ip + 1)
           (min 5 (length fp)) 0 0 = Inr (of_nat (dec_val (take 5 fp)))"
proof (cases "fp = []")
  case False
  have "digit_sum ((ip @ [0x2E]) @ take 5 fp @ drop 5 fp @ t # r) (length (ip @ [0x2E]))
          (length (take 5 fp)) 0 0 = Inr (of_nat (dec_val (take 5 fp)))"
    using assms by (intro digit_sum_at) (auto simp: list_all_iff dest: in_set_takeD)
  moreover have "(ip @ [0x2E]) @ take 5 fp @ drop 5 fp @ t # r = ip @ (0x2E # fp) @ t # r"
    by (simp flip: append_assoc)
  ultimately show ?thesis using False by (simp only: length_append length_take) (simp add: min.commute)
qed simp

text \<open>
  \<open>NMEA_Str2num\<close> on a well-formed field: it returns the value modulo \<open>2 ^ 32\<close>, with at most
  five decimals kept and their number in \<open>dx\<close>.
\<close>

lemma NMEA_Str2num_text:
  assumes dig: "list_all is_dig ip" "list_all is_dig fp" and t: "t = 0x2C \<or> t = 0x2A"
    and len: "length ip \<le> 255" "length fp \<le> 255"
  shows "NMEA_Str2num (num_text neg ip fp @ t # r) =
         Inr (num_value neg ip fp, of_nat (min 5 (length fp)))"
proof -
  let ?u = "ip @ (if fp = [] then [] else 0x2E # fp) @ t # r"
  let ?fl = "if (of_nat (length fp) :: u8) > 5 then 5 else of_nat (length fp) :: u8"
  have buf: "(if neg then drop 1 (num_text neg ip fp @ t # r) else num_text neg ip fp @ t # r) = ?u"
    by (simp add: num_text_def)
  have il: "unat (of_nat (length ip) :: u8) = length ip"
    using len(1) by (intro unat_of_nat_small) simp
  have fl: "unat ?fl = min 5 (length fp)" using len(2) by (rule min5_word)
  have fw: "?fl = of_nat (min 5 (length fp))"
    by (rule word_unat_eqI) (simp add: fl unat_of_nat_small)
  have a: "digit_sum ?u 0 (length ip) 0 0 = Inr (of_nat (dec_val ip))"
    using digit_sum_at [of ip "[]"] dig(1) len(1) by simp
  have b: "digit_sum ?u (length ip + 1) (min 5 (length fp)) 0 0 = Inr (of_nat (dec_val (take 5 fp)))"
    using dig(2) len(2) by (rule frac_sum)
  have fl': "unat (of_nat (min 5 (length fp)) :: u8) = min 5 (length fp)"
    by (rule unat_of_nat_small) simp
  have p: "NMEA_Pow 10 (of_nat (min 5 (length fp))) = of_nat (10 ^ min 5 (length fp))"
    by (simp only: NMEA_Pow_10 fl')
  have v: "of_nat (dec_val ip) * of_nat (10 ^ min 5 (length fp)) + of_nat (dec_val (take 5 fp))
           = (of_nat (dec_val (ip @ take 5 fp)) :: u32)"
    by (simp add: dec_val_append min.commute)
  have m: "(((if neg then 2 else 0) OR (if fp = [] then 0 else (1::u8))) AND 2 \<noteq> 0) = neg"
    by simp
  show ?thesis
    unfolding NMEA_Str2num_def num_len_text [OF dig t] and_then.simps prod.case Let_def m buf il fw
      fl' a b p v num_value_def ..
qed

end
