(* ===== verification/Binary_Float.thy ===== *)
theory Binary_Float
  imports Complex_Main "HOL-Library.Log_Nat" Prelude
begin

text \<open>
  IEEE 754 binary arithmetic as the target computes it: a value is a rational, and every
  operation is the exact operation followed by rounding to \<open>p\<close> significant bits, to nearest
  with ties to even (\<open>p = 24\<close> for \<open>float\<close>, \<open>53\<close> for \<open>double\<close>).  The exponent range is not
  represented: every value the modelled code computes is 0 or lies between \<open>2^-60\<close> and \<open>2^60\<close>,
  far inside both formats.
\<close>

section \<open>Rounding\<close>

text \<open>The exponent of the leading bit: \<open>2 ^ e \<le> q < 2 ^ (e + 1)\<close>.\<close>

definition lead_exp :: "rat \<Rightarrow> int" where
  "lead_exp q = (if 1 \<le> q then bitlen \<lfloor>q\<rfloor> - 1 else - bitlen (\<lceil>1 / q\<rceil> - 1))"

definition round_even :: "rat \<Rightarrow> int" where
  "round_even x =
     (let f = \<lfloor>x\<rfloor>; d = x - of_int f
      in if d < 1 / 2 then f else if 1 / 2 < d then f + 1 else if even f then f else f + 1)"

definition fl_pos :: "nat \<Rightarrow> rat \<Rightarrow> rat" where
  "fl_pos p q = (let u = 2 powi (lead_exp q + 1 - int p) in of_int (round_even (q / u)) * u)"

definition fl :: "nat \<Rightarrow> rat \<Rightarrow> rat" where
  "fl p q = (if q = 0 then 0 else if 0 < q then fl_pos p q else - fl_pos p (- q))"

text \<open>Conversion to an integer type truncates towards zero.\<close>

definition rtrunc :: "rat \<Rightarrow> int" where
  "rtrunc q = (if 0 \<le> q then \<lfloor>q\<rfloor> else - \<lfloor>- q\<rfloor>)"

abbreviation f32 :: "rat \<Rightarrow> rat" where "f32 \<equiv> fl 24"
abbreviation f64 :: "rat \<Rightarrow> rat" where "f64 \<equiv> fl 53"

definition float_to_u32 :: "rat \<Rightarrow> u32 res" where
  "float_to_u32 q =
     (if - 1 < q \<and> q < 2 ^ 32 then Inr (word_of_int (rtrunc q)) else Inl FloatRange)"

definition float_to_s32 :: "rat \<Rightarrow> s32 res" where
  "float_to_s32 q =
     (if - (2 ^ 31) - 1 < q \<and> q < 2 ^ 31 then Inr (word_of_int (rtrunc q)) else Inl FloatRange)"

section \<open>Error bounds\<close>

lemma round_even_err: "\<bar>of_int (round_even x) - x\<bar> \<le> 1 / 2"
proof -
  have "of_int \<lfloor>x\<rfloor> \<le> x" "x < of_int \<lfloor>x\<rfloor> + 1" by linarith+
  then show ?thesis by (auto simp: round_even_def Let_def)
qed

lemma round_even_of_int [simp]: "round_even (of_int z) = z"
  by (simp add: round_even_def Let_def)

lemma round_even_mono: "x \<le> y \<Longrightarrow> round_even x \<le> round_even y"
proof -
  assume le: "x \<le> y"
  have f: "\<lfloor>x\<rfloor> \<le> \<lfloor>y\<rfloor>" using le by (rule floor_mono)
  have x: "of_int \<lfloor>x\<rfloor> \<le> x" "x < of_int \<lfloor>x\<rfloor> + 1" by linarith+
  have b: "\<lfloor>z\<rfloor> \<le> round_even z \<and> round_even z \<le> \<lfloor>z\<rfloor> + 1" for z
    by (auto simp: round_even_def Let_def)
  show ?thesis
  proof (cases "\<lfloor>x\<rfloor> = \<lfloor>y\<rfloor>")
    case True
    with le show ?thesis by (auto simp: round_even_def Let_def)
  next
    case False
    with f have "\<lfloor>x\<rfloor> + 1 \<le> \<lfloor>y\<rfloor>" by linarith
    with b [of x] b [of y] show ?thesis by linarith
  qed
qed

lemma pow2_le_of_int: "2 ^ k \<le> n \<Longrightarrow> (2::rat) ^ k \<le> of_int n"
  using of_int_le_iff [of "2 ^ k" n, where 'a = rat] by simp

lemma of_int_lt_pow2: "n < 2 ^ k \<Longrightarrow> of_int n + 1 \<le> (2::rat) ^ k"
  using of_int_le_iff [of "n + 1" "2 ^ k", where 'a = rat] by simp

lemma lead_exp_bounds:
  assumes "0 < q"
  shows "2 powi lead_exp q \<le> q" and "q < 2 powi (lead_exp q + 1)"
proof -
  have "2 powi lead_exp q \<le> q \<and> q < 2 powi (lead_exp q + 1)"
  proof (cases "1 \<le> q")
    case True
    define n where "n = \<lfloor>q\<rfloor>"
    have n: "0 < n" "of_int n \<le> q" "q < of_int n + 1"
      using True by (auto simp: n_def) linarith
    define k where "k = nat (bitlen n - 1)"
    have bp: "0 < bitlen n"
      using n(1) bitlen_nonneg [of n] bitlen_eq_zero_iff [of n] by linarith
    have k: "bitlen n - 1 = int k" "bitlen n = int (Suc k)" using bp by (auto simp: k_def)
    have "2 ^ k \<le> n" "n < 2 ^ Suc k"
      using bitlen_bounds [OF n(1)] unfolding k nat_int by auto
    then have a: "(2::rat) ^ k \<le> of_int n" and "of_int n + 1 \<le> (2::rat) ^ Suc k"
      using pow2_le_of_int of_int_lt_pow2 by blast+
    then have "q < 2 ^ Suc k" and "2 ^ k \<le> q" using a n by linarith+
    moreover have "int k + 1 = int (Suc k)" by simp
    ultimately show ?thesis using True
      by (simp add: lead_exp_def n_def [symmetric] k(1) power_int_add)
  next
    case False
    define m where "m = \<lceil>1 / q\<rceil> - 1"
    have q: "1 < 1 / q" using False assms by simp
    have m: "0 < m" "of_int m < 1 / q" "1 / q \<le> of_int m + 1"
      using q by (auto simp: m_def less_ceiling_iff) linarith+
    define k where "k = nat (bitlen m - 1)"
    have bp: "0 < bitlen m"
      using m(1) bitlen_nonneg [of m] bitlen_eq_zero_iff [of m] by linarith
    have k: "bitlen m = int (Suc k)" "bitlen m - 1 = int k" using bp by (auto simp: k_def)
    have "2 ^ k \<le> m" "m < 2 ^ Suc k"
      using bitlen_bounds [OF m(1)] by (simp_all only: k(2) nat_int) (simp only: k(1) nat_int)
    then have a: "(2::rat) ^ k \<le> of_int m" and "of_int m + 1 \<le> (2::rat) ^ Suc k"
      using pow2_le_of_int of_int_lt_pow2 by blast+
    then have "1 / q \<le> 2 ^ Suc k" and "2 ^ k < 1 / q" using a m by linarith+
    then have "1 / 2 ^ Suc k \<le> q" "q < 1 / 2 ^ k"
      using assms by (auto simp: field_simps)
    moreover have l: "lead_exp q = - int (Suc k)"
      using False by (simp add: lead_exp_def m_def [symmetric] k(1))
    moreover have "lead_exp q + 1 = - int k" using l by simp
    ultimately show ?thesis
      by (simp only: power_int_minus power_int_of_nat inverse_eq_divide)
  qed
  then show "2 powi lead_exp q \<le> q" and "q < 2 powi (lead_exp q + 1)" by auto
qed

lemma powi2_pos [simp]: "0 < (2::rat) powi k"
  by simp

lemma lead_exp_le: "0 < q \<Longrightarrow> q < 2 powi k \<Longrightarrow> lead_exp q < k"
proof (rule ccontr)
  assume q: "0 < q" "q < 2 powi k" "\<not> lead_exp q < k"
  then have "(2::rat) powi k \<le> 2 powi lead_exp q" by (intro power_int_increasing) auto
  with lead_exp_bounds(1) [OF q(1)] q(2) show False by linarith
qed

lemma fl_pos_err:
  assumes "0 < q" "q < 2 powi k"
  shows "\<bar>fl_pos p q - q\<bar> \<le> 2 powi (k - 1 - int p)"
proof -
  define u where "u = (2::rat) powi (lead_exp q + 1 - int p)"
  have u: "0 < u" by (simp add: u_def)
  have "fl_pos p q - q = (of_int (round_even (q / u)) - q / u) * u"
    using u unfolding fl_pos_def Let_def u_def [symmetric] by (simp add: left_diff_distrib)
  then have "\<bar>fl_pos p q - q\<bar> = \<bar>of_int (round_even (q / u)) - q / u\<bar> * u"
    using u by (simp add: abs_mult)
  also have "\<dots> \<le> 1 / 2 * u"
    by (rule mult_right_mono [OF round_even_err]) (use u in simp)
  also have "\<dots> = 2 powi (lead_exp q - int p)"
  proof -
    have e: "lead_exp q + 1 - int p = (lead_exp q - int p) + 1" by simp
    have "u = 2 powi (lead_exp q - int p) * 2"
      unfolding u_def e by (rule power_int_add_1) simp
    then show ?thesis by simp
  qed
  also have "\<dots> \<le> 2 powi (k - 1 - int p)"
    using lead_exp_le [OF assms] by (intro power_int_increasing) auto
  finally show ?thesis .
qed

lemma fl_err:
  assumes "0 \<le> q" "q < 2 powi k"
  shows "\<bar>fl p q - q\<bar> \<le> 2 powi (k - 1 - int p)"
  using fl_pos_err [of q k p] assms by (auto simp: fl_def)

lemma fl_nonneg: "0 \<le> q \<Longrightarrow> 0 \<le> fl p q"
proof (cases "q = 0")
  case False
  assume "0 \<le> q"
  have "round_even (of_int 0) \<le> round_even (q / 2 powi (lead_exp q + 1 - int p))"
    using \<open>0 \<le> q\<close> by (intro round_even_mono) simp
  then have "0 \<le> round_even (q / 2 powi (lead_exp q + 1 - int p))"
    by (simp only: round_even_of_int)
  then show ?thesis using \<open>0 \<le> q\<close> False
    by (simp add: fl_def fl_pos_def Let_def)
qed (simp add: fl_def)

text \<open>A multiple of \<open>2 ^ j\<close> below \<open>2 ^ (p + j)\<close> is represented exactly.\<close>

lemma fl_exact:
  assumes "q = of_int z * 2 ^ j" "0 \<le> q" "q < 2 ^ (p + j)"
  shows "fl p q = q"
proof (cases "q = 0")
  case False
  with assms have q: "0 < q" by linarith
  define s where "s = int j - (lead_exp q + 1 - int p)"
  have "q < 2 powi int (p + j)" using assms(3) by (simp only: power_int_of_nat)
  then have "lead_exp q < int (p + j)" by (rule lead_exp_le [OF q])
  then have s: "0 \<le> s" by (simp add: s_def)
  have e: "int j = (lead_exp q + 1 - int p) + int (nat s)" using s by (simp add: s_def)
  have "(2::rat) ^ j = 2 powi int j" by simp
  also have "\<dots> = 2 powi (lead_exp q + 1 - int p) * 2 ^ nat s"
    unfolding e by (subst power_int_add) (simp_all only: power_int_of_nat, simp)
  finally have "q / 2 powi (lead_exp q + 1 - int p) = of_int (z * 2 ^ nat s)"
    by (simp add: assms(1) field_simps)
  then have "fl p q = q / 2 powi (lead_exp q + 1 - int p) * 2 powi (lead_exp q + 1 - int p)"
    using q by (simp only: fl_def fl_pos_def Let_def round_even_of_int) simp
  then show ?thesis by simp
qed (simp add: fl_def)

lemma fl_exact_int: "0 \<le> z \<Longrightarrow> z < 2 ^ p \<Longrightarrow> fl p (of_int z) = of_int z"
proof (rule fl_exact [where z = z and j = 0])
  assume "0 \<le> z" "z < 2 ^ p"
  then show "(of_int z :: rat) < 2 ^ (p + 0)"
    using of_int_lt_pow2 [of z p] by simp
qed auto

lemma rtrunc_bounds: "0 \<le> q \<Longrightarrow> 0 \<le> rtrunc q \<and> of_int (rtrunc q) \<le> q \<and> q < of_int (rtrunc q) + 1"
  by (auto simp: rtrunc_def) linarith

lemma float_to_u32_val:
  assumes "0 \<le> q" "q < 2 ^ 32"
  shows "\<exists>w. float_to_u32 q = Inr w \<and> uint w = \<lfloor>q\<rfloor>"
proof -
  have "\<lfloor>q\<rfloor> < 2 ^ 32" using assms(2) by (simp add: floor_less_iff)
  moreover have "0 \<le> \<lfloor>q\<rfloor>" using assms(1) by simp
  ultimately show ?thesis using assms
    by (simp add: float_to_u32_def rtrunc_def uint_word_of_int)
qed

end
