(* ===== verification/C_Format.thy ===== *)
theory C_Format
  imports Binary_Float
begin

text \<open>
  The conversions of \<open>sprintf\<close> that \<open>gps.c\<close> uses, \<open>%2d\<close>, \<open>%1c\<close> and \<open>%.2f\<close>, into a buffer
  of 50 bytes that was cleared before.
\<close>

section \<open>Definitions\<close>

fun dec_digits :: "nat \<Rightarrow> mem" where
  "dec_digits n =
     (if n < 10 then [of_nat (n + 48)] else dec_digits (n div 10) @ [of_nat (n mod 10 + 48)])"

declare dec_digits.simps [simp del]

definition fmt_int :: "int \<Rightarrow> mem" where
  "fmt_int i = (if i < 0 then [0x2D] else []) @ dec_digits (nat \<bar>i\<bar>)"

definition pad_left :: "nat \<Rightarrow> mem \<Rightarrow> mem" where
  "pad_left w t = replicate (w - length t) 0x20 @ t"

definition fmt_2d :: "s32 \<Rightarrow> mem" where
  "fmt_2d v = pad_left 2 (fmt_int (sint v))"

text \<open>\<open>%.2f\<close> of a value that is not negative: the exact value is rounded to hundredths.\<close>

definition fmt_2f :: "rat \<Rightarrow> mem" where
  "fmt_2f q =
     (let n = nat (round_even (q * 100))
      in dec_digits (n div 100) @ [0x2E, of_nat (n div 10 mod 10 + 48), of_nat (n mod 10 + 48)])"

text \<open>\<open>sprintf(data, ...)\<close> with \<open>char data[50]\<close> set to zero before.\<close>

definition sprintf50 :: "mem \<Rightarrow> mem res" where
  "sprintf50 t = (if length t < 50 then Inr (t @ replicate (50 - length t) 0) else Inl OutOfBounds)"

section \<open>Lengths and contents\<close>

lemma dec_digits_is_dig: "list_all is_dig (dec_digits n)"
proof (induction n rule: dec_digits.induct)
  case (1 n)
  have d: "k < 10 \<Longrightarrow> is_dig (of_nat (k + 48))" for k
  proof -
    assume "k < 10"
    then have "unat (of_nat (k + 48) :: u8) = k + 48" by (intro unat_of_nat_small) simp
    then show ?thesis using \<open>k < 10\<close> by (simp add: is_dig_iff)
  qed
  show ?case
  proof (cases "n < 10")
    case True
    then show ?thesis using d [of n] by (subst dec_digits.simps) (simp del: of_nat_add)
  next
    case False
    then show ?thesis using 1 d [of "n mod 10"] by (subst dec_digits.simps) (simp del: of_nat_add)
  qed
qed

lemma dval_of_nat: "k < 10 \<Longrightarrow> dval (of_nat (k + 48)) = k"
proof -
  assume "k < 10"
  then have "unat (of_nat (k + 48) :: u8) = k + 48" by (intro unat_of_nat_small) simp
  then show ?thesis by (simp add: dval_def)
qed

text \<open>Printing a number and reading it back.\<close>

lemma dec_val_dec_digits: "dec_val (dec_digits n) = n"
proof (induction n rule: dec_digits.induct)
  case (1 n)
  show ?case
  proof (cases "n < 10")
    case True
    then show ?thesis by (subst dec_digits.simps) (simp add: dval_of_nat del: of_nat_add)
  next
    case False
    then have "dec_val (dec_digits n) = dec_val (dec_digits (n div 10)) * 10 + n mod 10"
      by (subst dec_digits.simps) (simp add: dec_val_append dval_of_nat del: of_nat_add)
    with 1 False show ?thesis by simp
  qed
qed

lemma length_dec_digits: "n < 10 ^ Suc k \<Longrightarrow> length (dec_digits n) \<le> Suc k"
proof (induction k arbitrary: n)
  case 0
  then show ?case by (subst dec_digits.simps) simp
next
  case (Suc k)
  have "n div 10 < 10 ^ Suc k" using Suc.prems by (simp add: less_mult_imp_div_less mult.commute)
  then have "length (dec_digits (n div 10)) \<le> Suc k" by (rule Suc.IH)
  then show ?case by (subst dec_digits.simps) simp
qed

lemma length_fmt_int:
  assumes "- (2 ^ 31) \<le> i" "i < 2 ^ 31"
  shows "length (fmt_int i) \<le> 11"
proof -
  have "nat \<bar>i\<bar> < 10 ^ Suc 9" using assms by simp
  then have "length (dec_digits (nat \<bar>i\<bar>)) \<le> Suc 9" by (rule length_dec_digits)
  then show ?thesis by (auto simp: fmt_int_def simp del: nat_abs_int_diff)
qed

lemma length_fmt_2d: "length (fmt_2d v) \<le> 11"
proof -
  have "length (fmt_int (sint v)) \<le> 11"
    using sint_ge [of v] sint_lt [of v] by (intro length_fmt_int) auto
  then show ?thesis by (simp add: fmt_2d_def pad_left_def)
qed

lemma length_fmt_2f:
  assumes "0 \<le> q" "q < 10 ^ 9"
  shows "length (fmt_2f q) \<le> 13"
proof -
  have "round_even (q * 100) \<le> round_even (of_int (10 ^ 11))"
    using assms by (intro round_even_mono) simp
  then have "nat (round_even (q * 100)) \<le> 10 ^ 11" by (simp only: round_even_of_int nat_le_iff) simp
  then have "nat (round_even (q * 100)) div 100 < 10 ^ Suc 9" by simp
  then have "length (dec_digits (nat (round_even (q * 100)) div 100)) \<le> Suc 9"
    by (rule length_dec_digits)
  then show ?thesis by (simp add: fmt_2f_def Let_def)
qed

lemma sprintf50_returns: "length t < 50 \<Longrightarrow> sprintf50 t = Inr (t @ replicate (50 - length t) 0)"
  by (simp add: sprintf50_def)

lemma sprintf50_cstring: "sprintf50 t = Inr d \<Longrightarrow> cstring d \<and> length d = 50"
  by (auto simp: sprintf50_def cstring_append cstring_def split: if_splits)

end
