(* ===== verification/Gps.thy ===== *)
theory Gps
  imports Nmea_Number C_Format
begin

text \<open>
  The NMEA analyser of \<open>applications/gps.c\<close>: the message record of \<open>gps.h\<close>, one function per
  sentence handler, and the dispatcher \<open>GPS_Analysis\<close>.  A handler works on the buffer the receive
  thread filled; the calls it makes to the display and to the log are recorded in order.
\<close>

section \<open>State\<close>

record nmea_slmsg =
  num :: u8
  eledeg :: u8
  azideg :: u16
  sn :: u8

record nmea_utc_time =
  year :: u16
  month :: u8
  date :: u8
  hour :: u8
  minute :: u8
  sec :: u8

record nmea_msg =
  svnum :: u8
  slmsg :: "nmea_slmsg list"
  utc :: nmea_utc_time
  latitude :: u32
  nshemi :: u8
  longitude :: u32
  ewhemi :: u8
  gpssta :: u8
  posslnum :: u8
  possl :: "u8 list"
  fixmode :: u8
  pdop :: u16
  hdop :: u16
  vdop :: u16
  altitude :: s32
  speed :: u16

text \<open>A call \<open>LCD_ShowString(x, y, width, height, size, data)\<close>.\<close>

datatype show_req = ShowString u16 u16 u16 u16 u8 mem

text \<open>
  The globals the handlers use: \<open>gps_data\<close>, the static \<open>count\<close> of \<open>NMEA_GNRMC_Analysis\<close>, the
  requests made to the display and the lines logged.
\<close>

record gps_sys =
  gpsx :: nmea_msg
  rmc_count :: u16
  shown :: "show_req list"
  logged :: "mem list"

definition nmea_wf :: "nmea_msg \<Rightarrow> bool" where
  "nmea_wf g \<longleftrightarrow> length (slmsg g) = 12 \<and> length (possl g) = 12"

text \<open>The globals as the loader leaves them: zero, nothing shown or logged.\<close>

definition gps_zero :: gps_sys where
  "gps_zero = \<lparr>gpsx = \<lparr>svnum = 0, slmsg = replicate 12 \<lparr>num = 0, eledeg = 0, azideg = 0, sn = 0\<rparr>,
       utc = \<lparr>year = 0, month = 0, date = 0, hour = 0, minute = 0, sec = 0\<rparr>,
       latitude = 0, nshemi = 0, longitude = 0, ewhemi = 0, gpssta = 0, posslnum = 0,
       possl = replicate 12 0, fixmode = 0, pdop = 0, hdop = 0, vdop = 0, altitude = 0, speed = 0\<rparr>,
     rmc_count = 0, shown = [], logged = []\<rparr>"

definition set_msg :: "(nmea_msg \<Rightarrow> nmea_msg) \<Rightarrow> gps_sys \<Rightarrow> gps_sys" where
  "set_msg f s = s\<lparr>gpsx := f (gpsx s)\<rparr>"

definition show_text :: "u16 \<Rightarrow> u16 \<Rightarrow> mem \<Rightarrow> gps_sys \<Rightarrow> gps_sys" where
  "show_text x y d s = s\<lparr>shown := shown s @ [ShowString x y 100 16 16 d]\<rparr>"

definition log_text :: "mem \<Rightarrow> gps_sys \<Rightarrow> gps_sys" where
  "log_text d s = s\<lparr>logged := logged s @ [str_of d]\<rparr>"

section \<open>Fields\<close>

text \<open>\<open>posx = NMEA_Comma_Pos(p1, cx); if (posx != 0XFF) ...\<close>\<close>

definition with_field :: "mem \<Rightarrow> u8 \<Rightarrow> (mem \<Rightarrow> 's \<Rightarrow> 's res) \<Rightarrow> 's \<Rightarrow> 's res" where
  "with_field p1 cx f s =
     and_then (NMEA_Comma_Pos p1 cx) (\<lambda>posx.
       if posx \<noteq> 0xFF then f (drop (unat posx) p1) s else Inr s)"

text \<open>\<open>... gpsx->f = NMEA_Str2num(p1+posx, &dx)\<close>\<close>

definition num_field :: "mem \<Rightarrow> u8 \<Rightarrow> (s32 \<Rightarrow> 's \<Rightarrow> 's) \<Rightarrow> 's \<Rightarrow> 's res" where
  "num_field p1 cx upd =
     with_field p1 cx (\<lambda>q s. and_then (NMEA_Str2num q) (\<lambda>(v, dx). Inr (upd v s)))"

text \<open>The pointer \<open>strstr\<close> returns, used without a check.\<close>

definition find_tag :: "string \<Rightarrow> mem \<Rightarrow> mem res" where
  "find_tag tag buf =
     and_then (strstr (bytes tag) buf) (\<lambda>r. case r of None \<Rightarrow> Inl NullDeref | Some p \<Rightarrow> Inr p)"

section \<open>\<open>$GPGSV\<close>\<close>

text \<open>
  One of the four assignments of the inner loop: \<open>Inr None\<close> is the \<open>break\<close>.  The store
  \<open>gpsx->slmsg[slx]\<close> has no bound check; an index of 12 or more is outside the array.
\<close>

definition gsv_item ::
  "mem \<Rightarrow> u8 \<Rightarrow> nat \<Rightarrow> (s32 \<Rightarrow> nmea_slmsg \<Rightarrow> nmea_slmsg) \<Rightarrow> nmea_msg \<Rightarrow> (nmea_msg option) res" where
  "gsv_item p1 cx slx upd g =
     and_then (NMEA_Comma_Pos p1 cx) (\<lambda>posx.
       if posx = 0xFF then Inr None
       else and_then (NMEA_Str2num (drop (unat posx) p1)) (\<lambda>(v, dx).
         if slx < length (slmsg g)
         then Inr (Some (g\<lparr>slmsg := (slmsg g)[slx := upd v (slmsg g ! slx)]\<rparr>))
         else Inl OutOfBounds))"

definition gsv_setters :: "(s32 \<Rightarrow> nmea_slmsg \<Rightarrow> nmea_slmsg) list" where
  "gsv_setters =
     [\<lambda>v m. m\<lparr>num := ucast v\<rparr>, \<lambda>v m. m\<lparr>eledeg := ucast v\<rparr>,
      \<lambda>v m. m\<lparr>azideg := ucast v\<rparr>, \<lambda>v m. m\<lparr>sn := ucast v\<rparr>]"

text \<open>The four assignments in order, up to a \<open>break\<close>: the flag says that all were made.\<close>

fun gsv_sat ::
  "mem \<Rightarrow> u8 \<Rightarrow> nat \<Rightarrow> (s32 \<Rightarrow> nmea_slmsg \<Rightarrow> nmea_slmsg) list \<Rightarrow> nmea_msg \<Rightarrow> (bool \<times> nmea_msg) res" where
  "gsv_sat p1 cx slx [] g = Inr (True, g)"
| "gsv_sat p1 cx slx (upd # upds) g =
     and_then (gsv_item p1 cx slx upd g) (\<lambda>r.
       case r of None \<Rightarrow> Inr (False, g) | Some g' \<Rightarrow> gsv_sat p1 (cx + 1) slx upds g')"

text \<open>The loop over \<open>j\<close>: \<open>n\<close> satellites are left, \<open>j = 4 - n\<close>.\<close>

fun gsv_inner :: "nat \<Rightarrow> mem \<Rightarrow> nat \<Rightarrow> nmea_msg \<Rightarrow> (nat \<times> nmea_msg) res" where
  "gsv_inner 0 p1 slx g = Inr (slx, g)"
| "gsv_inner (Suc n) p1 slx g =
     and_then (gsv_sat p1 (of_nat (4 + (3 - n) * 4)) slx gsv_setters g) (\<lambda>(all, g').
       if all then gsv_inner n p1 (Suc slx) g' else Inr (slx, g'))"

text \<open>The loop over \<open>i\<close>: \<open>n\<close> sentences are left; \<open>p\<close> is where the next search starts.\<close>

fun gsv_outer :: "nat \<Rightarrow> mem \<Rightarrow> nat \<Rightarrow> nmea_msg \<Rightarrow> nmea_msg res" where
  "gsv_outer 0 p slx g = Inr g"
| "gsv_outer (Suc n) p slx g =
     and_then (find_tag ''$GPGSV'' p) (\<lambda>p1.
       and_then (gsv_inner 4 p1 slx g) (\<lambda>(slx', g'). gsv_outer n (drop 1 p1) slx' g'))"

definition NMEA_GPGSV_Analysis :: "nmea_msg \<Rightarrow> mem \<Rightarrow> nmea_msg res" where
  "NMEA_GPGSV_Analysis g buf =
     and_then (find_tag ''$GPGSV'' buf) (\<lambda>p1.
     and_then (mem_at p1 7) (\<lambda>c.
       let len = c - 0x30
       in and_then (num_field p1 3 (\<lambda>v g. g\<lparr>svnum := ucast v\<rparr>) g) (\<lambda>g1.
          gsv_outer (unat len) buf 0 g1)))"

section \<open>\<open>$GNGGA\<close> and \<open>$GPGSA\<close>\<close>

definition NMEA_GNGGA_Analysis :: "nmea_msg \<Rightarrow> mem \<Rightarrow> nmea_msg res" where
  "NMEA_GNGGA_Analysis g buf =
     and_then (find_tag ''$GNGGA'' buf) (\<lambda>p1.
     and_then (num_field p1 6 (\<lambda>v g. g\<lparr>gpssta := ucast v\<rparr>) g) (\<lambda>g1.
     and_then (num_field p1 7 (\<lambda>v g. g\<lparr>posslnum := ucast v\<rparr>) g1) (\<lambda>g2.
       num_field p1 9 (\<lambda>v g. g\<lparr>altitude := v\<rparr>) g2)))"

text \<open>The loop over \<open>possl\<close>: \<open>n\<close> entries are left, \<open>i = 12 - n\<close>; a missing field ends it.\<close>

fun gsa_sats :: "nat \<Rightarrow> mem \<Rightarrow> nmea_msg \<Rightarrow> nmea_msg res" where
  "gsa_sats 0 p1 g = Inr g"
| "gsa_sats (Suc n) p1 g =
     (let i = 11 - n
      in and_then (NMEA_Comma_Pos p1 (of_nat (3 + i))) (\<lambda>posx.
         if posx = 0xFF then Inr g
         else and_then (NMEA_Str2num (drop (unat posx) p1)) (\<lambda>(v, dx).
           if i < length (possl g)
           then gsa_sats n p1 (g\<lparr>possl := (possl g)[i := ucast v]\<rparr>)
           else Inl OutOfBounds)))"

definition NMEA_GPGSA_Analysis :: "nmea_msg \<Rightarrow> mem \<Rightarrow> nmea_msg res" where
  "NMEA_GPGSA_Analysis g buf =
     and_then (find_tag ''$GPGSA'' buf) (\<lambda>p1.
     and_then (num_field p1 2 (\<lambda>v g. g\<lparr>fixmode := ucast v\<rparr>) g) (\<lambda>g1.
     and_then (gsa_sats 12 p1 g1) (\<lambda>g2.
     and_then (num_field p1 15 (\<lambda>v g. g\<lparr>pdop := ucast v\<rparr>) g2) (\<lambda>g3.
     and_then (num_field p1 16 (\<lambda>v g. g\<lparr>hdop := ucast v\<rparr>) g3) (\<lambda>g4.
       num_field p1 17 (\<lambda>v g. g\<lparr>vdop := ucast v\<rparr>) g4)))))"

section \<open>\<open>GNRMC\<close>\<close>

definition rat_u32 :: "u32 \<Rightarrow> rat" where "rat_u32 w = of_nat (unat w)"
definition rat_s32 :: "s32 \<Rightarrow> rat" where "rat_s32 w = of_int (sint w)"

text \<open>
  \<open>ddmm.mmmm\<close> to degrees times 100000: \<open>rs = temp % NMEA_Pow(10,dx+2)\<close> is a \<open>float\<close>, and the
  sum \<open>deg * NMEA_Pow(10,5) + (rs * NMEA_Pow(10,5-dx)) / 60\<close> is evaluated in \<open>float\<close> and
  truncated to \<open>uint32\<close>.
\<close>

definition to_degrees :: "u32 \<Rightarrow> u8 \<Rightarrow> u32 res" where
  "to_degrees temp dx =
     (let deg = temp div NMEA_Pow 10 (dx + 2);
          rs = f32 (rat_u32 (temp mod NMEA_Pow 10 (dx + 2)));
          m = f32 (f32 (rs * f32 (rat_u32 (NMEA_Pow 10 (5 - dx)))) / 60)
      in float_to_u32 (f32 (f32 (rat_u32 (deg * NMEA_Pow 10 5)) + m)))"

text \<open>Degrees, minutes and seconds for the display, in \<open>float\<close> except for one \<open>double\<close> division.\<close>

definition split_dms :: "u32 \<Rightarrow> (s32 \<times> s32 \<times> s32) res" where
  "split_dms v =
     (let d = v div 100000;
          x = f32 (f32 (f64 (rat_u32 v / 100000)) - f32 (rat_s32 d));
          m = f32 (x * 60)
      in and_then (float_to_s32 m) (\<lambda>fen.
         and_then (float_to_s32 (f32 (f32 (m - f32 (rat_s32 fen)) * 60))) (\<lambda>miao.
           Inr (d, fen, miao))))"

text \<open>\<open>sprintf(data, "%2d:%2d`%2d\"  %1c\n", ...)\<close>\<close>

definition dms_text :: "s32 \<times> s32 \<times> s32 \<Rightarrow> u8 \<Rightarrow> mem" where
  "dms_text p hemi =
     (case p of (d, fen, miao) \<Rightarrow>
        fmt_2d d @ [0x3A] @ fmt_2d fen @ [0x60] @ fmt_2d miao @ [0x22, 0x20, 0x20, hemi, 0x0A])"

text \<open>\<open>sprintf(data, "%.2f  km/h\n", (float)gpsx->speed / 1000)\<close>\<close>

definition speed_text :: "u16 \<Rightarrow> mem" where
  "speed_text v = fmt_2f (f32 (f32 (of_nat (unat v)) / 1000)) @ bytes ''  km/h'' @ [0x0A]"

definition rmc_time :: "mem \<Rightarrow> gps_sys \<Rightarrow> gps_sys res" where
  "rmc_time p1 =
     with_field p1 1 (\<lambda>q s. and_then (NMEA_Str2num q) (\<lambda>(v, dx).
       let temp = v div NMEA_Pow 10 dx
       in Inr (set_msg (\<lambda>g. g\<lparr>utc := (utc g)\<lparr>hour := ucast (temp div 10000),
            minute := ucast ((temp div 100) mod 100), sec := ucast (temp mod 100)\<rparr>\<rparr>) s)))"

text \<open>
  A coordinate: parse, convert, store, format and show it.  The three parts are the automatic
  variables that the log output at the end reads again; \<open>None\<close> is their unassigned state.
\<close>

definition rmc_coord ::
  "mem \<Rightarrow> u8 \<Rightarrow> (u32 \<Rightarrow> nmea_msg \<Rightarrow> nmea_msg) \<Rightarrow> (nmea_msg \<Rightarrow> u8) \<Rightarrow> u16 \<Rightarrow>
   (s32 \<times> s32 \<times> s32) option \<times> gps_sys \<Rightarrow> ((s32 \<times> s32 \<times> s32) option \<times> gps_sys) res" where
  "rmc_coord p1 cx upd hemi y =
     with_field p1 cx (\<lambda>q (parts, s).
       and_then (NMEA_Str2num q) (\<lambda>(v, dx).
       and_then (to_degrees v dx) (\<lambda>deg.
         let s1 = set_msg (upd deg) s
         in and_then (split_dms deg) (\<lambda>dms.
            and_then (sprintf50 (dms_text dms (hemi (gpsx s1)))) (\<lambda>data.
              Inr (Some dms, show_text 108 y data s1))))))"

definition rmc_hemi :: "mem \<Rightarrow> u8 \<Rightarrow> (u8 \<Rightarrow> nmea_msg \<Rightarrow> nmea_msg) \<Rightarrow> gps_sys \<Rightarrow> gps_sys res" where
  "rmc_hemi p1 cx upd =
     with_field p1 cx (\<lambda>q s. and_then (deref q) (\<lambda>c. Inr (set_msg (upd c) s)))"

definition rmc_date :: "mem \<Rightarrow> gps_sys \<Rightarrow> gps_sys res" where
  "rmc_date p1 =
     num_field p1 9 (\<lambda>temp. set_msg (\<lambda>g. g\<lparr>utc := (utc g)\<lparr>date := ucast (temp div 10000),
        month := ucast ((temp div 100) mod 100), year := ucast (2000 + temp mod 100)\<rparr>\<rparr>))"

definition parts_of :: "(s32 \<times> s32 \<times> s32) option \<Rightarrow> (s32 \<times> s32 \<times> s32) res" where
  "parts_of o3 = (case o3 of None \<Rightarrow> Inl UninitRead | Some p \<Rightarrow> Inr p)"

text \<open>Every 200th call logs the position and the speed.\<close>

definition rmc_log ::
  "(s32 \<times> s32 \<times> s32) option \<Rightarrow> (s32 \<times> s32 \<times> s32) option \<Rightarrow> gps_sys \<Rightarrow> gps_sys res" where
  "rmc_log lon lat s =
     (if rmc_count s \<ge> 200
      then let s0 = s\<lparr>rmc_count := 0\<rparr> in
        and_then (parts_of lon) (\<lambda>plon.
        and_then (sprintf50 (dms_text plon (ewhemi (gpsx s0)))) (\<lambda>d1.
        and_then (parts_of lat) (\<lambda>plat.
        and_then (sprintf50 (dms_text plat (nshemi (gpsx s0)))) (\<lambda>d2.
        and_then (sprintf50 (speed_text (speed (gpsx s0)))) (\<lambda>d3.
          Inr (log_text d3 (log_text d2 (log_text d1 s0))))))))
      else Inr s)"

definition NMEA_GNRMC_Analysis :: "gps_sys \<Rightarrow> mem \<Rightarrow> gps_sys res" where
  "NMEA_GNRMC_Analysis s0 buf =
     (let s = s0\<lparr>rmc_count := rmc_count s0 + 1\<rparr> in
      and_then (find_tag ''GNRMC'' buf) (\<lambda>p1.
      and_then (rmc_time p1 s) (\<lambda>s1.
      and_then (rmc_hemi p1 4 (\<lambda>c g. g\<lparr>nshemi := c\<rparr>) s1) (\<lambda>s2.
      and_then (rmc_coord p1 3 (\<lambda>d g. g\<lparr>latitude := d\<rparr>) nshemi 120 (None, s2)) (\<lambda>(lat, s3).
      and_then (rmc_hemi p1 6 (\<lambda>c g. g\<lparr>ewhemi := c\<rparr>) s3) (\<lambda>s4.
      and_then (rmc_coord p1 5 (\<lambda>d g. g\<lparr>longitude := d\<rparr>) ewhemi 80 (None, s4)) (\<lambda>(lon, s5).
      and_then (rmc_date p1 s5) (\<lambda>s6.
        rmc_log lon lat s6))))))))"

section \<open>\<open>$GNVTG\<close> and the dispatcher\<close>

definition NMEA_GNVTG_Analysis :: "gps_sys \<Rightarrow> mem \<Rightarrow> gps_sys res" where
  "NMEA_GNVTG_Analysis s0 buf =
     and_then (find_tag ''$GNVTG'' buf) (\<lambda>p1.
       with_field p1 7 (\<lambda>q s. and_then (NMEA_Str2num q) (\<lambda>(v, dx).
         let sp = (ucast v :: u16);
             sp' = (if dx < 3 then ucast ((ucast sp :: u32) * NMEA_Pow 10 (3 - dx)) else sp);
             s1 = set_msg (\<lambda>g. g\<lparr>speed := sp'\<rparr>) s
         in and_then (sprintf50 (speed_text sp')) (\<lambda>data. Inr (show_text 100 160 data s1)))) s0)"

text \<open>\<open>if (strstr(buf, tag)) handler\<close>\<close>

definition on_tag :: "string \<Rightarrow> (gps_sys \<Rightarrow> mem \<Rightarrow> gps_sys res) \<Rightarrow> mem \<Rightarrow> gps_sys \<Rightarrow> gps_sys res" where
  "on_tag tag h buf s =
     and_then (strstr (bytes tag) buf) (\<lambda>r. case r of None \<Rightarrow> Inr s | Some p \<Rightarrow> h s buf)"

definition lift_msg :: "(nmea_msg \<Rightarrow> mem \<Rightarrow> nmea_msg res) \<Rightarrow> gps_sys \<Rightarrow> mem \<Rightarrow> gps_sys res" where
  "lift_msg h s buf = and_then (h (gpsx s) buf) (\<lambda>g. Inr (s\<lparr>gpsx := g\<rparr>))"

definition GPS_Analysis :: "gps_sys \<Rightarrow> mem \<Rightarrow> gps_sys res" where
  "GPS_Analysis s buf =
     and_then (on_tag ''$GPGSV'' (lift_msg NMEA_GPGSV_Analysis) buf s) (\<lambda>s1.
     and_then (on_tag ''$GNGGA'' (lift_msg NMEA_GNGGA_Analysis) buf s1) (\<lambda>s2.
     and_then (on_tag ''$GPGSA'' (lift_msg NMEA_GPGSA_Analysis) buf s2) (\<lambda>s3.
     and_then (on_tag ''GNRMC'' NMEA_GNRMC_Analysis buf s3) (\<lambda>s4.
       on_tag ''$GNVTG'' NMEA_GNVTG_Analysis buf s4))))"

end
