(* ===== verification/Gps_Degrees.thy ===== *)
theory Gps_Degrees
  imports Gps
begin

text \<open>
  Accuracy of the coordinate conversion of \<open>NMEA_GNRMC_Analysis\<close>: the \<open>float\<close> computation
  against the exact value \<open>(degrees + minutes / 60) * 100000\<close>.
\<close>

section \<open>Exact steps\<close>

lemma unat_add_2: "unat (dx :: u8) \<le> 5 \<Longrightarrow> unat (dx + 2) = unat dx + 2"
  by (simp add: unat_word_ariths)

lemma unat_5_minus: "unat (dx :: u8) \<le> 5 \<Longrightarrow> unat (5 - dx) = 5 - unat dx"
  by (simp add: unat_sub word_le_nat_alt)

lemma pow_dx2: "unat dx \<le> 5 \<Longrightarrow> unat (NMEA_Pow 10 (dx + 2)) = 10 ^ (unat dx + 2)"
  by (simp add: unat_NMEA_Pow_10 unat_add_2)

lemma pow_5dx: "unat dx \<le> 5 \<Longrightarrow> unat (NMEA_Pow 10 (5 - dx)) = 10 ^ (5 - unat dx)"
  by (simp add: unat_NMEA_Pow_10 unat_5_minus)

lemma f32_nat: "n < 2 ^ 24 \<Longrightarrow> f32 (of_nat n) = of_nat n"
  using fl_exact_int [of "int n" 24] by simp

lemma pow10_split: "d \<le> 5 \<Longrightarrow> (10::nat) ^ (d + 2) * 10 ^ (5 - d) = 10 ^ 7"
  by (simp flip: power_add)

lemma minutes_bound: "d \<le> 5 \<Longrightarrow> m < (10::nat) ^ (d + 2) \<Longrightarrow> m * 10 ^ (5 - d) < 10 ^ 7"
  using mult_strict_right_mono [of m "10 ^ (d + 2)" "10 ^ (5 - d)"]
  by (simp only: pow10_split zero_less_power zero_less_numeral simp_thms)

text \<open>The exact value of a field \<open>temp\<close> with \<open>d\<close> decimals, times 100000.\<close>

definition exact_deg :: "nat \<Rightarrow> nat \<Rightarrow> rat" where
  "exact_deg temp d =
     of_nat (temp div 10 ^ (d + 2) * 100000)
     + of_nat (temp mod 10 ^ (d + 2) * 10 ^ (5 - d)) / 60"

section \<open>The rounded sum\<close>

lemma to_degrees_sum:
  assumes dx: "unat dx \<le> 5" and deg: "unat temp div 10 ^ (unat dx + 2) \<le> 180"
  shows "to_degrees temp dx =
         float_to_u32 (f32 (of_nat (unat temp div 10 ^ (unat dx + 2) * 100000)
           + f32 (of_nat (unat temp mod 10 ^ (unat dx + 2) * 10 ^ (5 - unat dx)) / 60)))"
proof -
  let ?D = "unat temp div 10 ^ (unat dx + 2)" and ?M = "unat temp mod 10 ^ (unat dx + 2)"
  have M: "?M < 10 ^ (unat dx + 2)" by simp
  have "(10::nat) ^ (unat dx + 2) \<le> 10 ^ 7" using dx by (intro power_increasing) auto
  moreover have "(10::nat) ^ 7 < 2 ^ 24" by simp
  ultimately have "?M < 2 ^ 24" using M by linarith
  then have rs: "f32 (rat_u32 (temp mod NMEA_Pow 10 (dx + 2))) = of_nat ?M"
    by (simp only: rat_u32_def unat_mod pow_dx2 [OF dx] f32_nat)
  have "(10::nat) ^ (5 - unat dx) \<le> 10 ^ 5" by (intro power_increasing) auto
  then have pw: "f32 (rat_u32 (NMEA_Pow 10 (5 - dx))) = of_nat (10 ^ (5 - unat dx))"
    by (simp only: rat_u32_def pow_5dx [OF dx]) (rule f32_nat, simp)
  have "?M * 10 ^ (5 - unat dx) < 10 ^ 7" by (rule minutes_bound [OF dx M])
  then have prod: "f32 (of_nat ?M * of_nat (10 ^ (5 - unat dx))) = of_nat (?M * 10 ^ (5 - unat dx))"
    by (simp only: of_nat_mult [symmetric]) (rule f32_nat, simp)
  have p5: "unat (NMEA_Pow 10 5) = 100000" using unat_NMEA_Pow_10 [of 5] by simp
  have ud: "unat (temp div NMEA_Pow 10 (dx + 2)) = ?D"
    by (simp add: unat_div pow_dx2 [OF dx])
  have D: "unat (temp div NMEA_Pow 10 (dx + 2) * NMEA_Pow 10 5) = ?D * 100000"
  proof -
    have "?D * 100000 < 2 ^ LENGTH(32)" using deg by simp
    then show ?thesis by (simp only: unat_mult_lem [THEN iffD1] ud p5)
  qed
  have "f32 (rat_u32 (temp div NMEA_Pow 10 (dx + 2) * NMEA_Pow 10 5)) = of_nat (?D * 100000)"
    unfolding rat_u32_def D
  proof (rule fl_exact [where z = "int (?D * 50000)" and j = 1])
    have "?D * 100000 \<le> 180 * 100000" using deg by (rule mult_le_mono1)
    then have "?D * 100000 < 2 ^ 25" by simp
    then have "(of_nat (?D * 100000) :: rat) < of_nat (2 ^ 25)" by (simp only: of_nat_less_iff)
    then show "(of_nat (?D * 100000) :: rat) < 2 ^ (24 + 1)" by simp
  qed auto
  then show ?thesis
    unfolding to_degrees_def Let_def rs pw prod by (simp only:)
qed

lemma exact_deg_parts:
  assumes "d \<le> 5"
  shows "of_nat (temp mod 10 ^ (d + 2) * 10 ^ (5 - d)) / (60::rat) < 166667"
proof -
  have "temp mod 10 ^ (d + 2) * 10 ^ (5 - d) < 10 ^ 7"
    using assms by (intro minutes_bound) auto
  then have "(of_nat (temp mod 10 ^ (d + 2) * 10 ^ (5 - d)) :: rat) < of_nat (10 ^ 7)"
    by (simp only: of_nat_less_iff)
  then show ?thesis by simp
qed

lemma to_degrees_error:
  assumes dx: "unat dx \<le> 5" and deg: "unat temp div 10 ^ (unat dx + 2) \<le> b"
    and b: "b \<le> 180" "b * 100000 + 166668 < 2 ^ k" "k \<le> 25"
  shows "\<exists>w. to_degrees temp dx = Inr w \<and>
         exact_deg (unat temp) (unat dx) - 1 - 1 / 128 - 2 powi (int k - 25) < of_nat (unat w) \<and>
         of_nat (unat w) \<le> exact_deg (unat temp) (unat dx) + 1 / 128 + 2 powi (int k - 25)"
proof -
  define D where "D = unat temp div 10 ^ (unat dx + 2) * 100000"
  define X where "X = (of_nat (unat temp mod 10 ^ (unat dx + 2) * 10 ^ (5 - unat dx)) / 60 :: rat)"
  have E: "exact_deg (unat temp) (unat dx) = of_nat D + X"
    by (simp add: exact_deg_def D_def X_def)
  have X: "0 \<le> X" "X < 166667"
    using exact_deg_parts [OF dx] by (auto simp: X_def)
  have "X < 2 powi 18" using X(2) by simp
  from fl_err [OF X(1) this, of 24] have m: "\<bar>f32 X - X\<bar> \<le> 1 / 128" by simp
  have m0: "0 \<le> f32 X" by (rule fl_nonneg [OF X(1)])
  have "D \<le> b * 100000" using deg by (simp add: D_def)
  then have "D + 166668 < 2 ^ k" using b(2) by linarith
  then have "(of_nat (D + 166668) :: rat) < of_nat (2 ^ k)" by (simp only: of_nat_less_iff)
  then have "of_nat D + f32 X < 2 powi int k"
    using m X(2) unfolding abs_le_iff power_int_of_nat by simp
  from fl_err [OF _ this, of 24] m0
  have s: "\<bar>f32 (of_nat D + f32 X) - (of_nat D + f32 X)\<bar> \<le> 2 powi (int k - 25)"
    by (simp add: diff_diff_eq)
  have s0: "0 \<le> f32 (of_nat D + f32 X)" using m0 by (intro fl_nonneg) simp
  have "(2::rat) ^ k \<le> 2 ^ 25" using b(3) by (intro power_increasing) auto
  moreover have "(2::rat) powi (int k - 25) \<le> 2 powi 0"
    using b(3) by (intro power_int_increasing) auto
  ultimately have "f32 (of_nat D + f32 X) < 2 ^ 32"
    using s \<open>of_nat D + f32 X < 2 powi int k\<close> by (simp add: abs_le_iff)
  from float_to_u32_val [OF s0 this] obtain w where
    w: "float_to_u32 (f32 (of_nat D + f32 X)) = Inr w" "uint w = \<lfloor>f32 (of_nat D + f32 X)\<rfloor>" by blast
  have "(of_nat (unat w) :: rat) = of_int (uint w)" by simp
  then have "of_nat (unat w) \<le> f32 (of_nat D + f32 X)" "f32 (of_nat D + f32 X) < of_nat (unat w) + 1"
    unfolding w(2) by linarith+
  moreover have "to_degrees temp dx = Inr w"
    using to_degrees_sum [OF dx, of temp] deg b(1) w(1) by (simp add: D_def X_def)
  ultimately show ?thesis
    using m s unfolding E abs_le_iff by (intro exI [of _ w] conjI) (assumption | linarith)+
qed

end
