(* ===== verification/Gps_Safety.thy ===== *)
theory Gps_Safety
  imports Gps
begin

text \<open>
  Memory safety of the analyser: on a NUL-terminated buffer the field search and the number reader
  stay inside the buffer, provided no decimal point is the last byte before the terminator
  (\<open>NMEA_Str2num\<close> steps over the byte behind a point without looking at it).
\<close>

section \<open>The field search\<close>

lemma comma_scan_spec:
  "comma_scan m cx k = Inr r \<Longrightarrow> r \<noteq> 0xFF \<Longrightarrow>
   \<exists>j \<le> length m. r = of_nat (k + j) \<and> list_all walkable (take j m) \<and>
     count_list (take j m) 0x2C = unat cx \<and> (if cx = 0 then j = 0 else 0 < j \<and> m ! (j - 1) = 0x2C)"
proof (induction m cx k rule: comma_scan.induct)
  case (1 cx k)
  then show ?case by (auto split: if_splits)
next
  case (2 c cs cx k)
  show ?case
  proof (cases "cx = 0")
    case True
    then show ?thesis using "2.prems" by (intro exI [of _ 0]) auto
  next
    case False
    let ?cx = "if c = 0x2C then cx - 1 else cx"
    from "2.prems" False have ok: "\<not> (c = 0x2A \<or> c < 0x20 \<or> c > 0x7A)"
      and r: "comma_scan cs ?cx (Suc k) = Inr r" by (auto split: if_splits)
    then have w: "walkable c" by (auto simp: walkable_def)
    from "2.IH" [OF False ok r "2.prems"(2)] obtain j where
      j: "j \<le> length cs" "r = of_nat (Suc k + j)" "list_all walkable (take j cs)"
        "count_list (take j cs) 0x2C = unat ?cx" "if ?cx = 0 then j = 0 else 0 < j \<and> cs ! (j - 1) = 0x2C"
      by blast
    have u: "unat (cx - 1) = unat cx - 1" "0 < unat cx"
      using False by (auto simp: unat_minus_one unat_gt_0)
    have "j = 0 \<longrightarrow> c = 0x2C"
      using j(4) u(2) by (cases "j = 0") (auto split: if_splits)
    then have l: "(c # cs) ! (Suc j - 1) = 0x2C"
      using j(4,5) u by (cases "j = 0") (auto simp: nth_Cons' split: if_splits)
    show ?thesis
      by (rule exI [of _ "Suc j"]) (use j w u l in auto)
  qed
qed

lemma walkable_nz: "list_all walkable xs \<Longrightarrow> 0 \<notin> set xs"
  by (auto simp: list_all_iff walkable_def)

lemma cstring_drop_take: "cstring m \<Longrightarrow> 0 \<notin> set (take j m) \<Longrightarrow> cstring (drop j m)"
  by (metis append_take_drop_id cstring_append cstring_def)

lemma cstring_drop_le: "cstring (drop j m) \<Longrightarrow> i \<le> j \<Longrightarrow> cstring (drop i m)"
  by (auto simp: cstring_def dest: set_drop_subset_set_drop [THEN subsetD])

lemma Comma_Pos_cstring:
  assumes "cstring p" "NMEA_Comma_Pos p cx = Inr posx" "posx \<noteq> 0xFF"
  shows "cstring (drop (unat posx) p)"
proof -
  from comma_scan_spec [of p cx 0 posx] assms obtain j where
    j: "posx = of_nat j" "list_all walkable (take j p)" by (auto simp: NMEA_Comma_Pos_def)
  have "cstring (drop j p)"
    using assms(1) walkable_nz [OF j(2)] by (rule cstring_drop_take)
  moreover have "unat posx \<le> j" by (simp add: j(1) unat_of_nat)
  ultimately show ?thesis by (rule cstring_drop_le)
qed

lemma Comma_Pos_returns: "cstring p \<Longrightarrow> \<exists>r. NMEA_Comma_Pos p cx = Inr r"
  unfolding NMEA_Comma_Pos_def by (rule comma_scan_returns)

section \<open>The number reader\<close>

fun point_ok :: "mem \<Rightarrow> bool" where
  "point_ok [] = True"
| "point_ok [c] = True"
| "point_ok (c # d # r) = ((c = 0x2E \<longrightarrow> d \<noteq> 0) \<and> point_ok (d # r))"

lemma point_ok_tl: "point_ok (c # r) \<Longrightarrow> point_ok r"
  by (cases r) auto

lemma point_ok_drop: "point_ok m \<Longrightarrow> point_ok (drop n m)"
  by (induction n arbitrary: m) (auto simp: drop_Suc dest: point_ok_tl split: list.splits
      intro: point_ok_tl simp: tl_def)

definition num_size :: "num_st \<Rightarrow> nat" where
  "num_size st = (case st of (il, fd, mk) \<Rightarrow>
     unat il + unat fd + (if mk AND 1 \<noteq> 0 then 1 else 0) + (if mk AND 2 \<noteq> 0 then 1 else 0))"

lemma mask_bits [simp]:
  "(mk OR 2) AND 1 = mk AND (1::u8)" "(mk OR 1) AND 2 = mk AND (2::u8)" "(mk OR 2) AND 2 = (2::u8)"
  by (auto simp: bit_eq_iff bit_simps)

lemma unat_plus1_le: "unat (w + 1 :: u8) \<le> Suc (unat w)"
  by (metis add.commute le_refl nat_le_linear plus_1_eq_Suc unatSuc unsigned_0 unat_eq_zero zero_le)

lemma count_digit_size: "num_size (count_digit st) \<le> Suc (num_size st)"
  using unat_plus1_le by (auto simp: count_digit_def num_size_def split: prod.splits)

lemma num_char_size:
  assumes "num_char d ds st = Inr (p', st')"
  shows "p' = [] \<or> num_size st' + length p' \<le> Suc (num_size st + length ds)"
proof -
  obtain il fd mk where st: "st = (il, fd, mk)" by (cases st)
  show ?thesis
  proof (cases "d = 0x2E")
    case True
    then have e: "p' = drop 1 ds" "st' = count_digit (il, fd, mk OR 1)"
      using assms st by (auto simp: num_char_def)
    have "num_size (il, fd, mk OR 1) \<le> Suc (num_size st)" by (simp add: num_size_def st)
    then have "num_size st' \<le> Suc (Suc (num_size st))"
      using count_digit_size [of "(il, fd, mk OR 1)"] e by simp
    then show ?thesis using e by (cases ds) auto
  next
    case False
    then have "p' = ds" "st' = count_digit st"
      using assms st by (auto simp: num_char_def split: if_splits)
    then show ?thesis using count_digit_size [of st] by simp
  qed
qed

lemma num_char_stop: "num_char d ds st = Inl st' \<Longrightarrow> num_size st' \<le> num_size st"
  by (auto simp: num_char_def num_size_def split: prod.splits if_splits)

lemma minus_size: "num_size (il, fd, mk OR 2) \<le> Suc (num_size (il, fd, mk))"
  by (simp add: num_size_def)

lemma num_turn_size:
  "num_turn p st = Inr (Inr (p', st')) \<Longrightarrow> p' = [] \<or> num_size st' + length p' \<le> num_size st + length p"
proof (induction p st rule: num_turn.induct)
  case (2 c cs il fd mk)
  then show ?case
    using minus_size [of il fd mk]
    by (auto split: if_splits list.splits dest!: num_char_size)
qed simp

lemma num_turn_stop: "num_turn p st = Inr (Inl st') \<Longrightarrow> num_size st' < num_size st + length p"
proof (induction p st rule: num_turn.induct)
  case (2 c cs il fd mk)
  then show ?case
    using minus_size [of il fd mk]
    by (auto split: if_splits list.splits dest!: num_char_stop)
qed simp

lemma num_len_size: "num_len p st = Inr st' \<Longrightarrow> num_size st' < num_size st + length p"
proof (induction p st rule: num_len.induct)
  case (1 p st)
  show ?case
  proof (cases "num_turn p st")
    case (Inl e)
    with "1.prems" show ?thesis by (simp add: num_len.simps [of p st])
  next
    case (Inr a)
    show ?thesis
    proof (cases a)
      case (Inl s)
      with Inr "1.prems" have "num_turn p st = Inr (Inl st')" by (simp add: num_len.simps [of p st])
      then show ?thesis by (rule num_turn_stop)
    next
      case b: (Inr b)
      obtain p1 st1 where [simp]: "b = (p1, st1)" by (cases b)
      have t: "num_turn p st = Inr (Inr (p1, st1))" using Inr b by simp
      have r: "num_len p1 st1 = Inr st'" using "1.prems" t by (simp add: num_len.simps [of p st])
      then have "p1 \<noteq> []" by (auto simp: num_len.simps [of "[]"])
      then have "num_size st1 + length p1 \<le> num_size st + length p"
        using num_turn_size [OF t] by simp
      moreover have "num_size st' < num_size st1 + length p1"
        using "1.IH" [OF Inr b] r by simp
      ultimately show ?thesis by simp
    qed
  qed
qed

lemma num_turn_frac:
  "num_turn p (il, fd, mk) = Inr (Inr (p', il', fd', mk')) \<Longrightarrow> (fd \<noteq> 0 \<longrightarrow> mk AND 1 \<noteq> 0) \<Longrightarrow>
   (fd' \<noteq> 0 \<longrightarrow> mk' AND 1 \<noteq> 0)"
  by (cases p) (auto simp: num_char_def count_digit_def split: if_splits list.splits)

lemma num_turn_frac_stop:
  "num_turn p (il, fd, mk) = Inr (Inl (il', fd', mk')) \<Longrightarrow> (fd \<noteq> 0 \<longrightarrow> mk AND 1 \<noteq> 0) \<Longrightarrow>
   (fd' \<noteq> 0 \<longrightarrow> mk' AND 1 \<noteq> 0)"
  by (cases p) (auto simp: num_char_def split: if_splits list.splits)

lemma num_len_frac:
  "num_len p (il, fd, mk) = Inr (il', fd', mk') \<Longrightarrow> (fd \<noteq> 0 \<longrightarrow> mk AND 1 \<noteq> 0) \<Longrightarrow>
   (fd' \<noteq> 0 \<longrightarrow> mk' AND 1 \<noteq> 0)"
proof (induction p "(il, fd, mk)" arbitrary: il fd mk rule: num_len.induct)
  case (1 p il fd mk)
  show ?case
  proof (cases "num_turn p (il, fd, mk)")
    case (Inl e)
    with "1.prems" show ?thesis by (simp add: num_len.simps [of p])
  next
    case (Inr a)
    show ?thesis
    proof (cases a)
      case (Inl s)
      with Inr "1.prems" show ?thesis
        using num_turn_frac_stop [of p il fd mk il' fd' mk'] by (simp add: num_len.simps [of p])
    next
      case b: (Inr b)
      obtain p1 i1 f1 m1 where [simp]: "b = (p1, i1, f1, m1)" by (cases b) auto
      have t: "num_turn p (il, fd, mk) = Inr (Inr (p1, i1, f1, m1))" using Inr b by simp
      have r: "num_len p1 (i1, f1, m1) = Inr (il', fd', mk')"
        using "1.prems" t by (simp add: num_len.simps [of p])
      show ?thesis
        using "1.hyps" [OF Inr b, of p1 i1 f1 m1] r num_turn_frac [OF t "1.prems"(2)] by simp
    qed
  qed
qed

lemma num_turn_safe:
  assumes "cstring p" "point_ok p"
  shows "\<exists>r. num_turn p st = Inr r \<and> (\<forall>p' st'. r = Inr (p', st') \<longrightarrow> cstring p' \<and> point_ok p')"
proof -
  obtain c cs where p: "p = c # cs" using assms(1) by (cases p) auto
  obtain il fd mk where st: "st = (il, fd, mk)" by (cases st)
  have ch: "num_char d ds st1 = Inr (p', st') \<Longrightarrow> cstring (d # ds) \<Longrightarrow> point_ok (d # ds) \<Longrightarrow>
            cstring p' \<and> point_ok p'" for d ds st1 p' st'
    by (cases ds) (auto simp: num_char_def cstring_Cons split: prod.splits if_splits
        dest: point_ok_tl)
  show ?thesis
  proof (cases "c = 0x2D")
    case True
    with assms p obtain d ds where cs: "cs = d # ds" by (cases cs) (auto simp: cstring_Cons)
    then have "cstring (d # ds)" "point_ok (d # ds)"
      using assms p True by (auto simp: cstring_Cons)
    then show ?thesis using True p cs st ch by auto
  next
    case False
    then show ?thesis using assms p st ch by auto
  qed
qed

lemma num_len_safe: "cstring p \<Longrightarrow> point_ok p \<Longrightarrow> \<exists>r. num_len p st = Inr r"
proof (induction p st rule: num_len.induct)
  case (1 p st)
  from num_turn_safe [OF "1.prems", of st] obtain r where
    r: "num_turn p st = Inr r" "\<And>p' st'. r = Inr (p', st') \<Longrightarrow> cstring p' \<and> point_ok p'" by blast
  show ?case
  proof (cases r)
    case (Inl s)
    with r(1) show ?thesis by (cases s) (simp add: num_len.simps [of p st])
  next
    case (Inr b)
    obtain p1 st1 where b: "b = (p1, st1)" by (cases b)
    have "\<exists>x. num_len p1 st1 = Inr x"
      using "1.IH" [OF r(1) Inr b [symmetric]] r(2) [of p1 st1] Inr b by simp
    then show ?thesis using r(1) Inr b by (simp add: num_len.simps [of p st])
  qed
qed

lemma digit_sum_returns:
  "off + n \<le> length buf \<Longrightarrow> \<exists>r. digit_sum buf off n i acc = Inr r"
proof (induction buf off n i acc rule: digit_sum.induct)
  case (1 buf off n i acc)
  show ?case
  proof (cases "i < n")
    case True
    then have "mem_at buf (off + i) = Inr (buf ! (off + i))" using "1.prems" by (simp add: mem_at_def)
    then show ?thesis using "1.IH" True "1.prems" by (simp add: digit_sum.simps [of buf off n i acc])
  qed (simp add: digit_sum.simps [of buf off n i acc])
qed

lemma NMEA_Str2num_returns:
  assumes "cstring p" "point_ok p"
  shows "\<exists>v dx. NMEA_Str2num p = Inr (v, dx) \<and> dx \<le> 5"
proof -
  obtain il fd mk where st: "num_len p (0, 0, 0) = Inr (il, fd, mk)"
    using num_len_safe [OF assms, of "(0, 0, 0)"] by auto
  let ?b = "if mk AND 2 \<noteq> 0 then drop 1 p else p" and ?f = "if fd > 5 then 5 else fd"
  have s: "num_size (il, fd, mk) < length p"
    using num_len_size [OF st] by (simp add: num_size_def)
  have fr: "fd \<noteq> 0 \<longrightarrow> mk AND 1 \<noteq> 0" using num_len_frac [OF st] by simp
  have f: "unat ?f \<le> unat fd" by (simp add: word_less_nat_alt)
  have "\<exists>r. digit_sum ?b 0 (unat il) 0 0 = Inr r"
    by (rule digit_sum_returns) (use s in \<open>auto simp: num_size_def split: if_splits\<close>)
  moreover have "\<exists>r. digit_sum ?b (unat il + 1) (unat ?f) 0 0 = Inr r"
  proof (rule digit_sum_returns)
    have lb: "length p \<le> length ?b + (if mk AND 2 \<noteq> 0 then 1 else 0)" by (cases p) auto
    show "unat il + 1 + unat ?f \<le> length ?b"
      using s fr f lb by (cases "fd = 0") (auto simp: num_size_def split: if_splits)
  qed
  ultimately show ?thesis
    by (auto simp: NMEA_Str2num_def st Let_def)
qed

section \<open>The handlers\<close>

lemma with_field_returns:
  assumes "cstring p" "point_ok p"
    and "\<And>q. cstring q \<Longrightarrow> point_ok q \<Longrightarrow> \<exists>s'. f q s = Inr s'"
  shows "\<exists>s'. with_field p cx f s = Inr s'"
proof -
  obtain r where r: "NMEA_Comma_Pos p cx = Inr r" using Comma_Pos_returns [OF assms(1)] by blast
  show ?thesis
  proof (cases "r = 0xFF")
    case True
    with r show ?thesis by (simp add: with_field_def)
  next
    case False
    have "\<exists>s'. f (drop (unat r) p) s = Inr s'"
      using Comma_Pos_cstring [OF assms(1) r False] point_ok_drop [OF assms(2)] by (rule assms(3))
    with r False show ?thesis by (simp add: with_field_def)
  qed
qed

lemma num_field_returns:
  "cstring p \<Longrightarrow> point_ok p \<Longrightarrow> \<exists>s'. num_field p cx upd s = Inr s'"
  unfolding num_field_def
  by (rule with_field_returns) (use NMEA_Str2num_returns in fastforce)+

lemma point_ok_suffix: "point_ok (a @ q) \<Longrightarrow> point_ok q"
  using point_ok_drop [of "a @ q" "length a"] by simp

lemma find_tag_returns:
  assumes "cstring buf" "point_ok buf" "strstr (bytes tag) buf = Inr (Some p)"
  shows "find_tag tag buf = Inr p \<and> cstring p \<and> point_ok p"
  using assms strstr_Some_cstring [OF assms(3,1)] strstr_Some [OF assms(3)]
  by (auto simp: find_tag_def intro: point_ok_suffix)

lemma gsa_sats_returns:
  assumes "cstring p" "point_ok p"
  shows "length (possl g) = 12 \<Longrightarrow> n \<le> 12 \<Longrightarrow> \<exists>g'. gsa_sats n p g = Inr g'"
proof (induction n arbitrary: g)
  case (Suc n)
  obtain r where r: "NMEA_Comma_Pos p (of_nat (3 + (11 - n))) = Inr r"
    using Comma_Pos_returns [OF assms(1)] by blast
  show ?case
  proof (cases "r = 0xFF")
    case True
    with r show ?thesis by (simp add: Let_def)
  next
    case False
    obtain v dx where v: "NMEA_Str2num (drop (unat r) p) = Inr (v, dx)"
      using NMEA_Str2num_returns [OF Comma_Pos_cstring [OF assms(1) r False]
        point_ok_drop [OF assms(2)]] by blast
    have "\<exists>g'. gsa_sats n p (g\<lparr>possl := (possl g)[11 - n := ucast v]\<rparr>) = Inr g'"
      using Suc.prems by (intro Suc.IH) auto
    then show ?thesis using r False v Suc.prems by (simp add: Let_def)
  qed
qed simp

lemma speed_text_short: "length (speed_text v) < 50"
proof -
  define n where "n = unat v"
  have n: "n < 65536" using unsigned_less [of v] by (simp add: n_def)
  then have e: "f32 (of_nat n) = of_nat n" using fl_exact_int [of "int n" 24] by simp
  have x: "0 \<le> (of_nat n / 1000 :: rat)" "(of_nat n / 1000 :: rat) < 2 powi 7"
    using n by simp_all
  have "f32 (of_nat n / 1000) < 10 ^ 9"
    using fl_err [OF x, of 24] x(2) unfolding abs_le_iff by simp
  then have "length (fmt_2f (f32 (of_nat n / 1000))) \<le> 13"
    using fl_nonneg [OF x(1)] by (rule length_fmt_2f [rotated])
  then show ?thesis unfolding speed_text_def n_def [symmetric] e by simp
qed

lemma dms_text_short: "length (dms_text p h) < 50"
proof -
  obtain a b c where p: "p = (a, b, c)" by (cases p)
  show ?thesis using length_fmt_2d [of a] length_fmt_2d [of b] length_fmt_2d [of c]
    by (simp add: dms_text_def p)
qed

end
