(* ===== verification/Gps_Fields.thy ===== *)
theory Gps_Fields
  imports Gps_Degrees Gps_Safety
begin

text \<open>
  What the handlers of \<open>gps.c\<close> store, for sentences given as a list of fields: locating a field
  by its index, the clock and date fields, the coordinates and the display texts.
\<close>

section \<open>Locating a field\<close>

lemma csv_append: "csv (xs @ ys) = csv xs @ csv ys"
  by (simp add: csv_def)

lemma with_field_at:
  assumes "list_all (list_all field_char) fs" "length (csv fs) < 255" "unat cx = length fs"
  shows "with_field (csv fs @ q) cx f s = f q s"
proof -
  have "NMEA_Comma_Pos (csv fs @ q) cx = Inr (of_nat (length (csv fs)))"
    using comma_scan_csv [OF assms(1,3), of q 0] by (simp add: NMEA_Comma_Pos_def)
  moreover have u: "unat (of_nat (length (csv fs)) :: u8) = length (csv fs)"
    using assms(2) by (intro unat_of_nat_small) simp
  moreover have "(of_nat (length (csv fs)) :: u8) \<noteq> 0xFF"
  proof
    assume "(of_nat (length (csv fs)) :: u8) = 0xFF"
    then have "unat (of_nat (length (csv fs)) :: u8) = 255" by simp
    with u assms(2) show False by simp
  qed
  ultimately show ?thesis by (simp add: with_field_def)
qed

lemma csv_nth_split:
  "i < length fs \<Longrightarrow> csv fs @ q = csv (take i fs) @ fs ! i @ 0x2C # csv (drop (Suc i) fs) @ q"
proof -
  assume "i < length fs"
  then have "fs = take i fs @ fs ! i # drop (Suc i) fs" by (rule id_take_nth_drop)
  then have "csv fs = csv (take i fs) @ csv (fs ! i # drop (Suc i) fs)"
    by (metis csv_append)
  then show ?thesis by (simp add: csv_Cons)
qed

lemma length_csv_take: "length (csv (take i fs)) \<le> length (csv fs)"
  by (metis append_take_drop_id csv_append length_append le_add1)

lemma with_field_nth:
  assumes "list_all (list_all field_char) fs" "length (csv fs) < 255"
    and "unat cx = i" "i < length fs"
  shows "with_field (csv fs @ q) cx f s = f (fs ! i @ 0x2C # csv (drop (Suc i) fs) @ q) s"
  unfolding csv_nth_split [OF assms(4), of q]
  using assms length_csv_take [of i fs]
  by (intro with_field_at) (auto simp: list_all_iff dest: in_set_takeD)

lemma find_tag_csv:
  "find_tag tag (csv (bytes tag # fs) @ r) = Inr (csv (bytes tag # fs) @ r)"
proof -
  have "has_prefix (bytes tag) (csv (bytes tag # fs) @ r)"
    by (auto simp: has_prefix_iff csv_Cons)
  moreover have "csv (bytes tag # fs) @ r \<noteq> []" by (simp add: csv_Cons)
  ultimately show ?thesis by (simp add: find_tag_def strstr_hit)
qed

lemma field_char_digit: "is_dig c \<Longrightarrow> field_char c"
  by (auto simp: is_dig_iff field_char_def walkable_def word_le_nat_alt)

lemma field_char_num_text:
  "list_all is_dig ip \<Longrightarrow> list_all is_dig fp \<Longrightarrow> list_all field_char (num_text neg ip fp)"
  by (auto simp: num_text_def list_all_iff field_char_digit) (auto simp: field_char_def walkable_def)

lemma Str2num_field:
  assumes "list_all is_dig ip" "list_all is_dig fp" "length ip \<le> 255" "length fp \<le> 255"
  shows "NMEA_Str2num (num_text neg ip fp @ 0x2C # r) =
         Inr (num_value neg ip fp, of_nat (min 5 (length fp)))"
  using assms by (intro NMEA_Str2num_text) auto

section \<open>Two-digit groups\<close>

definition two :: "nat \<Rightarrow> mem" where
  "two n = [of_nat (n div 10 + 48), of_nat (n mod 10 + 48)]"

lemma is_dig_of_nat: "k < 10 \<Longrightarrow> is_dig (of_nat (k + 48))"
proof -
  assume "k < 10"
  then have "unat (of_nat (k + 48) :: u8) = k + 48" by (intro unat_of_nat_small) simp
  then show ?thesis using \<open>k < 10\<close> by (simp add: is_dig_iff)
qed

lemma two_dig: "n < 100 \<Longrightarrow> list_all is_dig (two n)"
  using is_dig_of_nat [of "n div 10"] is_dig_of_nat [of "n mod 10"]
  by (simp add: two_def del: of_nat_add)

lemma length_two [simp]: "length (two n) = 2"
  by (simp add: two_def)

lemma dec_val_two: "n < 100 \<Longrightarrow> dec_val (two n) = n"
  using dval_of_nat [of "n div 10"] dval_of_nat [of "n mod 10"]
  by (simp add: two_def del: of_nat_add)

lemma dec_val_three_groups:
  assumes "a < 100" "b < 100" "c < 100"
  shows "dec_val (two a @ two b @ two c) = a * 10000 + b * 100 + c"
  using assms by (simp add: dec_val_append dec_val_two)

section \<open>Words of stored values\<close>

lemma unat_num_value:
  "dec_val (ip @ take 5 fp) < 2 ^ 32 \<Longrightarrow> unat (num_value False ip fp) = dec_val (ip @ take 5 fp)"
  by (simp only: num_value_def Let_def if_False) (rule unat_of_nat_small, simp)

lemma unat_ucast_small:
  "unat (v :: 32 word) < 2 ^ LENGTH('a) \<Longrightarrow> unat (ucast v :: 'a::len word) = unat v"
  by (simp add: unsigned_ucast_eq take_bit_nat_eq_self)

lemma min5_unat: "unat (of_nat (min 5 n) :: u8) = min 5 n"
  by (rule unat_of_nat_small) simp

lemma clock_nat:
  assumes "b < 100" "c < (100::nat)"
  shows "(a * 10000 + b * 100 + c) div 10000 = a" "(a * 10000 + b * 100 + c) div 100 = a * 100 + b"
    "(a * 10000 + b * 100 + c) mod 100 = c"
proof -
  show "(a * 10000 + b * 100 + c) div 10000 = a"
    using assms by (intro div_nat_eqI) (simp_all add: mult.commute)
  show d: "(a * 10000 + b * 100 + c) div 100 = a * 100 + b"
    using assms by (intro div_nat_eqI) (simp_all add: mult.commute)
  show "(a * 10000 + b * 100 + c) mod 100 = c"
    using div_mult_mod_eq [of "a * 10000 + b * 100 + c" 100] unfolding d by (simp add: add_mult_distrib)
qed

lemma clock_parts:
  assumes u: "unat (temp :: u32) = a * 10000 + b * 100 + c" and "b < 100" "c < 100"
  shows "unat (temp div 10000) = a" "unat ((temp div 100) mod 100) = b" "unat (temp mod 100) = c"
  using clock_nat [OF assms(2,3), of a] assms(2) by (simp_all add: unat_div unat_mod u)

section \<open>Degrees, minutes and seconds\<close>

lemma fl_err_abs:
  assumes "\<bar>q\<bar> < 2 powi k"
  shows "\<bar>fl p q - q\<bar> \<le> 2 powi (k - 1 - int p)"
proof (cases "0 \<le> q")
  case True
  then show ?thesis using assms by (intro fl_err) auto
next
  case False
  then have "fl p q = - fl p (- q)" by (simp add: fl_def)
  moreover have "\<bar>fl p (- q) - (- q)\<bar> \<le> 2 powi (k - 1 - int p)"
    using False assms by (intro fl_err) auto
  ultimately show ?thesis by (simp add: abs_minus_commute)
qed

lemma fl_lt:
  assumes "\<bar>q\<bar> < 2 powi k" "1 \<le> p"
  shows "\<bar>fl p q\<bar> < 2 powi (k + 1)"
proof -
  have "(2::rat) powi (k - 1 - int p) \<le> 2 powi k"
    using assms(2) by (intro power_int_increasing) auto
  moreover have "\<bar>fl p q\<bar> \<le> \<bar>q\<bar> + \<bar>fl p q - q\<bar>" by linarith
  moreover have "(2::rat) powi (k + 1) = 2 powi k * 2" by (rule power_int_add_1) simp
  ultimately show ?thesis using assms(1) fl_err_abs [OF assms(1), of p] by linarith
qed

lemma float_to_s32_returns: "\<bar>q\<bar> < 2 ^ 31 \<Longrightarrow> float_to_s32 q = Inr (word_of_int (rtrunc q))"
  by (auto simp: float_to_s32_def)

lemma rtrunc_abs: "\<bar>of_int (rtrunc q) :: rat\<bar> \<le> \<bar>q\<bar>"
  by (auto simp: rtrunc_def)

lemma rat_s32_small:
  assumes "\<bar>z\<bar> < 2 ^ 31"
  shows "rat_s32 (word_of_int z) = of_int z"
proof -
  have "- (2 ^ (LENGTH(32) - 1)) \<le> z \<and> z < 2 ^ (LENGTH(32) - 1)" using assms by auto
  then show ?thesis unfolding rat_s32_def by (simp add: signed_of_int signed_take_bit_int_eq_self)
qed

lemma rat_s32_div: "rat_s32 (v div 100000) = of_nat (unat v div 100000)"
proof -
  have "unat v < 2 ^ LENGTH(32)" by (rule unsigned_less)
  then have "unat v div 100000 < 2 ^ 31" by simp
  then have "rat_s32 (word_of_int (int (unat v div 100000))) = of_int (int (unat v div 100000))"
    by (intro rat_s32_small) simp
  moreover have "word_of_int (int (unat v div 100000)) = v div 100000"
  proof (rule word_unat_eqI)
    have "unat (of_nat (unat v div 100000) :: s32) = unat v div 100000"
      using \<open>unat v div 100000 < 2 ^ 31\<close> by (intro unat_of_nat_small) simp
    then show "unat (word_of_int (int (unat v div 100000)) :: s32) = unat (v div 100000)"
      by (simp add: unat_div)
  qed
  ultimately show ?thesis by simp
qed

lemma split_dms_returns: "\<exists>p. split_dms v = Inr p"
proof -
  define n where "n = unat v"
  define q where "q = (of_nat n / 100000 :: rat)"
  define d where "d = n div 100000"
  have qv: "rat_u32 v / 100000 = q" by (simp only: q_def n_def rat_u32_def)
  have "unat v < 2 ^ LENGTH(32)" by (rule unsigned_less)
  then have n: "n < 2 ^ 32" by (simp add: n_def)
  then have "(of_nat n :: rat) < of_nat (2 ^ 32)" by (simp only: of_nat_less_iff)
  then have q: "0 \<le> q" "q < 2 powi 16" by (simp_all add: q_def)
  have dq: "of_nat d \<le> q" "q < of_nat d + 1"
  proof -
    have "d * 100000 \<le> n" "n < d * 100000 + 100000"
      unfolding d_def using div_mult_mod_eq [of n 100000] mod_less_divisor [of 100000 n]
      by linarith+
    then have "of_nat (d * 100000) \<le> (of_nat n :: rat)" "(of_nat n :: rat) < of_nat (d * 100000 + 100000)"
      by (simp_all only: of_nat_le_iff of_nat_less_iff)
    then show "of_nat d \<le> q" "q < of_nat d + 1" by (simp_all add: q_def)
  qed
  have "\<bar>q\<bar> < 2 powi 16" using q by simp
  from fl_err_abs [OF this, of 53] fl_lt [OF this, of 53]
  have a: "\<bar>f64 q - q\<bar> \<le> 1 / 4" "\<bar>f64 q\<bar> < 2 powi 17" by simp_all
  from fl_err_abs [OF a(2), of 24] have b: "\<bar>f32 (f64 q) - f64 q\<bar> \<le> 1 / 4" by simp
  have "d < 2 ^ 24" using n by (simp add: d_def)
  then have "f32 (rat_s32 (v div 100000)) = of_nat d"
    unfolding rat_s32_div n_def [symmetric] d_def [symmetric] by (rule f32_nat)
  then have x0: "\<bar>f32 (f64 q) - f32 (rat_s32 (v div 100000))\<bar> < 2 powi 1"
    using a(1) b dq unfolding abs_le_iff abs_less_iff by simp
  define x where "x = f32 (f32 (f64 q) - f32 (rat_s32 (v div 100000)))"
  have "\<bar>x\<bar> < 4" using fl_lt [OF x0, of 24] by (simp add: x_def)
  then have "\<bar>x * 60\<bar> < 2 powi 8" by (simp add: abs_mult)
  from fl_lt [OF this, of 24] have m: "\<bar>f32 (x * 60)\<bar> < 512" by simp
  define fen where "fen = rtrunc (f32 (x * 60))"
  have fen: "\<bar>(of_int fen :: rat)\<bar> < 512" using rtrunc_abs [of "f32 (x * 60)"] m by (simp add: fen_def)
  then have "\<bar>fen\<bar> < 512" by (metis of_int_abs of_int_less_numeral_iff)
  then have rf: "rat_s32 (word_of_int fen) = of_int fen" by (intro rat_s32_small) simp
  have "\<bar>f32 (of_int fen)\<bar> < 2 powi 10" using fl_lt [of "of_int fen" 9 24] fen by simp
  then have "\<bar>f32 (x * 60) - f32 (of_int fen)\<bar> < 2 powi 11" using m by (simp add: abs_less_iff)
  from fl_lt [OF this, of 24] have "\<bar>f32 (f32 (x * 60) - f32 (of_int fen)) * 60\<bar> < 2 powi 18"
    by (simp add: abs_mult)
  from fl_lt [OF this, of 24] have "\<bar>f32 (f32 (f32 (x * 60) - f32 (of_int fen)) * 60)\<bar> < 2 ^ 31"
    by simp
  then have "float_to_s32 (f32 (f32 (f32 (x * 60) - f32 (rat_s32 (word_of_int fen))) * 60)) =
      Inr (word_of_int (rtrunc (f32 (f32 (f32 (x * 60) - f32 (of_int fen)) * 60))))"
    unfolding rf by (rule float_to_s32_returns)
  moreover have "float_to_s32 (f32 (x * 60)) = Inr (word_of_int fen)"
    unfolding fen_def using m by (intro float_to_s32_returns) simp
  ultimately show ?thesis
    by (simp add: split_dms_def Let_def qv x_def [symmetric])
qed

text \<open>The value \<open>NMEA_Str2num\<close> returns, as an integer.\<close>

lemma Str2num_decimal:
  assumes "list_all is_dig ip" "list_all is_dig fp" "t = 0x2C \<or> t = 0x2A"
    and "length ip + min 5 (length fp) \<le> 9" "length fp \<le> 255"
  shows "\<exists>v dx. NMEA_Str2num (num_text neg ip fp @ t # r) = Inr (v, dx) \<and>
           unat dx = min 5 (length fp) \<and>
           sint v = (if neg then - 1 else 1) * int (dec_val (ip @ take 5 fp))"
proof -
  let ?n = "dec_val (ip @ take 5 fp)"
  have "list_all is_dig (ip @ take 5 fp)"
    using assms(1,2) by (auto simp: list_all_iff dest: in_set_takeD)
  then have "?n < 10 ^ length (ip @ take 5 fp)" by (rule dec_val_lt)
  also have "\<dots> \<le> 10 ^ 9" using assms(4) by (intro power_increasing) (auto simp: min.commute)
  finally have n: "?n < 10 ^ 9" .
  have s: "sint (of_int z :: s32) = z" if "\<bar>z\<bar> < 2 ^ 31" for z
    using that by (simp add: signed_of_int signed_take_bit_int_eq_self)
  have "num_value neg ip fp = of_int ((if neg then - 1 else 1) * int ?n)"
    by (simp add: num_value_def Let_def)
  then have "sint (num_value neg ip fp) = (if neg then - 1 else 1) * int ?n"
    using n by (simp only:) (rule s, simp)
  moreover have "NMEA_Str2num (num_text neg ip fp @ t # r) =
      Inr (num_value neg ip fp, of_nat (min 5 (length fp)))"
    using assms by (intro NMEA_Str2num_text) auto
  ultimately show ?thesis using min5_unat [of "length fp"] by blast
qed

end
