(* ===== verification/Gps_Rmc.thy ===== *)
theory Gps_Rmc
  imports Gps_Fields
begin

text \<open>
  The \<open>GNRMC\<close> and \<open>GNVTG\<close> handlers on well-formed sentences, step by step: each lemma says what one
  part of the handler stores for the field it reads.
\<close>

section \<open>Sentences\<close>

text \<open>A list of fields the search can walk over, short enough for its byte-sized offsets.\<close>

definition sentence :: "mem list \<Rightarrow> bool" where
  "sentence fs \<longleftrightarrow> list_all (list_all field_char) fs \<and> length (csv fs) < 255"

text \<open>A number field: integer and fraction digits.\<close>

definition num_ok :: "mem \<Rightarrow> mem \<Rightarrow> bool" where
  "num_ok ip fp \<longleftrightarrow> list_all is_dig ip \<and> list_all is_dig fp \<and> length ip \<le> 255 \<and> length fp \<le> 255"

lemma sentence_field:
  "sentence fs \<Longrightarrow> unat cx = i \<Longrightarrow> i < length fs \<Longrightarrow>
   with_field (csv fs @ q) cx f s = f (fs ! i @ 0x2C # csv (drop (Suc i) fs) @ q) s"
  unfolding sentence_def by (intro with_field_nth) auto

lemma Str2num_num_ok:
  "num_ok ip fp \<Longrightarrow> NMEA_Str2num (num_text False ip fp @ 0x2C # r) =
     Inr (num_value False ip fp, of_nat (min 5 (length fp)))"
  unfolding num_ok_def by (intro Str2num_field) auto

lemma set_msg_simps [simp]:
  "gpsx (set_msg f s) = f (gpsx s)" "rmc_count (set_msg f s) = rmc_count s"
  "shown (set_msg f s) = shown s" "logged (set_msg f s) = logged s"
  by (simp_all add: set_msg_def)

lemma show_text_simps [simp]:
  "gpsx (show_text x y d s) = gpsx s" "rmc_count (show_text x y d s) = rmc_count s"
  "logged (show_text x y d s) = logged s"
  "shown (show_text x y d s) = shown s @ [ShowString x y 100 16 16 d]"
  by (simp_all add: show_text_def)

lemma log_text_simps [simp]:
  "gpsx (log_text d s) = gpsx s" "rmc_count (log_text d s) = rmc_count s"
  "shown (log_text d s) = shown s" "logged (log_text d s) = logged s @ [str_of d]"
  by (simp_all add: log_text_def)

section \<open>Time and date\<close>

lemma time_value:
  assumes "h < 24" "m < 60" "s < 60" "list_all is_dig tf" "length tf \<le> 4"
  shows "unat (num_value False (two h @ two m @ two s) tf div NMEA_Pow 10 (of_nat (min 5 (length tf))))
         = h * 10000 + m * 100 + s"
proof -
  let ?ip = "two h @ two m @ two s" and ?d = "length tf" and ?g = "h * 10000 + m * 100 + s"
  have tf: "take 5 tf = tf" "min 5 ?d = ?d" using assms(5) by simp_all
  have V: "dec_val (?ip @ take 5 tf) = ?g * 10 ^ ?d + dec_val tf"
    using dec_val_append [of ?ip "take 5 tf"] dec_val_three_groups [of h m s] assms(1-3)
    unfolding tf by simp
  have f: "dec_val tf < 10 ^ ?d" using assms(4) by (rule dec_val_lt)
  have p: "(10::nat) ^ ?d \<le> 10 ^ 4" using assms(5) by (intro power_increasing) auto
  have "?g \<le> 235959" using assms by linarith
  then have "?g * 10 ^ ?d \<le> 235959 * 10 ^ 4" using p by (rule mult_le_mono)
  then have "dec_val (?ip @ take 5 tf) < 2 ^ 32" unfolding V using f p by simp
  then have u: "unat (num_value False ?ip tf) = ?g * 10 ^ ?d + dec_val tf"
    using unat_num_value [of ?ip tf] V by simp
  have "unat (NMEA_Pow 10 (of_nat (min 5 ?d))) = 10 ^ ?d"
    using assms(5) unat_NMEA_Pow_10 [of "of_nat (min 5 ?d)"] min5_unat [of ?d] by (simp add: tf)
  then show ?thesis unfolding unat_div u using f by simp
qed

lemma ucast_small8: "unat (v :: u32) < 256 \<Longrightarrow> unat (ucast v :: u8) = unat v"
  by (rule unat_ucast_small) simp

lemma two_groups_ok: "h < 100 \<Longrightarrow> m < 100 \<Longrightarrow> s < 100 \<Longrightarrow> list_all is_dig (two h @ two m @ two s)"
  by (simp add: two_dig)

text \<open>The clock part of the record after the time field.\<close>

lemma rmc_time_at:
  assumes fs: "sentence fs" "1 < length fs" "fs ! 1 = num_text False (two h @ two m @ two s) tf"
    and v: "h < 24" "m < 60" "s < 60" "list_all is_dig tf" "length tf \<le> 4"
  shows "\<exists>s'. rmc_time (csv fs @ q) st = Inr s' \<and> rmc_count s' = rmc_count st \<and>
     (\<exists>H M S. gpsx s' = (gpsx st)\<lparr>utc := (utc (gpsx st))\<lparr>hour := H, minute := M, sec := S\<rparr>\<rparr> \<and>
        unat H = h \<and> unat M = m \<and> unat S = s)"
proof -
  let ?t = "num_value False (two h @ two m @ two s) tf div NMEA_Pow 10 (of_nat (min 5 (length tf)))"
  have ok: "num_ok (two h @ two m @ two s) tf"
    using v two_groups_ok [of h m s] by (simp add: num_ok_def)
  have t: "unat ?t = h * 10000 + m * 100 + s" using v by (rule time_value)
  have parts: "unat (?t div 10000) = h" "unat ((?t div 100) mod 100) = m" "unat (?t mod 100) = s"
    using clock_parts [OF t] v by auto
  have "rmc_time (csv fs @ q) st = Inr (set_msg (\<lambda>g. g\<lparr>utc := (utc g)\<lparr>hour := ucast (?t div 10000),
      minute := ucast ((?t div 100) mod 100), sec := ucast (?t mod 100)\<rparr>\<rparr>) st)"
    unfolding rmc_time_def using fs
    by (subst sentence_field [where i = 1]) (simp_all add: Str2num_num_ok [OF ok] Let_def)
  moreover have "unat (ucast (?t div 10000) :: u8) = h" "unat (ucast ((?t div 100) mod 100) :: u8) = m"
    "unat (ucast (?t mod 100) :: u8) = s"
    using v parts by (simp_all only: ucast_small8)
  ultimately show ?thesis by (intro exI conjI) (assumption | simp)+
qed

lemma rmc_date_at:
  assumes fs: "sentence fs" "9 < length fs" "fs ! 9 = num_text False (two d @ two m @ two y) []"
    and v: "d < 100" "m < 100" "y < 100"
  shows "\<exists>s'. rmc_date (csv fs @ q) st = Inr s' \<and> rmc_count s' = rmc_count st \<and>
     (\<exists>D M Y. gpsx s' = (gpsx st)\<lparr>utc := (utc (gpsx st))\<lparr>date := D, month := M, year := Y\<rparr>\<rparr> \<and>
        unat D = d \<and> unat M = m \<and> unat Y = 2000 + y)"
proof -
  let ?t = "num_value False (two d @ two m @ two y) []"
  have ok: "num_ok (two d @ two m @ two y) []"
    using v two_groups_ok [of d m y] by (simp add: num_ok_def)
  have dv: "dec_val (two d @ two m @ two y) = d * 10000 + m * 100 + y"
    using v by (rule dec_val_three_groups)
  have t: "unat ?t = d * 10000 + m * 100 + y"
    using unat_num_value [of "two d @ two m @ two y" "[]"] v unfolding take_Nil append_Nil2 dv by simp
  have parts: "unat (?t div 10000) = d" "unat ((?t div 100) mod 100) = m" "unat (?t mod 100) = y"
    using clock_parts [OF t] v by auto
  have yr: "unat (2000 + ?t mod 100) = 2000 + y"
  proof -
    have "unat (2000 :: u32) + unat (?t mod 100) < 2 ^ LENGTH(32)"
      using v(3) unfolding parts by simp
    then have "unat (2000 + ?t mod 100) = unat (2000 :: u32) + unat (?t mod 100)"
      by (rule unat_add_lem [THEN iffD1])
    then show ?thesis unfolding parts by simp
  qed
  have "rmc_date (csv fs @ q) st = Inr (set_msg (\<lambda>g. g\<lparr>utc := (utc g)\<lparr>date := ucast (?t div 10000),
      month := ucast ((?t div 100) mod 100), year := ucast (2000 + ?t mod 100)\<rparr>\<rparr>) st)"
    unfolding rmc_date_def num_field_def using fs
    by (subst sentence_field [where i = 9]) (simp_all add: Str2num_num_ok [OF ok] Let_def)
  moreover have "unat (ucast (?t div 10000) :: u8) = d" "unat (ucast ((?t div 100) mod 100) :: u8) = m"
    using v parts by (simp_all only: ucast_small8)
  moreover have "unat (ucast (2000 + ?t mod 100) :: u16) = 2000 + y"
    using v(3) yr by (subst unat_ucast_small) simp_all
  ultimately show ?thesis by (intro exI conjI) (assumption | simp)+
qed

section \<open>Coordinates\<close>

lemma rmc_hemi_at:
  assumes "sentence fs" "unat cx = i" "i < length fs" "fs ! i = [c]"
  shows "rmc_hemi (csv fs @ q) cx upd s = Inr (set_msg (upd c) s)"
  unfolding rmc_hemi_def by (simp add: sentence_field [OF assms(1-3)] assms(4))

definition coord_ok :: "mem \<Rightarrow> mem \<Rightarrow> nat \<Rightarrow> bool" where
  "coord_ok ip fp b \<longleftrightarrow> num_ok ip fp \<and>
     dec_val (ip @ take 5 fp) div 10 ^ (min 5 (length fp) + 2) \<le> b"

definition coord_exact :: "mem \<Rightarrow> mem \<Rightarrow> rat" where
  "coord_exact ip fp = exact_deg (dec_val (ip @ take 5 fp)) (min 5 (length fp))"

lemma coord_fits:
  assumes "coord_ok ip fp b" "b \<le> 180"
  shows "dec_val (ip @ take 5 fp) < 2 ^ 32"
proof -
  let ?V = "dec_val (ip @ take 5 fp)" and ?p = "(10::nat) ^ (min 5 (length fp) + 2)"
  have "?p \<le> 10 ^ 7" by (intro power_increasing) auto
  have "?V div ?p \<le> 180" using assms by (simp add: coord_ok_def)
  then have "?V < 181 * ?p" by (simp add: div_less_iff_less_mult [symmetric] del: power_Suc)
  also have "\<dots> \<le> 181 * 10 ^ 7" using \<open>?p \<le> 10 ^ 7\<close> by (rule mult_le_mono2)
  finally show ?thesis by simp
qed

lemma rmc_coord_at:
  assumes fs: "sentence fs" "unat cx = i" "i < length fs" "fs ! i = num_text False ip fp"
    and c: "coord_ok ip fp b" "b \<le> 180" "b * 100000 + 166668 < 2 ^ k" "k \<le> 25"
  shows "\<exists>dms w s'. rmc_coord (csv fs @ q) cx upd hemi y (parts, s) = Inr (Some dms, s') \<and>
     gpsx s' = upd w (gpsx s) \<and> rmc_count s' = rmc_count s \<and>
     coord_exact ip fp - 1 - 1 / 128 - 2 powi (int k - 25) < of_nat (unat w) \<and>
     of_nat (unat w) \<le> coord_exact ip fp + 1 / 128 + 2 powi (int k - 25)"
proof -
  let ?v = "num_value False ip fp" and ?dx = "of_nat (min 5 (length fp)) :: u8"
  have ok: "num_ok ip fp" using c(1) by (simp add: coord_ok_def)
  have uv: "unat ?v = dec_val (ip @ take 5 fp)" using coord_fits [OF c(1,2)] by (rule unat_num_value)
  have ud: "unat ?dx = min 5 (length fp)" by (rule min5_unat)
  have h: "unat ?dx \<le> 5" "unat ?v div 10 ^ (unat ?dx + 2) \<le> b"
    using c(1) unfolding ud uv coord_ok_def by simp_all
  have "\<exists>w. to_degrees ?v ?dx = Inr w \<and>
     exact_deg (unat ?v) (unat ?dx) - 1 - 1 / 128 - 2 powi (int k - 25) < of_nat (unat w) \<and>
     of_nat (unat w) \<le> exact_deg (unat ?v) (unat ?dx) + 1 / 128 + 2 powi (int k - 25)"
    using h c(2-4) by (rule to_degrees_error)
  then obtain w where w: "to_degrees ?v ?dx = Inr w"
    "coord_exact ip fp - 1 - 1 / 128 - 2 powi (int k - 25) < of_nat (unat w)"
    "of_nat (unat w) \<le> coord_exact ip fp + 1 / 128 + 2 powi (int k - 25)"
    unfolding uv ud coord_exact_def by blast
  obtain dms where d: "split_dms w = Inr dms" using split_dms_returns by blast
  let ?t = "dms_text dms (hemi (upd w (gpsx s)))"
  have "rmc_coord (csv fs @ q) cx upd hemi y (parts, s) =
      Inr (Some dms, show_text 108 y (?t @ replicate (50 - length ?t) 0) (set_msg (upd w) s))"
    unfolding rmc_coord_def using fs sprintf50_returns [OF dms_text_short, of dms "hemi (upd w (gpsx s))"]
    by (subst sentence_field [OF fs(1,2,3)]) (simp add: Str2num_num_ok [OF ok] w(1) d Let_def)
  then show ?thesis using w(2,3) by (intro exI conjI) (assumption | simp)+
qed

lemma rmc_log_at:
  "\<exists>s'. rmc_log (Some p) (Some r) s = Inr s' \<and> gpsx s' = gpsx s \<and>
     rmc_count s' = (if rmc_count s \<ge> 200 then 0 else rmc_count s)"
  using sprintf50_returns [OF dms_text_short] sprintf50_returns [OF speed_text_short]
  by (auto simp: rmc_log_def parts_of_def Let_def)

end
