(* ===== verification/Gps_Handlers.thy ===== *)
theory Gps_Handlers
  imports Gps_Rmc
begin

text \<open>
  The contract of a sentence handler, as an interface between the dispatcher \<open>GPS_Analysis\<close> and
  the handlers: called on a terminated buffer that holds its tag, a handler returns, keeps the
  message record well formed and leaves the call counter and the log of the \<open>GNRMC\<close> handler
  alone.  The \<open>GPGSA\<close>, \<open>GNGGA\<close> and \<open>GNVTG\<close> handlers meet it; the \<open>GPGSV\<close> handler meets it for the
  buffers \<open>gsv_single\<close> describes.
\<close>

definition frame :: "gps_sys \<Rightarrow> gps_sys \<Rightarrow> bool" where
  "frame s s' \<longleftrightarrow> nmea_wf (gpsx s') \<and> rmc_count s' = rmc_count s \<and> logged s' = logged s"

text \<open>The counter and the log of the \<open>GNRMC\<close> handler are the same.\<close>

definition same_log :: "gps_sys \<Rightarrow> gps_sys \<Rightarrow> bool" where
  "same_log s s' \<longleftrightarrow> rmc_count s' = rmc_count s \<and> logged s' = logged s"

text \<open>Announces at most one \<open>$GPGSV\<close> sentence: the byte at offset 7 is \<open>'0'\<close> or \<open>'1'\<close>.\<close>

definition gsv_single :: "mem \<Rightarrow> bool" where
  "gsv_single buf \<longleftrightarrow>
     (case strstr (bytes ''$GPGSV'') buf of
        Inr (Some p) \<Rightarrow> mem_at p 7 = Inr 0x30 \<or> mem_at p 7 = Inr 0x31
      | _ \<Rightarrow> True)"

locale handler =
  fixes tag :: string and h :: "gps_sys \<Rightarrow> mem \<Rightarrow> gps_sys res" and admits :: "mem \<Rightarrow> bool"
  assumes safe: "cstring buf \<Longrightarrow> point_ok buf \<Longrightarrow> admits buf \<Longrightarrow> nmea_wf (gpsx s) \<Longrightarrow>
    strstr (bytes tag) buf = Inr (Some p) \<Longrightarrow> \<exists>s'. h s buf = Inr s' \<and> frame s s'"
begin

lemma dispatch:
  assumes "cstring buf" "point_ok buf" "admits buf" "nmea_wf (gpsx s)"
  shows "\<exists>s'. on_tag tag h buf s = Inr s' \<and> frame s s'"
proof -
  obtain r where r: "strstr (bytes tag) buf = Inr r" using strstr_returns [OF assms(1)] by blast
  show ?thesis
  proof (cases r)
    case None
    with r assms(4) show ?thesis by (simp add: on_tag_def frame_def)
  next
    case (Some p)
    with safe [OF assms] r show ?thesis by (simp add: on_tag_def)
  qed
qed

end

section \<open>What the field readers keep\<close>

lemma with_field_keeps:
  assumes "with_field p cx f s = Inr s'" "I s" "\<And>q s'. f q s = Inr s' \<Longrightarrow> I s'"
  shows "I s'"
  using assms by (auto simp: with_field_def split: if_splits)

lemma num_field_keeps:
  assumes "num_field p cx upd s = Inr s'" "I s" "\<And>v. I (upd v s)"
  shows "I s'"
proof -
  let ?f = "\<lambda>q s. and_then (NMEA_Str2num q) (\<lambda>(v, dx). Inr (upd v s))"
  have k: "I s1" if r: "?f q s = Inr s1" for q s1
  proof -
    obtain v dx where "NMEA_Str2num q = Inr (v, dx)" "upd v s = s1"
      using r by (cases "NMEA_Str2num q") auto
    then show ?thesis using assms(3) [of v] by simp
  qed
  show ?thesis
    by (rule with_field_keeps [of p cx ?f s s' I, OF assms(1) [unfolded num_field_def] assms(2) k])
qed

lemma num_field_wf:
  assumes "cstring p" "point_ok p" "nmea_wf g" "\<And>v. nmea_wf (upd v g)"
  shows "\<exists>g'. num_field p cx upd g = Inr g' \<and> nmea_wf g'"
proof -
  obtain g' where g: "num_field p cx upd g = Inr g'" 
    using num_field_returns [OF assms(1,2), of cx upd g] by (elim exE)
  have "nmea_wf g'" by (rule num_field_keeps [where I = nmea_wf, OF g assms(3,4)])
  with g show ?thesis by blast
qed

lemma gsa_sats_wf: "gsa_sats n p g = Inr g' \<Longrightarrow> nmea_wf g \<Longrightarrow> nmea_wf g'"
proof (induction n arbitrary: g)
  case (Suc n)
  show ?case
    using Suc.prems Suc.IH [of "g\<lparr>possl := (possl g)[11 - n := ucast v]\<rparr>" for v]
    by (auto simp: Let_def nmea_wf_def split: if_splits)
qed simp

lemma GNGGA_safe:
  assumes "cstring buf" "point_ok buf" "nmea_wf g" "strstr (bytes ''$GNGGA'') buf = Inr (Some p)"
  shows "\<exists>g'. NMEA_GNGGA_Analysis g buf = Inr g' \<and> nmea_wf g'"
proof -
  have f: "find_tag ''$GNGGA'' buf = Inr p" "cstring p" "point_ok p"
    using find_tag_returns [OF assms(1,2,4)] by auto
  obtain g1 where 1: "num_field p 6 (\<lambda>v g. g\<lparr>gpssta := ucast v\<rparr>) g = Inr g1" "nmea_wf g1"
    using num_field_wf [OF f(2,3) assms(3), of "\<lambda>v g. g\<lparr>gpssta := ucast v\<rparr>" 6] assms(3)
    by (auto simp: nmea_wf_def)
  obtain g2 where 2: "num_field p 7 (\<lambda>v g. g\<lparr>posslnum := ucast v\<rparr>) g1 = Inr g2" "nmea_wf g2"
    using num_field_wf [OF f(2,3) 1(2), of "\<lambda>v g. g\<lparr>posslnum := ucast v\<rparr>" 7] 1(2)
    by (auto simp: nmea_wf_def)
  obtain g3 where 3: "num_field p 9 (\<lambda>v g. g\<lparr>altitude := v\<rparr>) g2 = Inr g3" "nmea_wf g3"
    using num_field_wf [OF f(2,3) 2(2), of "\<lambda>v g. g\<lparr>altitude := v\<rparr>" 9] 2(2)
    by (auto simp: nmea_wf_def)
  show ?thesis using f(1) 1(1) 2(1) 3 by (simp add: NMEA_GNGGA_Analysis_def)
qed

lemma GPGSA_safe:
  assumes "cstring buf" "point_ok buf" "nmea_wf g" "strstr (bytes ''$GPGSA'') buf = Inr (Some p)"
  shows "\<exists>g'. NMEA_GPGSA_Analysis g buf = Inr g' \<and> nmea_wf g'"
proof -
  have f: "find_tag ''$GPGSA'' buf = Inr p" "cstring p" "point_ok p"
    using find_tag_returns [OF assms(1,2,4)] by auto
  obtain g1 where 1: "num_field p 2 (\<lambda>v g. g\<lparr>fixmode := ucast v\<rparr>) g = Inr g1" "nmea_wf g1"
    using num_field_wf [OF f(2,3) assms(3), of "\<lambda>v g. g\<lparr>fixmode := ucast v\<rparr>" 2] assms(3)
    by (auto simp: nmea_wf_def)
  obtain g2 where 2: "gsa_sats 12 p g1 = Inr g2" "nmea_wf g2"
    using gsa_sats_returns [OF f(2,3), of g1 12] gsa_sats_wf [of 12 p g1] 1(2)
    by (auto simp: nmea_wf_def)
  obtain g3 where 3: "num_field p 15 (\<lambda>v g. g\<lparr>pdop := ucast v\<rparr>) g2 = Inr g3" "nmea_wf g3"
    using num_field_wf [OF f(2,3) 2(2), of "\<lambda>v g. g\<lparr>pdop := ucast v\<rparr>" 15] 2(2)
    by (auto simp: nmea_wf_def)
  obtain g4 where 4: "num_field p 16 (\<lambda>v g. g\<lparr>hdop := ucast v\<rparr>) g3 = Inr g4" "nmea_wf g4"
    using num_field_wf [OF f(2,3) 3(2), of "\<lambda>v g. g\<lparr>hdop := ucast v\<rparr>" 16] 3(2)
    by (auto simp: nmea_wf_def)
  obtain g5 where 5: "num_field p 17 (\<lambda>v g. g\<lparr>vdop := ucast v\<rparr>) g4 = Inr g5" "nmea_wf g5"
    using num_field_wf [OF f(2,3) 4(2), of "\<lambda>v g. g\<lparr>vdop := ucast v\<rparr>" 17] 4(2)
    by (auto simp: nmea_wf_def)
  show ?thesis using f(1) 1(1) 2(1) 3(1) 4(1) 5 by (simp add: NMEA_GPGSA_Analysis_def)
qed

lemma frame_lift:
  "h (gpsx s) buf = Inr g' \<Longrightarrow> nmea_wf g' \<Longrightarrow> \<exists>s'. lift_msg h s buf = Inr s' \<and> frame s s'"
  by (simp add: lift_msg_def frame_def)

lemma GNVTG_safe:
  assumes "cstring buf" "point_ok buf" "nmea_wf (gpsx s)"
    and "strstr (bytes ''$GNVTG'') buf = Inr (Some p)"
  shows "\<exists>s'. NMEA_GNVTG_Analysis s buf = Inr s' \<and> frame s s'"
proof -
  have f: "find_tag ''$GNVTG'' buf = Inr p" "cstring p" "point_ok p"
    using find_tag_returns [OF assms(1,2,4)] by auto
  let ?sp = "\<lambda>v dx. if dx < 3 then ucast ((ucast (ucast v :: u16) :: u32) * NMEA_Pow 10 (3 - dx)) else ucast v"
  let ?f = "\<lambda>q s. and_then (NMEA_Str2num q) (\<lambda>(v, dx). and_then (sprintf50 (speed_text (?sp v dx)))
     (\<lambda>data. Inr (show_text 100 160 data (set_msg (\<lambda>g. g\<lparr>speed := ?sp v dx\<rparr>) s))))"
  have eq: "NMEA_GNVTG_Analysis s buf = with_field p 7 ?f s"
    by (simp only: NMEA_GNVTG_Analysis_def f(1) and_then.simps Let_def)
  have sp: "sprintf50 (speed_text v) = Inr (speed_text v @ replicate (50 - length (speed_text v)) 0)" for v
    by (rule sprintf50_returns [OF speed_text_short])
  have fq: "\<exists>s'. ?f q s = Inr s'" if "cstring q" "point_ok q" for q
    using NMEA_Str2num_returns [OF that] by (elim exE conjE) (simp add: sp)
  have k: "frame s s'" if "?f q s = Inr s'" for q s'
    using that assms(3) by (cases "NMEA_Str2num q") (auto simp: sp frame_def nmea_wf_def)
  obtain s' where s: "with_field p 7 ?f s = Inr s'"
    using with_field_returns [OF f(2,3), of ?f s 7] fq by blast
  have "frame s s'"
    by (rule with_field_keeps [of p 7 ?f s s' "frame s", OF s]) (use assms(3) k in \<open>auto simp: frame_def\<close>)
  then show ?thesis unfolding eq using s by simp
qed

section \<open>\<open>GPGSV\<close>\<close>

lemma gsv_item_safe:
  assumes "cstring p" "point_ok p" "nmea_wf g" "slx < 12"
  shows "\<exists>r. gsv_item p cx slx upd g = Inr r \<and> (\<forall>g'. r = Some g' \<longrightarrow> nmea_wf g')"
proof -
  obtain r where r: "NMEA_Comma_Pos p cx = Inr r" using Comma_Pos_returns [OF assms(1)] by blast
  show ?thesis
  proof (cases "r = 0xFF")
    case True
    with r show ?thesis by (simp add: gsv_item_def)
  next
    case False
    obtain v dx where "NMEA_Str2num (drop (unat r) p) = Inr (v, dx)"
      using NMEA_Str2num_returns [OF Comma_Pos_cstring [OF assms(1) r False]
        point_ok_drop [OF assms(2)]] by blast
    with r False assms(3,4) show ?thesis by (simp add: gsv_item_def nmea_wf_def)
  qed
qed

lemma gsv_sat_safe:
  assumes "cstring p" "point_ok p" "slx < 12"
  shows "nmea_wf g \<Longrightarrow> \<exists>b g'. gsv_sat p cx slx upds g = Inr (b, g') \<and> nmea_wf g'"
proof (induction upds arbitrary: cx g)
  case (Cons u us)
  obtain r where r: "gsv_item p cx slx u g = Inr r" "\<forall>g'. r = Some g' \<longrightarrow> nmea_wf g'"
    using gsv_item_safe [OF assms(1,2) Cons.prems assms(3)] by blast
  show ?case
  proof (cases r)
    case None
    with r Cons.prems show ?thesis by auto
  next
    case (Some g1)
    with r Cons.IH [of g1 "cx + 1"] show ?thesis by simp
  qed
qed auto

lemma gsv_inner_safe:
  assumes "cstring p" "point_ok p"
  shows "nmea_wf g \<Longrightarrow> slx + n \<le> 12 \<Longrightarrow>
    \<exists>k g'. gsv_inner n p slx g = Inr (k, g') \<and> nmea_wf g' \<and> k \<le> slx + n"
proof (induction n arbitrary: slx g)
  case (Suc n)
  obtain b g1 where g1: "gsv_sat p (of_nat (4 + (3 - n) * 4)) slx gsv_setters g = Inr (b, g1)" "nmea_wf g1"
    using gsv_sat_safe [OF assms, of slx g] Suc.prems by fastforce
  show ?case
  proof (cases b)
    case True
    have "\<exists>k g'. gsv_inner n p (Suc slx) g1 = Inr (k, g') \<and> nmea_wf g' \<and> k \<le> Suc slx + n"
      using g1(2) Suc.prems(2) by (intro Suc.IH) auto
    then show ?thesis using g1 True by auto
  qed (use g1 in auto)
qed simp

text \<open>What the handler does before its second search for the tag.\<close>

lemma GPGSV_first:
  assumes "cstring buf" "point_ok buf" "nmea_wf g" "strstr (bytes ''$GPGSV'') buf = Inr (Some p)"
    and "mem_at p 7 = Inr c"
  shows "\<exists>g1 k g2. num_field p 3 (\<lambda>v g. g\<lparr>svnum := ucast v\<rparr>) g = Inr g1 \<and>
     gsv_inner 4 p 0 g1 = Inr (k, g2) \<and> nmea_wf g1 \<and> nmea_wf g2 \<and>
     NMEA_GPGSV_Analysis g buf = gsv_outer (unat (c - 0x30)) buf 0 g1 \<and>
     find_tag ''$GPGSV'' buf = Inr p"
proof -
  have f: "find_tag ''$GPGSV'' buf = Inr p" "cstring p" "point_ok p"
    using find_tag_returns [OF assms(1,2,4)] by auto
  obtain g1 where 1: "num_field p 3 (\<lambda>v g. g\<lparr>svnum := ucast v\<rparr>) g = Inr g1" "nmea_wf g1"
    using num_field_wf [OF f(2,3) assms(3), of "\<lambda>v g. g\<lparr>svnum := ucast v\<rparr>" 3] assms(3)
    by (auto simp: nmea_wf_def)
  obtain k g2 where 2: "gsv_inner 4 p 0 g1 = Inr (k, g2)" "nmea_wf g2"
    using gsv_inner_safe [OF f(2,3) 1(2), of 0 4] by auto
  have "NMEA_GPGSV_Analysis g buf = gsv_outer (unat (c - 0x30)) buf 0 g1"
    using f(1) assms(5) 1(1) by (simp add: NMEA_GPGSV_Analysis_def)
  with 1 2 f(1) show ?thesis by blast
qed

lemma GPGSV_safe:
  assumes "cstring buf" "point_ok buf" "gsv_single buf" "nmea_wf g"
    and "strstr (bytes ''$GPGSV'') buf = Inr (Some p)"
  shows "\<exists>g'. NMEA_GPGSV_Analysis g buf = Inr g' \<and> nmea_wf g'"
proof -
  obtain c where c: "mem_at p 7 = Inr c" "c = 0x30 \<or> c = 0x31"
    using assms(3,5) by (auto simp: gsv_single_def)
  have n: "unat (c - 0x30) = 0 \<or> unat (c - 0x30) = Suc 0" using c(2) by auto
  from GPGSV_first [OF assms(1,2,4,5) c(1)] n show ?thesis by auto
qed

section \<open>The handlers meet the contract\<close>

interpretation gsv: handler "''$GPGSV''" "lift_msg NMEA_GPGSV_Analysis" gsv_single
  by unfold_locales (metis GPGSV_safe frame_lift)

interpretation gga: handler "''$GNGGA''" "lift_msg NMEA_GNGGA_Analysis" "\<lambda>buf. True"
  by unfold_locales (metis GNGGA_safe frame_lift)

interpretation gsa: handler "''$GPGSA''" "lift_msg NMEA_GPGSA_Analysis" "\<lambda>buf. True"
  by unfold_locales (metis GPGSA_safe frame_lift)

interpretation vtg: handler "''$GNVTG''" NMEA_GNVTG_Analysis "\<lambda>buf. True"
  by unfold_locales (rule GNVTG_safe)

section \<open>What \<open>GNRMC\<close> keeps before it logs\<close>

lemma same_log_refl [simp]: "same_log s s"
  by (simp add: same_log_def)

lemma same_log_trans: "same_log a b \<Longrightarrow> same_log b c \<Longrightarrow> same_log a c"
  by (simp add: same_log_def)

lemma rmc_time_log: "rmc_time p s = Inr s' \<Longrightarrow> same_log s s'"
  by (auto simp: rmc_time_def with_field_def same_log_def Let_def split: if_splits)

lemma rmc_hemi_log: "rmc_hemi p cx upd s = Inr s' \<Longrightarrow> same_log s s'"
  by (auto simp: rmc_hemi_def with_field_def same_log_def split: if_splits)

lemma rmc_date_log: "rmc_date p s = Inr s' \<Longrightarrow> same_log s s'"
  by (auto simp: rmc_date_def num_field_def with_field_def same_log_def split: if_splits)

lemma rmc_coord_log: "rmc_coord p cx upd hemi y (o3, s) = Inr (o3', s') \<Longrightarrow> same_log s s'"
  by (auto simp: rmc_coord_def with_field_def same_log_def Let_def split: if_splits)

lemmas rmc_keeps_log = rmc_time_log rmc_hemi_log rmc_date_log rmc_coord_log

lemma GNRMC_to_log:
  assumes "NMEA_GNRMC_Analysis s buf = Inr s'"
  shows "\<exists>lon lat s6. same_log (s\<lparr>rmc_count := rmc_count s + 1\<rparr>) s6 \<and> rmc_log lon lat s6 = Inr s'"
  using assms unfolding NMEA_GNRMC_Analysis_def Let_def
  by (elim and_then_Inr_iff [THEN iffD1, elim_format] exE conjE case_prodE; clarsimp)
    (meson rmc_keeps_log same_log_trans)

end
