(* ===== verification/Gps_Uart.thy ===== *)
theory Gps_Uart
  imports Gps
begin

text \<open>
  The receive side of \<open>applications/gps.c\<close>: reading a line from the UART, the receive thread and
  the initialisation.  The UART is an input: the list of the results of the successive calls
  \<open>rt_device_read(uart_device, 0, &ch, 1)\<close>, \<open>Some c\<close> when a byte was read and \<open>None\<close> when none
  was there and the thread waited for the next receive event.
\<close>

section \<open>Definitions\<close>

type_synonym rx = "u8 option list"

text \<open>\<open>uart_getchar\<close>; no result while the input is exhausted (the thread stays blocked).\<close>

fun uart_getchar :: "rx \<Rightarrow> (u8 \<times> rx) option" where
  "uart_getchar [] = None"
| "uart_getchar (None # r) = uart_getchar r"
| "uart_getchar (Some c # r) = Some (c, r)"

lemma uart_getchar_shorter: "uart_getchar inp = Some (c, r) \<Longrightarrow> length r < length inp"
  by (induction inp rule: uart_getchar.induct) auto

text \<open>
  The loop of \<open>data_read\<close>: \<open>count\<close> is a \<open>uint8\<close>, \<open>len\<close> an \<open>int\<close>, so \<open>count <= len\<close> compares
  the byte with the full value.
\<close>

function data_read_loop :: "rx \<Rightarrow> mem \<Rightarrow> u8 \<Rightarrow> int \<Rightarrow> ((mem \<times> u8 \<times> rx) res) option" where
  "data_read_loop inp buff count len =
     (case uart_getchar inp of
        None \<Rightarrow> None
      | Some (c, r) \<Rightarrow>
          if unat count < length buff
          then let buff' = buff[unat count := c]; count' = count + 1
               in if c \<noteq> 0x0A \<and> uint count' \<le> len
                  then data_read_loop r buff' count' len
                  else Some (Inr (buff', count', r))
          else Some (Inl OutOfBounds))"
  by pat_completeness auto
termination
  by (relation "measure (\<lambda>(inp, buff, count, len). length inp)") (auto dest: uart_getchar_shorter)

declare data_read_loop.simps [simp del]

text \<open>\<open>data_read\<close>: the loop, then \<open>buff[count] = 0\<close>.\<close>

definition data_read :: "rx \<Rightarrow> mem \<Rightarrow> int \<Rightarrow> ((mem \<times> rx) res) option" where
  "data_read inp buff len =
     map_option (\<lambda>m. and_then m (\<lambda>(b, count, r).
        if unat count < length b then Inr (b[unat count := 0], r) else Inl OutOfBounds))
       (data_read_loop inp buff 0 len)"

definition GPS_DEVICE_RECV_BUFF_LEN :: nat where "GPS_DEVICE_RECV_BUFF_LEN = 512"

text \<open>One turn of \<open>gps_thread_entry\<close>: read a line, analyse it.\<close>

definition gps_thread_turn :: "rx \<Rightarrow> mem \<Rightarrow> gps_sys \<Rightarrow> ((rx \<times> mem \<times> gps_sys) res) option" where
  "gps_thread_turn inp line s =
     map_option (\<lambda>m. and_then m (\<lambda>(line', r).
        and_then (GPS_Analysis s line') (\<lambda>s'. Inr (r, line', s'))))
       (data_read inp line (int GPS_DEVICE_RECV_BUFF_LEN))"

text \<open>\<open>uart_open\<close>: the error code, or the fault of naming the null device in the message.\<close>

datatype dev_op = SetRxIndicate | OpenRdwrIntRx | InitEvent | FindDevice | Config | CreateThread | StartThread

definition uart_open :: "bool \<Rightarrow> int \<Rightarrow> int \<Rightarrow> (dev_op list \<times> int) res" where
  "uart_open dev_ok res_rx res_open =
     (if dev_ok
      then if res_rx \<noteq> 0 then Inr ([SetRxIndicate], - 1)
           else if res_open \<noteq> 0 then Inr ([SetRxIndicate, OpenRdwrIntRx], - 1)
           else Inr ([SetRxIndicate, OpenRdwrIntRx, InitEvent], 0)
      else Inl NullDeref)"

text \<open>
  \<open>gps_init\<close>: what it does and returns (\<open>RT_EINVAL = 10\<close>, \<open>RT_ERROR = 1\<close>, \<open>RT_EOK = 0\<close>), from
  the results of the calls it makes.
\<close>

definition gps_init :: "bool \<Rightarrow> int \<Rightarrow> int \<Rightarrow> int \<Rightarrow> int \<Rightarrow> bool \<Rightarrow> (dev_op list \<times> int) res" where
  "gps_init dev_ok cfg1 res_rx res_open cfg2 thread_ok =
     (if \<not> dev_ok then Inr ([FindDevice], 10)
      else if cfg1 \<noteq> 0 then Inr ([FindDevice, Config], 1)
      else and_then (uart_open dev_ok res_rx res_open) (\<lambda>(ops, r).
        if r \<noteq> 0 then Inr ([FindDevice, Config] @ ops, 1)
        else if cfg2 \<noteq> 0 then Inr ([FindDevice, Config] @ ops @ [Config], 1)
        else if \<not> thread_ok then Inr ([FindDevice, Config] @ ops @ [Config, CreateThread], 1)
        else Inr ([FindDevice, Config] @ ops @ [Config, CreateThread, StartThread], 0)))"

text \<open>\<open>uart_intput\<close>, the driver's call on reception: the event set afterwards and the result.\<close>

definition UART_RX_EVENT :: u32 where "UART_RX_EVENT = 1"

definition uart_intput :: "u32 \<Rightarrow> u32 \<times> int" where
  "uart_intput event = (event OR UART_RX_EVENT, 0)"

text \<open>
  Output.  The state is the list of the bytes handed to \<open>rt_device_write\<close> so far; \<open>wr\<close> gives what the
  last of them returned.  \<open>n\<close> writes are left of the 500 the loop makes at most.
\<close>

fun putchar_loop :: "nat \<Rightarrow> (mem \<Rightarrow> nat) \<Rightarrow> u8 \<Rightarrow> mem \<Rightarrow> mem" where
  "putchar_loop 0 wr c out = out"
| "putchar_loop (Suc n) wr c out = (if wr (out @ [c]) = 1 then out @ [c] else putchar_loop n wr c (out @ [c]))"

definition uart_putchar :: "(mem \<Rightarrow> nat) \<Rightarrow> u8 \<Rightarrow> mem \<Rightarrow> mem" where
  "uart_putchar wr c out = putchar_loop 500 wr c out"

fun uart_putstring :: "(mem \<Rightarrow> nat) \<Rightarrow> mem \<Rightarrow> mem \<Rightarrow> mem res" where
  "uart_putstring wr [] out = Inl OutOfBounds"
| "uart_putstring wr (c # cs) out = (if c = 0 then Inr out else uart_putstring wr cs (uart_putchar wr c out))"

section \<open>Writing\<close>

lemma putchar_loop_writes: "\<exists>k \<le> n. putchar_loop n wr c out = out @ replicate k c"
proof (induction n arbitrary: out)
  case (Suc n)
  obtain k where "k \<le> n" "putchar_loop n wr c (out @ [c]) = (out @ [c]) @ replicate k c" using Suc by blast
  then show ?case by (intro exI [of _ "if wr (out @ [c]) = 1 then 1 else Suc k"]) auto
qed simp

text \<open>
  A terminated string is written character by character, each at most 500 times in a row, and once
  each when every write succeeds; nothing behind the terminator is read.
\<close>

theorem uart_putstring_writes:
  assumes "cstring p"
  shows "\<exists>ks. uart_putstring wr p out = Inr (out @ concat (map2 replicate ks (str_of p))) \<and> length ks = length (str_of p) \<and>
    list_all (\<lambda>k. k \<le> 500) ks \<and> ((\<forall>h. wr h = 1) \<longrightarrow> list_all (\<lambda>k. k = 1) ks)"
  using assms
proof (induction p arbitrary: out)
  case (Cons c cs)
  show ?case
  proof (cases "c = 0")
    case True
    then show ?thesis by (intro exI [of _ "[]"]) simp
  next
    case False
    obtain k where k: "k \<le> 500" "uart_putchar wr c out = out @ replicate k c"
      using putchar_loop_writes unfolding uart_putchar_def by blast
    have k1: "k = 1" if "\<forall>h. wr h = 1"
      using k(2) that unfolding uart_putchar_def by (simp add: numeral_eq_Suc Cons_replicate_eq)
    obtain ks where "uart_putstring wr cs (out @ replicate k c) = Inr ((out @ replicate k c) @ concat (map2 replicate ks (str_of cs)))"
        "length ks = length (str_of cs)" "list_all (\<lambda>k. k \<le> 500) ks" "(\<forall>h. wr h = 1) \<longrightarrow> list_all (\<lambda>k. k = 1) ks"
      using Cons.IH [of "out @ replicate k c"] cstring_tl [OF Cons.prems False] by blast
    then show ?thesis using False k k1 by (intro exI [of _ "k # ks"]) simp
  qed
qed simp

theorem uart_putstring_writes_witness: "\<exists>ks. uart_putstring (\<lambda>h. 1) [0x41, 0] [] = Inr (concat (map2 replicate ks [0x41])) \<and> length ks = 1"
  using uart_putstring_writes [of "[0x41, 0]" "\<lambda>h. 1" "[]"] by (auto simp: cstring_def)

section \<open>Reading a line\<close>

text \<open>The bytes that arrive.\<close>

fun arrived :: "rx \<Rightarrow> mem" where
  "arrived [] = []"
| "arrived (None # r) = arrived r"
| "arrived (Some c # r) = c # arrived r"

lemma uart_getchar_Cons:
  "arrived inp = c # cs \<Longrightarrow> \<exists>r. uart_getchar inp = Some (c, r) \<and> arrived r = cs"
  by (induction inp rule: uart_getchar.induct) auto

lemma take_Suc_update: "i < length xs \<Longrightarrow> take (Suc i) (xs[i := x]) = take i xs @ [x]"
  by (simp add: take_Suc_conv_app_nth)

lemma data_read_loop_line:
  "arrived inp = bs @ 0x0A # rest \<Longrightarrow> 0x0A \<notin> set bs \<Longrightarrow> 256 \<le> length buff \<Longrightarrow> 255 \<le> len \<Longrightarrow>
   \<exists>buff' r. data_read_loop inp buff count len =
       Some (Inr (buff', count + of_nat (Suc (length bs)), r)) \<and>
     length buff' = length buff \<and> arrived r = rest \<and>
     (\<exists>pre. take (unat count) buff @ bs @ [0x0A]
        = pre @ take (unat (count + of_nat (Suc (length bs)))) buff')"
proof (induction bs arbitrary: inp buff count)
  case Nil
  obtain r where g: "uart_getchar inp = Some (0x0A, r)" "arrived r = rest"
    using uart_getchar_Cons [of inp] Nil.prems(1) by auto
  have c: "unat count < length buff" using unat_u8_lt [of count] Nil.prems(3) by linarith
  have "\<exists>pre. take (unat count) buff @ [0x0A] = pre @ take (unat (count + 1)) (buff[unat count := 0x0A])"
  proof (cases "count + 1 = 0")
    case True
    then show ?thesis by simp
  next
    case False
    then show ?thesis using take_Suc_update [OF c] by (simp add: unat_Suc_word)
  qed
  then show ?case using g c by (subst data_read_loop.simps) (simp add: Let_def)
next
  case (Cons b bs)
  obtain r where g: "uart_getchar inp = Some (b, r)" "arrived r = bs @ 0x0A # rest"
    using uart_getchar_Cons [of inp] Cons.prems(1) by auto
  have c: "unat count < length buff" using unat_u8_lt [of count] Cons.prems(3) by linarith
  have l: "uint (count + 1) \<le> len" using unat_u8_lt [of "count + 1"] Cons.prems(4) uint_nat [of "count + 1"] by linarith
  let ?b1 = "buff[unat count := b]" and ?c1 = "count + 1"
  from Cons.IH [of r ?b1 ?c1] g(2) Cons.prems obtain buff' r' pre where
    IH: "data_read_loop r ?b1 ?c1 len = Some (Inr (buff', ?c1 + of_nat (Suc (length bs)), r'))"
      "length buff' = length buff" "arrived r' = rest"
      "take (unat ?c1) ?b1 @ bs @ [0x0A] = pre @ take (unat (?c1 + of_nat (Suc (length bs)))) buff'"
    by auto
  have e: "?c1 + of_nat (Suc (length bs)) = count + of_nat (Suc (length (b # bs)))" by simp
  have "data_read_loop inp buff count len = data_read_loop r ?b1 ?c1 len"
    using g(1) c l Cons.prems(2) by (subst data_read_loop.simps) (simp add: Let_def)
  moreover have "\<exists>pre. take (unat count) buff @ (b # bs) @ [0x0A]
      = pre @ take (unat (count + of_nat (Suc (length (b # bs))))) buff'"
  proof (cases "?c1 = 0")
    case True
    then have "bs @ [0x0A] = pre @ take (unat (count + of_nat (Suc (length (b # bs))))) buff'"
      using IH(4) unfolding e by simp
    then show ?thesis by (metis append.assoc append_Cons append_Nil)
  next
    case False
    then have "take (unat ?c1) ?b1 = take (unat count) buff @ [b]"
      using take_Suc_update [OF c] by (simp add: unat_Suc_word)
    then show ?thesis using IH(4) unfolding e by auto
  qed
  ultimately show ?case using IH(1-3) unfolding e
    by (intro exI [of _ buff'], intro exI [of _ r']) (simp only: simp_thms)
qed

lemma str_of_take_nul:
  "n < length b \<Longrightarrow> 0 \<notin> set (take n b) \<Longrightarrow> str_of (b[n := 0]) = take n b"
  using str_of_append_nul [of "take n b" "drop (Suc n) b"] by (simp add: upd_conv_take_nth_drop)

lemma data_read_line:
  assumes "arrived inp = bs @ 0x0A # rest" "0x0A \<notin> set bs" "0 \<notin> set bs"
    and "length buff = GPS_DEVICE_RECV_BUFF_LEN"
  shows "\<exists>buff' r. data_read inp buff (int GPS_DEVICE_RECV_BUFF_LEN) = Some (Inr (buff', r)) \<and>
     arrived r = rest \<and> length buff' = GPS_DEVICE_RECV_BUFF_LEN \<and> cstring buff' \<and>
     (\<exists>pre. bs @ [0x0A] = pre @ str_of buff') \<and> length (str_of buff') = Suc (length bs) mod 256"
proof -
  let ?c = "of_nat (Suc (length bs)) :: u8"
  have uc: "unat ?c = Suc (length bs) mod 256" by (simp only: unat_of_nat) simp
  obtain b r pre where l: "data_read_loop inp buff 0 (int GPS_DEVICE_RECV_BUFF_LEN) = Some (Inr (b, ?c, r))"
      "length b = length buff" "arrived r = rest" "bs @ [0x0A] = pre @ take (unat ?c) b"
    using data_read_loop_line [OF assms(1,2), of buff "int GPS_DEVICE_RECV_BUFF_LEN" 0] assms(4)
    by (auto simp: GPS_DEVICE_RECV_BUFF_LEN_def)
  have c: "unat ?c < length b" using unat_u8_lt [of ?c] l(2) assms(4) by (simp add: GPS_DEVICE_RECV_BUFF_LEN_def)
  have "0 \<notin> set (bs @ [0x0A])" using assms(3) by simp
  then have nz: "0 \<notin> set (take (unat ?c) b)" unfolding l(4) by simp
  have s: "str_of (b[unat ?c := 0]) = take (unat ?c) b" using c nz by (rule str_of_take_nul)
  have "data_read inp buff (int GPS_DEVICE_RECV_BUFF_LEN) = Some (Inr (b[unat ?c := 0], r))"
    using l(1) c by (simp add: data_read_def del: of_nat_Suc)
  moreover have "cstring (b[unat ?c := 0])" unfolding cstring_def using c by (rule set_update_memI)
  moreover have "\<exists>pre. bs @ [0x0A] = pre @ str_of (b[unat ?c := 0])" unfolding s using l(4) by blast
  moreover have "length (str_of (b[unat ?c := 0])) = Suc (length bs) mod 256" unfolding s using c uc by simp
  moreover have "length (b[unat ?c := 0]) = GPS_DEVICE_RECV_BUFF_LEN" using l(2) assms(4) by simp
  ultimately show ?thesis using l(3) by blast
qed

lemma data_read_loop_safe:
  "256 \<le> length buff \<Longrightarrow> data_read_loop inp buff count len = Some m \<Longrightarrow>
   \<exists>b c r. m = Inr (b, c, r) \<and> length b = length buff"
proof (induction inp buff count len rule: data_read_loop.induct)
  case (1 inp buff count len)
  have c: "unat count < length buff" using unat_u8_lt [of count] "1.prems"(1) by linarith
  obtain ch r where g: "uart_getchar inp = Some (ch, r)"
    using "1.prems"(2) by (cases "uart_getchar inp") (auto simp: data_read_loop.simps [of inp])
  show ?case
  proof (cases "ch \<noteq> 0x0A \<and> uint (count + 1) \<le> len")
    case True
    then have "data_read_loop r (buff[unat count := ch]) (count + 1) len = Some m"
      using "1.prems"(2) g c by (simp add: data_read_loop.simps [of inp] Let_def)
    then show ?thesis using "1.IH" [OF g refl c refl refl True] "1.prems"(1) by simp
  next
    case False
    then show ?thesis using "1.prems"(2) g c by (auto simp: data_read_loop.simps [of inp] Let_def)
  qed
qed

end
