(* ===== verification/Gps_Props.thy ===== *)
theory Gps_Props
  imports Gps_Handlers Gps_Uart
begin

text \<open>
  The properties of the positioning path: field search, number reader, coordinate accuracy, the
  \<open>GNRMC\<close> and \<open>GNVTG\<close> handlers, memory safety, the line reader and the receive thread.
\<close>

text \<open>The fields of a \<open>GNRMC\<close> sentence up to the date, in order.\<close>

definition rmc_fields ::
  "mem \<Rightarrow> mem \<Rightarrow> mem \<Rightarrow> u8 \<Rightarrow> mem \<Rightarrow> u8 \<Rightarrow> mem \<Rightarrow> mem \<Rightarrow> mem \<Rightarrow> mem list" where
  "rmc_fields tm st lat ns lon ew sp co dt =
     [bytes ''GNRMC'', tm, st, lat, [ns], lon, [ew], sp, co, dt]"

section \<open>Scanner\<close>

text \<open>
  C33: for a well-formed fixed-point field with at most nine significant digits, \<open>NMEA_Str2num\<close>
  returns the signed value in units of the last kept decimal, keeps at most five decimals, and
  reports their number.
\<close>

theorem Str2num_reads_decimal:
  assumes "list_all is_dig ip" "list_all is_dig fp" "t = 0x2C \<or> t = 0x2A"
    and "length ip + min 5 (length fp) \<le> 9" "length fp \<le> 255"
  shows "\<exists>v dx. NMEA_Str2num (num_text neg ip fp @ t # r) = Inr (v, dx) \<and>
           unat dx = min 5 (length fp) \<and>
           sint v = (if neg then - 1 else 1) * int (dec_val (ip @ take 5 fp))"
  using assms by (rule Str2num_decimal)

theorem Str2num_reads_decimal_witness:
  "\<exists>v dx. NMEA_Str2num (num_text True (bytes ''37'') (bytes ''51'') @ 0x2C # [0]) = Inr (v, dx) \<and>
     unat dx = 2 \<and> sint v = - 3751"
  using Str2num_reads_decimal [of "bytes ''37''" "bytes ''51''" "0x2C" True "[0]"]
  by (simp add: is_dig_def dval_def) (simp add: numeral_2_eq_2)

text \<open>
  On a NUL-terminated buffer of at most 255 bytes \<open>NMEA_Comma_Pos\<close> returns; a result other
  than \<open>0xFF\<close> is the offset just behind a comma, with exactly the requested number of commas
  before it.
\<close>

theorem Comma_Pos_spec:
  assumes "cstring m" "length m \<le> 255"
  shows "\<exists>r. NMEA_Comma_Pos m cx = Inr r \<and>
     (r \<noteq> 0xFF \<longrightarrow> unat r \<le> length m \<and> count_list (take (unat r) m) 0x2C = unat cx \<and>
        (cx \<noteq> 0 \<longrightarrow> m ! (unat r - 1) = 0x2C))"
proof -
  obtain r where r: "NMEA_Comma_Pos m cx = Inr r" using Comma_Pos_returns [OF assms(1)] by blast
  have "unat r \<le> length m \<and> count_list (take (unat r) m) 0x2C = unat cx \<and>
        (cx \<noteq> 0 \<longrightarrow> m ! (unat r - 1) = 0x2C)" if nf: "r \<noteq> 0xFF"
  proof -
    from comma_scan_spec [of m cx 0 r] r nf obtain j where
      j: "j \<le> length m" "r = of_nat j" "count_list (take j m) 0x2C = unat cx"
        "if cx = 0 then j = 0 else 0 < j \<and> m ! (j - 1) = 0x2C"
      by (auto simp: NMEA_Comma_Pos_def)
    have "unat r = j" unfolding j(2) using j(1) assms(2) by (intro unat_of_nat_small) simp
    then show ?thesis using j by (auto split: if_splits)
  qed
  with r show ?thesis by blast
qed

theorem Comma_Pos_spec_witness:
  "\<exists>r. NMEA_Comma_Pos (bytes ''A,B,C'' @ [0]) 2 = Inr r \<and>
     (r \<noteq> 0xFF \<longrightarrow> unat r \<le> 6 \<and> count_list (take (unat r) (bytes ''A,B,C'' @ [0])) 0x2C = 2 \<and>
        (bytes ''A,B,C'' @ [0]) ! (unat r - 1) = 0x2C)"
  using Comma_Pos_spec [of "bytes ''A,B,C'' @ [0]" 2] by (simp add: cstring_def) (simp add: eval_nat_numeral)

section \<open>Accuracy\<close>

text \<open>
  C34: the \<open>float\<close> conversion of a coordinate field is within 2.01 units of \<open>0.00001\<close> degrees of
  the exact value for every longitude, and within 1.51 units for every latitude.
\<close>

theorem to_degrees_accuracy:
  assumes "unat dx \<le> 5" "unat temp div 10 ^ (unat dx + 2) \<le> 180"
  shows "\<exists>w. to_degrees temp dx = Inr w \<and>
     \<bar>of_nat (unat w) - exact_deg (unat temp) (unat dx)\<bar>
       < (if unat temp div 10 ^ (unat dx + 2) \<le> 90 then 151 / 100 else 201 / 100)"
proof (cases "unat temp div 10 ^ (unat dx + 2) \<le> 90")
  case True
  have k: "(2::rat) powi (int 24 - 25) = 1 / 2" by simp
  obtain w where "to_degrees temp dx = Inr w"
    "exact_deg (unat temp) (unat dx) - 1 - 1 / 128 - 1 / 2 < of_nat (unat w)"
    "of_nat (unat w) \<le> exact_deg (unat temp) (unat dx) + 1 / 128 + 1 / 2"
    using to_degrees_error [OF assms(1) True, of 24] unfolding k by auto
  then show ?thesis using True unfolding abs_less_iff by (intro exI [of _ w]) simp
next
  case False
  have k: "(2::rat) powi (int 25 - 25) = 1" by simp
  obtain w where "to_degrees temp dx = Inr w"
    "exact_deg (unat temp) (unat dx) - 1 - 1 / 128 - 1 < of_nat (unat w)"
    "of_nat (unat w) \<le> exact_deg (unat temp) (unat dx) + 1 / 128 + 1"
    using to_degrees_error [OF assms, of 25] unfolding k by auto
  then show ?thesis using False unfolding abs_less_iff by (intro exI [of _ w]) simp
qed

theorem to_degrees_accuracy_witness:
  "\<exists>w. to_degrees 375165 2 = Inr w \<and> \<bar>of_nat (unat w) - exact_deg 375165 2\<bar> < 151 / 100"
  using to_degrees_accuracy [of 2 375165] by simp

section \<open>Handlers\<close>

lemma find_tag_rmc:
  "find_tag ''GNRMC'' (0x24 # csv (bytes ''GNRMC'' # fs) @ q) = Inr (csv (bytes ''GNRMC'' # fs) @ q)"
  using find_tag_csv [of "''GNRMC''" fs q] by (simp add: find_tag_def csv_Cons)

text \<open>
  C3: a complete \<open>$GNRMC\<close> sentence is analysed without fault; the record then holds the clock
  time and the date of the sentence, both hemisphere letters, the latitude within 1.51 and the
  longitude within 2.01 units of \<open>0.00001\<close> degrees.
\<close>

theorem GNRMC_stores_fix:
  assumes fs_def: "fs = rmc_fields (num_text False (two h @ two m @ two sc) tf) st (num_text False lai laf)
      ns (num_text False loi lof) ew sp co (num_text False (two d @ two mo @ two y) [])"
    and fs: "sentence fs"
    and t: "h < 24" "m < 60" "sc < 60" "list_all is_dig tf" "length tf \<le> 4"
    and p: "coord_ok lai laf 90" "coord_ok loi lof 180"
    and dt: "d < 100" "mo < 100" "y < 100"
  shows "\<exists>s'. NMEA_GNRMC_Analysis s (0x24 # csv fs @ q) = Inr s' \<and>
     unat (hour (utc (gpsx s'))) = h \<and> unat (minute (utc (gpsx s'))) = m \<and>
     unat (sec (utc (gpsx s'))) = sc \<and>
     unat (date (utc (gpsx s'))) = d \<and> unat (month (utc (gpsx s'))) = mo \<and>
     unat (year (utc (gpsx s'))) = 2000 + y \<and>
     nshemi (gpsx s') = ns \<and> ewhemi (gpsx s') = ew \<and>
     \<bar>of_nat (unat (latitude (gpsx s'))) - coord_exact lai laf\<bar> < 151 / 100 \<and>
     \<bar>of_nat (unat (longitude (gpsx s'))) - coord_exact loi lof\<bar> < 201 / 100"
proof -
  let ?s = "s\<lparr>rmc_count := rmc_count s + 1\<rparr>"
  have l: "length fs = 10" by (simp add: fs_def rmc_fields_def)
  have n: "fs ! 1 = num_text False (two h @ two m @ two sc) tf" "fs ! 3 = num_text False lai laf"
    "fs ! 4 = [ns]" "fs ! 5 = num_text False loi lof" "fs ! 6 = [ew]"
    "fs ! 9 = num_text False (two d @ two mo @ two y) []"
    by (simp_all add: fs_def rmc_fields_def numeral_eq_Suc)
  have tag: "find_tag ''GNRMC'' (0x24 # csv fs @ q) = Inr (csv fs @ q)"
    unfolding fs_def rmc_fields_def by (rule find_tag_rmc)
  obtain s1 H M S where s1: "rmc_time (csv fs @ q) ?s = Inr s1"
      "gpsx s1 = (gpsx s)\<lparr>utc := (utc (gpsx s))\<lparr>hour := H, minute := M, sec := S\<rparr>\<rparr>"
      "unat H = h" "unat M = m" "unat S = sc"
    using rmc_time_at [OF fs _ n(1) t, of q ?s] l by auto
  let ?s2 = "set_msg (\<lambda>g. g\<lparr>nshemi := ns\<rparr>) s1"
  have s2: "rmc_hemi (csv fs @ q) 4 (\<lambda>c g. g\<lparr>nshemi := c\<rparr>) s1 = Inr ?s2"
    using fs n(3) l by (intro rmc_hemi_at [where i = 4]) auto
  have k: "(2::rat) powi (int 24 - 25) = 1 / 2" "(2::rat) powi (int 25 - 25) = 1" by simp_all
  obtain lat w1 s3 where s3: "rmc_coord (csv fs @ q) 3 (\<lambda>d g. g\<lparr>latitude := d\<rparr>) nshemi 120 (None, ?s2)
        = Inr (Some lat, s3)" "gpsx s3 = (gpsx ?s2)\<lparr>latitude := w1\<rparr>"
      "coord_exact lai laf - 1 - 1 / 128 - 1 / 2 < of_nat (unat w1)"
      "of_nat (unat w1) \<le> coord_exact lai laf + 1 / 128 + 1 / 2"
    using rmc_coord_at [OF fs _ _ n(2) p(1), of 3 24 q "\<lambda>d g. g\<lparr>latitude := d\<rparr>" nshemi 120 None ?s2] l
    unfolding k by auto
  let ?s4 = "set_msg (\<lambda>g. g\<lparr>ewhemi := ew\<rparr>) s3"
  have s4: "rmc_hemi (csv fs @ q) 6 (\<lambda>c g. g\<lparr>ewhemi := c\<rparr>) s3 = Inr ?s4"
    using fs n(5) l by (intro rmc_hemi_at [where i = 6]) auto
  obtain lon w2 s5 where s5: "rmc_coord (csv fs @ q) 5 (\<lambda>d g. g\<lparr>longitude := d\<rparr>) ewhemi 80 (None, ?s4)
        = Inr (Some lon, s5)" "gpsx s5 = (gpsx ?s4)\<lparr>longitude := w2\<rparr>"
      "coord_exact loi lof - 1 - 1 / 128 - 1 < of_nat (unat w2)"
      "of_nat (unat w2) \<le> coord_exact loi lof + 1 / 128 + 1"
    using rmc_coord_at [OF fs _ _ n(4) p(2), of 5 25 q "\<lambda>d g. g\<lparr>longitude := d\<rparr>" ewhemi 80 None ?s4] l
    unfolding k by auto
  obtain s6 D MM Y where s6: "rmc_date (csv fs @ q) s5 = Inr s6"
      "gpsx s6 = (gpsx s5)\<lparr>utc := (utc (gpsx s5))\<lparr>date := D, month := MM, year := Y\<rparr>\<rparr>"
      "unat D = d" "unat MM = mo" "unat Y = 2000 + y"
    using rmc_date_at [OF fs _ n(6) dt, of q s5] l by auto
  obtain s7 where s7: "rmc_log (Some lon) (Some lat) s6 = Inr s7" "gpsx s7 = gpsx s6"
    using rmc_log_at by blast
  have "NMEA_GNRMC_Analysis s (0x24 # csv fs @ q) = Inr s7"
    unfolding NMEA_GNRMC_Analysis_def Let_def tag
    by (simp only: and_then.simps prod.case s1(1) s2 s3(1) s4 s5(1) s6(1) s7(1))
  then show ?thesis
    using s1 s3 s5 s6 s7(2) unfolding abs_less_iff by (intro exI [of _ s7]) simp
qed

lemma sentence_example:
  "sentence (rmc_fields (num_text False (two 9 @ two 22 @ two 4) (bytes ''999'')) (bytes ''A'')
     (num_text False (bytes ''3043'') (bytes ''66'')) 0x4E
     (num_text False (bytes ''10403'') (bytes ''96'')) 0x45 [] []
     (num_text False (two 21 @ two 5 @ two 22) []))"
  by (simp add: sentence_def rmc_fields_def csv_def num_text_def two_def field_char_def walkable_def)

theorem GNRMC_stores_fix_witness:
  "\<forall>s0. \<exists>fs s'. NMEA_GNRMC_Analysis s0 (0x24 # csv fs @ [0]) = Inr s' \<and>
     unat (hour (utc (gpsx s'))) = 9 \<and> unat (year (utc (gpsx s'))) = 2022 \<and>
     \<bar>of_nat (unat (latitude (gpsx s'))) - coord_exact (bytes ''3043'') (bytes ''66'')\<bar> < 151 / 100"
proof
  fix s0
  show "\<exists>fs s'. NMEA_GNRMC_Analysis s0 (0x24 # csv fs @ [0]) = Inr s' \<and>
     unat (hour (utc (gpsx s'))) = 9 \<and> unat (year (utc (gpsx s'))) = 2022 \<and>
     \<bar>of_nat (unat (latitude (gpsx s'))) - coord_exact (bytes ''3043'') (bytes ''66'')\<bar> < 151 / 100"
    using GNRMC_stores_fix [OF refl sentence_example, of s0 "[0]"]
    by (simp add: coord_ok_def num_ok_def is_dig_def dval_def) blast
qed

lemma unat_u16_mod: "unat (ucast (v :: u32) :: u16) = unat v mod 65536"
  by (simp add: unsigned_ucast_eq take_bit_eq_mod)

lemma vtg_scale:
  assumes "dx < 3"
  shows "unat (ucast ((ucast (ucast (v :: u32) :: u16) :: u32) * NMEA_Pow 10 (3 - dx)) :: u16)
       = (unat v * 10 ^ (3 - unat dx)) mod 65536"
proof -
  have d: "unat dx < 3" using assms by (simp add: word_less_nat_alt)
  have "unat (3 - dx) = 3 - unat dx"
    using assms by (subst unat_sub) (auto simp: word_le_nat_alt word_less_nat_alt)
  then have p: "unat (NMEA_Pow 10 (3 - dx)) = 10 ^ (3 - unat dx)"
    using unat_NMEA_Pow_10 [of "3 - dx"] by simp
  have "(10::nat) ^ (3 - unat dx) \<le> 10 ^ 3" by (intro power_increasing) auto
  moreover have "unat v mod 65536 \<le> 65535" using mod_less_divisor [of 65536 "unat v"] by linarith
  ultimately have "(unat v mod 65536) * 10 ^ (3 - unat dx) \<le> 65535 * 10 ^ 3" by (rule mult_le_mono [rotated])
  then have lt: "(unat v mod 65536) * 10 ^ (3 - unat dx) < 2 ^ 32" by simp
  have u: "unat (ucast (ucast v :: u16) :: u32) = unat v mod 65536"
  proof -
    have "unat (ucast v :: u16) < 2 ^ LENGTH(16)" by (rule unsigned_less)
    then have "unat (ucast (ucast v :: u16) :: u32) = unat (ucast v :: u16)"
      by (simp only: unsigned_ucast_eq) (simp add: take_bit_nat_eq_self unsigned_take_bit_eq)
    then show ?thesis unfolding unat_u16_mod .
  qed
  show ?thesis unfolding unat_u16_mod unat_word_ariths(2) u p using lt by (simp add: mod_mult_left_eq)
qed

text \<open>
  The speed of a \<open>$GNVTG\<close> sentence, \<open>V\<close> in units of its last decimal, is stored as
  \<open>V * 10^(3-d)\<close> reduced modulo 65536, so it is the speed in m/h only below 65.536 km/h; the
  handler asks for exactly one text on the display, the stored speed.
\<close>

theorem GNVTG_speed:
  assumes "sentence fs" "7 < length fs" "hd fs = bytes ''$GNVTG''" "fs ! 7 = num_text False ip fp"
    and "num_ok ip fp" "length fp \<le> 3"
  shows "\<exists>s' d. NMEA_GNVTG_Analysis s (csv fs @ q) = Inr s' \<and>
     unat (speed (gpsx s')) = (dec_val (ip @ fp) * 10 ^ (3 - length fp)) mod 65536 \<and>
     shown s' = shown s @ [ShowString 100 160 100 16 16 d] \<and>
     str_of d = str_of (speed_text (speed (gpsx s')))"
proof -
  let ?v = "num_value False ip fp" and ?dx = "of_nat (length fp) :: u8"
  let ?sp = "if ?dx < 3 then ucast ((ucast (ucast ?v :: u16) :: u32) * NMEA_Pow 10 (3 - ?dx)) else ucast ?v :: u16"
  let ?d = "speed_text ?sp @ replicate (50 - length (speed_text ?sp)) 0"
  obtain fs' where f: "fs = bytes ''$GNVTG'' # fs'" using assms(2,3) by (cases fs) auto
  have dx: "unat ?dx = length fp" using assms(6) by (intro unat_of_nat_small) simp
  have fp: "take 5 fp = fp" "min 5 (length fp) = length fp" using assms(6) by simp_all
  have uv: "unat ?v = dec_val (ip @ fp) mod 2 ^ 32"
    by (simp add: num_value_def fp unat_of_nat)
  have m: "n mod 2 ^ 32 mod 65536 = n mod (65536 :: nat)" for n by (rule mod_mod_cancel) simp
  have val: "unat ?sp = (dec_val (ip @ fp) * 10 ^ (3 - length fp)) mod 65536"
  proof (cases "?dx < 3")
    case True
    then show ?thesis unfolding if_P [OF True] vtg_scale [OF True] dx uv
      by (metis m mod_mult_left_eq)
  next
    case False
    then have "length fp = 3" using dx assms(6) by (simp add: word_less_nat_alt)
    then show ?thesis unfolding if_not_P [OF False] unat_u16_mod uv m by simp
  qed
  have "NMEA_GNVTG_Analysis s (csv fs @ q) =
      Inr (show_text 100 160 ?d (set_msg (\<lambda>g. g\<lparr>speed := ?sp\<rparr>) s))"
    unfolding NMEA_GNVTG_Analysis_def f find_tag_csv and_then.simps
    unfolding f [symmetric] sentence_field [OF assms(1) _ assms(2), of 7, simplified] assms(4)
    by (simp only: Str2num_num_ok [OF assms(5)] and_then.simps prod.case Let_def fp(2)
        sprintf50_returns [OF speed_text_short])
  moreover have "str_of ?d = str_of (speed_text ?sp)"
  proof -
    have "str_of (t @ replicate n 0) = str_of t" for t :: mem and n
      by (induction t) (cases n, auto)
    then show ?thesis .
  qed
  ultimately show ?thesis using val by (intro exI conjI) (assumption | simp)+
qed

theorem GNVTG_speed_witness:
  "\<forall>s. \<exists>fs s'. NMEA_GNVTG_Analysis s (csv fs @ [0]) = Inr s' \<and>
     fs ! 7 = bytes ''80.5'' \<and> unat (speed (gpsx s')) = 14964"
proof
  fix s
  let ?fs = "[bytes ''$GNVTG'', [], bytes ''T'', [], bytes ''M'', bytes ''43.4'', bytes ''N'', bytes ''80.5'', bytes ''K'']"
  have "sentence ?fs" by (simp add: sentence_def csv_def field_char_def walkable_def)
  from GNVTG_speed [OF this, of "bytes ''80''" "bytes ''5''" s "[0]"]
  have "\<exists>s'. NMEA_GNVTG_Analysis s (csv ?fs @ [0]) = Inr s' \<and> unat (speed (gpsx s')) = 14964"
    by (auto simp: num_text_def num_ok_def is_dig_def dval_def)
  then show "\<exists>fs s'. NMEA_GNVTG_Analysis s (csv fs @ [0]) = Inr s' \<and>
     fs ! 7 = bytes ''80.5'' \<and> unat (speed (gpsx s')) = 14964"
    by (intro exI [of _ ?fs]) auto
qed

section \<open>Safety\<close>

text \<open>
  C10: a line without a \<open>GNRMC\<close> sentence is analysed without a fault under three conditions on the
  buffer: it is terminated, no decimal point stands directly before the terminator (\<open>point_ok\<close>), and it
  announces at most one \<open>$GPGSV\<close> sentence (\<open>gsv_single\<close>); the record keeps its shape, and the counter and the
  log of the \<open>GNRMC\<close> handler do not change.  The second condition is needed: behind a point
  \<open>NMEA_Str2num\<close> steps over the next byte without looking at it, and so past the terminator when the field
  ends in a point at the end of the buffer.
\<close>

theorem GPS_Analysis_safe:
  assumes "cstring buf" "point_ok buf" "gsv_single buf" "nmea_wf (gpsx s)"
    and "strstr (bytes ''GNRMC'') buf = Inr None"
  shows "\<exists>s'. GPS_Analysis s buf = Inr s' \<and> frame s s'"
proof -
  obtain s1 where 1: "on_tag ''$GPGSV'' (lift_msg NMEA_GPGSV_Analysis) buf s = Inr s1" "frame s s1"
    using gsv.dispatch assms by blast
  obtain s2 where 2: "on_tag ''$GNGGA'' (lift_msg NMEA_GNGGA_Analysis) buf s1 = Inr s2" "frame s1 s2"
    using gga.dispatch assms(1,2) 1(2) unfolding frame_def by blast
  obtain s3 where 3: "on_tag ''$GPGSA'' (lift_msg NMEA_GPGSA_Analysis) buf s2 = Inr s3" "frame s2 s3"
    using gsa.dispatch assms(1,2) 2(2) unfolding frame_def by blast
  have 4: "on_tag ''GNRMC'' NMEA_GNRMC_Analysis buf s3 = Inr s3"
    unfolding on_tag_def assms(5) by simp
  obtain s5 where 5: "on_tag ''$GNVTG'' NMEA_GNVTG_Analysis buf s3 = Inr s5" "frame s3 s5"
    using vtg.dispatch assms(1,2) 3(2) unfolding frame_def by blast
  have "GPS_Analysis s buf = Inr s5"
    unfolding GPS_Analysis_def 1(1) and_then.simps 2(1) 3(1) 4 5(1) ..
  moreover have "frame s s5" using 1(2) 2(2) 3(2) 5(2) by (simp add: frame_def)
  ultimately show ?thesis by blast
qed

lemma nmea_wf_zero [simp]: "nmea_wf (gpsx gps_zero)"
  by (simp add: nmea_wf_def gps_zero_def)

theorem GPS_Analysis_safe_witness:
  "\<exists>s'. GPS_Analysis gps_zero (bytes ''$GPGSA,A,3,07,,2.1,1.5'' @ [0]) = Inr s' \<and> frame gps_zero s'"
  by (rule GPS_Analysis_safe) (simp_all add: cstring_def gsv_single_def)

text \<open>
  A line that holds one \<open>$GPGSV\<close> sentence and announces two or more makes the handler use the
  null pointer that the next \<open>strstr\<close> returns, whatever the satellite fields are.
\<close>

theorem GPGSV_announced_missing:
  assumes "cstring buf" "point_ok buf" "nmea_wf g"
    and "strstr (bytes ''$GPGSV'') buf = Inr (Some p)" "strstr (bytes ''$GPGSV'') (drop 1 p) = Inr None"
    and "mem_at p 7 = Inr c" "2 \<le> unat (c - 0x30)"
  shows "NMEA_GPGSV_Analysis g buf = Inl NullDeref"
proof -
  from GPGSV_first [OF assms(1-4,6)] obtain g1 k g2 where
    g: "gsv_inner 4 p 0 g1 = Inr (k, g2)" "find_tag ''$GPGSV'' buf = Inr p"
       "NMEA_GPGSV_Analysis g buf = gsv_outer (unat (c - 0x30)) buf 0 g1" by blast
  obtain n where n: "unat (c - 0x30) = Suc (Suc n)"
    using assms(7) le_Suc_ex [of 2 "unat (c - 0x30)"] by auto
  have "find_tag ''$GPGSV'' (drop 1 p) = Inl NullDeref" by (simp only: find_tag_def assms(5)) simp
  then show ?thesis unfolding g(3) n gsv_outer.simps g(2) and_then.simps g(1) prod.case by simp
qed

theorem GPGSV_announced_missing_witness:
  "NMEA_GPGSV_Analysis (gpsx gps_zero) (bytes ''$GPGSV,3,1,11,03,03,111,00'' @ [0]) = Inl NullDeref"
  by (rule GPGSV_announced_missing [where p = "bytes ''$GPGSV,3,1,11,03,03,111,00'' @ [0]" and c = "0x33"])
    (simp_all add: cstring_def mem_at_def)

section \<open>Logging\<close>

text \<open>
  Over any \<open>GNRMC\<close> sentence that is analysed, the call counter stays below 200 and counts
  modulo 200; three lines are logged by every 200th call and nothing by the others.
\<close>

theorem GNRMC_log_period:
  assumes "NMEA_GNRMC_Analysis s buf = Inr s'" "unat (rmc_count s) < 200"
  shows "unat (rmc_count s') = Suc (unat (rmc_count s)) mod 200 \<and>
     (if unat (rmc_count s) = 199
      then length (logged s') = length (logged s) + 3 \<and> take (length (logged s)) (logged s') = logged s
      else logged s' = logged s)"
proof -
  obtain lon lat s6 where l: "rmc_count s6 = rmc_count s + 1" "logged s6 = logged s"
      "rmc_log lon lat s6 = Inr s'"
    using GNRMC_to_log [OF assms(1)] by (auto simp: same_log_def)
  have c: "unat (rmc_count s + 1) = Suc (unat (rmc_count s))"
    using unat_add_lem [of "rmc_count s" 1] assms(2) by simp
  show ?thesis
  proof (cases "unat (rmc_count s) = 199")
    case True
    then have "200 \<le> rmc_count s6" by (simp add: l(1) c word_le_nat_alt)
    then show ?thesis using l True by (auto simp: rmc_log_def Let_def)
  next
    case False
    then have "\<not> 200 \<le> rmc_count s6" using assms(2) by (simp add: l(1) c word_le_nat_alt)
    then show ?thesis using l c False assms(2) by (auto simp: rmc_log_def)
  qed
qed

lemma Comma_Pos_bare: "cx \<noteq> 0 \<Longrightarrow> NMEA_Comma_Pos (bytes ''GNRMC'' @ 0 # r) cx = Inr 0xFF"
  by (simp add: NMEA_Comma_Pos_def comma_scan.simps)

lemma GNRMC_bare:
  "NMEA_GNRMC_Analysis s (bytes ''GNRMC'' @ 0 # r) = rmc_log None None (s\<lparr>rmc_count := rmc_count s + 1\<rparr>)"
  using Comma_Pos_bare [of _ r]
  by (simp add: NMEA_GNRMC_Analysis_def find_tag_def rmc_time_def rmc_hemi_def rmc_coord_def rmc_date_def
      num_field_def with_field_def)

theorem GNRMC_log_period_witness:
  "\<exists>s'. NMEA_GNRMC_Analysis gps_zero (bytes ''GNRMC'' @ [0]) = Inr s' \<and> unat (rmc_count s') = 1 \<and> logged s' = []"
proof -
  let ?s = "gps_zero\<lparr>rmc_count := 1\<rparr>"
  have z: "rmc_count gps_zero = 0" "logged gps_zero = []" by (simp_all add: gps_zero_def)
  have "NMEA_GNRMC_Analysis gps_zero (bytes ''GNRMC'' @ [0]) = Inr ?s"
    unfolding GNRMC_bare by (simp add: rmc_log_def z word_le_nat_alt)
  with GNRMC_log_period [OF this] show ?thesis using z by simp
qed

text \<open>
  When the call that has to log comes with a sentence cut off after its tag, the log output
  reads the degrees, minutes and seconds that no branch has assigned.
\<close>

theorem GNRMC_log_uninitialised:
  assumes "rmc_count s = 199"
  shows "NMEA_GNRMC_Analysis s (bytes ''GNRMC'' @ 0 # r) = Inl UninitRead"
  unfolding GNRMC_bare using assms by (simp add: rmc_log_def parts_of_def Let_def)

theorem GNRMC_log_uninitialised_witness:
  "NMEA_GNRMC_Analysis (gps_zero\<lparr>rmc_count := 199\<rparr>) (bytes ''GNRMC'' @ [0]) = Inl UninitRead"
  by (rule GNRMC_log_uninitialised) simp

section \<open>Receiving\<close>

text \<open>
  For every line that arrives, \<open>data_read\<close> into the 512 byte buffer returns without a fault,
  consumes exactly the line and its line feed, and leaves a terminated string that is a suffix of
  what arrived, of length \<open>(n + 1) mod 256\<close> for a line of \<open>n\<close> bytes: the whole line when
  \<open>n < 255\<close>, less otherwise.
\<close>

theorem data_read_gets_line:
  assumes "arrived inp = bs @ 0x0A # rest" "0x0A \<notin> set bs" "0 \<notin> set bs"
    and "length buff = GPS_DEVICE_RECV_BUFF_LEN"
  shows "\<exists>buff' r. data_read inp buff (int GPS_DEVICE_RECV_BUFF_LEN) = Some (Inr (buff', r)) \<and>
     arrived r = rest \<and> length buff' = GPS_DEVICE_RECV_BUFF_LEN \<and> cstring buff' \<and>
     (\<exists>pre. bs @ [0x0A] = pre @ str_of buff') \<and> length (str_of buff') = Suc (length bs) mod 256"
  by (rule data_read_line [OF assms])

theorem data_read_gets_line_witness:
  "\<exists>buff' r. data_read [Some 0x24, None, Some 0x47, Some 0x0A, Some 0x31] (replicate 512 0) 512 = Some (Inr (buff', r)) \<and>
     arrived r = [0x31] \<and> length (str_of buff') = 3"
  using data_read_gets_line [of "[Some 0x24, None, Some 0x47, Some 0x0A, Some 0x31]" "[0x24, 0x47]" "[0x31]" "replicate 512 0"]
  by (auto simp: GPS_DEVICE_RECV_BUFF_LEN_def)

text \<open>
  Whatever arrives on the UART, \<open>data_read\<close> never writes outside the 512 byte buffer and
  leaves it terminated.
\<close>

theorem data_read_safe:
  assumes "length buff = GPS_DEVICE_RECV_BUFF_LEN" "data_read inp buff len = Some m"
  shows "\<exists>buff' r. m = Inr (buff', r) \<and> length buff' = GPS_DEVICE_RECV_BUFF_LEN \<and> cstring buff'"
proof -
  obtain m1 where m1: "data_read_loop inp buff 0 len = Some m1"
    "m = and_then m1 (\<lambda>(b, count, r).
        if unat count < length b then Inr (b[unat count := 0], r) else Inl OutOfBounds)"
    using assms(2) by (auto simp: data_read_def)
  obtain b c r where b: "m1 = Inr (b, c, r)" "length b = length buff"
    using data_read_loop_safe [OF _ m1(1)] assms(1) by (auto simp: GPS_DEVICE_RECV_BUFF_LEN_def)
  have c: "unat c < length b" using unat_u8_lt [of c] b(2) assms(1) by (simp add: GPS_DEVICE_RECV_BUFF_LEN_def)
  have "cstring (b[unat c := 0])" unfolding cstring_def using c by (rule set_update_memI)
  then show ?thesis using m1(2) b c assms(1) by simp
qed

theorem data_read_safe_witness:
  "\<exists>m. data_read [Some 0x0A] (replicate 512 0) 512 = Some m \<and>
     (\<exists>buff' r. m = Inr (buff', r) \<and> length buff' = GPS_DEVICE_RECV_BUFF_LEN \<and> cstring buff')"
proof -
  obtain m where m: "data_read [Some 0x0A] (replicate 512 0) 512 = Some m"
    by (simp add: data_read_def data_read_loop.simps)
  have l: "length (replicate 512 (0 :: u8)) = GPS_DEVICE_RECV_BUFF_LEN"
    by (simp add: GPS_DEVICE_RECV_BUFF_LEN_def)
  show ?thesis using m data_read_safe [OF l m] by blast
qed

end
