(* ===== verification/Lcd.thy ===== *)
theory Lcd
  imports Binary_Float
begin

text \<open>
  The display driver \<open>applications/lcd.c\<close>: the parameter record \<open>lcddev\<close>, the accesses to the
  controller over the memory bus, cursor and window, scan and display direction, clearing and
  filling.  The controller is outside the program: every access is recorded in order, and the value
  of a read is a function, the parameter \<open>panel\<close>, of what happened on the bus before.
\<close>

section \<open>State\<close>

datatype bus_op =
    WrReg u16 | WrData u16 | RdData u16
  | DelayMs nat | DelayUs nat | PinModeOutput | PinWriteHigh | FsmcInit

record lcd_dev =
  width :: u16
  height :: u16
  lcd_id :: u16
  dir :: u8
  wramcmd :: u16
  setxcmd :: u16
  setycmd :: u16

text \<open>\<open>bwtr\<close> is the write timing register \<open>FSMC_Bank1E->BWTR[6]\<close> of the bus controller.\<close>

record lcd =
  lcddev :: lcd_dev
  POINT_COLOR :: u16
  BACK_COLOR :: u16
  bwtr :: u32
  bus :: "bus_op list"

type_synonym panel = "bus_op list \<Rightarrow> u16"

definition emit :: "bus_op list \<Rightarrow> lcd \<Rightarrow> lcd" where
  "emit ops s = s\<lparr>bus := bus s @ ops\<rparr>"

section \<open>Bus accesses\<close>

definition LCD_WR_REG :: "u16 \<Rightarrow> lcd \<Rightarrow> lcd" where
  "LCD_WR_REG regval = emit [WrReg regval]"

definition LCD_WR_DATA :: "u16 \<Rightarrow> lcd \<Rightarrow> lcd" where
  "LCD_WR_DATA data = emit [WrData data]"

definition LCD_RD_DATA :: "panel \<Rightarrow> lcd \<Rightarrow> u16 \<times> lcd" where
  "LCD_RD_DATA panel s = (let ram = panel (bus s) in (ram, emit [RdData ram] s))"

definition LCD_WriteReg :: "u16 \<Rightarrow> u16 \<Rightarrow> lcd \<Rightarrow> lcd" where
  "LCD_WriteReg reg v = emit [WrReg reg, WrData v]"

definition LCD_ReadReg :: "panel \<Rightarrow> u16 \<Rightarrow> lcd \<Rightarrow> u16 \<times> lcd" where
  "LCD_ReadReg panel reg s = LCD_RD_DATA panel (emit [DelayUs 5] (LCD_WR_REG reg s))"

definition LCD_WriteRAM_Prepare :: "lcd \<Rightarrow> lcd" where
  "LCD_WriteRAM_Prepare s = emit [WrReg (wramcmd (lcddev s))] s"

definition LCD_WriteRAM :: "u16 \<Rightarrow> lcd \<Rightarrow> lcd" where
  "LCD_WriteRAM c = emit [WrData c]"

definition LCD_BGR2RGB :: "u16 \<Rightarrow> u16" where
  "LCD_BGR2RGB c =
     (let b = c AND 0x1F; g = drop_bit 5 c AND 0x3F; r = drop_bit 11 c AND 0x1F
      in push_bit 11 b + push_bit 5 g + r)"

section \<open>Cursor and points\<close>

definition hi8 :: "u16 \<Rightarrow> u16" where "hi8 v = drop_bit 8 v"
definition lo8 :: "u16 \<Rightarrow> u16" where "lo8 v = v AND 0xFF"

definition cmd2 :: "u16 \<Rightarrow> u16 \<Rightarrow> bus_op list" where
  "cmd2 c v = [WrReg c, WrData (hi8 v), WrData (lo8 v)]"

definition cmd4 :: "u16 \<Rightarrow> u16 \<Rightarrow> u16 \<Rightarrow> bus_op list" where
  "cmd4 c v w = [WrReg c, WrData (hi8 v), WrData (lo8 v), WrData (hi8 w), WrData (lo8 w)]"

text \<open>
  \<open>(lcddev.width-1)>>8\<close> and \<open>(lcddev.width-1)&0XFF\<close>: the operand is promoted to \<open>int\<close>, the
  result is cut to 16 bits when it is passed on.
\<close>

definition hi_int :: "int \<Rightarrow> u16" where "hi_int v = of_int (v div 256)"
definition lo_int :: "int \<Rightarrow> u16" where "lo_int v = of_int (v mod 256)"

definition cmd4i :: "u16 \<Rightarrow> u16 \<Rightarrow> int \<Rightarrow> bus_op list" where
  "cmd4i c v w = [WrReg c, WrData (hi8 v), WrData (lo8 v), WrData (hi_int w), WrData (lo_int w)]"

text \<open>The NT35510 takes one byte per register.\<close>

definition cmd_5510 :: "u16 \<Rightarrow> u16 \<Rightarrow> bus_op list" where
  "cmd_5510 c v = [WrReg c, WrData (hi8 v), WrReg (c + 1), WrData (lo8 v)]"

definition LCD_SetCursor :: "u16 \<Rightarrow> u16 \<Rightarrow> lcd \<Rightarrow> lcd" where
  "LCD_SetCursor Xpos Ypos s =
     (let d = lcddev s; mirror = width d - 1 - Xpos in
      if lcd_id d = 0x9341 \<or> lcd_id d = 0x5310 then
        emit (cmd2 (setxcmd d) Xpos @ cmd2 (setycmd d) Ypos) s
      else if lcd_id d = 0x6804 then
        emit (cmd2 (setxcmd d) (if dir d = 1 then mirror else Xpos) @ cmd2 (setycmd d) Ypos) s
      else if lcd_id d = 0x1963 then
        emit ((if dir d = 0 then cmd4 (setxcmd d) 0 mirror else cmd4i (setxcmd d) Xpos (uint (width d) - 1))
              @ cmd4i (setycmd d) Ypos (uint (height d) - 1)) s
      else if lcd_id d = 0x5510 then
        emit (cmd_5510 (setxcmd d) Xpos @ cmd_5510 (setycmd d) Ypos) s
      else
        emit [WrReg (setxcmd d), WrData (if dir d = 1 then mirror else Xpos),
              WrReg (setycmd d), WrData Ypos] s)"

definition LCD_DrawPoint :: "u16 \<Rightarrow> u16 \<Rightarrow> lcd \<Rightarrow> lcd" where
  "LCD_DrawPoint x y s =
     (let s1 = LCD_WriteRAM_Prepare (LCD_SetCursor x y s) in emit [WrData (POINT_COLOR s1)] s1)"

definition LCD_Fast_DrawPoint :: "u16 \<Rightarrow> u16 \<Rightarrow> u16 \<Rightarrow> lcd \<Rightarrow> lcd" where
  "LCD_Fast_DrawPoint x y color s =
     (let d = lcddev s; mirror = width d - 1 - x;
          s1 =
           (if lcd_id d = 0x9341 \<or> lcd_id d = 0x5310 then
              emit (cmd2 (setxcmd d) x @ cmd2 (setycmd d) y) s
            else if lcd_id d = 0x5510 then
              emit (cmd_5510 (setxcmd d) x @ cmd_5510 (setycmd d) y) s
            else if lcd_id d = 0x1963 then
              (let x' = (if dir d = 0 then mirror else x)
               in emit (cmd4 (setxcmd d) x' x' @ cmd4 (setycmd d) y y) s)
            else if lcd_id d = 0x6804 then
              emit (cmd2 (setxcmd d) (if dir d = 1 then mirror else x) @ cmd2 (setycmd d) y) s
            else
              emit [WrReg (setxcmd d), WrData (if dir d = 1 then mirror else x),
                    WrReg (setycmd d), WrData y] s)
      in emit [WrReg (wramcmd d), WrData color] s1)"

text \<open>
  \<open>LCD_ReadPoint\<close>; \<open>opt_delay\<close> only burns cycles.  The second read of the controllers that send
  the colour in two parts is \<open>b\<close>.
\<close>

definition LCD_ReadPoint :: "panel \<Rightarrow> u16 \<Rightarrow> u16 \<Rightarrow> lcd \<Rightarrow> u16 \<times> lcd" where
  "LCD_ReadPoint panel x y s =
     (if x \<ge> width (lcddev s) \<or> y \<ge> height (lcddev s) then (0, s)
      else
        let i = lcd_id (lcddev s);
            s1 = LCD_SetCursor x y s;
            s2 = (if i = 0x9341 \<or> i = 0x6804 \<or> i = 0x5310 \<or> i = 0x1963 then LCD_WR_REG 0x2E s1
                  else if i = 0x5510 then LCD_WR_REG 0x2E00 s1
                  else LCD_WR_REG 0x22 s1);
            (r0, s3) = LCD_RD_DATA panel s2
        in if i = 0x1963 then (r0, s3)
           else
             let (r, s4) = LCD_RD_DATA panel s3
             in if i = 0x9341 \<or> i = 0x5310 \<or> i = 0x5510
                then let (b, s5) = LCD_RD_DATA panel s4; g = push_bit 8 (r AND 0xFF)
                     in (push_bit 11 (drop_bit 11 r) OR push_bit 5 (drop_bit 10 g) OR drop_bit 11 b, s5)
                else if i = 0x9325 \<or> i = 0x4535 \<or> i = 0x4531 \<or> i = 0xB505 \<or> i = 0xC505 then (r, s4)
                else (LCD_BGR2RGB r, s4))"

definition LCD_DisplayOn :: "lcd \<Rightarrow> lcd" where
  "LCD_DisplayOn s =
     (let i = lcd_id (lcddev s) in
      if i = 0x9341 \<or> i = 0x6804 \<or> i = 0x5310 \<or> i = 0x1963 then LCD_WR_REG 0x29 s
      else if i = 0x5510 then LCD_WR_REG 0x2900 s
      else LCD_WriteReg 0x07 0x0173 s)"

definition LCD_DisplayOff :: "lcd \<Rightarrow> lcd" where
  "LCD_DisplayOff s =
     (let i = lcd_id (lcddev s) in
      if i = 0x9341 \<or> i = 0x6804 \<or> i = 0x5310 \<or> i = 0x1963 then LCD_WR_REG 0x28 s
      else if i = 0x5510 then LCD_WR_REG 0x2800 s
      else LCD_WriteReg 0x07 0 s)"

text \<open>\<open>pwm*2.55\<close> is a \<open>double\<close>, truncated to 16 bits.\<close>

definition ssd_duty :: "u8 \<Rightarrow> u16" where
  "ssd_duty pwm = of_int (rtrunc (f64 (of_nat (unat pwm) * f64 (255 / 100))))"

definition LCD_SSD_BackLightSet :: "u8 \<Rightarrow> lcd \<Rightarrow> lcd" where
  "LCD_SSD_BackLightSet pwm =
     emit [WrReg 0xBE, WrData 0x05, WrData (ssd_duty pwm), WrData 0x01, WrData 0xFF, WrData 0, WrData 0]"

section \<open>Directions\<close>

text \<open>The direction conversion at the head of \<open>LCD_Scan_Dir\<close>.\<close>

definition turn_dir :: "u8 \<Rightarrow> u8" where
  "turn_dir n =
     (if n = 0 then 6 else if n = 1 then 7 else if n = 2 then 4 else if n = 3 then 5
      else if n = 4 then 1 else if n = 5 then 0 else if n = 6 then 3 else if n = 7 then 2 else n)"

text \<open>Bits 7, 6 and 5 for the controllers with register \<open>0x36\<close>.\<close>

definition scan_bits :: "u8 \<Rightarrow> u16" where
  "scan_bits n =
     (if n = 0 then 0 else if n = 1 then 0x80 else if n = 2 then 0x40 else if n = 3 then 0xC0
      else if n = 4 then 0x20 else if n = 5 then 0x60 else if n = 6 then 0xA0 else if n = 7 then 0xE0
      else 0)"

text \<open>Bits 5, 4 and 3 of register 3 for the others.\<close>

definition entry_bits :: "u8 \<Rightarrow> u16" where
  "entry_bits n =
     (if n = 0 then 0x30 else if n = 1 then 0x10 else if n = 2 then 0x20 else if n = 3 then 0
      else if n = 4 then 0x38 else if n = 5 then 0x28 else if n = 6 then 0x18 else if n = 7 then 0x08
      else 0)"

definition swap_wh :: "lcd_dev \<Rightarrow> lcd_dev" where
  "swap_wh d = d\<lparr>width := height d, height := width d\<rparr>"

definition fit_wh :: "u16 \<Rightarrow> lcd_dev \<Rightarrow> lcd_dev" where
  "fit_wh regval d =
     (if regval AND 0x20 \<noteq> 0 then if width d < height d then swap_wh d else d
      else if width d > height d then swap_wh d else d)"

definition full_window :: "lcd_dev \<Rightarrow> bus_op list" where
  "full_window d =
     (let w = uint (width d) - 1; h = uint (height d) - 1 in
      if lcd_id d = 0x5510 then
        [WrReg (setxcmd d), WrData 0, WrReg (setxcmd d + 1), WrData 0,
         WrReg (setxcmd d + 2), WrData (hi_int w), WrReg (setxcmd d + 3), WrData (lo_int w),
         WrReg (setycmd d), WrData 0, WrReg (setycmd d + 1), WrData 0,
         WrReg (setycmd d + 2), WrData (hi_int h), WrReg (setycmd d + 3), WrData (lo_int h)]
      else
        [WrReg (setxcmd d), WrData 0, WrData 0, WrData (hi_int w), WrData (lo_int w),
         WrReg (setycmd d), WrData 0, WrData 0, WrData (hi_int h), WrData (lo_int h)])"

definition LCD_Scan_Dir :: "u8 \<Rightarrow> lcd \<Rightarrow> lcd" where
  "LCD_Scan_Dir n0 s =
     (let d = lcddev s; i = lcd_id d;
          n = (if (dir d = 1 \<and> i \<noteq> 0x6804 \<and> i \<noteq> 0x1963) \<or> (dir d = 0 \<and> i = 0x1963)
               then turn_dir n0 else n0)
      in if i = 0x9341 \<or> i = 0x6804 \<or> i = 0x5310 \<or> i = 0x5510 \<or> i = 0x1963 then
           let r0 = scan_bits n;
               dirreg = (if i = 0x5510 then 0x3600 else 0x36);
               r1 = (if i \<noteq> 0x5310 \<and> i \<noteq> 0x5510 \<and> i \<noteq> 0x1963 then r0 OR 0x08 else r0);
               r2 = (if i = 0x6804 then r1 OR 0x02 else r1);
               s1 = LCD_WriteReg dirreg r2 s;
               s2 = (if i \<noteq> 0x1963 then s1\<lparr>lcddev := fit_wh r2 d\<rparr> else s1)
           in emit (full_window (lcddev s2)) s2
         else LCD_WriteReg 0x03 (entry_bits n OR 0x1000) s)"

definition DFT_SCAN_DIR :: u8 where "DFT_SCAN_DIR = 5"

definition set_cmds :: "u16 \<Rightarrow> u16 \<Rightarrow> u16 \<Rightarrow> lcd_dev \<Rightarrow> lcd_dev" where
  "set_cmds w x y d = d\<lparr>wramcmd := w, setxcmd := x, setycmd := y\<rparr>"

definition set_wh :: "u16 \<Rightarrow> u16 \<Rightarrow> lcd_dev \<Rightarrow> lcd_dev" where
  "set_wh w h d = d\<lparr>width := w, height := h\<rparr>"

definition portrait_dev :: "lcd_dev \<Rightarrow> lcd_dev" where
  "portrait_dev d0 =
     (let d = set_wh 240 320 (d0\<lparr>dir := 0\<rparr>); i = lcd_id d in
      if i = 0x9341 \<or> i = 0x6804 \<or> i = 0x5310 then
        (let d1 = set_cmds 0x2C 0x2A 0x2B d
         in if i = 0x6804 \<or> i = 0x5310 then set_wh 320 480 d1 else d1)
      else if i = 0x5510 then set_wh 480 800 (set_cmds 0x2C00 0x2A00 0x2B00 d)
      else if i = 0x1963 then set_wh 480 800 (set_cmds 0x2C 0x2B 0x2A d)
      else set_cmds 0x22 0x20 0x21 d)"

definition landscape_dev :: "lcd_dev \<Rightarrow> lcd_dev" where
  "landscape_dev d0 =
     (let d = set_wh 320 240 (d0\<lparr>dir := 1\<rparr>); i = lcd_id d;
          d1 = (if i = 0x9341 \<or> i = 0x5310 then set_cmds 0x2C 0x2A 0x2B d
                else if i = 0x6804 then set_cmds 0x2C 0x2B 0x2A d
                else if i = 0x5510 then set_wh 800 480 (set_cmds 0x2C00 0x2A00 0x2B00 d)
                else if i = 0x1963 then set_wh 800 480 (set_cmds 0x2C 0x2A 0x2B d)
                else set_cmds 0x22 0x21 0x20 d)
      in if i = 0x6804 \<or> i = 0x5310 then set_wh 480 320 d1 else d1)"

definition LCD_Display_Dir :: "u8 \<Rightarrow> lcd \<Rightarrow> lcd" where
  "LCD_Display_Dir n s =
     LCD_Scan_Dir DFT_SCAN_DIR
       (s\<lparr>lcddev := (if n = 0 then portrait_dev (lcddev s) else landscape_dev (lcddev s))\<rparr>)"

section \<open>Windows, clearing, filling\<close>

definition LCD_Set_Window :: "u16 \<Rightarrow> u16 \<Rightarrow> u16 \<Rightarrow> u16 \<Rightarrow> lcd \<Rightarrow> lcd" where
  "LCD_Set_Window sx sy w h s =
     (let d = lcddev s; i = lcd_id d; tw = sx + w - 1; th = sy + h - 1 in
      if i = 0x9341 \<or> i = 0x5310 \<or> i = 0x6804 \<or> (dir d = 1 \<and> i = 0x1963) then
        emit (cmd4 (setxcmd d) sx tw @ cmd4 (setycmd d) sy th) s
      else if i = 0x1963 then
        (let sx' = width d - w - sx; h' = sy + h - 1
         in emit (cmd4i (setxcmd d) sx' (uint sx' + uint w - 1) @ cmd4 (setycmd d) sy h') s)
      else if i = 0x5510 then
        emit (cmd_5510 (setxcmd d) sx @ cmd_5510 (setxcmd d + 2) tw
              @ cmd_5510 (setycmd d) sy @ cmd_5510 (setycmd d + 2) th) s
      else
        (let (hsa, hea, vsa, vea) =
               (if dir d = 1 then (sy, th, width d - tw - 1, width d - sx - 1)
                else (sx, tw, sy, th))
         in LCD_SetCursor sx sy
              (LCD_WriteReg 0x53 vea (LCD_WriteReg 0x52 vsa (LCD_WriteReg 0x51 hea (LCD_WriteReg 0x50 hsa s))))))"

definition put_cmds :: "u8 \<Rightarrow> u16 \<Rightarrow> u16 \<Rightarrow> lcd \<Rightarrow> lcd" where
  "put_cmds n x y s = s\<lparr>lcddev := (lcddev s)\<lparr>dir := n, setxcmd := x, setycmd := y\<rparr>\<rparr>"

text \<open>\<open>totalpoint\<close> is a 32-bit product of two 16-bit values; the loop writes one word per point.\<close>

definition LCD_Clear :: "u16 \<Rightarrow> lcd \<Rightarrow> lcd" where
  "LCD_Clear color s =
     (let totalpoint = (ucast (width (lcddev s)) :: u32) * ucast (height (lcddev s));
          s1 = (if lcd_id (lcddev s) = 0x6804 \<and> dir (lcddev s) = 1
                then put_cmds 1 0x2B 0x2A (LCD_SetCursor 0 0 (put_cmds 0 0x2A 0x2B s))
                else LCD_SetCursor 0 0 s)
      in emit (replicate (unat totalpoint) (WrData color)) (LCD_WriteRAM_Prepare s1))"

text \<open>
  The row loop of \<open>LCD_Fill\<close>: \<open>i\<close> is 16 bits wide, so the loop ends only if \<open>ey\<close> is not the
  largest value; \<open>None\<close> is the loop that never ends.
\<close>

partial_function (option) fill_rows :: "u16 \<Rightarrow> u16 \<Rightarrow> u16 \<Rightarrow> u16 \<Rightarrow> u16 \<Rightarrow> lcd \<Rightarrow> lcd option" where
  "fill_rows sx xlen ey color i s =
     (if i \<le> ey
      then fill_rows sx xlen ey color (i + 1)
             (emit (replicate (unat xlen) (WrData color)) (LCD_WriteRAM_Prepare (LCD_SetCursor sx i s)))
      else Some s)"

definition LCD_Fill :: "u16 \<Rightarrow> u16 \<Rightarrow> u16 \<Rightarrow> u16 \<Rightarrow> u16 \<Rightarrow> lcd \<Rightarrow> lcd option" where
  "LCD_Fill sx sy ex ey color s =
     (let w = width (lcddev s) in
      if lcd_id (lcddev s) = 0x6804 \<and> dir (lcddev s) = 1
      then map_option (put_cmds 1 0x2B 0x2A)
             (fill_rows sy (ey - sy + 1) (w - sx - 1) color (w - ex - 1) (put_cmds 0 0x2A 0x2B s))
      else fill_rows sx (ex - sx + 1) ey color sy s)"

text \<open>
  \<open>LCD_Color_Fill\<close>: \<open>color[i*width+j]\<close> reads the caller's array; an index past its end is a
  fault.  Both loop variables are below a 16-bit bound, so the loops end.
\<close>

definition color_row :: "u16 list \<Rightarrow> nat \<Rightarrow> nat \<Rightarrow> bus_op list" where
  "color_row color i w = map (\<lambda>j. WrData (color ! (i * w + j))) [0..<w]"

fun color_rows :: "nat \<Rightarrow> nat \<Rightarrow> u16 \<Rightarrow> u16 \<Rightarrow> nat \<Rightarrow> u16 list \<Rightarrow> lcd \<Rightarrow> lcd res" where
  "color_rows 0 i sx sy w color s = Inr s"
| "color_rows (Suc n) i sx sy w color s =
     (if i * w + w \<le> length color \<or> w = 0
      then color_rows n (Suc i) sx sy w color
             (emit (color_row color i w) (LCD_WriteRAM_Prepare (LCD_SetCursor sx (sy + of_nat i) s)))
      else Inl OutOfBounds)"

definition LCD_Color_Fill :: "u16 \<Rightarrow> u16 \<Rightarrow> u16 \<Rightarrow> u16 \<Rightarrow> u16 list \<Rightarrow> lcd \<Rightarrow> lcd res" where
  "LCD_Color_Fill sx sy ex ey color s =
     color_rows (unat (ey - sy + 1)) 0 sx sy (unat (ex - sx + 1)) color s"

end
