(* ===== verification/Lcd_Init_Tables.thy ===== *)
theory Lcd_Init_Tables
  imports Prelude
begin

text \<open>
  The controller set-up sequences of \<open>LCD_Init\<close> in \<open>applications/lcd.c\<close>, one list per controller
  the driver knows, in the order of the statements.  Long sequences are given in parts.
\<close>

text \<open>
  One statement: \<open>LCD_WR_REG\<close>, \<open>LCD_WR_DATA\<close>, \<open>LCD_WriteReg\<close>, \<open>rt_thread_delay\<close> and
  \<open>rt_hw_us_delay\<close>.
\<close>

datatype init_cmd = Cmd u16 | Dat u16 | Reg u16 u16 | Ms nat | Us nat

definition init_9341 :: "init_cmd list" where
  "init_9341 = [
    Cmd 0xCF, Dat 0x0, Dat 0xC1, Dat 0x30, Cmd 0xED, Dat 0x64, Dat 0x3, Dat 0x12, Dat 0x81,
    Cmd 0xE8, Dat 0x85, Dat 0x10, Dat 0x7A, Cmd 0xCB, Dat 0x39, Dat 0x2C, Dat 0x0, Dat 0x34,
    Dat 0x2, Cmd 0xF7, Dat 0x20, Cmd 0xEA, Dat 0x0, Dat 0x0, Cmd 0xC0, Dat 0x1B, Cmd 0xC1,
    Dat 0x1, Cmd 0xC5, Dat 0x30, Dat 0x30, Cmd 0xC7, Dat 0xB7, Cmd 0x36, Dat 0x48, Cmd 0x3A,
    Dat 0x55, Cmd 0xB1, Dat 0x0, Dat 0x1A, Cmd 0xB6, Dat 0xA, Dat 0xA2, Cmd 0xF2, Dat 0x0,
    Cmd 0x26, Dat 0x1, Cmd 0xE0, Dat 0xF, Dat 0x2A, Dat 0x28, Dat 0x8, Dat 0xE, Dat 0x8,
    Dat 0x54, Dat 0xA9, Dat 0x43, Dat 0xA, Dat 0xF, Dat 0x0, Dat 0x0, Dat 0x0, Dat 0x0,
    Cmd 0xE1, Dat 0x0, Dat 0x15, Dat 0x17, Dat 0x7, Dat 0x11, Dat 0x6, Dat 0x2B, Dat 0x56,
    Dat 0x3C, Dat 0x5, Dat 0x10, Dat 0xF, Dat 0x3F, Dat 0x3F, Dat 0xF, Cmd 0x2B, Dat 0x0,
    Dat 0x0, Dat 0x1, Dat 0x3F, Cmd 0x2A, Dat 0x0, Dat 0x0, Dat 0x0, Dat 0xEF, Cmd 0x11,
    Ms 120, Cmd 0x29]"

definition init_6804 :: "init_cmd list" where
  "init_6804 = [
    Cmd 0x11, Ms 20, Cmd 0xD0, Dat 0x7, Dat 0x42, Dat 0x1D, Cmd 0xD1, Dat 0x0, Dat 0x1A,
    Dat 0x9, Cmd 0xD2, Dat 0x1, Dat 0x22, Cmd 0xC0, Dat 0x10, Dat 0x3B, Dat 0x0, Dat 0x2,
    Dat 0x11, Cmd 0xC5, Dat 0x3, Cmd 0xC8, Dat 0x0, Dat 0x25, Dat 0x21, Dat 0x5, Dat 0x0,
    Dat 0xA, Dat 0x65, Dat 0x25, Dat 0x77, Dat 0x50, Dat 0xF, Dat 0x0, Cmd 0xF8, Dat 0x1,
    Cmd 0xFE, Dat 0x0, Dat 0x2, Cmd 0x20, Cmd 0x36, Dat 0x8, Cmd 0x3A, Dat 0x55, Cmd 0x2B,
    Dat 0x0, Dat 0x0, Dat 0x1, Dat 0x3F, Cmd 0x2A, Dat 0x0, Dat 0x0, Dat 0x1, Dat 0xDF, Ms 120,
    Cmd 0x29]"

definition init_5310_1 :: "init_cmd list" where
  "init_5310_1 = [
    Cmd 0xED, Dat 0x1, Dat 0xFE, Cmd 0xEE, Dat 0xDE, Dat 0x21, Cmd 0xF1, Dat 0x1, Cmd 0xDF,
    Dat 0x10, Cmd 0xC4, Dat 0x8F, Cmd 0xC6, Dat 0x0, Dat 0xE2, Dat 0xE2, Dat 0xE2, Cmd 0xBF,
    Dat 0xAA, Cmd 0xB0, Dat 0xD, Dat 0x0, Dat 0xD, Dat 0x0, Dat 0x11, Dat 0x0, Dat 0x19,
    Dat 0x0, Dat 0x21, Dat 0x0, Dat 0x2D, Dat 0x0, Dat 0x3D, Dat 0x0, Dat 0x5D, Dat 0x0,
    Dat 0x5D, Dat 0x0, Cmd 0xB1, Dat 0x80, Dat 0x0, Dat 0x8B, Dat 0x0, Dat 0x96, Dat 0x0,
    Cmd 0xB2, Dat 0x0, Dat 0x0, Dat 0x2, Dat 0x0, Dat 0x3, Dat 0x0, Cmd 0xB3, Dat 0x0, Dat 0x0,
    Dat 0x0, Dat 0x0, Dat 0x0, Dat 0x0, Dat 0x0, Dat 0x0, Dat 0x0, Dat 0x0, Dat 0x0, Dat 0x0,
    Dat 0x0, Dat 0x0, Dat 0x0, Dat 0x0, Dat 0x0, Dat 0x0, Dat 0x0, Dat 0x0, Dat 0x0, Dat 0x0,
    Dat 0x0, Dat 0x0, Cmd 0xB4, Dat 0x8B, Dat 0x0, Dat 0x96, Dat 0x0, Dat 0xA1, Dat 0x0,
    Cmd 0xB5, Dat 0x2, Dat 0x0, Dat 0x3, Dat 0x0, Dat 0x4, Dat 0x0, Cmd 0xB6, Dat 0x0, Dat 0x0,
    Cmd 0xB7, Dat 0x0, Dat 0x0, Dat 0x3F, Dat 0x0, Dat 0x5E, Dat 0x0, Dat 0x64, Dat 0x0]"

definition init_5310_2 :: "init_cmd list" where
  "init_5310_2 = [
    Dat 0x8C, Dat 0x0, Dat 0xAC, Dat 0x0, Dat 0xDC, Dat 0x0, Dat 0x70, Dat 0x0, Dat 0x90,
    Dat 0x0, Dat 0xEB, Dat 0x0, Dat 0xDC, Dat 0x0, Cmd 0xB8, Dat 0x0, Dat 0x0, Dat 0x0,
    Dat 0x0, Dat 0x0, Dat 0x0, Dat 0x0, Dat 0x0, Cmd 0xBA, Dat 0x24, Dat 0x0, Dat 0x0, Dat 0x0,
    Cmd 0xC1, Dat 0x20, Dat 0x0, Dat 0x54, Dat 0x0, Dat 0xFF, Dat 0x0, Cmd 0xC2, Dat 0xA,
    Dat 0x0, Dat 0x4, Dat 0x0, Cmd 0xC3, Dat 0x3C, Dat 0x0, Dat 0x3A, Dat 0x0, Dat 0x39,
    Dat 0x0, Dat 0x37, Dat 0x0, Dat 0x3C, Dat 0x0, Dat 0x36, Dat 0x0, Dat 0x32, Dat 0x0,
    Dat 0x2F, Dat 0x0, Dat 0x2C, Dat 0x0, Dat 0x29, Dat 0x0, Dat 0x26, Dat 0x0, Dat 0x24,
    Dat 0x0, Dat 0x24, Dat 0x0, Dat 0x23, Dat 0x0, Dat 0x3C, Dat 0x0, Dat 0x36, Dat 0x0,
    Dat 0x32, Dat 0x0, Dat 0x2F, Dat 0x0, Dat 0x2C, Dat 0x0, Dat 0x29, Dat 0x0, Dat 0x26,
    Dat 0x0, Dat 0x24, Dat 0x0, Dat 0x24, Dat 0x0, Dat 0x23, Dat 0x0, Cmd 0xC4, Dat 0x62,
    Dat 0x0, Dat 0x5, Dat 0x0, Dat 0x84, Dat 0x0, Dat 0xF0, Dat 0x0, Dat 0x18, Dat 0x0,
    Dat 0xA4, Dat 0x0, Dat 0x18, Dat 0x0, Dat 0x50, Dat 0x0, Dat 0xC, Dat 0x0, Dat 0x17,
    Dat 0x0, Dat 0x95, Dat 0x0]"

definition init_5310_3 :: "init_cmd list" where
  "init_5310_3 = [
    Dat 0xF3, Dat 0x0, Dat 0xE6, Dat 0x0, Cmd 0xC5, Dat 0x32, Dat 0x0, Dat 0x44, Dat 0x0,
    Dat 0x65, Dat 0x0, Dat 0x76, Dat 0x0, Dat 0x88, Dat 0x0, Cmd 0xC6, Dat 0x20, Dat 0x0,
    Dat 0x17, Dat 0x0, Dat 0x1, Dat 0x0, Cmd 0xC7, Dat 0x0, Dat 0x0, Dat 0x0, Dat 0x0,
    Cmd 0xC8, Dat 0x0, Dat 0x0, Dat 0x0, Dat 0x0, Cmd 0xC9, Dat 0x0, Dat 0x0, Dat 0x0, Dat 0x0,
    Dat 0x0, Dat 0x0, Dat 0x0, Dat 0x0, Dat 0x0, Dat 0x0, Dat 0x0, Dat 0x0, Dat 0x0, Dat 0x0,
    Dat 0x0, Dat 0x0, Cmd 0xE0, Dat 0x16, Dat 0x0, Dat 0x1C, Dat 0x0, Dat 0x21, Dat 0x0,
    Dat 0x36, Dat 0x0, Dat 0x46, Dat 0x0, Dat 0x52, Dat 0x0, Dat 0x64, Dat 0x0, Dat 0x7A,
    Dat 0x0, Dat 0x8B, Dat 0x0, Dat 0x99, Dat 0x0, Dat 0xA8, Dat 0x0, Dat 0xB9, Dat 0x0,
    Dat 0xC4, Dat 0x0, Dat 0xCA, Dat 0x0, Dat 0xD2, Dat 0x0, Dat 0xD9, Dat 0x0, Dat 0xE0,
    Dat 0x0, Dat 0xF3, Dat 0x0, Cmd 0xE1, Dat 0x16, Dat 0x0, Dat 0x1C, Dat 0x0, Dat 0x22,
    Dat 0x0, Dat 0x36, Dat 0x0, Dat 0x45, Dat 0x0, Dat 0x52, Dat 0x0, Dat 0x64, Dat 0x0,
    Dat 0x7A, Dat 0x0, Dat 0x8B, Dat 0x0, Dat 0x99, Dat 0x0, Dat 0xA8, Dat 0x0, Dat 0xB9,
    Dat 0x0]"

definition init_5310_4 :: "init_cmd list" where
  "init_5310_4 = [
    Dat 0xC4, Dat 0x0, Dat 0xCA, Dat 0x0, Dat 0xD2, Dat 0x0, Dat 0xD8, Dat 0x0, Dat 0xE0,
    Dat 0x0, Dat 0xF3, Dat 0x0, Cmd 0xE2, Dat 0x5, Dat 0x0, Dat 0xB, Dat 0x0, Dat 0x1B,
    Dat 0x0, Dat 0x34, Dat 0x0, Dat 0x44, Dat 0x0, Dat 0x4F, Dat 0x0, Dat 0x61, Dat 0x0,
    Dat 0x79, Dat 0x0, Dat 0x88, Dat 0x0, Dat 0x97, Dat 0x0, Dat 0xA6, Dat 0x0, Dat 0xB7,
    Dat 0x0, Dat 0xC2, Dat 0x0, Dat 0xC7, Dat 0x0, Dat 0xD1, Dat 0x0, Dat 0xD6, Dat 0x0,
    Dat 0xDD, Dat 0x0, Dat 0xF3, Dat 0x0, Cmd 0xE3, Dat 0x5, Dat 0x0, Dat 0xA, Dat 0x0,
    Dat 0x1C, Dat 0x0, Dat 0x33, Dat 0x0, Dat 0x44, Dat 0x0, Dat 0x50, Dat 0x0, Dat 0x62,
    Dat 0x0, Dat 0x78, Dat 0x0, Dat 0x88, Dat 0x0, Dat 0x97, Dat 0x0, Dat 0xA6, Dat 0x0,
    Dat 0xB7, Dat 0x0, Dat 0xC2, Dat 0x0, Dat 0xC7, Dat 0x0, Dat 0xD1, Dat 0x0, Dat 0xD5,
    Dat 0x0, Dat 0xDD, Dat 0x0, Dat 0xF3, Dat 0x0, Cmd 0xE4, Dat 0x1, Dat 0x0, Dat 0x1,
    Dat 0x0, Dat 0x2, Dat 0x0, Dat 0x2A, Dat 0x0, Dat 0x3C, Dat 0x0, Dat 0x4B, Dat 0x0,
    Dat 0x5D, Dat 0x0, Dat 0x74, Dat 0x0, Dat 0x84, Dat 0x0, Dat 0x93, Dat 0x0, Dat 0xA2,
    Dat 0x0, Dat 0xB3, Dat 0x0, Dat 0xBE, Dat 0x0, Dat 0xC4, Dat 0x0, Dat 0xCD]"

definition init_5310_5 :: "init_cmd list" where
  "init_5310_5 = [
    Dat 0x0, Dat 0xD3, Dat 0x0, Dat 0xDD, Dat 0x0, Dat 0xF3, Dat 0x0, Cmd 0xE5, Dat 0x0,
    Dat 0x0, Dat 0x0, Dat 0x0, Dat 0x2, Dat 0x0, Dat 0x29, Dat 0x0, Dat 0x3C, Dat 0x0,
    Dat 0x4B, Dat 0x0, Dat 0x5D, Dat 0x0, Dat 0x74, Dat 0x0, Dat 0x84, Dat 0x0, Dat 0x93,
    Dat 0x0, Dat 0xA2, Dat 0x0, Dat 0xB3, Dat 0x0, Dat 0xBE, Dat 0x0, Dat 0xC4, Dat 0x0,
    Dat 0xCD, Dat 0x0, Dat 0xD3, Dat 0x0, Dat 0xDC, Dat 0x0, Dat 0xF3, Dat 0x0, Cmd 0xE6,
    Dat 0x11, Dat 0x0, Dat 0x34, Dat 0x0, Dat 0x56, Dat 0x0, Dat 0x76, Dat 0x0, Dat 0x77,
    Dat 0x0, Dat 0x66, Dat 0x0, Dat 0x88, Dat 0x0, Dat 0x99, Dat 0x0, Dat 0xBB, Dat 0x0,
    Dat 0x99, Dat 0x0, Dat 0x66, Dat 0x0, Dat 0x55, Dat 0x0, Dat 0x55, Dat 0x0, Dat 0x45,
    Dat 0x0, Dat 0x43, Dat 0x0, Dat 0x44, Dat 0x0, Cmd 0xE7, Dat 0x32, Dat 0x0, Dat 0x55,
    Dat 0x0, Dat 0x76, Dat 0x0, Dat 0x66, Dat 0x0, Dat 0x67, Dat 0x0, Dat 0x67, Dat 0x0,
    Dat 0x87, Dat 0x0, Dat 0x99, Dat 0x0, Dat 0xBB, Dat 0x0, Dat 0x99, Dat 0x0, Dat 0x77,
    Dat 0x0, Dat 0x44, Dat 0x0, Dat 0x56, Dat 0x0, Dat 0x23, Dat 0x0, Dat 0x33, Dat 0x0,
    Dat 0x45, Dat 0x0, Cmd 0xE8, Dat 0x0, Dat 0x0, Dat 0x99, Dat 0x0]"

definition init_5310_6 :: "init_cmd list" where
  "init_5310_6 = [
    Dat 0x87, Dat 0x0, Dat 0x88, Dat 0x0, Dat 0x77, Dat 0x0, Dat 0x66, Dat 0x0, Dat 0x88,
    Dat 0x0, Dat 0xAA, Dat 0x0, Dat 0xBB, Dat 0x0, Dat 0x99, Dat 0x0, Dat 0x66, Dat 0x0,
    Dat 0x55, Dat 0x0, Dat 0x55, Dat 0x0, Dat 0x44, Dat 0x0, Dat 0x44, Dat 0x0, Dat 0x55,
    Dat 0x0, Cmd 0xE9, Dat 0xAA, Dat 0x0, Dat 0x0, Dat 0x0, Cmd 0x0, Dat 0xAA, Cmd 0xCF,
    Dat 0x0, Dat 0x0, Dat 0x0, Dat 0x0, Dat 0x0, Dat 0x0, Dat 0x0, Dat 0x0, Dat 0x0, Dat 0x0,
    Dat 0x0, Dat 0x0, Dat 0x0, Dat 0x0, Dat 0x0, Dat 0x0, Dat 0x0, Cmd 0xF0, Dat 0x0, Dat 0x50,
    Dat 0x0, Dat 0x0, Dat 0x0, Cmd 0xF3, Dat 0x0, Cmd 0xF9, Dat 0x6, Dat 0x10, Dat 0x29,
    Dat 0x0, Cmd 0x3A, Dat 0x55, Cmd 0x11, Ms 100, Cmd 0x29, Cmd 0x35, Dat 0x0, Cmd 0x51,
    Dat 0xFF, Cmd 0x53, Dat 0x2C, Cmd 0x55, Dat 0x82, Cmd 0x2C]"

definition init_5310 :: "init_cmd list" where
  "init_5310 = init_5310_1 @ init_5310_2 @ init_5310_3 @ init_5310_4 @ init_5310_5 @ init_5310_6"

definition init_5510_1 :: "init_cmd list" where
  "init_5510_1 = [
    Reg 0xF000 0x55, Reg 0xF001 0xAA, Reg 0xF002 0x52, Reg 0xF003 0x8, Reg 0xF004 0x1,
    Reg 0xB000 0xD, Reg 0xB001 0xD, Reg 0xB002 0xD, Reg 0xB600 0x34, Reg 0xB601 0x34,
    Reg 0xB602 0x34, Reg 0xB100 0xD, Reg 0xB101 0xD, Reg 0xB102 0xD, Reg 0xB700 0x34,
    Reg 0xB701 0x34, Reg 0xB702 0x34, Reg 0xB200 0x0, Reg 0xB201 0x0, Reg 0xB202 0x0,
    Reg 0xB800 0x24, Reg 0xB801 0x24, Reg 0xB802 0x24, Reg 0xBF00 0x1, Reg 0xB300 0xF,
    Reg 0xB301 0xF, Reg 0xB302 0xF, Reg 0xB900 0x34, Reg 0xB901 0x34, Reg 0xB902 0x34,
    Reg 0xB500 0x8, Reg 0xB501 0x8, Reg 0xB502 0x8, Reg 0xC200 0x3, Reg 0xBA00 0x24,
    Reg 0xBA01 0x24, Reg 0xBA02 0x24, Reg 0xBC00 0x0, Reg 0xBC01 0x78, Reg 0xBC02 0x0,
    Reg 0xBD00 0x0, Reg 0xBD01 0x78, Reg 0xBD02 0x0, Reg 0xBE00 0x0, Reg 0xBE01 0x64,
    Reg 0xD100 0x0, Reg 0xD101 0x33, Reg 0xD102 0x0, Reg 0xD103 0x34, Reg 0xD104 0x0,
    Reg 0xD105 0x3A, Reg 0xD106 0x0, Reg 0xD107 0x4A, Reg 0xD108 0x0, Reg 0xD109 0x5C,
    Reg 0xD10A 0x0, Reg 0xD10B 0x81, Reg 0xD10C 0x0, Reg 0xD10D 0xA6, Reg 0xD10E 0x0,
    Reg 0xD10F 0xE5, Reg 0xD110 0x1, Reg 0xD111 0x13, Reg 0xD112 0x1, Reg 0xD113 0x54,
    Reg 0xD114 0x1, Reg 0xD115 0x82, Reg 0xD116 0x1, Reg 0xD117 0xCA, Reg 0xD118 0x2,
    Reg 0xD119 0x0, Reg 0xD11A 0x2, Reg 0xD11B 0x1, Reg 0xD11C 0x2, Reg 0xD11D 0x34,
    Reg 0xD11E 0x2, Reg 0xD11F 0x67, Reg 0xD120 0x2, Reg 0xD121 0x84, Reg 0xD122 0x2,
    Reg 0xD123 0xA4, Reg 0xD124 0x2, Reg 0xD125 0xB7, Reg 0xD126 0x2, Reg 0xD127 0xCF,
    Reg 0xD128 0x2, Reg 0xD129 0xDE, Reg 0xD12A 0x2, Reg 0xD12B 0xF2, Reg 0xD12C 0x2,
    Reg 0xD12D 0xFE, Reg 0xD12E 0x3, Reg 0xD12F 0x10, Reg 0xD130 0x3, Reg 0xD131 0x33,
    Reg 0xD132 0x3, Reg 0xD133 0x6D, Reg 0xD200 0x0, Reg 0xD201 0x33, Reg 0xD202 0x0,
    Reg 0xD203 0x34, Reg 0xD204 0x0]"

definition init_5510_2 :: "init_cmd list" where
  "init_5510_2 = [
    Reg 0xD205 0x3A, Reg 0xD206 0x0, Reg 0xD207 0x4A, Reg 0xD208 0x0, Reg 0xD209 0x5C,
    Reg 0xD20A 0x0, Reg 0xD20B 0x81, Reg 0xD20C 0x0, Reg 0xD20D 0xA6, Reg 0xD20E 0x0,
    Reg 0xD20F 0xE5, Reg 0xD210 0x1, Reg 0xD211 0x13, Reg 0xD212 0x1, Reg 0xD213 0x54,
    Reg 0xD214 0x1, Reg 0xD215 0x82, Reg 0xD216 0x1, Reg 0xD217 0xCA, Reg 0xD218 0x2,
    Reg 0xD219 0x0, Reg 0xD21A 0x2, Reg 0xD21B 0x1, Reg 0xD21C 0x2, Reg 0xD21D 0x34,
    Reg 0xD21E 0x2, Reg 0xD21F 0x67, Reg 0xD220 0x2, Reg 0xD221 0x84, Reg 0xD222 0x2,
    Reg 0xD223 0xA4, Reg 0xD224 0x2, Reg 0xD225 0xB7, Reg 0xD226 0x2, Reg 0xD227 0xCF,
    Reg 0xD228 0x2, Reg 0xD229 0xDE, Reg 0xD22A 0x2, Reg 0xD22B 0xF2, Reg 0xD22C 0x2,
    Reg 0xD22D 0xFE, Reg 0xD22E 0x3, Reg 0xD22F 0x10, Reg 0xD230 0x3, Reg 0xD231 0x33,
    Reg 0xD232 0x3, Reg 0xD233 0x6D, Reg 0xD300 0x0, Reg 0xD301 0x33, Reg 0xD302 0x0,
    Reg 0xD303 0x34, Reg 0xD304 0x0, Reg 0xD305 0x3A, Reg 0xD306 0x0, Reg 0xD307 0x4A,
    Reg 0xD308 0x0, Reg 0xD309 0x5C, Reg 0xD30A 0x0, Reg 0xD30B 0x81, Reg 0xD30C 0x0,
    Reg 0xD30D 0xA6, Reg 0xD30E 0x0, Reg 0xD30F 0xE5, Reg 0xD310 0x1, Reg 0xD311 0x13,
    Reg 0xD312 0x1, Reg 0xD313 0x54, Reg 0xD314 0x1, Reg 0xD315 0x82, Reg 0xD316 0x1,
    Reg 0xD317 0xCA, Reg 0xD318 0x2, Reg 0xD319 0x0, Reg 0xD31A 0x2, Reg 0xD31B 0x1,
    Reg 0xD31C 0x2, Reg 0xD31D 0x34, Reg 0xD31E 0x2, Reg 0xD31F 0x67, Reg 0xD320 0x2,
    Reg 0xD321 0x84, Reg 0xD322 0x2, Reg 0xD323 0xA4, Reg 0xD324 0x2, Reg 0xD325 0xB7,
    Reg 0xD326 0x2, Reg 0xD327 0xCF, Reg 0xD328 0x2, Reg 0xD329 0xDE, Reg 0xD32A 0x2,
    Reg 0xD32B 0xF2, Reg 0xD32C 0x2, Reg 0xD32D 0xFE, Reg 0xD32E 0x3, Reg 0xD32F 0x10,
    Reg 0xD330 0x3, Reg 0xD331 0x33, Reg 0xD332 0x3, Reg 0xD333 0x6D, Reg 0xD400 0x0,
    Reg 0xD401 0x33, Reg 0xD402 0x0, Reg 0xD403 0x34, Reg 0xD404 0x0, Reg 0xD405 0x3A,
    Reg 0xD406 0x0, Reg 0xD407 0x4A, Reg 0xD408 0x0, Reg 0xD409 0x5C, Reg 0xD40A 0x0,
    Reg 0xD40B 0x81, Reg 0xD40C 0x0, Reg 0xD40D 0xA6, Reg 0xD40E 0x0, Reg 0xD40F 0xE5]"

definition init_5510_3 :: "init_cmd list" where
  "init_5510_3 = [
    Reg 0xD410 0x1, Reg 0xD411 0x13, Reg 0xD412 0x1, Reg 0xD413 0x54, Reg 0xD414 0x1,
    Reg 0xD415 0x82, Reg 0xD416 0x1, Reg 0xD417 0xCA, Reg 0xD418 0x2, Reg 0xD419 0x0,
    Reg 0xD41A 0x2, Reg 0xD41B 0x1, Reg 0xD41C 0x2, Reg 0xD41D 0x34, Reg 0xD41E 0x2,
    Reg 0xD41F 0x67, Reg 0xD420 0x2, Reg 0xD421 0x84, Reg 0xD422 0x2, Reg 0xD423 0xA4,
    Reg 0xD424 0x2, Reg 0xD425 0xB7, Reg 0xD426 0x2, Reg 0xD427 0xCF, Reg 0xD428 0x2,
    Reg 0xD429 0xDE, Reg 0xD42A 0x2, Reg 0xD42B 0xF2, Reg 0xD42C 0x2, Reg 0xD42D 0xFE,
    Reg 0xD42E 0x3, Reg 0xD42F 0x10, Reg 0xD430 0x3, Reg 0xD431 0x33, Reg 0xD432 0x3,
    Reg 0xD433 0x6D, Reg 0xD500 0x0, Reg 0xD501 0x33, Reg 0xD502 0x0, Reg 0xD503 0x34,
    Reg 0xD504 0x0, Reg 0xD505 0x3A, Reg 0xD506 0x0, Reg 0xD507 0x4A, Reg 0xD508 0x0,
    Reg 0xD509 0x5C, Reg 0xD50A 0x0, Reg 0xD50B 0x81, Reg 0xD50C 0x0, Reg 0xD50D 0xA6,
    Reg 0xD50E 0x0, Reg 0xD50F 0xE5, Reg 0xD510 0x1, Reg 0xD511 0x13, Reg 0xD512 0x1,
    Reg 0xD513 0x54, Reg 0xD514 0x1, Reg 0xD515 0x82, Reg 0xD516 0x1, Reg 0xD517 0xCA,
    Reg 0xD518 0x2, Reg 0xD519 0x0, Reg 0xD51A 0x2, Reg 0xD51B 0x1, Reg 0xD51C 0x2,
    Reg 0xD51D 0x34, Reg 0xD51E 0x2, Reg 0xD51F 0x67, Reg 0xD520 0x2, Reg 0xD521 0x84,
    Reg 0xD522 0x2, Reg 0xD523 0xA4, Reg 0xD524 0x2, Reg 0xD525 0xB7, Reg 0xD526 0x2,
    Reg 0xD527 0xCF, Reg 0xD528 0x2, Reg 0xD529 0xDE, Reg 0xD52A 0x2, Reg 0xD52B 0xF2,
    Reg 0xD52C 0x2, Reg 0xD52D 0xFE, Reg 0xD52E 0x3, Reg 0xD52F 0x10, Reg 0xD530 0x3,
    Reg 0xD531 0x33, Reg 0xD532 0x3, Reg 0xD533 0x6D, Reg 0xD600 0x0, Reg 0xD601 0x33,
    Reg 0xD602 0x0, Reg 0xD603 0x34, Reg 0xD604 0x0, Reg 0xD605 0x3A, Reg 0xD606 0x0,
    Reg 0xD607 0x4A, Reg 0xD608 0x0, Reg 0xD609 0x5C, Reg 0xD60A 0x0, Reg 0xD60B 0x81,
    Reg 0xD60C 0x0, Reg 0xD60D 0xA6, Reg 0xD60E 0x0, Reg 0xD60F 0xE5, Reg 0xD610 0x1,
    Reg 0xD611 0x13, Reg 0xD612 0x1, Reg 0xD613 0x54, Reg 0xD614 0x1, Reg 0xD615 0x82,
    Reg 0xD616 0x1, Reg 0xD617 0xCA, Reg 0xD618 0x2, Reg 0xD619 0x0, Reg 0xD61A 0x2,
    Reg 0xD61B 0x1]"

definition init_5510_4 :: "init_cmd list" where
  "init_5510_4 = [
    Reg 0xD61C 0x2, Reg 0xD61D 0x34, Reg 0xD61E 0x2, Reg 0xD61F 0x67, Reg 0xD620 0x2,
    Reg 0xD621 0x84, Reg 0xD622 0x2, Reg 0xD623 0xA4, Reg 0xD624 0x2, Reg 0xD625 0xB7,
    Reg 0xD626 0x2, Reg 0xD627 0xCF, Reg 0xD628 0x2, Reg 0xD629 0xDE, Reg 0xD62A 0x2,
    Reg 0xD62B 0xF2, Reg 0xD62C 0x2, Reg 0xD62D 0xFE, Reg 0xD62E 0x3, Reg 0xD62F 0x10,
    Reg 0xD630 0x3, Reg 0xD631 0x33, Reg 0xD632 0x3, Reg 0xD633 0x6D, Reg 0xF000 0x55,
    Reg 0xF001 0xAA, Reg 0xF002 0x52, Reg 0xF003 0x8, Reg 0xF004 0x0, Reg 0xB100 0xCC,
    Reg 0xB101 0x0, Reg 0xB600 0x5, Reg 0xB700 0x70, Reg 0xB701 0x70, Reg 0xB800 0x1,
    Reg 0xB801 0x3, Reg 0xB802 0x3, Reg 0xB803 0x3, Reg 0xBC00 0x2, Reg 0xBC01 0x0,
    Reg 0xBC02 0x0, Reg 0xC900 0xD0, Reg 0xC901 0x2, Reg 0xC902 0x50, Reg 0xC903 0x50,
    Reg 0xC904 0x50, Reg 0x3500 0x0, Reg 0x3A00 0x55, Cmd 0x1100, Us 120, Cmd 0x2900]"

definition init_5510 :: "init_cmd list" where
  "init_5510 = init_5510_1 @ init_5510_2 @ init_5510_3 @ init_5510_4"

definition init_9325 :: "init_cmd list" where
  "init_9325 = [
    Reg 0xE5 0x78F0, Reg 0x1 0x100, Reg 0x2 0x700, Reg 0x3 0x1030, Reg 0x4 0x0, Reg 0x8 0x202,
    Reg 0x9 0x0, Reg 0xA 0x0, Reg 0xC 0x0, Reg 0xD 0x0, Reg 0xF 0x0, Reg 0x10 0x0,
    Reg 0x11 0x7, Reg 0x12 0x0, Reg 0x13 0x0, Reg 0x7 0x0, Reg 0x10 0x1690, Reg 0x11 0x227,
    Reg 0x12 0x9D, Reg 0x13 0x1900, Reg 0x29 0x25, Reg 0x2B 0xD, Reg 0x30 0x7, Reg 0x31 0x303,
    Reg 0x32 0x3, Reg 0x35 0x206, Reg 0x36 0x8, Reg 0x37 0x406, Reg 0x38 0x304, Reg 0x39 0x7,
    Reg 0x3C 0x602, Reg 0x3D 0x8, Reg 0x50 0x0, Reg 0x51 0xEF, Reg 0x52 0x0, Reg 0x53 0x13F,
    Reg 0x60 0xA700, Reg 0x61 0x1, Reg 0x6A 0x0, Reg 0x80 0x0, Reg 0x81 0x0, Reg 0x82 0x0,
    Reg 0x83 0x0, Reg 0x84 0x0, Reg 0x85 0x0, Reg 0x90 0x10, Reg 0x92 0x600, Reg 0x7 0x133,
    Reg 0x0 0x22]"

definition init_9328 :: "init_cmd list" where
  "init_9328 = [
    Reg 0xEC 0x108F, Reg 0xEF 0x1234, Reg 0x1 0x100, Reg 0x2 0x700, Reg 0x3 0x1030,
    Reg 0x4 0x0, Reg 0x8 0x202, Reg 0x9 0x0, Reg 0xA 0x0, Reg 0xC 0x1, Reg 0xD 0x0,
    Reg 0xF 0x0, Reg 0x10 0x0, Reg 0x11 0x7, Reg 0x12 0x0, Reg 0x13 0x0, Reg 0x7 0x1, Ms 50,
    Reg 0x10 0x1490, Reg 0x11 0x227, Ms 50, Reg 0x12 0x8A, Ms 50, Reg 0x13 0x1A00,
    Reg 0x29 0x6, Reg 0x2B 0xD, Ms 50, Reg 0x20 0x0, Reg 0x21 0x0, Ms 50, Reg 0x30 0x0,
    Reg 0x31 0x604, Reg 0x32 0x305, Reg 0x35 0x0, Reg 0x36 0xC09, Reg 0x37 0x204,
    Reg 0x38 0x301, Reg 0x39 0x707, Reg 0x3C 0x0, Reg 0x3D 0xA0A, Ms 50, Reg 0x50 0x0,
    Reg 0x51 0xEF, Reg 0x52 0x0, Reg 0x53 0x13F, Reg 0x60 0xA700, Reg 0x61 0x1, Reg 0x6A 0x0,
    Reg 0x80 0x0, Reg 0x81 0x0, Reg 0x82 0x0, Reg 0x83 0x0, Reg 0x84 0x0, Reg 0x85 0x0,
    Reg 0x90 0x10, Reg 0x92 0x600, Reg 0x7 0x133]"

definition init_9320 :: "init_cmd list" where
  "init_9320 = [
    Reg 0x0 0x0, Reg 0x1 0x100, Reg 0x2 0x700, Reg 0x3 0x1030, Reg 0x4 0x0, Reg 0x8 0x202,
    Reg 0x9 0x0, Reg 0xA 0x0, Reg 0xC 0x1, Reg 0xD 0x0, Reg 0xF 0x0, Ms 50, Reg 0x7 0x101,
    Ms 50, Reg 0x10 0x10C0, Reg 0x11 0x7, Reg 0x12 0x110, Reg 0x13 0xB00, Reg 0x29 0x0,
    Reg 0x2B 0x4010, Reg 0x50 0x0, Reg 0x51 0xEF, Reg 0x52 0x0, Reg 0x53 0x13F,
    Reg 0x60 0x2700, Reg 0x61 0x1, Reg 0x6A 0x0, Reg 0x80 0x0, Reg 0x81 0x0, Reg 0x82 0x0,
    Reg 0x83 0x0, Reg 0x84 0x0, Reg 0x85 0x0, Reg 0x90 0x10, Reg 0x92 0x0, Reg 0x93 0x1,
    Reg 0x95 0x110, Reg 0x97 0x0, Reg 0x98 0x0, Reg 0x7 0x173]"

definition init_9331 :: "init_cmd list" where
  "init_9331 = [
    Reg 0xE7 0x1014, Reg 0x1 0x100, Reg 0x2 0x200, Reg 0x3 0x1038, Reg 0x8 0x202, Reg 0x9 0x0,
    Reg 0xA 0x0, Reg 0xC 0x0, Reg 0xD 0x0, Reg 0xF 0x0, Reg 0x10 0x0, Reg 0x11 0x7,
    Reg 0x12 0x0, Reg 0x13 0x0, Ms 200, Reg 0x10 0x1690, Reg 0x11 0x227, Ms 50, Reg 0x12 0xC,
    Ms 50, Reg 0x13 0x800, Reg 0x29 0x11, Reg 0x2B 0xB, Ms 50, Reg 0x20 0x0, Reg 0x21 0x13F,
    Reg 0x30 0x0, Reg 0x31 0x106, Reg 0x32 0x0, Reg 0x35 0x204, Reg 0x36 0x160A,
    Reg 0x37 0x707, Reg 0x38 0x106, Reg 0x39 0x707, Reg 0x3C 0x402, Reg 0x3D 0xC0F,
    Reg 0x50 0x0, Reg 0x51 0xEF, Reg 0x52 0x0, Reg 0x53 0x13F, Reg 0x60 0x2700, Reg 0x61 0x1,
    Reg 0x6A 0x0, Reg 0x80 0x0, Reg 0x81 0x0, Reg 0x82 0x0, Reg 0x83 0x0, Reg 0x84 0x0,
    Reg 0x85 0x0, Reg 0x90 0x10, Reg 0x92 0x600, Reg 0x7 0x133]"

definition init_5408 :: "init_cmd list" where
  "init_5408 = [
    Reg 0x1 0x100, Reg 0x2 0x700, Reg 0x3 0x1030, Reg 0x4 0x0, Reg 0x8 0x207, Reg 0x9 0x0,
    Reg 0xA 0x0, Reg 0xC 0x0, Reg 0xD 0x0, Reg 0xF 0x0, Ms 20, Reg 0x10 0x16B0, Reg 0x11 0x1,
    Reg 0x17 0x1, Reg 0x12 0x138, Reg 0x13 0x800, Reg 0x29 0x9, Reg 0x2A 0x9, Reg 0xA4 0x0,
    Reg 0x50 0x0, Reg 0x51 0xEF, Reg 0x52 0x0, Reg 0x53 0x13F, Reg 0x60 0x2700, Reg 0x61 0x1,
    Reg 0x6A 0x0, Reg 0x80 0x0, Reg 0x81 0x0, Reg 0x82 0x0, Reg 0x83 0x0, Reg 0x84 0x0,
    Reg 0x85 0x0, Reg 0x90 0x13, Reg 0x92 0x0, Reg 0x93 0x3, Reg 0x95 0x110, Reg 0x7 0x173,
    Ms 50]"

definition init_1505 :: "init_cmd list" where
  "init_1505 = [
    Reg 0x7 0x0, Ms 50, Reg 0x12 0x11C, Reg 0xA4 0x1, Reg 0x8 0xF, Reg 0xA 0x8, Reg 0xD 0x8,
    Reg 0x30 0x707, Reg 0x31 0x7, Reg 0x32 0x603, Reg 0x33 0x700, Reg 0x34 0x202, Reg 0x35 0x2,
    Reg 0x36 0x1F0F, Reg 0x37 0x707, Reg 0x38 0x0, Reg 0x39 0x0, Reg 0x3A 0x707, Reg 0x3B 0x0,
    Reg 0x3C 0x7, Reg 0x3D 0x0, Ms 50, Reg 0x7 0x1, Reg 0x17 0x1, Ms 50, Reg 0x10 0x17A0,
    Reg 0x11 0x217, Reg 0x12 0x11E, Reg 0x13 0xF00, Reg 0x2A 0x0, Reg 0x29 0xA, Reg 0x12 0x13E,
    Reg 0x50 0x0, Reg 0x51 0xEF, Reg 0x52 0x0, Reg 0x53 0x13F, Reg 0x60 0x2700, Reg 0x61 0x1,
    Reg 0x6A 0x0, Reg 0x80 0x0, Reg 0x81 0x0, Reg 0x82 0x0, Reg 0x83 0x0, Reg 0x84 0x0,
    Reg 0x85 0x0, Reg 0x90 0x13, Reg 0x92 0x300, Reg 0x93 0x5, Reg 0x95 0x0, Reg 0x97 0x0,
    Reg 0x98 0x0, Reg 0x1 0x100, Reg 0x2 0x700, Reg 0x3 0x1038, Reg 0x4 0x0, Reg 0xC 0x0,
    Reg 0xF 0x0, Reg 0x20 0x0, Reg 0x21 0x0, Reg 0x7 0x21, Ms 20, Reg 0x7 0x61, Ms 20,
    Reg 0x7 0x173, Ms 20]"

definition init_B505 :: "init_cmd list" where
  "init_B505 = [
    Reg 0x0 0x0, Reg 0x0 0x0, Reg 0x0 0x0, Reg 0x0 0x0, Reg 0xA4 0x1, Ms 20, Reg 0x60 0x2700,
    Reg 0x8 0x202, Reg 0x30 0x214, Reg 0x31 0x3715, Reg 0x32 0x604, Reg 0x33 0xE16,
    Reg 0x34 0x2211, Reg 0x35 0x1500, Reg 0x36 0x8507, Reg 0x37 0x1407, Reg 0x38 0x1403,
    Reg 0x39 0x20, Reg 0x90 0x1A, Reg 0x10 0x0, Reg 0x11 0x7, Reg 0x12 0x0, Reg 0x13 0x0,
    Ms 20, Reg 0x10 0x730, Reg 0x11 0x137, Ms 20, Reg 0x12 0x1B8, Ms 20, Reg 0x13 0xF00,
    Reg 0x2A 0x80, Reg 0x29 0x48, Ms 20, Reg 0x1 0x100, Reg 0x2 0x700, Reg 0x3 0x1038,
    Reg 0x8 0x202, Reg 0xA 0x0, Reg 0xC 0x0, Reg 0xD 0x0, Reg 0xE 0x30, Reg 0x50 0x0,
    Reg 0x51 0xEF, Reg 0x52 0x0, Reg 0x53 0x13F, Reg 0x60 0x2700, Reg 0x61 0x1, Reg 0x6A 0x0,
    Reg 0x90 0x11, Reg 0x92 0x600, Reg 0x93 0x402, Reg 0x94 0x2, Ms 20, Reg 0x7 0x1, Ms 20,
    Reg 0x7 0x61, Reg 0x7 0x173, Reg 0x20 0x0, Reg 0x21 0x0, Reg 0x0 0x22]"

definition init_C505 :: "init_cmd list" where
  "init_C505 = [
    Reg 0x0 0x0, Reg 0x0 0x0, Ms 20, Reg 0x0 0x0, Reg 0x0 0x0, Reg 0x0 0x0, Reg 0x0 0x0,
    Reg 0xA4 0x1, Ms 20, Reg 0x60 0x2700, Reg 0x8 0x806, Reg 0x30 0x703, Reg 0x31 0x1,
    Reg 0x32 0x4, Reg 0x33 0x102, Reg 0x34 0x300, Reg 0x35 0x103, Reg 0x36 0x1F,
    Reg 0x37 0x703, Reg 0x38 0x1, Reg 0x39 0x4, Reg 0x90 0x15, Reg 0x10 0x410, Reg 0x11 0x247,
    Reg 0x12 0x1BC, Reg 0x13 0xE00, Ms 120, Reg 0x1 0x100, Reg 0x2 0x200, Reg 0x3 0x1030,
    Reg 0xA 0x8, Reg 0xC 0x0, Reg 0xE 0x20, Reg 0xF 0x0, Reg 0x20 0x0, Reg 0x21 0x0,
    Reg 0x2A 0x3D, Ms 20, Reg 0x29 0x2D, Reg 0x50 0x0, Reg 0x51 0xD0EF, Reg 0x52 0x0,
    Reg 0x53 0x13F, Reg 0x61 0x0, Reg 0x6A 0x0, Reg 0x92 0x300, Reg 0x93 0x5, Reg 0x7 0x100]"

definition init_4531 :: "init_cmd list" where
  "init_4531 = [
    Reg 0x0 0x1, Ms 10, Reg 0x10 0x1628, Reg 0x12 0xE, Reg 0x13 0xA39, Ms 10, Reg 0x11 0x40,
    Reg 0x15 0x50, Ms 10, Reg 0x12 0x1E, Ms 10, Reg 0x10 0x1620, Reg 0x13 0x2A39, Ms 10,
    Reg 0x1 0x100, Reg 0x2 0x300, Reg 0x3 0x1038, Reg 0x8 0x202, Reg 0xA 0x8, Reg 0x30 0x0,
    Reg 0x31 0x402, Reg 0x32 0x106, Reg 0x33 0x503, Reg 0x34 0x104, Reg 0x35 0x301,
    Reg 0x36 0x707, Reg 0x37 0x305, Reg 0x38 0x208, Reg 0x39 0xF0B, Reg 0x41 0x2,
    Reg 0x60 0x2700, Reg 0x61 0x1, Reg 0x90 0x210, Reg 0x92 0x10A, Reg 0x93 0x4,
    Reg 0xA0 0x100, Reg 0x7 0x1, Reg 0x7 0x21, Reg 0x7 0x23, Reg 0x7 0x33, Reg 0x7 0x133,
    Reg 0xA0 0x0]"

definition init_4535 :: "init_cmd list" where
  "init_4535 = [
    Reg 0x15 0x30, Reg 0x9A 0x10, Reg 0x11 0x20, Reg 0x10 0x3428, Reg 0x12 0x2,
    Reg 0x13 0x1038, Ms 40, Reg 0x12 0x12, Ms 40, Reg 0x10 0x3420, Reg 0x13 0x3038, Ms 70,
    Reg 0x30 0x0, Reg 0x31 0x402, Reg 0x32 0x307, Reg 0x33 0x304, Reg 0x34 0x4, Reg 0x35 0x401,
    Reg 0x36 0x707, Reg 0x37 0x305, Reg 0x38 0x610, Reg 0x39 0x610, Reg 0x1 0x100,
    Reg 0x2 0x300, Reg 0x3 0x1030, Reg 0x8 0x808, Reg 0xA 0x8, Reg 0x60 0x2700, Reg 0x61 0x1,
    Reg 0x90 0x13E, Reg 0x92 0x100, Reg 0x93 0x100, Reg 0xA0 0x3000, Reg 0xA3 0x10,
    Reg 0x7 0x1, Reg 0x7 0x21, Reg 0x7 0x23, Reg 0x7 0x33, Reg 0x7 0x133]"

definition init_1963 :: "init_cmd list" where
  "init_1963 = [
    Cmd 0xE2, Dat 0x1D, Dat 0x2, Dat 0x4, Us 100, Cmd 0xE0, Dat 0x1, Ms 10, Cmd 0xE0, Dat 0x3,
    Ms 12, Cmd 0x1, Ms 10, Cmd 0xE6, Dat 0x2F, Dat 0xFF, Dat 0xFF, Cmd 0xB0, Dat 0x20, Dat 0x0,
    Dat 0x3, Dat 0x31F, Dat 0x1, Dat 0x1DF, Dat 0x0, Cmd 0xB4, Dat 0x4, Dat 0x41F, Dat 0x0,
    Dat 0x2E, Dat 0x0, Dat 0x0, Dat 0x0, Dat 0x0, Cmd 0xB6, Dat 0x2, Dat 0x20C, Dat 0x0,
    Dat 0x17, Dat 0x15, Dat 0x0, Dat 0x0, Cmd 0xF0, Dat 0x3, Cmd 0x29, Cmd 0xD0, Dat 0x0,
    Cmd 0xBE, Dat 0x5, Dat 0xFE, Dat 0x1, Dat 0x0, Dat 0x0, Dat 0x0, Cmd 0xB8, Dat 0x3,
    Dat 0x1, Cmd 0xBA, Dat 0x1]"

text \<open>The branch taken for an identifier; an unknown one has no set-up.\<close>

definition init_table :: "u16 \<Rightarrow> init_cmd list" where
  "init_table i =
     (if i = 0x9341 then init_9341
      else if i = 0x6804 then init_6804
      else if i = 0x5310 then init_5310
      else if i = 0x5510 then init_5510
      else if i = 0x9325 then init_9325
      else if i = 0x9328 then init_9328
      else if i = 0x9320 then init_9320
      else if i = 0x9331 then init_9331
      else if i = 0x5408 then init_5408
      else if i = 0x1505 then init_1505
      else if i = 0xB505 then init_B505
      else if i = 0xC505 then init_C505
      else if i = 0x4531 then init_4531
      else if i = 0x4535 then init_4535
      else if i = 0x1963 then init_1963
      else [])"

end
