(* ===== verification/Lcd_Init.thy ===== *)
theory Lcd_Init
  imports Lcd Lcd_Init_Tables
begin

text \<open>
  \<open>LCD_Init\<close> of \<open>applications/lcd.c\<close>: identification of the controller, bus timing, the set-up
  sequence of the controller found, direction and clearing.
\<close>

section \<open>Definitions\<close>

text \<open>
  \<open>MX_FSMC_Init\<close>: the write timing it sets is \<open>ADDSET\<close> 8, \<open>ADDHLD\<close> 15, \<open>DATAST\<close> 8, no bus
  turnaround, access mode A; the call stands in the trace as one operation.
\<close>

definition MX_FSMC_Init :: "lcd \<Rightarrow> lcd" where
  "MX_FSMC_Init s = emit [FsmcInit] (s\<lparr>bwtr := (bwtr s AND NOT 0x300FFFFF) OR (8 OR push_bit 4 15 OR push_bit 8 8)\<rparr>)"

text \<open>Successive data reads.\<close>

fun rd_n :: "panel \<Rightarrow> nat \<Rightarrow> lcd \<Rightarrow> u16 list \<times> lcd" where
  "rd_n panel 0 s = ([], s)"
| "rd_n panel (Suc n) s =
     (let (v, s1) = LCD_RD_DATA panel s; (vs, s2) = rd_n panel n s1 in (v # vs, s2))"

definition join :: "u16 \<Rightarrow> u16 \<Rightarrow> u16" where
  "join a b = push_bit 8 a OR b"

definition probe_9341 :: "panel \<Rightarrow> lcd \<Rightarrow> u16 \<times> lcd" where
  "probe_9341 panel s = (let (vs, s1) = rd_n panel 4 (LCD_WR_REG 0xD3 s) in (join (vs ! 2) (vs ! 3), s1))"

definition probe_6804 :: "panel \<Rightarrow> lcd \<Rightarrow> u16 \<times> lcd" where
  "probe_6804 panel s = (let (vs, s1) = rd_n panel 5 (LCD_WR_REG 0xBF s) in (join (vs ! 3) (vs ! 4), s1))"

definition probe_5310 :: "panel \<Rightarrow> lcd \<Rightarrow> u16 \<times> lcd" where
  "probe_5310 panel s = (let (vs, s1) = rd_n panel 4 (LCD_WR_REG 0xD4 s) in (join (vs ! 2) (vs ! 3), s1))"

definition probe_5510 :: "panel \<Rightarrow> lcd \<Rightarrow> u16 \<times> lcd" where
  "probe_5510 panel s =
     (let (v0, s1) = LCD_RD_DATA panel (LCD_WR_REG 0xDA00 s);
          (v1, s2) = LCD_RD_DATA panel (LCD_WR_REG 0xDB00 s1);
          (v2, s3) = LCD_RD_DATA panel (LCD_WR_REG 0xDC00 s2);
          i = join v1 v2
      in (if i = 0x8000 then 0x5510 else i, s3))"

definition probe_1963 :: "panel \<Rightarrow> lcd \<Rightarrow> u16 \<times> lcd" where
  "probe_1963 panel s =
     (let (vs, s1) = rd_n panel 3 (LCD_WR_REG 0xA1 s); i = join (vs ! 1) (vs ! 2)
      in (if i = 0x5761 then 0x1963 else i, s1))"

text \<open>The nested attempts: each controller is tried when the answer was not the one before.\<close>

definition identify :: "panel \<Rightarrow> lcd \<Rightarrow> u16 \<times> lcd" where
  "identify panel s =
     (let (i0, s0) = LCD_ReadReg panel 0 s in
      if i0 < 0xFF \<or> i0 = 0xFFFF \<or> i0 = 0x9300 then
        let (i1, s1) = probe_9341 panel s0 in
        if i1 \<noteq> 0x9341 then
          let (i2, s2) = probe_6804 panel s1 in
          if i2 \<noteq> 0x6804 then
            let (i3, s3) = probe_5310 panel s2 in
            if i3 \<noteq> 0x5310 then
              let (i4, s4) = probe_5510 panel s3 in
              if i4 \<noteq> 0x5510 then probe_1963 panel s4 else (i4, s4)
            else (i3, s3)
          else (i2, s2)
        else (i1, s1)
      else (i0, s0))"

definition set_timing :: "u32 \<Rightarrow> u32 \<Rightarrow> u32 \<Rightarrow> u32" where
  "set_timing a d r = ((((r AND NOT 0xF) AND NOT (push_bit 8 0xF)) OR a) OR push_bit 8 d)"

definition bus_timing :: "lcd \<Rightarrow> lcd" where
  "bus_timing s =
     (let i = lcd_id (lcddev s) in
      if i = 0x9341 \<or> i = 0x5310 \<or> i = 0x5510 \<or> i = 0x1963 then s\<lparr>bwtr := set_timing 3 2 (bwtr s)\<rparr>
      else if i = 0x6804 \<or> i = 0xC505 then s\<lparr>bwtr := set_timing 10 12 (bwtr s)\<rparr>
      else s)"

primrec cmd_ops :: "init_cmd \<Rightarrow> bus_op list" where
  "cmd_ops (Cmd r) = [WrReg r]"
| "cmd_ops (Dat v) = [WrData v]"
| "cmd_ops (Reg r v) = [WrReg r, WrData v]"
| "cmd_ops (Ms n) = [DelayMs n]"
| "cmd_ops (Us n) = [DelayUs n]"

definition run_table :: "lcd \<Rightarrow> lcd" where
  "run_table s =
     (let i = lcd_id (lcddev s); s1 = emit (concat (map cmd_ops (init_table i))) s
      in if i = 0x1963 then LCD_SSD_BackLightSet 100 s1 else s1)"

definition LCD_Init :: "panel \<Rightarrow> lcd \<Rightarrow> lcd" where
  "LCD_Init panel s =
     (let s1 = emit [DelayMs 50] (MX_FSMC_Init (emit [PinModeOutput] s));
          s2 = emit [DelayMs 50] (LCD_WriteReg 0 1 s1);
          (i, s3) = identify panel s2;
          s4 = bus_timing (s3\<lparr>lcddev := (lcddev s3)\<lparr>lcd_id := i\<rparr>\<rparr>);
          s5 = LCD_Display_Dir 0 (run_table s4)
      in LCD_Clear 0xFFFF (emit [PinWriteHigh] s5))"

end
