(* ===== verification/Lcd_Draw.thy ===== *)
theory Lcd_Draw
  imports Lcd
begin

text \<open>
  Lines, rectangles and circles of \<open>applications/lcd.c\<close>, and what they draw: a line is the sequence
  of points of a closed form, a circle stays in a ring around its radius.
\<close>

section \<open>Definitions\<close>

text \<open>
  One turn of the error accumulation of \<open>LCD_DrawLine\<close> on one axis.  The \<open>int\<close> values of the
  routine stay below \<open>2^18\<close>, so they are unbounded integers here.
\<close>

definition axis_step :: "int \<Rightarrow> int \<Rightarrow> int \<Rightarrow> int \<times> int \<Rightarrow> int \<times> int" where
  "axis_step delta distance inc st =
     (case st of (err, pos) \<Rightarrow>
        let e = err + delta in if e > distance then (e - distance, pos + inc) else (e, pos))"

text \<open>The loop counter \<open>t\<close> has 16 bits and is compared with the \<open>int\<close> \<open>distance+1\<close>.\<close>

partial_function (option) line_loop ::
  "int \<Rightarrow> int \<Rightarrow> int \<Rightarrow> int \<Rightarrow> int \<Rightarrow> u16 \<Rightarrow> int \<times> int \<Rightarrow> int \<times> int \<Rightarrow> lcd \<Rightarrow> lcd option" where
  "line_loop dx dy distance incx incy t px py s =
     (if uint t \<le> distance + 1
      then line_loop dx dy distance incx incy (t + 1) (axis_step dx distance incx px) (axis_step dy distance incy py)
             (LCD_DrawPoint (of_int (snd px)) (of_int (snd py)) s)
      else Some s)"

definition LCD_DrawLine :: "u16 \<Rightarrow> u16 \<Rightarrow> u16 \<Rightarrow> u16 \<Rightarrow> lcd \<Rightarrow> lcd option" where
  "LCD_DrawLine x1 y1 x2 y2 s =
     (let delta_x = uint x2 - uint x1; delta_y = uint y2 - uint y1;
          incx = (if delta_x > 0 then 1 else if delta_x = 0 then 0 else - 1);
          incy = (if delta_y > 0 then 1 else if delta_y = 0 then 0 else - 1);
          dx = (if delta_x < 0 then - delta_x else delta_x);
          dy = (if delta_y < 0 then - delta_y else delta_y);
          distance = (if dx > dy then dx else dy)
      in line_loop dx dy distance incx incy 0 (0, uint x1) (0, uint y1) s)"

definition LCD_DrawRectangle :: "u16 \<Rightarrow> u16 \<Rightarrow> u16 \<Rightarrow> u16 \<Rightarrow> lcd \<Rightarrow> lcd option" where
  "LCD_DrawRectangle x1 y1 x2 y2 s =
     Option.bind (LCD_DrawLine x1 y1 x2 y1 s) (\<lambda>s1.
     Option.bind (LCD_DrawLine x1 y1 x1 y2 s1) (\<lambda>s2.
     Option.bind (LCD_DrawLine x1 y2 x2 y2 s2) (\<lambda>s3.
       LCD_DrawLine x2 y1 x2 y2 s3)))"

text \<open>The eight symmetric points in the order of the calls.\<close>

definition octants :: "int \<Rightarrow> int \<Rightarrow> (int \<times> int) list" where
  "octants a b = [(a, - b), (b, - a), (b, a), (a, b), (- a, b), (- b, a), (- a, - b), (- b, - a)]"

definition draw_points :: "(int \<times> int) list \<Rightarrow> lcd \<Rightarrow> lcd" where
  "draw_points ps s = fold (\<lambda>(x, y). LCD_DrawPoint (of_int x) (of_int y)) ps s"

definition around :: "u16 \<Rightarrow> u16 \<Rightarrow> (int \<times> int) list \<Rightarrow> (int \<times> int) list" where
  "around x0 y0 ps = map (\<lambda>(x, y). (uint x0 + x, uint y0 + y)) ps"

function circle_loop :: "u16 \<Rightarrow> u16 \<Rightarrow> int \<Rightarrow> int \<Rightarrow> int \<Rightarrow> lcd \<Rightarrow> lcd" where
  "circle_loop x0 y0 a b di s =
     (if a \<le> b
      then let s1 = draw_points (around x0 y0 (octants a b)) s; a' = a + 1
           in if di < 0 then circle_loop x0 y0 a' b (di + (4 * a' + 6)) s1
              else circle_loop x0 y0 a' (b - 1) (di + (10 + 4 * (a' - b))) s1
      else s)"
  by pat_completeness auto
termination
  by (relation "measure (\<lambda>(x0, y0, a, b, di, s). nat (b + 1 - a))") auto

declare circle_loop.simps [simp del]

definition LCD_Draw_Circle :: "u16 \<Rightarrow> u16 \<Rightarrow> u8 \<Rightarrow> lcd \<Rightarrow> lcd" where
  "LCD_Draw_Circle x0 y0 r s = circle_loop x0 y0 0 (uint r) (3 - 2 * uint r) s"

section \<open>The points of a line\<close>

text \<open>How far an axis has moved after \<open>t\<close> turns.\<close>

definition advance :: "int \<Rightarrow> int \<Rightarrow> nat \<Rightarrow> int" where
  "advance delta distance t = (if delta = 0 \<or> t = 0 then 0 else (int t * delta - 1) div distance)"

definition line_points :: "u16 \<Rightarrow> u16 \<Rightarrow> u16 \<Rightarrow> u16 \<Rightarrow> (int \<times> int) list" where
  "line_points x1 y1 x2 y2 =
     (let dx = uint x2 - uint x1; dy = uint y2 - uint y1; d = max \<bar>dx\<bar> \<bar>dy\<bar>
      in map (\<lambda>t. (uint x1 + sgn dx * advance \<bar>dx\<bar> d t, uint y1 + sgn dy * advance \<bar>dy\<bar> d t))
           [0..<nat d + 2])"

lemma advance_Suc:
  assumes "0 \<le> delta" "delta \<le> distance"
  shows "advance delta distance (Suc t) =
    (if int (Suc t) * delta - distance * advance delta distance t > distance
     then advance delta distance t + 1 else advance delta distance t)"
proof (cases "delta = 0")
  case True
  then show ?thesis using assms by (simp add: advance_def)
next
  case False
  then have d: "0 < delta" "0 < distance" using assms by auto
  define k where "k = advance delta distance t"
  have k: "distance * k < int t * delta + (if t = 0 then 1 else 0)" "int t * delta \<le> distance * (k + 1)" "0 \<le> k"
  proof -
    let ?q = "(int t * delta - 1) div distance" and ?r = "(int t * delta - 1) mod distance"
    have "k = ?q" if "t \<noteq> 0" using that False by (simp add: k_def advance_def)
    moreover have "distance * ?q + ?r = int t * delta - 1" by (rule mult_div_mod_eq)
    moreover have "0 \<le> ?r" "?r < distance" using d by simp_all
    moreover have "0 \<le> ?q" if "t \<noteq> 0"
      using that d by (simp add: pos_imp_zdiv_nonneg_iff int_one_le_iff_zero_less)
    moreover have "k = 0" if "t = 0" using that by (simp add: k_def advance_def)
    moreover have "distance * (?q + 1) = distance * ?q + distance" by (simp add: distrib_left)
    ultimately show "distance * k < int t * delta + (if t = 0 then 1 else 0)"
      "int t * delta \<le> distance * (k + 1)" "0 \<le> k"
      using d by (cases "t = 0"; simp; linarith)+
  qed
  let ?n = "int (Suc t) * delta"
  have n: "?n = int t * delta + delta" by (simp add: distrib_right)
  have "(?n - 1) div distance = (if ?n - distance * k > distance then k + 1 else k)"
  proof (cases "?n - distance * k > distance")
    case True
    have "?n - 1 = distance * (k + 1) + (?n - 1 - distance * (k + 1))" by simp
    moreover have "0 \<le> ?n - 1 - distance * (k + 1)" "?n - 1 - distance * (k + 1) < distance"
      using True k(2) assms(2) n by (simp_all add: distrib_left)
    ultimately have "(?n - 1) div distance = k + 1" by (rule int_div_pos_eq)
    then show ?thesis using True by simp
  next
    case F: False
    have "?n - 1 = distance * k + (?n - 1 - distance * k)" by simp
    moreover have "0 \<le> ?n - 1 - distance * k" using k(1) d n by (auto split: if_splits)
    moreover have "?n - 1 - distance * k < distance" using F by simp
    ultimately have "(?n - 1) div distance = k" by (rule int_div_pos_eq)
    then show ?thesis using F by simp
  qed
  moreover have "advance delta distance (Suc t) = (?n - 1) div distance"
    using False by (simp add: advance_def)
  ultimately show ?thesis unfolding k_def by simp
qed

lemma axis_step_advance:
  assumes "0 \<le> delta" "delta \<le> distance"
  shows "axis_step delta distance inc
      (int t * delta - distance * advance delta distance t, p + inc * advance delta distance t)
    = (int (Suc t) * delta - distance * advance delta distance (Suc t),
       p + inc * advance delta distance (Suc t))"
  using advance_Suc [OF assms, of t]
  by (simp add: axis_step_def Let_def algebra_simps)

lemma advance_mono: "0 \<le> delta \<Longrightarrow> delta \<le> distance \<Longrightarrow> s \<le> t \<Longrightarrow> advance delta distance s \<le> advance delta distance t"
  by (rule lift_Suc_mono_le [of "advance delta distance"]) (auto simp: advance_Suc)

lemma advance_0 [simp]: "advance delta distance 0 = 0"
  by (simp add: advance_def)

lemma advance_end:
  assumes "0 \<le> delta" "delta \<le> distance"
  shows "advance delta distance (nat distance + 1) = delta"
proof (cases "delta = 0")
  case False
  then have d: "0 < delta" "0 < distance" using assms by auto
  have "int (nat distance + 1) * delta - 1 = distance * delta + (delta - 1)"
    using d by (simp add: algebra_simps)
  then have "(int (nat distance + 1) * delta - 1) div distance = delta"
    using d assms(2) by (intro int_div_pos_eq) auto
  then show ?thesis using False by (simp add: advance_def)
qed (simp add: advance_def)

lemma advance_range:
  assumes "0 \<le> delta" "delta \<le> distance" "t \<le> nat distance + 1"
  shows "0 \<le> advance delta distance t" "advance delta distance t \<le> delta"
  using advance_mono [OF assms(1,2), of 0 t] advance_mono [OF assms(1,2,3)] advance_end [OF assms(1,2)]
  by simp_all

section \<open>The line loop\<close>

lemma draw_points_Nil [simp]: "draw_points [] s = s"
  by (simp add: draw_points_def)

lemma draw_points_Cons [simp]:
  "draw_points ((x, y) # ps) s = draw_points ps (LCD_DrawPoint (of_int x) (of_int y) s)"
  by (simp add: draw_points_def)

lemma draw_points_append: "draw_points (ps @ qs) s = draw_points qs (draw_points ps s)"
  by (simp add: draw_points_def)

lemma line_loop_runs:
  assumes "0 \<le> dx" "dx \<le> distance" "0 \<le> dy" "dy \<le> distance" "distance \<le> 65533"
  shows "t \<le> nat distance + 2 \<Longrightarrow>
    line_loop dx dy distance incx incy (of_nat t)
      (int t * dx - distance * advance dx distance t, px + incx * advance dx distance t)
      (int t * dy - distance * advance dy distance t, py + incy * advance dy distance t) s
    = Some (draw_points (map (\<lambda>t. (px + incx * advance dx distance t, py + incy * advance dy distance t))
        [t..<nat distance + 2]) s)"
proof (induction "nat distance + 2 - t" arbitrary: t s)
  case 0
  have u: "uint (of_nat t :: u16) = int t"
    using "0.prems" assms(5) by (simp add: unsigned_of_nat take_bit_nat_eq_self flip: of_nat_take_bit)
  have "t = nat distance + 2" using 0 by simp
  moreover have "\<not> uint (of_nat t :: u16) \<le> distance + 1"
    unfolding u using calculation assms(1,2) by simp
  ultimately show ?case by (subst line_loop.simps) (simp only: if_False upt_conv_Nil list.map draw_points_Nil order_refl)
next
  case (Suc k)
  have u: "uint (of_nat t :: u16) = int t"
    using Suc.prems assms(5) by (simp add: unsigned_of_nat take_bit_nat_eq_self flip: of_nat_take_bit)
  have t: "t < nat distance + 2" using Suc.hyps(2) by simp
  have w: "(of_nat t + 1 :: u16) = of_nat (Suc t)" by simp
  have up: "[t..<nat distance + 2] = t # [Suc t..<nat distance + 2]" using t by (rule upt_conv_Cons)
  have c: "uint (of_nat t :: u16) \<le> distance + 1" unfolding u using t assms(1,2) by simp
  have k: "k = nat distance + 2 - Suc t" "Suc t \<le> nat distance + 2" using Suc.hyps(2) t by simp_all
  show ?case
    unfolding up list.map draw_points_Cons
    by (subst line_loop.simps) (simp only: c if_True axis_step_advance [OF assms(1,2)]
      axis_step_advance [OF assms(3,4)] w snd_conv Suc.hyps(1) [OF k])
qed

lemma line_loop_forever:
  assumes "line_loop dx dy distance incx incy t px py s = Some r"
  shows "distance < 65534"
  using assms
proof (rule line_loop.raw_induct [where P = "\<lambda>dx dy distance incx incy t px py s r. distance < 65534", rotated])
  fix f dx dy distance incx incy px py s r and t :: u16
  assume IH: "\<And>dx dy distance incx incy t px py s r.
      f dx dy distance incx incy t px py s = Some r \<Longrightarrow> distance < 65534"
    and r: "(if uint t \<le> distance + 1
      then f dx dy distance incx incy (t + 1) (axis_step dx distance incx px) (axis_step dy distance incy py)
             (LCD_DrawPoint (word_of_int (snd px)) (word_of_int (snd py)) s)
      else Some s) = Some r"
  have "uint t < 2 ^ LENGTH(16)" by (rule uint_lt2p)
  then show "distance < 65534"
    using IH r by (cases "uint t \<le> distance + 1") auto
qed

lemma fill_rows_forever:
  assumes "fill_rows sx xlen ey color i s = Some r"
  shows "ey \<noteq> 0xFFFF"
  using assms
proof (rule fill_rows.raw_induct [where P = "\<lambda>sx xlen ey color i s r. ey \<noteq> 0xFFFF", rotated])
  fix f sx xlen ey color i s r
  assume IH: "\<And>sx xlen ey color i s r. f sx xlen ey color i s = Some r \<Longrightarrow> ey \<noteq> 0xFFFF"
    and r: "(if i \<le> ey
      then f sx xlen ey color (i + 1)
             (emit (replicate (unat xlen) (WrData color)) (LCD_WriteRAM_Prepare (LCD_SetCursor sx i s)))
      else Some s) = Some r"
  show "ey \<noteq> 0xFFFF"
  proof
    assume e: "ey = 0xFFFF"
    have "unat i < 2 ^ LENGTH(16)" by (rule unsigned_less)
    then have "i \<le> ey" unfolding e by (simp add: word_le_nat_alt)
    then have "f sx xlen ey color (i + 1) (emit (replicate (unat xlen) (WrData color))
        (LCD_WriteRAM_Prepare (LCD_SetCursor sx i s))) = Some r" using r by simp
    from IH [OF this] e show False by simp
  qed
qed

section \<open>Circles\<close>

text \<open>A ring around the radius: where the points of the first octant lie.\<close>

definition ring :: "int \<Rightarrow> int \<times> int \<Rightarrow> bool" where
  "ring r p \<longleftrightarrow> (case p of (x, y) \<Rightarrow>
     \<bar>x\<bar> \<le> r \<and> \<bar>y\<bar> \<le> r \<and> r * r - 3 * r \<le> x * x + y * y \<and> x * x + y * y \<le> r * r + r)"

lemma ring_octants: "ring r (a, b) \<Longrightarrow> p \<in> set (octants a b) \<Longrightarrow> ring r p"
  by (auto simp: ring_def octants_def add.commute)

text \<open>
  The decision variable drifts by four per turn from the exact midpoint value: with
  \<open>e = a^2 + b^2 - r^2\<close> it is \<open>2 e + 8 a - 2 b + 3\<close>.
\<close>

definition circle_inv :: "int \<Rightarrow> int \<Rightarrow> int \<Rightarrow> int \<Rightarrow> bool" where
  "circle_inv r a b di \<longleftrightarrow> 0 \<le> a \<and> b \<le> r \<and> di = 2 * (a * a + b * b - r * r) + 8 * a - 2 * b + 3 \<and>
     (a \<le> b \<longrightarrow> - b - 2 * a \<le> a * a + b * b - r * r \<and> a * a + b * b - r * r \<le> b)"

lemma circle_inv_stay:
  "circle_inv r a b di \<Longrightarrow> a \<le> b \<Longrightarrow> di < 0 \<Longrightarrow> circle_inv r (a + 1) b (di + (4 * (a + 1) + 6))"
  by (auto simp: circle_inv_def algebra_simps)

lemma circle_inv_move:
  "circle_inv r a b di \<Longrightarrow> a \<le> b \<Longrightarrow> \<not> di < 0 \<Longrightarrow>
   circle_inv r (a + 1) (b - 1) (di + (10 + 4 * (a + 1 - b)))"
  by (auto simp: circle_inv_def algebra_simps)

lemma circle_inv_ring: "circle_inv r a b di \<Longrightarrow> a \<le> b \<Longrightarrow> ring r (a, b)"
  by (auto simp: circle_inv_def ring_def)

lemma around_append: "around x0 y0 (ps @ qs) = around x0 y0 ps @ around x0 y0 qs"
  by (simp add: around_def)

lemma circle_loop_ring:
  "circle_inv r a b di \<Longrightarrow>
   \<exists>ps. circle_loop x0 y0 a b di s = draw_points (around x0 y0 ps) s \<and> (\<forall>p \<in> set ps. ring r p)"
proof (induction x0 y0 a b di s rule: circle_loop.induct)
  case (1 x0 y0 a b di s)
  let ?s1 = "draw_points (around x0 y0 (octants a b)) s"
  let ?b = "if di < 0 then b else b - 1" and ?d = "if di < 0 then di + (4 * (a + 1) + 6) else di + (10 + 4 * (a + 1 - b))"
  show ?case
  proof (cases "a \<le> b")
    case True
    have inv: "circle_inv r (a + 1) ?b ?d"
      using circle_inv_stay [OF "1.prems" True] circle_inv_move [OF "1.prems" True] by simp
    have "\<exists>ps. circle_loop x0 y0 (a + 1) ?b ?d ?s1 = draw_points (around x0 y0 ps) ?s1 \<and> (\<forall>p \<in> set ps. ring r p)"
      using "1.IH" [OF True refl refl] inv by (cases "di < 0") simp_all
    then obtain ps where ps: "circle_loop x0 y0 (a + 1) ?b ?d ?s1 = draw_points (around x0 y0 ps) ?s1"
      "\<forall>p \<in> set ps. ring r p" by blast
    have "circle_loop x0 y0 a b di s = draw_points (around x0 y0 (octants a b @ ps)) s"
      unfolding around_append draw_points_append ps(1) [symmetric]
      by (subst circle_loop.simps, cases "di < 0") (simp_all only: True if_True if_False Let_def)
    moreover have "\<forall>p \<in> set (octants a b @ ps). ring r p"
      using ps(2) ring_octants [OF circle_inv_ring [OF "1.prems" True]] by auto
    ultimately show ?thesis by blast
  next
    case False
    then show ?thesis by (subst circle_loop.simps) (auto simp: around_def intro!: exI [of _ "[]"])
  qed
qed

end
