(* ===== verification/Lcd_Text.thy ===== *)
theory Lcd_Text
  imports Lcd Lcd_Font C_Format
begin

text \<open>
  Characters, numbers and strings of \<open>applications/lcd.c\<close>.  A read outside a font table or past
  the end of the caller's string is a fault.
\<close>

section \<open>Characters\<close>

definition table_at :: "u8 list list \<Rightarrow> nat \<Rightarrow> nat \<Rightarrow> u8 res" where
  "table_at tab i j =
     (if i < length tab \<and> j < length (tab ! i) then Inr (tab ! i ! j) else Inl OutOfBounds)"

text \<open>The font selection; \<open>None\<close> is the early return for a size without a table.\<close>

definition font_byte :: "u8 \<Rightarrow> u8 \<Rightarrow> nat \<Rightarrow> (u8 option) res" where
  "font_byte sz c t =
     (if sz = 12 then and_then (table_at asc2_1206 (unat c) t) (\<lambda>b. Inr (Some b))
      else if sz = 16 then and_then (table_at asc2_1608 (unat c) t) (\<lambda>b. Inr (Some b))
      else if sz = 24 then and_then (table_at asc2_2412 (unat c) t) (\<lambda>b. Inr (Some b))
      else Inr None)"

definition char_point :: "u8 \<Rightarrow> u8 \<Rightarrow> u16 \<Rightarrow> u16 \<Rightarrow> lcd \<Rightarrow> lcd" where
  "char_point mode temp x y s =
     (if temp AND 0x80 \<noteq> 0 then LCD_Fast_DrawPoint x y (POINT_COLOR s) s
      else if mode = 0 then LCD_Fast_DrawPoint x y (BACK_COLOR s) s
      else s)"

text \<open>
  The loop over the bits of a byte, \<open>n\<close> bits left.  The flag says that the routine returned at a
  screen edge; otherwise the point at which the next byte starts is given.
\<close>

fun char_bits :: "nat \<Rightarrow> u8 \<Rightarrow> u8 \<Rightarrow> u16 \<Rightarrow> u8 \<Rightarrow> u16 \<Rightarrow> u16 \<Rightarrow> lcd \<Rightarrow> bool \<times> u16 \<times> u16 \<times> lcd" where
  "char_bits 0 sz mode y0 temp x y s = (False, x, y, s)"
| "char_bits (Suc n) sz mode y0 temp x y s =
     (let s1 = char_point mode temp x y s; y' = y + 1 in
      if y' \<ge> height (lcddev s1) then (True, x, y', s1)
      else if uint y' - uint y0 = uint sz
      then (let x' = x + 1 in (x' \<ge> width (lcddev s1), x', y0, s1))
      else char_bits n sz mode y0 (push_bit 1 temp) x y' s1)"

text \<open>The loop over the bytes, \<open>n\<close> bytes left from byte \<open>t\<close> on.\<close>

fun char_bytes :: "nat \<Rightarrow> nat \<Rightarrow> u8 \<Rightarrow> u8 \<Rightarrow> u8 \<Rightarrow> u16 \<Rightarrow> u16 \<Rightarrow> u16 \<Rightarrow> lcd \<Rightarrow> lcd res" where
  "char_bytes 0 t c sz mode y0 x y s = Inr s"
| "char_bytes (Suc n) t c sz mode y0 x y s =
     and_then (font_byte sz c t) (\<lambda>r. case r of
        None \<Rightarrow> Inr s
      | Some temp \<Rightarrow>
          (case char_bits 8 sz mode y0 temp x y s of (ret, x', y', s') \<Rightarrow>
             if ret then Inr s' else char_bytes n (Suc t) c sz mode y0 x' y' s'))"

definition char_size :: "u8 \<Rightarrow> u8" where
  "char_size sz = (sz div 8 + (if sz mod 8 \<noteq> 0 then 1 else 0)) * (sz div 2)"

definition LCD_ShowChar :: "u16 \<Rightarrow> u16 \<Rightarrow> u8 \<Rightarrow> u8 \<Rightarrow> u8 \<Rightarrow> lcd \<Rightarrow> lcd res" where
  "LCD_ShowChar x y c sz mode s =
     char_bytes (unat (char_size sz)) 0 (c - 0x20) sz mode y x y s"

section \<open>Numbers\<close>

primrec lcd_pow_loop :: "nat \<Rightarrow> u8 \<Rightarrow> u32 \<Rightarrow> u32" where
  "lcd_pow_loop 0 m result = result"
| "lcd_pow_loop (Suc n) m result = lcd_pow_loop n m (result * ucast m)"

definition LCD_Pow :: "u8 \<Rightarrow> u8 \<Rightarrow> u32" where
  "LCD_Pow m n = lcd_pow_loop (unat n) m 1"

text \<open>
  The loop of \<open>LCD_ShowNum\<close> and \<open>LCD_ShowxNum\<close>, \<open>n\<close> digits left, \<open>t = len - n\<close>: a leading zero is
  shown as \<open>blank\<close>.
\<close>

fun show_digits ::
  "nat \<Rightarrow> u8 \<Rightarrow> bool \<Rightarrow> u8 \<Rightarrow> u8 \<Rightarrow> u16 \<Rightarrow> u16 \<Rightarrow> u32 \<Rightarrow> u8 \<Rightarrow> lcd \<Rightarrow> lcd res" where
  "show_digits 0 len enshow blank mode x y v sz s = Inr s"
| "show_digits (Suc n) len enshow blank mode x y v sz s =
     (let t = len - of_nat (Suc n);
          p = LCD_Pow 10 (len - t - 1);
          xt = x + ucast (sz div 2) * ucast t
      in if p = 0 then Inl DivByZero
         else
           let temp = (ucast ((v div p) mod 10) :: u8)
           in if \<not> enshow \<and> n \<noteq> 0 \<and> temp = 0
              then and_then (LCD_ShowChar xt y blank sz mode s) (\<lambda>s1.
                     show_digits n len enshow blank mode x y v sz s1)
              else and_then (LCD_ShowChar xt y (temp + 0x30) sz mode s) (\<lambda>s1.
                     show_digits n len (enshow \<or> n \<noteq> 0) blank mode x y v sz s1))"

definition LCD_ShowNum :: "u16 \<Rightarrow> u16 \<Rightarrow> u32 \<Rightarrow> u8 \<Rightarrow> u8 \<Rightarrow> lcd \<Rightarrow> lcd res" where
  "LCD_ShowNum x y v len sz s = show_digits (unat len) len False 0x20 0 x y v sz s"

definition LCD_ShowxNum :: "u16 \<Rightarrow> u16 \<Rightarrow> u32 \<Rightarrow> u8 \<Rightarrow> u8 \<Rightarrow> u8 \<Rightarrow> lcd \<Rightarrow> lcd res" where
  "LCD_ShowxNum x y v len sz mode s =
     show_digits (unat len) len False (if mode AND 0x80 \<noteq> 0 then 0x30 else 0x20) (mode AND 1) x y v sz s"

section \<open>Strings\<close>

text \<open>\<open>x0\<close> is the start column cut to 8 bits.\<close>

fun show_string :: "u8 \<Rightarrow> u16 \<Rightarrow> u16 \<Rightarrow> u8 \<Rightarrow> u16 \<Rightarrow> u16 \<Rightarrow> mem \<Rightarrow> lcd \<Rightarrow> lcd res" where
  "show_string x0 xe ye sz x y [] s = Inl OutOfBounds"
| "show_string x0 xe ye sz x y (c # p) s =
     (if c \<le> 0x7E \<and> c \<ge> 0x20
      then let x1 = (if x \<ge> xe then ucast x0 else x);
               y1 = (if x \<ge> xe then y + ucast sz else y)
           in if y1 \<ge> ye then Inr s
              else and_then (LCD_ShowChar x1 y1 c sz 0 s) (\<lambda>s1.
                     show_string x0 xe ye sz (x1 + ucast (sz div 2)) y1 p s1)
      else Inr s)"

definition LCD_ShowString :: "u16 \<Rightarrow> u16 \<Rightarrow> u16 \<Rightarrow> u16 \<Rightarrow> u8 \<Rightarrow> mem \<Rightarrow> lcd \<Rightarrow> lcd res" where
  "LCD_ShowString x y w h sz p s = show_string (ucast x) (w + x) (h + y) sz x y p s"

end
