(* ===== verification/Lcd_Props.thy ===== *)
theory Lcd_Props
  imports Lcd_Init Lcd_Draw Lcd_Text
begin

text \<open>
  The properties of the display driver: what the bus carries for a cursor, a point, a cleared or
  filled area, a line and a circle, the geometry after a change of direction, and initialisation.  The
  controllers are specified on their own, by the registers they take coordinates from, their geometry,
  their timing and the way they answer the probes.
\<close>

section \<open>Definitions\<close>

text \<open>
  What a controller receives: the registers addressed, in order, each with the words written to it
  before the next one is addressed.
\<close>

fun data_of :: "bus_op list \<Rightarrow> u16 list" where
  "data_of (WrData v # ops) = v # data_of ops"
| "data_of ops = []"

fun reg_data :: "bus_op list \<Rightarrow> (u16 \<times> u16 list) list" where
  "reg_data [] = []"
| "reg_data (WrReg r # ops) = (r, data_of ops) # reg_data ops"
| "reg_data (x # ops) = reg_data ops"

text \<open>What a controller answered: the words read while register \<open>r\<close> was addressed; \<open>c\<close> is addressed now.\<close>

fun reads_of :: "u16 option \<Rightarrow> bus_op list \<Rightarrow> u16 \<Rightarrow> u16 list" where
  "reads_of c [] r = []"
| "reads_of c (WrReg a # ops) r = reads_of (Some a) ops r"
| "reads_of c (RdData v # ops) r = (if c = Some r then v # reads_of c ops r else reads_of c ops r)"
| "reads_of c (x # ops) r = reads_of c ops r"

text \<open>
  The registers of the controllers, by controller and direction (1 for landscape): writing the memory,
  and the two addresses.  The first address counts along the width of the display, the second along
  its height; the 6804 and the register-based controllers exchange them in landscape, the SSD1963,
  whose panel is built in landscape, in portrait.
\<close>

definition panel_cmds :: "u16 \<Rightarrow> u8 \<Rightarrow> u16 \<times> u16 \<times> u16" where
  "panel_cmds i n =
     (if i = 0x9341 \<or> i = 0x5310 then (0x2C, 0x2A, 0x2B)
      else if i = 0x6804 then (if n = 0 then (0x2C, 0x2A, 0x2B) else (0x2C, 0x2B, 0x2A))
      else if i = 0x5510 then (0x2C00, 0x2A00, 0x2B00)
      else if i = 0x1963 then (if n = 0 then (0x2C, 0x2B, 0x2A) else (0x2C, 0x2A, 0x2B))
      else if n = 0 then (0x22, 0x20, 0x21) else (0x22, 0x21, 0x20))"

text \<open>Width and height after the driver has chosen a direction.\<close>

definition screen_size :: "u16 \<Rightarrow> u8 \<Rightarrow> u16 \<times> u16" where
  "screen_size i n =
     (if i = 0x9341 then if n = 0 then (320, 240) else (240, 320)
      else if i = 0x5310 then if n = 0 then (480, 320) else (320, 480)
      else if i = 0x5510 then if n = 0 then (800, 480) else (480, 800)
      else if i = 0x6804 then (480, 320)
      else if i = 0x1963 then if n = 0 then (480, 800) else (800, 480)
      else if n = 0 then (240, 320) else (320, 240))"

text \<open>The parameter record is the one for its controller and its direction.\<close>

definition dev_ok :: "lcd_dev \<Rightarrow> bool" where
  "dev_ok d \<longleftrightarrow> (dir d = 0 \<or> dir d = 1) \<and> (width d, height d) = screen_size (lcd_id d) (dir d) \<and>
     (wramcmd d, setxcmd d, setycmd d) = panel_cmds (lcd_id d) (dir d)"

text \<open>
  The registers a cursor command may address, and the coordinates a controller takes from what it
  receives: each from the register of its axis, counted from the other side where the display is
  mirrored.  The SSD1963 is given the first and the last address of a window; in portrait it is the
  last column that was mirrored.
\<close>

definition cursor_regs :: "u16 \<Rightarrow> u8 \<Rightarrow> u16 list" where
  "cursor_regs i n = (case panel_cmds i n of (w, xr, yr) \<Rightarrow> if i = 0x5510 then [xr, xr + 1, yr, yr + 1] else [xr, yr])"

definition unmirror :: "u16 \<Rightarrow> u16 \<Rightarrow> u16" where
  "unmirror w v = w - 1 - v"

fun axis16 :: "u16 list \<Rightarrow> u16 option" where
  "axis16 [h, l] = Some (256 * h + l)"
| "axis16 ops = None"

definition cursor_of :: "u16 \<Rightarrow> u8 \<Rightarrow> bus_op list \<Rightarrow> (u16 \<times> u16) option" where
  "cursor_of i n ops =
     (case panel_cmds i n of (wr, xr, yr) \<Rightarrow>
      let w = fst (screen_size i n);
          got = (\<lambda>r. case map_of (rev (reg_data ops)) r of None \<Rightarrow> [] | Some vs \<Rightarrow> vs);
          both = (\<lambda>f a b. Option.bind a (\<lambda>x. Option.bind b (\<lambda>y. Some (f x, y))))
      in if i = 0x9341 \<or> i = 0x5310 then both (\<lambda>x. x) (axis16 (got xr)) (axis16 (got yr))
         else if i = 0x6804 then both (if n = 1 then unmirror w else (\<lambda>x. x)) (axis16 (got xr)) (axis16 (got yr))
         else if i = 0x1963 then
           both (if n = 0 then unmirror w else (\<lambda>x. x)) (axis16 (if n = 0 then drop 2 (got xr) else take 2 (got xr))) (axis16 (take 2 (got yr)))
         else if i = 0x5510 then both (\<lambda>x. x) (axis16 (got xr @ got (xr + 1))) (axis16 (got yr @ got (yr + 1)))
         else (case (got xr, got yr) of
                 ([x], [y]) \<Rightarrow> Some (if n = 1 then unmirror w x else x, y)
               | _ \<Rightarrow> None))"

text \<open>
  The controller that shows in the answers \<open>f\<close> to the probes: the one whose number is read in register
  0, unless that is one of the answers of a controller without it; then the first of the five whose
  identification register holds its number.
\<close>

definition id_seen :: "(u16 \<Rightarrow> u16 list) \<Rightarrow> u16" where
  "id_seen f =
     (let two = (\<lambda>r k. 256 * (f r ! k) OR f r ! (k + 1)); v = f 0 ! 0
      in if \<not> (v < 0xFF \<or> v = 0xFFFF \<or> v = 0x9300) then v
         else if two 0xD3 2 = 0x9341 then 0x9341
         else if two 0xBF 3 = 0x6804 then 0x6804
         else if two 0xD4 2 = 0x5310 then 0x5310
         else if 256 * (f 0xDB00 ! 0) OR f 0xDC00 ! 0 \<in> {0x8000, 0x5510} then 0x5510
         else if two 0xA1 1 = 0x5761 then 0x1963
         else two 0xA1 1)"

text \<open>The write timing in bits 0 to 19, 28 and 29: address set-up, hold, data set-up, turnaround and mode.\<close>

definition write_timing :: "u16 \<Rightarrow> u32" where
  "write_timing i =
     (if i \<in> {0x9341, 0x5310, 0x5510, 0x1963} then 0x2F3 else if i \<in> {0x6804, 0xC505} then 0xCFA else 0x8F8)"

text \<open>The bus operations that fill one row of an area.\<close>

definition cursor_ops :: "lcd_dev \<Rightarrow> u16 \<Rightarrow> u16 \<Rightarrow> bus_op list" where
  "cursor_ops d x y = bus (LCD_SetCursor x y \<lparr>lcddev = d, POINT_COLOR = 0, BACK_COLOR = 0, bwtr = 0, bus = []\<rparr>)"

definition row_ops :: "lcd_dev \<Rightarrow> u16 \<Rightarrow> u16 \<Rightarrow> u16 \<Rightarrow> u16 \<Rightarrow> bus_op list" where
  "row_ops d sx y n color = cursor_ops d sx y @ WrReg (wramcmd d) # replicate (unat n) (WrData color)"

text \<open>The state before initialisation.\<close>

definition lcd_zero :: "u16 \<Rightarrow> lcd" where
  "lcd_zero i = \<lparr>lcddev = \<lparr>width = 0, height = 0, lcd_id = i, dir = 0, wramcmd = 0, setxcmd = 0, setycmd = 0\<rparr>,
     POINT_COLOR = 0, BACK_COLOR = 0xFFFF, bwtr = 0x0FFFFFFF, bus = []\<rparr>"

section \<open>Frames\<close>

lemma emit_simps [simp]:
  "lcddev (emit ops s) = lcddev s" "POINT_COLOR (emit ops s) = POINT_COLOR s"
  "BACK_COLOR (emit ops s) = BACK_COLOR s" "bwtr (emit ops s) = bwtr s"
  "bus (emit ops s) = bus s @ ops"
  by (simp_all add: emit_def)

lemma emit_emit [simp]: "emit b (emit a s) = emit (a @ b) s"
  by (simp add: emit_def)

lemma emit_Nil [simp]: "emit [] s = s"
  by (simp add: emit_def)

lemma SetCursor_emit: "LCD_SetCursor x y s = emit (cursor_ops (lcddev s) x y) s"
  by (simp add: LCD_SetCursor_def cursor_ops_def Let_def)

lemma Prepare_emit: "LCD_WriteRAM_Prepare s = emit [WrReg (wramcmd (lcddev s))] s"
  by (simp add: LCD_WriteRAM_Prepare_def)

lemma DrawPoint_emit:
  "LCD_DrawPoint x y s = emit (cursor_ops (lcddev s) x y @ [WrReg (wramcmd (lcddev s)), WrData (POINT_COLOR s)]) s"
  by (simp add: LCD_DrawPoint_def SetCursor_emit Prepare_emit Let_def)

lemmas op_emit = SetCursor_emit Prepare_emit DrawPoint_emit

lemma axis16_hi_lo [simp]: "256 * hi8 v + lo8 v = v"
proof -
  have m: "(0xFF :: u16) = mask 8" by (simp add: mask_eq_exp_minus_1)
  have "256 * hi8 v = push_bit 8 (hi8 v)" by (simp add: push_bit_eq_mult mult.commute)
  moreover have "push_bit 8 (hi8 v) AND lo8 v = 0"
    unfolding hi8_def lo8_def m by (rule bit_word_eqI) (auto simp: bit_simps)
  then have "push_bit 8 (hi8 v) + lo8 v = push_bit 8 (hi8 v) OR lo8 v" by (rule disjunctive_add_eq_or)
  moreover have "push_bit 8 (hi8 v) OR lo8 v = v"
    unfolding hi8_def lo8_def m by (rule bit_word_eqI) (auto simp: bit_simps)
  ultimately show ?thesis by simp
qed

lemma dev_sizes:
  "dev_ok d \<Longrightarrow> (width d, height d) \<in> {(240, 320), (320, 240), (320, 480), (480, 320), (480, 800), (800, 480)}"
  by (auto simp: dev_ok_def screen_size_def split: if_splits)

section \<open>Cursor and points\<close>

lemma cursor_decoded:
  assumes "dev_ok d"
  shows "map fst (reg_data (cursor_ops d x y)) = cursor_regs (lcd_id d) (dir d) \<and> cursor_of (lcd_id d) (dir d) (cursor_ops d x y) = Some (x, y)"
proof -
  have n: "dir d = 0 \<or> dir d = 1" and w: "width d = fst (screen_size (lcd_id d) (dir d))"
    and c: "setxcmd d = fst (snd (panel_cmds (lcd_id d) (dir d)))" "setycmd d = snd (snd (panel_cmds (lcd_id d) (dir d)))"
    using assms by (simp_all add: dev_ok_def) (metis fst_conv snd_conv)+
  note defs = cursor_of_def cursor_regs_def cursor_ops_def LCD_SetCursor_def Let_def cmd2_def cmd4_def cmd4i_def
    cmd_5510_def unmirror_def panel_cmds_def screen_size_def c w
  consider "lcd_id d = 0x9341" | "lcd_id d = 0x5310" | "lcd_id d = 0x5510"
    | "lcd_id d = 0x6804" "dir d = 0" | "lcd_id d = 0x6804" "dir d = 1" | "lcd_id d = 0x1963" "dir d = 0" | "lcd_id d = 0x1963" "dir d = 1"
    | "lcd_id d \<notin> {0x9341, 0x5310, 0x5510, 0x6804, 0x1963}" "dir d = 0"
    | "lcd_id d \<notin> {0x9341, 0x5310, 0x5510, 0x6804, 0x1963}" "dir d = 1" using n by blast
  then show ?thesis by cases (simp add: defs)+
qed

text \<open>
  C31: once a direction was chosen (\<open>dev_ok\<close>, which \<open>LCD_Display_Dir\<close> establishes), \<open>LCD_SetCursor\<close>
  addresses exactly the registers of the controller for the two axes, the one for the horizontal axis
  first, and a controller that takes its coordinates from those registers gets \<open>(x, y)\<close>; nothing else of
  the state changes.
\<close>

theorem SetCursor_roundtrip:
  assumes "dev_ok (lcddev s)"
  shows "\<exists>ops. LCD_SetCursor x y s = s\<lparr>bus := bus s @ ops\<rparr> \<and>
    map fst (reg_data ops) = cursor_regs (lcd_id (lcddev s)) (dir (lcddev s)) \<and>
    cursor_of (lcd_id (lcddev s)) (dir (lcddev s)) ops = Some (x, y)"
  using cursor_decoded [OF assms] unfolding SetCursor_emit emit_def by blast

theorem SetCursor_roundtrip_witness:
  "\<exists>ops. LCD_SetCursor 5 7 ((lcd_zero 0x9341)\<lparr>lcddev := \<lparr>width = 320, height = 240, lcd_id = 0x9341, dir = 0, wramcmd = 0x2C,
       setxcmd = 0x2A, setycmd = 0x2B\<rparr>\<rparr>) = (lcd_zero 0x9341)\<lparr>lcddev := \<lparr>width = 320, height = 240, lcd_id = 0x9341, dir = 0,
       wramcmd = 0x2C, setxcmd = 0x2A, setycmd = 0x2B\<rparr>, bus := ops\<rparr> \<and> cursor_of 0x9341 0 ops = Some (5, 7)"
proof -
  let ?s = "(lcd_zero 0x9341)\<lparr>lcddev := \<lparr>width = 320, height = 240, lcd_id = 0x9341, dir = 0, wramcmd = 0x2C,
       setxcmd = 0x2A, setycmd = 0x2B\<rparr>\<rparr>"
  have "dev_ok (lcddev ?s)" by (simp add: dev_ok_def screen_size_def panel_cmds_def)
  from SetCursor_roundtrip [OF this, of 5 7] show ?thesis by (auto simp add: lcd_zero_def)
qed

text \<open>
  On every controller except the SSD1963 the fast point routine sends exactly what setting
  the cursor, preparing the memory write and writing the colour send; with the pen colour it is
  \<open>LCD_DrawPoint\<close>.
\<close>

theorem Fast_DrawPoint_equiv:
  assumes "lcd_id (lcddev s) \<noteq> 0x1963"
  shows "LCD_Fast_DrawPoint x y c s = LCD_WriteRAM c (LCD_WriteRAM_Prepare (LCD_SetCursor x y s)) \<and>
    LCD_Fast_DrawPoint x y (POINT_COLOR s) s = LCD_DrawPoint x y s"
  using assms
  by (simp add: LCD_Fast_DrawPoint_def LCD_WriteRAM_def LCD_WriteRAM_Prepare_def LCD_SetCursor_def
      LCD_DrawPoint_def Let_def)

theorem Fast_DrawPoint_equiv_witness:
  "LCD_Fast_DrawPoint 5 7 0 (lcd_zero 0x9341) = LCD_DrawPoint 5 7 (lcd_zero 0x9341)"
proof -
  have "LCD_Fast_DrawPoint 5 7 (POINT_COLOR (lcd_zero 0x9341)) (lcd_zero 0x9341) = LCD_DrawPoint 5 7 (lcd_zero 0x9341)"
    by (rule Fast_DrawPoint_equiv [THEN conjunct2]) (simp add: lcd_zero_def)
  then show ?thesis by (simp add: lcd_zero_def)
qed

section \<open>Areas\<close>

lemma Clear_emit:
  assumes "dev_ok (lcddev s)"
  shows "\<exists>ops. LCD_Clear color s = s\<lparr>bus := bus s @ ops @ WrReg (wramcmd (lcddev s)) #
      replicate (unat (width (lcddev s)) * unat (height (lcddev s))) (WrData color)\<rparr> \<and> length ops \<le> 10"
proof -
  let ?d = "lcddev s"
  have n: "unat ((ucast (width ?d) :: u32) * ucast (height ?d)) = unat (width ?d) * unat (height ?d)"
    using dev_sizes [OF assms] by auto
  have l: "length (cursor_ops d x y) \<le> 10" for d x y
    by (simp add: cursor_ops_def LCD_SetCursor_def Let_def cmd2_def cmd4_def cmd4i_def cmd_5510_def)
  show ?thesis
  proof (cases "lcd_id ?d = 0x6804 \<and> dir ?d = 1")
    case True
    let ?d' = "?d\<lparr>dir := 0, setxcmd := 0x2A, setycmd := 0x2B\<rparr>"
    have "?d\<lparr>dir := 1, setxcmd := 0x2B, setycmd := 0x2A\<rparr> = ?d"
      using assms True by (simp add: dev_ok_def panel_cmds_def)
    then have r: "s\<lparr>lcddev := ?d\<lparr>dir := 1, setxcmd := 0x2B, setycmd := 0x2A\<rparr>, bus := b\<rparr> = s\<lparr>bus := b\<rparr>" for b
      by (metis lcd.surjective lcd.update_convs(1) lcd.select_convs(1) lcd.update_convs(5))
    show ?thesis
      using True r n l [of ?d' 0 0]
      by (intro exI [of _ "cursor_ops ?d' 0 0"]) (simp add: LCD_Clear_def Let_def put_cmds_def op_emit emit_def)
  next
    case False
    then show ?thesis using n l [of ?d 0 0]
      by (intro exI [of _ "cursor_ops ?d 0 0"]) (auto simp: LCD_Clear_def Let_def op_emit emit_def)
  qed
qed

text \<open>
  Clearing sends the cursor to the origin and then exactly \<open>width * height\<close> words of the
  colour, and leaves the parameter record as it was, also in the detour for the 6804 in landscape.
\<close>

theorem Clear_writes_screen:
  assumes "dev_ok (lcddev s)"
  shows "\<exists>ops. LCD_Clear color s = s\<lparr>bus := bus s @ ops @ WrReg (wramcmd (lcddev s)) #
      replicate (unat (width (lcddev s)) * unat (height (lcddev s))) (WrData color)\<rparr> \<and> length ops \<le> 10"
  using assms by (rule Clear_emit)

theorem Clear_writes_screen_witness:
  "\<exists>ops s. lcd_id (lcddev s) = 0x6804 \<and> dir (lcddev s) = 1 \<and> LCD_Clear 0xFFFF s = s\<lparr>bus := ops @ WrReg 0x2C # replicate 153600 (WrData 0xFFFF)\<rparr>"
proof -
  let ?s = "(lcd_zero 0x6804)\<lparr>lcddev := landscape_dev (lcddev (lcd_zero 0x6804))\<rparr>"
  have f: "width (lcddev ?s) = 480" "height (lcddev ?s) = 320" "wramcmd (lcddev ?s) = 0x2C" "bus ?s = []"
    "lcd_id (lcddev ?s) = 0x6804" "dir (lcddev ?s) = 1"
    by (simp_all add: lcd_zero_def landscape_dev_def set_wh_def set_cmds_def Let_def)
  have "dev_ok (lcddev ?s)"
    by (simp add: dev_ok_def panel_cmds_def screen_size_def lcd_zero_def landscape_dev_def set_wh_def set_cmds_def Let_def)
  from Clear_writes_screen [OF this, of "0xFFFF"] obtain ops where
    "LCD_Clear 0xFFFF ?s = ?s\<lparr>bus := ops @ WrReg 0x2C # replicate 153600 (WrData 0xFFFF)\<rparr>"
    unfolding f by auto
  then show ?thesis using f(5,6) by (intro exI [of _ ops] exI [of _ ?s] conjI)
qed

lemma u16_wrap: "(i :: u16) + 1 = 0 \<Longrightarrow> i = 0xFFFF"
  by (simp add: eq_neg_iff_add_eq_0 [symmetric])

lemma fill_rows_done:
  assumes "ey \<noteq> 0xFFFF"
  shows "i \<le> ey + 1 \<Longrightarrow>
    fill_rows sx n ey color i s =
      Some (emit (concat (map (\<lambda>k. row_ops (lcddev s) sx (of_nat k) n color) [unat i..<Suc (unat ey)])) s)"
proof (induction "Suc (unat ey) - unat i" arbitrary: i s)
  case 0
  have "unat ey < unat i" using 0 by simp
  then have "\<not> i \<le> ey" by (simp add: word_le_nat_alt)
  then show ?case using 0 by (subst fill_rows.simps) simp
next
  case (Suc k)
  have i: "unat i < Suc (unat ey)" using Suc.hyps(2) by simp
  have e: "ey + 1 \<noteq> 0" using assms u16_wrap by blast
  have ne: "i + 1 \<noteq> 0"
  proof
    assume "i + 1 = 0"
    then have "i = 0xFFFF" by (rule u16_wrap)
    moreover have "unat ey < 2 ^ LENGTH(16)" by (rule unsigned_less)
    ultimately have "ey = 0xFFFF" using i by (intro word_unat_eqI) simp
    with assms show False by simp
  qed
  have u: "unat (i + 1) = Suc (unat i)" using ne by (rule unat_Suc_word)
  have u2: "unat (ey + 1) = Suc (unat ey)" using e by (rule unat_Suc_word)
  have le: "i \<le> ey" "i + 1 \<le> ey + 1" using i u u2 by (simp_all add: word_le_nat_alt)
  have up: "[unat i..<Suc (unat ey)] = unat i # [unat (i + 1)..<Suc (unat ey)]"
    unfolding u using i by (rule upt_conv_Cons)
  have k: "k = Suc (unat ey) - unat (i + 1)" using Suc.hyps(2) u by simp
  show ?case
    unfolding up
    by (subst fill_rows.simps)
      (simp add: le Suc.hyps(1) [OF k le(2)] op_emit row_ops_def)
qed

text \<open>
  Filling a rectangle sends, for every row from \<open>sy\<close> to \<open>ey\<close>, a cursor to \<open>(sx, row)\<close> and
  \<open>ex - sx + 1\<close> words of the colour, and ends; when \<open>ey\<close> is 65535 it never ends.
\<close>

theorem Fill_rows:
  assumes "\<not> (lcd_id (lcddev s) = 0x6804 \<and> dir (lcddev s) = 1)" "sy \<le> ey"
  shows "LCD_Fill sx sy ex ey color s =
    (if ey = 0xFFFF then None
     else Some (emit (concat (map (\<lambda>y. row_ops (lcddev s) sx (of_nat y) (ex - sx + 1) color)
            [unat sy..<Suc (unat ey)])) s))"
proof (cases "ey = 0xFFFF")
  case True
  then show ?thesis using assms fill_rows_forever [of sx "ex - sx + 1" ey color sy s]
    by (cases "fill_rows sx (ex - sx + 1) ey color sy s") (auto simp: LCD_Fill_def)
next
  case False
  have "ey + 1 \<noteq> 0" using False u16_wrap by blast
  then have "sy \<le> ey + 1" using assms(2) by (simp add: word_le_nat_alt unat_Suc_word)
  from fill_rows_done [OF False this] show ?thesis using assms(1) False by (auto simp: LCD_Fill_def)
qed

theorem Fill_rows_witness:
  "LCD_Fill 1 0 2 0xFFFF 7 (lcd_zero 0x9341) = None \<and>
   (\<exists>s'. LCD_Fill 1 3 2 4 7 (lcd_zero 0x9341) = Some s')"
  using Fill_rows [of "lcd_zero 0x9341" 0 "0xFFFF" 1 2 7] Fill_rows [of "lcd_zero 0x9341" 3 4 1 2 7]
  by (simp add: lcd_zero_def)

section \<open>Directions and initialisation\<close>

lemma Display_Dir_result:
  "let s' = LCD_Display_Dir n s; i = lcd_id (lcddev s) in
   dev_ok (lcddev s') \<and> lcd_id (lcddev s') = i \<and> dir (lcddev s') = (if n = 0 then 0 else 1)"
proof -
  note defs = LCD_Display_Dir_def LCD_Scan_Dir_def portrait_dev_def landscape_dev_def set_wh_def set_cmds_def
    fit_wh_def swap_wh_def DFT_SCAN_DIR_def turn_dir_def scan_bits_def Let_def dev_ok_def panel_cmds_def screen_size_def
    LCD_WriteReg_def
  consider "lcd_id (lcddev s) = 0x9341" | "lcd_id (lcddev s) = 0x5310" | "lcd_id (lcddev s) = 0x5510"
    | "lcd_id (lcddev s) = 0x6804" | "lcd_id (lcddev s) = 0x1963"
    | "lcd_id (lcddev s) \<notin> {0x9341, 0x5310, 0x5510, 0x6804, 0x1963}" by blast
  then show ?thesis
    by cases (cases "n = 0"; simp add: defs)+
qed

lemma Scan_Dir_emit:
  "(\<exists>ops. bus (LCD_Scan_Dir n s) = bus s @ ops \<and> length ops \<le> 18) \<and> bwtr (LCD_Scan_Dir n s) = bwtr s"
proof -
  have "length (full_window d) \<le> 16" for d by (simp add: full_window_def Let_def)
  then have "\<exists>ops. bus s @ WrReg a # WrData b # full_window d = bus s @ ops \<and> length ops \<le> 18" for a b d
    by (intro exI [of _ "WrReg a # WrData b # full_window d"]) simp
  then show ?thesis by (simp add: LCD_Scan_Dir_def LCD_WriteReg_def Let_def)
qed

lemma Display_Dir_emit:
  "(\<exists>ops. bus (LCD_Display_Dir n s) = bus s @ ops \<and> length ops \<le> 18) \<and> bwtr (LCD_Display_Dir n s) = bwtr s"
  using Scan_Dir_emit [of DFT_SCAN_DIR "s\<lparr>lcddev := (if n = 0 then portrait_dev (lcddev s) else landscape_dev (lcddev s))\<rparr>"]
  by (simp add: LCD_Display_Dir_def)

text \<open>
  The geometry after \<open>LCD_Display_Dir\<close>, in \<open>screen_size\<close>.  On the 9341, 5310 and 5510 the request for portrait
  (0) leaves a landscape geometry and the request for landscape a portrait one, because the default
  scan direction exchanges the axes; the 6804 is always landscape; the other controllers get what is
  asked for.
\<close>

theorem Display_Dir_geometry:
  "let s' = LCD_Display_Dir n s; i = lcd_id (lcddev s) in
   dev_ok (lcddev s') \<and> lcd_id (lcddev s') = i \<and> dir (lcddev s') = (if n = 0 then 0 else 1)"
  by (rule Display_Dir_result)

text \<open>The probes of the identification, with the words read.\<close>

lemma join_mult: "join a b = 256 * a OR b"
  by (simp add: join_def push_bit_eq_mult mult.commute)

lemma RD_emit: "LCD_RD_DATA panel s = (panel (bus s), emit [RdData (panel (bus s))] s)"
  by (simp add: LCD_RD_DATA_def Let_def)

lemma rd_n_emit: "\<exists>vs. rd_n panel n s = (vs, emit (map RdData vs) s) \<and> length vs = n"
proof (induction n arbitrary: s)
  case (Suc n)
  obtain vs where "rd_n panel n (emit [RdData (panel (bus s))] s) = (vs, emit (map RdData vs) (emit [RdData (panel (bus s))] s))" "length vs = n"
    using Suc by blast
  then show ?case by (intro exI [of _ "panel (bus s) # vs"]) (simp add: RD_emit)
qed simp

lemma probe_emit:
  "\<exists>a b c d. probe_9341 panel s = (256 * c OR d, emit [WrReg 0xD3, RdData a, RdData b, RdData c, RdData d] s)"
  "\<exists>a b c d e. probe_6804 panel s = (256 * d OR e, emit [WrReg 0xBF, RdData a, RdData b, RdData c, RdData d, RdData e] s)"
  "\<exists>a b c d. probe_5310 panel s = (256 * c OR d, emit [WrReg 0xD4, RdData a, RdData b, RdData c, RdData d] s)"
  "\<exists>a b c. probe_5510 panel s = (if 256 * b OR c = 0x8000 then 0x5510 else 256 * b OR c,
     emit [WrReg 0xDA00, RdData a, WrReg 0xDB00, RdData b, WrReg 0xDC00, RdData c] s)"
  "\<exists>a b c. probe_1963 panel s = (if 256 * b OR c = 0x5761 then 0x1963 else 256 * b OR c, emit [WrReg 0xA1, RdData a, RdData b, RdData c] s)"
proof -
  have 4: "\<exists>a b c d. rd_n panel 4 t = ([a, b, c, d], emit [RdData a, RdData b, RdData c, RdData d] t)" for t
    using rd_n_emit [of panel 4 t] by (auto simp: length_Suc_conv numeral_eq_Suc)
  have 5: "\<exists>a b c d e. rd_n panel 5 t = ([a, b, c, d, e], emit [RdData a, RdData b, RdData c, RdData d, RdData e] t)" for t
    using rd_n_emit [of panel 5 t] by (auto simp: length_Suc_conv numeral_eq_Suc)
  have 3: "\<exists>a b c. rd_n panel 3 t = ([a, b, c], emit [RdData a, RdData b, RdData c] t)" for t
    using rd_n_emit [of panel 3 t] by (auto simp: length_Suc_conv numeral_eq_Suc)
  obtain a b c d where x: "rd_n panel 4 (LCD_WR_REG 0xD3 s) = ([a, b, c, d], emit [RdData a, RdData b, RdData c, RdData d] (LCD_WR_REG 0xD3 s))"
    using 4 by blast
  show "\<exists>a b c d. probe_9341 panel s = (256 * c OR d, emit [WrReg 0xD3, RdData a, RdData b, RdData c, RdData d] s)"
    by (rule exI [of _ a], rule exI [of _ b], rule exI [of _ c], rule exI [of _ d])
      (simp add: probe_9341_def x [unfolded LCD_WR_REG_def] join_mult LCD_WR_REG_def)
  obtain a b c d e where x: "rd_n panel 5 (LCD_WR_REG 0xBF s) = ([a, b, c, d, e], emit [RdData a, RdData b, RdData c, RdData d, RdData e] (LCD_WR_REG 0xBF s))"
    using 5 by blast
  show "\<exists>a b c d e. probe_6804 panel s = (256 * d OR e, emit [WrReg 0xBF, RdData a, RdData b, RdData c, RdData d, RdData e] s)"
    by (rule exI [of _ a], rule exI [of _ b], rule exI [of _ c], rule exI [of _ d], rule exI [of _ e])
      (simp add: probe_6804_def x [unfolded LCD_WR_REG_def] join_mult LCD_WR_REG_def)
  obtain a b c d where x: "rd_n panel 4 (LCD_WR_REG 0xD4 s) = ([a, b, c, d], emit [RdData a, RdData b, RdData c, RdData d] (LCD_WR_REG 0xD4 s))"
    using 4 by blast
  show "\<exists>a b c d. probe_5310 panel s = (256 * c OR d, emit [WrReg 0xD4, RdData a, RdData b, RdData c, RdData d] s)"
    by (rule exI [of _ a], rule exI [of _ b], rule exI [of _ c], rule exI [of _ d])
      (simp add: probe_5310_def x [unfolded LCD_WR_REG_def] join_mult LCD_WR_REG_def)
  show "\<exists>a b c. probe_5510 panel s = (if 256 * b OR c = 0x8000 then 0x5510 else 256 * b OR c,
     emit [WrReg 0xDA00, RdData a, WrReg 0xDB00, RdData b, WrReg 0xDC00, RdData c] s)"
    unfolding probe_5510_def Let_def RD_emit prod.case join_mult LCD_WR_REG_def emit_emit append.simps by (intro exI) (rule refl)
  obtain a b c where x: "rd_n panel 3 (LCD_WR_REG 0xA1 s) = ([a, b, c], emit [RdData a, RdData b, RdData c] (LCD_WR_REG 0xA1 s))"
    using 3 by blast
  show "\<exists>a b c. probe_1963 panel s = (if 256 * b OR c = 0x5761 then 0x1963 else 256 * b OR c, emit [WrReg 0xA1, RdData a, RdData b, RdData c] s)"
    by (rule exI [of _ a], rule exI [of _ b], rule exI [of _ c]) (simp add: probe_1963_def x [unfolded LCD_WR_REG_def] join_mult LCD_WR_REG_def Let_def)
qed

lemma identify_emit:
  "\<exists>tr. identify panel s = (id_seen (reads_of c tr), emit tr s)"
proof -
  obtain v where 0: "LCD_ReadReg panel 0 s = (v, emit [WrReg 0, DelayUs 5, RdData v] s)"
    by (simp add: LCD_ReadReg_def LCD_WR_REG_def RD_emit)
  let ?s0 = "emit [WrReg 0, DelayUs 5, RdData v] s"
  obtain a1 b1 c1 d1 where 1: "probe_9341 panel ?s0 = (256 * c1 OR d1, emit [WrReg 0xD3, RdData a1, RdData b1, RdData c1, RdData d1] ?s0)"
    using probe_emit(1) by blast
  let ?s1 = "emit [WrReg 0xD3, RdData a1, RdData b1, RdData c1, RdData d1] ?s0"
  obtain a2 b2 c2 d2 e2 where 2: "probe_6804 panel ?s1 = (256 * d2 OR e2,
      emit [WrReg 0xBF, RdData a2, RdData b2, RdData c2, RdData d2, RdData e2] ?s1)" using probe_emit(2) by blast
  let ?s2 = "emit [WrReg 0xBF, RdData a2, RdData b2, RdData c2, RdData d2, RdData e2] ?s1"
  obtain a3 b3 c3 d3 where 3: "probe_5310 panel ?s2 = (256 * c3 OR d3, emit [WrReg 0xD4, RdData a3, RdData b3, RdData c3, RdData d3] ?s2)"
    using probe_emit(3) by blast
  let ?s3 = "emit [WrReg 0xD4, RdData a3, RdData b3, RdData c3, RdData d3] ?s2"
  obtain a4 b4 c4 where 4: "probe_5510 panel ?s3 = (if 256 * b4 OR c4 = 0x8000 then 0x5510 else 256 * b4 OR c4,
      emit [WrReg 0xDA00, RdData a4, WrReg 0xDB00, RdData b4, WrReg 0xDC00, RdData c4] ?s3)" using probe_emit(4) by blast
  let ?s4 = "emit [WrReg 0xDA00, RdData a4, WrReg 0xDB00, RdData b4, WrReg 0xDC00, RdData c4] ?s3"
  obtain a5 b5 c5 where 5: "probe_1963 panel ?s4 = (if 256 * b5 OR c5 = 0x5761 then 0x1963 else 256 * b5 OR c5,
      emit [WrReg 0xA1, RdData a5, RdData b5, RdData c5] ?s4)" using probe_emit(5) by blast
  note ids = identify_def 0 1 2 3 4 5 Let_def prod.case
  define two where "two = (\<lambda>a b :: u16. 256 * a OR b)"
  have t: "256 * a OR b = two a b" for a b by (simp add: two_def)
  consider (none) "\<not> (v < 0xFF \<or> v = 0xFFFF \<or> v = 0x9300)"
    | (i1) "v < 0xFF \<or> v = 0xFFFF \<or> v = 0x9300" "two c1 d1 = 0x9341"
    | (i2) "v < 0xFF \<or> v = 0xFFFF \<or> v = 0x9300" "two c1 d1 \<noteq> 0x9341" "two d2 e2 = 0x6804"
    | (i3) "v < 0xFF \<or> v = 0xFFFF \<or> v = 0x9300" "two c1 d1 \<noteq> 0x9341" "two d2 e2 \<noteq> 0x6804" "two c3 d3 = 0x5310"
    | (i4) "v < 0xFF \<or> v = 0xFFFF \<or> v = 0x9300" "two c1 d1 \<noteq> 0x9341" "two d2 e2 \<noteq> 0x6804" "two c3 d3 \<noteq> 0x5310"
        "two b4 c4 = 0x8000 \<or> two b4 c4 = 0x5510"
    | (i5) "v < 0xFF \<or> v = 0xFFFF \<or> v = 0x9300" "two c1 d1 \<noteq> 0x9341" "two d2 e2 \<noteq> 0x6804" "two c3 d3 \<noteq> 0x5310"
        "two b4 c4 \<noteq> 0x8000" "two b4 c4 \<noteq> 0x5510" by blast
  then show ?thesis
  proof cases
    case none
    then show ?thesis unfolding ids by (intro exI [of _ "[WrReg 0, DelayUs 5, RdData v]"]) (simp add: id_seen_def)
  next
    case i1
    then show ?thesis unfolding ids t id_seen_def
      by (intro exI [of _ "[WrReg 0, DelayUs 5, RdData v, WrReg 0xD3, RdData a1, RdData b1, RdData c1, RdData d1]"])
        (simp add: id_seen_def t)
  next
    case i2
    then show ?thesis unfolding ids t id_seen_def
      by (intro exI [of _ "[WrReg 0, DelayUs 5, RdData v, WrReg 0xD3, RdData a1, RdData b1, RdData c1, RdData d1,
          WrReg 0xBF, RdData a2, RdData b2, RdData c2, RdData d2, RdData e2]"])
        (simp add: id_seen_def t)
  next
    case i3
    then show ?thesis unfolding ids t id_seen_def
      by (intro exI [of _ "[WrReg 0, DelayUs 5, RdData v, WrReg 0xD3, RdData a1, RdData b1, RdData c1, RdData d1,
          WrReg 0xBF, RdData a2, RdData b2, RdData c2, RdData d2, RdData e2, WrReg 0xD4, RdData a3, RdData b3, RdData c3, RdData d3]"])
        (simp add: id_seen_def t)
  next
    case i4
    then show ?thesis unfolding ids t id_seen_def
      by (intro exI [of _ "[WrReg 0, DelayUs 5, RdData v, WrReg 0xD3, RdData a1, RdData b1, RdData c1, RdData d1,
          WrReg 0xBF, RdData a2, RdData b2, RdData c2, RdData d2, RdData e2, WrReg 0xD4, RdData a3, RdData b3, RdData c3, RdData d3,
          WrReg 0xDA00, RdData a4, WrReg 0xDB00, RdData b4, WrReg 0xDC00, RdData c4]"])
        (auto simp add: id_seen_def t)
  next
    case i5
    then show ?thesis unfolding ids t id_seen_def
      by (intro exI [of _ "[WrReg 0, DelayUs 5, RdData v, WrReg 0xD3, RdData a1, RdData b1, RdData c1, RdData d1,
          WrReg 0xBF, RdData a2, RdData b2, RdData c2, RdData d2, RdData e2, WrReg 0xD4, RdData a3, RdData b3, RdData c3, RdData d3,
          WrReg 0xDA00, RdData a4, WrReg 0xDB00, RdData b4, WrReg 0xDC00, RdData c4, WrReg 0xA1, RdData a5, RdData b5, RdData c5]"])
        (simp add: id_seen_def t)
  qed
qed

lemma run_table_emit:
  "\<exists>ops. bus (run_table s) = bus s @ concat (map cmd_ops (init_table (lcd_id (lcddev s)))) @ ops \<and> length ops \<le> 7"
  "lcddev (run_table s) = lcddev s" "bwtr (run_table s) = bwtr s"
  by (simp_all add: run_table_def LCD_SSD_BackLightSet_def Let_def)

lemma timing_set:
  fixes r :: u32
  defines "q \<equiv> (r AND NOT 0x300FFFFF) OR (8 OR push_bit 4 15 OR push_bit 8 8)"
  shows "set_timing 3 2 q AND 0x300FFFFF = 0x2F3" "set_timing 10 12 q AND 0x300FFFFF = 0xCFA" "q AND 0x300FFFFF = 0x8F8"
    "set_timing 3 2 q AND NOT 0x300FFFFF = r AND NOT 0x300FFFFF" "set_timing 10 12 q AND NOT 0x300FFFFF = r AND NOT 0x300FFFFF"
    "q AND NOT 0x300FFFFF = r AND NOT 0x300FFFFF"
proof -
  have dist: "(a OR b) AND c = (a AND c) OR (b AND c)" for a b c :: u32
    by (rule bit_word_eqI) (auto simp: bit_simps)
  define N :: u32 where "N = NOT 0x300FFFFF"
  have q: "q = (r AND N) OR 0x8F8" by (simp add: q_def N_def push_bit_eq_mult)
  have n: "N AND NOT 0xF = N" "N AND NOT 0xF00 = N" "N AND NOT 0xF0F = N"
    by (simp_all add: N_def flip: bit.de_Morgan_disj)
  have z: "k AND N = 0" if "k OR 0x300FFFFF = 0x300FFFFF" for k :: u32
    using that unfolding N_def by (metis bit.conj_cancel_right bit.conj_disj_distrib2 and.commute or.right_neutral or_eq_0_iff)
  have m: "N AND 0x300FFFFF = 0" by (simp add: N_def)
  show "q AND 0x300FFFFF = 0x8F8" unfolding q by (simp add: dist and.assoc m)
  show "q AND NOT 0x300FFFFF = r AND NOT 0x300FFFFF"
    unfolding q N_def [symmetric] using z [of "0x8F8"] by (simp add: dist and.assoc)
  have s: "set_timing a d q = (r AND N) OR (0xF0 OR a OR push_bit 8 d)" for a d
  proof -
    have "(q AND NOT 0xF) AND NOT 0xF00 = q AND NOT 0xF0F" by (simp add: and.assoc flip: bit.de_Morgan_disj)
    also have "\<dots> = ((r AND N) AND NOT 0xF0F) OR (0x8F8 AND NOT 0xF0F)" unfolding q by (rule dist)
    also have "\<dots> = (r AND N) OR 0xF0" unfolding and.assoc n(3) by simp
    finally have b: "(q AND NOT 0xF) AND NOT 0xF00 = (r AND N) OR 0xF0" .
    have f: "push_bit 8 0xF = (0xF00 :: u32)" by (simp add: push_bit_eq_mult)
    show ?thesis unfolding set_timing_def f b by (simp only: or.assoc)
  qed
  show "set_timing 3 2 q AND 0x300FFFFF = 0x2F3" "set_timing 10 12 q AND 0x300FFFFF = 0xCFA"
    unfolding s by (simp_all add: dist and.assoc m push_bit_eq_mult)
  show "set_timing 3 2 q AND NOT 0x300FFFFF = r AND NOT 0x300FFFFF" "set_timing 10 12 q AND NOT 0x300FFFFF = r AND NOT 0x300FFFFF"
    unfolding s N_def [symmetric] using z [of "0x2F3"] z [of "0xCFA"]
    by (simp_all add: dist and.assoc push_bit_eq_mult)
qed

text \<open>
  C30: whatever the panel answers, \<open>LCD_Init\<close> first resets the bus and probes the panel, and takes the
  controller that shows in the answers.  It then sends the set-up sequence of that controller, and ends
  with the parameter record for it in the default direction: its command registers, the geometry, and
  the write timing that belongs to it.  The last thing on the bus, after the back light was switched
  on, is the whole screen in white, written through the memory register of the controller.
\<close>

theorem LCD_Init_ready:
  "let s' = LCD_Init panel s; d = lcddev s'; i = lcd_id d in
   (\<exists>probes mid ops. bus s' = bus s @ [PinModeOutput, FsmcInit, DelayMs 50, WrReg 0, WrData 1, DelayMs 50] @ probes @
        concat (map cmd_ops (init_table i)) @ mid @ PinWriteHigh # ops @
        WrReg (fst (panel_cmds i 0)) # replicate (unat (fst (screen_size i 0)) * unat (snd (screen_size i 0))) (WrData 0xFFFF) \<and>
      i = id_seen (reads_of None probes) \<and> length mid \<le> 25 \<and> length ops \<le> 10) \<and>
   dir d = 0 \<and> (width d, height d) = screen_size i 0 \<and> (wramcmd d, setxcmd d, setycmd d) = panel_cmds i 0 \<and>
   bwtr s' AND 0x300FFFFF = write_timing i \<and> bwtr s' AND NOT 0x300FFFFF = bwtr s AND NOT 0x300FFFFF"
proof -
  let ?q = "(bwtr s AND NOT 0x300FFFFF) OR (8 OR push_bit 4 15 OR push_bit 8 8)"
  let ?b = "bus s @ [PinModeOutput, FsmcInit, DelayMs 50, WrReg 0, WrData 1, DelayMs 50]"
  let ?s2 = "emit [DelayMs 50] (LCD_WriteReg 0 1 (emit [DelayMs 50] (MX_FSMC_Init (emit [PinModeOutput] s))))"
  have 2: "bwtr ?s2 = ?q" "bus ?s2 = ?b" by (simp_all add: MX_FSMC_Init_def LCD_WriteReg_def)
  obtain tr where 3: "identify panel ?s2 = (id_seen (reads_of None tr), emit tr ?s2)" using identify_emit by blast
  define i where "i = id_seen (reads_of None tr)"
  define s4 where "s4 = bus_timing ((emit tr ?s2)\<lparr>lcddev := (lcddev (emit tr ?s2))\<lparr>lcd_id := i\<rparr>\<rparr>)"
  have 4: "lcd_id (lcddev s4) = i" "bus s4 = ?b @ tr"
    "bwtr s4 = (if i \<in> {0x9341, 0x5310, 0x5510, 0x1963} then set_timing 3 2 ?q else if i \<in> {0x6804, 0xC505} then set_timing 10 12 ?q else ?q)"
    using 2 by (simp_all add: s4_def bus_timing_def Let_def)
  obtain ops1 where r: "bus (run_table s4) = bus s4 @ concat (map cmd_ops (init_table i)) @ ops1" "length ops1 \<le> 7"
    using run_table_emit(1) [of s4] 4(1) by auto
  define s5 where "s5 = LCD_Display_Dir 0 (run_table s4)"
  obtain ops2 where d: "bus s5 = bus (run_table s4) @ ops2" "length ops2 \<le> 18" "bwtr s5 = bwtr s4"
    using Display_Dir_emit [of 0 "run_table s4"] by (auto simp: s5_def run_table_emit(3))
  have g: "dev_ok (lcddev s5)" "lcd_id (lcddev s5) = i" "dir (lcddev s5) = 0"
    using Display_Dir_result [of 0 "run_table s4"] 4(1) unfolding s5_def Let_def by (simp_all add: run_table_emit(2))
  let ?t = "emit [PinWriteHigh] s5"
  have "dev_ok (lcddev ?t)" using g(1) by simp
  from Clear_emit [OF this, of "0xFFFF"] obtain ops where
    c: "LCD_Clear 0xFFFF ?t = ?t\<lparr>bus := bus ?t @ ops @ WrReg (wramcmd (lcddev ?t)) #
      replicate (unat (width (lcddev ?t)) * unat (height (lcddev ?t))) (WrData 0xFFFF)\<rparr>" "length ops \<le> 10" by blast
  have f: "LCD_Init panel s = LCD_Clear 0xFFFF ?t"
    unfolding LCD_Init_def Let_def 3 prod.case s5_def s4_def i_def ..
  have w: "width (lcddev s5) = fst (screen_size i 0)" "height (lcddev s5) = snd (screen_size i 0)" "wramcmd (lcddev s5) = fst (panel_cmds i 0)"
    "(width (lcddev s5), height (lcddev s5)) = screen_size i 0" "(wramcmd (lcddev s5), setxcmd (lcddev s5), setycmd (lcddev s5)) = panel_cmds i 0"
    using g unfolding dev_ok_def by (metis fst_conv snd_conv)+
  have "bwtr s5 AND 0x300FFFFF = write_timing i \<and> bwtr s5 AND NOT 0x300FFFFF = bwtr s AND NOT 0x300FFFFF"
    unfolding d(3) 4(3) write_timing_def using timing_set [of "bwtr s"] by (simp split: if_splits)
  moreover have "bus (LCD_Init panel s) = ?b @ tr @ concat (map cmd_ops (init_table i)) @ (ops1 @ ops2) @ PinWriteHigh # ops @
      WrReg (fst (panel_cmds i 0)) # replicate (unat (fst (screen_size i 0)) * unat (snd (screen_size i 0))) (WrData 0xFFFF)"
    unfolding f c(1) using r(1) d(1) 4(2) w(1-3) by simp
  moreover have "lcddev (LCD_Init panel s) = lcddev s5" "bwtr (LCD_Init panel s) = bwtr s5" unfolding f c(1) by simp_all
  moreover have "length (ops1 @ ops2) \<le> 25" using r(2) d(2) by simp
  ultimately show ?thesis unfolding Let_def using g(2,3) w(4,5) c(2) i_def by (metis append.assoc)
qed

section \<open>Lines and circles\<close>

lemma DrawLine_loop:
  "LCD_DrawLine x1 y1 x2 y2 s =
    (let dx = uint x2 - uint x1; dy = uint y2 - uint y1
     in line_loop \<bar>dx\<bar> \<bar>dy\<bar> (max \<bar>dx\<bar> \<bar>dy\<bar>) (sgn dx) (sgn dy) 0 (0, uint x1) (0, uint y1) s)"
proof -
  have i: "(if z > 0 then 1 else if z = 0 then 0 else - 1) = sgn z" "(if z < 0 then - z else z) = \<bar>z\<bar>" for z :: int
    by auto
  have m: "(if a > b then a else b) = max a b" for a b :: int by auto
  show ?thesis unfolding LCD_DrawLine_def Let_def i m ..
qed

lemma DrawLine_points:
  assumes "\<bar>uint x2 - uint x1\<bar> \<le> 65533" "\<bar>uint y2 - uint y1\<bar> \<le> 65533"
  shows "LCD_DrawLine x1 y1 x2 y2 s = Some (draw_points (line_points x1 y1 x2 y2) s)"
  using line_loop_runs [of "\<bar>uint x2 - uint x1\<bar>" "max \<bar>uint x2 - uint x1\<bar> \<bar>uint y2 - uint y1\<bar>"
      "\<bar>uint y2 - uint y1\<bar>" 0 "sgn (uint x2 - uint x1)" "sgn (uint y2 - uint y1)" "uint x1" "uint y1" s] assms
  by (simp add: DrawLine_loop line_points_def Let_def)

lemma axis_between:
  assumes "0 \<le> k" "k \<le> \<bar>b - a\<bar>"
  shows "min a b \<le> a + sgn (b - a) * k \<and> a + sgn (b - a) * k \<le> max a (b :: int)"
  using assms by (cases "a = b"; cases "a < b") (auto simp: sgn_if)

lemma axis_steps:
  assumes "0 \<le> delta" "delta \<le> d" "\<bar>sg\<bar> \<le> 1"
  shows "\<bar>(a + sg * advance delta d (Suc t)) - (a + sg * advance delta d t)\<bar> \<le> 1"
  using assms(3) unfolding advance_Suc [OF assms(1,2)] by (simp add: algebra_simps)

text \<open>
  C32: a line of extent at most 65533 is drawn completely: it takes \<open>max(|dx|,|dy|) + 2\<close> points,
  starts in \<open>(x1,y1)\<close>, ends in \<open>(x2,y2)\<close>, never leaves the rectangle they span, and each point
  touches the one before.
\<close>

theorem DrawLine_correct:
  assumes "\<bar>uint x2 - uint x1\<bar> \<le> 65533" "\<bar>uint y2 - uint y1\<bar> \<le> 65533"
  shows "\<exists>ps. LCD_DrawLine x1 y1 x2 y2 s = Some (draw_points ps s) \<and>
     length ps = nat (max \<bar>uint x2 - uint x1\<bar> \<bar>uint y2 - uint y1\<bar>) + 2 \<and>
     hd ps = (uint x1, uint y1) \<and> last ps = (uint x2, uint y2) \<and>
     (\<forall>p \<in> set ps. min (uint x1) (uint x2) \<le> fst p \<and> fst p \<le> max (uint x1) (uint x2) \<and>
        min (uint y1) (uint y2) \<le> snd p \<and> snd p \<le> max (uint y1) (uint y2)) \<and>
     (\<forall>k. Suc k < length ps \<longrightarrow> \<bar>fst (ps ! Suc k) - fst (ps ! k)\<bar> \<le> 1 \<and> \<bar>snd (ps ! Suc k) - snd (ps ! k)\<bar> \<le> 1)"
proof (intro exI conjI)
  let ?ps = "line_points x1 y1 x2 y2"
  let ?dx = "uint x2 - uint x1" and ?dy = "uint y2 - uint y1"
  let ?d = "max \<bar>?dx\<bar> \<bar>?dy\<bar>"
  let ?f = "\<lambda>t. (uint x1 + sgn ?dx * advance \<bar>?dx\<bar> ?d t, uint y1 + sgn ?dy * advance \<bar>?dy\<bar> ?d t)"
  have ps: "?ps = map ?f [0..<nat ?d + 2]" by (simp add: line_points_def Let_def)
  show "LCD_DrawLine x1 y1 x2 y2 s = Some (draw_points ?ps s)" using assms by (rule DrawLine_points)
  show "length ?ps = nat ?d + 2" by (simp add: ps)
  show "hd ?ps = (uint x1, uint y1)" unfolding ps by (subst hd_map) (simp_all del: upt_Suc)
  have "last ?ps = ?f (nat ?d + 1)" by (simp add: ps)
  also have "\<dots> = (uint x2, uint y2)"
    using advance_end [of "\<bar>?dx\<bar>" ?d] advance_end [of "\<bar>?dy\<bar>" ?d] by (simp add: sgn_mult_abs)
  finally show "last ?ps = (uint x2, uint y2)" .
  show "\<forall>p \<in> set ?ps. min (uint x1) (uint x2) \<le> fst p \<and> fst p \<le> max (uint x1) (uint x2) \<and>
        min (uint y1) (uint y2) \<le> snd p \<and> snd p \<le> max (uint y1) (uint y2)"
  proof
    fix p assume "p \<in> set ?ps"
    then obtain t where u: "t \<in> {0..<nat ?d + 2}" and p: "p = ?f t"
      unfolding ps set_map set_upt by (elim imageE)
    have t: "t \<le> nat ?d + 1" using u by simp
    show "min (uint x1) (uint x2) \<le> fst p \<and> fst p \<le> max (uint x1) (uint x2) \<and>
        min (uint y1) (uint y2) \<le> snd p \<and> snd p \<le> max (uint y1) (uint y2)"
      unfolding p fst_conv snd_conv
      using axis_between [OF advance_range [of "\<bar>?dx\<bar>" ?d t, OF abs_ge_zero max.cobounded1 t]]
        axis_between [OF advance_range [of "\<bar>?dy\<bar>" ?d t, OF abs_ge_zero max.cobounded2 t]]
      by blast
  qed
  show "\<forall>k. Suc k < length ?ps \<longrightarrow>
      \<bar>fst (?ps ! Suc k) - fst (?ps ! k)\<bar> \<le> 1 \<and> \<bar>snd (?ps ! Suc k) - snd (?ps ! k)\<bar> \<le> 1"
  proof (intro allI impI)
    fix k assume "Suc k < length ?ps"
    then have k: "?ps ! k = ?f k" "?ps ! Suc k = ?f (Suc k)" unfolding ps by (simp_all del: upt_Suc)
    show "\<bar>fst (?ps ! Suc k) - fst (?ps ! k)\<bar> \<le> 1 \<and> \<bar>snd (?ps ! Suc k) - snd (?ps ! k)\<bar> \<le> 1"
      unfolding k fst_conv snd_conv by (intro conjI axis_steps) (auto simp: sgn_if)
  qed
qed

theorem DrawLine_correct_witness:
  "\<exists>ps. LCD_DrawLine 3 9 10 7 (lcd_zero 0x9341) = Some (draw_points ps (lcd_zero 0x9341)) \<and>
     length ps = 9 \<and> hd ps = (3, 9) \<and> last ps = (10, 7)"
  using DrawLine_correct [of 10 3 7 9 "lcd_zero 0x9341"] by auto

text \<open>
  A line of extent 65534 or more is drawn for ever, because the 16-bit counter never exceeds
  the bound.
\<close>

theorem DrawLine_diverges:
  assumes "65534 \<le> \<bar>uint x2 - uint x1\<bar> \<or> 65534 \<le> \<bar>uint y2 - uint y1\<bar>"
  shows "LCD_DrawLine x1 y1 x2 y2 s = None"
proof (rule ccontr)
  assume "LCD_DrawLine x1 y1 x2 y2 s \<noteq> None"
  then obtain r where r: "LCD_DrawLine x1 y1 x2 y2 s = Some r" by blast
  have "max \<bar>uint x2 - uint x1\<bar> \<bar>uint y2 - uint y1\<bar> < 65534"
    using r unfolding DrawLine_loop Let_def by (rule line_loop_forever)
  then show False using assms by auto
qed

theorem DrawLine_diverges_witness: "LCD_DrawLine 0 0 0xFFFF 5 (lcd_zero 0x9341) = None"
  by (rule DrawLine_diverges) simp

text \<open>
  A circle is drawn as points at offsets \<open>(x, y)\<close> from its centre with
  \<open>r^2 - 3 r <= x^2 + y^2 <= r^2 + r\<close>, and the routine ends for every radius.
\<close>

theorem Draw_Circle_ring:
  "\<exists>ps. LCD_Draw_Circle x0 y0 r s = draw_points (around x0 y0 ps) s \<and> list_all (ring (uint r)) ps"
proof -
  have "circle_inv (uint r) 0 (uint r) (3 - 2 * uint r)" by (simp add: circle_inv_def)
  then show ?thesis unfolding LCD_Draw_Circle_def list_all_iff by (rule circle_loop_ring)
qed

section \<open>Colours\<close>

lemma BGR2RGB_bits: "LCD_BGR2RGB c = push_bit 11 (c AND 0x1F) OR push_bit 5 (drop_bit 5 c AND 0x3F) OR (drop_bit 11 c AND 0x1F)"
proof -
  have m: "(0x1F :: u16) = mask 5" "(0x3F :: u16) = mask 6" by (simp_all add: mask_eq_exp_minus_1)
  have 1: "push_bit 11 (c AND mask 5) AND push_bit 5 (drop_bit 5 c AND mask 6) = 0"
    by (rule bit_word_eqI) (auto simp: bit_simps)
  have 2: "(push_bit 11 (c AND mask 5) OR push_bit 5 (drop_bit 5 c AND mask 6)) AND (drop_bit 11 c AND mask 5) = 0"
    by (rule bit_word_eqI) (auto simp: bit_simps)
  show ?thesis unfolding LCD_BGR2RGB_def Let_def m
    by (simp only: disjunctive_add_eq_or [OF 1] disjunctive_add_eq_or [OF 2] or.assoc)
qed

text \<open>
  Exchanging red and blue of an RGB565 colour twice gives the colour back.
\<close>

theorem BGR2RGB_involution: "LCD_BGR2RGB (LCD_BGR2RGB c) = c"
proof -
  have m: "(0x1F :: u16) = mask 5" "(0x3F :: u16) = mask 6" by (simp_all add: mask_eq_exp_minus_1)
  show ?thesis unfolding BGR2RGB_bits m
  proof (rule bit_word_eqI)
    fix n assume n: "n < LENGTH(16)"
    consider "n < 5" | "5 \<le> n" "n < 11" | "11 \<le> n" by linarith
    then show "bit (push_bit 11 ((push_bit 11 (c AND mask 5) OR push_bit 5 (drop_bit 5 c AND mask 6) OR
          drop_bit 11 c AND mask 5) AND mask 5) OR
        push_bit 5 (drop_bit 5 (push_bit 11 (c AND mask 5) OR push_bit 5 (drop_bit 5 c AND mask 6) OR
          drop_bit 11 c AND mask 5) AND mask 6) OR
        drop_bit 11 (push_bit 11 (c AND mask 5) OR push_bit 5 (drop_bit 5 c AND mask 6) OR
          drop_bit 11 c AND mask 5) AND mask 5) n = bit c n"
      using n by cases (auto simp: bit_simps)
  qed
qed

end
