(* ===== verification/Lcd_Glyph.thy ===== *)
theory Lcd_Glyph
  imports Lcd_Text
begin

text \<open>
  What \<open>LCD_ShowChar\<close> draws.  The reference is a bitmap: column by column, from the top, one point
  per bit of the font table.  The interface \<open>glyph_font\<close> says how one column of a font is drawn by
  the byte loop; the three fonts of the driver are its instances, and the drawing of a whole
  character is derived once.
\<close>

section \<open>Definitions\<close>

definition paint :: "(u16 \<times> u16 \<times> u16) list \<Rightarrow> lcd \<Rightarrow> lcd" where
  "paint ps s = fold (\<lambda>(x, y, c). LCD_Fast_DrawPoint x y c) ps s"

definition glyph_column :: "u8 list \<Rightarrow> nat \<Rightarrow> nat \<Rightarrow> u16 \<Rightarrow> u16 \<Rightarrow> u16 \<Rightarrow> u16 \<Rightarrow> (u16 \<times> u16 \<times> u16) list" where
  "glyph_column row t n x y fg bg =
     map (\<lambda>r. (x, y + of_nat r, if bit (row ! (t + r div 8)) (7 - r mod 8) then fg else bg)) [0..<n]"

text \<open>A whole character: \<open>w\<close> columns of \<open>b\<close> bytes each.\<close>

definition glyph :: "u8 list \<Rightarrow> nat \<Rightarrow> nat \<Rightarrow> nat \<Rightarrow> u16 \<Rightarrow> u16 \<Rightarrow> u16 \<Rightarrow> u16 \<Rightarrow> (u16 \<times> u16 \<times> u16) list" where
  "glyph row b w h x y fg bg =
     concat (map (\<lambda>k. glyph_column row (k * b) h (x + of_nat k) y fg bg) [0..<w])"

locale glyph_font =
  fixes sz :: u8 and b :: nat and tab :: "u8 list list"
  assumes column: "unat c < 95 \<Longrightarrow> t + b \<le> (unat sz div 2) * b \<Longrightarrow>
      unat y + unat sz < unat (height (lcddev s)) \<Longrightarrow>
      char_bytes (b + n) t c sz 0 y x y s =
        (let s' = paint (glyph_column (tab ! unat c) t (unat sz) x y (POINT_COLOR s) (BACK_COLOR s)) s
         in if x + 1 \<ge> width (lcddev s) then Inr s' else char_bytes n (t + b) c sz 0 y (x + 1) y s')"
    and csize: "unat (char_size sz) = (unat sz div 2) * b"

section \<open>Frames\<close>

lemma Fast_DrawPoint_frame [simp]:
  "lcddev (LCD_Fast_DrawPoint x y c s) = lcddev s"
  "POINT_COLOR (LCD_Fast_DrawPoint x y c s) = POINT_COLOR s"
  "BACK_COLOR (LCD_Fast_DrawPoint x y c s) = BACK_COLOR s"
  by (simp_all add: LCD_Fast_DrawPoint_def Let_def emit_def)

lemma paint_frame [simp]:
  "lcddev (paint ps s) = lcddev s" "POINT_COLOR (paint ps s) = POINT_COLOR s"
  "BACK_COLOR (paint ps s) = BACK_COLOR s"
  by (induction ps arbitrary: s) (auto simp: paint_def)

lemma paint_Nil [simp]: "paint [] s = s"
  by (simp add: paint_def)

lemma paint_Cons [simp]: "paint ((x, y, c) # ps) s = paint ps (LCD_Fast_DrawPoint x y c s)"
  by (simp add: paint_def)

lemma paint_append: "paint (ps @ qs) s = paint qs (paint ps s)"
  by (simp add: paint_def)

context glyph_font
begin

lemma columns:
  assumes "unat c < 95" "unat y + unat sz < unat (height (lcddev s))"
    and "unat x + unat sz div 2 \<le> unat (width (lcddev s))" "m \<le> unat sz div 2"
    and "fg = POINT_COLOR s" "bg = BACK_COLOR s"
  shows "char_bytes (m * b) ((unat sz div 2 - m) * b) c sz 0 y (x + of_nat (unat sz div 2 - m)) y s =
     Inr (paint (concat (map (\<lambda>k. glyph_column (tab ! unat c) (k * b) (unat sz) (x + of_nat k) y fg bg)
       [unat sz div 2 - m..<unat sz div 2])) s)"
  using assms
proof (induction m arbitrary: s)
  case (Suc m)
  define w where "w = unat sz div 2"
  define k where "k = w - Suc m"
  have k: "w - m = Suc k" "k < w" "w = k + Suc m" using Suc.prems(4) by (simp_all add: k_def w_def)
  let ?col = "glyph_column (tab ! unat c) (k * b) (unat sz) (x + of_nat k) y fg bg"
  let ?s = "paint ?col s"
  have u: "unat (x + of_nat k + 1) = unat x + k + 1"
  proof -
    have "unat x + k + 1 < 2 ^ LENGTH(16)"
      using Suc.prems(3) k unat_u16_lt [of "width (lcddev s)"] unfolding w_def by simp
    then have "unat (of_nat (unat x + k + 1) :: u16) = unat x + k + 1" by (rule unat_of_nat_small)
    then show ?thesis by (simp add: add.commute)
  qed
  have up: "[k..<w] = k # [Suc k..<w]" using k(2) by (rule upt_conv_Cons)
  have step: "char_bytes (Suc m * b) (k * b) c sz 0 y (x + of_nat k) y s =
      (if x + of_nat k + 1 \<ge> width (lcddev s) then Inr ?s
       else char_bytes (m * b) (Suc k * b) c sz 0 y (x + of_nat (Suc k)) y ?s)"
    using column [of c "k * b" y s "m * b" "x + of_nat k"] Suc.prems(1,2,5,6) k
    by (simp add: Let_def w_def add.commute add.left_commute distrib_right [symmetric])
  show ?case
  proof (cases "width (lcddev s) \<le> x + of_nat k + 1")
    case True
    then have "m = 0" using Suc.prems(3) u k by (simp add: word_le_nat_alt w_def)
    then show ?thesis using step True up unfolding w_def [symmetric] k_def [symmetric] by (simp add: k(3))
  next
    case False
    have "char_bytes (m * b) (Suc k * b) c sz 0 y (x + of_nat (Suc k)) y ?s =
       Inr (paint (concat (map (\<lambda>k. glyph_column (tab ! unat c) (k * b) (unat sz) (x + of_nat k) y fg bg)
       [Suc k..<w])) ?s)"
      using Suc.IH [of ?s] Suc.prems k unfolding w_def [symmetric] k(1) by simp
    then show ?thesis using step False
      unfolding w_def [symmetric] k_def [symmetric] up list.map concat.simps paint_append by simp
  qed
qed simp

lemma character:
  assumes "0x20 \<le> c" "c \<le> 0x7E" "unat y + unat sz < unat (height (lcddev s))"
    and "unat x + unat sz div 2 \<le> unat (width (lcddev s))"
  shows "LCD_ShowChar x y c sz 0 s =
     Inr (paint (glyph (tab ! (unat c - 32)) b (unat sz div 2) (unat sz) x y (POINT_COLOR s) (BACK_COLOR s)) s)"
proof -
  have u: "unat (c - 0x20) = unat c - 32" using assms(1) by (subst unat_sub) simp_all
  have "unat (c - 0x20) < 95" using assms(2) unfolding u by (simp add: word_le_nat_alt)
  from columns [OF this assms(3,4), of "unat sz div 2"] show ?thesis
    unfolding LCD_ShowChar_def csize glyph_def u by simp
qed

end

section \<open>The bit loop\<close>

definition pen :: "lcd \<Rightarrow> bool \<Rightarrow> u16" where
  "pen s on = (if on then POINT_COLOR s else BACK_COLOR s)"

lemma char_point_pen: "char_point 0 temp x y s = LCD_Fast_DrawPoint x y (pen s (bit temp 7)) s"
proof -
  have "temp AND 0x80 \<noteq> 0 \<longleftrightarrow> bit temp 7"
    using and_exp_eq_0_iff_not_bit [of temp 7] by simp
  then show ?thesis by (simp add: char_point_def pen_def)
qed

text \<open>
  A byte of a column: the break to the next column at the bottom of the cell, or the early return
  when the bottom of the cell is the edge of the screen.
\<close>

lemma char_bits_cell:
  assumes "unat y + unat sz \<le> unat (height (lcddev s))" "unat y + unat sz < 65536" "k < unat sz" "n \<le> 8"
  shows "char_bits n sz 0 y temp x (y + of_nat k) s =
    (let s' = paint (map (\<lambda>j. (x, y + of_nat (k + j), pen s (bit temp (7 - j)))) [0..<min n (unat sz - k)]) s
     in if k + n < unat sz then (False, x, y + of_nat (k + n), s')
        else if unat y + unat sz = unat (height (lcddev s)) then (True, x, y + of_nat (unat sz), s')
        else (x + 1 \<ge> width (lcddev s), x + 1, y, s'))"
  using assms
proof (induction n arbitrary: k temp s)
  case (Suc n)
  have lt: "unat y + Suc k < 2 ^ LENGTH(16)"
    using Suc.prems(2,3) by simp
  have u: "unat (y + of_nat k + 1) = unat y + Suc k"
    using unat_of_nat_small [OF lt] by (simp add: algebra_simps)
  have h: "height (lcddev s) \<le> y + of_nat k + 1 \<longleftrightarrow> Suc k = unat sz \<and> unat y + unat sz = unat (height (lcddev s))"
    unfolding word_le_nat_alt u using Suc.prems(1,3) by linarith
  have e: "(uint (y + of_nat k + 1) - uint y = uint sz) \<longleftrightarrow> Suc k = unat sz"
    unfolding uint_nat u by linarith
  let ?s1 = "LCD_Fast_DrawPoint x (y + of_nat k) (pen s (bit temp 7)) s"
  define temp' where "temp' = push_bit 1 temp"
  have sh: "bit temp' (7 - j) = bit temp (6 - j)" if "j < 7" for j
    using that unfolding temp'_def by (simp only: bit_push_bit_iff) auto
  have l: "map (\<lambda>j. (x, y + of_nat (k + j), pen s (bit temp (7 - j)))) [0..<Suc m] =
      (x, y + of_nat k, pen s (bit temp 7)) #
      map (\<lambda>j. (x, y + of_nat (Suc k + j), pen s (bit (temp') (7 - j)))) [0..<m]" if "m \<le> n" for m
    unfolding upt_conv_Cons [OF zero_less_Suc] map_Suc_upt [symmetric]
    using Suc.prems(4) that by (auto simp: sh)
  have p: "pen ?s1 = pen s" by (rule ext) (simp add: pen_def)
  show ?case
  proof (cases "Suc k = unat sz")
    case True
    then have "unat sz - k = Suc 0" by simp
    moreover have "y + of_nat k + 1 = y + of_nat (unat sz)"
      unfolding True [symmetric] by (simp add: algebra_simps)
    ultimately show ?thesis using True h e by (simp add: char_point_pen Let_def del: of_nat_unat)
  next
    case False
    have mn: "min (Suc n) (unat sz - k) = Suc (min n (unat sz - Suc k))" using Suc.prems(3) by simp
    have "char_bits (Suc n) sz 0 y temp x (y + of_nat k) s =
        char_bits n sz 0 y (temp') x (y + of_nat (Suc k)) ?s1"
      using h e False by (simp add: char_point_pen Let_def add.assoc add.commute add.left_commute temp'_def)
    also have "\<dots> = (let s' = paint (map (\<lambda>j. (x, y + of_nat (Suc k + j), pen s (bit (temp') (7 - j)))) [0..<min n (unat sz - Suc k)]) ?s1
     in if Suc k + n < unat sz then (False, x, y + of_nat (Suc k + n), s')
        else if unat y + unat sz = unat (height (lcddev s)) then (True, x, y + of_nat (unat sz), s')
        else (x + 1 \<ge> width (lcddev s), x + 1, y, s'))"
      using Suc.IH [of ?s1 "Suc k" "temp'"] Suc.prems False unfolding p by (simp add: Let_def)
    finally show ?thesis using l [of "min n (unat sz - Suc k)"] unfolding mn by (simp add: Let_def)
  qed
qed simp

lemma char_bits_run:
  assumes "unat y + unat sz < unat (height (lcddev s))" "k < unat sz" "n \<le> 8"
  shows "char_bits n sz 0 y temp x (y + of_nat k) s =
    (let s' = paint (map (\<lambda>j. (x, y + of_nat (k + j), pen s (bit temp (7 - j)))) [0..<min n (unat sz - k)]) s
     in if k + n < unat sz then (False, x, y + of_nat (k + n), s')
        else (x + 1 \<ge> width (lcddev s), x + 1, y, s'))"
  using char_bits_cell [of y sz s k n temp x] assms unat_u16_lt [of "height (lcddev s)"] by (simp add: Let_def)

section \<open>The three fonts\<close>

lemma asc2_rows:
  assumes "i < 95"
  shows "length (asc2_1206 ! i) = 12" "length (asc2_1608 ! i) = 16" "length (asc2_2412 ! i) = 36"
  using assms asc2_1206_shape asc2_1608_shape asc2_2412_shape by (simp_all add: list_all_length)

lemma font_byte_ok:
  assumes "unat c < 95"
  shows "t < 12 \<Longrightarrow> font_byte 12 c t = Inr (Some (asc2_1206 ! unat c ! t))"
    "t < 16 \<Longrightarrow> font_byte 16 c t = Inr (Some (asc2_1608 ! unat c ! t))"
    "t < 36 \<Longrightarrow> font_byte 24 c t = Inr (Some (asc2_2412 ! unat c ! t))"
  using assms asc2_rows [OF assms] asc2_1206_shape asc2_1608_shape asc2_2412_shape
  by (simp_all add: font_byte_def table_at_def)

lemma pen_paint [simp]: "pen (paint ps s) = pen s"
  by (rule ext) (simp add: pen_def)

lemma column_12:
  "glyph_column row t 12 x y (POINT_COLOR s) (BACK_COLOR s) =
     map (\<lambda>j. (x, y + of_nat (0 + j), pen s (bit (row ! t) (7 - j)))) [0..<8] @
     map (\<lambda>j. (x, y + of_nat (8 + j), pen s (bit (row ! Suc t) (7 - j)))) [0..<4]"
  by (simp add: glyph_column_def pen_def upt_rec)

lemma column_16:
  "glyph_column row t 16 x y (POINT_COLOR s) (BACK_COLOR s) =
     map (\<lambda>j. (x, y + of_nat (0 + j), pen s (bit (row ! t) (7 - j)))) [0..<8] @
     map (\<lambda>j. (x, y + of_nat (8 + j), pen s (bit (row ! Suc t) (7 - j)))) [0..<8]"
  by (simp add: glyph_column_def pen_def upt_rec)

lemma column_24:
  "glyph_column row t 24 x y (POINT_COLOR s) (BACK_COLOR s) =
     map (\<lambda>j. (x, y + of_nat (0 + j), pen s (bit (row ! t) (7 - j)))) [0..<8] @
     map (\<lambda>j. (x, y + of_nat (8 + j), pen s (bit (row ! Suc t) (7 - j)))) [0..<8] @
     map (\<lambda>j. (x, y + of_nat (16 + j), pen s (bit (row ! Suc (Suc t)) (7 - j)))) [0..<8]"
  by (simp add: glyph_column_def pen_def upt_rec)

interpretation font12: glyph_font 12 2 asc2_1206
proof
  fix c :: u8 and t n :: nat and y x :: u16 and s :: lcd
  assume c: "unat c < 95" and t: "t + 2 \<le> unat (12 :: u8) div 2 * 2"
    and h: "unat y + unat (12 :: u8) < unat (height (lcddev s))"
  have f: "font_byte 12 c t = Inr (Some (asc2_1206 ! unat c ! t))"
    "font_byte 12 c (Suc t) = Inr (Some (asc2_1206 ! unat c ! Suc t))"
    using t by (simp_all add: font_byte_ok [OF c])
  note r = char_bits_run [of y 12 s 0 8 "asc2_1206 ! unat c ! t" x]
    char_bits_run [of y 12 "paint ps s" 8 8 "asc2_1206 ! unat c ! Suc t" x for ps]
  show "char_bytes (2 + n) t c 12 0 y x y s =
        (let s' = paint (glyph_column (asc2_1206 ! unat c) t (unat (12 :: u8)) x y (POINT_COLOR s) (BACK_COLOR s)) s
         in if width (lcddev s) \<le> x + 1 then Inr s' else char_bytes n (t + 2) c 12 0 y (x + 1) y s')"
    using r h by (simp add: f column_12 Let_def paint_append del: upt.simps)
qed (simp add: char_size_def)

interpretation font16: glyph_font 16 2 asc2_1608
proof
  fix c :: u8 and t n :: nat and y x :: u16 and s :: lcd
  assume c: "unat c < 95" and t: "t + 2 \<le> unat (16 :: u8) div 2 * 2"
    and h: "unat y + unat (16 :: u8) < unat (height (lcddev s))"
  have f: "font_byte 16 c t = Inr (Some (asc2_1608 ! unat c ! t))"
    "font_byte 16 c (Suc t) = Inr (Some (asc2_1608 ! unat c ! Suc t))"
    using t by (simp_all add: font_byte_ok [OF c])
  note r = char_bits_run [of y 16 s 0 8 "asc2_1608 ! unat c ! t" x]
    char_bits_run [of y 16 "paint ps s" 8 8 "asc2_1608 ! unat c ! Suc t" x for ps]
  show "char_bytes (2 + n) t c 16 0 y x y s =
        (let s' = paint (glyph_column (asc2_1608 ! unat c) t (unat (16 :: u8)) x y (POINT_COLOR s) (BACK_COLOR s)) s
         in if width (lcddev s) \<le> x + 1 then Inr s' else char_bytes n (t + 2) c 16 0 y (x + 1) y s')"
    using r h by (simp add: f column_16 Let_def paint_append del: upt.simps)
qed (simp add: char_size_def)

interpretation font24: glyph_font 24 3 asc2_2412
proof
  fix c :: u8 and t n :: nat and y x :: u16 and s :: lcd
  assume c: "unat c < 95" and t: "t + 3 \<le> unat (24 :: u8) div 2 * 3"
    and h: "unat y + unat (24 :: u8) < unat (height (lcddev s))"
  have f: "font_byte 24 c t = Inr (Some (asc2_2412 ! unat c ! t))"
    "font_byte 24 c (Suc t) = Inr (Some (asc2_2412 ! unat c ! Suc t))"
    "font_byte 24 c (Suc (Suc t)) = Inr (Some (asc2_2412 ! unat c ! Suc (Suc t)))"
    using t by (simp_all add: font_byte_ok [OF c])
  note r = char_bits_run [of y 24 s 0 8 "asc2_2412 ! unat c ! t" x]
    char_bits_run [of y 24 "paint ps s" 8 8 "asc2_2412 ! unat c ! Suc t" x for ps]
    char_bits_run [of y 24 "paint ps (paint qs s)" 16 8 "asc2_2412 ! unat c ! Suc (Suc t)" x for ps qs]
  have n3: "3 + n = Suc (Suc (Suc n))" "t + 3 = Suc (Suc (Suc t))" by simp_all
  show "char_bytes (3 + n) t c 24 0 y x y s =
        (let s' = paint (glyph_column (asc2_2412 ! unat c) t (unat (24 :: u8)) x y (POINT_COLOR s) (BACK_COLOR s)) s
         in if width (lcddev s) \<le> x + 1 then Inr s' else char_bytes n (t + 3) c 24 0 y (x + 1) y s')"
    using r h unfolding n3 by (simp add: f column_24 Let_def paint_append del: upt.simps)
qed (simp add: char_size_def)

end
