(* ===== verification/Lcd_Text_Props.thy ===== *)
theory Lcd_Text_Props
  imports Lcd_Glyph Lcd_Draw
begin

text \<open>
  The properties of the text output: a character is its bitmap, points stay on the screen, a
  number is its decimal notation, and a string is the sequence of its characters.
\<close>

section \<open>Definitions\<close>

definition on_screen :: "lcd \<Rightarrow> u16 \<times> u16 \<times> u16 \<Rightarrow> bool" where
  "on_screen s p \<longleftrightarrow> fst p < width (lcddev s) \<and> fst (snd p) < height (lcddev s)"

text \<open>A character string that a text routine shows, one character every \<open>sz div 2\<close> columns.\<close>

fun show_chars :: "u16 \<Rightarrow> u16 \<Rightarrow> u8 \<Rightarrow> u8 \<Rightarrow> mem \<Rightarrow> lcd \<Rightarrow> lcd res" where
  "show_chars x y sz mode [] s = Inr s"
| "show_chars x y sz mode (c # cs) s =
     and_then (LCD_ShowChar x y c sz mode s) (\<lambda>s1. show_chars (x + ucast (sz div 2)) y sz mode cs s1)"

text \<open>
  The characters of a number field: leading zeros, but not the last digit, are replaced by
  \<open>blank\<close>.
\<close>

fun num_chars :: "nat \<Rightarrow> bool \<Rightarrow> u8 \<Rightarrow> nat \<Rightarrow> mem" where
  "num_chars 0 en blank v = []"
| "num_chars (Suc n) en blank v =
     (let d = v div 10 ^ n mod 10
      in if \<not> en \<and> n \<noteq> 0 \<and> d = 0 then blank # num_chars n en blank v
         else of_nat (d + 48) # num_chars n (en \<or> n \<noteq> 0) blank v)"

text \<open>The last \<open>n\<close> decimal digits of a number.\<close>

definition fixed_digits :: "nat \<Rightarrow> nat \<Rightarrow> mem" where
  "fixed_digits n v = map (\<lambda>i. of_nat (v div 10 ^ i mod 10 + 48)) (rev [0..<n])"

text \<open>The characters a string routine accepts.\<close>

definition printable :: "u8 \<Rightarrow> bool" where
  "printable c \<longleftrightarrow> 0x20 \<le> c \<and> c \<le> 0x7E"

text \<open>A display of the given size, for examples.\<close>

definition screen :: "u16 \<Rightarrow> u16 \<Rightarrow> lcd" where
  "screen w h = \<lparr>lcddev = \<lparr>width = w, height = h, lcd_id = 0x9341, dir = 0, wramcmd = 0x2C, setxcmd = 0x2A, setycmd = 0x2B\<rparr>,
     POINT_COLOR = 0, BACK_COLOR = 0xFFFF, bwtr = 0, bus = []\<rparr>"

section \<open>Characters\<close>

text \<open>
  C29: in each of the three sizes, a printable character whose cell lies on the screen and above
  its last row is drawn as its bitmap: every point of the cell once, in the pen colour where the
  font has a set bit and in the background colour elsewhere.
\<close>

theorem ShowChar_renders:
  assumes "(sz, b, tab) \<in> {(12, 2, asc2_1206), (16, 2, asc2_1608), (24, 3, asc2_2412)}"
    and "0x20 \<le> c" "c \<le> 0x7E"
    and "unat y + unat sz < unat (height (lcddev s))" "unat x + unat sz div 2 \<le> unat (width (lcddev s))"
  shows "LCD_ShowChar x y c sz 0 s =
     Inr (paint (glyph (tab ! (unat c - 32)) b (unat sz div 2) (unat sz) x y (POINT_COLOR s) (BACK_COLOR s)) s)"
  using assms(1) font12.character [OF assms(2,3), of y s x] font16.character [OF assms(2,3), of y s x]
    font24.character [OF assms(2,3), of y s x] assms(4,5)
  by auto

theorem ShowChar_renders_witness:
  "LCD_ShowChar 10 20 0x41 16 0 (screen 320 240) =
     Inr (paint (glyph (asc2_1608 ! 33) 2 8 16 10 20 0 0xFFFF) (screen 320 240))"
  using ShowChar_renders [of 16 2 asc2_1608 "0x41" 20 "screen 320 240" 10] by (simp add: screen_def)

lemma char_bits_screen:
  assumes "char_bits n sz mode y0 temp x y s = (ret, x', y', s')"
    and "x < width (lcddev s)" "y < height (lcddev s)" "y0 < height (lcddev s)"
  shows "\<exists>ps. s' = paint ps s \<and> list_all (on_screen s) ps \<and>
    (\<not> ret \<longrightarrow> x' < width (lcddev s) \<and> y' < height (lcddev s))"
  using assms
proof (induction n arbitrary: temp y s)
  case (Suc n)
  obtain p where p: "char_point mode temp x y s = paint p s" "list_all (on_screen s) p"
  proof -
    have "char_point mode temp x y s = paint [(x, y, POINT_COLOR s)] s \<or>
      char_point mode temp x y s = paint [(x, y, BACK_COLOR s)] s \<or> char_point mode temp x y s = paint [] s"
      by (simp add: char_point_def)
    moreover have "list_all (on_screen s) [(x, y, c)]" for c using Suc.prems by (simp add: on_screen_def)
    moreover have "list_all (on_screen s) []" by simp
    ultimately show thesis using that by blast
  qed
  show ?case
  proof (cases "y + 1 \<ge> height (lcddev s) \<or> uint (y + 1) - uint y0 = uint sz")
    case True
    then show ?thesis using Suc.prems p by (auto simp: Let_def split: if_splits intro!: exI [of _ p])
  next
    case False
    then have "char_bits n sz mode y0 (push_bit 1 temp) x (y + 1) (paint p s) = (ret, x', y', s')"
      using Suc.prems(1) by (simp only: char_bits.simps Let_def p(1) paint_frame if_False de_Morgan_disj)
    moreover have "y + 1 < height (lcddev s)" using False by (simp add: not_le)
    ultimately obtain ps where
      "s' = paint ps (paint p s)" "list_all (on_screen (paint p s)) ps"
      "\<not> ret \<longrightarrow> x' < width (lcddev s) \<and> y' < height (lcddev s)"
      using Suc.IH [of "push_bit 1 temp" "y + 1" "paint p s"] Suc.prems(2,4) by auto
    then show ?thesis using p(2)
      by (intro exI [of _ "p @ ps"]) (auto simp: paint_append on_screen_def list_all_iff)
  qed
qed (auto intro!: exI [of _ "[]"])

lemma char_bytes_screen:
  assumes "char_bytes n t c sz mode y0 x y s = Inr s'"
    and "x < width (lcddev s)" "y < height (lcddev s)" "y0 < height (lcddev s)"
  shows "\<exists>ps. s' = paint ps s \<and> list_all (on_screen s) ps"
  using assms
proof (induction n arbitrary: t x y s)
  case (Suc n)
  from Suc.prems(1) obtain r where r: "font_byte sz c t = Inr r" by auto
  show ?case
  proof (cases r)
    case None
    then show ?thesis using Suc.prems r by (auto intro!: exI [of _ "[]"])
  next
    case (Some temp)
    obtain ret x1 y1 s1 where b: "char_bits 8 sz mode y0 temp x y s = (ret, x1, y1, s1)"
      by (cases "char_bits 8 sz mode y0 temp x y s")
    from char_bits_screen [OF b Suc.prems(2-4)] obtain ps where
      ps: "s1 = paint ps s" "list_all (on_screen s) ps"
        "\<not> ret \<longrightarrow> x1 < width (lcddev s) \<and> y1 < height (lcddev s)" by blast
    show ?thesis
    proof (cases ret)
      case True
      then show ?thesis using Suc.prems(1) r Some b ps by auto
    next
      case False
      then have "char_bytes n (Suc t) c sz mode y0 x1 y1 s1 = Inr s'" using Suc.prems(1) r Some b by simp
      from Suc.IH [OF this] False ps Suc.prems(4) obtain qs where
        "s' = paint qs s1" "list_all (on_screen s1) qs" by auto
      then show ?thesis using ps(1,2)
        by (intro exI [of _ "ps @ qs"]) (auto simp: paint_append on_screen_def list_all_iff)
    qed
  qed
qed (auto intro!: exI [of _ "[]"])

text \<open>
  Whatever the character, the size and the mode, a character started on the screen only
  changes points of the screen.
\<close>

theorem ShowChar_on_screen:
  assumes "LCD_ShowChar x y c sz mode s = Inr s'" "x < width (lcddev s)" "y < height (lcddev s)"
  shows "\<exists>ps. s' = paint ps s \<and> list_all (on_screen s) ps"
  using char_bytes_screen [OF assms(1) [unfolded LCD_ShowChar_def] assms(2,3,3)] .

theorem ShowChar_on_screen_witness:
  "\<exists>s' ps. LCD_ShowChar 312 20 0x41 16 0 (screen 320 240) = Inr s' \<and> s' = paint ps (screen 320 240) \<and>
     list_all (on_screen (screen 320 240)) ps"
proof -
  obtain s' where r: "LCD_ShowChar 312 20 0x41 16 0 (screen 320 240) = Inr s'"
    using font16.character [of "0x41" 20 "screen 320 240" 312] by (simp add: screen_def)
  have "312 < width (lcddev (screen 320 240))" "20 < height (lcddev (screen 320 240))"
    by (simp_all add: screen_def)
  with ShowChar_on_screen [OF r] r show ?thesis by blast
qed

section \<open>The bottom edge\<close>

text \<open>
  A character of size 16 whose cell ends exactly at the bottom of the screen is cut off after
  its first column.
\<close>

theorem ShowChar_bottom_cut:
  assumes "0x20 \<le> c" "c \<le> 0x7E" "unat y + 16 = unat (height (lcddev s))"
  shows "LCD_ShowChar x y c 16 0 s =
     Inr (paint (glyph_column (asc2_1608 ! (unat c - 32)) 0 16 x y (POINT_COLOR s) (BACK_COLOR s)) s)"
proof -
  have u: "unat (c - 0x20) = unat c - 32" using assms(1) by (subst unat_sub) simp_all
  have c: "unat (c - 0x20) < 95" using assms(2) unfolding u by (simp add: word_le_nat_alt)
  have f: "font_byte 16 (c - 0x20) 0 = Inr (Some (asc2_1608 ! (unat c - 32) ! 0))"
    "font_byte 16 (c - 0x20) (Suc 0) = Inr (Some (asc2_1608 ! (unat c - 32) ! Suc 0))"
    using font_byte_ok(2) [OF c, of 0] font_byte_ok(2) [OF c, of "Suc 0"] unfolding u by simp_all
  have y: "unat y + 16 < 65536" using assms(3) unat_u16_lt [of "height (lcddev s)"] by simp
  note r = char_bits_cell [of y 16 s 0 8 "asc2_1608 ! (unat c - 32) ! 0" x]
    char_bits_cell [of y 16 "paint ps s" 8 8 "asc2_1608 ! (unat c - 32) ! Suc 0" x for ps]
  obtain m where n: "unat (char_size 16) = Suc (Suc m)"
    by (rule that [of 14]) (simp add: char_size_def)
  show ?thesis
    unfolding LCD_ShowChar_def n
    using r assms(3) y by (simp add: f column_16 Let_def paint_append del: upt.simps)
qed

theorem ShowChar_bottom_cut_witness:
  "LCD_ShowChar 0 224 0x41 16 0 (screen 320 240) =
     Inr (paint (glyph_column (asc2_1608 ! 33) 0 16 0 224 0 0xFFFF) (screen 320 240))"
  using ShowChar_bottom_cut [of "0x41" 224 "screen 320 240" 0] by (simp add: screen_def)

section \<open>Numbers\<close>

lemma unat_LCD_Pow_10: "k \<le> 9 \<Longrightarrow> unat (LCD_Pow 10 (of_nat k)) = 10 ^ k"
proof -
  assume k: "k \<le> 9"
  have "lcd_pow_loop n m r = r * ucast m ^ n" for n m r
    by (induction n arbitrary: r) (auto simp: mult.assoc)
  moreover have "unat (of_nat k :: u8) = k" using k by (intro unat_of_nat_small) simp
  ultimately have p: "LCD_Pow 10 (of_nat k) = of_nat (10 ^ k)" by (simp add: LCD_Pow_def)
  have "(10::nat) ^ k \<le> 10 ^ 9" using k by (intro power_increasing) auto
  then have "(10::nat) ^ k < 2 ^ LENGTH(32)" by simp
  then show ?thesis unfolding p by (rule unat_of_nat_small)
qed

lemma digit_char:
  assumes "unat p = 10 ^ n"
  shows "(ucast ((v div p) mod 10) :: u8) + 0x30 = of_nat (unat (v :: u32) div 10 ^ n mod 10 + 48)"
    "(ucast ((v div p) mod 10) :: u8) = 0 \<longleftrightarrow> unat v div 10 ^ n mod 10 = 0"
proof -
  let ?d = "unat v div 10 ^ n mod 10"
  have u: "unat ((v div p) mod 10) = ?d" by (simp add: unat_mod unat_div assms)
  have c: "(ucast ((v div p) mod 10) :: u8) = of_nat ?d" unfolding u [symmetric] by simp
  show "(ucast ((v div p) mod 10) :: u8) + 0x30 = of_nat (?d + 48)" unfolding c by simp
  have "unat (of_nat ?d :: u8) = ?d" by (intro unat_of_nat_small) (simp add: less_trans [OF mod_less_divisor])
  then show "(ucast ((v div p) mod 10) :: u8) = 0 \<longleftrightarrow> ?d = 0"
    unfolding c using unat_eq_zero [of "of_nat ?d :: u8"] by simp
qed

lemma show_digits_chars:
  "n \<le> unat len \<Longrightarrow> n \<le> 10 \<Longrightarrow>
   show_digits n len en blank mode x y v sz s =
     show_chars (x + ucast (sz div 2) * ucast (len - of_nat n)) y sz mode (num_chars n en blank (unat v)) s"
proof (induction n arbitrary: en s)
  case (Suc n)
  define t where "t = len - of_nat (Suc n)"
  have e: "len - t - 1 = of_nat n" "len - of_nat n = t + 1" by (simp_all add: t_def)
  have p: "unat (LCD_Pow 10 (of_nat n)) = 10 ^ n" using Suc.prems(2) by (intro unat_LCD_Pow_10) simp
  then have nz: "LCD_Pow 10 (of_nat n) \<noteq> 0" by (metis power_eq_0_iff unat_0 zero_neq_numeral)
  have ut: "unat t = unat len - Suc n"
  proof -
    have l: "unat (of_nat (Suc n) :: u8) = Suc n" using Suc.prems(2) by (intro unat_of_nat_small) simp
    then have "of_nat (Suc n) \<le> len" using Suc.prems(1) by (simp add: word_le_nat_alt del: of_nat_Suc)
    then show ?thesis unfolding t_def by (subst unat_sub) (simp_all only: l)
  qed
  have t1: "(ucast (t + 1) :: u16) = ucast t + 1"
  proof -
    have "t + 1 \<noteq> 0"
    proof
      assume "t + 1 = 0"
      then have "t = 0xFF" by (simp add: eq_neg_iff_add_eq_0 [symmetric])
      then have "unat t = 255" by simp
      then show False using ut unat_u8_lt [of len] Suc.prems(1) by simp
    qed
    then have "unat (t + 1) = Suc (unat t)" by (rule unat_Suc_word)
    then have "(of_nat (unat (t + 1)) :: u16) = of_nat (unat t) + 1" by simp
    then show ?thesis by simp
  qed
  have x: "x + ucast (sz div 2) * ucast (len - of_nat n) = x + ucast (sz div 2) * ucast t + (ucast (sz div 2) :: u16)"
    unfolding e(2) t1 by (simp add: algebra_simps)
  have IH: "show_digits n len en' blank mode x y v sz s' = show_chars (x + ucast (sz div 2) * ucast t + ucast (sz div 2)) y sz mode
      (num_chars n en' blank (unat v)) s'" for en' s'
    unfolding x [symmetric] using Suc.prems by (intro Suc.IH) auto
  have IH': "show_digits n len en' blank mode x y v sz = show_chars (x + ucast (sz div 2) * ucast t + ucast (sz div 2)) y sz mode
      (num_chars n en' blank (unat v))" for en' by (rule ext) (rule IH)
  show ?case
    unfolding show_digits.simps num_chars.simps Let_def t_def [symmetric] e(1) digit_char [OF p]
      IH' using nz by (simp del: of_nat_add num_chars.simps)
qed simp

lemma num_chars_shown: "num_chars n True blank v = fixed_digits n v"
  by (induction n) (simp_all add: fixed_digits_def Let_def)

lemma fixed_digits_snoc: "fixed_digits (Suc n) v = fixed_digits n (v div 10) @ [of_nat (v mod 10 + 48)]"
proof -
  have "[0..<Suc n] = 0 # map Suc [0..<n]" by (simp add: upt_conv_Cons map_Suc_upt del: upt_Suc)
  then show ?thesis
    by (simp only: fixed_digits_def rev.simps map_append rev_map map_map) (simp add: comp_def div_mult2_eq)
qed

lemma dec_digits_fixed: "10 ^ n \<le> v \<or> n = 0 \<Longrightarrow> v < 10 ^ Suc n \<Longrightarrow> dec_digits v = fixed_digits (Suc n) v"
proof (induction n arbitrary: v)
  case 0
  then show ?case by (subst dec_digits.simps) (simp add: fixed_digits_def)
next
  case (Suc n)
  have "10 ^ n \<le> v div 10" "v div 10 < 10 ^ Suc n"
    using Suc.prems by (simp_all add: less_eq_div_iff_mult_less_eq div_less_iff_less_mult mult.commute)
  from Suc.IH [OF _ this(2)] this(1) have "dec_digits (v div 10) = fixed_digits (Suc n) (v div 10)" by blast
  moreover have "\<not> v < 10"
  proof -
    have "(10::nat) \<le> 10 ^ Suc n" by simp
    also have "\<dots> \<le> v" using Suc.prems(1) by blast
    finally show ?thesis by simp
  qed
  ultimately show ?case by (subst dec_digits.simps) (simp add: fixed_digits_snoc [of "Suc n"])
qed

lemma num_chars_pad:
  "v < 10 ^ Suc n \<Longrightarrow> num_chars (Suc n) False blank v = replicate (Suc n - length (dec_digits v)) blank @ dec_digits v
     \<and> length (dec_digits v) \<le> Suc n"
proof (induction n)
  case 0
  then show ?case by (simp add: dec_digits.simps)
next
  case (Suc n)
  show ?case
  proof (cases "v < 10 ^ Suc n")
    case True
    then have "v div 10 ^ Suc n mod 10 = 0" by simp
    then have "num_chars (Suc (Suc n)) False blank v = blank # num_chars (Suc n) False blank v"
      by (subst num_chars.simps) (simp only: Let_def, simp)
    then show ?thesis using Suc.IH [OF True] by (simp add: Suc_diff_le)
  next
    case False
    then have d: "v div 10 ^ Suc n mod 10 \<noteq> 0"
      using Suc.prems by (simp add: div_less_iff_less_mult mult.commute div_greater_zero_iff not_less)
    then have "num_chars (Suc (Suc n)) False blank v = of_nat (v div 10 ^ Suc n mod 10 + 48) # fixed_digits (Suc n) v"
      unfolding num_chars_shown [of _ blank, symmetric]
      by (subst num_chars.simps) (simp only: Let_def, simp)
    also have "\<dots> = fixed_digits (Suc (Suc n)) v" by (simp add: fixed_digits_def)
    also have "\<dots> = dec_digits v" using dec_digits_fixed [of "Suc n" v] False Suc.prems by simp
    finally have "num_chars (Suc (Suc n)) False blank v = dec_digits v" .
    moreover have "length (dec_digits v) = Suc (Suc n)"
      using dec_digits_fixed [of "Suc n" v] False Suc.prems by (simp add: fixed_digits_def)
    ultimately show ?thesis by simp
  qed
qed

text \<open>
  A number that fits its field is shown as its decimal notation, right-aligned in blanks;
  \<open>LCD_ShowxNum\<close> shows the same field with zeros when bit 7 of its mode is set.
\<close>

theorem ShowNum_decimal:
  assumes "1 \<le> unat len" "unat len \<le> 10" "unat v < 10 ^ unat len"
  shows "LCD_ShowNum x y v len sz s = show_chars x y sz 0 (pad_left (unat len) (dec_digits (unat v))) s \<and>
    LCD_ShowxNum x y v len sz mode s = show_chars x y sz (mode AND 1)
      (replicate (unat len - length (dec_digits (unat v))) (if mode AND 0x80 \<noteq> 0 then 0x30 else 0x20)
        @ dec_digits (unat v)) s"
proof -
  obtain n where n: "unat len = Suc n" using assms(1) by (cases "unat len") auto
  have l: "len - of_nat (unat len) = 0" by simp
  have "num_chars (unat len) False b (unat v) =
      replicate (unat len - length (dec_digits (unat v))) b @ dec_digits (unat v)" for b
    using num_chars_pad [of "unat v" n b] assms(3) unfolding n by blast
  then show ?thesis
    unfolding LCD_ShowNum_def LCD_ShowxNum_def show_digits_chars [OF order_refl assms(2)] l
    by (simp add: pad_left_def)
qed

theorem ShowNum_decimal_witness:
  "LCD_ShowNum 8 8 305 5 16 (screen 320 240) =
     show_chars 8 8 16 0 (pad_left 5 (dec_digits 305)) (screen 320 240)"
  using ShowNum_decimal [of 5 305 8 8 16 "screen 320 240"] by simp

section \<open>Strings\<close>

lemma char_size_fonts: "unat (char_size 12) = 12" "unat (char_size 16) = 16" "unat (char_size 24) = 36"
  by (simp_all add: char_size_def)

lemma font_byte_returns:
  assumes "unat c < 95" "t < unat (char_size sz)"
  shows "\<exists>r. font_byte sz c t = Inr r"
proof -
  consider "sz = 12" | "sz = 16" | "sz = 24" | "sz \<noteq> 12" "sz \<noteq> 16" "sz \<noteq> 24" by blast
  then show ?thesis
    by cases (use assms font_byte_ok [OF assms(1), of t] in \<open>auto simp: char_size_fonts\<close>, simp add: font_byte_def)
qed

lemma char_bytes_returns:
  "unat c < 95 \<Longrightarrow> t + n \<le> unat (char_size sz) \<Longrightarrow> \<exists>s'. char_bytes n t c sz mode y0 x y s = Inr s'"
proof (induction n arbitrary: t x y s)
  case (Suc n)
  obtain r where r: "font_byte sz c t = Inr r" using font_byte_returns [of c t sz] Suc.prems by auto
  show ?case
  proof (cases r)
    case (Some temp)
    obtain ret x1 y1 s1 where "char_bits 8 sz mode y0 temp x y s = (ret, x1, y1, s1)"
      by (cases "char_bits 8 sz mode y0 temp x y s")
    then show ?thesis using r Some Suc.IH [of "Suc t" x1 y1 s1] Suc.prems by simp
  qed (use r in simp)
qed simp

lemma ShowChar_returns: "printable c \<Longrightarrow> \<exists>s'. LCD_ShowChar x y c sz mode s = Inr s'"
proof -
  assume p: "printable c"
  then have "unat (c - 0x20) = unat c - 32" unfolding printable_def by (subst unat_sub) simp_all
  then have "unat (c - 0x20) < 95" using p by (auto simp: printable_def word_le_nat_alt)
  then show ?thesis unfolding LCD_ShowChar_def by (rule char_bytes_returns) simp
qed

lemma show_string_returns: "cstring p \<Longrightarrow> \<exists>s'. show_string x0 xe ye sz x y p s = Inr s'"
proof (induction x0 xe ye sz x y p s rule: show_string.induct)
  case (2 x0 xe ye sz x y c p s)
  show ?case
  proof (cases "printable c")
    case True
    then have c: "c \<le> 0x7E \<and> c \<ge> 0x20" by (simp add: printable_def)
    then have "c \<noteq> 0" by auto
    then have p: "cstring p" using "2.prems" by (rule cstring_tl [rotated])
    let ?x = "if x \<ge> xe then ucast x0 else x" and ?y = "if x \<ge> xe then y + ucast sz else y"
    obtain s1 where s1: "LCD_ShowChar ?x ?y c sz 0 s = Inr s1" using ShowChar_returns [OF True] by blast
    have "\<exists>s'. show_string x0 xe ye sz (?x + ucast (sz div 2)) ?y p s1 = Inr s'" if "\<not> ye \<le> ?y"
      using "2.IH" [OF c refl refl that s1 p] .
    then show ?thesis using s1 c by (cases "ye \<le> ?y") (simp_all add: Let_def)
  next
    case False
    then show ?thesis by (auto simp: printable_def)
  qed
qed simp

text \<open>
  A terminated string is shown without a read outside the string or the font tables, whatever
  the place, the area and the size.
\<close>

theorem ShowString_safe:
  assumes "cstring p"
  shows "\<exists>s'. LCD_ShowString x y w h sz p s = Inr s'"
  unfolding LCD_ShowString_def using assms by (rule show_string_returns)

theorem ShowString_safe_witness:
  "\<exists>s'. LCD_ShowString 300 0 20 16 16 (bytes ''ABC'' @ [0]) (screen 320 240) = Inr s'"
  by (rule ShowString_safe) (simp add: cstring_def)

lemma show_string_line:
  "list_all printable bs \<Longrightarrow> \<not> printable e \<Longrightarrow> y < ye \<Longrightarrow>
   bs \<noteq> [] \<longrightarrow> unat x + (length bs - 1) * (unat sz div 2) < unat xe \<Longrightarrow>
   show_string x0 xe ye sz x y (bs @ e # r) s = show_chars x y sz 0 bs s"
proof (induction bs arbitrary: x s)
  case Nil
  then show ?case by (auto simp: printable_def)
next
  case (Cons c cs)
  have c: "c \<le> 0x7E \<and> c \<ge> 0x20" using Cons.prems(1) by (simp add: printable_def)
  have x: "\<not> x \<ge> xe" "\<not> y \<ge> ye" using Cons.prems(3,4) by (simp_all add: word_le_nat_alt word_less_nat_alt)
  have n: "unat (x + ucast (sz div 2)) + (length cs - 1) * (unat sz div 2) < unat xe" if "cs \<noteq> []"
  proof -
    have h: "unat (ucast (sz div 2) :: u16) = unat sz div 2"
      by (simp add: unsigned_ucast_eq unat_div take_bit_nat_eq_self less_le_trans [OF le_less_trans [OF div_le_dividend unat_u8_lt]])
    have "length cs * (unat sz div 2) = unat sz div 2 + (length cs - 1) * (unat sz div 2)"
      using that by (cases cs) auto
    then have lt: "unat x + unat sz div 2 + (length cs - 1) * (unat sz div 2) < unat xe"
      using Cons.prems(4) by simp
    then have "unat x + unat (ucast (sz div 2) :: u16) < 2 ^ LENGTH(16)"
      unfolding h using unat_u16_lt [of xe] by simp
    then have "unat (x + ucast (sz div 2)) = unat x + unat sz div 2"
      using unat_add_lem [of x "ucast (sz div 2)"] h by simp
    then show ?thesis using lt by simp
  qed
  have "show_string x0 xe ye sz (x + ucast (sz div 2)) y (cs @ e # r) =
      show_chars (x + ucast (sz div 2)) y sz 0 cs"
    using Cons.prems n by (intro ext Cons.IH) auto
  then show ?case using c x by (simp add: Let_def)
qed

text \<open>
  A text that fits its area on one line is shown as its characters side by side, up to the
  first character that is not printable.
\<close>

theorem ShowString_line:
  assumes "list_all printable bs" "\<not> printable e" "bs \<noteq> []"
    and "unat x + unat w < 65536" "unat y + unat h < 65536" "0 < unat h" "(length bs - 1) * (unat sz div 2) < unat w"
  shows "LCD_ShowString x y w h sz (bs @ e # r) s = show_chars x y sz 0 bs s"
proof -
  have u: "unat (w + x) = unat x + unat w" "unat (h + y) = unat y + unat h"
    using unat_add_lem [THEN iffD1, of w x] unat_add_lem [THEN iffD1, of h y] assms(4,5) by simp_all
  have "y < h + y" using u(2) assms(6) by (simp add: word_less_nat_alt)
  moreover have "unat x + (length bs - 1) * (unat sz div 2) < unat (w + x)" using u(1) assms(7) by simp
  ultimately show ?thesis
    unfolding LCD_ShowString_def using assms(1,2) by (intro show_string_line) auto
qed

theorem ShowString_line_witness:
  "LCD_ShowString 108 80 100 16 16 (bytes ''104:15`27'' @ 0x0A # [0]) (screen 320 240) =
     show_chars 108 80 16 0 (bytes ''104:15`27'') (screen 320 240)"
  using ShowString_line [of "bytes ''104:15`27''" "0x0A" 108 100 80 16 16 "[0]" "screen 320 240"]
  by (simp add: printable_def)

end
