(* ===== verification/Rc522.thy ===== *)
theory Rc522
  imports Prelude "HOL-Library.State_Monad"
begin

text \<open>
  The card reader driver \<open>applications/rc522.c\<close>.  The reader chip is outside the program: the byte
  it returns for a byte sent over SPI is a function, the parameter \<open>chip\<close>, of everything that
  happened on the wires before.  The calls thread one state, so they are written in the state
  monad; \<open>SPIWriteByte\<close> is a completed transfer, its waits for the SPI flags are not modelled.  A buffer
  on the stack holds what the stack held until something is stored: the parameter \<open>garbage\<close>.
\<close>

section \<open>State\<close>

datatype wire_event =
    CsLow | CsHigh | CsOutput | Spi u8 u8 | SpiInit | DelayNs nat | ThreadDelay nat | Printf mem

record rc522 =
  CT :: "u8 list"
  SN :: "u8 list"
  Card_flag :: u8
  card_num :: "u8 list"
  wires :: "wire_event list"

type_synonym chip = "wire_event list \<Rightarrow> u8 \<Rightarrow> u8"
type_synonym 'a rc = "(rc522, 'a) state"

definition MAXRLEN :: nat where "MAXRLEN = 18"
definition MI_OK :: u8 where "MI_OK = 0"
definition MI_NOTAGERR :: u8 where "MI_NOTAGERR = 1"
definition MI_ERR :: u8 where "MI_ERR = 2"
definition PCD_IDLE :: u8 where "PCD_IDLE = 0"
definition PCD_AUTHENT :: u8 where "PCD_AUTHENT = 0x0E"
definition PCD_TRANSCEIVE :: u8 where "PCD_TRANSCEIVE = 0x0C"
definition PCD_RESETPHASE :: u8 where "PCD_RESETPHASE = 0x0F"
definition PCD_CALCCRC :: u8 where "PCD_CALCCRC = 3"
definition PICC_REQALL :: u8 where "PICC_REQALL = 0x52"
definition PICC_ANTICOLL1 :: u8 where "PICC_ANTICOLL1 = 0x93"
definition PICC_READ :: u8 where "PICC_READ = 0x30"
definition PICC_WRITE :: u8 where "PICC_WRITE = 0xA0"
definition PICC_HALT :: u8 where "PICC_HALT = 0x50"
definition CommandReg :: u8 where "CommandReg = 0x01"
definition ComIEnReg :: u8 where "ComIEnReg = 0x02"
definition ComIrqReg :: u8 where "ComIrqReg = 0x04"
definition DivIrqReg :: u8 where "DivIrqReg = 0x05"
definition ErrorReg :: u8 where "ErrorReg = 0x06"
definition Status2Reg :: u8 where "Status2Reg = 0x08"
definition FIFODataReg :: u8 where "FIFODataReg = 0x09"
definition FIFOLevelReg :: u8 where "FIFOLevelReg = 0x0A"
definition ControlReg :: u8 where "ControlReg = 0x0C"
definition BitFramingReg :: u8 where "BitFramingReg = 0x0D"
definition CollReg :: u8 where "CollReg = 0x0E"
definition ModeReg :: u8 where "ModeReg = 0x11"
definition TxControlReg :: u8 where "TxControlReg = 0x14"
definition TxAutoReg :: u8 where "TxAutoReg = 0x15"
definition RxSelReg :: u8 where "RxSelReg = 0x17"
definition CRCResultRegM :: u8 where "CRCResultRegM = 0x21"
definition CRCResultRegL :: u8 where "CRCResultRegL = 0x22"
definition RFCfgReg :: u8 where "RFCfgReg = 0x26"
definition TModeReg :: u8 where "TModeReg = 0x2A"
definition TPrescalerReg :: u8 where "TPrescalerReg = 0x2B"
definition TReloadRegH :: u8 where "TReloadRegH = 0x2C"
definition TReloadRegL :: u8 where "TReloadRegL = 0x2D"

section \<open>Wires and registers\<close>

definition wire :: "wire_event list \<Rightarrow> unit rc" where
  "wire ws = State_Monad.update (\<lambda>s. s\<lparr>wires := wires s @ ws\<rparr>)"

definition SPIWriteByte :: "chip \<Rightarrow> u8 \<Rightarrow> u8 rc" where
  "SPIWriteByte chip b = do {
     s \<leftarrow> State_Monad.get;
     let r = chip (wires s) b;
     wire [Spi b r];
     State_Monad.return r
   }"

definition SPIReadByte :: "chip \<Rightarrow> u8 rc" where
  "SPIReadByte chip = SPIWriteByte chip 0"

definition ReadRawRC :: "chip \<Rightarrow> u8 \<Rightarrow> u8 rc" where
  "ReadRawRC chip addr = do {
     wire [CsLow];
     SPIWriteByte chip ((push_bit 1 addr AND 0x7E) OR 0x80);
     r \<leftarrow> SPIReadByte chip;
     wire [CsHigh];
     State_Monad.return r
   }"

definition WriteRawRC :: "chip \<Rightarrow> u8 \<Rightarrow> u8 \<Rightarrow> unit rc" where
  "WriteRawRC chip addr v = do {
     wire [CsLow];
     SPIWriteByte chip (push_bit 1 addr AND 0x7E);
     SPIWriteByte chip v;
     wire [CsHigh]
   }"

definition SetBitMask :: "chip \<Rightarrow> u8 \<Rightarrow> u8 \<Rightarrow> unit rc" where
  "SetBitMask chip reg m = do { tmp \<leftarrow> ReadRawRC chip reg; WriteRawRC chip reg (tmp OR m) }"

definition ClearBitMask :: "chip \<Rightarrow> u8 \<Rightarrow> u8 \<Rightarrow> unit rc" where
  "ClearBitMask chip reg m = do { tmp \<leftarrow> ReadRawRC chip reg; WriteRawRC chip reg (tmp AND NOT m) }"

fun write_fifo :: "chip \<Rightarrow> u8 list \<Rightarrow> unit rc" where
  "write_fifo chip [] = State_Monad.return ()"
| "write_fifo chip (b # bs) = do { WriteRawRC chip FIFODataReg b; write_fifo chip bs }"

fun read_fifo :: "chip \<Rightarrow> nat \<Rightarrow> u8 list rc" where
  "read_fifo chip 0 = State_Monad.return []"
| "read_fifo chip (Suc n) = do {
     b \<leftarrow> ReadRawRC chip FIFODataReg;
     bs \<leftarrow> read_fifo chip n;
     State_Monad.return (b # bs)
   }"

text \<open>
  A polling loop \<open>do { n = ReadRawRC(reg); i--; } while ((i != 0) && !(n & m))\<close>: the counter is
  decremented before it is tested; the result is the counter left and the last value.
\<close>

fun poll :: "chip \<Rightarrow> u8 \<Rightarrow> u8 \<Rightarrow> nat \<Rightarrow> (nat \<times> u8) rc" where
  "poll chip reg m 0 = State_Monad.return (0, 0)"
| "poll chip reg m (Suc i) = do {
     n \<leftarrow> ReadRawRC chip reg;
     if i \<noteq> 0 \<and> n AND m = 0 then poll chip reg m i else State_Monad.return (i, n)
   }"

section \<open>CRC, reset, antenna\<close>

definition CalulateCRC :: "chip \<Rightarrow> u8 list \<Rightarrow> (u8 \<times> u8) rc" where
  "CalulateCRC chip pIn = do {
     ClearBitMask chip DivIrqReg 0x04;
     WriteRawRC chip CommandReg PCD_IDLE;
     SetBitMask chip FIFOLevelReg 0x80;
     write_fifo chip pIn;
     WriteRawRC chip CommandReg PCD_CALCCRC;
     poll chip DivIrqReg 0x04 0xFF;
     l \<leftarrow> ReadRawRC chip CRCResultRegL;
     m \<leftarrow> ReadRawRC chip CRCResultRegM;
     State_Monad.return (l, m)
   }"

definition PcdReset :: "chip \<Rightarrow> u8 rc" where
  "PcdReset chip = do {
     wire [CsHigh, DelayNs 10, CsLow, DelayNs 10, CsHigh, DelayNs 10];
     WriteRawRC chip CommandReg PCD_RESETPHASE;
     WriteRawRC chip CommandReg PCD_RESETPHASE;
     wire [DelayNs 10];
     WriteRawRC chip ModeReg 0x3D;
     WriteRawRC chip TReloadRegL 30;
     WriteRawRC chip TReloadRegH 0;
     WriteRawRC chip TModeReg 0x8D;
     WriteRawRC chip TPrescalerReg 0x3E;
     WriteRawRC chip TxAutoReg 0x40;
     State_Monad.return MI_OK
   }"

definition PcdAntennaOn :: "chip \<Rightarrow> unit rc" where
  "PcdAntennaOn chip = do {
     i \<leftarrow> ReadRawRC chip TxControlReg;
     if i AND 0x03 = 0 then SetBitMask chip TxControlReg 0x03 else State_Monad.return ()
   }"

definition PcdAntennaOff :: "chip \<Rightarrow> unit rc" where
  "PcdAntennaOff chip = ClearBitMask chip TxControlReg 0x03"

definition M500PcdConfigISOType :: "chip \<Rightarrow> u8 \<Rightarrow> u8 rc" where
  "M500PcdConfigISOType chip type =
     (if type = 0x41 then do {
        ClearBitMask chip Status2Reg 0x08;
        WriteRawRC chip ModeReg 0x3D;
        WriteRawRC chip RxSelReg 0x86;
        WriteRawRC chip RFCfgReg 0x7F;
        WriteRawRC chip TReloadRegL 30;
        WriteRawRC chip TReloadRegH 0;
        WriteRawRC chip TModeReg 0x8D;
        WriteRawRC chip TPrescalerReg 0x3E;
        wire [DelayNs 1000];
        PcdAntennaOn chip;
        State_Monad.return MI_OK
      }
      else State_Monad.return 1)"

definition SPI1_Init :: "chip \<Rightarrow> unit rc" where
  "SPI1_Init chip = do {
     wire [CsOutput, CsHigh, SpiInit];
     SPIWriteByte chip 0xFF;
     State_Monad.return ()
   }"

definition Reset_RC522 :: "chip \<Rightarrow> unit rc" where
  "Reset_RC522 chip = do { PcdReset chip; PcdAntennaOff chip; wire [ThreadDelay 2]; PcdAntennaOn chip }"

definition InitRc522 :: "chip \<Rightarrow> unit rc" where
  "InitRc522 chip = do {
     SPI1_Init chip;
     PcdReset chip;
     PcdAntennaOff chip;
     wire [ThreadDelay 2];
     PcdAntennaOn chip;
     M500PcdConfigISOType chip 0x41;
     State_Monad.return ()
   }"

section \<open>Card communication\<close>

text \<open>
  The part of \<open>PcdComMF522\<close> that fetches the answer: the bit length stored through
  \<open>pOutLenBit\<close>, an 8-bit value, and the bytes stored from \<open>pOut\<close> on.
\<close>

definition fetch_answer :: "chip \<Rightarrow> (u8 \<times> u8 list) rc" where
  "fetch_answer chip = do {
     n \<leftarrow> ReadRawRC chip FIFOLevelReg;
     c \<leftarrow> ReadRawRC chip ControlReg;
     let lastBits = c AND 0x07;
     let lenbit = (if lastBits \<noteq> 0 then (n - 1) * 8 + lastBits else n * 8);
     let n1 = (if n = 0 then 1 else n);
     let n2 = (if unat n1 > MAXRLEN then of_nat MAXRLEN else n1);
     bs \<leftarrow> read_fifo chip (unat n2);
     State_Monad.return (lenbit, bs)
   }"

text \<open>
  \<open>PcdComMF522\<close>: the status, and what was stored through the two output pointers; \<open>None\<close> when
  nothing was.  \<open>pIn\<close> is the part of the input buffer that is sent.
\<close>

definition PcdComMF522 :: "chip \<Rightarrow> u8 \<Rightarrow> u8 list \<Rightarrow> (u8 \<times> (u8 \<times> u8 list) option) rc" where
  "PcdComMF522 chip cmd pIn = do {
     let irqEn = (if cmd = PCD_AUTHENT then 0x12 else if cmd = PCD_TRANSCEIVE then 0x77 else 0);
     let waitFor = (if cmd = PCD_AUTHENT then 0x10 else if cmd = PCD_TRANSCEIVE then 0x30 else 0);
     WriteRawRC chip ComIEnReg (irqEn OR 0x80);
     ClearBitMask chip ComIrqReg 0x80;
     WriteRawRC chip CommandReg PCD_IDLE;
     SetBitMask chip FIFOLevelReg 0x80;
     write_fifo chip pIn;
     WriteRawRC chip CommandReg cmd;
     (if cmd = PCD_TRANSCEIVE then SetBitMask chip BitFramingReg 0x80 else State_Monad.return ());
     (i, n) \<leftarrow> poll chip ComIrqReg (0x01 OR waitFor) 100000;
     ClearBitMask chip BitFramingReg 0x80;
     r \<leftarrow> (if i \<noteq> 0 then do {
             e \<leftarrow> ReadRawRC chip ErrorReg;
             if e AND 0x1B = 0 then do {
               let status = (if n AND irqEn AND 0x01 \<noteq> 0 then MI_NOTAGERR else MI_OK);
               (if cmd = PCD_TRANSCEIVE
                then do { a \<leftarrow> fetch_answer chip; State_Monad.return (status, Some a) }
                else State_Monad.return (status, None))
             }
             else State_Monad.return (MI_ERR, None)
           }
           else State_Monad.return (MI_ERR, None));
     SetBitMask chip ControlReg 0x80;
     WriteRawRC chip CommandReg PCD_IDLE;
     State_Monad.return r
   }"

text \<open>
  The local buffer \<open>ucComMF522Buf\<close> of a caller.  A byte that was never assigned has whatever value the
  stack holds there: the parameter \<open>g\<close>, a function of its index.  The answer overwrites the beginning.
\<close>

type_synonym garbage = "nat \<Rightarrow> u8"

definition buf_of :: "garbage \<Rightarrow> u8 list \<Rightarrow> u8 list" where
  "buf_of g bs = bs @ map g [length bs..<MAXRLEN]"

definition overlay :: "u8 list \<Rightarrow> u8 list \<Rightarrow> u8 list" where
  "overlay bs b = bs @ drop (length bs) b"

definition answer_buf :: "(u8 \<times> u8 list) option \<Rightarrow> u8 list \<Rightarrow> u8 list" where
  "answer_buf a b = (case a of None \<Rightarrow> b | Some (len, bs) \<Rightarrow> overlay bs b)"

definition buf_at :: "u8 list \<Rightarrow> nat \<Rightarrow> u8 res" where
  "buf_at b i = (if i < length b then Inr (b ! i) else Inl OutOfBounds)"

fun buf_take :: "u8 list \<Rightarrow> nat \<Rightarrow> nat \<Rightarrow> u8 list res" where
  "buf_take b i 0 = Inr []"
| "buf_take b i (Suc n) = and_then (buf_at b i) (\<lambda>v. and_then (buf_take b (Suc i) n) (\<lambda>vs. Inr (v # vs)))"

definition answer_len :: "(u8 \<times> u8 list) option \<Rightarrow> u8 option" where
  "answer_len a = map_option fst a"

section \<open>Card operations\<close>

text \<open>\<open>PcdRequest\<close>: the status and the two bytes stored through \<open>pTagType\<close>, if any.\<close>

definition PcdRequest :: "chip \<Rightarrow> garbage \<Rightarrow> u8 \<Rightarrow> ((u8 \<times> u8 list option) res) rc" where
  "PcdRequest chip g req = do {
     ClearBitMask chip Status2Reg 0x08;
     WriteRawRC chip BitFramingReg 0x07;
     SetBitMask chip TxControlReg 0x03;
     (st, a) \<leftarrow> PcdComMF522 chip PCD_TRANSCEIVE [req];
     let b = answer_buf a (buf_of g [req]);
     State_Monad.return
       (if st = MI_OK \<and> answer_len a = Some 0x10
        then and_then (buf_take b 0 2) (\<lambda>t. Inr (st, Some t))
        else Inr (MI_ERR, None))
   }"

text \<open>
  The loop of \<open>PcdAnticoll\<close> over the answer: the four serial bytes and whether the fifth is
  their exclusive or.  The number of bytes received is not looked at: after a short answer the
  loop reads what was in the buffer.
\<close>

definition anticoll_check :: "u8 list \<Rightarrow> (u8 list \<times> bool) res" where
  "anticoll_check b =
     and_then (buf_take b 0 4) (\<lambda>sn. and_then (buf_at b 4) (\<lambda>c.
       Inr (sn, fold (XOR) sn 0 = c)))"

text \<open>\<open>PcdAnticoll\<close>: the status and the four bytes stored through \<open>pSnr\<close>, if any.\<close>

definition PcdAnticoll :: "chip \<Rightarrow> garbage \<Rightarrow> ((u8 \<times> u8 list option) res) rc" where
  "PcdAnticoll chip g = do {
     ClearBitMask chip Status2Reg 0x08;
     WriteRawRC chip BitFramingReg 0;
     ClearBitMask chip CollReg 0x80;
     (st, a) \<leftarrow> PcdComMF522 chip PCD_TRANSCEIVE [PICC_ANTICOLL1, 0x20];
     if st = MI_OK
     then case anticoll_check (answer_buf a (buf_of g [PICC_ANTICOLL1, 0x20])) of
            Inl e \<Rightarrow> State_Monad.return (Inl e)
          | Inr (sn, ok) \<Rightarrow> do {
              SetBitMask chip CollReg 0x80;
              State_Monad.return (Inr (if ok then MI_OK else MI_ERR, Some sn))
            }
     else do {
       SetBitMask chip CollReg 0x80;
       State_Monad.return (Inr (st, None))
     }
   }"

definition select_frame :: "u8 list \<Rightarrow> u8 list" where
  "select_frame snr = [PICC_ANTICOLL1, 0x70] @ snr @ [fold (XOR) snr 0]"

definition PcdSelect :: "chip \<Rightarrow> u8 list \<Rightarrow> u8 rc" where
  "PcdSelect chip snr = do {
     (l, m) \<leftarrow> CalulateCRC chip (select_frame snr);
     ClearBitMask chip Status2Reg 0x08;
     (st, a) \<leftarrow> PcdComMF522 chip PCD_TRANSCEIVE (select_frame snr @ [l, m]);
     State_Monad.return (if st = MI_OK \<and> answer_len a = Some 0x18 then MI_OK else MI_ERR)
   }"

definition PcdAuthState :: "chip \<Rightarrow> u8 \<Rightarrow> u8 \<Rightarrow> u8 list \<Rightarrow> u8 list \<Rightarrow> u8 rc" where
  "PcdAuthState chip mode addr key snr = do {
     (st, a) \<leftarrow> PcdComMF522 chip PCD_AUTHENT ([mode, addr] @ take 6 key @ take 4 snr);
     if st \<noteq> MI_OK then State_Monad.return MI_ERR
     else do {
       r \<leftarrow> ReadRawRC chip Status2Reg;
       State_Monad.return (if r AND 0x08 = 0 then MI_ERR else st)
     }
   }"

definition PcdRead :: "chip \<Rightarrow> garbage \<Rightarrow> u8 \<Rightarrow> ((u8 \<times> u8 list option) res) rc" where
  "PcdRead chip g addr = do {
     (l, m) \<leftarrow> CalulateCRC chip [PICC_READ, addr];
     (st, a) \<leftarrow> PcdComMF522 chip PCD_TRANSCEIVE [PICC_READ, addr, l, m];
     let b = answer_buf a (buf_of g [PICC_READ, addr, l, m]);
     State_Monad.return
       (if st = MI_OK \<and> answer_len a = Some 0x90
        then and_then (buf_take b 0 16) (\<lambda>d. Inr (st, Some d))
        else Inr (MI_ERR, None))
   }"

text \<open>\<open>(status == MI_OK) && (unLen == 4) && ((buf[0] & 0x0F) == 0x0A)\<close>\<close>

definition acked :: "u8 \<Rightarrow> (u8 \<times> u8 list) option \<Rightarrow> bool" where
  "acked st a \<longleftrightarrow> st = MI_OK \<and> answer_len a = Some 4 \<and>
     (case a of Some (len, b # bs) \<Rightarrow> b AND 0x0F = 0x0A | _ \<Rightarrow> False)"

definition PcdWrite :: "chip \<Rightarrow> u8 \<Rightarrow> u8 list \<Rightarrow> u8 rc" where
  "PcdWrite chip addr p = do {
     (l, m) \<leftarrow> CalulateCRC chip [PICC_WRITE, addr];
     (st, a) \<leftarrow> PcdComMF522 chip PCD_TRANSCEIVE [PICC_WRITE, addr, l, m];
     if \<not> acked st a then State_Monad.return MI_ERR
     else do {
       (l2, m2) \<leftarrow> CalulateCRC chip (take 16 p);
       (st2, a2) \<leftarrow> PcdComMF522 chip PCD_TRANSCEIVE (take 16 p @ [l2, m2]);
       State_Monad.return (if acked st2 a2 then st2 else MI_ERR)
     }
   }"

definition PcdHalt :: "chip \<Rightarrow> u8 rc" where
  "PcdHalt chip = do {
     (l, m) \<leftarrow> CalulateCRC chip [PICC_HALT, 0];
     (st, a) \<leftarrow> PcdComMF522 chip PCD_TRANSCEIVE [PICC_HALT, 0, l, m];
     State_Monad.return st
   }"

section \<open>Reading a card\<close>

definition hex_digit :: "u8 \<Rightarrow> u8" where
  "hex_digit d = (if d > 9 then d + 0x37 else d + 0x30)"

definition hex_byte :: "u8 \<Rightarrow> u8 list" where
  "hex_byte b = [hex_digit (drop_bit 4 b), hex_digit (b AND 0x0F)]"

definition TurnID :: "u8 list \<Rightarrow> unit rc" where
  "TurnID p = do {
     wire (map (\<lambda>b. Printf (hex_byte b)) (take 4 p) @ [Printf [0x0D, 0x0A]]);
     State_Monad.update (\<lambda>s. s\<lparr>card_num := concat (map hex_byte (take 4 p)) @ [0]\<rparr>)
   }"

text \<open>\<open>rt_kprintf("%x", b)\<close>: lower case, no leading zero.\<close>

definition low_digit :: "u8 \<Rightarrow> u8" where
  "low_digit d = (if d > 9 then d + 0x57 else d + 0x30)"

definition fmt_x :: "u8 \<Rightarrow> mem" where
  "fmt_x b = (if drop_bit 4 b = 0 then [low_digit (b AND 0x0F)]
              else [low_digit (drop_bit 4 b), low_digit (b AND 0x0F)])"

definition set_tag :: "u8 list option \<Rightarrow> unit rc" where
  "set_tag t = (case t of None \<Rightarrow> State_Monad.return () | Some v \<Rightarrow> State_Monad.update (\<lambda>s. s\<lparr>CT := v\<rparr>))"

definition set_sn :: "u8 list option \<Rightarrow> unit rc" where
  "set_sn t = (case t of None \<Rightarrow> State_Monad.return () | Some v \<Rightarrow> State_Monad.update (\<lambda>s. s\<lparr>SN := v\<rparr>))"

text \<open>What \<open>ReadID\<close> does once a card answered: the status is set to \<open>MI_ERR\<close> and stays so.\<close>

definition read_found :: "u8 rc" where
  "read_found = do {
     State_Monad.update (\<lambda>s. s\<lparr>Card_flag := 1\<rparr>);
     s \<leftarrow> State_Monad.get;
     wire (map (\<lambda>b. Printf (fmt_x b)) (SN s) @ [Printf [0x0D, 0x0A]]);
     TurnID (SN s);
     State_Monad.update (\<lambda>s. s\<lparr>SN := replicate 4 0\<rparr>);
     State_Monad.return MI_ERR
   }"

text \<open>\<open>g n\<close> is what the stack holds at the call \<open>n\<close> of an operation with a buffer.\<close>

definition ReadID :: "chip \<Rightarrow> (nat \<Rightarrow> garbage) \<Rightarrow> (u8 res) rc" where
  "ReadID chip g = do {
     r0 \<leftarrow> PcdRequest chip (g 0) PICC_REQALL;
     case r0 of Inl e \<Rightarrow> State_Monad.return (Inl e) | Inr (st0, t0) \<Rightarrow> do {
       set_tag t0;
       PcdReset chip;
       PcdAntennaOff chip;
       PcdAntennaOn chip;
       r1 \<leftarrow> PcdRequest chip (g 1) PICC_REQALL;
       case r1 of Inl e \<Rightarrow> State_Monad.return (Inl e) | Inr (st1, t1) \<Rightarrow> do {
         set_tag t1;
         if st1 \<noteq> MI_OK then State_Monad.return (Inr st1)
         else do {
           r2 \<leftarrow> PcdAnticoll chip (g 2);
           case r2 of Inl e \<Rightarrow> State_Monad.return (Inl e) | Inr (st2, sn) \<Rightarrow> do {
             set_sn sn;
             if st2 = MI_OK then do { st3 \<leftarrow> read_found; State_Monad.return (Inr st3) }
             else State_Monad.return (Inr st2)
           }
         }
       }
     }
   }"

end
