(* ===== verification/Rc522_Props.thy ===== *)
theory Rc522_Props
  imports Rc522
begin

text \<open>
  The properties of the card reader driver: the discipline on the wires, the bounds of the
  answer, what the check of the serial number looks at, the hexadecimal notation, and the result of \<open>ReadID\<close>.
\<close>

section \<open>Definitions\<close>

text \<open>
  The chip select line along a sequence of wire events, \<open>True\<close> for low: a byte may only be sent
  while the line is low.
\<close>

fun cs_run :: "bool \<Rightarrow> wire_event list \<Rightarrow> bool option" where
  "cs_run low [] = Some low"
| "cs_run low (CsLow # ws) = cs_run True ws"
| "cs_run low (CsHigh # ws) = cs_run False ws"
| "cs_run low (Spi a r # ws) = (if low then cs_run low ws else None)"
| "cs_run low (w # ws) = cs_run low ws"

definition framed :: "wire_event list \<Rightarrow> bool" where
  "framed w \<longleftrightarrow> cs_run False w = Some False"

text \<open>An operation that only adds to the wires, and keeps the discipline from and to a high line.\<close>

definition clean :: "'a rc \<Rightarrow> bool" where
  "clean m \<longleftrightarrow> (\<forall>s r s'. run_state m s = (r, s') \<longrightarrow> (\<exists>w. s' = s\<lparr>wires := wires s @ w\<rparr> \<and> framed w))"

text \<open>The state in which \<open>PcdAnticoll\<close> starts to communicate.\<close>

definition anticoll_setup :: "chip \<Rightarrow> rc522 \<Rightarrow> rc522" where
  "anticoll_setup chip s = snd (run_state (do {
     ClearBitMask chip Status2Reg 0x08;
     WriteRawRC chip BitFramingReg 0;
     ClearBitMask chip CollReg 0x80 }) s)"

text \<open>
  Byte \<open>i\<close> of the buffer of \<open>PcdAnticoll\<close> once \<open>rx\<close> was received: the byte received, or else what the
  driver had put there to be sent, or else what the stack held.
\<close>

definition card_byte :: "garbage \<Rightarrow> u8 list \<Rightarrow> nat \<Rightarrow> u8" where
  "card_byte g rx i =
     (if i < length rx then rx ! i else if i = 0 then PICC_ANTICOLL1 else if i = 1 then 0x20 else g i)"

text \<open>The value of a hexadecimal notation.\<close>

definition unhex_digit :: "u8 \<Rightarrow> u8" where
  "unhex_digit c = (if c \<ge> 0x41 then c - 0x37 else c - 0x30)"

fun unhex :: "u8 list \<Rightarrow> u8 list" where
  "unhex (a # b # cs) = (push_bit 4 (unhex_digit a) OR unhex_digit b) # unhex cs"
| "unhex cs = []"

text \<open>
  A chip whose registers do not change: a read returns a value that depends only on the address
  byte.  It serves as a concrete instance of the parameter.
\<close>

definition reg_chip :: "(u8 \<Rightarrow> u8) \<Rightarrow> chip" where
  "reg_chip f ws b = (if ws = [] then 0 else case last ws of Spi a r \<Rightarrow> f a | _ \<Rightarrow> 0)"

text \<open>The globals after start-up.\<close>

definition rc_zero :: rc522 where
  "rc_zero = \<lparr>CT = [0, 0], SN = [0, 0, 0, 0], Card_flag = 0, card_num = replicate 9 0, wires = []\<rparr>"

text \<open>A chip that reports 34 bytes, all zero: request and anticollision succeed.\<close>

definition zero_card :: chip where
  "zero_card = reg_chip (\<lambda>a. if a = 0x88 then 0x30 else if a = 0x94 then 34 else 0)"

section \<open>Runs\<close>

lemma run_bind: "run_state (State_Monad.bind m k) s = (case run_state m s of (a, s') \<Rightarrow> run_state (k a) s')"
  by (simp add: State_Monad.bind_def)

lemma run_update [simp]: "run_state (State_Monad.update f) s = ((), f s)"
  by (simp add: State_Monad.update_def)

lemma run_wire [simp]: "run_state (wire ws) s = ((), s\<lparr>wires := wires s @ ws\<rparr>)"
  by (simp add: wire_def)

lemma run_SPI [simp]:
  "run_state (SPIWriteByte chip b) s = (chip (wires s) b, s\<lparr>wires := wires s @ [Spi b (chip (wires s) b)]\<rparr>)"
  by (simp add: SPIWriteByte_def run_bind Let_def)

lemma cs_run_append: "cs_run low (a @ b) = Option.bind (cs_run low a) (\<lambda>l. cs_run l b)"
  by (induction low a rule: cs_run.induct) auto

lemma framed_append: "framed a \<Longrightarrow> framed b \<Longrightarrow> framed (a @ b)"
  by (simp add: framed_def cs_run_append)

named_theorems clean_intros \<open>operations that keep the wire discipline\<close>

lemma clean_return [clean_intros]: "clean (State_Monad.return x)"
  by (auto simp: clean_def framed_def intro!: exI [of _ "[]"])

lemma clean_bind [clean_intros]:
  assumes "clean m" "\<And>x. clean (k x)"
  shows "clean (State_Monad.bind m k)"
  unfolding clean_def
proof (intro allI impI)
  fix s r s'
  assume "run_state (State_Monad.bind m k) s = (r, s')"
  then obtain x s1 where 1: "run_state m s = (x, s1)" "run_state (k x) s1 = (r, s')"
    by (auto simp: run_bind split: prod.splits)
  obtain w1 where w1: "s1 = s\<lparr>wires := wires s @ w1\<rparr>" "framed w1" using assms(1) 1(1) unfolding clean_def by blast
  obtain w2 where w2: "s' = s1\<lparr>wires := wires s1 @ w2\<rparr>" "framed w2" using assms(2) 1(2) unfolding clean_def by blast
  show "\<exists>w. s' = s\<lparr>wires := wires s @ w\<rparr> \<and> framed w"
    using w1 w2 framed_append by (intro exI [of _ "w1 @ w2"]) simp
qed

lemma clean_if [clean_intros]: "clean a \<Longrightarrow> clean b \<Longrightarrow> clean (if c then a else b)"
  by simp

lemma clean_case_prod [clean_intros]: "(\<And>x y. clean (f x y)) \<Longrightarrow> clean (case p of (x, y) \<Rightarrow> f x y)"
  by (cases p) simp

lemma clean_let [clean_intros]: "(\<And>x. clean (f x)) \<Longrightarrow> clean (let x = v in f x)"
  by simp

lemma clean_case_sum [clean_intros]:
  "(\<And>e. clean (f e)) \<Longrightarrow> (\<And>x. clean (g x)) \<Longrightarrow> clean (case r of Inl e \<Rightarrow> f e | Inr x \<Rightarrow> g x)"
  by (cases r) auto

lemma clean_wire [clean_intros]: "framed ws \<Longrightarrow> clean (wire ws)"
  by (auto simp: clean_def)

lemma clean_ReadRawRC [clean_intros]: "clean (ReadRawRC chip a)"
  by (auto simp: clean_def ReadRawRC_def SPIReadByte_def run_bind framed_def)

lemma clean_WriteRawRC [clean_intros]: "clean (WriteRawRC chip a v)"
  by (auto simp: clean_def WriteRawRC_def run_bind framed_def)

lemma clean_masks [clean_intros]: "clean (SetBitMask chip r m)" "clean (ClearBitMask chip r m)"
  unfolding SetBitMask_def ClearBitMask_def by (intro clean_intros)+

lemma clean_fifo [clean_intros]: "clean (write_fifo chip bs)" "clean (read_fifo chip n)"
  by (induction bs, simp_all add: clean_intros) (induction n, simp_all add: clean_intros)

lemma clean_poll [clean_intros]: "clean (poll chip reg m n)"
  by (induction n) (simp_all add: clean_intros)

lemma clean_Com [clean_intros]: "clean (PcdComMF522 chip cmd pIn)"
  unfolding PcdComMF522_def fetch_answer_def by (intro clean_intros)

lemma clean_CRC [clean_intros]: "clean (CalulateCRC chip pIn)"
  unfolding CalulateCRC_def by (intro clean_intros)

lemma clean_antenna [clean_intros]: "clean (PcdAntennaOn chip)" "clean (PcdAntennaOff chip)"
  unfolding PcdAntennaOn_def PcdAntennaOff_def by (intro clean_intros)+

lemma clean_Reset [clean_intros]: "clean (PcdReset chip)"
  unfolding PcdReset_def by (intro clean_intros) (simp_all add: framed_def)

lemma clean_Request [clean_intros]: "clean (PcdRequest chip g req)"
  unfolding PcdRequest_def by (intro clean_intros)

lemma clean_Anticoll [clean_intros]: "clean (PcdAnticoll chip g)"
  unfolding PcdAnticoll_def by (intro clean_intros)

text \<open>
  Every operation on a card sends bytes only while the chip select line is low, returns the
  line high, and changes nothing of the driver's state but the wires.
\<close>

theorem card_operations_clean:
  "clean (PcdRequest chip g req) \<and> clean (PcdAnticoll chip g) \<and> clean (PcdSelect chip snr) \<and>
   clean (PcdAuthState chip mode addr key snr) \<and> clean (PcdRead chip g addr) \<and>
   clean (PcdWrite chip addr p) \<and> clean (PcdHalt chip) \<and> clean (M500PcdConfigISOType chip ty) \<and>
   clean (Reset_RC522 chip)"
  unfolding PcdSelect_def PcdAuthState_def PcdRead_def PcdWrite_def PcdHalt_def M500PcdConfigISOType_def
    Reset_RC522_def
  by (intro conjI clean_intros) (simp_all add: framed_def)

section \<open>The answer\<close>

lemma read_fifo_length: "run_state (read_fifo chip n) s = (bs, s') \<Longrightarrow> length bs = n"
  by (induction n arbitrary: s bs) (auto simp: run_bind split: prod.splits)

lemma fetch_answer_bound:
  assumes "run_state (fetch_answer chip) s = ((len, bs), s')"
  shows "1 \<le> length bs \<and> length bs \<le> MAXRLEN"
proof -
  obtain n :: u8 and t where r: "run_state (read_fifo chip (unat (if unat (if n = 0 then 1 else n) > MAXRLEN
      then of_nat MAXRLEN else if n = 0 then 1 else n))) t = (bs, s')"
    using assms by (auto simp: fetch_answer_def run_bind Let_def split: prod.splits)
  have "unat n \<noteq> 0" if "n \<noteq> 0" using that by (simp add: unat_eq_zero)
  then show ?thesis using read_fifo_length [OF r] by (auto simp: MAXRLEN_def split: if_splits)
qed

lemma Com_result:
  assumes "run_state (PcdComMF522 chip cmd pIn) s = ((st, a), s')"
  shows "st \<in> {MI_OK, MI_NOTAGERR, MI_ERR}"
    and "a = Some (len, bs) \<Longrightarrow> 1 \<le> length bs \<and> length bs \<le> MAXRLEN"
    and "st \<noteq> MI_ERR \<Longrightarrow> cmd = PCD_TRANSCEIVE \<Longrightarrow> a \<noteq> None"
  using assms
  by (auto simp: PcdComMF522_def run_bind Let_def MI_OK_def MI_NOTAGERR_def MI_ERR_def
      split: prod.splits if_splits dest: fetch_answer_bound)

text \<open>
  C38: \<open>PcdComMF522\<close> returns one of its three codes; what it stores into the caller's buffer is at
  least one and at most \<open>MAXRLEN\<close> bytes, whatever the chip reports, and a transceive command that
  does not fail does store an answer.
\<close>

theorem PcdComMF522_answer:
  assumes "run_state (PcdComMF522 chip cmd pIn) s = ((st, a), s')"
  shows "st \<in> {MI_OK, MI_NOTAGERR, MI_ERR} \<and>
    (\<forall>len bs. a = Some (len, bs) \<longrightarrow> 1 \<le> length bs \<and> length bs \<le> MAXRLEN) \<and>
    (st \<noteq> MI_ERR \<and> cmd = PCD_TRANSCEIVE \<longrightarrow> a \<noteq> None)"
  using Com_result [OF assms] by blast

theorem PcdComMF522_answer_witness:
  "\<exists>st a s'. run_state (PcdComMF522 (\<lambda>ws b. 0x20) PCD_TRANSCEIVE [0x52]) rc_zero = ((st, a), s') \<and>
     st \<in> {MI_OK, MI_NOTAGERR, MI_ERR} \<and>
     (\<forall>len bs. a = Some (len, bs) \<longrightarrow> 1 \<le> length bs \<and> length bs \<le> MAXRLEN)"
  using PcdComMF522_answer [of "\<lambda>ws b. 0x20" PCD_TRANSCEIVE "[0x52]" rc_zero]
  by (cases "run_state (PcdComMF522 (\<lambda>ws b. 0x20) PCD_TRANSCEIVE [0x52]) rc_zero") auto

section \<open>The serial number\<close>

lemma overlay_card:
  assumes "length rx \<le> MAXRLEN" "i < MAXRLEN"
  shows "buf_at (overlay rx (buf_of g [PICC_ANTICOLL1, 0x20])) i = Inr (card_byte g rx i)"
proof -
  have l: "length (overlay rx (buf_of g [PICC_ANTICOLL1, 0x20])) = MAXRLEN"
    using assms(1) by (simp add: overlay_def buf_of_def MAXRLEN_def)
  have "overlay rx (buf_of g [PICC_ANTICOLL1, 0x20]) ! i = card_byte g rx i"
  proof (cases "i < length rx")
    case False
    then have "overlay rx (buf_of g [PICC_ANTICOLL1, 0x20]) ! i = buf_of g [PICC_ANTICOLL1, 0x20] ! i"
      using assms by (simp add: overlay_def nth_append buf_of_def MAXRLEN_def)
    also have "\<dots> = card_byte g rx i"
      using assms(2) False by (cases i; cases "i - 1") (auto simp: buf_of_def card_byte_def MAXRLEN_def nth_append)
    finally show ?thesis .
  qed (simp add: overlay_def nth_append card_byte_def)
  then show ?thesis using assms(2) l by (simp add: buf_at_def)
qed

lemma anticoll_check_card:
  assumes "length rx \<le> MAXRLEN"
  shows "anticoll_check (overlay rx (buf_of g [PICC_ANTICOLL1, 0x20])) =
    (let b = card_byte g rx in Inr ([b 0, b 1, b 2, b 3], b 0 XOR b 1 XOR b 2 XOR b 3 = b 4))"
proof -
  have a: "buf_at (overlay rx (buf_of g [PICC_ANTICOLL1, 0x20])) i = Inr (card_byte g rx i)" if "i < 5" for i
    using that by (intro overlay_card [OF assms]) (simp add: MAXRLEN_def)
  show ?thesis using a [of 0] a [of 1] a [of 2] a [of 3] a [of 4]
    by (simp add: anticoll_check_def Let_def numeral_eq_Suc xor.left_commute xor.commute xor.assoc)
qed

lemma Anticoll_runs:
  assumes "run_state (PcdComMF522 chip PCD_TRANSCEIVE [PICC_ANTICOLL1, 0x20]) (anticoll_setup chip s) = ((st, a), s2)"
  shows "fst (run_state (PcdAnticoll chip g) s) =
    (if st = MI_OK then and_then (anticoll_check (answer_buf a (buf_of g [PICC_ANTICOLL1, 0x20])))
           (\<lambda>(sn, ok). Inr (if ok then MI_OK else MI_ERR, Some sn)) else Inr (st, None))"
  using assms unfolding PcdAnticoll_def anticoll_setup_def
  by (cases "anticoll_check (answer_buf a (buf_of g [PICC_ANTICOLL1, 0x20]))")
    (auto simp: run_bind split: prod.splits)

lemma Anticoll_card:
  assumes "run_state (PcdComMF522 chip PCD_TRANSCEIVE [PICC_ANTICOLL1, 0x20]) (anticoll_setup chip s) = ((MI_OK, a), s2)"
  shows "\<exists>len rx. a = Some (len, rx) \<and> 1 \<le> length rx \<and> length rx \<le> MAXRLEN \<and> fst (run_state (PcdAnticoll chip g) s) =
    (let b = card_byte g rx in Inr (if b 0 XOR b 1 XOR b 2 XOR b 3 = b 4 then MI_OK else MI_ERR, Some [b 0, b 1, b 2, b 3]))"
proof -
  have "a \<noteq> None" using Com_result(3) [OF assms] by (simp add: MI_OK_def MI_ERR_def)
  then obtain len rx where a: "a = Some (len, rx)" by auto
  note l = Com_result(2) [OF assms a]
  have c: "anticoll_check (answer_buf a (buf_of g [PICC_ANTICOLL1, 0x20])) =
      (let b = card_byte g rx in Inr ([b 0, b 1, b 2, b 3], b 0 XOR b 1 XOR b 2 XOR b 3 = b 4))"
    using anticoll_check_card [of rx g] l a by (simp add: answer_buf_def)
  have "fst (run_state (PcdAnticoll chip g) s) =
      (let b = card_byte g rx in Inr (if b 0 XOR b 1 XOR b 2 XOR b 3 = b 4 then MI_OK else MI_ERR, Some [b 0, b 1, b 2, b 3]))"
    using Anticoll_runs [OF assms, of g] unfolding c by (simp add: Let_def)
  then show ?thesis using a l by blast
qed

lemma Anticoll_success:
  assumes "fst (run_state (PcdAnticoll chip g) s) = Inr (MI_OK, sn)"
  shows "\<exists>bs. sn = Some bs \<and> length bs = 4"
proof -
  obtain st a s2 where c: "run_state (PcdComMF522 chip PCD_TRANSCEIVE [PICC_ANTICOLL1, 0x20]) (anticoll_setup chip s)
      = ((st, a), s2)" by (metis prod.collapse)
  have "st = MI_OK" using Anticoll_runs [OF c, of g, unfolded assms] by (auto split: if_splits)
  then show ?thesis using Anticoll_card [of chip s a s2 g] c assms by (auto simp: Let_def)
qed

text \<open>
  C37: the anticollision step always returns, and reports success exactly when the command succeeded and
  the five bytes at the beginning of its buffer pass the check: the fifth is the exclusive or of the
  first four.  After a command that succeeded the serial number is the first four, whatever the check
  says; otherwise nothing is stored.  The bytes are those received as far as the answer goes, at least
  one; what follows are the bytes that were sent and whatever the stack held, since the length of the
  answer is not looked at.
\<close>

theorem Anticoll_verified:
  "\<exists>st sn. fst (run_state (PcdAnticoll chip g) s) = Inr (st, sn) \<and>
     (case fst (run_state (PcdComMF522 chip PCD_TRANSCEIVE [PICC_ANTICOLL1, 0x20]) (anticoll_setup chip s)) of (cst, a) \<Rightarrow>
        if cst \<noteq> MI_OK then st = cst \<and> sn = None
        else \<exists>len rx. a = Some (len, rx) \<and> 1 \<le> length rx \<and>
          (let b = card_byte g rx
           in sn = Some [b 0, b 1, b 2, b 3] \<and> st = (if b 0 XOR b 1 XOR b 2 XOR b 3 = b 4 then MI_OK else MI_ERR)))"
proof -
  obtain cst a s2 where c: "run_state (PcdComMF522 chip PCD_TRANSCEIVE [PICC_ANTICOLL1, 0x20]) (anticoll_setup chip s)
      = ((cst, a), s2)" by (metis prod.collapse)
  show ?thesis
  proof (cases "cst = MI_OK")
    case True
    then obtain len rx where x: "a = Some (len, rx)" "1 \<le> length rx" "fst (run_state (PcdAnticoll chip g) s) =
        (let b = card_byte g rx in Inr (if b 0 XOR b 1 XOR b 2 XOR b 3 = b 4 then MI_OK else MI_ERR, Some [b 0, b 1, b 2, b 3]))"
      using Anticoll_card [of chip s a s2 g] c by blast
    let ?b = "card_byte g rx"
    show ?thesis unfolding c fst_conv prod.case
      by (rule exI [of _ "if ?b 0 XOR ?b 1 XOR ?b 2 XOR ?b 3 = ?b 4 then MI_OK else MI_ERR"],
          rule exI [of _ "Some [?b 0, ?b 1, ?b 2, ?b 3]"], rule conjI, simp only: x(3) Let_def,
          simp only: True not_True_eq_False if_False simp_thms, rule exI [of _ len], rule exI [of _ rx])
        (simp only: x(1,2) Let_def simp_thms)
  next
    case False
    then show ?thesis using Anticoll_runs [OF c, of g] c by simp
  qed
qed

text \<open>
  A card that answers the anticollision step with fewer than five bytes can be taken for one that gave a
  complete serial number: for some contents of the stack the check passes.
\<close>

theorem Anticoll_short_answer:
  assumes "run_state (PcdComMF522 chip PCD_TRANSCEIVE [PICC_ANTICOLL1, 0x20]) (anticoll_setup chip s) =
      ((MI_OK, Some (len, rx)), s2)" "length rx < 5"
  shows "\<exists>g sn. fst (run_state (PcdAnticoll chip g) s) = Inr (MI_OK, sn)"
proof -
  define b where "b = card_byte (\<lambda>i. 0) rx"
  define g where "g = (\<lambda>i :: nat. if i = 4 then b 0 XOR b 1 XOR b 2 XOR b 3 else 0)"
  have "card_byte g rx i = b i" if "i < 4" for i using that by (simp add: card_byte_def b_def g_def)
  moreover have "card_byte g rx 4 = b 0 XOR b 1 XOR b 2 XOR b 3" using assms(2) by (simp add: card_byte_def g_def)
  ultimately have "fst (run_state (PcdAnticoll chip g) s) = Inr (MI_OK, Some [b 0, b 1, b 2, b 3])"
    using Anticoll_card [OF assms(1), of g] by (simp add: Let_def)
  then show ?thesis by blast
qed

section \<open>A chip with constant registers\<close>

text \<open>\<open>val m v\<close>: whatever the state, the operation returns \<open>v\<close>.\<close>

lemma val_bind: "(\<And>s. fst (run_state m s) = v) \<Longrightarrow> (\<And>s. fst (run_state (k v) s) = w) \<Longrightarrow>
   fst (run_state (State_Monad.bind m k) s) = w"
  by (metis (no_types, lifting) case_prod_conv prod.collapse run_bind)

lemma val_any: "(\<And>x s. fst (run_state (k x) s) = w) \<Longrightarrow> fst (run_state (State_Monad.bind m k) s) = w"
  by (simp add: run_bind split: prod.split)

lemma val_Read [simp]:
  "fst (run_state (ReadRawRC (reg_chip f) a) s) = f ((push_bit 1 a AND 0x7E) OR 0x80)"
  by (simp add: ReadRawRC_def SPIReadByte_def run_bind reg_chip_def)

lemma val_fifo: "fst (run_state (read_fifo (reg_chip f) n) s) = replicate n (f 0x92)"
proof (induction n arbitrary: s)
  case (Suc n)
  show ?case
    by (simp only: read_fifo.simps, rule val_bind [where v = "f 0x92"], simp add: FIFODataReg_def)
      (rule val_bind [where v = "replicate n (f 0x92)"], rule Suc, simp)
qed simp

lemma val_poll: "f ((push_bit 1 reg AND 0x7E) OR 0x80) AND m \<noteq> 0 \<Longrightarrow>
   fst (run_state (poll (reg_chip f) reg m (Suc i)) s) = (i, f ((push_bit 1 reg AND 0x7E) OR 0x80))"
  by (simp only: poll.simps, rule val_bind, rule val_Read) simp

lemma val_fetch:
  "fst (run_state (fetch_answer (reg_chip f)) s) =
    (let n = f 0x94; b = f 0x98 AND 7; n1 = (if n = 0 then 1 else n)
     in (if b \<noteq> 0 then (n - 1) * 8 + b else n * 8, replicate (min MAXRLEN (unat n1)) (f 0x92)))"
proof -
  have r: "fst (run_state (ReadRawRC (reg_chip f) FIFOLevelReg) s) = f 0x94"
    "fst (run_state (ReadRawRC (reg_chip f) ControlReg) s) = f 0x98" for s
    by (simp_all add: FIFOLevelReg_def ControlReg_def)
  show ?thesis
    unfolding fetch_answer_def Let_def
    by (rule val_bind, rule r(1), rule val_bind, rule r(2), rule val_bind, rule val_fifo)
      (simp add: MAXRLEN_def min_def)
qed

lemma val_Com:
  assumes "f 0x88 AND 0x30 \<noteq> 0" "f 0x88 AND 1 = 0" "f 0x8C AND 0x1B = 0"
  shows "fst (run_state (PcdComMF522 (reg_chip f) PCD_TRANSCEIVE pIn) s) =
    (MI_OK, Some (fst (run_state (fetch_answer (reg_chip f)) s)))"
proof -
  have c: "PCD_TRANSCEIVE \<noteq> PCD_AUTHENT" by (simp add: PCD_TRANSCEIVE_def PCD_AUTHENT_def)
  have m: "f 0x88 AND (1 OR 0x30) \<noteq> 0"
    using assms(1) by (metis and.right_neutral bit.conj_disj_distrib or_eq_0_iff)
  have n: "f 0x88 AND 0x77 AND 1 = 0" using assms(2) by (simp add: and.assoc)
  have p: "fst (run_state (poll (reg_chip f) ComIrqReg (1 OR 0x30) 100000) s) = (99999, f 0x88)" for s
    using val_poll [of f ComIrqReg "1 OR 0x30" 99999 s] m by (simp add: ComIrqReg_def)
  have e: "fst (run_state (ReadRawRC (reg_chip f) ErrorReg) s) = f 0x8C" for s by (simp add: ErrorReg_def)
  have i: "(99999 :: nat) \<noteq> 0" by simp
  have u: "fst (run_state (m :: unit rc) s) = ()" for m s by simp
  have fa: "fst (run_state (fetch_answer (reg_chip f)) s') = fst (run_state (fetch_answer (reg_chip f)) s)" for s'
    unfolding val_fetch ..
  show ?thesis
    unfolding PcdComMF522_def Let_def if_not_P [OF c] if_P [OF refl]
    apply (rule val_bind, rule u)+
    apply (rule val_bind, rule p)
    apply (unfold prod.case)
    apply (rule val_bind, rule u)
    apply (rule val_bind [where v = "(MI_OK, Some (fst (run_state (fetch_answer (reg_chip f)) s)))"])
     apply (unfold if_P [OF i])
     apply (rule val_bind, rule e)
     apply (unfold if_P [OF assms(3)])
     apply (rule val_bind, rule fa, simp add: n assms(2))
    apply (rule val_bind, rule u)+
    apply simp
    done
qed

text \<open>A chip that reports one byte, and one that reports five equal to zero.\<close>

lemma com_example:
  assumes "f 0x88 = 0x30" "f 0x8C = 0" "f 0x98 = 0" "f 0x92 = 0"
  shows "\<exists>s2. run_state (PcdComMF522 (reg_chip f) PCD_TRANSCEIVE pIn) s =
    ((MI_OK, Some (f 0x94 * 8, replicate (min MAXRLEN (unat (if f 0x94 = 0 then 1 else f 0x94))) 0)), s2)"
  using val_Com [of f pIn s] assms
  by (cases "run_state (PcdComMF522 (reg_chip f) PCD_TRANSCEIVE pIn) s") (simp add: val_fetch Let_def)

theorem Anticoll_short_answer_witness:
  "\<exists>g sn. fst (run_state (PcdAnticoll (reg_chip (\<lambda>a. if a = 0x88 then 0x30 else if a = 0x94 then 1 else 0)) g) rc_zero) = Inr (MI_OK, sn)"
proof -
  let ?f = "\<lambda>a :: u8. if a = 0x88 then 0x30 else if a = 0x94 then 1 else 0 :: u8"
  obtain s2 where "run_state (PcdComMF522 (reg_chip ?f) PCD_TRANSCEIVE [PICC_ANTICOLL1, 0x20]) (anticoll_setup (reg_chip ?f) rc_zero)
     = ((MI_OK, Some (8, [0])), s2)"
    using com_example [of ?f "[PICC_ANTICOLL1, 0x20]" "anticoll_setup (reg_chip ?f) rc_zero"] by (auto simp: MAXRLEN_def)
  then show ?thesis by (rule Anticoll_short_answer) simp
qed

section \<open>Hexadecimal notation\<close>

lemma nibble_cases: "(d :: u8) < 16 \<Longrightarrow> d \<in> {0, 1, 2, 3, 4, 5, 6, 7, 8, 9, 10, 11, 12, 13, 14, 15}"
proof -
  assume "d < 16"
  then have "unat d < 16" by (simp add: word_less_nat_alt)
  then have "unat d \<in> {..<16}" by simp
  also have "{..<16} = {0, 1, 2, 3, 4, 5, 6, 7, 8, 9, 10, 11, 12, 13, 14, 15 :: nat}"
    by (simp add: lessThan_nat_numeral lessThan_Suc) blast
  finally have "unat d \<in> {0, 1, 2, 3, 4, 5, 6, 7, 8, 9, 10, 11, 12, 13, 14, 15}" .
  then have "d \<in> of_nat ` {0, 1, 2, 3, 4, 5, 6, 7, 8, 9, 10, 11, 12, 13, 14, 15}"
    by (intro image_eqI [of d of_nat "unat d"]) simp_all
  then show ?thesis by simp
qed

lemma unhex_hex_digit: "d < 16 \<Longrightarrow> unhex_digit (hex_digit d) = d"
  by (drule nibble_cases) (auto simp: hex_digit_def unhex_digit_def)

lemma nibbles_lt: "drop_bit 4 (b :: u8) < 16" "b AND 0x0F < 16"
proof -
  have "unat (drop_bit 4 b) = unat b div 16" by (simp add: drop_bit_eq_div unat_div)
  then show "drop_bit 4 b < 16" using unat_u8_lt [of b] by (simp add: word_less_nat_alt)
  have "b AND 0x0F \<le> 0x0F" by (rule word_and_le1)
  then show "b AND 0x0F < 16" by (rule le_less_trans) simp
qed

lemma unhex_hex_byte: "unhex (hex_byte b @ cs) = b # unhex cs"
proof -
  have m: "(0x0F :: u8) = mask 4" by (simp add: mask_eq_exp_minus_1)
  have "push_bit 4 (drop_bit 4 b) OR (b AND 0x0F) = b"
    unfolding m by (rule bit_word_eqI) (auto simp: bit_simps)
  then show ?thesis by (simp add: hex_byte_def unhex_hex_digit nibbles_lt)
qed

lemma unhex_concat: "unhex (concat (map hex_byte bs)) = bs"
  by (induction bs) (simp_all add: unhex_hex_byte)

text \<open>
  \<open>TurnID\<close> leaves a terminated text of eight characters in \<open>num\<close> from which the four bytes of
  the serial number can be read back.
\<close>

theorem TurnID_roundtrip:
  assumes "length p = 4" "run_state (TurnID p) s = (u, s')"
  shows "length (card_num s') = 9 \<and> card_num s' ! 8 = 0 \<and> unhex (take 8 (card_num s')) = p"
proof -
  have n: "card_num s' = concat (map hex_byte p) @ [0]"
    using assms by (auto simp: TurnID_def run_bind)
  have "length (concat (map hex_byte p)) = 8"
    using assms(1) by (auto simp: length_concat hex_byte_def comp_def sum_list_triv)
  then show ?thesis using n unhex_concat [of p] by (simp add: nth_append)
qed

theorem TurnID_roundtrip_witness:
  "\<exists>u s'. run_state (TurnID [0xDE, 0xAD, 0x01, 0x9F]) rc_zero = (u, s') \<and>
     unhex (take 8 (card_num s')) = [0xDE, 0xAD, 0x01, 0x9F]"
  using TurnID_roundtrip [of "[0xDE, 0xAD, 0x01, 0x9F]" rc_zero]
  by (cases "run_state (TurnID [0xDE, 0xAD, 0x01, 0x9F]) rc_zero") auto

section \<open>Reading a card\<close>

lemma clean_frame:
  "clean m \<Longrightarrow> run_state m s = (r, s') \<Longrightarrow>
   CT s' = CT s \<and> SN s' = SN s \<and> Card_flag s' = Card_flag s \<and> card_num s' = card_num s"
  unfolding clean_def by fastforce


lemma read_found_run:
  "run_state read_found s = (MI_ERR, (snd (run_state read_found s))) \<and>
   Card_flag (snd (run_state read_found s)) = 1 \<and> SN (snd (run_state read_found s)) = replicate 4 0 \<and>
   card_num (snd (run_state read_found s)) = concat (map hex_byte (take 4 (SN s))) @ [0]"
  by (simp add: read_found_def TurnID_def run_bind)

text \<open>
  C39: \<open>ReadID\<close> never returns \<open>MI_OK\<close>, not even after it has read a card: it overwrites the status
  of the successful step.  When it changes the card flag, the flag is 1, the serial number is
  cleared again and its hexadecimal notation is in \<open>num\<close>.
\<close>

theorem ReadID_result:
  assumes "run_state (ReadID chip g) s = (Inr st, s')"
  shows "st \<noteq> MI_OK \<and>
    (Card_flag s' \<noteq> Card_flag s \<longrightarrow>
       Card_flag s' = 1 \<and> SN s' = replicate 4 0 \<and>
       (\<exists>sn. length sn = 4 \<and> card_num s' = concat (map hex_byte sn) @ [0]))"
proof -
  have quiet: "Card_flag t' = Card_flag t" if "run_state m t = (r, t')" "clean m" for m :: "'x rc" and r t t'
    using clean_frame [OF that(2,1)] by simp
  obtain r0 s0 where 0: "run_state (PcdRequest chip (g 0) PICC_REQALL) s = (r0, s0)" by (metis prod.collapse)
  obtain st0 t0 where r0: "r0 = Inr (st0, t0)"
    using assms 0 by (cases r0) (auto simp: ReadID_def run_bind)
  let ?mid = "do { PcdReset chip; PcdAntennaOff chip; PcdAntennaOn chip; PcdRequest chip (g 1) PICC_REQALL }"
  have cm: "clean ?mid" by (intro clean_intros)
  obtain r1 s1 where 1: "run_state ?mid (snd (run_state (set_tag t0) s0)) = (r1, s1)" by (metis prod.collapse)
  have f1: "Card_flag s1 = Card_flag s"
    using quiet [OF 1 cm] quiet [OF 0 clean_Request] by (cases t0) (simp_all add: set_tag_def)
  obtain st1 t1 where r1: "r1 = Inr (st1, t1)"
    and c1: "run_state (if st1 \<noteq> MI_OK then State_Monad.return (Inr st1)
         else do {
           r2 \<leftarrow> PcdAnticoll chip (g 2);
           case r2 of Inl e \<Rightarrow> State_Monad.return (Inl e) | Inr (st2, sn) \<Rightarrow> do {
             set_sn sn;
             if st2 = MI_OK then do { st3 \<leftarrow> read_found; State_Monad.return (Inr st3) }
             else State_Monad.return (Inr st2)
           }
         }) (snd (run_state (set_tag t1) s1)) = (Inr st, s')"
    using assms 0 1 r0
    by (cases r1) (auto simp: ReadID_def run_bind split: prod.splits)
  let ?s2 = "snd (run_state (set_tag t1) s1)"
  have f2: "Card_flag ?s2 = Card_flag s" using f1 by (cases t1) (simp_all add: set_tag_def)
  show ?thesis
  proof (cases "st1 = MI_OK")
    case False
    then show ?thesis using c1 f2 by auto
  next
    case True
    obtain r2 s3 where 2: "run_state (PcdAnticoll chip (g 2)) ?s2 = (r2, s3)" by (metis prod.collapse)
    have f3: "Card_flag s3 = Card_flag s" using quiet [OF 2 clean_Anticoll] f2 by simp
    obtain st2 sn where r2: "r2 = Inr (st2, sn)" using c1 2 True by (cases r2) (auto simp: run_bind)
    show ?thesis
    proof (cases "st2 = MI_OK")
      case False
      then have "st = st2" "Card_flag s' = Card_flag s"
        using c1 2 r2 True f3 by (cases sn, auto simp: run_bind set_sn_def)+
      then show ?thesis using False by simp
    next
      case ok: True
      have "fst (run_state (PcdAnticoll chip (g 2)) ?s2) = Inr (MI_OK, sn)" using 2 r2 ok by simp
      from Anticoll_success [OF this] obtain bs where bs: "sn = Some bs" "length bs = 4" by auto
      have "(Inr st, s') = (Inr MI_ERR, snd (run_state read_found (s3\<lparr>SN := bs\<rparr>)))"
        using c1 2 r2 True ok bs(1) read_found_run [of "s3\<lparr>SN := bs\<rparr>"] by (auto simp: run_bind set_sn_def split: prod.splits)
      then show ?thesis using read_found_run [of "s3\<lparr>SN := bs\<rparr>"] bs(2)
        by (auto simp: MI_OK_def MI_ERR_def)
    qed
  qed
qed

lemma zero_card_com:
  "fst (run_state (PcdComMF522 zero_card PCD_TRANSCEIVE pIn) s) = (MI_OK, Some (0x10, replicate 18 0))"
  using com_example [of "\<lambda>a. if a = 0x88 then 0x30 else if a = 0x94 then 34 else 0" pIn s]
  by (auto simp: zero_card_def MAXRLEN_def)

lemma zero_card_request: "fst (run_state (PcdRequest zero_card g req) s) = Inr (MI_OK, Some [0, 0])"
  unfolding PcdRequest_def
  by (intro val_bind [where v = "()"], simp_all only: unit_eq)
    (rule val_bind, rule zero_card_com, simp add: answer_buf_def answer_len_def overlay_def buf_at_def numeral_eq_Suc Let_def)

lemma zero_card_anticoll: "fst (run_state (PcdAnticoll zero_card g) s) = Inr (MI_OK, Some [0, 0, 0, 0])"
proof -
  obtain s2 where c: "run_state (PcdComMF522 zero_card PCD_TRANSCEIVE [PICC_ANTICOLL1, 0x20]) (anticoll_setup zero_card s)
     = ((MI_OK, Some (0x10, replicate 18 0)), s2)"
    using zero_card_com [of "[PICC_ANTICOLL1, 0x20]" "anticoll_setup zero_card s"] by (metis prod.collapse)
  show ?thesis using Anticoll_card [OF c, of g] by (auto simp: card_byte_def Let_def numeral_eq_Suc)
qed

lemma zero_card_ReadID: "fst (run_state (ReadID zero_card g) s) = Inr MI_ERR"
proof -
  have f: "fst (run_state read_found s) = MI_ERR" for s using read_found_run [of s] by (metis fst_conv)
  show ?thesis
    unfolding ReadID_def
    apply (rule val_bind, rule zero_card_request)
    apply (unfold sum.case prod.case)
    apply (rule val_any, rule val_any, rule val_any, rule val_any)
    apply (rule val_bind, rule zero_card_request)
    apply (simp only: sum.case prod.case not_not refl if_True if_False simp_thms)
    apply (rule val_any)
    apply (rule val_bind, rule zero_card_anticoll)
    apply (unfold sum.case prod.case if_P [OF refl])
    apply (rule val_any)
    apply (rule val_bind, rule f)
    apply simp
    done
qed

theorem ReadID_result_witness:
  "\<exists>st s'. run_state (ReadID zero_card (\<lambda>n i. 0)) rc_zero = (Inr st, s') \<and> st \<noteq> MI_OK"
proof -
  obtain s' where r: "run_state (ReadID zero_card (\<lambda>n i. 0)) rc_zero = (Inr MI_ERR, s')"
    using zero_card_ReadID [of "\<lambda>n i. 0" rc_zero] by (metis prod.collapse)
  show ?thesis using ReadID_result [OF r] r by blast
qed

end
