(* ===== verification/C_String.thy ===== *)
theory C_String
  imports Prelude
begin

text \<open>
  The string functions of the C library that the modem and NMEA code uses, on a buffer given as the
  bytes from the pointer on: \<open>strlen\<close>, \<open>strcmp\<close> against a literal, \<open>strtol\<close> in base ten, and the
  character classes of the C locale.
\<close>

section \<open>Definitions\<close>

text \<open>The C library's \<open>isprint\<close> and \<open>isspace\<close> in the C locale.\<close>

definition isprint :: "u8 \<Rightarrow> bool" where
  "isprint c \<longleftrightarrow> 0x20 \<le> c \<and> c \<le> 0x7E"

definition isspace :: "u8 \<Rightarrow> bool" where
  "isspace c \<longleftrightarrow> c = 0x20 \<or> 0x09 \<le> c \<and> c \<le> 0x0D"

fun strlen :: "mem \<Rightarrow> nat res" where
  "strlen [] = Inl OutOfBounds"
| "strlen (c # cs) = (if c = 0 then Inr 0 else and_then (strlen cs) (\<lambda>n. Inr (Suc n)))"

text \<open>\<open>strcmp(s, t) == 0\<close> for a literal \<open>t\<close>: the comparison stops at the first difference.\<close>

fun strcmp_eq :: "mem \<Rightarrow> mem \<Rightarrow> bool res" where
  "strcmp_eq [] t = Inl OutOfBounds"
| "strcmp_eq (c # cs) [] = Inr (c = 0)"
| "strcmp_eq (c # cs) (d # ds) = (if c = d then strcmp_eq cs ds else Inr False)"

text \<open>\<open>strtol(p, &endptr, 10)\<close> for a 32 bit \<open>long\<close>: the value and \<open>endptr\<close>.\<close>

fun skip_space :: "mem \<Rightarrow> mem res" where
  "skip_space [] = Inl OutOfBounds"
| "skip_space (c # cs) = (if isspace c then skip_space cs else Inr (c # cs))"

fun digit_run :: "mem \<Rightarrow> (mem \<times> mem) res" where
  "digit_run [] = Inl OutOfBounds"
| "digit_run (c # cs) =
     (if is_dig c then and_then (digit_run cs) (\<lambda>(ds, r). Inr (c # ds, r)) else Inr ([], c # cs))"

definition strtol :: "mem \<Rightarrow> (int \<times> mem) res" where
  "strtol p =
     and_then (skip_space p) (\<lambda>q. and_then (deref q) (\<lambda>c.
       and_then (digit_run (if c = 0x2D \<or> c = 0x2B then drop 1 q else q)) (\<lambda>(ds, r).
         if ds = [] then Inr (0, p)
         else let v = (if c = 0x2D then - int (dec_val ds) else int (dec_val ds))
              in Inr (max (- (2 ^ 31)) (min (2 ^ 31 - 1) v), r))))"

section \<open>Terminated strings\<close>

lemma returns_deref [simp]: "returns (deref p) \<longleftrightarrow> p \<noteq> []"
  by (cases p) auto

lemma cstring_nonempty [simp]: "cstring p \<Longrightarrow> p \<noteq> []"
  by auto

lemma deref_Inr_iff: "deref p = Inr c \<longleftrightarrow> (\<exists>cs. p = c # cs)"
  by (cases p) auto

lemma not_is_dig_0 [simp]: "\<not> is_dig 0"
  by (simp add: is_dig_def)

lemma strlen_ok: "cstring p \<Longrightarrow> strlen p = Inr (length (str_of p))"
  by (induction p rule: strlen.induct) (auto simp: cstring_Cons)

lemma strcmp_eq_ok: "cstring p \<Longrightarrow> 0 \<notin> set t \<Longrightarrow> returns (strcmp_eq p t)"
  by (induction p t rule: strcmp_eq.induct) (auto simp: cstring_Cons)

lemma strcmp_eq_iff: "cstring p \<Longrightarrow> 0 \<notin> set t \<Longrightarrow> strcmp_eq p t = Inr (str_of p = t)"
  by (induction p t rule: strcmp_eq.induct) (auto simp: cstring_Cons)

lemma skip_space_ok: "cstring p \<Longrightarrow> \<exists>q. skip_space p = Inr q \<and> cstring q"
  by (induction p rule: skip_space.induct) (auto simp: cstring_Cons isspace_def)

lemma digit_run_ok: "cstring p \<Longrightarrow> \<exists>ds q. digit_run p = Inr (ds, q) \<and> cstring q"
proof (induction p rule: digit_run.induct)
  case (2 c cs)
  then show ?case by (cases "c = 0") (auto simp: cstring_Cons)
qed simp

lemma strtol_eq:
  assumes "skip_space p = Inr q" "deref q = Inr c"
    and "digit_run (if c = 0x2D \<or> c = 0x2B then drop 1 q else q) = Inr (ds, r)"
  shows "strtol p = (if ds = [] then Inr (0, p)
     else Inr (max (- (2 ^ 31)) (min (2 ^ 31 - 1) (if c = 0x2D then - int (dec_val ds) else int (dec_val ds))), r))"
  unfolding strtol_def assms(1) and_then.simps assms(2) assms(3) prod.case Let_def ..

lemma strtol_ok:
  assumes "cstring p"
  shows "\<exists>v e. strtol p = Inr (v, e) \<and> cstring e \<and> - (2 ^ 31) \<le> v \<and> v < 2 ^ 31"
proof -
  obtain q where q: "skip_space p = Inr q" "cstring q" using skip_space_ok [OF assms] by blast
  then obtain c cs where c: "q = c # cs" by (cases q) auto
  let ?q = "if c = 0x2D \<or> c = 0x2B then drop 1 q else q"
  have "cstring ?q" using q(2) c by (auto simp: cstring_Cons)
  then obtain ds r where r: "digit_run ?q = Inr (ds, r)" "cstring r" using digit_run_ok by blast
  have "deref q = Inr c" by (simp add: c)
  from strtol_eq [OF q(1) this r(1)] r(2) assms show ?thesis by auto
qed

end
