(* ===== verification/Minmea.thy ===== *)
theory Minmea
  imports C_String
begin

text \<open>
  \<open>applications/minmea.c\<close>: checksum, sentence check and the format-driven scanner
  \<open>minmea_scan\<close>.  A sentence is the list of bytes from the pointer to the end of its buffer.

  The variable arguments of \<open>minmea_scan\<close> are destinations; the model returns the values in the
  order in which they are stored, so that a scan that fails halfway still says what it stored.
  \<open>int\<close> and \<open>int_least32_t\<close> are integers: the only results that can leave the 32 bit range are
  checked where they are computed and are then the fault \<open>IntOverflow\<close>.
\<close>

section \<open>Checksum and check\<close>

definition hex2int :: "u8 \<Rightarrow> int" where
  "hex2int c =
     (if 0x30 \<le> c \<and> c \<le> 0x39 then uint c - 0x30
      else if 0x41 \<le> c \<and> c \<le> 0x46 then uint c - 0x41 + 10
      else if 0x61 \<le> c \<and> c \<le> 0x66 then uint c - 0x61 + 10
      else - 1)"

fun checksum_loop :: "mem \<Rightarrow> u8 \<Rightarrow> u8 res" where
  "checksum_loop [] checksum = Inl OutOfBounds"
| "checksum_loop (c # cs) checksum =
     (if c \<noteq> 0 \<and> c \<noteq> 0x2A then checksum_loop cs (checksum XOR c) else Inr checksum)"

definition minmea_checksum :: "mem \<Rightarrow> u8 res" where
  "minmea_checksum sentence =
     and_then (deref sentence) (\<lambda>c.
       checksum_loop (if c = 0x24 then drop 1 sentence else sentence) 0)"

definition MINMEA_MAX_LENGTH :: nat where "MINMEA_MAX_LENGTH = 80"

text \<open>The loop of \<open>minmea_check\<close>: the pointer where it stops, and the checksum.\<close>

fun check_loop :: "mem \<Rightarrow> u8 \<Rightarrow> (mem \<times> u8) res" where
  "check_loop [] checksum = Inl OutOfBounds"
| "check_loop (c # cs) checksum =
     (if c \<noteq> 0 \<and> c \<noteq> 0x2A \<and> isprint c then check_loop cs (checksum XOR c)
      else Inr (c # cs, checksum))"

text \<open>
  The two digits behind \<open>'*'\<close>: \<open>None\<close> for \<open>return false\<close>, otherwise the pointer behind them.
\<close>

definition check_digits :: "mem \<Rightarrow> u8 \<Rightarrow> (mem option) res" where
  "check_digits p checksum =
     and_then (deref p) (\<lambda>c1. let upper = hex2int c1 in
       if upper = - 1 then Inr None
       else and_then (deref (drop 1 p)) (\<lambda>c2. let lower = hex2int c2 in
         if lower = - 1 then Inr None
         else let expected = upper * 16 + lower in
           if uint checksum \<noteq> expected then Inr None else Inr (Some (drop 2 p))))"

definition check_tail :: "mem \<Rightarrow> bool res" where
  "check_tail p =
     and_then (deref p) (\<lambda>c. if c = 0 then Inr True
       else and_then (strcmp_eq p [0x0A]) (\<lambda>e1. if e1 then Inr True else strcmp_eq p [0x0D, 0x0A]))"

definition minmea_check :: "mem \<Rightarrow> bool \<Rightarrow> bool res" where
  "minmea_check sentence strict =
     and_then (strlen sentence) (\<lambda>n.
       if n > MINMEA_MAX_LENGTH + 3 then Inr False
       else and_then (deref sentence) (\<lambda>c.
         if c \<noteq> 0x24 then Inr False
         else and_then (check_loop (drop 1 sentence) 0) (\<lambda>(p, checksum).
           and_then (deref p) (\<lambda>d.
             if d = 0x2A
             then and_then (check_digits (drop 1 p) checksum) (\<lambda>r.
                    case r of None \<Rightarrow> Inr False | Some q \<Rightarrow> check_tail q)
             else if strict then Inr False
             else check_tail p))))"

section \<open>Fields\<close>

definition minmea_isfield :: "u8 \<Rightarrow> bool" where
  "minmea_isfield c \<longleftrightarrow> isprint c \<and> c \<noteq> 0x2C \<and> c \<noteq> 0x2A"

fun skip_field :: "mem \<Rightarrow> mem res" where
  "skip_field [] = Inl OutOfBounds"
| "skip_field (c # cs) = (if minmea_isfield c then skip_field cs else Inr (c # cs))"

text \<open>\<open>next_field()\<close>: the new \<open>sentence\<close> and \<open>field\<close>; \<open>None\<close> is the null pointer.\<close>

definition next_field :: "mem \<Rightarrow> (mem \<times> mem option) res" where
  "next_field sentence =
     and_then (skip_field sentence) (\<lambda>p. and_then (deref p) (\<lambda>c.
       if c = 0x2C then Inr (drop 1 p, Some (drop 1 p)) else Inr (p, None)))"

text \<open>\<open>field && minmea_isfield(*field)\<close>, with the character.\<close>

definition field_head :: "mem option \<Rightarrow> (u8 option) res" where
  "field_head field =
     (case field of None \<Rightarrow> Inr None
      | Some p \<Rightarrow> and_then (deref p) (\<lambda>c. Inr (if minmea_isfield c then Some c else None)))"

record minmea_float =
  mf_value :: int
  mf_scale :: int

record minmea_date =
  dt_day :: int
  dt_month :: int
  dt_year :: int

record minmea_time =
  hours :: int
  minutes :: int
  seconds :: int
  microseconds :: int

datatype scan_val =
    VChar u8 | VInt int | VFloat minmea_float | VStr mem | VType mem | VDate minmea_date | VTime minmea_time

text \<open>
  One conversion: \<open>None\<close> is \<open>goto parse_error\<close>.
\<close>

definition scan_c :: "mem option \<Rightarrow> (scan_val option) res" where
  "scan_c field =
     and_then (field_head field) (\<lambda>r. Inr (Some (VChar (case r of None \<Rightarrow> 0 | Some c \<Rightarrow> c))))"

definition scan_d :: "mem option \<Rightarrow> (scan_val option) res" where
  "scan_d field =
     and_then (field_head field) (\<lambda>r. Inr (case r of
         None \<Rightarrow> Some (VInt 0)
       | Some c \<Rightarrow>
           if c = 0x4E \<or> c = 0x45 then Some (VInt 1)
           else if c = 0x53 \<or> c = 0x57 then Some (VInt (- 1))
           else None))"

section \<open>Numbers\<close>

definition INT_LEAST32_MAX :: int where "INT_LEAST32_MAX = 2147483647"

text \<open>The state \<open>(sign, value, scale)\<close> of the fractional conversion and one turn of its loop.\<close>

type_synonym frac_st = "int \<times> int \<times> int"

datatype frac_next = Go frac_st | Break frac_st | Bad

definition frac_digit :: "int \<Rightarrow> frac_st \<Rightarrow> frac_next res" where
  "frac_digit digit st =
     (case st of (sign, value0, scale) \<Rightarrow>
        let value = (if value0 = - 1 then 0 else value0) in
        if value > (INT_LEAST32_MAX - digit) div 10
        then Inr (if scale \<noteq> 0 then Break (sign, value, scale) else Bad)
        else if scale = 0 then Inr (Go (sign, 10 * value + digit, scale))
        else if scale * 10 > INT_LEAST32_MAX then Inl IntOverflow
        else Inr (Go (sign, 10 * value + digit, scale * 10)))"

definition frac_char :: "u8 \<Rightarrow> frac_st \<Rightarrow> frac_next res" where
  "frac_char c st =
     (case st of (sign, value, scale) \<Rightarrow>
        if c = 0x2B \<and> sign = 0 \<and> value = - 1 then Inr (Go (1, value, scale))
        else if c = 0x2D \<and> sign = 0 \<and> value = - 1 then Inr (Go (- 1, value, scale))
        else if is_dig c then frac_digit (int (dval c)) st
        else if c = 0x2E \<and> scale = 0 then Inr (Go (sign, value, 1))
        else if c = 0x20
        then Inr (if sign \<noteq> 0 \<or> value \<noteq> - 1 \<or> scale \<noteq> 0 then Bad else Go st)
        else Inr Bad)"

fun frac_loop :: "mem \<Rightarrow> frac_st \<Rightarrow> (frac_st option) res" where
  "frac_loop [] st = Inl OutOfBounds"
| "frac_loop (c # cs) st =
     (if minmea_isfield c
      then and_then (frac_char c st) (\<lambda>r. case r of
             Go st' \<Rightarrow> frac_loop cs st' | Break st' \<Rightarrow> Inr (Some st') | Bad \<Rightarrow> Inr None)
      else Inr (Some st))"

definition frac_result :: "frac_st \<Rightarrow> minmea_float option" where
  "frac_result st =
     (case st of (sign, value, scale) \<Rightarrow>
        if (sign \<noteq> 0 \<or> scale \<noteq> 0) \<and> value = - 1 then None
        else let v1 = (if value = - 1 then 0 else value);
                 s1 = (if value = - 1 then 0 else if scale = 0 then 1 else scale);
                 v2 = (if sign \<noteq> 0 then v1 * sign else v1)
             in Some \<lparr>mf_value = v2, mf_scale = s1\<rparr>)"

definition scan_f :: "mem option \<Rightarrow> (scan_val option) res" where
  "scan_f field =
     and_then (case field of None \<Rightarrow> Inr (Some (0, - 1, 0)) | Some p \<Rightarrow> frac_loop p (0, - 1, 0))
       (\<lambda>r. Inr (Option.bind r (\<lambda>st. map_option VFloat (frac_result st))))"

definition scan_i :: "mem option \<Rightarrow> (scan_val option) res" where
  "scan_i field =
     (case field of
        None \<Rightarrow> Inr (Some (VInt 0))
      | Some p \<Rightarrow> and_then (strtol p) (\<lambda>(v, endptr). and_then (deref endptr) (\<lambda>c.
          Inr (if minmea_isfield c then None else Some (VInt v)))))"

section \<open>Strings, dates and times\<close>

fun copy_field :: "mem \<Rightarrow> mem res" where
  "copy_field [] = Inl OutOfBounds"
| "copy_field (c # cs) =
     (if minmea_isfield c then and_then (copy_field cs) (\<lambda>s. Inr (c # s)) else Inr [])"

definition scan_s :: "mem option \<Rightarrow> (scan_val option) res" where
  "scan_s field =
     (case field of None \<Rightarrow> Inr (Some (VStr []))
      | Some p \<Rightarrow> and_then (copy_field p) (\<lambda>s. Inr (Some (VStr s))))"

text \<open>\<open>for (f = 0; f < n; f++) if (!test(p[f])) goto parse_error;\<close>\<close>

fun all_chars :: "(u8 \<Rightarrow> bool) \<Rightarrow> nat \<Rightarrow> mem \<Rightarrow> bool res" where
  "all_chars test 0 p = Inr True"
| "all_chars test (Suc n) p =
     and_then (deref p) (\<lambda>c. if test c then all_chars test n (drop 1 p) else Inr False)"

definition scan_t :: "mem option \<Rightarrow> (scan_val option) res" where
  "scan_t field =
     (case field of None \<Rightarrow> Inr None
      | Some p \<Rightarrow> and_then (deref p) (\<lambda>c.
          if c \<noteq> 0x24 then Inr None
          else and_then (all_chars minmea_isfield 5 (drop 1 p)) (\<lambda>ok.
            Inr (if ok then Some (VType (take 5 (drop 1 p))) else None))))"

text \<open>\<open>char arr[] = {p[i], p[i+1], '\0'}; strtol(arr, NULL, 10)\<close>\<close>

definition two_at :: "mem \<Rightarrow> nat \<Rightarrow> int res" where
  "two_at p i =
     and_then (mem_at p i) (\<lambda>a. and_then (mem_at p (i + 1)) (\<lambda>b.
       and_then (strtol [a, b, 0]) (\<lambda>(v, e). Inr v)))"

definition scan_D :: "mem option \<Rightarrow> (scan_val option) res" where
  "scan_D field =
     and_then (field_head field) (\<lambda>r. case (r, field) of
       (Some c, Some p) \<Rightarrow>
         and_then (all_chars is_dig 6 p) (\<lambda>ok.
           if \<not> ok then Inr None
           else and_then (two_at p 0) (\<lambda>d. and_then (two_at p 2) (\<lambda>m. and_then (two_at p 4) (\<lambda>y.
             Inr (Some (VDate \<lparr>dt_day = d, dt_month = m, dt_year = y\<rparr>))))))
     | _ \<Rightarrow> Inr (Some (VDate \<lparr>dt_day = - 1, dt_month = - 1, dt_year = - 1\<rparr>)))"

fun micro_loop :: "mem \<Rightarrow> u32 \<Rightarrow> u32 \<Rightarrow> (u32 \<times> u32) res" where
  "micro_loop [] v sc = Inl OutOfBounds"
| "micro_loop (c # cs) v sc =
     (if is_dig c \<and> sc > 1 then micro_loop cs (v * 10 + (ucast c - 0x30)) (sc div 10)
      else Inr (v, sc))"

definition scan_micro :: "mem \<Rightarrow> int res" where
  "scan_micro p =
     and_then (deref p) (\<lambda>c.
       if c = 0x2E
       then and_then (micro_loop (drop 1 p) 0 1000000) (\<lambda>(v, sc). Inr (sint (v * sc)))
       else Inr 0)"

definition scan_T :: "mem option \<Rightarrow> (scan_val option) res" where
  "scan_T field =
     and_then (field_head field) (\<lambda>r. case (r, field) of
       (Some c, Some p) \<Rightarrow>
         and_then (all_chars is_dig 6 p) (\<lambda>ok.
           if \<not> ok then Inr None
           else and_then (two_at p 0) (\<lambda>h. and_then (two_at p 2) (\<lambda>i. and_then (two_at p 4) (\<lambda>s.
             and_then (scan_micro (drop 6 p)) (\<lambda>u.
               Inr (Some (VTime \<lparr>hours = h, minutes = i, seconds = s, microseconds = u\<rparr>)))))))
     | _ \<Rightarrow> Inr (Some (VTime \<lparr>hours = - 1, minutes = - 1, seconds = - 1, microseconds = - 1\<rparr>)))"

section \<open>The scanner\<close>

text \<open>The \<open>switch\<close>: the values stored, at most one.\<close>

definition scan_item :: "char \<Rightarrow> mem option \<Rightarrow> (scan_val list option) res" where
  "scan_item type field =
     (if type = CHR ''_'' then Inr (Some [])
      else and_then
        (if type = CHR ''c'' then scan_c field
         else if type = CHR ''d'' then scan_d field
         else if type = CHR ''f'' then scan_f field
         else if type = CHR ''i'' then scan_i field
         else if type = CHR ''s'' then scan_s field
         else if type = CHR ''t'' then scan_t field
         else if type = CHR ''D'' then scan_D field
         else if type = CHR ''T'' then scan_T field
         else Inr None)
        (\<lambda>r. Inr (map_option (\<lambda>v. [v]) r)))"

fun scan_loop ::
  "string \<Rightarrow> mem \<Rightarrow> mem option \<Rightarrow> bool \<Rightarrow> scan_val list \<Rightarrow> (bool \<times> scan_val list) res" where
  "scan_loop [] sentence field optional vs = Inr (True, vs)"
| "scan_loop (type # format) sentence field optional vs =
     (if type = CHR '';'' then scan_loop format sentence field True vs
      else if field = None \<and> \<not> optional then Inr (False, vs)
      else and_then (scan_item type field) (\<lambda>r. case r of
             None \<Rightarrow> Inr (False, vs)
           | Some v \<Rightarrow> and_then (next_field sentence) (\<lambda>(sentence', field').
               scan_loop format sentence' field' optional (vs @ v))))"

definition minmea_scan :: "mem \<Rightarrow> string \<Rightarrow> (bool \<times> scan_val list) res" where
  "minmea_scan sentence format = scan_loop format sentence (Some sentence) False []"

end
