(* ===== verification/Minmea_Parse.thy ===== *)
theory Minmea_Parse
  imports Minmea Binary_Float "HOL-Library.Signed_Division"
begin

text \<open>
  \<open>applications/minmea.c\<close> and \<open>minmea.h\<close>: the sentence records, the identification of a
  sentence, the eight parsers and the conversions of fixed-point values.

  A parser hands the scanner one destination per conversion.  Destinations inside the frame are
  a list of slots; automatic variables (\<open>type\<close>, \<open>validity\<close>, the directions and the unit letters)
  are read back from the list of scanned values, and only after a scan that stored all of them.
  A scan that fails leaves what it had stored in the frame.
\<close>

section \<open>Destinations\<close>

definition slot_c :: "((u8 \<Rightarrow> u8) \<Rightarrow> 's \<Rightarrow> 's) \<Rightarrow> scan_val \<Rightarrow> 's \<Rightarrow> 's" where
  "slot_c upd v = (case v of VChar x \<Rightarrow> upd (\<lambda>_. x) | _ \<Rightarrow> id)"

definition slot_i :: "((int \<Rightarrow> int) \<Rightarrow> 's \<Rightarrow> 's) \<Rightarrow> scan_val \<Rightarrow> 's \<Rightarrow> 's" where
  "slot_i upd v = (case v of VInt x \<Rightarrow> upd (\<lambda>_. x) | _ \<Rightarrow> id)"

definition slot_f :: "((minmea_float \<Rightarrow> minmea_float) \<Rightarrow> 's \<Rightarrow> 's) \<Rightarrow> scan_val \<Rightarrow> 's \<Rightarrow> 's" where
  "slot_f upd v = (case v of VFloat x \<Rightarrow> upd (\<lambda>_. x) | _ \<Rightarrow> id)"

definition slot_D :: "((minmea_date \<Rightarrow> minmea_date) \<Rightarrow> 's \<Rightarrow> 's) \<Rightarrow> scan_val \<Rightarrow> 's \<Rightarrow> 's" where
  "slot_D upd v = (case v of VDate x \<Rightarrow> upd (\<lambda>_. x) | _ \<Rightarrow> id)"

definition slot_T :: "((minmea_time \<Rightarrow> minmea_time) \<Rightarrow> 's \<Rightarrow> 's) \<Rightarrow> scan_val \<Rightarrow> 's \<Rightarrow> 's" where
  "slot_T upd v = (case v of VTime x \<Rightarrow> upd (\<lambda>_. x) | _ \<Rightarrow> id)"

text \<open>An automatic variable: nothing of the frame changes.\<close>

definition slot_local :: "scan_val \<Rightarrow> 's \<Rightarrow> 's" where
  "slot_local v = id"

fun store :: "(scan_val \<Rightarrow> 's \<Rightarrow> 's) list \<Rightarrow> scan_val list \<Rightarrow> 's \<Rightarrow> 's" where
  "store (f # fs) (v # vs) s = store fs vs (f v s)"
| "store [] vs s = s"
| "store fs [] s = s"

text \<open>The automatic variables, by the position of their conversion.\<close>

definition arg_type :: "scan_val list \<Rightarrow> mem" where
  "arg_type vs = (case vs of VType t # _ \<Rightarrow> t | _ \<Rightarrow> [])"

definition arg_char :: "scan_val list \<Rightarrow> nat \<Rightarrow> u8" where
  "arg_char vs i = (case drop i vs of VChar c # _ \<Rightarrow> c | _ \<Rightarrow> 0)"

definition arg_int :: "scan_val list \<Rightarrow> nat \<Rightarrow> int" where
  "arg_int vs i = (case drop i vs of VInt z # _ \<Rightarrow> z | _ \<Rightarrow> 0)"

text \<open>\<open>!strcmp(type+2, "...")\<close>\<close>

definition is_type :: "scan_val list \<Rightarrow> string \<Rightarrow> bool" where
  "is_type vs t \<longleftrightarrow> drop 2 (arg_type vs) = bytes t"

text \<open>\<open>f.value *= direction\<close>\<close>

definition scale_by :: "int \<Rightarrow> minmea_float \<Rightarrow> minmea_float" where
  "scale_by dir f = f\<lparr>mf_value := mf_value f * dir\<rparr>"

text \<open>
  The common frame of the parsers: scan, store, check the type, then \<open>fin\<close>; the flag is the
  function's return value.
\<close>

definition parse_with ::
  "string \<Rightarrow> (scan_val \<Rightarrow> 's \<Rightarrow> 's) list \<Rightarrow> string \<Rightarrow> (scan_val list \<Rightarrow> 's \<Rightarrow> (bool \<times> 's) res) \<Rightarrow>
   's \<Rightarrow> mem \<Rightarrow> (bool \<times> 's) res" where
  "parse_with format slots ty fin frame sentence =
     and_then (minmea_scan sentence format) (\<lambda>(ok, vs).
       let frame' = store slots vs frame in
       if \<not> ok then Inr (False, frame')
       else if \<not> is_type vs ty then Inr (False, frame')
       else fin vs frame')"

section \<open>Identification\<close>

text \<open>\<open>minmea_talker_id\<close>: the flag, and what is stored in \<open>talker\<close>.\<close>

definition minmea_talker_id :: "mem \<Rightarrow> (bool \<times> mem option) res" where
  "minmea_talker_id sentence =
     and_then (minmea_scan sentence ''t'') (\<lambda>(ok, vs).
       Inr (if ok then (True, Some (take 2 (arg_type vs) @ [0])) else (False, None)))"

datatype minmea_sentence_id_t =
    MINMEA_INVALID | MINMEA_UNKNOWN | MINMEA_SENTENCE_RMC | MINMEA_SENTENCE_GGA | MINMEA_SENTENCE_GSA
  | MINMEA_SENTENCE_GLL | MINMEA_SENTENCE_GST | MINMEA_SENTENCE_GSV | MINMEA_SENTENCE_VTG | MINMEA_SENTENCE_ZDA

definition minmea_sentence_id :: "mem \<Rightarrow> bool \<Rightarrow> minmea_sentence_id_t res" where
  "minmea_sentence_id sentence strict =
     and_then (minmea_check sentence strict) (\<lambda>good.
       if \<not> good then Inr MINMEA_INVALID
       else and_then (minmea_scan sentence ''t'') (\<lambda>(ok, vs).
         Inr (if \<not> ok then MINMEA_INVALID
              else if is_type vs ''RMC'' then MINMEA_SENTENCE_RMC
              else if is_type vs ''GGA'' then MINMEA_SENTENCE_GGA
              else if is_type vs ''GSA'' then MINMEA_SENTENCE_GSA
              else if is_type vs ''GLL'' then MINMEA_SENTENCE_GLL
              else if is_type vs ''GST'' then MINMEA_SENTENCE_GST
              else if is_type vs ''GSV'' then MINMEA_SENTENCE_GSV
              else if is_type vs ''VTG'' then MINMEA_SENTENCE_VTG
              else if is_type vs ''ZDA'' then MINMEA_SENTENCE_ZDA
              else MINMEA_UNKNOWN)))"

section \<open>RMC, GGA, GLL\<close>

record minmea_sentence_rmc =
  rm_time :: minmea_time
  rm_valid :: bool
  rm_latitude :: minmea_float
  rm_longitude :: minmea_float
  rm_speed :: minmea_float
  rm_course :: minmea_float
  rm_date :: minmea_date
  rm_variation :: minmea_float

definition rmc_slots :: "(scan_val \<Rightarrow> minmea_sentence_rmc \<Rightarrow> minmea_sentence_rmc) list" where
  "rmc_slots =
     [slot_local, slot_T rm_time_update, slot_local, slot_f rm_latitude_update, slot_local,
      slot_f rm_longitude_update, slot_local, slot_f rm_speed_update, slot_f rm_course_update,
      slot_D rm_date_update, slot_f rm_variation_update, slot_local]"

definition rmc_fin :: "scan_val list \<Rightarrow> minmea_sentence_rmc \<Rightarrow> (bool \<times> minmea_sentence_rmc) res" where
  "rmc_fin vs frame = Inr (True, frame\<lparr>rm_valid := arg_char vs 2 = 0x41,
     rm_latitude := scale_by (arg_int vs 4) (rm_latitude frame),
     rm_longitude := scale_by (arg_int vs 6) (rm_longitude frame),
     rm_variation := scale_by (arg_int vs 11) (rm_variation frame)\<rparr>)"

definition minmea_parse_rmc :: "minmea_sentence_rmc \<Rightarrow> mem \<Rightarrow> (bool \<times> minmea_sentence_rmc) res" where
  "minmea_parse_rmc = parse_with ''tTcfdfdffDfd'' rmc_slots ''RMC'' rmc_fin"

record minmea_sentence_gga =
  gg_time :: minmea_time
  gg_latitude :: minmea_float
  gg_longitude :: minmea_float
  gg_fix_quality :: int
  gg_satellites_tracked :: int
  gg_hdop :: minmea_float
  gg_altitude :: minmea_float
  gg_altitude_units :: u8
  gg_height :: minmea_float
  gg_height_units :: u8
  gg_dgps_age :: int

definition gga_slots :: "(scan_val \<Rightarrow> minmea_sentence_gga \<Rightarrow> minmea_sentence_gga) list" where
  "gga_slots =
     [slot_local, slot_T gg_time_update, slot_f gg_latitude_update, slot_local, slot_f gg_longitude_update,
      slot_local, slot_i gg_fix_quality_update, slot_i gg_satellites_tracked_update,
      slot_f gg_hdop_update, slot_f gg_altitude_update, slot_c gg_altitude_units_update,
      slot_f gg_height_update, slot_c gg_height_units_update, slot_i gg_dgps_age_update]"

definition gga_fin :: "scan_val list \<Rightarrow> minmea_sentence_gga \<Rightarrow> (bool \<times> minmea_sentence_gga) res" where
  "gga_fin vs frame = Inr (True, frame\<lparr>
     gg_latitude := scale_by (arg_int vs 3) (gg_latitude frame),
     gg_longitude := scale_by (arg_int vs 5) (gg_longitude frame)\<rparr>)"

definition minmea_parse_gga :: "minmea_sentence_gga \<Rightarrow> mem \<Rightarrow> (bool \<times> minmea_sentence_gga) res" where
  "minmea_parse_gga = parse_with ''tTfdfdiiffcfci_'' gga_slots ''GGA'' gga_fin"

record minmea_sentence_gll =
  gl_latitude :: minmea_float
  gl_longitude :: minmea_float
  gl_time :: minmea_time
  gl_status :: u8
  gl_mode :: u8

definition gll_slots :: "(scan_val \<Rightarrow> minmea_sentence_gll \<Rightarrow> minmea_sentence_gll) list" where
  "gll_slots =
     [slot_local, slot_f gl_latitude_update, slot_local, slot_f gl_longitude_update, slot_local,
      slot_T gl_time_update, slot_c gl_status_update, slot_c gl_mode_update]"

definition gll_fin :: "scan_val list \<Rightarrow> minmea_sentence_gll \<Rightarrow> (bool \<times> minmea_sentence_gll) res" where
  "gll_fin vs frame = Inr (True, frame\<lparr>
     gl_latitude := scale_by (arg_int vs 2) (gl_latitude frame),
     gl_longitude := scale_by (arg_int vs 4) (gl_longitude frame)\<rparr>)"

definition minmea_parse_gll :: "minmea_sentence_gll \<Rightarrow> mem \<Rightarrow> (bool \<times> minmea_sentence_gll) res" where
  "minmea_parse_gll = parse_with ''tfdfdTc;c'' gll_slots ''GLL'' gll_fin"

section \<open>GSA, GST, GSV\<close>

text \<open>Nothing is left to do after the type check.\<close>

definition fin_true :: "scan_val list \<Rightarrow> 's \<Rightarrow> (bool \<times> 's) res" where
  "fin_true vs frame = Inr (True, frame)"

record minmea_sentence_gsa =
  sa_mode :: u8
  sa_fix_type :: int
  sa_sats :: "int list"
  sa_pdop :: minmea_float
  sa_hdop :: minmea_float
  sa_vdop :: minmea_float

definition sats_at :: "nat \<Rightarrow> (int \<Rightarrow> int) \<Rightarrow> minmea_sentence_gsa \<Rightarrow> minmea_sentence_gsa" where
  "sats_at k f s = s\<lparr>sa_sats := (sa_sats s)[k := f (sa_sats s ! k)]\<rparr>"

definition gsa_slots :: "(scan_val \<Rightarrow> minmea_sentence_gsa \<Rightarrow> minmea_sentence_gsa) list" where
  "gsa_slots =
     [slot_local, slot_c sa_mode_update, slot_i sa_fix_type_update] @ map (\<lambda>k. slot_i (sats_at k)) [0..<12]
     @ [slot_f sa_pdop_update, slot_f sa_hdop_update, slot_f sa_vdop_update]"

definition minmea_parse_gsa :: "minmea_sentence_gsa \<Rightarrow> mem \<Rightarrow> (bool \<times> minmea_sentence_gsa) res" where
  "minmea_parse_gsa = parse_with ''tciiiiiiiiiiiiifff'' gsa_slots ''GSA'' fin_true"

record minmea_sentence_gst =
  st_time :: minmea_time
  st_rms_deviation :: minmea_float
  st_semi_major_deviation :: minmea_float
  st_semi_minor_deviation :: minmea_float
  st_semi_major_orientation :: minmea_float
  st_latitude_error_deviation :: minmea_float
  st_longitude_error_deviation :: minmea_float
  st_altitude_error_deviation :: minmea_float

definition gst_slots :: "(scan_val \<Rightarrow> minmea_sentence_gst \<Rightarrow> minmea_sentence_gst) list" where
  "gst_slots =
     [slot_local, slot_T st_time_update, slot_f st_rms_deviation_update, slot_f st_semi_major_deviation_update,
      slot_f st_semi_minor_deviation_update, slot_f st_semi_major_orientation_update,
      slot_f st_latitude_error_deviation_update, slot_f st_longitude_error_deviation_update,
      slot_f st_altitude_error_deviation_update]"

definition minmea_parse_gst :: "minmea_sentence_gst \<Rightarrow> mem \<Rightarrow> (bool \<times> minmea_sentence_gst) res" where
  "minmea_parse_gst = parse_with ''tTfffffff'' gst_slots ''GST'' fin_true"

record minmea_sat_info =
  nr :: int
  elevation :: int
  azimuth :: int
  snr :: int

record minmea_sentence_gsv =
  sv_total_msgs :: int
  sv_msg_nr :: int
  sv_total_sats :: int
  sv_sats :: "minmea_sat_info list"

definition sat_at ::
  "nat \<Rightarrow> ((int \<Rightarrow> int) \<Rightarrow> minmea_sat_info \<Rightarrow> minmea_sat_info) \<Rightarrow> (int \<Rightarrow> int) \<Rightarrow>
   minmea_sentence_gsv \<Rightarrow> minmea_sentence_gsv" where
  "sat_at k upd f s = s\<lparr>sv_sats := (sv_sats s)[k := upd f (sv_sats s ! k)]\<rparr>"

definition gsv_slots :: "(scan_val \<Rightarrow> minmea_sentence_gsv \<Rightarrow> minmea_sentence_gsv) list" where
  "gsv_slots =
     [slot_local, slot_i sv_total_msgs_update, slot_i sv_msg_nr_update, slot_i sv_total_sats_update]
     @ concat (map (\<lambda>k. [slot_i (sat_at k nr_update), slot_i (sat_at k elevation_update),
                         slot_i (sat_at k azimuth_update), slot_i (sat_at k snr_update)]) [0..<4])"

definition minmea_parse_gsv :: "minmea_sentence_gsv \<Rightarrow> mem \<Rightarrow> (bool \<times> minmea_sentence_gsv) res" where
  "minmea_parse_gsv = parse_with ''tiii;iiiiiiiiiiiiiiii'' gsv_slots ''GSV'' fin_true"

section \<open>VTG, ZDA\<close>

record minmea_sentence_vtg =
  vt_true_track_degrees :: minmea_float
  vt_magnetic_track_degrees :: minmea_float
  vt_speed_knots :: minmea_float
  vt_speed_kph :: minmea_float
  vt_faa_mode :: u8

definition vtg_slots :: "(scan_val \<Rightarrow> minmea_sentence_vtg \<Rightarrow> minmea_sentence_vtg) list" where
  "vtg_slots =
     [slot_local, slot_f vt_true_track_degrees_update, slot_local, slot_f vt_magnetic_track_degrees_update,
      slot_local, slot_f vt_speed_knots_update, slot_local, slot_f vt_speed_kph_update, slot_local,
      slot_local]"

definition vtg_fin :: "scan_val list \<Rightarrow> minmea_sentence_vtg \<Rightarrow> (bool \<times> minmea_sentence_vtg) res" where
  "vtg_fin vs frame =
     (if arg_char vs 2 \<noteq> 0x54 \<or> arg_char vs 4 \<noteq> 0x4D \<or> arg_char vs 6 \<noteq> 0x4E \<or> arg_char vs 8 \<noteq> 0x4B
      then Inr (False, frame)
      else Inr (True, frame\<lparr>vt_faa_mode := arg_char vs 9\<rparr>))"

definition minmea_parse_vtg :: "minmea_sentence_vtg \<Rightarrow> mem \<Rightarrow> (bool \<times> minmea_sentence_vtg) res" where
  "minmea_parse_vtg = parse_with ''tfcfcfcfc;c'' vtg_slots ''VTG'' vtg_fin"

record minmea_sentence_zda =
  zd_time :: minmea_time
  zd_date :: minmea_date
  zd_hour_offset :: int
  zd_minute_offset :: int

definition zda_slots :: "(scan_val \<Rightarrow> minmea_sentence_zda \<Rightarrow> minmea_sentence_zda) list" where
  "zda_slots =
     [slot_local, slot_T zd_time_update, slot_i (\<lambda>f. zd_date_update (dt_day_update f)),
      slot_i (\<lambda>f. zd_date_update (dt_month_update f)), slot_i (\<lambda>f. zd_date_update (dt_year_update f)),
      slot_i zd_hour_offset_update, slot_i zd_minute_offset_update]"

text \<open>\<open>abs\<close> of the least \<open>int\<close> does not fit an \<open>int\<close>.\<close>

definition zda_fin :: "scan_val list \<Rightarrow> minmea_sentence_zda \<Rightarrow> (bool \<times> minmea_sentence_zda) res" where
  "zda_fin vs frame =
     (if zd_hour_offset frame = - (2 ^ 31) then Inl IntOverflow
      else if \<bar>zd_hour_offset frame\<bar> > 13 \<or> zd_minute_offset frame > 59 \<or> zd_minute_offset frame < 0
      then Inr (False, frame)
      else Inr (True, frame))"

definition minmea_parse_zda :: "minmea_sentence_zda \<Rightarrow> mem \<Rightarrow> (bool \<times> minmea_sentence_zda) res" where
  "minmea_parse_zda = parse_with ''tTiiiii'' zda_slots ''ZDA'' zda_fin"

section \<open>Fixed-point values\<close>

text \<open>The result of a signed operation, if it fits.\<close>

definition s32_res :: "int \<Rightarrow> int res" where
  "s32_res v = (if - (2 ^ 31) \<le> v \<and> v < 2 ^ 31 then Inr v else Inl IntOverflow)"

text \<open>C's division truncates towards zero: \<open>sdiv\<close> and \<open>smod\<close>.\<close>

definition c_div :: "int \<Rightarrow> int \<Rightarrow> int res" where
  "c_div a b = (if b = 0 then Inl DivByZero else s32_res (a sdiv b))"

definition minmea_rescale :: "minmea_float \<Rightarrow> int \<Rightarrow> int res" where
  "minmea_rescale f new_scale =
     (if mf_scale f = 0 then Inr 0
      else if mf_scale f = new_scale then Inr (mf_value f)
      else if mf_scale f > new_scale then
        and_then (s32_res ((of_bool (mf_value f > 0) - of_bool (mf_value f < 0)) * mf_scale f)) (\<lambda>a.
        and_then (c_div a new_scale) (\<lambda>b. and_then (c_div b 2) (\<lambda>c.
        and_then (s32_res (mf_value f + c)) (\<lambda>n.
        and_then (c_div (mf_scale f) new_scale) (\<lambda>d. c_div n d)))))
      else and_then (c_div new_scale (mf_scale f)) (\<lambda>k. s32_res (mf_value f * k)))"

text \<open>\<open>None\<close> is \<open>NAN\<close>.\<close>

definition minmea_tofloat :: "minmea_float \<Rightarrow> rat option" where
  "minmea_tofloat f =
     (if mf_scale f = 0 then None
      else Some (f32 (f32 (of_int (mf_value f)) / f32 (of_int (mf_scale f)))))"

definition minmea_tocoord :: "minmea_float \<Rightarrow> (rat option) res" where
  "minmea_tocoord f =
     (if mf_scale f = 0 then Inr None
      else and_then (s32_res (mf_scale f * 100)) (\<lambda>m.
        and_then (c_div (mf_value f) m) (\<lambda>degrees.
        let mins = mf_value f smod m in
        and_then (s32_res (60 * mf_scale f)) (\<lambda>k.
          Inr (Some (f32 (f32 (of_int degrees) + f32 (f32 (of_int mins) / f32 (of_int k)))))))))"

end
