(* ===== verification/Minmea_Safe.thy ===== *)
theory Minmea_Safe
  imports Minmea_Parse
begin

text \<open>
  The contract between the scanner of \<open>minmea.c\<close> and its conversions, as a locale: on a
  terminated string a conversion reads only inside the string and stores a value of its kind,
  within the bounds of its C type.  Every conversion is an instance; the scanner and the eight
  parsers inherit it.
\<close>

section \<open>Values in range\<close>

text \<open>
  What a stored value satisfies: a fixed-point value is unknown (scale 0) or fits 32 bits with a
  power of ten as its scale; parts of a date or time are two decimal digits, or all \<open>-1\<close>.
\<close>

definition float_ok :: "minmea_float \<Rightarrow> bool" where
  "float_ok f \<longleftrightarrow> mf_value f = 0 \<and> mf_scale f = 0 \<or>
     \<bar>mf_value f\<bar> \<le> INT_LEAST32_MAX \<and> list_ex (\<lambda>k. mf_scale f = 10 ^ k) [0..<10]"

definition date_ok :: "minmea_date \<Rightarrow> bool" where
  "date_ok d \<longleftrightarrow> d = \<lparr>dt_day = - 1, dt_month = - 1, dt_year = - 1\<rparr> \<or>
     list_all (\<lambda>x. 0 \<le> x \<and> x \<le> 99) [dt_day d, dt_month d, dt_year d]"

definition time_ok :: "minmea_time \<Rightarrow> bool" where
  "time_ok t \<longleftrightarrow> t = \<lparr>hours = - 1, minutes = - 1, seconds = - 1, microseconds = - 1\<rparr> \<or>
     list_all (\<lambda>x. 0 \<le> x \<and> x \<le> 99) [hours t, minutes t, seconds t] \<and>
     0 \<le> microseconds t \<and> microseconds t < 1000000"

fun fits :: "char \<Rightarrow> scan_val \<Rightarrow> bool" where
  "fits type (VChar c) = (type = CHR ''c'')"
| "fits type (VInt z) = (type = CHR ''d'' \<and> \<bar>z\<bar> \<le> 1 \<or> type = CHR ''i'' \<and> - (2 ^ 31) \<le> z \<and> z < 2 ^ 31)"
| "fits type (VFloat f) = (type = CHR ''f'' \<and> float_ok f)"
| "fits type (VStr s) = (type = CHR ''s'')"
| "fits type (VType s) = (type = CHR ''t'' \<and> length s = 5 \<and> list_all minmea_isfield s)"
| "fits type (VDate d) = (type = CHR ''D'' \<and> date_ok d)"
| "fits type (VTime t) = (type = CHR ''T'' \<and> time_ok t)"

text \<open>The conversions of a format that store a value.\<close>

definition args :: "string \<Rightarrow> string" where
  "args format = filter (\<lambda>c. c \<noteq> CHR '';'' \<and> c \<noteq> CHR ''_'') format"

text \<open>
  A scan stores values of the kinds its format asks for, in order, all of them when it succeeds.
\<close>

fun scan_typed :: "string \<Rightarrow> (bool \<times> scan_val list) res \<Rightarrow> bool" where
  "scan_typed kinds (Inl e) = (e = IntOverflow)"
| "scan_typed kinds (Inr (ok, vs)) =
     (length vs \<le> length kinds \<and> list_all2 fits (take (length vs) kinds) vs \<and>
      (ok \<longrightarrow> length vs = length kinds))"

text \<open>The invariant of the fractional conversion.\<close>

definition frac_ok :: "frac_st \<Rightarrow> bool" where
  "frac_ok st \<longleftrightarrow> (case st of (sign, value, scale) \<Rightarrow>
     \<bar>sign\<bar> \<le> 1 \<and> - 1 \<le> value \<and> value \<le> INT_LEAST32_MAX \<and>
     (scale = 0 \<or> list_ex (\<lambda>k. scale = 10 ^ k) [0..<10]))"

section \<open>Faults\<close>

text \<open>The only fault of a computation is a signed overflow: nothing is read outside a buffer.\<close>

fun soft :: "'a res \<Rightarrow> bool" where
  "soft (Inl e) = (e = IntOverflow)"
| "soft (Inr x) = True"

lemma soft_and_then [wp_intros]:
  "soft m \<Longrightarrow> (\<And>x. m = Inr x \<Longrightarrow> soft (f x)) \<Longrightarrow> soft (and_then m f)"
  by (cases m) auto

lemma soft_iff: "soft m \<longleftrightarrow> (\<forall>e. m = Inl e \<longrightarrow> e = IntOverflow)"
  by (cases m) auto

lemma soft_returns: "returns m \<Longrightarrow> soft m"
  by (cases m) auto

lemma soft_deref: "cstring p \<Longrightarrow> soft (deref p)"
  by (simp add: soft_returns)

lemma cstring_drop1: "cstring p \<Longrightarrow> deref p = Inr c \<Longrightarrow> c \<noteq> 0 \<Longrightarrow> cstring (drop 1 p)"
  by (auto simp: deref_Inr_iff cstring_Cons)

section \<open>Loops over a terminated string\<close>

lemma not_isfield_0 [simp]: "\<not> minmea_isfield 0"
  by (simp add: minmea_isfield_def isprint_def)

lemma skip_field_ok: "cstring p \<Longrightarrow> \<exists>q. skip_field p = Inr q \<and> cstring q"
  by (induction p rule: skip_field.induct) (auto simp: cstring_Cons)

lemma next_field_ok:
  assumes "cstring p"
  shows "\<exists>q f. next_field p = Inr (q, f) \<and> cstring q \<and> pred_option cstring f"
proof -
  obtain q where q: "skip_field p = Inr q" "cstring q" using skip_field_ok [OF assms] by blast
  then obtain c cs where "q = c # cs" by (cases q) auto
  with q show ?thesis by (auto simp: next_field_def cstring_Cons)
qed

lemma checksum_loop_ok: "cstring p \<Longrightarrow> returns (checksum_loop p k)"
  by (induction p k rule: checksum_loop.induct) (auto simp: cstring_Cons)

lemma check_loop_ok: "cstring p \<Longrightarrow> \<exists>q k'. check_loop p k = Inr (q, k') \<and> cstring q"
  by (induction p k rule: check_loop.induct) (auto simp: cstring_Cons)

lemma copy_field_ok: "cstring p \<Longrightarrow> returns (copy_field p)"
  by (induction p rule: copy_field.induct) (auto simp: cstring_Cons returns_iff)

lemma micro_loop_ok: "cstring p \<Longrightarrow> returns (micro_loop p v sc)"
  by (induction p v sc rule: micro_loop.induct) (auto simp: cstring_Cons)

lemma all_chars_ok: "cstring p \<Longrightarrow> \<not> test 0 \<Longrightarrow> returns (all_chars test n p)"
proof (induction test n p rule: all_chars.induct)
  case (2 test n p)
  then obtain c cs where "p = c # cs" by (cases p) auto
  with 2 show ?case by (cases "c = 0") (auto simp: cstring_Cons)
qed simp

lemma all_chars_True:
  "all_chars test n p = Inr True \<Longrightarrow> n \<le> length p \<and> list_all test (take n p)"
proof (induction test n p rule: all_chars.induct)
  case (2 test n p)
  then obtain c cs where "p = c # cs" by (cases p) auto
  with 2 show ?case by (auto split: if_splits)
qed simp

lemma cstring_drop_chars:
  assumes "cstring p" "\<not> test 0" "list_all test (take n p)"
  shows "cstring (drop n p)"
proof -
  have "0 \<in> set (take n p) \<or> 0 \<in> set (drop n p)"
    using assms(1) unfolding cstring_def by (metis append_take_drop_id set_append UnE)
  with assms(2,3) show ?thesis by (auto simp: cstring_def list_all_iff)
qed

lemma is_dig_not_special:
  assumes "is_dig a"
  shows "\<not> isspace a" "a \<noteq> 0x2D" "a \<noteq> 0x2B" "a \<noteq> 0x2C" "a \<noteq> 0x2A" "a \<noteq> 0x2E" "a \<noteq> 0x20"
    "minmea_isfield a"
  using assms
  by (auto simp: is_dig_iff isspace_def minmea_isfield_def isprint_def word_le_nat_alt word_unat_eq_iff)

lemma two_at_ok:
  assumes "n \<le> length p" "list_all is_dig (take n p)" "i + 1 < n"
  shows "two_at p i = Inr (int (dval (p ! i) * 10 + dval (p ! (i + 1))))"
proof -
  have "take n p ! i = p ! i" "take n p ! (i + 1) = p ! (i + 1)" using assms by auto
  moreover have "i < length (take n p)" "i + 1 < length (take n p)" using assms by auto
  ultimately have d: "is_dig (p ! i)" "is_dig (p ! (i + 1))"
    using assms(2) by (metis list_all_length)+
  have "dval (p ! i) < 10" "dval (p ! (i + 1)) < 10" using d by (auto intro: dval_lt)
  then show ?thesis using assms is_dig_not_special [OF d(1)] d
    by (simp add: two_at_def mem_at_def strtol_def Let_def)
qed

lemma two_at_range:
  assumes "n \<le> length p" "list_all is_dig (take n p)" "i + 1 < n"
  shows "\<exists>v. two_at p i = Inr v \<and> 0 \<le> v \<and> v \<le> 99"
proof -
  have "take n p ! i = p ! i" "take n p ! (i + 1) = p ! (i + 1)" using assms by auto
  then have "is_dig (p ! i)" "is_dig (p ! (i + 1))"
    using assms by (metis add_lessD1 length_take list_all_length min.absorb2)+
  then have "dval (p ! i) < 10" "dval (p ! (i + 1)) < 10" by (auto intro: dval_lt)
  then show ?thesis unfolding two_at_ok [OF assms] by auto
qed

section \<open>Fractions\<close>

lemma pow10_cases: "list_ex (\<lambda>k. s = 10 ^ k) [0..<10] \<longleftrightarrow> (\<exists>k<10. s = (10::int) ^ k)"
  by (auto simp: list_ex_iff)

lemma pow10_step:
  assumes "list_ex (\<lambda>k. s = (10::int) ^ k) [0..<10]" "s * 10 \<le> INT_LEAST32_MAX"
  shows "list_ex (\<lambda>k. s * 10 = 10 ^ k) [0..<10]"
proof -
  obtain k where k: "k < 10" "s = 10 ^ k" using assms(1) pow10_cases by blast
  have "k \<noteq> 9" using assms(2) k(2) by (auto simp: INT_LEAST32_MAX_def)
  then have "Suc k < 10" "s * 10 = 10 ^ Suc k" using k by auto
  then show ?thesis unfolding pow10_cases by blast
qed

lemma pow10_1: "list_ex (\<lambda>k. (1::int) = 10 ^ k) [0..<10]"
  unfolding pow10_cases by (rule exI [of _ 0]) simp

lemma frac_digit_ok:
  assumes "frac_ok st" "0 \<le> digit" "digit \<le> 9" "frac_digit digit st = Inr r"
  shows "case r of Go st' \<Rightarrow> frac_ok st' | Break st' \<Rightarrow> frac_ok st' | Bad \<Rightarrow> True"
proof -
  obtain sign v0 scale where st: "st = (sign, v0, scale)" by (cases st)
  define v where "v = (if v0 = - 1 then 0 else v0)"
  have vb: "0 \<le> v" "v \<le> INT_LEAST32_MAX"
    using assms(1) by (auto simp: v_def frac_ok_def st INT_LEAST32_MAX_def)
  have g: "10 * v + digit \<le> INT_LEAST32_MAX" if "\<not> v > (INT_LEAST32_MAX - digit) div 10"
    using that by linarith
  show ?thesis
    using assms vb g pow10_step [of scale]
    by (auto simp: frac_digit_def st Let_def v_def [symmetric] frac_ok_def not_less split: if_splits)
qed

lemma frac_digit_soft: "soft (frac_digit digit st)"
  by (auto simp: frac_digit_def Let_def split: prod.splits)

lemma frac_char_soft: "soft (frac_char c st)"
  by (auto simp: frac_char_def frac_digit_soft split: prod.splits)

lemma frac_char_ok:
  assumes "frac_ok st" "frac_char c st = Inr r"
  shows "case r of Go st' \<Rightarrow> frac_ok st' | Break st' \<Rightarrow> frac_ok st' | Bad \<Rightarrow> True"
proof (cases "is_dig c")
  case True
  then have "frac_char c st = frac_digit (int (dval c)) st"
    using is_dig_not_special [OF True] by (auto simp: frac_char_def split: prod.splits)
  then show ?thesis using frac_digit_ok [OF assms(1), of "int (dval c)"] assms(2) dval_lt [OF True] by auto
next
  case False
  then show ?thesis using assms pow10_1
    by (auto simp: frac_char_def frac_ok_def split: prod.splits if_splits)
qed

lemma frac_loop_ok:
  "cstring p \<Longrightarrow> frac_ok st \<Longrightarrow>
   soft (frac_loop p st) \<and> (\<forall>st'. frac_loop p st = Inr (Some st') \<longrightarrow> frac_ok st')"
proof (induction p st rule: frac_loop.induct)
  case (2 c cs st)
  show ?case
  proof (cases "minmea_isfield c")
    case True
    then have cs: "cstring cs" using "2.prems"(1) by (auto simp: cstring_Cons)
    show ?thesis
    proof (cases "frac_char c st")
      case (Inl e)
      then show ?thesis using True frac_char_soft [of c st] by simp
    next
      case (Inr r)
      then show ?thesis
        using True "2.IH" [OF True Inr _ cs] frac_char_ok [OF "2.prems"(2) Inr] by (cases r) auto
    qed
  next
    case False
    then show ?thesis using "2.prems"(2) by simp
  qed
qed simp

lemma frac_result_ok:
  assumes "frac_ok st" "frac_result st = Some f"
  shows "float_ok f"
proof -
  obtain sign v scale where st: "st = (sign, v, scale)" by (cases st)
  have b: "- 1 \<le> v" "v \<le> INT_LEAST32_MAX" and "\<bar>sign\<bar> \<le> 1"
    and sc: "scale = 0 \<or> list_ex (\<lambda>k. scale = 10 ^ k) [0..<10]"
    using assms(1) by (auto simp: frac_ok_def st)
  then have s: "sign = - 1 \<or> sign = 0 \<or> sign = 1" by linarith
  show ?thesis
  proof (cases "v = - 1")
    case True
    then show ?thesis using assms(2) by (auto simp: frac_result_def st float_ok_def split: if_splits)
  next
    case False
    then have f: "f = \<lparr>mf_value = if sign \<noteq> 0 then v * sign else v, mf_scale = if scale = 0 then 1 else scale\<rparr>"
      using assms(2) by (simp add: frac_result_def st Let_def)
    have "\<bar>if sign \<noteq> 0 then v * sign else v\<bar> \<le> INT_LEAST32_MAX" using s b False by auto
    moreover have "list_ex (\<lambda>k. (if scale = 0 then 1 else scale) = 10 ^ k) [0..<10]"
      using sc pow10_1 by auto
    ultimately show ?thesis unfolding float_ok_def f by simp
  qed
qed

section \<open>Microseconds\<close>

lemma unat_digit_u32:
  assumes "is_dig c"
  shows "unat (ucast c - 0x30 :: u32) = dval c"
proof -
  have c: "unat (ucast c :: u32) = unat c" using unat_u8_lt [of c]
    by (simp add: unsigned_ucast_eq take_bit_nat_eq_self)
  have "(0x30 :: u32) \<le> ucast c" using assms c by (simp add: word_le_nat_alt is_dig_iff)
  then show ?thesis using c by (simp add: unat_sub dval_def)
qed

lemma unat_shift_digit:
  assumes "is_dig c" "unat v < 1000000"
  shows "unat (v * 10 + (ucast c - 0x30) :: u32) = unat v * 10 + dval c"
proof -
  have "unat (v * 10) = unat v * 10" using assms(2) by (subst unat_mult_lem [THEN iffD1]) auto
  moreover have "unat (v * 10) + dval c < 2 ^ 32" using assms(2) dval_lt [OF assms(1)] calculation by simp
  ultimately show ?thesis
    using unat_digit_u32 [OF assms(1)] unat_add_lem [of "v * 10" "ucast c - 0x30"] by simp
qed

lemma micro_loop_bound:
  "micro_loop p v sc = Inr (v', sc') \<Longrightarrow> unat sc = 10 ^ k \<Longrightarrow> k \<le> 6 \<Longrightarrow>
   (unat v + 1) * 10 ^ k \<le> 1000000 \<Longrightarrow> unat (v' * sc') < 1000000"
proof (induction p v sc arbitrary: k rule: micro_loop.induct)
  case (2 c cs v sc)
  have one: "(1::nat) \<le> 10 ^ k" by simp
  then have "(unat v + 1) * 1 \<le> (unat v + 1) * 10 ^ k" by (rule mult_le_mono2)
  then have "unat v + 1 \<le> 1000000" using "2.prems"(4) by (metis mult_1_right order_trans)
  then have v: "unat v < 1000000" by simp
  show ?case
  proof (cases "is_dig c \<and> sc > 1")
    case True
    then have "k \<noteq> 0" using "2.prems"(2) by (cases k) (auto simp: word_less_nat_alt)
    then obtain j where j: "k = Suc j" by (cases k) auto
    have s: "unat (sc div 10) = 10 ^ j" using "2.prems"(2) by (simp add: j unat_div)
    have u: "unat (v * 10 + (ucast c - 0x30)) = unat v * 10 + dval c"
      using True v by (intro unat_shift_digit) auto
    have "unat v * 10 + dval c + 1 \<le> (unat v + 1) * 10" using True dval_lt [of c] by simp
    then have "(unat v * 10 + dval c + 1) * 10 ^ j \<le> (unat v + 1) * 10 * 10 ^ j" by (rule mult_le_mono1)
    also have "\<dots> \<le> 1000000" using "2.prems"(4) by (simp add: j algebra_simps)
    finally have "(unat (v * 10 + (ucast c - 0x30)) + 1) * 10 ^ j \<le> 1000000" unfolding u .
    then show ?thesis using "2.IH" [OF True _ s] "2.prems"(1,3) True j by auto
  next
    case False
    then have r: "v' = v" "sc' = sc" using "2.prems"(1) by auto
    have "unat v * 10 ^ k + 10 ^ k \<le> 1000000" using "2.prems"(4) by (simp add: algebra_simps)
    then have lt: "unat v * 10 ^ k < 1000000" using one by linarith
    then have "unat (v * sc) = unat v * unat sc"
      unfolding "2.prems"(2) by (subst unat_mult_lem [THEN iffD1]) (auto simp: "2.prems"(2))
    then show ?thesis using lt by (simp add: r "2.prems"(2))
  qed
qed simp

lemma sint_small:
  assumes "unat (w :: u32) < n" "n \<le> 2147483648"
  shows "0 \<le> sint w" "sint w < int n"
proof -
  have u: "uint w = int (unat w)" by simp
  then have "0 \<le> uint w" "uint w < 2147483648" using assms by linarith+
  then have "sint w = uint w" unfolding sint_uint
    by (intro signed_take_bit_int_eq_self) (auto intro: order_trans [of _ 0])
  then show "0 \<le> sint w" "sint w < int n" using assms(1) u by linarith+
qed

lemma scan_micro_ok:
  assumes "cstring p"
  shows "\<exists>u. scan_micro p = Inr u \<and> 0 \<le> u \<and> u < 1000000"
proof -
  obtain c cs where p: "p = c # cs" using assms by (cases p) auto
  show ?thesis
  proof (cases "c = 0x2E")
    case True
    then have "cstring cs" using assms p by (simp add: cstring_Cons)
    then obtain v sc where m: "micro_loop cs 0 1000000 = Inr (v, sc)"
      using micro_loop_ok [of cs 0 1000000] by (auto simp: returns_iff)
    have b: "unat (v * sc) < 1000000" using micro_loop_bound [OF m, of 6] by simp
    then show ?thesis using p True m sint_small [OF b] by (auto simp: scan_micro_def)
  qed (simp add: p scan_micro_def)
qed

section \<open>The conversions\<close>

locale conversion =
  fixes conv :: "mem option \<Rightarrow> (scan_val option) res" and kind :: char
  assumes conv_soft: "pred_option cstring field \<Longrightarrow> soft (conv field)"
    and conv_fits: "pred_option cstring field \<Longrightarrow> conv field = Inr (Some v) \<Longrightarrow> fits kind v"
begin

lemma item_soft:
  "pred_option cstring field \<Longrightarrow> soft (and_then (conv field) (\<lambda>r. Inr (map_option (\<lambda>v. [v]) r)))"
  by (intro wp_intros conv_soft) auto

lemma item_fits:
  assumes "pred_option cstring field"
    and "and_then (conv field) (\<lambda>r. Inr (map_option (\<lambda>v. [v]) r)) = Inr (Some vs)"
  shows "\<exists>v. vs = [v] \<and> fits kind v"
  using assms(2) conv_fits [OF assms(1)] by auto

end

lemma field_head_ok:
  assumes "pred_option cstring field"
  shows "\<exists>r. field_head field = Inr r \<and> (r \<noteq> None \<longrightarrow> field \<noteq> None)"
  using assms by (cases field) (auto simp: field_head_def cstring_def deref_Inr_iff split: list.splits, case_tac a, auto)

interpretation char_conv: conversion scan_c "CHR ''c''"
proof
  show "soft (scan_c field)" if "pred_option cstring field" for field
    using field_head_ok [OF that] by (auto simp: scan_c_def)
qed (auto simp: scan_c_def)

lemma scan_d_cases:
  assumes "field_head field = Inr r"
  shows "scan_d field = Inr None \<or> (\<exists>z. scan_d field = Inr (Some (VInt z)) \<and> \<bar>z\<bar> \<le> 1)"
  unfolding scan_d_def assms and_then.simps by (cases r) (simp_all only: option.case split: if_split, simp_all)

interpretation dir_conv: conversion scan_d "CHR ''d''"
proof
  fix field v
  assume "pred_option cstring field"
  then obtain r where "field_head field = Inr r" using field_head_ok by blast
  note d = scan_d_cases [OF this]
  from d show "soft (scan_d field)" by (elim disjE exE conjE) (simp_all only: soft.simps)
  assume "scan_d field = Inr (Some v)"
  with d obtain z where "v = VInt z" "\<bar>z\<bar> \<le> 1" by force
  then show "fits CHR ''d'' v" by simp
qed

lemma frac_ok_start: "frac_ok (0, - 1, 0)"
  by (simp add: frac_ok_def INT_LEAST32_MAX_def)

interpretation frac_conv: conversion scan_f "CHR ''f''"
proof
  fix field v
  assume c: "pred_option cstring field"
  let ?m = "case field of None \<Rightarrow> Inr (Some (0, - 1, 0)) | Some p \<Rightarrow> frac_loop p (0, - 1, 0)"
  have m: "soft ?m" "?m = Inr (Some st) \<Longrightarrow> frac_ok st" for st
    using c frac_loop_ok [OF _ frac_ok_start] frac_ok_start by (cases field; fastforce)+
  from m(1) show "soft (scan_f field)" unfolding scan_f_def by (rule soft_and_then) simp
  assume "scan_f field = Inr (Some v)"
  then obtain r where "?m = Inr r" "Option.bind r (\<lambda>st. map_option VFloat (frac_result st)) = Some v"
    unfolding scan_f_def and_then_Inr_iff by auto
  then obtain st f where "?m = Inr (Some st)" "frac_result st = Some f" "v = VFloat f"
    by (cases r) auto
  then show "fits CHR ''f'' v" using frac_result_ok m(2) by simp
qed

interpretation int_conv: conversion scan_i "CHR ''i''"
proof
  fix field v
  assume c: "pred_option cstring field"
  show "soft (scan_i field)"
  proof (cases field)
    case (Some p)
    with c obtain z e where "strtol p = Inr (z, e)" "cstring e" using strtol_ok [of p] by auto
    then show ?thesis using Some soft_deref [of e] by (auto simp: scan_i_def intro: soft_and_then)
  qed (simp add: scan_i_def)
  assume "scan_i field = Inr (Some v)"
  then show "fits CHR ''i'' v"
    using c strtol_ok by (fastforce simp: scan_i_def split: option.splits if_splits)
qed

interpretation str_conv: conversion scan_s "CHR ''s''"
proof
  show "soft (scan_s field)" if "pred_option cstring field" for field
    using that copy_field_ok by (cases field) (auto simp: scan_s_def intro!: soft_returns returns_and_then)
qed (auto simp: scan_s_def split: option.splits)

lemma cstring_tag: "cstring p \<Longrightarrow> deref p = Inr 0x24 \<Longrightarrow> cstring (drop 1 p)"
  by (rule cstring_drop1) auto

interpretation type_conv: conversion scan_t "CHR ''t''"
proof
  fix field v
  assume c: "pred_option cstring field"
  show "soft (scan_t field)"
  proof (cases field)
    case (Some p)
    have "soft (all_chars minmea_isfield 5 (drop 1 p))" if "deref p = Inr 0x24"
      using c Some that by (intro soft_returns all_chars_ok cstring_tag) auto
    then show ?thesis using c Some soft_deref [of p]
      by (auto simp: scan_t_def intro!: soft_and_then)
  qed (simp add: scan_t_def)
  assume "scan_t field = Inr (Some v)"
  then show "fits CHR ''t'' v"
    using all_chars_True by (fastforce simp: scan_t_def min_def split: option.splits if_splits)
qed

lemma six_digits:
  assumes "cstring p"
  shows "\<exists>ok. all_chars is_dig 6 p = Inr ok \<and> (ok \<longrightarrow> 6 \<le> length p \<and> list_all is_dig (take 6 p) \<and>
     cstring (drop 6 p))"
  using all_chars_ok [OF assms, of is_dig 6] all_chars_True cstring_drop_chars [OF assms, of is_dig 6]
  by (fastforce simp: returns_iff)

lemma scan_D_some:
  assumes "cstring p"
  shows "\<exists>r. scan_D (Some p) = Inr r \<and> (\<forall>v. r = Some v \<longrightarrow> fits CHR ''D'' v)"
proof -
  obtain h where h: "field_head (Some p) = Inr h" using field_head_ok [of "Some p"] assms by auto
  obtain ok where ok: "all_chars is_dig 6 p = Inr ok"
    "ok \<Longrightarrow> 6 \<le> length p" "ok \<Longrightarrow> list_all is_dig (take 6 p)" using six_digits [OF assms] by auto
  show ?thesis
  proof (cases "h \<noteq> None \<and> ok")
    case True
    then obtain a b c where "two_at p 0 = Inr a" "two_at p 2 = Inr b" "two_at p 4 = Inr c"
      "0 \<le> a" "a \<le> 99" "0 \<le> b" "b \<le> 99" "0 \<le> c" "c \<le> 99"
      using two_at_range [of 6 p 0] two_at_range [of 6 p 2] two_at_range [of 6 p 4] ok by auto
    then show ?thesis using True h ok(1) by (auto simp: scan_D_def date_ok_def)
  next
    case False
    then show ?thesis using h ok(1) by (cases h) (auto simp: scan_D_def date_ok_def)
  qed
qed

lemma scan_T_some:
  assumes "cstring p"
  shows "\<exists>r. scan_T (Some p) = Inr r \<and> (\<forall>v. r = Some v \<longrightarrow> fits CHR ''T'' v)"
proof -
  obtain h where h: "field_head (Some p) = Inr h" using field_head_ok [of "Some p"] assms by auto
  obtain ok where ok: "all_chars is_dig 6 p = Inr ok" "ok \<Longrightarrow> 6 \<le> length p"
    "ok \<Longrightarrow> list_all is_dig (take 6 p)" "ok \<Longrightarrow> cstring (drop 6 p)" using six_digits [OF assms] by auto
  show ?thesis
  proof (cases "h \<noteq> None \<and> ok")
    case True
    then obtain a b c where "two_at p 0 = Inr a" "two_at p 2 = Inr b" "two_at p 4 = Inr c"
      "0 \<le> a" "a \<le> 99" "0 \<le> b" "b \<le> 99" "0 \<le> c" "c \<le> 99"
      using two_at_range [of 6 p 0] two_at_range [of 6 p 2] two_at_range [of 6 p 4] ok by auto
    moreover obtain u where "scan_micro (drop 6 p) = Inr u" "0 \<le> u" "u < 1000000"
      using scan_micro_ok ok(4) True by blast
    ultimately show ?thesis using True h ok(1) by (auto simp: scan_T_def time_ok_def)
  next
    case False
    then show ?thesis using h ok(1) by (cases h) (auto simp: scan_T_def time_ok_def)
  qed
qed

interpretation date_conv: conversion scan_D "CHR ''D''"
proof
  fix field v
  assume c: "pred_option cstring field"
  have none: "scan_D None = Inr (Some (VDate \<lparr>dt_day = - 1, dt_month = - 1, dt_year = - 1\<rparr>))"
    by (simp add: scan_D_def field_head_def)
  show "soft (scan_D field)" using c scan_D_some none by (cases field) fastforce+
  assume "scan_D field = Inr (Some v)"
  then show "fits CHR ''D'' v" using c scan_D_some none by (cases field) (fastforce simp: date_ok_def)+
qed

interpretation time_conv: conversion scan_T "CHR ''T''"
proof
  fix field v
  assume c: "pred_option cstring field"
  have none: "scan_T None = Inr (Some (VTime \<lparr>hours = - 1, minutes = - 1, seconds = - 1, microseconds = - 1\<rparr>))"
    by (simp add: scan_T_def field_head_def)
  show "soft (scan_T field)" using c scan_T_some none by (cases field) fastforce+
  assume "scan_T field = Inr (Some v)"
  then show "fits CHR ''T'' v" using c scan_T_some none by (cases field) (fastforce simp: time_ok_def)+
qed

section \<open>The scanner\<close>

lemmas conversions_soft =
  char_conv.item_soft dir_conv.item_soft frac_conv.item_soft int_conv.item_soft
  str_conv.item_soft type_conv.item_soft date_conv.item_soft time_conv.item_soft

lemmas conversions_fit =
  char_conv.item_fits dir_conv.item_fits frac_conv.item_fits int_conv.item_fits
  str_conv.item_fits type_conv.item_fits date_conv.item_fits time_conv.item_fits

lemma scan_item_soft: "pred_option cstring field \<Longrightarrow> soft (scan_item type field)"
  unfolding scan_item_def
  by (simp only: if_distrib [of "\<lambda>m. and_then m _"] conversions_soft soft.simps and_then.simps
      split: if_split) simp

lemma scan_item_fits:
  assumes "pred_option cstring field" "scan_item type field = Inr (Some vs)" "type \<noteq> CHR '';''"
  shows "list_all2 fits (args [type]) vs"
proof (cases "type = CHR ''_''")
  case True
  then show ?thesis using assms(2) by (simp add: scan_item_def args_def)
next
  case False
  let ?item = "\<lambda>conv :: mem option \<Rightarrow> (scan_val option) res.
    and_then (conv field) (\<lambda>r. Inr (map_option (\<lambda>v. [v]) r)) = Inr (Some vs)"
  have "(type = CHR ''c'' \<and> ?item scan_c) \<or> (type = CHR ''d'' \<and> ?item scan_d) \<or>
     (type = CHR ''f'' \<and> ?item scan_f) \<or> (type = CHR ''i'' \<and> ?item scan_i) \<or>
     (type = CHR ''s'' \<and> ?item scan_s) \<or> (type = CHR ''t'' \<and> ?item scan_t) \<or>
     (type = CHR ''D'' \<and> ?item scan_D) \<or> (type = CHR ''T'' \<and> ?item scan_T)"
    using assms(2) False by (simp only: scan_item_def if_False split: if_splits) simp_all
  then have "\<exists>v. vs = [v] \<and> fits type v"
    by (elim disjE conjE) (simp_all only: conversions_fit [OF assms(1)])
  then show ?thesis using assms(3) False by (auto simp: args_def)
qed

lemma scan_typed_mono:
  assumes "list_all2 fits pre vs"
  shows "scan_typed (pre @ k) (Inr (False, vs))" "scan_typed pre (Inr (True, vs))"
  using assms list_all2_lengthD [OF assms] by simp_all

lemma scan_loop_typed:
  "cstring sentence \<Longrightarrow> pred_option cstring field \<Longrightarrow> list_all2 fits pre vs \<Longrightarrow>
   scan_typed (pre @ args format) (scan_loop format sentence field optional vs)"
proof (induction format sentence field optional vs arbitrary: pre rule: scan_loop.induct)
  case (1 sentence field optional vs)
  then show ?case using scan_typed_mono(2) by (simp add: args_def)
next
  case (2 type format sentence field optional vs)
  have args: "args (type # format) = args [type] @ args format" by (simp add: args_def)
  consider (semi) "type = CHR '';''" | (null) "type \<noteq> CHR '';''" "field = None \<and> \<not> optional"
    | (item) "type \<noteq> CHR '';''" "\<not> (field = None \<and> \<not> optional)" by blast
  then show ?case
  proof cases
    case semi
    then show ?thesis using "2.IH"(1) [OF semi "2.prems"] by (simp add: args args_def)
  next
    case null
    then show ?thesis using scan_typed_mono(1) [OF "2.prems"(3)] by simp
  next
    case item
    note eq = scan_loop.simps(2) [of type format sentence field optional vs, unfolded if_not_P [OF item(1)] if_not_P [OF item(2)]]
    show ?thesis
    proof (cases "scan_item type field")
      case (Inl e)
      then show ?thesis using eq scan_item_soft [OF "2.prems"(2), of type] by simp
    next
      case (Inr r)
      show ?thesis
      proof (cases r)
        case None
        then show ?thesis using eq Inr scan_typed_mono(1) [OF "2.prems"(3)] by simp
      next
        case (Some v)
        obtain q f where n: "next_field sentence = Inr (q, f)" "cstring q" "pred_option cstring f"
          using next_field_ok [OF "2.prems"(1)] by blast
        have "list_all2 fits (pre @ args [type]) (vs @ v)"
          using "2.prems"(3) scan_item_fits [OF "2.prems"(2) Inr [unfolded Some] item(1)]
          by (rule list_all2_appendI)
        then have "scan_typed ((pre @ args [type]) @ args format) (scan_loop format q f optional (vs @ v))"
          by (rule "2.IH"(2) [OF item Inr Some n(1) refl n(2,3)])
        then show ?thesis unfolding eq Inr Some n(1) args by simp
      qed
    qed
  qed
qed

lemma minmea_scan_typed: "cstring s \<Longrightarrow> scan_typed (args format) (minmea_scan s format)"
  unfolding minmea_scan_def using scan_loop_typed [of s "Some s" "[]" "[]" format False] by simp

lemma scan_typed_soft: "scan_typed kinds m \<Longrightarrow> soft m"
  by (cases m) auto

lemma minmea_scan_soft: "cstring s \<Longrightarrow> soft (minmea_scan s format)"
  using minmea_scan_typed scan_typed_soft by blast

section \<open>The parsers\<close>

lemma parse_with_soft:
  assumes "cstring s" "\<And>vs frame'. soft (fin vs frame')"
  shows "soft (parse_with format slots ty fin frame s)"
  unfolding parse_with_def
  using minmea_scan_soft [OF assms(1), of format] assms(2)
  by (intro soft_and_then) (auto simp: Let_def split: prod.splits)

lemmas parse_defs =
  minmea_parse_rmc_def minmea_parse_gga_def minmea_parse_gsa_def minmea_parse_gll_def
  minmea_parse_gst_def minmea_parse_gsv_def minmea_parse_vtg_def minmea_parse_zda_def

lemmas fin_defs = rmc_fin_def gga_fin_def gll_fin_def vtg_fin_def zda_fin_def fin_true_def

lemma check_digits_ok:
  assumes "cstring p"
  shows "\<exists>r. check_digits p k = Inr r \<and> pred_option cstring r"
proof -
  obtain c cs where p: "p = c # cs" using assms by (cases p) auto
  show ?thesis
  proof (cases "hex2int c = - 1")
    case False
    then have "c \<noteq> 0" by (auto simp: hex2int_def)
    then have cs: "cstring cs" using assms p by (simp add: cstring_Cons)
    then obtain d ds where d: "cs = d # ds" by (cases cs) auto
    have "cstring ds" if "hex2int d \<noteq> - 1"
    proof -
      have "d \<noteq> 0" using that by (auto simp: hex2int_def)
      then show ?thesis using cs d by (simp add: cstring_Cons)
    qed
    then show ?thesis using p d by (auto simp: check_digits_def Let_def numeral_2_eq_2)
  qed (simp add: p check_digits_def)
qed

lemma check_tail_ok: "cstring p \<Longrightarrow> returns (check_tail p)"
  unfolding check_tail_def
  by (intro returns_and_then) (auto intro!: returns_and_then strcmp_eq_ok)

lemma minmea_check_returns:
  assumes "cstring s"
  shows "returns (minmea_check s strict)"
proof -
  obtain c cs where s: "s = c # cs" using assms by (cases s) auto
  show ?thesis
  proof (cases "length (str_of s) > MINMEA_MAX_LENGTH + 3 \<or> c \<noteq> 0x24")
    case True
    then show ?thesis using s strlen_ok [OF assms] by (auto simp: minmea_check_def)
  next
    case False
    then have "cstring cs" using assms s by (auto simp: cstring_Cons)
    then obtain q k where q: "check_loop cs 0 = Inr (q, k)" "cstring q" using check_loop_ok by blast
    then obtain d ds where d: "q = d # ds" by (cases q) auto
    show ?thesis
    proof (cases "d = 0x2A")
      case True
      then have "cstring ds" using q(2) d by (auto simp: cstring_Cons)
      then obtain r where "check_digits ds k = Inr r" "pred_option cstring r" using check_digits_ok by blast
      then show ?thesis using False True s strlen_ok [OF assms] q(1) d check_tail_ok
        by (auto simp: minmea_check_def split: option.splits)
    next
      case nd: False
      then show ?thesis using False s strlen_ok [OF assms] q d check_tail_ok
        by (auto simp: minmea_check_def)
    qed
  qed
qed

end
