(* ===== verification/Minmea_Check.thy ===== *)
theory Minmea_Check
  imports Minmea_Safe
begin

text \<open>
  What \<open>minmea_check\<close> accepts, exactly, and that a sentence with one changed byte is refused.
\<close>

section \<open>The check\<close>

text \<open>A byte the check loop walks over, and what may follow the checksum.\<close>

definition body_char :: "u8 \<Rightarrow> bool" where
  "body_char c \<longleftrightarrow> isprint c \<and> c \<noteq> 0x2A"

definition line_end :: "mem \<Rightarrow> bool" where
  "line_end t \<longleftrightarrow> t = [] \<or> t = [0x0A] \<or> t = [0x0D, 0x0A]"

definition xor_all :: "mem \<Rightarrow> u8" where
  "xor_all m = fold (\<lambda>c k. k XOR c) m 0"

text \<open>A complete sentence with its checksum.\<close>

definition framed_ok :: "mem \<Rightarrow> mem \<Rightarrow> u8 \<Rightarrow> u8 \<Rightarrow> mem \<Rightarrow> bool" where
  "framed_ok s body h l tail \<longleftrightarrow> s = 0x24 # body @ 0x2A # h # l # tail \<and> list_all body_char body \<and>
     hex2int h \<noteq> - 1 \<and> hex2int l \<noteq> - 1 \<and> uint (xor_all body) = hex2int h * 16 + hex2int l \<and> line_end tail"

lemma body_char_0 [simp]: "\<not> body_char 0"
  by (simp add: body_char_def isprint_def)

lemma check_loop_eq:
  "cstring p \<Longrightarrow> check_loop p k = Inr (dropWhile body_char p, fold (\<lambda>c k. k XOR c) (takeWhile body_char p) k)"
proof (induction p k rule: check_loop.induct)
  case (2 c cs k)
  have "body_char c \<longleftrightarrow> c \<noteq> 0 \<and> c \<noteq> 0x2A \<and> isprint c" by (auto simp: body_char_def isprint_def)
  then show ?case using 2 by (auto simp: cstring_Cons)
qed simp

lemma str_of_body: "list_all body_char b \<Longrightarrow> str_of (b @ q) = b @ str_of q"
  by (induction b) auto

lemma check_tail_iff: "cstring p \<Longrightarrow> check_tail p = Inr (line_end (str_of p))"
proof -
  assume p: "cstring p"
  then obtain c cs where c: "p = c # cs" by (cases p) auto
  show ?thesis using p strcmp_eq_iff [OF p, of "[0x0A]"] strcmp_eq_iff [OF p, of "[0x0D, 0x0A]"]
    by (auto simp: check_tail_def c line_end_def)
qed

lemma hex2int_0: "hex2int 0 = - 1"
  by (simp add: hex2int_def)

lemma check_digits_iff:
  assumes "cstring p"
  shows "check_digits p k = Inr (case str_of p of
       h # l # tail \<Rightarrow> if hex2int h \<noteq> - 1 \<and> hex2int l \<noteq> - 1 \<and> uint k = hex2int h * 16 + hex2int l
                       then Some (drop 2 p) else None
     | _ \<Rightarrow> None)"
proof -
  obtain c cs where p: "p = c # cs" using assms by (cases p) auto
  show ?thesis
  proof (cases "c = 0")
    case False
    then have cs: "cstring cs" using assms p by (simp add: cstring_Cons)
    then obtain d ds where d: "cs = d # ds" by (cases cs) auto
    show ?thesis using False by (auto simp: p d check_digits_def Let_def hex2int_0)
  qed (simp add: p check_digits_def hex2int_0)
qed

lemma framed_ok_tail:
  assumes "cstring p" "d # ds = dropWhile body_char p" "d = 0x2A" "cstring ds"
  shows "(\<exists>h l t. str_of ds = h # l # t \<and> hex2int h \<noteq> - 1 \<and> hex2int l \<noteq> - 1 \<and>
      uint (xor_all (takeWhile body_char p)) = hex2int h * 16 + hex2int l \<and> line_end t) \<longleftrightarrow>
    (\<exists>body h l t. framed_ok (0x24 # str_of p) body h l t)"
proof -
  let ?b = "takeWhile body_char p"
  have b: "list_all body_char ?b" by (simp add: list_all_iff) (meson set_takeWhileD)
  have "p = ?b @ d # ds" by (metis assms(2) takeWhile_dropWhile_id)
  then have sp: "str_of p = ?b @ 0x2A # str_of ds" using str_of_body [OF b, of "d # ds"] assms(3) by simp
  have "body = ?b" if "str_of p = body @ 0x2A # r" "list_all body_char body" for body r
  proof -
    have "\<not> body_char 0x2A" by (simp add: body_char_def)
    then have "takeWhile body_char (body @ 0x2A # r) = body" "takeWhile body_char (?b @ 0x2A # str_of ds) = ?b"
      using that(2) b by (auto simp: list_all_iff takeWhile_append2)
    then show ?thesis using that(1) sp by metis
  qed
  then show ?thesis using sp b by (auto simp: framed_ok_def) blast+
qed

lemma dropWhile_star:
  "str_of p = body @ 0x2A # r \<Longrightarrow> list_all body_char body \<Longrightarrow> \<exists>q. dropWhile body_char p = 0x2A # q"
proof (induction body arbitrary: p)
  case Nil
  then show ?case by (cases p) (auto simp: body_char_def split: if_splits)
next
  case (Cons b body)
  then show ?case by (cases p) (auto split: if_splits)
qed

lemma framed_ok_star:
  "framed_ok (0x24 # str_of p) body h l tail \<Longrightarrow> \<exists>q. dropWhile body_char p = 0x2A # q"
  unfolding framed_ok_def using dropWhile_star by auto

lemma minmea_check_strict:
  assumes "cstring s"
  shows "minmea_check s True =
    Inr (length (str_of s) \<le> 83 \<and> (\<exists>body h l tail. framed_ok (str_of s) body h l tail))"
proof -
  obtain c cs where s: "s = c # cs" using assms by (cases s) auto
  note len = strlen_ok [OF assms]
  show ?thesis
  proof (cases "length (str_of s) > 83 \<or> c \<noteq> 0x24")
    case True
    then show ?thesis using s len by (auto simp: minmea_check_def MINMEA_MAX_LENGTH_def framed_ok_def split: if_splits)
  next
    case False
    then have cs: "cstring cs" "str_of s = 0x24 # str_of cs" using assms s by (auto simp: cstring_Cons)
    let ?q = "dropWhile body_char cs"
    have "cstring ?q" using check_loop_eq [OF cs(1), of 0] check_loop_ok [OF cs(1), of 0] by auto
    then obtain d ds where d: "?q = d # ds" by (cases ?q) auto
    have m: "minmea_check s True = (if d = 0x2A
        then and_then (check_digits ds (xor_all (takeWhile body_char cs)))
               (\<lambda>r. case r of None \<Rightarrow> Inr False | Some q \<Rightarrow> check_tail q) else Inr False)"
      using False len check_loop_eq [OF cs(1), of 0] d
      by (auto simp: minmea_check_def s MINMEA_MAX_LENGTH_def xor_all_def)
    show ?thesis
    proof (cases "d = 0x2A")
      case True
      then have ds: "cstring ds" using \<open>cstring ?q\<close> d by (simp add: cstring_Cons)
      have t: "str_of ds = h # l # t \<Longrightarrow> cstring (drop 2 ds) \<and> str_of (drop 2 ds) = t" for h l t
        using ds by (cases ds; cases "tl ds") (auto simp: cstring_Cons split: if_splits)
      have "minmea_check s True = Inr (\<exists>h l t. str_of ds = h # l # t \<and> hex2int h \<noteq> - 1 \<and> hex2int l \<noteq> - 1 \<and>
          uint (xor_all (takeWhile body_char cs)) = hex2int h * 16 + hex2int l \<and> line_end t)"
        unfolding m if_P [OF True] check_digits_iff [OF ds]
        using t check_tail_iff by (auto split: list.splits)
      then show ?thesis using framed_ok_tail [OF cs(1) d [symmetric] True ds] False cs(2) by simp
    next
      case nd: False
      have "\<not> framed_ok (str_of s) body h l tail" for body h l tail
        using framed_ok_star [of cs body h l tail] cs(2) d nd by auto
      then show ?thesis using m nd by simp
    qed
  qed
qed

section \<open>Changed bytes\<close>

lemma xor_all_Nil [simp]: "xor_all [] = 0"
  by (simp add: xor_all_def)

lemma fold_xor: "fold (\<lambda>c k. k XOR c) m (k :: u8) = k XOR xor_all m"
proof (induction m arbitrary: k)
  case (Cons a m)
  have "fold (\<lambda>c k. k XOR c) (a # m) k = (k XOR a) XOR xor_all m" using Cons.IH [of "k XOR a"] by simp
  moreover have "xor_all (a # m) = a XOR xor_all m"
    unfolding xor_all_def using Cons.IH [of a] by (simp add: xor_all_def)
  ultimately show ?case by (simp add: xor.assoc)
qed simp

lemma xor_all_Cons: "xor_all (a # m) = a XOR xor_all m"
  using fold_xor [of m a] by (simp add: xor_all_def)

lemma xor_all_append: "xor_all (a @ b) = xor_all a XOR xor_all b"
  by (induction a) (simp_all add: xor_all_Cons xor.assoc)

lemma xor_all_change:
  assumes "xor_all (a @ c # b) = xor_all (a @ c' # b)"
  shows "c = c'"
proof -
  have "xor_all a XOR (c XOR xor_all b) = xor_all a XOR (c' XOR xor_all b)"
    using assms by (simp add: xor_all_append xor_all_Cons)
  then have "xor_all a XOR (xor_all a XOR (c XOR xor_all b)) = xor_all a XOR (xor_all a XOR (c' XOR xor_all b))"
    by simp
  then have "(c XOR xor_all b) XOR xor_all b = (c' XOR xor_all b) XOR xor_all b"
    by (simp add: xor.assoc [symmetric])
  then show ?thesis by (simp add: xor.assoc)
qed

lemma body_prefix_unique:
  assumes "a @ c # x = body @ 0x2A # y" "list_all body_char a" "\<not> body_char c" "list_all body_char body"
  shows "body = a \<and> c = 0x2A \<and> x = y"
proof -
  have n: "\<not> body_char 0x2A" by (simp add: body_char_def)
  have "takeWhile body_char (a @ c # x) = a" "takeWhile body_char (body @ 0x2A # y) = body"
    using assms(2-4) n by (auto simp: list_all_iff takeWhile_append2)
  with assms(1) have "a = body" by metis
  with assms(1) show ?thesis by simp
qed

lemma line_end_star: "0x2A \<in> set t \<Longrightarrow> \<not> line_end t"
  by (auto simp: line_end_def)

lemma framed_ok_changed:
  assumes "framed_ok m (a @ c # b) h l tail" "c' \<noteq> c"
  shows "\<not> framed_ok (str_of (0x24 # a @ c' # b @ 0x2A # h # l # tail @ [0])) body h2 l2 tail2"
proof
  assume f: "framed_ok (str_of (0x24 # a @ c' # b @ 0x2A # h # l # tail @ [0])) body h2 l2 tail2"
  have a: "list_all body_char a" "list_all body_char b" using assms(1) by (auto simp: framed_ok_def)
  have nz: "h \<noteq> 0" "l \<noteq> 0" "0 \<notin> set tail"
    using assms(1) by (auto simp: framed_ok_def hex2int_0 line_end_def)
  show False
  proof (cases "c' = 0")
    case True
    then have "a = body @ 0x2A # h2 # l2 # tail2"
      using f str_of_body [OF a(1), of "0 # b @ 0x2A # h # l # tail @ [0]"] by (simp add: framed_ok_def)
    then show False using a(1) by (auto simp: body_char_def)
  next
    case False
    have "0 \<notin> set (b @ 0x2A # h # l # tail)" using a(2) nz by (auto simp: list_all_iff)
    then have "str_of ((b @ 0x2A # h # l # tail) @ 0 # []) = b @ 0x2A # h # l # tail" by (rule str_of_append_nul)
    then have "str_of (a @ c' # b @ 0x2A # h # l # tail @ [0]) = a @ c' # b @ 0x2A # h # l # tail"
      using str_of_body [OF a(1), of "c' # b @ 0x2A # h # l # tail @ [0]"] False by simp
    then have e: "a @ c' # b @ 0x2A # h # l # tail = body @ 0x2A # h2 # l2 # tail2"
      and g: "list_all body_char body" "hex2int h2 \<noteq> - 1" "hex2int l2 \<noteq> - 1"
        "uint (xor_all body) = hex2int h2 * 16 + hex2int l2" "line_end tail2"
      using f by (auto simp: framed_ok_def)
    show False
    proof (cases "body_char c'")
      case True
      then have "body = a @ c' # b" "h2 = h" "l2 = l"
        using body_prefix_unique [where a = "a @ c' # b" and c = "0x2A" and x = "h # l # tail" and y = "h2 # l2 # tail2" and body = body] e g(1) a
        by (auto simp: body_char_def)
      then have "uint (xor_all (a @ c # b)) = uint (xor_all (a @ c' # b))"
        using g(4) assms(1) by (simp add: framed_ok_def)
      then show False using xor_all_change assms(2) word_uint_eqI by metis
    next
      case nb: False
      then have r: "c' = 0x2A" "b @ 0x2A # h # l # tail = h2 # l2 # tail2"
        using body_prefix_unique [OF e a(1) nb g(1)] by auto
      have s: "hex2int 0x2A = - 1" by (simp add: hex2int_def)
      consider "b = []" | x where "b = [x]" | x y b' where "b = x # y # b'" by (cases b; cases "tl b") auto
      then show False
        by cases (use r g(2,3,5) s line_end_star in auto)
    qed
  qed
qed

end
