(* ===== verification/Minmea_Fields.thy ===== *)
theory Minmea_Fields
  imports Minmea_Safe Gps_Fields
begin

text \<open>
  What the conversions of \<open>minmea_scan\<close> store for well-formed fields, and the scan of a whole
  sentence given as a list of fields.
\<close>

section \<open>Sentences as rows\<close>

text \<open>A field ends where a byte stands that belongs to no field.\<close>

definition ends :: "mem \<Rightarrow> bool" where
  "ends r \<longleftrightarrow> r \<noteq> [] \<and> \<not> minmea_isfield (hd r)"

text \<open>A conversion reads a field, whatever comes behind it.\<close>

definition reads :: "char \<Rightarrow> mem \<Rightarrow> scan_val \<Rightarrow> bool" where
  "reads type f v \<longleftrightarrow> list_all minmea_isfield f \<and> (\<forall>r. ends r \<longrightarrow> scan_item type (Some (f @ r)) = Inr (Some [v]))"

text \<open>Fields separated by commas, then the rest of the sentence.\<close>

fun text_of :: "mem list \<Rightarrow> mem \<Rightarrow> mem" where
  "text_of [] r = r"
| "text_of [f] r = f @ r"
| "text_of (f # g # fs) r = f @ 0x2C # text_of (g # fs) r"

type_synonym row = "char \<times> mem \<times> scan_val"

definition row_ok :: "row \<Rightarrow> bool" where
  "row_ok w = (case w of (type, f, v) \<Rightarrow> type \<noteq> CHR '';'' \<and> reads type f v)"

section \<open>Scanning rows\<close>

lemma ends_comma [simp]: "ends (0x2C # r)"
  by (simp add: ends_def minmea_isfield_def)

lemma skip_field_append:
  "list_all minmea_isfield f \<Longrightarrow> ends r \<Longrightarrow> skip_field (f @ r) = Inr r"
  by (induction f) (cases r, auto simp: ends_def)

lemma next_field_comma: "list_all minmea_isfield f \<Longrightarrow> next_field (f @ 0x2C # r) = Inr (r, Some r)"
  by (simp add: next_field_def skip_field_append)

lemma next_field_last:
  "list_all minmea_isfield f \<Longrightarrow> ends r \<Longrightarrow> hd r \<noteq> 0x2C \<Longrightarrow> next_field (f @ r) = Inr (r, None)"
  by (cases r) (auto simp: next_field_def skip_field_append ends_def)

lemma scan_loop_step:
  "type \<noteq> CHR '';'' \<Longrightarrow> scan_item type (Some p) = Inr (Some v) \<Longrightarrow> next_field s = Inr (q, f) \<Longrightarrow>
   scan_loop (type # format) s (Some p) opt vs = scan_loop format q f opt (vs @ v)"
  by simp

lemma scan_loop_rows:
  "rows \<noteq> [] \<Longrightarrow> list_all row_ok rows \<Longrightarrow> ends r \<Longrightarrow> hd r \<noteq> 0x2C \<Longrightarrow>
   scan_loop (map fst rows) (text_of (map (fst \<circ> snd) rows) r) (Some (text_of (map (fst \<circ> snd) rows) r)) opt vs
   = Inr (True, vs @ map (snd \<circ> snd) rows)"
proof (induction rows arbitrary: vs rule: induct_list012)
  case (2 w)
  then show ?case by (cases w) (auto simp: row_ok_def reads_def next_field_last)
next
  case (3 w x rows)
  obtain type f v where w: "w = (type, f, v)" by (cases w)
  let ?q = "text_of (map (fst \<circ> snd) (x # rows)) r"
  have "scan_item type (Some (f @ 0x2C # ?q)) = Inr (Some [v])" "type \<noteq> CHR '';''"
    "next_field (f @ 0x2C # ?q) = Inr (?q, Some ?q)"
    using "3.prems"(2) by (auto simp: row_ok_def w reads_def next_field_comma)
  then have "scan_loop (map fst (w # x # rows)) (f @ 0x2C # ?q) (Some (f @ 0x2C # ?q)) opt vs =
      scan_loop (map fst (x # rows)) ?q (Some ?q) opt (vs @ [v])"
    unfolding w list.map(2) [of _ "(type, f, v)"] fst_conv by (intro scan_loop_step) auto
  also have "\<dots> = Inr (True, (vs @ [v]) @ map (snd \<circ> snd) (x # rows))"
    using "3.prems" by (intro "3.IH"(2)) auto
  finally show ?case unfolding w by (simp del: scan_loop.simps add: comp_def)
qed simp

lemma minmea_scan_rows:
  assumes "rows \<noteq> []" "list_all row_ok rows" "ends r" "hd r \<noteq> 0x2C"
  shows "minmea_scan (text_of (map (fst \<circ> snd) rows) r) (map fst rows) = Inr (True, map (snd \<circ> snd) rows)"
  unfolding minmea_scan_def using scan_loop_rows [OF assms, of False "[]"] by simp

section \<open>Fractions\<close>

text \<open>The value and scale of a decimal with an optional sign.\<close>

definition fixed :: "bool \<Rightarrow> mem \<Rightarrow> mem \<Rightarrow> minmea_float" where
  "fixed neg ip fp =
     \<lparr>mf_value = (if neg then - 1 else 1) * int (dec_val (ip @ fp)), mf_scale = 10 ^ length fp\<rparr>"

lemma frac_char_dig: "is_dig c \<Longrightarrow> frac_char c (sg, v, sc) = frac_digit (int (dval c)) (sg, v, sc)"
  using is_dig_not_special [of c] by (auto simp: frac_char_def)

lemma frac_loop_start: "is_dig c \<Longrightarrow> frac_loop (c # cs) (sg, - 1, sc) = frac_loop (c # cs) (sg, 0, sc)"
  by (simp add: frac_char_dig frac_digit_def is_dig_not_special(8))

lemma frac_loop_digits:
  "list_all is_dig ds \<Longrightarrow> 0 \<le> v \<Longrightarrow> (v + 1) * 10 ^ length ds \<le> 1000000000 \<Longrightarrow>
   0 \<le> sc \<Longrightarrow> sc * 10 ^ length ds \<le> 1000000000 \<Longrightarrow>
   frac_loop (ds @ q) (sg, v, sc) = frac_loop q (sg, v * 10 ^ length ds + int (dec_val ds), sc * 10 ^ length ds)"
proof (induction ds arbitrary: v sc)
  case (Cons d ds)
  have d: "is_dig d" "dval d < 10" using Cons.prems(1) dval_lt by auto
  let ?v = "10 * v + int (dval d)"
  have p: "(1::int) \<le> 10 ^ length ds" by simp
  have "(?v + 1) * 10 ^ length ds \<le> ((v + 1) * 10) * 10 ^ length ds"
    using d(2) by (intro mult_right_mono) auto
  also have "\<dots> \<le> 1000000000" using Cons.prems(3) by (simp add: algebra_simps)
  finally have b: "(?v + 1) * 10 ^ length ds \<le> 1000000000" .
  have "(?v + 1) * 1 \<le> (?v + 1) * 10 ^ length ds" using p Cons.prems(2) by (intro mult_left_mono) auto
  then have "?v + 1 \<le> 1000000000" using b by (simp only: mult_1_right)
  then have v: "?v < 1000000000" by simp
  have "sc * 10 * 1 \<le> sc * 10 * 10 ^ length ds" using p Cons.prems(4) by (intro mult_left_mono) auto
  then have s: "sc * 10 \<le> 1000000000" using Cons.prems(5) by (simp add: algebra_simps)
  have "frac_digit (int (dval d)) (sg, v, sc) = Inr (Go (sg, ?v, sc * 10))"
  proof -
    have "\<not> v > (INT_LEAST32_MAX - int (dval d)) div 10" "v \<noteq> - 1" "\<not> sc * 10 > INT_LEAST32_MAX"
      using v s Cons.prems(2) d(2) unfolding INT_LEAST32_MAX_def by linarith+
    then show ?thesis by (simp add: frac_digit_def)
  qed
  then have "frac_loop ((d # ds) @ q) (sg, v, sc) = frac_loop (ds @ q) (sg, ?v, sc * 10)"
    using is_dig_not_special(8) [OF d(1)] by (simp add: frac_char_dig [OF d(1)])
  also have "\<dots> = frac_loop q (sg, ?v * 10 ^ length ds + int (dec_val ds), sc * 10 * 10 ^ length ds)"
    using Cons.prems b by (intro Cons.IH) (auto simp: algebra_simps)
  finally show ?case by (simp add: algebra_simps)
qed simp

lemma frac_loop_digits_0:
  assumes "list_all is_dig ds" "ds \<noteq> []" "length ds \<le> 9" "0 \<le> sc" "sc * 10 ^ length ds \<le> 1000000000"
  shows "frac_loop (ds @ q) (sg, - 1, sc) = frac_loop q (sg, int (dec_val ds), sc * 10 ^ length ds)"
proof -
  obtain c cs where c: "ds = c # cs" using assms(2) by (cases ds) auto
  have "(10::int) ^ length ds \<le> 10 ^ 9" using assms(3) by (intro power_increasing) auto
  then have "frac_loop (ds @ q) (sg, 0, sc) = frac_loop q (sg, int (dec_val ds), sc * 10 ^ length ds)"
    using frac_loop_digits [OF assms(1), of 0 sc q sg] assms(4,5) by simp
  moreover have "frac_loop (ds @ q) (sg, - 1, sc) = frac_loop (ds @ q) (sg, 0, sc)"
    using frac_loop_start [of c "cs @ q" sg sc] assms(1) by (simp add: c)
  ultimately show ?thesis by simp
qed

lemma frac_loop_ends: "ends r \<Longrightarrow> frac_loop r st = Inr (Some st)"
  by (cases r) (auto simp: ends_def)

lemma frac_loop_unsigned:
  assumes "list_all is_dig ip" "list_all is_dig fp" "ip @ fp \<noteq> []" "length ip + length fp \<le> 9" "ends r"
  shows "frac_loop (ip @ (if fp = [] then [] else 0x2E # fp) @ r) (sg, - 1, 0) =
    Inr (Some (sg, int (dec_val (ip @ fp)), if fp = [] then 0 else 10 ^ length fp))"
proof -
  have pt: "frac_loop (0x2E # q) (sg, v, 0) = frac_loop q (sg, v, 1)" for q v
    by (simp add: minmea_isfield_def isprint_def frac_char_def is_dig_def)
  have pw: "(10::int) ^ n \<le> 1000000000" if "n \<le> 9" for n
    using power_increasing [OF that, of "10::int"] by simp
  show ?thesis
  proof (cases "ip = []")
    case True
    then have "frac_loop (fp @ r) (sg, - 1, 1) = frac_loop r (sg, int (dec_val fp), 1 * 10 ^ length fp)"
      using assms pw by (intro frac_loop_digits_0) auto
    then show ?thesis using True assms(3,5) by (simp add: pt frac_loop_ends del: frac_loop.simps)
  next
    case ne: False
    let ?d = "int (dec_val ip)"
    have i: "frac_loop (ip @ q) (sg, - 1, 0) = frac_loop q (sg, ?d, 0)" for q
      using frac_loop_digits_0 [OF assms(1) ne, of 0 q sg] assms(4) by simp
    show ?thesis
    proof (cases "fp = []")
      case True
      then show ?thesis using i [of r] assms(5) by (simp add: frac_loop_ends)
    next
      case False
      have "?d < 10 ^ length ip"
        using dec_val_lt [OF assms(1)] by (metis of_nat_less_iff of_nat_numeral of_nat_power)
      then have "?d + 1 \<le> 10 ^ length ip" by linarith
      then have "(?d + 1) * 10 ^ length fp \<le> 10 ^ length ip * 10 ^ length fp" by (rule mult_right_mono) simp
      also have "\<dots> \<le> 1000000000" using pw [OF assms(4)] by (simp add: power_add)
      finally have b: "(?d + 1) * 10 ^ length fp \<le> 1000000000" .
      have "frac_loop (fp @ r) (sg, ?d, 1) = frac_loop r (sg, ?d * 10 ^ length fp + int (dec_val fp), 1 * 10 ^ length fp)"
        using assms b pw by (intro frac_loop_digits) auto
      then show ?thesis using i [of "0x2E # fp @ r"] False assms(5)
        by (simp add: pt frac_loop_ends dec_val_append del: frac_loop.simps)
    qed
  qed
qed

lemma scan_f_num:
  assumes "list_all is_dig ip" "list_all is_dig fp" "ip @ fp \<noteq> []" "length ip + length fp \<le> 9" "ends r"
  shows "scan_f (Some (num_text neg ip fp @ r)) = Inr (Some (VFloat (fixed neg ip fp)))"
proof -
  let ?q = "ip @ (if fp = [] then [] else 0x2E # fp) @ r"
  have m: "frac_loop (0x2D # ?q) (0, - 1, 0) = frac_loop ?q (- 1, - 1, 0)"
    by (simp add: minmea_isfield_def isprint_def frac_char_def)
  have "frac_loop (num_text neg ip fp @ r) (0, - 1, 0) = frac_loop ?q (if neg then - 1 else 0, - 1, 0)"
    using m by (simp add: num_text_def del: frac_loop.simps)
  also have "\<dots> = Inr (Some (if neg then - 1 else 0, int (dec_val (ip @ fp)), if fp = [] then 0 else 10 ^ length fp))"
    using assms by (rule frac_loop_unsigned)
  finally show ?thesis by (simp add: scan_f_def frac_result_def fixed_def Let_def del: frac_loop.simps)
qed

lemma isfield_num_text:
  "list_all is_dig ip \<Longrightarrow> list_all is_dig fp \<Longrightarrow> list_all minmea_isfield (num_text neg ip fp)"
  by (auto simp: num_text_def list_all_iff is_dig_not_special(8)) (auto simp: minmea_isfield_def isprint_def)

lemma reads_f:
  "list_all is_dig ip \<Longrightarrow> list_all is_dig fp \<Longrightarrow> ip @ fp \<noteq> [] \<Longrightarrow> length ip + length fp \<le> 9 \<Longrightarrow>
   reads CHR ''f'' (num_text neg ip fp) (VFloat (fixed neg ip fp))"
  by (simp add: reads_def isfield_num_text scan_item_def scan_f_num)

lemma reads_f_empty: "reads CHR ''f'' [] (VFloat \<lparr>mf_value = 0, mf_scale = 0\<rparr>)"
  by (simp add: reads_def scan_item_def scan_f_def frac_loop_ends frac_result_def)

section \<open>Letters and types\<close>

lemma field_head_Cons [simp]: "field_head (Some (c # q)) = Inr (if minmea_isfield c then Some c else None)"
  by (simp add: field_head_def)

lemma field_head_ends: "ends r \<Longrightarrow> field_head (Some r) = Inr None"
  by (cases r) (auto simp: ends_def)

lemma reads_c: "minmea_isfield c \<Longrightarrow> reads CHR ''c'' [c] (VChar c)"
  by (simp add: reads_def scan_item_def scan_c_def)

lemma reads_d:
  "reads CHR ''d'' [0x4E] (VInt 1)" "reads CHR ''d'' [0x45] (VInt 1)"
  "reads CHR ''d'' [0x53] (VInt (- 1))" "reads CHR ''d'' [0x57] (VInt (- 1))"
  by (simp_all add: reads_def scan_item_def scan_d_def minmea_isfield_def isprint_def)

lemma reads_d_empty: "reads CHR ''d'' [] (VInt 0)"
  by (simp add: reads_def scan_item_def scan_d_def field_head_ends)

lemma all_chars_append: "list_all test f \<Longrightarrow> n = length f \<Longrightarrow> all_chars test n (f @ r) = Inr True"
  by (induction f arbitrary: n) auto

lemma reads_t:
  assumes "list_all minmea_isfield ty" "length ty = 5"
  shows "reads CHR ''t'' (0x24 # ty) (VType ty)"
proof -
  have "all_chars minmea_isfield 5 (ty @ r) = Inr True" for r using assms by (intro all_chars_append) auto
  then show ?thesis using assms by (simp add: reads_def scan_item_def scan_t_def minmea_isfield_def isprint_def)
qed

section \<open>Dates and times\<close>

lemma two_at_two:
  assumes "n < 100" "i = length a"
  shows "two_at (a @ two n @ r) i = Inr (int n)"
proof -
  have d: "is_dig (of_nat (n div 10 + 48))" "is_dig (of_nat (n mod 10 + 48))"
    using two_dig [OF assms(1)] by (auto simp: two_def simp del: of_nat_add)
  have "dec_val [of_nat (n div 10 + 48), of_nat (n mod 10 + 48)] = n"
    using dec_val_two [OF assms(1)] by (simp add: two_def del: of_nat_add)
  then show ?thesis using assms(2,1) is_dig_not_special [OF d(1)] d
    by (simp add: two_at_def mem_at_def nth_append two_def strtol_def Let_def del: of_nat_add dec_val.simps)
qed

lemma three_two:
  assumes "a < 100" "b < 100" "c < 100" "t = two a @ two b @ two c"
  shows "two_at (t @ r) 0 = Inr (int a)" "two_at (t @ r) 2 = Inr (int b)" "two_at (t @ r) 4 = Inr (int c)"
    and "all_chars is_dig 6 (t @ r) = Inr True" "list_all is_dig t" "length t = 6"
    and "field_head (Some (t @ r)) \<noteq> Inr None" "\<exists>h. field_head (Some (t @ r)) = Inr (Some h)"
proof -
  show d: "list_all is_dig t" and l: "length t = 6" using assms two_dig by auto
  show "all_chars is_dig 6 (t @ r) = Inr True" using d l by (intro all_chars_append) auto
  show "two_at (t @ r) 0 = Inr (int a)" using two_at_two [OF assms(1), of 0 "[]" "two b @ two c @ r"] assms(4) by simp
  show "two_at (t @ r) 2 = Inr (int b)" using two_at_two [OF assms(2), of 2 "two a" "two c @ r"] assms(4) by simp
  show "two_at (t @ r) 4 = Inr (int c)" using two_at_two [OF assms(3), of 4 "two a @ two b" r] assms(4) by simp
  obtain x xs where "t = x # xs" using l by (cases t) auto
  then show "\<exists>h. field_head (Some (t @ r)) = Inr (Some h)" using d is_dig_not_special(8) [of x] by auto
  then show "field_head (Some (t @ r)) \<noteq> Inr None" by auto
qed

lemma reads_D:
  assumes "d < 100" "m < 100" "y < 100"
  shows "reads CHR ''D'' (two d @ two m @ two y) (VDate \<lparr>dt_day = int d, dt_month = int m, dt_year = int y\<rparr>)"
proof -
  note t = three_two [OF assms refl]
  have "scan_D (Some ((two d @ two m @ two y) @ r)) =
      Inr (Some (VDate \<lparr>dt_day = int d, dt_month = int m, dt_year = int y\<rparr>))" for r
    using t(8) [of r] unfolding scan_D_def by (auto simp: t(1-4) simp del: append_assoc)
  then show ?thesis using t(5) is_dig_not_special(8)
    by (auto simp: reads_def scan_item_def list_all_iff)
qed

lemma micro_loop_digits:
  "list_all is_dig tf \<Longrightarrow> unat sc = 10 ^ (length tf + k) \<Longrightarrow> length tf + k \<le> 6 \<Longrightarrow>
   (unat v + 1) * 10 ^ (length tf + k) \<le> 1000000 \<Longrightarrow>
   \<exists>v' sc'. micro_loop (tf @ r) v sc = micro_loop r v' sc' \<and>
     unat v' = unat v * 10 ^ length tf + dec_val tf \<and> unat sc' = 10 ^ k"
proof (induction tf arbitrary: v sc)
  case Nil
  then show ?case by (intro exI [of _ v] exI [of _ sc]) simp
next
  case (Cons c cs)
  let ?v = "v * 10 + (ucast c - 0x30)"
  have c: "is_dig c" using Cons.prems(1) by simp
  have one: "1 \<le> (10::nat) ^ (length (c # cs) + k)" by simp
  then have "(unat v + 1) * 1 \<le> (unat v + 1) * 10 ^ (length (c # cs) + k)" by (rule mult_le_mono2)
  from this [unfolded mult_1_right] have "unat v + 1 \<le> 1000000" using Cons.prems(4) by (rule order_trans)
  then have v: "unat ?v = unat v * 10 + dval c" using c by (intro unat_shift_digit) auto
  have s: "unat (sc div 10) = 10 ^ (length cs + k)" using Cons.prems(2) by (simp add: unat_div)
  have g: "sc > 1" unfolding word_less_nat_alt Cons.prems(2) unat_1 by (rule one_less_power) auto
  have "unat v * 10 + dval c + 1 \<le> (unat v + 1) * 10" using dval_lt [OF c] by simp
  then have "(unat ?v + 1) * 10 ^ (length cs + k) \<le> (unat v + 1) * 10 * 10 ^ (length cs + k)"
    unfolding v by (rule mult_le_mono1)
  also have "\<dots> \<le> 1000000" using Cons.prems(4) by (simp add: algebra_simps)
  finally have b: "(unat ?v + 1) * 10 ^ (length cs + k) \<le> 1000000" .
  have "micro_loop ((c # cs) @ r) v sc = micro_loop (cs @ r) ?v (sc div 10)"
    unfolding append_Cons micro_loop.simps(2) by (rule if_P) (use c g in blast)
  moreover from Cons.IH [OF _ s _ b] Cons.prems(1,3) obtain v' sc' where
    "micro_loop (cs @ r) ?v (sc div 10) = micro_loop r v' sc'"
    "unat v' = unat ?v * 10 ^ length cs + dec_val cs" "unat sc' = 10 ^ k" by auto
  moreover have "unat ?v * 10 ^ length cs + dec_val cs = unat v * 10 ^ length (c # cs) + dec_val (c # cs)"
    unfolding v by (simp add: algebra_simps)
  ultimately show ?case by (intro exI [of _ v'] exI [of _ sc'] conjI) (simp_all only:)
qed

lemma micro_loop_stop: "ends r \<Longrightarrow> micro_loop r v sc = Inr (v, sc)"
  using is_dig_not_special(8) by (cases r) (auto simp: ends_def)

lemma scan_micro_reads:
  assumes "list_all is_dig tf" "tf \<noteq> []" "length tf \<le> 6" "ends r"
  shows "scan_micro (0x2E # tf @ r) = Inr (int (dec_val tf * 10 ^ (6 - length tf)))"
proof -
  have k: "length tf + (6 - length tf) = 6" using assms(3) by simp
  obtain v sc where m: "micro_loop (tf @ r) 0 1000000 = micro_loop r v sc"
    "unat v = dec_val tf" "unat sc = 10 ^ (6 - length tf)"
    using micro_loop_digits [OF assms(1), of 1000000 "6 - length tf" 0 r] unfolding k by auto
  have "dec_val tf < 10 ^ length tf" using assms(1) by (rule dec_val_lt)
  then have "dec_val tf * 10 ^ (6 - length tf) < 10 ^ length tf * 10 ^ (6 - length tf)" by simp
  also have "\<dots> = 1000000" using k by (simp flip: power_add)
  finally have b: "unat v * unat sc < 1000000" by (simp only: m)
  then have u: "unat (v * sc) = unat v * unat sc" by (subst unat_mult_lem [THEN iffD1]) auto
  have "sint (v * sc) = int (unat (v * sc))"
  proof -
    have "0 \<le> uint (v * sc)" "uint (v * sc) < 2147483648" using b u uint_nat [of "v * sc"] by linarith+
    then show ?thesis unfolding sint_uint uint_nat [symmetric]
      by (intro signed_take_bit_int_eq_self) (auto intro: order_trans [of _ 0])
  qed
  then show ?thesis using m u micro_loop_stop [OF assms(4)] by (simp add: scan_micro_def)
qed

lemma scan_micro_none: "ends r \<Longrightarrow> scan_micro r = Inr 0"
  by (cases r) (auto simp: scan_micro_def ends_def minmea_isfield_def isprint_def)

lemma reads_T:
  assumes "h < 100" "m < 100" "s < 100" "list_all is_dig tf" "length tf \<le> 6"
  shows "reads CHR ''T'' (num_text False (two h @ two m @ two s) tf)
    (VTime \<lparr>hours = int h, minutes = int m, seconds = int s, microseconds = int (dec_val tf * 10 ^ (6 - length tf))\<rparr>)"
proof -
  note t = three_two [OF assms(1-3) refl]
  let ?f = "if tf = [] then [] else 0x2E # tf"
  have u: "scan_micro (?f @ r) = Inr (int (dec_val tf * 10 ^ (6 - length tf)))" if "ends r" for r
    using scan_micro_reads [OF assms(4) _ assms(5) that] scan_micro_none [OF that] by simp
  have "scan_T (Some ((two h @ two m @ two s) @ ?f @ r)) =
      Inr (Some (VTime \<lparr>hours = int h, minutes = int m, seconds = int s,
        microseconds = int (dec_val tf * 10 ^ (6 - length tf))\<rparr>))" if "ends r" for r
  proof -
    obtain c where c: "field_head (Some ((two h @ two m @ two s) @ ?f @ r)) = Inr (Some c)" using t(8) by blast
    have "drop 6 ((two h @ two m @ two s) @ ?f @ r) = ?f @ r" using t(6) by simp
    then show ?thesis unfolding scan_T_def c using u [OF that] by (simp add: t(1-4) del: append_assoc)
  qed
  moreover have "list_all minmea_isfield (num_text False (two h @ two m @ two s) tf)"
    using t(5) assms(4) by (rule isfield_num_text)
  ultimately show ?thesis by (simp add: reads_def scan_item_def num_text_def)
qed

end
