(* ===== verification/Minmea_Props.thy ===== *)
theory Minmea_Props
  imports Minmea_Check Minmea_Fields
begin

text \<open>
  The properties of the NMEA library \<open>minmea.c\<close>: kinds and ranges of scanned values, memory safety
  of every entry point, the sentence check, agreement with the number reader of \<open>gps.c\<close>, the \<open>RMC\<close>
  parser with and without magnetic variation, rounding, and the overflow of the scale.
\<close>

text \<open>A decimal of at most nine digits, and the text of an \<open>RMC\<close> sentence.\<close>

definition decimal :: "mem \<Rightarrow> mem \<Rightarrow> bool" where
  "decimal ip fp \<longleftrightarrow> list_all is_dig ip \<and> list_all is_dig fp \<and> ip @ fp \<noteq> [] \<and> length ip + length fp \<le> 9"

definition rmc_text ::
  "mem \<Rightarrow> mem \<Rightarrow> u8 \<Rightarrow> mem \<Rightarrow> u8 \<Rightarrow> mem \<Rightarrow> u8 \<Rightarrow> mem \<Rightarrow> mem \<Rightarrow> mem \<Rightarrow> mem \<times> mem \<Rightarrow> mem \<Rightarrow> mem" where
  "rmc_text ty tm st lat ns lon ew sp co dt mv q =
     text_of [0x24 # ty, tm, [st], lat, [ns], lon, [ew], sp, co, dt, fst mv, snd mv] (0x2A # q)"

text \<open>
  The magnetic variation of a sentence: none, or the digits before and behind the point and the letter
  of its direction; its two fields, and the value stored for it.
\<close>

type_synonym variation = "(mem \<times> mem \<times> u8) option"

fun var_fields :: "variation \<Rightarrow> mem \<times> mem" where
  "var_fields None = ([], [])"
| "var_fields (Some (ip, fp, w)) = (num_text False ip fp, [w])"

fun var_ok :: "variation \<Rightarrow> bool" where
  "var_ok None = True"
| "var_ok (Some (ip, fp, w)) = (decimal ip fp \<and> (w = 0x45 \<or> w = 0x57))"

fun var_value :: "variation \<Rightarrow> minmea_float" where
  "var_value None = \<lparr>mf_value = 0, mf_scale = 0\<rparr>"
| "var_value (Some (ip, fp, w)) = fixed (w \<noteq> 0x45) ip fp"

section \<open>Scanner\<close>

text \<open>
  C27: on a terminated string \<open>minmea_scan\<close> reads nothing outside the string; it stores values of
  the kinds its format names, in order and within the ranges of their types, all of them when it
  returns true.  The only fault left is a signed overflow.
\<close>

theorem minmea_scan_kinds:
  assumes "cstring s"
  shows "scan_typed (args format) (minmea_scan s format)"
  using assms by (rule minmea_scan_typed)

theorem minmea_scan_kinds_witness:
  "scan_typed ''tf'' (minmea_scan (bytes ''$GPXXX,-3.25*'' @ [0]) ''tf'')"
  using minmea_scan_kinds [of "bytes ''$GPXXX,-3.25*'' @ [0]" "''tf''"] by (simp add: args_def cstring_def)

text \<open>
  C28: checksum, check, identification and all eight parsers read nothing outside a terminated
  sentence, whatever it holds.
\<close>

theorem minmea_entry_points_safe:
  assumes "cstring s"
  shows "returns (minmea_checksum s) \<and> returns (minmea_check s strict) \<and>
    soft (minmea_talker_id s) \<and> soft (minmea_sentence_id s strict) \<and>
    soft (minmea_parse_rmc f1 s) \<and> soft (minmea_parse_gga f2 s) \<and> soft (minmea_parse_gsa f3 s) \<and>
    soft (minmea_parse_gll f4 s) \<and> soft (minmea_parse_gst f5 s) \<and> soft (minmea_parse_gsv f6 s) \<and>
    soft (minmea_parse_vtg f7 s) \<and> soft (minmea_parse_zda f8 s)"
proof -
  note scan = minmea_scan_soft [OF assms]
  have "returns (minmea_checksum s)"
    unfolding minmea_checksum_def using assms cstring_tag
    by (intro returns_and_then checksum_loop_ok) (auto simp: cstring_def deref_Inr_iff)
  moreover have "soft (minmea_talker_id s)"
    unfolding minmea_talker_id_def using scan by (intro soft_and_then) auto
  moreover have "soft (minmea_sentence_id s strict)"
    unfolding minmea_sentence_id_def
    using scan soft_returns [OF minmea_check_returns [OF assms]] by (intro soft_and_then) (auto intro!: soft_and_then)
  ultimately show ?thesis
    unfolding parse_defs using minmea_check_returns [OF assms]
    by (intro conjI parse_with_soft assms) (simp_all add: fin_defs)
qed

theorem minmea_entry_points_safe_witness:
  "\<forall>f. soft (minmea_parse_rmc f (bytes ''$GPRMC,081836'' @ [0]))"
proof
  fix f
  have "cstring (bytes ''$GPRMC,081836'' @ [0])" by (simp add: cstring_def)
  from minmea_entry_points_safe [OF this, of True f] show "soft (minmea_parse_rmc f (bytes ''$GPRMC,081836'' @ [0]))"
    by blast
qed

section \<open>Check\<close>

text \<open>
  C25: in strict mode \<open>minmea_check\<close> accepts exactly the strings of at most 83 bytes that are a
  dollar sign, printable bytes without a star, a star, two hexadecimal digits that give the
  exclusive or of those bytes, and an optional line end.
\<close>

theorem minmea_check_accepts:
  assumes "cstring s"
  shows "minmea_check s True =
    Inr (length (str_of s) \<le> 83 \<and> (\<exists>body h l tail. framed_ok (str_of s) body h l tail))"
  using assms by (rule minmea_check_strict)

theorem minmea_check_accepts_witness:
  "minmea_check (bytes ''$AB*03'' @ [0]) True = Inr True"
proof -
  have c: "cstring (bytes ''$AB*03'' @ [0])" by (simp add: cstring_def)
  have "framed_ok (str_of (bytes ''$AB*03'' @ [0])) (bytes ''AB'') 0x30 0x33 []"
    by (simp add: framed_ok_def body_char_def isprint_def hex2int_def xor_all_def line_end_def)
  then have "\<exists>body h l tail. framed_ok (str_of (bytes ''$AB*03'' @ [0])) body h l tail" by blast
  then show ?thesis using minmea_check_accepts [OF c] by simp
qed

text \<open>
  When one byte of an accepted sentence changes between the dollar sign and the star, to any
  other value, the sentence is refused.
\<close>

theorem minmea_check_detects:
  assumes "framed_ok m (a @ c # b) h l tail" "c' \<noteq> c" "length m \<le> 83"
  shows "minmea_check (m @ [0]) True = Inr True \<and>
    minmea_check (m[Suc (length a) := c'] @ [0]) True = Inr False"
proof -
  have m: "m = 0x24 # a @ c # b @ 0x2A # h # l # tail" and t: "0 \<notin> set tail"
    and ab: "list_all body_char (a @ c # b)" and hl: "h \<noteq> 0" "l \<noteq> 0"
    using assms(1) by (auto simp: framed_ok_def line_end_def hex2int_0)
  have "0 \<notin> set (a @ c # b)" using ab body_char_0 unfolding list_all_iff by blast
  then have "0 \<notin> set m" using hl t by (auto simp: m)
  then have s: "str_of (m @ [0]) = m" by (rule str_of_append_nul)
  have "minmea_check (m @ [0]) True = Inr True"
    using minmea_check_strict [of "m @ [0]"] assms(1,3) unfolding s by (auto simp: cstring_def)
  moreover have "m[Suc (length a) := c'] @ [0] = 0x24 # a @ c' # b @ 0x2A # h # l # tail @ [0]"
    by (simp add: m list_update_append)
  then have "minmea_check (m[Suc (length a) := c'] @ [0]) True = Inr False"
    using minmea_check_strict [of "m[Suc (length a) := c'] @ [0]"] framed_ok_changed [OF assms(1,2)]
    by (simp add: cstring_def)
  ultimately show ?thesis ..
qed

theorem minmea_check_detects_witness:
  "minmea_check (bytes ''$AB*03'' @ [0]) True = Inr True \<and> minmea_check (bytes ''$AC*03'' @ [0]) True = Inr False"
proof -
  have "framed_ok (bytes ''$AB*03'') (bytes ''A'' @ 0x42 # []) 0x30 0x33 []"
    by (simp add: framed_ok_def body_char_def isprint_def hex2int_def xor_all_def line_end_def)
  from minmea_check_detects [OF this, of "0x43"] show ?thesis by simp
qed

section \<open>Numbers\<close>

text \<open>
  C35: on a decimal field of at most nine digits, five of them behind the point, the fractional
  conversion of \<open>minmea_scan\<close> and \<open>NMEA_Str2num\<close> of \<open>gps.c\<close> read the same number: the value is
  the same and the scale is ten to the number of decimals.
\<close>

theorem minmea_float_agrees:
  assumes "list_all is_dig ip" "list_all is_dig fp" "ip @ fp \<noteq> []" "length ip + length fp \<le> 9"
    and "length fp \<le> 5" "t = 0x2C \<or> t = 0x2A"
  shows "\<exists>v dx. NMEA_Str2num (num_text neg ip fp @ t # r) = Inr (v, dx) \<and>
    scan_f (Some (num_text neg ip fp @ t # r)) =
      Inr (Some (VFloat \<lparr>mf_value = sint v, mf_scale = 10 ^ unat dx\<rparr>))"
proof -
  have e: "ends (t # r)" using assms(6) by (auto simp: ends_def minmea_isfield_def)
  have n: "min 5 (length fp) = length fp" "take 5 fp = fp" using assms(5) by auto
  obtain v dx where "NMEA_Str2num (num_text neg ip fp @ t # r) = Inr (v, dx)" "unat dx = length fp"
    "sint v = (if neg then - 1 else 1) * int (dec_val (ip @ fp))"
    using Str2num_decimal [OF assms(1,2,6), of neg r] assms(4,5) unfolding n by auto
  moreover have "scan_f (Some (num_text neg ip fp @ t # r)) = Inr (Some (VFloat (fixed neg ip fp)))"
    using assms(1-4) e by (rule scan_f_num)
  ultimately show ?thesis by (auto simp: fixed_def)
qed

theorem minmea_float_agrees_witness:
  "\<exists>v dx. NMEA_Str2num (num_text True (bytes ''37'') (bytes ''51'') @ 0x2C # [0]) = Inr (v, dx) \<and>
    scan_f (Some (num_text True (bytes ''37'') (bytes ''51'') @ 0x2C # [0])) =
      Inr (Some (VFloat \<lparr>mf_value = sint v, mf_scale = 10 ^ unat dx\<rparr>))"
  by (rule minmea_float_agrees) (simp_all add: is_dig_def)

lemma zeros_overflow:
  "n + k \<ge> 10 \<Longrightarrow> k \<le> 9 \<Longrightarrow> frac_loop (replicate n 0x30 @ r) (sg, 0, 10 ^ k) = Inl IntOverflow"
proof (induction n arbitrary: k)
  case (Suc n)
  have c: "minmea_isfield 0x30" "is_dig 0x30" "dval 0x30 = 0"
    by (simp_all add: minmea_isfield_def isprint_def is_dig_def dval_def)
  show ?case
  proof (cases "k = 9")
    case True
    then show ?thesis using c by (simp add: frac_char_dig frac_digit_def INT_LEAST32_MAX_def)
  next
    case False
    then have "(10::int) ^ k \<le> 10 ^ 8" using Suc.prems(2) by (intro power_increasing) auto
    then have "frac_digit 0 (sg, 0, 10 ^ k) = Inr (Go (sg, 0, 10 ^ Suc k))"
      by (simp add: frac_digit_def INT_LEAST32_MAX_def)
    then have "frac_loop (replicate (Suc n) 0x30 @ r) (sg, 0, 10 ^ k) = frac_loop (replicate n 0x30 @ r) (sg, 0, 10 ^ Suc k)"
      using c by (simp add: frac_char_dig)
    then show ?thesis using Suc.IH [of "Suc k"] Suc.prems False by simp
  qed
qed simp

text \<open>
  The fractional conversion does not bound the scale: a zero with ten or more decimals makes
  the multiplication of the scale overflow.
\<close>

theorem minmea_scale_overflow:
  assumes "10 \<le> n"
  shows "scan_f (Some (0x30 # 0x2E # replicate n 0x30 @ r)) = Inl IntOverflow"
proof -
  have "frac_loop (0x30 # 0x2E # replicate n 0x30 @ r) (0, - 1, 0) = frac_loop (replicate n 0x30 @ r) (0, 0, 10 ^ 0)"
    by (simp add: minmea_isfield_def isprint_def frac_char_def frac_digit_def is_dig_def dval_def INT_LEAST32_MAX_def)
  also have "\<dots> = Inl IntOverflow" using assms by (intro zeros_overflow) auto
  finally show ?thesis by (simp add: scan_f_def del: frac_loop.simps)
qed

theorem minmea_scale_overflow_witness:
  "scan_f (Some (bytes ''0.0000000000'' @ [0x2C])) = Inl IntOverflow"
  using minmea_scale_overflow [of 10 "[0x2C]"] by (simp add: eval_nat_numeral)

section \<open>Parsing RMC\<close>

lemma dir_row:
  "c = 0x4E \<or> c = 0x53 \<Longrightarrow> row_ok (CHR ''d'', [c], VInt (if c = 0x4E then 1 else - 1))"
  "c = 0x45 \<or> c = 0x57 \<Longrightarrow> row_ok (CHR ''d'', [c], VInt (if c = 0x45 then 1 else - 1))"
  using reads_d by (auto simp: row_ok_def)

lemma num_row: "decimal ip fp \<Longrightarrow> row_ok (CHR ''f'', num_text False ip fp, VFloat (fixed False ip fp))"
  using reads_f by (simp add: row_ok_def decimal_def)

lemma rmc_scan:
  assumes "list_all minmea_isfield ty" "length ty = 5" "minmea_isfield st" "ns = 0x4E \<or> ns = 0x53" "ew = 0x45 \<or> ew = 0x57"
    and "h < 100" "m < 100" "s < 100" "list_all is_dig tf" "length tf \<le> 6" "d < 100" "mo < 100" "y < 100"
    and "decimal lai laf" "decimal loi lof" "decimal spi spf" "decimal coi cof" "var_ok mv"
  shows "minmea_scan (rmc_text ty (num_text False (two h @ two m @ two s) tf) st (num_text False lai laf) ns
      (num_text False loi lof) ew (num_text False spi spf) (num_text False coi cof) (two d @ two mo @ two y) (var_fields mv) q) ''tTcfdfdffDfd'' =
    Inr (True, [VType ty, VTime \<lparr>hours = int h, minutes = int m, seconds = int s,
        microseconds = int (dec_val tf * 10 ^ (6 - length tf))\<rparr>, VChar st, VFloat (fixed False lai laf),
      VInt (if ns = 0x4E then 1 else - 1), VFloat (fixed False loi lof), VInt (if ew = 0x45 then 1 else - 1),
      VFloat (fixed False spi spf), VFloat (fixed False coi cof),
      VDate \<lparr>dt_day = int d, dt_month = int mo, dt_year = int y\<rparr>, VFloat (case mv of None \<Rightarrow> \<lparr>mf_value = 0, mf_scale = 0\<rparr> | Some (ip, fp, w) \<Rightarrow> fixed False ip fp),
      VInt (case mv of None \<Rightarrow> 0 | Some (ip, fp, w) \<Rightarrow> if w = 0x45 then 1 else - 1)])"
proof -
  let ?v = "case mv of None \<Rightarrow> \<lparr>mf_value = 0, mf_scale = 0\<rparr> | Some (ip, fp, w) \<Rightarrow> fixed False ip fp"
  let ?w = "case mv of None \<Rightarrow> 0 | Some (ip, fp, w) \<Rightarrow> if w = 0x45 then 1 else - 1"
  have mv: "row_ok (CHR ''f'', fst (var_fields mv), VFloat ?v)" "row_ok (CHR ''d'', snd (var_fields mv), VInt ?w)"
    using assms(18) reads_f_empty reads_d_empty num_row dir_row(2)
    by (cases mv rule: var_fields.cases; simp add: row_ok_def)+
  let ?rows = "[(CHR ''t'', 0x24 # ty, VType ty),
    (CHR ''T'', num_text False (two h @ two m @ two s) tf, VTime \<lparr>hours = int h, minutes = int m, seconds = int s,
        microseconds = int (dec_val tf * 10 ^ (6 - length tf))\<rparr>),
    (CHR ''c'', [st], VChar st), (CHR ''f'', num_text False lai laf, VFloat (fixed False lai laf)),
    (CHR ''d'', [ns], VInt (if ns = 0x4E then 1 else - 1)), (CHR ''f'', num_text False loi lof, VFloat (fixed False loi lof)),
    (CHR ''d'', [ew], VInt (if ew = 0x45 then 1 else - 1)), (CHR ''f'', num_text False spi spf, VFloat (fixed False spi spf)),
    (CHR ''f'', num_text False coi cof, VFloat (fixed False coi cof)),
    (CHR ''D'', two d @ two mo @ two y, VDate \<lparr>dt_day = int d, dt_month = int mo, dt_year = int y\<rparr>),
    (CHR ''f'', fst (var_fields mv), VFloat ?v), (CHR ''d'', snd (var_fields mv), VInt ?w)]"
  have "row_ok (CHR ''t'', 0x24 # ty, VType ty)" "row_ok (CHR ''c'', [st], VChar st)"
    using assms reads_t reads_c by (auto simp: row_ok_def)
  moreover have "row_ok (CHR ''T'', num_text False (two h @ two m @ two s) tf, VTime \<lparr>hours = int h, minutes = int m,
      seconds = int s, microseconds = int (dec_val tf * 10 ^ (6 - length tf))\<rparr>)"
    using reads_T assms(6-10) by (simp add: row_ok_def)
  moreover have "row_ok (CHR ''D'', two d @ two mo @ two y, VDate \<lparr>dt_day = int d, dt_month = int mo, dt_year = int y\<rparr>)"
    using reads_D assms(11-13) by (simp add: row_ok_def)
  ultimately have rows: "list_all row_ok ?rows"
    using dir_row(1) [OF assms(4)] dir_row(2) [OF assms(5)] num_row assms(14-17) mv by simp
  have "ends (0x2A # q)" "hd (0x2A # q) \<noteq> 0x2C" by (simp_all add: ends_def minmea_isfield_def)
  from minmea_scan_rows [OF _ rows this] show ?thesis by (simp add: rmc_text_def)
qed

text \<open>
  C26: an \<open>RMC\<close> sentence of any talker is parsed: the record holds exactly the time, down to
  microseconds, the validity, the signed coordinates, speed, course, date and magnetic variation of
  the sentence, whatever it held before.  The numbers have at most nine digits; the variation is
  signed by its direction, and stored as unknown where its two fields are empty.
\<close>

theorem minmea_parse_rmc_reads:
  assumes "minmea_isfield t1" "minmea_isfield t2" "minmea_isfield st" "ns = 0x4E \<or> ns = 0x53" "ew = 0x45 \<or> ew = 0x57"
    and "h < 100" "m < 100" "s < 100" "list_all is_dig tf" "length tf \<le> 6" "d < 100" "mo < 100" "y < 100"
    and "decimal lai laf" "decimal loi lof" "decimal spi spf" "decimal coi cof" "var_ok mv"
  shows "minmea_parse_rmc frame (rmc_text (t1 # t2 # bytes ''RMC'') (num_text False (two h @ two m @ two s) tf) st
      (num_text False lai laf) ns (num_text False loi lof) ew (num_text False spi spf) (num_text False coi cof)
      (two d @ two mo @ two y) (var_fields mv) q) =
    Inr (True, \<lparr>rm_time = \<lparr>hours = int h, minutes = int m, seconds = int s,
        microseconds = int (dec_val tf * 10 ^ (6 - length tf))\<rparr>, rm_valid = (st = 0x41),
      rm_latitude = fixed (ns \<noteq> 0x4E) lai laf, rm_longitude = fixed (ew \<noteq> 0x45) loi lof,
      rm_speed = fixed False spi spf, rm_course = fixed False coi cof,
      rm_date = \<lparr>dt_day = int d, dt_month = int mo, dt_year = int y\<rparr>,
      rm_variation = var_value mv\<rparr>)"
proof -
  have ty: "list_all minmea_isfield (t1 # t2 # bytes ''RMC'')" "length (t1 # t2 # bytes ''RMC'') = 5"
    using assms(1,2) by (simp_all add: minmea_isfield_def isprint_def)
  show ?thesis
    unfolding minmea_parse_rmc_def parse_with_def rmc_scan [OF ty assms(3-18)]
    by (cases mv rule: var_fields.cases)
      (simp_all add: Let_def is_type_def arg_type_def rmc_slots_def slot_local_def slot_T_def slot_f_def slot_D_def
        rmc_fin_def arg_char_def arg_int_def scale_by_def fixed_def)
qed

theorem minmea_parse_rmc_reads_witness:
  "\<forall>frame. \<exists>frame'. minmea_parse_rmc frame
     (bytes ''$GPRMC,081836.5,A,3751.65,S,14507.36,E,000.0,360.0,130998,011.3,W*62'' @ [0]) = Inr (True, frame') \<and>
     rm_latitude frame' = \<lparr>mf_value = - 375165, mf_scale = 100\<rparr> \<and> microseconds (rm_time frame') = 500000 \<and>
     rm_variation frame' = \<lparr>mf_value = - 113, mf_scale = 10\<rparr>"
proof
  fix frame
  note w = minmea_parse_rmc_reads [where frame = frame and ?t1.0 = "0x47" and ?t2.0 = "0x50" and st = "0x41" and ns = "0x53"
    and ew = "0x45" and h = 8 and m = 18 and s = 36 and tf = "bytes ''5''" and d = 13 and mo = 9 and y = 98
    and lai = "bytes ''3751''" and laf = "bytes ''65''" and loi = "bytes ''14507''" and lof = "bytes ''36''"
    and spi = "bytes ''000''" and spf = "bytes ''0''" and coi = "bytes ''360''" and cof = "bytes ''0''"
    and mv = "Some (bytes ''011'', bytes ''3'', 0x57)" and q = "bytes ''62'' @ [0]"]
  show "\<exists>frame'. minmea_parse_rmc frame
     (bytes ''$GPRMC,081836.5,A,3751.65,S,14507.36,E,000.0,360.0,130998,011.3,W*62'' @ [0]) = Inr (True, frame') \<and>
     rm_latitude frame' = \<lparr>mf_value = - 375165, mf_scale = 100\<rparr> \<and> microseconds (rm_time frame') = 500000 \<and>
     rm_variation frame' = \<lparr>mf_value = - 113, mf_scale = 10\<rparr>"
    using w by (simp add: rmc_text_def num_text_def two_def decimal_def fixed_def is_dig_def dval_def minmea_isfield_def isprint_def)
qed

section \<open>Rescaling\<close>

lemma s32_resI: "- (2 ^ 31) \<le> v \<Longrightarrow> v < 2 ^ 31 \<Longrightarrow> s32_res v = Inr v"
  by (simp add: s32_res_def)

lemma sdiv_nonneg: "0 \<le> (a :: int) \<Longrightarrow> 0 < b \<Longrightarrow> a sdiv b = a div b"
  by (cases "a = 0") (auto simp: signed_divide_int_def)

lemma sdiv_minus: "(- a :: int) sdiv b = - (a sdiv b)"
  by (simp add: signed_divide_int_def)

lemma nearest:
  assumes "0 < (k :: int)"
  shows "2 * \<bar>k * ((v + k div 2) div k) - v\<bar> \<le> k"
proof -
  define P m j where "P = k * ((v + k div 2) div k)" and "m = (v + k div 2) mod k" and "j = k div 2"
  have "P + m = v + j" by (simp add: P_def m_def j_def)
  moreover have "0 \<le> m" "m < k" using assms by (simp_all add: m_def)
  moreover have "2 * j \<le> k" "k \<le> 2 * j + 1" by (simp_all add: j_def)
  ultimately have "2 * (P - v) \<le> k" "2 * (v - P) \<le> k" by presburger+
  then show ?thesis unfolding P_def [symmetric] by (simp add: abs_if)
qed

text \<open>The value rounded by adding half a unit away from zero and cutting off.\<close>

lemma rescale_down:
  assumes "mf_scale f = new_scale * k" "0 < new_scale" "2 \<le> k" "mf_scale f < 2 ^ 31"
    and "\<bar>mf_value f\<bar> + k div 2 < 2 ^ 31"
  shows "minmea_rescale f new_scale = Inr (sgn (mf_value f) * ((\<bar>mf_value f\<bar> + k div 2) div k))"
proof -
  let ?v = "mf_value f" and ?s = "mf_scale f" and ?g = "sgn (mf_value f)"
  have g: "of_bool (?v > 0) - of_bool (?v < 0) = ?g" by (auto simp: sgn_if)
  have sp: "?s > new_scale" "0 < ?s" using assms(1-3) by auto
  have kb: "k \<le> ?s" using assms(1-3) by simp
  have d: "?s sdiv new_scale = k" using assms(1,2) sp by (simp add: sdiv_nonneg)
  have g3: "?g = - 1 \<or> ?g = 0 \<or> ?g = 1" by (auto simp: sgn_if)
  have a: "s32_res (?g * ?s) = Inr (?g * ?s)" using g3 assms(4) sp by (intro s32_resI) auto
  have b: "c_div (?g * ?s) new_scale = Inr (?g * k)"
  proof -
    have "(?g * ?s) sdiv new_scale = ?g * k" using g3 d by (auto simp: sdiv_minus)
    then show ?thesis using assms(2,4) kb g3 assms(3) by (auto simp: c_div_def intro!: s32_resI)
  qed
  have c: "c_div (?g * k) 2 = Inr (?g * (k div 2))"
  proof -
    have "(?g * k) sdiv 2 = ?g * (k div 2)" using g3 assms(3) by (auto simp: sdiv_minus sdiv_nonneg)
    then show ?thesis using assms(4) kb g3 assms(3) by (auto simp: c_div_def intro!: s32_resI)
  qed
  have n: "?v + ?g * (k div 2) = ?g * (\<bar>?v\<bar> + k div 2)" by (auto simp: sgn_if abs_if)
  have e: "s32_res (?v + ?g * (k div 2)) = Inr (?g * (\<bar>?v\<bar> + k div 2))"
    unfolding n using g3 assms(5) assms(3) by (intro s32_resI) auto
  have r: "0 \<le> (\<bar>?v\<bar> + k div 2) div k" "(\<bar>?v\<bar> + k div 2) div k \<le> \<bar>?v\<bar> + k div 2"
    using assms(3) by (auto simp: pos_imp_zdiv_nonneg_iff int_div_less_self intro: order_trans [OF zdiv_mono2 [of _ 1]])
  have "c_div (?g * (\<bar>?v\<bar> + k div 2)) k = Inr (?g * ((\<bar>?v\<bar> + k div 2) div k))"
  proof -
    have "(?g * (\<bar>?v\<bar> + k div 2)) sdiv k = ?g * ((\<bar>?v\<bar> + k div 2) div k)"
      using g3 assms(3) sdiv_minus [of "\<bar>?v\<bar> + k div 2" k] sdiv_nonneg [of "\<bar>?v\<bar> + k div 2" k] by auto
    then show ?thesis using g3 r assms(3,5) by (auto simp: c_div_def intro!: s32_resI)
  qed
  moreover have "c_div ?s new_scale = Inr k"
    using d assms(2,4) kb assms(3) by (simp add: c_div_def s32_resI)
  ultimately show ?thesis
    using sp by (simp only: minmea_rescale_def g a b c e and_then.simps if_P) simp
qed

text \<open>
  To a coarser scale \<open>minmea_rescale\<close> rounds to the nearest value, not towards zero: the result
  is off by at most half of a unit of the new scale.
\<close>

theorem minmea_rescale_rounds:
  assumes "mf_scale f = new_scale * k" "0 < new_scale" "2 \<le> k" "mf_scale f < 2 ^ 31"
    and "\<bar>mf_value f\<bar> + k div 2 < 2 ^ 31"
  shows "\<exists>r. minmea_rescale f new_scale = Inr r \<and> 2 * \<bar>k * r - mf_value f\<bar> \<le> k"
proof -
  let ?v = "mf_value f"
  have k: "0 < k" using assms(3) by simp
  have "2 * \<bar>k * (sgn ?v * ((\<bar>?v\<bar> + k div 2) div k)) - ?v\<bar> \<le> k"
  proof (cases "?v = 0")
    case False
    then have "k * (sgn ?v * ((\<bar>?v\<bar> + k div 2) div k)) - ?v = sgn ?v * (k * ((\<bar>?v\<bar> + k div 2) div k) - \<bar>?v\<bar>)"
      by (simp add: algebra_simps abs_sgn)
    then show ?thesis using nearest [OF k, of "\<bar>?v\<bar>"] False by (simp add: abs_mult)
  qed (use k in simp)
  then show ?thesis using rescale_down [OF assms] by blast
qed

theorem minmea_rescale_rounds_witness:
  "\<exists>r. minmea_rescale \<lparr>mf_value = - 375166, mf_scale = 100\<rparr> 10 = Inr r \<and> 2 * \<bar>10 * r + 375166\<bar> \<le> 10"
  using minmea_rescale_rounds [of "\<lparr>mf_value = - 375166, mf_scale = 100\<rparr>" 10 10] by simp

end
