(* ===== verification/A9g_Socket.thy ===== *)
theory A9g_Socket
  imports C_String C_Format "HOL-Library.State_Monad"
begin

text \<open>
  The socket operations of the A9G modem, \<open>applications/at_socket_a9g.c\<close>.

  Two threads meet here.  A caller runs connect, close, send or resolve: it sends AT commands and
  waits on the event set of the device.  The parser thread of the AT client reads lines and calls
  the URC handlers, which set events and report received data and closed sockets.

  The AT client and the modem behind it are outside this file: what a command returns, how much of
  a packet is sent, whether memory is left, which events the parser thread sets while a call of the
  caller is in progress and what a response holds are functions, the record \<open>modem\<close>, of everything
  that happened before.
\<close>

section \<open>State\<close>

datatype at_op =
    NewResp nat nat nat bool | SetInfo nat nat nat | DelResp | Exec bool mem | SendObj mem | EndSign u8 | TakeLock | ReleaseLock
  | WaitEvent u32 nat | Delay nat | ParseErr | ParseIp
  | ParseKw string | ParseLine nat | GetLine string | WaitConnect nat | Power bool | StartThread string

datatype notice = RecvData nat mem | SockClosed nat

text \<open>The network interface of the modem: its flags, hardware address and addresses as texts.\<close>

record netdev =
  nd_up :: bool
  nd_link :: bool
  nd_dhcp :: bool
  hwaddr :: mem
  nd_ip :: u32
  nd_dns :: "nat \<Rightarrow> mem"

record at_dev =
  socket_event :: u32
  at_evt_cb_set :: "bool list"
  is_init :: bool
  nd :: netdev
  ops :: "at_op list"
  notices :: "notice list"

record modem =
  m_alloc :: "at_op list \<Rightarrow> bool"
  m_exec :: "at_op list \<Rightarrow> int"
  m_sent :: "at_op list \<Rightarrow> nat"
  m_events :: "at_op list \<Rightarrow> u32 list"
  m_err :: "at_op list \<Rightarrow> int option"
  m_ip :: "at_op list \<Rightarrow> mem option option"
  m_first :: bool
  m_wait :: "at_op list \<Rightarrow> int"
  m_text :: "at_op list \<Rightarrow> mem option"
  m_num :: "at_op list \<Rightarrow> int option"
  m_line :: "at_op list \<Rightarrow> bool"

type_synonym 'a atm = "(at_dev, 'a) state"

text \<open>A device with both callbacks installed on which nothing has happened yet.\<close>

definition idle_dev :: at_dev where
  "idle_dev = \<lparr>socket_event = 0, at_evt_cb_set = [True, True], is_init = False,
     nd = \<lparr>nd_up = False, nd_link = False, nd_dhcp = False, hwaddr = [], nd_ip = 0, nd_dns = (\<lambda>n. [])\<rparr>,
     ops = [], notices = []\<rparr>"

definition AT_DEVICE_A9G_SOCKETS_NUM :: nat where "AT_DEVICE_A9G_SOCKETS_NUM = 8"
definition A9G_MODULE_SEND_MAX_SIZE :: nat where "A9G_MODULE_SEND_MAX_SIZE = 1000"

definition A9G_EVENT_CONN_OK :: u32 where "A9G_EVENT_CONN_OK = 1"
definition A9G_EVENT_SEND_OK :: u32 where "A9G_EVENT_SEND_OK = 2"
definition A9G_EVENT_RECV_OK :: u32 where "A9G_EVENT_RECV_OK = 4"
definition A9G_EVENT_CLOSE_OK :: u32 where "A9G_EVENT_CLOSE_OK = 8"
definition A9G_EVENT_CONN_FAIL :: u32 where "A9G_EVENT_CONN_FAIL = 16"
definition A9G_EVENT_SEND_FAIL :: u32 where "A9G_EVENT_SEND_FAIL = 32"

text \<open>\<open>((socket + 1) << 16) | event\<close>, as a 32 bit pattern.\<close>

definition SET_EVENT :: "int \<Rightarrow> u32 \<Rightarrow> u32" where
  "SET_EVENT socket event = push_bit 16 (of_int (socket + 1)) OR event"

section \<open>The AT client's side\<close>

definition emit_op :: "at_op \<Rightarrow> unit atm" where
  "emit_op e = State (\<lambda>s. ((), s\<lparr>ops := ops s @ [e]\<rparr>))"

text \<open>Events the parser thread sets while the call that was just recorded is in progress.\<close>

definition take_events :: "modem \<Rightarrow> unit atm" where
  "take_events md = State (\<lambda>s. ((), s\<lparr>socket_event := fold (OR) (m_events md (ops s)) (socket_event s)\<rparr>))"

definition ask :: "(at_op list \<Rightarrow> 'a) \<Rightarrow> 'a atm" where
  "ask f = State (\<lambda>s. (f (ops s), s))"

text \<open>Buffer size, number of lines and timeout in ticks of 1 ms; \<open>False\<close> when there is no memory.\<close>

definition at_create_resp :: "modem \<Rightarrow> nat \<Rightarrow> nat \<Rightarrow> nat \<Rightarrow> bool atm" where
  "at_create_resp md buf_size line_num timeout = do {
     ok \<leftarrow> ask (m_alloc md);
     emit_op (NewResp buf_size line_num timeout ok);
     State_Monad.return ok
   }"

definition at_obj_exec_cmd :: "modem \<Rightarrow> bool \<Rightarrow> mem \<Rightarrow> int atm" where
  "at_obj_exec_cmd md resp cmd = do { emit_op (Exec resp cmd); take_events md; ask (m_exec md) }"

definition at_client_obj_send :: "modem \<Rightarrow> mem \<Rightarrow> int atm" where
  "at_client_obj_send md buf = do { emit_op (SendObj buf); take_events md; n \<leftarrow> ask (m_sent md); State_Monad.return (int n) }"

section \<open>Events\<close>

text \<open>\<open>rt_event_send\<close> refuses an empty set.\<close>

definition a9g_socket_event_send :: "u32 \<Rightarrow> at_dev \<Rightarrow> int \<times> at_dev" where
  "a9g_socket_event_send event s =
     (if event = 0 then (- 1, s) else (0, s\<lparr>socket_event := socket_event s OR event\<rparr>))"

text \<open>
  \<open>rt_event_recv\<close> with \<open>RT_EVENT_FLAG_OR | RT_EVENT_FLAG_CLEAR\<close>: the wait ends with the first event
  that meets the set; what is received is cleared.  Later events of the list stay pending.
\<close>

fun event_wait :: "u32 \<Rightarrow> u32 list \<Rightarrow> u32 \<Rightarrow> u32 option \<times> u32" where
  "event_wait w arr ev =
     (if w = 0 then (None, fold (OR) arr ev)
      else if ev AND w \<noteq> 0 then (Some (ev AND w), fold (OR) arr (ev AND NOT w))
      else case arr of [] \<Rightarrow> (None, ev) | a # as \<Rightarrow> event_wait w as (ev OR a))"

declare event_wait.simps [simp del]

definition a9g_socket_event_recv :: "modem \<Rightarrow> u32 \<Rightarrow> nat \<Rightarrow> int atm" where
  "a9g_socket_event_recv md event timeout = do {
     emit_op (WaitEvent event timeout);
     State (\<lambda>s.
       let arr = (if timeout = 0 then [] else m_events md (ops s));
           (r, ev) = event_wait event arr (socket_event s)
       in (case r of None \<Rightarrow> - 2 | Some recved \<Rightarrow> sint recved, s\<lparr>socket_event := ev\<rparr>))
   }"

section \<open>Close and connect\<close>

text \<open>\<open>device_socket\<close> is \<open>(int) socket->user_data\<close>.\<close>

definition a9g_socket_close :: "modem \<Rightarrow> int \<Rightarrow> int atm" where
  "a9g_socket_close md device_socket = do {
     resp \<leftarrow> at_create_resp md 64 0 600;
     if \<not> resp then State_Monad.return (- 5)
     else do {
       r \<leftarrow> at_obj_exec_cmd md True (bytes ''AT+CIPCLOSE='' @ fmt_int device_socket);
       emit_op DelResp;
       State_Monad.return (if r < 0 then - 1 else 0)
     }
   }"

datatype at_socket_type = AT_SOCKET_INVALID | AT_SOCKET_TCP | AT_SOCKET_UDP

definition cipstart :: "string \<Rightarrow> mem \<Rightarrow> nat \<Rightarrow> mem" where
  "cipstart proto ip port =
     bytes ''AT+CIPSTART='' @ [0x22] @ bytes proto @ [0x22, 0x2C, 0x22] @ ip @ [0x22, 0x2C] @ fmt_int (int port)"

text \<open>The command of the \<open>switch\<close>: \<open>0\<close>, or \<open>-1\<close> for \<open>goto __exit\<close>.\<close>

definition connect_cmd :: "modem \<Rightarrow> mem \<Rightarrow> nat \<Rightarrow> at_socket_type \<Rightarrow> bool \<Rightarrow> int atm" where
  "connect_cmd md ip port type is_client =
     (if \<not> is_client then State_Monad.return 0
      else case type of
        AT_SOCKET_TCP \<Rightarrow> do { r \<leftarrow> at_obj_exec_cmd md False (cipstart ''TCP'' ip port); State_Monad.return (if r < 0 then - 1 else 0) }
      | AT_SOCKET_UDP \<Rightarrow> do { r \<leftarrow> at_obj_exec_cmd md False (cipstart ''UDP'' ip port); State_Monad.return (if r < 0 then - 1 else 0) }
      | AT_SOCKET_INVALID \<Rightarrow> State_Monad.return (- 1))"

text \<open>From \<open>__retry\<close> on; \<open>n\<close> retries are left.\<close>

fun connect_try :: "modem \<Rightarrow> nat \<Rightarrow> int \<Rightarrow> mem \<Rightarrow> nat \<Rightarrow> at_socket_type \<Rightarrow> bool \<Rightarrow> int atm" where
  "connect_try md n device_socket ip port type is_client = do {
     a9g_socket_event_recv md (SET_EVENT device_socket (A9G_EVENT_CONN_OK OR A9G_EVENT_CONN_FAIL)) 0;
     r \<leftarrow> connect_cmd md ip port type is_client;
     if r < 0 then State_Monad.return (- 1)
     else do {
       e1 \<leftarrow> a9g_socket_event_recv md (SET_EVENT device_socket 0) 10000;
       if e1 < 0 then State_Monad.return (- 2)
       else do {
         e2 \<leftarrow> a9g_socket_event_recv md (A9G_EVENT_CONN_OK OR A9G_EVENT_CONN_FAIL) 1000;
         if e2 < 0 then State_Monad.return (- 2)
         else if (word_of_int e2 :: u32) AND A9G_EVENT_CONN_FAIL \<noteq> 0
         then (case n of
             0 \<Rightarrow> State_Monad.return (- 1)
           | Suc n' \<Rightarrow> do {
               c \<leftarrow> a9g_socket_close md device_socket;
               if c < 0 then State_Monad.return (- 1)
               else connect_try md n' device_socket ip port type is_client
             })
         else State_Monad.return 0
       }
     }
   }"

declare connect_try.simps [simp del]

definition a9g_socket_connect :: "modem \<Rightarrow> int \<Rightarrow> mem \<Rightarrow> nat \<Rightarrow> at_socket_type \<Rightarrow> bool \<Rightarrow> int atm" where
  "a9g_socket_connect md device_socket ip port type is_client = do {
     resp \<leftarrow> at_create_resp md 128 0 5000;
     if \<not> resp then State_Monad.return (- 5)
     else do {
       result \<leftarrow> connect_try md 1 device_socket ip port type is_client;
       emit_op DelResp;
       State_Monad.return result
     }
   }"

section \<open>Send\<close>

text \<open>The packets the loop of \<open>a9g_socket_send\<close> cuts the buffer into.\<close>

function packets :: "mem \<Rightarrow> mem list" where
  "packets buf =
     (if buf = [] then []
      else if length buf < A9G_MODULE_SEND_MAX_SIZE then [buf]
      else take A9G_MODULE_SEND_MAX_SIZE buf # packets (drop A9G_MODULE_SEND_MAX_SIZE buf))"
  by pat_completeness auto
termination by (relation "measure length") (auto simp: A9G_MODULE_SEND_MAX_SIZE_def)

declare packets.simps [simp del]

text \<open>The loop: \<open>result\<close> is the variable of that name, the value is what \<open>__exit\<close> returns.\<close>

fun send_loop :: "modem \<Rightarrow> int \<Rightarrow> mem list \<Rightarrow> int \<Rightarrow> int atm" where
  "send_loop md device_socket [] result = State_Monad.return result"
| "send_loop md device_socket (p # ps) result = do {
     r \<leftarrow> at_obj_exec_cmd md True
            (bytes ''AT+CIPSEND='' @ fmt_int device_socket @ [0x2C] @ fmt_int (int (length p)));
     if r < 0 then State_Monad.return (- 1)
     else do {
       n \<leftarrow> at_client_obj_send md p;
       if n = 0 then State_Monad.return (- 1)
       else do {
         emit_op (SetInfo 128 0 30000);
         q \<leftarrow> at_obj_exec_cmd md True [];
         if q < 0 then State_Monad.return (- 1)
         else do {
           emit_op (SetInfo 128 2 5000);
           send_loop md device_socket ps n
         }
       }
     }
   }"

definition a9g_socket_send :: "modem \<Rightarrow> int \<Rightarrow> mem \<Rightarrow> int atm" where
  "a9g_socket_send md device_socket buff = do {
     resp \<leftarrow> at_create_resp md 128 2 5000;
     if \<not> resp then State_Monad.return (- 5)
     else do {
       emit_op TakeLock;
       emit_op (EndSign 0x3E);
       result \<leftarrow> send_loop md device_socket (packets buff) 0;
       emit_op (EndSign 0);
       emit_op ReleaseLock;
       emit_op DelResp;
       State_Monad.return result
     }
   }"

section \<open>Resolve\<close>

text \<open>
  One round of the loop.  \<open>m_err\<close> is the error code the first parse stores, if it stores one.  The
  second parse fails when \<open>m_ip\<close> is \<open>None\<close>; otherwise it may store a text in \<open>recv_ip\<close>, and a text of
  16 bytes or more overruns it.  \<open>Inl r\<close> leaves the loop with the result and the address stored,
  \<open>Inr t\<close> goes on with \<open>t\<close> in \<open>recv_ip\<close>.
\<close>

definition resolve_round :: "modem \<Rightarrow> mem \<Rightarrow> mem \<Rightarrow> ((int \<times> mem option + mem) res) atm" where
  "resolve_round md name recv_ip = do {
     r \<leftarrow> at_obj_exec_cmd md True (bytes ''AT+CDNSGIP='' @ [0x22] @ name @ [0x22]);
     if r < 0 then State_Monad.return (Inr (Inl (- 1, None)))
     else do {
       emit_op ParseErr;
       err \<leftarrow> ask (m_err md);
       if err = Some 3 \<or> err = Some 8 then State_Monad.return (Inr (Inl (- 1, None)))
       else do {
         emit_op ParseIp;
         ip \<leftarrow> ask (m_ip md);
         case ip of
           None \<Rightarrow> do { emit_op (Delay 100); State_Monad.return (Inr (Inr recv_ip)) }
         | Some u \<Rightarrow> let t = (case u of None \<Rightarrow> recv_ip | Some t \<Rightarrow> t) in
             if length t \<ge> 16 then State_Monad.return (Inl OutOfBounds)
             else if length t < 8 then do { emit_op (Delay 100); State_Monad.return (Inr (Inr t)) }
             else do { emit_op (Delay 10); State_Monad.return (Inr (Inl (0, Some (t @ replicate (16 - length t) 0)))) }
       }
     }
   }"

fun resolve_loop :: "nat \<Rightarrow> modem \<Rightarrow> mem \<Rightarrow> mem \<Rightarrow> ((int \<times> mem option) res) atm" where
  "resolve_loop 0 md name recv_ip = State_Monad.return (Inr (0, None))"
| "resolve_loop (Suc n) md name recv_ip = do {
     r \<leftarrow> resolve_round md name recv_ip;
     case r of
       Inl e \<Rightarrow> State_Monad.return (Inl e)
     | Inr (Inl res) \<Rightarrow> State_Monad.return (Inr res)
     | Inr (Inr t) \<Rightarrow> resolve_loop n md name t
   }"

definition a9g_domain_resolve :: "modem \<Rightarrow> mem \<Rightarrow> ((int \<times> mem option) res) atm" where
  "a9g_domain_resolve md name =
     (if \<not> m_first md then State_Monad.return (Inr (- 1, None))
      else do {
        resp \<leftarrow> at_create_resp md 1024 3 14000;
        if \<not> resp then State_Monad.return (Inr (- 5, None))
        else do {
          result \<leftarrow> resolve_loop 5 md name [];
          case result of
            Inl e \<Rightarrow> State_Monad.return (Inl e)
          | Inr r \<Rightarrow> do { emit_op DelResp; State_Monad.return (Inr r) }
        }
      })"

text \<open>\<open>a9g_socket_set_event_cb\<close>: \<open>cb\<close> says whether the callback is not null.\<close>

definition a9g_socket_set_event_cb :: "nat \<Rightarrow> bool \<Rightarrow> at_dev \<Rightarrow> at_dev" where
  "a9g_socket_set_event_cb event cb s =
     (if event < length (at_evt_cb_set s) then s\<lparr>at_evt_cb_set := (at_evt_cb_set s)[event := cb]\<rparr> else s)"

end
