(* ===== verification/A9g_Urc.thy ===== *)
theory A9g_Urc
  imports A9g_Socket
begin

text \<open>
  The parser thread: the URC handlers and the table of \<open>applications/at_socket_a9g.c\<close>, the table of
  \<open>at_device_a9g.c\<close>, and the part of RT-Thread's AT client that reads a line and looks the handler
  up (\<open>at_recv_readline\<close>, \<open>get_urc_obj\<close>, \<open>at_client_obj_recv\<close> in \<open>at_client.c\<close>).

  \<open>rx\<close> is the sequence of bytes the modem sends.  A line is handed over as the buffer
  \<open>recv_line_buf\<close>, zero behind the line, and its length.
\<close>

section \<open>Scanning\<close>

text \<open>A literal of a \<open>sscanf\<close> format: \<open>None\<close> at the first difference.\<close>

fun scan_lit :: "mem \<Rightarrow> mem \<Rightarrow> (mem option) res" where
  "scan_lit [] p = Inr (Some p)"
| "scan_lit (c # cs) [] = Inl OutOfBounds"
| "scan_lit (c # cs) (d # ds) = (if c = d then scan_lit cs ds else Inr None)"

text \<open>\<open>%d\<close>: \<open>None\<close> when there is no number.\<close>

definition scan_num :: "mem \<Rightarrow> ((int \<times> mem) option) res" where
  "scan_num p = and_then (strtol p) (\<lambda>(v, e). Inr (if e = p then None else Some (v, e)))"

text \<open>\<open>sscanf(data, "%d,%*s", &device_socket)\<close> with \<open>device_socket\<close> 0 before.\<close>

definition scan_socket :: "mem \<Rightarrow> int res" where
  "scan_socket data = and_then (scan_num data) (\<lambda>r. Inr (case r of None \<Rightarrow> 0 | Some (v, e) \<Rightarrow> v))"

text \<open>\<open>sscanf(data, "+CIPRCV,%d,%d:", &device_socket, (int *) &bfsz)\<close>, both 0 before.\<close>

definition scan_ciprcv :: "mem \<Rightarrow> (int \<times> u32) res" where
  "scan_ciprcv data =
     and_then (scan_lit (bytes ''+CIPRCV,'') data) (\<lambda>r. case r of None \<Rightarrow> Inr (0, 0) | Some p \<Rightarrow>
     and_then (scan_num p) (\<lambda>r. case r of None \<Rightarrow> Inr (0, 0) | Some (ds, q) \<Rightarrow>
     and_then (scan_lit [0x2C] q) (\<lambda>r. case r of None \<Rightarrow> Inr (ds, 0) | Some q' \<Rightarrow>
     and_then (scan_num q') (\<lambda>r. case r of None \<Rightarrow> Inr (ds, 0) | Some (n, e) \<Rightarrow> Inr (ds, of_int n)))))"

section \<open>Handlers\<close>

text \<open>\<open>strstr\<close> used as a condition.\<close>

definition has_text :: "string \<Rightarrow> mem \<Rightarrow> bool res" where
  "has_text t data = and_then (strstr (bytes t) data) (\<lambda>r. Inr (r \<noteq> None))"

definition set_event :: "int \<Rightarrow> u32 \<Rightarrow> at_dev \<Rightarrow> at_dev" where
  "set_event device_socket event s = snd (a9g_socket_event_send (SET_EVENT device_socket event) s)"

text \<open>\<open>found\<close>: \<open>at_device_get_by_name\<close> finds the device.\<close>

definition urc_connect_func :: "bool \<Rightarrow> mem \<Rightarrow> at_dev \<Rightarrow> at_dev res" where
  "urc_connect_func found data s =
     (if \<not> found then Inr s
      else and_then (scan_socket data) (\<lambda>ds. and_then (has_text ''CONNECT OK'' data) (\<lambda>ok.
        if ok then Inr (set_event ds A9G_EVENT_CONN_OK s)
        else and_then (has_text ''CONNECT FAIL'' data) (\<lambda>fail.
          Inr (if fail then set_event ds A9G_EVENT_CONN_FAIL s else s)))))"

definition urc_send_func :: "bool \<Rightarrow> mem \<Rightarrow> at_dev \<Rightarrow> at_dev res" where
  "urc_send_func found data s =
     (if \<not> found then Inr s
      else and_then (scan_socket data) (\<lambda>ds. and_then (has_text ''SEND OK'' data) (\<lambda>ok.
        if ok then Inr (set_event ds A9G_EVENT_SEND_OK s)
        else and_then (has_text ''SEND FAIL'' data) (\<lambda>fail.
          Inr (if fail then set_event ds A9G_EVENT_SEND_FAIL s else s)))))"

text \<open>\<open>&(device->sockets[device_socket])\<close>: an index outside the array is a fault.\<close>

definition socket_at :: "int \<Rightarrow> nat res" where
  "socket_at ds = (if 0 \<le> ds \<and> ds < int AT_DEVICE_A9G_SOCKETS_NUM then Inr (nat ds) else Inl OutOfBounds)"

text \<open>\<open>if (at_evt_cb_set[e]) at_evt_cb_set[e](...)\<close>\<close>

definition notify :: "nat \<Rightarrow> notice \<Rightarrow> at_dev \<Rightarrow> at_dev" where
  "notify e n s = (if at_evt_cb_set s ! e then s\<lparr>notices := notices s @ [n]\<rparr> else s)"

definition urc_close_func :: "bool \<Rightarrow> mem \<Rightarrow> at_dev \<Rightarrow> at_dev res" where
  "urc_close_func found data s =
     (if \<not> found then Inr s
      else and_then (scan_socket data) (\<lambda>ds. and_then (has_text ''CLOSE OK'' data) (\<lambda>ok.
        if ok then Inr (set_event ds A9G_EVENT_CLOSE_OK s)
        else and_then (has_text ''CLOSED'' data) (\<lambda>closed.
          if closed then and_then (socket_at ds) (\<lambda>k. Inr (notify 1 (SockClosed k) s)) else Inr s))))"

section \<open>Received data\<close>

text \<open>\<open>at_client_obj_recv\<close>: the bytes read, \<open>None\<close> when the modem stops sending before.\<close>

definition at_client_obj_recv :: "nat \<Rightarrow> mem \<Rightarrow> mem option \<times> mem" where
  "at_client_obj_recv n rx = (if n \<le> length rx then (Some (take n rx), drop n rx) else (None, []))"

text \<open>The loop that reads and drops the data when there is no memory for it.\<close>

partial_function (option) drop_data :: "u32 \<Rightarrow> u32 \<Rightarrow> mem \<Rightarrow> mem option" where
  "drop_data temp_size bfsz rx =
     (if temp_size < bfsz
      then drop_data (temp_size + 8) bfsz
             (snd (at_client_obj_recv (if bfsz - temp_size > 8 then 8 else unat (bfsz - temp_size)) rx))
      else Some rx)"

text \<open>
  \<open>rt_strstr(data,":")+1\<close> and \<open>temp_size\<close>: what stands behind the colon, without the two bytes of
  the line end.
\<close>

definition after_colon :: "mem \<Rightarrow> mem res" where
  "after_colon data = and_then (strstr [0x3A] data) (\<lambda>r. case r of None \<Rightarrow> Inl NullDeref | Some q \<Rightarrow> Inr (drop 1 q))"

definition rest_size :: "mem \<Rightarrow> mem \<Rightarrow> nat \<Rightarrow> u32" where
  "rest_size data p sz = of_nat sz - of_nat (length data - length p) - 2"

definition urc_recv_func ::
  "bool \<Rightarrow> bool \<Rightarrow> mem \<Rightarrow> nat \<Rightarrow> at_dev \<times> mem \<Rightarrow> ((at_dev \<times> mem) res) option" where
  "urc_recv_func found mem_ok data sz st =
     (case st of (s, rx) \<Rightarrow>
      case scan_ciprcv data of
        Inl e \<Rightarrow> Some (Inl e)
      | Inr (ds, bfsz) \<Rightarrow>
          if ds < 0 \<or> bfsz = 0 then Some (Inr (s, rx))
          else if \<not> found then Some (Inr (s, rx))
          else case after_colon data of
            Inl e \<Rightarrow> Some (Inl e)
          | Inr p \<Rightarrow>
              let temp_size = rest_size data p sz in
              if \<not> mem_ok then map_option (\<lambda>rx'. Inr (s, rx')) (drop_data temp_size bfsz rx)
              else if temp_size > bfsz \<or> unat temp_size > length p then Some (Inl OutOfBounds)
              else case at_client_obj_recv (unat (bfsz - temp_size)) rx of
                (None, rx') \<Rightarrow> Some (Inr (s, rx'))
              | (Some tail, rx') \<Rightarrow>
                  Some (and_then (socket_at ds) (\<lambda>k.
                    Inr (notify 0 (RecvData k (take (unat temp_size) p @ tail)) s, rx'))))"

section \<open>The tables and the parser thread\<close>

datatype urc_handler = UrcLog | UrcConnect | UrcSend | UrcClose | UrcRecv

definition crlf :: mem where "crlf = [0x0D, 0x0A]"

text \<open>The table of the device comes before the table of the sockets.\<close>

definition urc_table :: "(mem \<times> mem \<times> urc_handler) list" where
  "urc_table =
     [(bytes ''READY'', crlf, UrcLog),
      ([], bytes ''CONNECT OK'' @ crlf, UrcConnect),
      ([], bytes '',CONNECT FAIL'' @ crlf, UrcConnect),
      ([], bytes '',SEND FAIL'' @ crlf, UrcSend),
      (bytes ''CLOSED:'', crlf, UrcClose),
      (bytes ''+CIPRCV,'', crlf, UrcRecv)]"

definition urc_match :: "mem \<Rightarrow> mem \<times> mem \<times> urc_handler \<Rightarrow> bool" where
  "urc_match line u =
     (case u of (pre, suf, h) \<Rightarrow> length pre + length suf \<le> length line \<and>
        take (length pre) line = pre \<and> drop (length line - length suf) line = suf)"

definition get_urc_obj :: "mem \<Rightarrow> urc_handler option" where
  "get_urc_obj line = map_option (snd \<circ> snd) (find (urc_match line) urc_table)"

text \<open>
  \<open>at_recv_readline\<close>: \<open>es\<close> is the end sign, 0 when none is set, \<open>line\<close> the content of
  \<open>recv_line_buf\<close>, \<open>prev\<close> the byte before, \<open>full\<close> the flag.  \<open>None\<close> waits for more bytes; \<open>Inl\<close> is
  the line that did not fit.
\<close>

fun readline :: "u8 \<Rightarrow> nat \<Rightarrow> mem \<Rightarrow> u8 \<Rightarrow> bool \<Rightarrow> mem \<Rightarrow> ((unit + mem) \<times> mem) option" where
  "readline es bufsz line prev full [] = None"
| "readline es bufsz line prev full (ch # rx) =
     (let line' = (if length line < bufsz then line @ [ch] else line);
          full' = (full \<or> \<not> length line < bufsz)
      in if ch = 0x0A \<and> prev = 0x0D \<or> es \<noteq> 0 \<and> ch = es \<or> get_urc_obj line' \<noteq> None
         then Some (if full' then Inl () else Inr line', rx)
         else readline es bufsz line' ch full' rx)"

definition run_urc :: "nat \<Rightarrow> bool \<Rightarrow> bool \<Rightarrow> mem \<Rightarrow> at_dev \<times> mem \<Rightarrow> ((at_dev \<times> mem) res) option" where
  "run_urc bufsz found mem_ok line st =
     (let data = line @ replicate (bufsz - length line) 0;
          simple = (\<lambda>h. Some (and_then (h found data (fst st)) (\<lambda>s. Inr (s, snd st))))
      in case get_urc_obj line of
           None \<Rightarrow> Some (Inr st)
         | Some UrcLog \<Rightarrow> Some (Inr st)
         | Some UrcConnect \<Rightarrow> simple urc_connect_func
         | Some UrcSend \<Rightarrow> simple urc_send_func
         | Some UrcClose \<Rightarrow> simple urc_close_func
         | Some UrcRecv \<Rightarrow> urc_recv_func found mem_ok data (length line) st)"

text \<open>One turn of \<open>client_parser\<close> while no response is awaited and no end sign is set.\<close>

definition parser_turn :: "nat \<Rightarrow> bool \<Rightarrow> bool \<Rightarrow> at_dev \<times> mem \<Rightarrow> ((at_dev \<times> mem) res) option" where
  "parser_turn bufsz found mem_ok st =
     (case st of (s, rx) \<Rightarrow>
      case readline 0 bufsz [] 0 False rx of
        None \<Rightarrow> None
      | Some (Inl u, rx') \<Rightarrow> Some (Inr (s, rx'))
      | Some (Inr line, rx') \<Rightarrow> run_urc bufsz found mem_ok line (s, rx'))"

end
