(* ===== verification/A9g_Urc_Props.thy ===== *)
theory A9g_Urc_Props
  imports A9g_Urc
begin

text \<open>
  The properties of the parser thread: what reaches a socket for a line of received data, which
  lines are taken for something else, and which socket a closed connection is reported on.
\<close>

section \<open>Definitions\<close>

text \<open>A text in which no line ends.\<close>

fun no_crlf :: "mem \<Rightarrow> bool" where
  "no_crlf (a # b # r) = (\<not> (a = 0x0D \<and> b = 0x0A) \<and> no_crlf (b # r))"
| "no_crlf r = True"

definition ends_with :: "mem \<Rightarrow> mem \<Rightarrow> bool" where
  "ends_with p t \<longleftrightarrow> length t \<le> length p \<and> drop (length p - length t) p = t"

text \<open>A payload that does not end like a line of another kind.\<close>

definition plain_data :: "mem \<Rightarrow> bool" where
  "plain_data p \<longleftrightarrow> no_crlf p \<and>
     list_all (\<lambda>t. \<not> ends_with p (bytes t)) [''CONNECT OK'', '',CONNECT FAIL'', '',SEND FAIL'']"

text \<open>\<open>+CIPRCV,<socket>,<size>:\<close>\<close>

definition recv_head :: "nat \<Rightarrow> nat \<Rightarrow> mem" where
  "recv_head i n = bytes ''+CIPRCV,'' @ dec_digits i @ [0x2C] @ dec_digits n @ [0x3A]"

section \<open>Reading a line\<close>

lemma urc_table_suffix: "list_all (\<lambda>(pre, suf, h). suf = take (length suf - 2) suf @ crlf) urc_table"
  by (simp add: urc_table_def crlf_def)

lemma get_urc_objD:
  assumes "get_urc_obj line = Some h"
  shows "\<exists>pre suf. (pre, suf, h) \<in> set urc_table \<and> urc_match line (pre, suf, h)"
proof -
  obtain u where f: "find (urc_match line) urc_table = Some u" "snd (snd u) = h"
    using assms by (auto simp: get_urc_obj_def)
  from f(1) obtain k where "k < length urc_table" "urc_match line (urc_table ! k)" "u = urc_table ! k"
    unfolding find_Some_iff by blast
  then have "u \<in> set urc_table" "urc_match line u" by simp_all
  with f(2) show ?thesis by (cases u) auto
qed

lemma urc_match_suffix: "urc_match line (pre, suf, h) \<Longrightarrow> line = take (length line - length suf) line @ suf"
  using append_take_drop_id [of "length line - length suf" line] by (simp add: urc_match_def)

lemma urc_crlf: "get_urc_obj line \<noteq> None \<Longrightarrow> \<exists>x. line = x @ crlf"
proof -
  assume "get_urc_obj line \<noteq> None"
  then obtain pre suf h where u: "(pre, suf, h) \<in> set urc_table" "urc_match line (pre, suf, h)"
    using get_urc_objD by blast
  then have "suf = take (length suf - 2) suf @ crlf" using urc_table_suffix by (auto simp: list_all_iff)
  with urc_match_suffix [OF u(2)] have "line = (take (length line - length suf) line @ take (length suf - 2) suf) @ crlf"
    by simp
  then show ?thesis by blast
qed

lemma no_crlf_split: "no_crlf s \<Longrightarrow> s \<noteq> a @ crlf @ b"
proof (induction s arbitrary: a rule: no_crlf.induct)
  case (1 x y r)
  then show ?case by (cases a) (auto simp: crlf_def)
qed (auto simp: crlf_def Cons_eq_append_conv)

lemma no_crlf_prefix: "no_crlf (a @ b) \<Longrightarrow> no_crlf a"
  by (induction a rule: no_crlf.induct) auto

lemma no_crlf_append: "0x0D \<notin> set h \<Longrightarrow> no_crlf p \<Longrightarrow> no_crlf (h @ p)"
proof (induction h)
  case (Cons c h)
  then show ?case by (cases "h @ p") auto
qed simp

lemma readline_go:
  assumes "no_crlf (acc @ [c])" "length acc < bufsz" "prev = (if acc = [] then 0 else last acc)" "es = 0 \<or> c \<noteq> es"
  shows "readline es bufsz acc prev False (c # rx) = readline es bufsz (acc @ [c]) c False rx"
proof -
  have "\<not> (c = 0x0A \<and> prev = 0x0D)"
  proof
    assume c: "c = 0x0A \<and> prev = 0x0D"
    then have "acc \<noteq> []" "last acc = 0x0D" using assms(3) by (auto split: if_splits)
    then have "acc @ [c] = butlast acc @ crlf @ []"
      using c append_butlast_last_id [of acc] by (simp add: crlf_def)
    then show False using no_crlf_split [OF assms(1)] by blast
  qed
  moreover have "get_urc_obj (acc @ [c]) = None"
    using urc_crlf [of "acc @ [c]"] no_crlf_split [OF assms(1), of _ "[]"] by fastforce
  ultimately show ?thesis using assms(2,4) by (auto simp: Let_def)
qed

text \<open>A text without a line end or the end sign is read byte by byte.\<close>

lemma readline_run:
  "no_crlf (acc @ t) \<Longrightarrow> length (acc @ t) \<le> bufsz \<Longrightarrow> prev = (if acc = [] then 0 else last acc) \<Longrightarrow> es = 0 \<or> es \<notin> set t \<Longrightarrow>
   readline es bufsz acc prev False (t @ rx) =
   readline es bufsz (acc @ t) (if acc @ t = [] then 0 else last (acc @ t)) False rx"
proof (induction t arbitrary: acc prev)
  case (Cons c t)
  have "no_crlf (acc @ [c])" using Cons.prems(1) no_crlf_prefix [of "acc @ [c]" t] by simp
  then have "readline es bufsz acc prev False ((c # t) @ rx) = readline es bufsz (acc @ [c]) c False (t @ rx)"
    using readline_go [of acc c bufsz prev es "t @ rx"] Cons.prems(2-4) by auto
  also have "\<dots> = readline es bufsz (acc @ c # t) (last (acc @ c # t)) False rx"
    using Cons.IH [of "acc @ [c]" c] Cons.prems(1,2,4) by (auto simp del: last.simps)
  finally show ?case by simp
qed simp

lemma readline_text:
  assumes "no_crlf t" "length t + 2 \<le> bufsz"
  shows "readline 0 bufsz [] 0 False (t @ crlf @ rx) = Some (Inr (t @ crlf), rx)"
proof -
  have "no_crlf (t @ [0x0D])" using assms(1) by (induction t rule: no_crlf.induct) auto
  then have "readline 0 bufsz [] 0 False ((t @ [0x0D]) @ 0x0A # rx) = readline 0 bufsz (t @ [0x0D]) 0x0D False (0x0A # rx)"
    using readline_run [of "[]" "t @ [0x0D]" bufsz 0 0 "0x0A # rx"] assms(2) by (simp del: readline.simps)
  also have "\<dots> = Some (Inr (t @ crlf), rx)" using assms(2) by (simp add: crlf_def Let_def)
  finally show ?thesis by (simp add: crlf_def)
qed

text \<open>With an end sign set, the line ends at its first occurrence.\<close>

lemma readline_mark:
  assumes "no_crlf t" "length t < bufsz" "es \<noteq> 0" "es \<notin> set t"
  shows "readline es bufsz [] 0 False (t @ es # rx) = Some (Inr (t @ [es]), rx)"
proof -
  have "readline es bufsz [] 0 False (t @ es # rx) = readline es bufsz t (if t = [] then 0 else last t) False (es # rx)"
    using readline_run [of "[]" t bufsz 0 es "es # rx"] assms by (simp del: readline.simps)
  then show ?thesis using assms(2,3) by (simp add: Let_def)
qed

section \<open>The header\<close>

lemma digits_no: "is_dig c \<Longrightarrow> c \<noteq> 0 \<and> c \<noteq> 0x0D \<and> c \<noteq> 0x3A \<and> c \<noteq> 0x2D \<and> c \<noteq> 0x2B \<and> \<not> isspace c"
  by (auto simp: is_dig_iff isspace_def word_le_nat_alt word_unat_eq_iff)

lemma digit_run_append: "list_all is_dig ds \<Longrightarrow> \<not> is_dig c \<Longrightarrow> digit_run (ds @ c # r) = Inr (ds, c # r)"
  by (induction ds) auto

lemma dec_digits_ne: "dec_digits n \<noteq> []"
  by (subst dec_digits.simps) simp

lemma scan_num_digits:
  assumes "\<not> is_dig c" "n < 2 ^ 31"
  shows "scan_num (dec_digits n @ c # r) = Inr (Some (int n, c # r))"
proof -
  obtain d ds where d: "dec_digits n = d # ds" using dec_digits_ne [of n] by (cases "dec_digits n") auto
  have "is_dig d" using dec_digits_is_dig [of n] by (simp add: d)
  note nd = digits_no [OF this]
  let ?p = "dec_digits n @ c # r"
  have 1: "skip_space ?p = Inr ?p" "deref ?p = Inr d" using nd by (simp_all add: d)
  have 2: "digit_run (if d = 0x2D \<or> d = 0x2B then drop 1 ?p else ?p) = Inr (dec_digits n, c # r)"
    using nd digit_run_append [OF dec_digits_is_dig assms(1)] by simp
  have "int n \<le> 2 ^ 31 - 1" using assms(2) by simp
  then have "strtol ?p = Inr (int n, c # r)"
    using strtol_eq [OF 1 2] dec_digits_ne nd by (simp add: dec_val_dec_digits)
  moreover have "c # r \<noteq> ?p" using dec_digits_ne [of n] by simp
  ultimately show ?thesis by (simp add: scan_num_def)
qed

lemma recv_head_chars: "c \<in> set (bytes ''+CIPRCV,'' @ dec_digits i @ [0x2C] @ dec_digits n) \<Longrightarrow>
   c \<noteq> 0 \<and> c \<noteq> 0x0D \<and> c \<noteq> 0x3A"
  using dec_digits_is_dig digits_no by (auto simp: list_all_iff)

lemma scan_ciprcv_head:
  assumes "i < 8" "n < 2 ^ 31"
  shows "scan_ciprcv (recv_head i n @ q) = Inr (int i, of_nat n)"
proof -
  have nd: "\<not> is_dig 0x2C" "\<not> is_dig 0x3A" by (simp_all add: is_dig_def)
  have i: "i < 2 ^ 31" using assms(1) by simp
  show ?thesis
    using scan_num_digits [OF nd(1) i, of "dec_digits n @ [0x3A] @ q"] scan_num_digits [OF nd(2) assms(2), of q]
    by (simp add: scan_ciprcv_def recv_head_def)
qed

lemma strstr_char: "0 \<notin> set a \<Longrightarrow> c \<notin> set a \<Longrightarrow> strstr [c] (a @ c # q) = Inr (Some (c # q))"
  by (induction a) auto

lemma after_colon_head: "after_colon (recv_head i n @ q) = Inr q"
proof -
  let ?a = "bytes ''+CIPRCV,'' @ dec_digits i @ [0x2C] @ dec_digits n"
  have "strstr [0x3A] (?a @ 0x3A # q) = Inr (Some (0x3A # q))"
    using recv_head_chars by (intro strstr_char) blast+
  then show ?thesis by (simp add: after_colon_def recv_head_def)
qed

section \<open>Lookup\<close>

lemma ends_with_iff: "ends_with p t \<longleftrightarrow> (\<exists>x. p = x @ t)"
proof
  assume "ends_with p t"
  then have "p = take (length p - length t) p @ t"
    using append_take_drop_id [of "length p - length t" p] by (simp add: ends_with_def)
  then show "\<exists>x. p = x @ t" by blast
qed (auto simp: ends_with_def)

lemma ends_with_after:
  assumes "ends_with (a @ c # p) t" "c \<notin> set t"
  shows "ends_with p t"
proof -
  obtain x where x: "a @ c # p = x @ t" using assms(1) ends_with_iff by blast
  then obtain u where "a @ [c] = x @ u \<and> u @ p = t \<or> (a @ [c]) @ u = x \<and> p = u @ t"
    using append_eq_append_conv2 [of "a @ [c]" p x t] by auto
  then show ?thesis
  proof (elim disjE conjE)
    assume u: "a @ [c] = x @ u" "u @ p = t"
    then have "u = []" using assms(2) by (cases u rule: rev_cases) auto
    then show ?thesis using u by (simp add: ends_with_iff)
  qed (auto simp: ends_with_iff)
qed

lemma urc_match_suf: "urc_match (l @ crlf) ([], bytes t @ crlf, h) \<longleftrightarrow> ends_with l (bytes t)"
  by (auto simp: urc_match_def ends_with_def crlf_def)

lemma urc_match_pre:
  "urc_match (l @ crlf) (pre, crlf, h) \<longleftrightarrow> length pre \<le> length l \<and> take (length pre) (l @ crlf) = pre"
  by (auto simp: urc_match_def)

lemma get_urc_recv:
  assumes "plain_data p"
  shows "get_urc_obj (recv_head i n @ p @ crlf) = Some UrcRecv"
proof -
  let ?l = "recv_head i n @ p"
  let ?h = "bytes ''+CIPRCV,'' @ dec_digits i @ [0x2C] @ dec_digits n"
  have h: "?l = ?h @ 0x3A # p" by (simp add: recv_head_def)
  have e: "\<not> ends_with ?l (bytes t)" if "\<not> ends_with p (bytes t)" "0x3A \<notin> set (bytes t)" for t
    using ends_with_after [of ?h "0x3A" p "bytes t"] that unfolding h by blast
  have n: "\<not> urc_match (?l @ crlf) ([], bytes ''CONNECT OK'' @ crlf, x)"
    "\<not> urc_match (?l @ crlf) ([], bytes '',CONNECT FAIL'' @ crlf, x)"
    "\<not> urc_match (?l @ crlf) ([], bytes '',SEND FAIL'' @ crlf, x)" for x
    unfolding urc_match_suf append_assoc [symmetric] using assms by (intro e; simp add: plain_data_def)+
  have r: "\<not> urc_match (?l @ crlf) (bytes ''READY'', crlf, UrcLog)"
    "\<not> urc_match (?l @ crlf) (bytes ''CLOSED:'', crlf, UrcClose)"
    unfolding urc_match_pre by (simp_all add: recv_head_def)
  have c: "urc_match (?l @ crlf) (bytes ''+CIPRCV,'', crlf, UrcRecv)"
    unfolding urc_match_pre by (simp add: recv_head_def)
  show ?thesis using n r c unfolding append_assoc [symmetric]
    by (simp only: get_urc_obj_def urc_table_def find.simps if_False if_True option.map(2) comp_apply snd_conv)
qed

section \<open>Delivery\<close>

lemma recv_size:
  assumes "length (recv_head i n @ p) + 2 \<le> bufsz" "bufsz < 2 ^ 32"
  shows "rest_size (recv_head i n @ q) q (length (recv_head i n @ p @ crlf)) = of_nat (length p)"
  by (simp add: rest_size_def crlf_def)

lemma parser_ciprcv:
  assumes "i < 8" "0 < n" "n < 2 ^ 31" "plain_data p" "length (recv_head i n @ p) + 2 \<le> bufsz" "bufsz < 2 ^ 32"
  shows "parser_turn bufsz True True (s, recv_head i n @ p @ crlf @ rx) =
    Some (if n < length p then Inl OutOfBounds
      else if n - length p \<le> length rx
      then Inr (notify 0 (RecvData i (p @ take (n - length p) rx)) s, drop (n - length p) rx)
      else Inr (s, []))"
proof -
  let ?l = "recv_head i n @ p @ crlf" and ?z = "replicate (bufsz - length (recv_head i n @ p @ crlf)) (0 :: u8)"
  have "0x0D \<notin> set (recv_head i n)" using recv_head_chars [of "0x0D" i n] by (auto simp: recv_head_def)
  then have nc: "no_crlf (recv_head i n @ p)" using assms(4) no_crlf_append by (simp add: plain_data_def)
  have rl: "readline 0 bufsz [] 0 False (recv_head i n @ p @ crlf @ rx) = Some (Inr ?l, rx)"
    using readline_text [of "recv_head i n @ p" bufsz rx] nc assms(5) by simp
  have sc: "scan_ciprcv (?l @ ?z) = Inr (int i, of_nat n)"
    using scan_ciprcv_head [OF assms(1,3), of "p @ crlf @ ?z"] by simp
  have ac: "after_colon (?l @ ?z) = Inr (p @ crlf @ ?z)"
    using after_colon_head [of i n "p @ crlf @ ?z"] by simp
  have rs: "rest_size (?l @ ?z) (p @ crlf @ ?z) (length ?l) = of_nat (length p)"
    using recv_size [OF assms(5,6), of "p @ crlf @ ?z"] by simp
  have un: "unat (of_nat n :: u32) = n" using assms(3) by (intro unat_of_nat_small) simp
  have up: "unat (of_nat (length p) :: u32) = length p" using assms(5,6) by (intro unat_of_nat_small) simp
  have nz: "(of_nat n :: u32) \<noteq> 0" using un assms(2) by (metis unat_0 less_irrefl)
  have gt: "(of_nat (length p) :: u32) > of_nat n \<longleftrightarrow> n < length p" by (simp add: word_less_nat_alt un up)
  have df: "unat (of_nat n - of_nat (length p) :: u32) = n - length p" if "\<not> n < length p"
    using that by (subst unat_sub) (simp_all add: word_le_nat_alt un up)
  have k: "socket_at (int i) = Inr i" using assms(1) by (simp add: socket_at_def AT_DEVICE_A9G_SOCKETS_NUM_def)
  have "parser_turn bufsz True True (s, recv_head i n @ p @ crlf @ rx) = urc_recv_func True True (?l @ ?z) (length ?l) (s, rx)"
    unfolding parser_turn_def prod.case rl option.case sum.case run_urc_def Let_def get_urc_recv [OF assms(4)] urc_handler.case
    by simp
  also have "\<dots> = Some (if n < length p then Inl OutOfBounds
      else if n - length p \<le> length rx
      then Inr (notify 0 (RecvData i (p @ take (n - length p) rx)) s, drop (n - length p) rx)
      else Inr (s, []))"
    unfolding urc_recv_func_def prod.case sc sum.case ac Let_def rs gt up
    using nz df k by (simp add: at_client_obj_recv_def)
  finally show ?thesis .
qed

section \<open>Other lines\<close>

lemma has_prefix_set: "has_prefix t m \<Longrightarrow> set t \<subseteq> set m"
  by (auto simp: has_prefix_iff)

lemma strstr_absent: "d \<in> set t \<Longrightarrow> d \<notin> set a \<Longrightarrow> d \<noteq> 0 \<Longrightarrow> 0 \<notin> set a \<Longrightarrow>
   strstr t (a @ replicate (Suc k) 0) = Inr None"
proof (induction a)
  case Nil
  have "set (replicate k 0) \<subseteq> {0 :: u8}" by auto
  then show ?case using Nil has_prefix_set [of t "0 # replicate k 0"] by auto
next
  case (Cons c a)
  have "set (replicate k 0) \<subseteq> {0 :: u8}" by auto
  then show ?case using Cons has_prefix_set [of t "c # a @ 0 # replicate k 0"] by auto
qed

lemma strstr_found: "0 \<notin> set a \<Longrightarrow> t \<noteq> [] \<Longrightarrow> \<exists>r. strstr t (a @ t @ q) = Inr (Some r)"
proof (induction a)
  case Nil
  obtain c r where "t @ q = c # r" using Nil by (cases t) auto
  moreover have "has_prefix t (t @ q)" by (auto simp: has_prefix_iff)
  ultimately show ?case by simp
qed auto

text \<open>A line that does not begin with a number counts for socket 0.\<close>

lemma scan_socket_text:
  assumes "\<not> is_dig c" "\<not> is_dig d" "\<not> isspace c" "c \<noteq> 0x2D"
  shows "scan_socket (c # d # r) = Inr 0"
proof -
  let ?p = "c # d # r"
  have 1: "skip_space ?p = Inr ?p" "deref ?p = Inr c" using assms(3) by simp_all
  have 2: "digit_run (if c = 0x2D \<or> c = 0x2B then drop 1 ?p else ?p) =
      Inr ([], if c = 0x2D \<or> c = 0x2B then drop 1 ?p else ?p)" using assms(1,2) by simp
  show ?thesis using strtol_eq [OF 1 2] by (simp add: scan_socket_def scan_num_def)
qed

lemma not_dig_or_space: "\<not> is_dig 0x2B" "\<not> is_dig 0x43" "\<not> is_dig 0x4C" "\<not> isspace 0x2B" "\<not> isspace 0x43"
  by (simp_all add: is_dig_def isspace_def)

lemma get_urc_closed: "get_urc_obj (bytes ''CLOSED:'' @ dec_digits k @ crlf) = Some UrcClose"
proof -
  let ?l = "bytes ''CLOSED:'' @ dec_digits k"
  have e: "\<not> ends_with ?l (bytes t)" if "t = ''CONNECT OK'' \<or> t = '',CONNECT FAIL'' \<or> t = '',SEND FAIL''" for t
  proof
    assume e: "ends_with ?l (bytes t)"
    have "0x20 \<in> set (bytes t)" using that by auto
    moreover have "set (bytes t) \<subseteq> set ?l"
      using e unfolding ends_with_def by (metis set_drop_subset)
    moreover have "0x20 \<notin> set ?l" using dec_digits_is_dig [of k] by (auto simp: list_all_iff is_dig_def)
    ultimately show False by blast
  qed
  have n: "\<not> urc_match (?l @ crlf) ([], bytes ''CONNECT OK'' @ crlf, x)"
    "\<not> urc_match (?l @ crlf) ([], bytes '',CONNECT FAIL'' @ crlf, x)"
    "\<not> urc_match (?l @ crlf) ([], bytes '',SEND FAIL'' @ crlf, x)" for x
    unfolding urc_match_suf by (intro e; simp)+
  have r: "\<not> urc_match (?l @ crlf) (bytes ''READY'', crlf, UrcLog)"
    "urc_match (?l @ crlf) (bytes ''CLOSED:'', crlf, UrcClose)"
    unfolding urc_match_pre by simp_all
  show ?thesis using n r unfolding append_assoc [symmetric]
    by (simp only: get_urc_obj_def urc_table_def find.simps if_False if_True option.map(2) comp_apply snd_conv)
qed

lemma parser_closed:
  assumes "length (dec_digits k) + 9 < bufsz"
  shows "parser_turn bufsz True m (s, bytes ''CLOSED:'' @ dec_digits k @ crlf @ rx) =
    Some (Inr (notify 1 (SockClosed 0) s, rx))"
proof -
  let ?l = "bytes ''CLOSED:'' @ dec_digits k @ crlf"
  let ?z = "replicate (Suc (bufsz - length ?l - 1)) (0 :: u8)"
  have z: "replicate (bufsz - length ?l) (0 :: u8) = ?z"
    using assms by (intro arg_cong2 [of _ _ _ _ replicate]) (simp_all add: crlf_def)
  have dg: "c \<noteq> 0 \<and> c \<noteq> 0x0D \<and> c \<noteq> 0x20" if "c \<in> set (dec_digits k)" for c
    using that dec_digits_is_dig [of k] by (auto simp: list_all_iff is_dig_def)
  have cs: "0 \<notin> set ?l" "0x20 \<notin> set ?l" "0x0D \<notin> set (dec_digits k)" using dg by (auto simp: crlf_def)
  have "no_crlf (bytes ''CLOSED:'' @ dec_digits k)" using no_crlf_append [of "bytes ''CLOSED:'' @ dec_digits k" "[]"] cs(3) by auto
  then have rl: "readline 0 bufsz [] 0 False (bytes ''CLOSED:'' @ dec_digits k @ crlf @ rx) = Some (Inr ?l, rx)"
    using readline_text [of "bytes ''CLOSED:'' @ dec_digits k" bufsz rx] assms by simp
  have sc: "scan_socket (?l @ ?z) = Inr 0"
    using scan_socket_text [of "0x43" "0x4C" "bytes ''OSED:'' @ dec_digits k @ crlf @ ?z"] not_dig_or_space by simp
  have ok: "has_text ''CLOSE OK'' (?l @ ?z) = Inr False"
    unfolding has_text_def using strstr_absent [of "0x20" "bytes ''CLOSE OK''" ?l] cs by simp
  have cl: "has_text ''CLOSED'' (?l @ ?z) = Inr True" by (simp add: has_text_def)
  have "urc_close_func True (?l @ ?z) s = Inr (notify 1 (SockClosed 0) s)"
    unfolding urc_close_func_def sc and_then.simps ok cl
    by (simp add: socket_at_def AT_DEVICE_A9G_SOCKETS_NUM_def)
  then show ?thesis
    unfolding parser_turn_def prod.case rl option.case sum.case run_urc_def Let_def get_urc_closed urc_handler.case z
    by simp
qed

lemma parser_looks_connected:
  assumes "no_crlf p" "0 \<notin> set p" "ends_with p (bytes ''CONNECT OK'')" "length (recv_head i n @ p) + 2 \<le> bufsz"
  shows "parser_turn bufsz True m (s, recv_head i n @ p @ crlf @ rx) =
    Some (Inr (set_event 0 A9G_EVENT_CONN_OK s, rx))"
proof -
  let ?l = "recv_head i n @ p @ crlf" and ?z = "replicate (bufsz - length (recv_head i n @ p @ crlf)) (0 :: u8)"
  have h: "0x0D \<notin> set (recv_head i n)" "0 \<notin> set (recv_head i n)"
    using recv_head_chars [of "0x0D" i n] recv_head_chars [of 0 i n] by (auto simp: recv_head_def)
  have rl: "readline 0 bufsz [] 0 False (recv_head i n @ p @ crlf @ rx) = Some (Inr ?l, rx)"
    using readline_text [of "recv_head i n @ p" bufsz rx] no_crlf_append [OF h(1) assms(1)] assms(4) by simp
  obtain x where x: "p = x @ bytes ''CONNECT OK''" using assms(3) by (auto simp: ends_with_iff)
  have "ends_with (recv_head i n @ p) (bytes ''CONNECT OK'')" unfolding ends_with_iff x by (metis append_assoc)
  then have c: "urc_match ?l ([], bytes ''CONNECT OK'' @ crlf, UrcConnect)"
    using urc_match_suf [of "recv_head i n @ p" "''CONNECT OK''"] unfolding append_assoc by blast
  have r: "\<not> urc_match ?l (bytes ''READY'', crlf, UrcLog)"
    using urc_match_pre [of "recv_head i n @ p"] by (simp add: recv_head_def)
  have g: "get_urc_obj ?l = Some UrcConnect" using c r
    by (simp only: get_urc_obj_def urc_table_def find.simps if_False if_True option.map(2) comp_apply snd_conv)
  have sc: "scan_socket (?l @ ?z) = Inr 0"
    using scan_socket_text [of "0x2B" "0x43"] not_dig_or_space by (simp add: recv_head_def)
  have "0 \<notin> set (recv_head i n @ x)" using h(2) assms(2) x by auto
  then have "has_text ''CONNECT OK'' (?l @ ?z) = Inr True"
    unfolding has_text_def x using strstr_found [of "recv_head i n @ x" "bytes ''CONNECT OK''" "crlf @ ?z"] x by auto
  then have "urc_connect_func True (?l @ ?z) s = Inr (set_event 0 A9G_EVENT_CONN_OK s)"
    unfolding urc_connect_func_def sc and_then.simps by simp
  then show ?thesis
    unfolding parser_turn_def prod.case rl option.case sum.case run_urc_def Let_def g urc_handler.case by simp
qed

section \<open>Properties\<close>

text \<open>
  C23: a line of received data announces \<open>n\<close> bytes for socket \<open>i\<close> and carries \<open>p\<close>.  The line has to
  fit into the receive buffer with its line end, and \<open>p\<close> has to be plain: it holds no line end and does not
  end like the report of a connect or a send (\<open>CONNECT OK\<close>, \<open>,CONNECT FAIL\<close>, \<open>,SEND FAIL\<close>), which the
  parser would take the line for.  The device is found and its memory can be allocated.  Then there are three outcomes.  When \<open>p\<close> is longer than
  announced, the handler writes past the buffer it allocated; otherwise, when the bytes still missing are in
  the stream, exactly \<open>p\<close> and those are reported on socket \<open>i\<close> and the rest of the stream is untouched; and when
  they do not come in time nothing is reported and what did come is lost.
\<close>

theorem recv_line_delivery:
  assumes "i < 8" "0 < n" "n < 2 ^ 31" "plain_data p" "length (recv_head i n @ p) + 2 \<le> bufsz" "bufsz < 2 ^ 32"
  shows "parser_turn bufsz True True (s, recv_head i n @ p @ crlf @ rx) =
    Some (if n < length p then Inl OutOfBounds
      else if n - length p \<le> length rx
      then Inr (notify 0 (RecvData i (p @ take (n - length p) rx)) s, drop (n - length p) rx)
      else Inr (s, []))"
  using assms by (rule parser_ciprcv)

theorem recv_line_delivery_witness:
  "parser_turn 512 True True (idle_dev, recv_head 3 2 @ bytes ''hi'' @ crlf @ [0x41]) =
     Some (Inr (idle_dev\<lparr>notices := [RecvData 3 (bytes ''hi'')]\<rparr>, [0x41]))"
proof -
  have "plain_data (bytes ''hi'')" by (simp add: plain_data_def ends_with_def)
  moreover have "length (recv_head 3 2 @ bytes ''hi'') + 2 \<le> 512"
    by (simp add: recv_head_def dec_digits.simps)
  ultimately show ?thesis
    using recv_line_delivery [of 3 2 "bytes ''hi''" 512 idle_dev "[0x41]"] by (simp add: notify_def idle_dev_def)
qed

text \<open>
  A payload with a line end inside is not delivered as it was sent: the line end is lost and
  the two bytes that end the whole message take its place at the end.
\<close>

theorem recv_line_end_lost:
  assumes "i < 8" "plain_data a" "n = length (a @ crlf @ b)" "n < 2 ^ 31"
    and "length (recv_head i n @ a) + 2 \<le> bufsz" "bufsz < 2 ^ 32"
  shows "parser_turn bufsz True True (s, recv_head i n @ (a @ crlf @ b) @ crlf @ rx) =
    Some (Inr (notify 0 (RecvData i (a @ b @ crlf)) s, rx))"
proof -
  have n: "0 < n" "n - length a = length (b @ crlf)" "\<not> n < length a"
    using assms(3) by (auto simp: crlf_def)
  have "parser_turn bufsz True True (s, recv_head i n @ a @ crlf @ (b @ crlf @ rx)) = Some (
      if n - length a \<le> length (b @ crlf @ rx)
      then Inr (notify 0 (RecvData i (a @ take (n - length a) (b @ crlf @ rx))) s, drop (n - length a) (b @ crlf @ rx))
      else Inr (s, []))"
    using parser_ciprcv [OF assms(1) n(1) assms(4,2,5,6), of s "b @ crlf @ rx"] n(3) by simp
  then show ?thesis unfolding n(2) by simp
qed

theorem recv_line_end_lost_witness:
  "parser_turn 512 True True (idle_dev, recv_head 0 4 @ (bytes ''a'' @ crlf @ bytes ''b'') @ crlf @ []) =
     Some (Inr (idle_dev\<lparr>notices := [RecvData 0 (bytes ''ab'' @ crlf)]\<rparr>, []))"
proof -
  have "plain_data (bytes ''a'')" by (simp add: plain_data_def ends_with_def)
  moreover have "length (recv_head 0 4 @ bytes ''a'') + 2 \<le> 512"
    by (simp add: recv_head_def dec_digits.simps)
  ultimately show ?thesis
    using recv_line_end_lost [of 0 "bytes ''a''" 4 "bytes ''b''" 512 idle_dev "[]"] by (simp add: notify_def idle_dev_def crlf_def)
qed

text \<open>
  The line with which the modem reports that the remote side closed socket \<open>k\<close> is reported on
  socket 0, whatever \<open>k\<close> is.
\<close>

theorem closed_reports_socket_zero:
  assumes "length (dec_digits k) + 9 < bufsz"
  shows "parser_turn bufsz True m (s, bytes ''CLOSED:'' @ dec_digits k @ crlf @ rx) =
    Some (Inr (notify 1 (SockClosed 0) s, rx))"
  using assms by (rule parser_closed)

theorem closed_reports_socket_zero_witness:
  "parser_turn 512 True True (idle_dev, bytes ''CLOSED:'' @ dec_digits 3 @ crlf @ []) =
     Some (Inr (idle_dev\<lparr>notices := [SockClosed 0]\<rparr>, []))"
  using closed_reports_socket_zero [of 3 512 True idle_dev "[]"]
  by (simp add: dec_digits.simps notify_def idle_dev_def)

text \<open>
  Received data that ends in \<open>CONNECT OK\<close> is not delivered to its socket: the line is taken for
  the report that socket 0 is connected.
\<close>

theorem recv_taken_for_connect:
  assumes "no_crlf p" "0 \<notin> set p" "ends_with p (bytes ''CONNECT OK'')" "length (recv_head i n @ p) + 2 \<le> bufsz"
  shows "parser_turn bufsz True m (s, recv_head i n @ p @ crlf @ rx) =
    Some (Inr (set_event 0 A9G_EVENT_CONN_OK s, rx))"
  using assms by (rule parser_looks_connected)

theorem recv_taken_for_connect_witness:
  "parser_turn 512 True True (idle_dev, recv_head 2 10 @ bytes ''CONNECT OK'' @ crlf @ []) =
     Some (Inr (set_event 0 A9G_EVENT_CONN_OK idle_dev, []))"
proof -
  have "ends_with (bytes ''CONNECT OK'') (bytes ''CONNECT OK'')" by (simp add: ends_with_def)
  moreover have "length (recv_head 2 10 @ bytes ''CONNECT OK'') + 2 \<le> 512" by (simp add: recv_head_def dec_digits.simps)
  ultimately show ?thesis using recv_taken_for_connect [of "bytes ''CONNECT OK''" 2 10 512 True idle_dev "[]"] by simp
qed

end
