(* ===== verification/Ip_Addr.thy ===== *)
theory Ip_Addr
  imports C_String C_Format
begin

text \<open>
  Internet addresses as texts: \<open>inet_addr\<close> and \<open>inet_ntoa\<close> of RT-Thread's network interface
  (\<open>netdev_ipaddr.c\<close>), and the conversions the AT socket layer has of its own (\<open>ipaddr_to_ipstr\<close>,
  \<open>ipstr_to_u32\<close> in \<open>at_socket.c\<close>).

  An address is the \<open>uint32_t\<close> in network order on a little-endian machine: its lowest byte is the
  first number of the text.
\<close>

section \<open>Definitions\<close>

definition ip_byte :: "nat \<Rightarrow> u32 \<Rightarrow> u8" where
  "ip_byte k a = ucast (drop_bit (8 * k) a)"

definition of_ip_bytes :: "mem \<Rightarrow> u32" where
  "of_ip_bytes bs = foldr (\<lambda>b a. push_bit 8 a OR ucast b) bs 0"

definition htonl :: "u32 \<Rightarrow> u32" where
  "htonl x = push_bit 24 (x AND 0xFF) OR push_bit 8 (x AND 0xFF00) OR drop_bit 8 (x AND 0xFF0000) OR drop_bit 24 (x AND 0xFF000000)"

definition htons :: "int \<Rightarrow> u16" where
  "htons p = (let v = (of_int p :: u16) in push_bit 8 v OR drop_bit 8 v)"

subsection \<open>Text to address\<close>

definition isxdigit :: "u8 \<Rightarrow> bool" where
  "isxdigit c \<longleftrightarrow> is_dig c \<or> 0x61 \<le> c \<and> c \<le> 0x66 \<or> 0x41 \<le> c \<and> c \<le> 0x46"

definition islower :: "u8 \<Rightarrow> bool" where
  "islower c \<longleftrightarrow> 0x61 \<le> c \<and> c \<le> 0x7A"

text \<open>The prefix of a number: the base and where its digits start.\<close>

definition aton_base :: "mem \<Rightarrow> (u32 \<times> mem) res" where
  "aton_base cp = and_then (deref cp) (\<lambda>c.
     if c = 0x30 then and_then (deref (drop 1 cp)) (\<lambda>d. Inr (if d = 0x78 \<or> d = 0x58 then (16, drop 2 cp) else (8, drop 1 cp)))
     else Inr (10, cp))"

text \<open>The digits; the value wraps at 32 bits.\<close>

fun aton_num :: "u32 \<Rightarrow> u32 \<Rightarrow> mem \<Rightarrow> (u32 \<times> mem) res" where
  "aton_num base val [] = Inl OutOfBounds"
| "aton_num base val (c # cs) =
     (if is_dig c then aton_num base (val * base + (ucast c - 0x30)) cs
      else if base = 16 \<and> isxdigit c
      then aton_num base (push_bit 4 val OR (ucast c + 10 - (if islower c then 0x61 else 0x41))) cs
      else Inr (val, c # cs))"

text \<open>
  The outer loop: \<open>parts\<close> is the array up to \<open>pp\<close>.  \<open>None\<close> for \<open>return 0\<close>, else the parts, the last
  number and where it ended.
\<close>

function aton_parts :: "u32 list \<Rightarrow> mem \<Rightarrow> ((u32 list \<times> u32 \<times> mem) option) res" where
  "aton_parts parts cp = and_then (deref cp) (\<lambda>c.
     if \<not> is_dig c then Inr None
     else and_then (aton_base cp) (\<lambda>(base, p). and_then (aton_num base 0 p) (\<lambda>(val, q). and_then (deref q) (\<lambda>d.
       if d \<noteq> 0x2E then Inr (Some (parts, val, q))
       else if length parts \<ge> 3 then Inr None
       else aton_parts (parts @ [val]) (drop 1 q)))))"
  by pat_completeness auto
termination by (relation "measure (\<lambda>(parts, cp). 3 - length parts)") auto

declare aton_parts.simps [simp del]

text \<open>The \<open>switch\<close> on the number of parts; \<open>None\<close> for \<open>return 0\<close>.\<close>

definition aton_combine :: "u32 list \<Rightarrow> u32 \<Rightarrow> u32 option" where
  "aton_combine parts val =
     (case parts of
        [] \<Rightarrow> Some val
      | [a] \<Rightarrow> if val > 0xFFFFFF \<or> a > 0xFF then None else Some (val OR push_bit 24 a)
      | [a, b] \<Rightarrow> if val > 0xFFFF \<or> a > 0xFF \<or> b > 0xFF then None else Some (val OR push_bit 24 a OR push_bit 16 b)
      | [a, b, c] \<Rightarrow> if val > 0xFF \<or> a > 0xFF \<or> b > 0xFF \<or> c > 0xFF then None
                    else Some (val OR push_bit 24 a OR push_bit 16 b OR push_bit 8 c)
      | _ \<Rightarrow> None)"

definition netdev_ip4addr_aton :: "mem \<Rightarrow> (u32 option) res" where
  "netdev_ip4addr_aton cp = and_then (aton_parts [] cp) (\<lambda>r. case r of
       None \<Rightarrow> Inr None
     | Some (parts, val, q) \<Rightarrow> and_then (deref q) (\<lambda>c.
         if c \<noteq> 0 \<and> \<not> isspace c then Inr None else Inr (map_option htonl (aton_combine parts val))))"

text \<open>\<open>inet_addr\<close>; \<open>IPADDR_NONE\<close> when the text is not an address.\<close>

definition netdev_ipaddr_addr :: "mem \<Rightarrow> u32 res" where
  "netdev_ipaddr_addr cp = and_then (netdev_ip4addr_aton cp) (\<lambda>r. Inr (case r of None \<Rightarrow> 0xFFFFFFFF | Some a \<Rightarrow> a))"

subsection \<open>Address to text\<close>

text \<open>The array \<open>inv\<close>: the decimal digits of a byte, the last one first.\<close>

function ntoa_inv :: "u8 \<Rightarrow> mem" where
  "ntoa_inv b = (0x30 + b mod 10) # (if b div 10 = 0 then [] else ntoa_inv (b div 10))"
  by pat_completeness auto
termination
proof (relation "measure unat")
  fix b :: u8
  assume "b div 10 \<noteq> 0"
  then have "unat (b div 10) \<noteq> 0" by (simp only: unat_eq_0 not_False_eq_True)
  then show "(b div 10, b) \<in> measure unat" by (simp add: unat_div)
qed simp

declare ntoa_inv.simps [simp del]

text \<open>\<open>if (len++ >= buflen) return NULL; *rp++ = c;\<close> for each character; \<open>out\<close> is what is written.\<close>

fun ntoa_put :: "int \<Rightarrow> mem \<Rightarrow> mem \<Rightarrow> mem option" where
  "ntoa_put buflen [] out = Some out"
| "ntoa_put buflen (c # cs) out = (if int (length out) \<ge> buflen then None else ntoa_put buflen cs (out @ [c]))"

fun ntoa_loop :: "int \<Rightarrow> mem \<Rightarrow> mem \<Rightarrow> mem option" where
  "ntoa_loop buflen [] out = Some out"
| "ntoa_loop buflen (b # bs) out = Option.bind (ntoa_put buflen (rev (ntoa_inv b) @ [0x2E]) out) (ntoa_loop buflen bs)"

text \<open>What is written to the buffer: the last dot becomes the NUL.\<close>

definition netdev_ip4addr_ntoa_r :: "u32 \<Rightarrow> int \<Rightarrow> mem option" where
  "netdev_ip4addr_ntoa_r a buflen =
     map_option (\<lambda>out. butlast out @ [0]) (ntoa_loop buflen (map (\<lambda>k. ip_byte k a) [0, 1, 2, 3]) [])"

definition netdev_ip4addr_ntoa :: "u32 \<Rightarrow> mem option" where
  "netdev_ip4addr_ntoa a = netdev_ip4addr_ntoa_r a 16"

text \<open>
  \<open>inet_ntop\<close>, for an IPv4 address: the condition of its \<open>AF_INET\<close> case misspells the name of the option
  (\<open>NTEDEV_IPV4\<close>), so the case is not compiled, and every call ends in the default.
\<close>

definition netdev_inet_ntop :: "int \<Rightarrow> u32 \<Rightarrow> int \<Rightarrow> mem option" where
  "netdev_inet_ntop af src sz = None"

text \<open>\<open>inet_pton\<close>: what it returns, and the address if one was stored.\<close>

definition netdev_inet_pton :: "int \<Rightarrow> mem \<Rightarrow> (int \<times> u32 option) res" where
  "netdev_inet_pton af src =
     (if af = 2 then and_then (netdev_ip4addr_aton src) (\<lambda>r. Inr (if r = None then 0 else 1, r)) else Inr (- 1, None))"

subsection \<open>The conversions of the socket layer\<close>

text \<open>\<open>rt_snprintf(ipstr, 16, "%u.%u.%u.%u", NIPQUAD(addr))\<close>: at most 15 characters and the NUL.\<close>

definition ipaddr_to_ipstr :: "u32 \<Rightarrow> mem" where
  "ipaddr_to_ipstr a =
     take 15 (dec_digits (unat (ip_byte 0 a)) @ [0x2E] @ dec_digits (unat (ip_byte 1 a)) @ [0x2E] @
              dec_digits (unat (ip_byte 2 a)) @ [0x2E] @ dec_digits (unat (ip_byte 3 a)))"

text \<open>\<open>HTONS_PORT(sin->sin_port)\<close>\<close>

definition HTONS_PORT :: "u16 \<Rightarrow> u16" where
  "HTONS_PORT x = push_bit 8 (x AND 0xFF) OR drop_bit 8 (x AND 0xFF00)"

definition socketaddr_to_ipaddr_port :: "u32 \<times> u16 \<Rightarrow> u32 \<times> u16" where
  "socketaddr_to_ipaddr_port sa = (fst sa, HTONS_PORT (snd sa))"

fun atol_digits :: "u32 \<Rightarrow> mem \<Rightarrow> u32 res" where
  "atol_digits acc [] = Inl OutOfBounds"
| "atol_digits acc (c # cs) = (if is_dig c then atol_digits (10 * acc + (ucast c - 0x30)) cs else Inr acc)"

definition ipstr_atol :: "mem \<Rightarrow> u32 res" where
  "ipstr_atol nptr =
     and_then (skip_space nptr) (\<lambda>p. and_then (deref p) (\<lambda>sign.
       and_then (atol_digits 0 (if sign = 0x2D \<or> sign = 0x2B then drop 1 p else p)) (\<lambda>acc.
         Inr (if sign = 0x2D then - acc else acc))))"

text \<open>The loop over \<open>ipBytes\<close>, \<open>n\<close> bytes to go; \<open>strchr(ipstr, '.')\<close>.\<close>

fun ipstr_bytes :: "nat \<Rightarrow> mem \<Rightarrow> mem res" where
  "ipstr_bytes 0 ipstr = Inr []"
| "ipstr_bytes (Suc n) ipstr =
     and_then (ipstr_atol ipstr) (\<lambda>v. and_then (strstr [0x2E] ipstr) (\<lambda>r. case r of
         None \<Rightarrow> Inr (ucast v # replicate n 0)
       | Some q \<Rightarrow> and_then (ipstr_bytes n (drop 1 q)) (\<lambda>bs. Inr (ucast v # bs))))"

definition ipstr_to_u32 :: "mem \<Rightarrow> u32 res" where
  "ipstr_to_u32 ipstr = and_then (ipstr_bytes 4 ipstr) (\<lambda>bs. Inr (of_ip_bytes bs))"

text \<open>The text of an address: four decimal numbers with dots between.\<close>

definition dotted :: "u32 \<Rightarrow> mem" where
  "dotted a = dec_digits (unat (ip_byte 0 a)) @ [0x2E] @ dec_digits (unat (ip_byte 1 a)) @ [0x2E] @
              dec_digits (unat (ip_byte 2 a)) @ [0x2E] @ dec_digits (unat (ip_byte 3 a))"

section \<open>Bytes of an address\<close>

lemma ip_byte_bit: "bit (ip_byte k a) n \<longleftrightarrow> n < 8 \<and> bit a (8 * k + n)"
  by (auto simp: ip_byte_def bit_simps)

lemma of_ip_bytes_id: "of_ip_bytes [ip_byte 0 a, ip_byte 1 a, ip_byte 2 a, ip_byte 3 a] = a"
proof (rule bit_word_eqI)
  fix n
  assume "n < LENGTH(32)"
  then have n: "n < 32" by simp
  then consider "n < 8" | "8 \<le> n" "n < 16" | "16 \<le> n" "n < 24" | "24 \<le> n" "n < 32" by linarith
  then show "bit (of_ip_bytes [ip_byte 0 a, ip_byte 1 a, ip_byte 2 a, ip_byte 3 a]) n = bit a n"
    by cases (auto simp: of_ip_bytes_def ip_byte_bit bit_simps)
qed

lemma bit_u8_high: "8 \<le> n \<Longrightarrow> \<not> bit (b :: u8) n"
  using bit_imp_le_length [of b n] by auto

lemma htonl_bytes:
  "htonl (ucast d OR push_bit 24 (ucast a) OR push_bit 16 (ucast b) OR push_bit 8 (ucast c)) = of_ip_bytes [a, b, c, d]"
  (is "?l = ?r") for a b c d :: u8
proof (rule bit_word_eqI)
  fix n
  assume "n < LENGTH(32)"
  then have "n < 32" by simp
  then have "n \<in> {0, 1, 2, 3, 4, 5, 6, 7, 8, 9, 10, 11, 12, 13, 14, 15, 16, 17, 18, 19, 20, 21, 22, 23, 24, 25, 26, 27, 28, 29, 30, 31}"
    unfolding insert_iff empty_iff by presburger
  then show "bit ?l n = bit ?r n"
    by (elim insertE emptyE) (simp_all add: htonl_def of_ip_bytes_def bit_simps bit_u8_high)
qed

section \<open>Numbers of a text\<close>

lemma ucast_dig: "is_dig d \<Longrightarrow> ucast d - 0x30 = (of_nat (dval d) :: u32)"
  unfolding is_dig_iff dval_def by (subst of_nat_diff) simp_all

lemma aton_num_dec:
  assumes "list_all is_dig ds" "\<not> is_dig c"
  shows "aton_num 10 v (ds @ c # r) = Inr (v * 10 ^ length ds + of_nat (dec_val ds), c # r)"
  using assms(1)
proof (induction ds arbitrary: v)
  case (Cons d ds)
  then show ?case by (simp add: algebra_simps ucast_dig)
qed (simp add: assms(2))

lemma dec_digits_hd:
  assumes "0 < n"
  shows "\<exists>c cs. dec_digits n = c # cs \<and> c \<noteq> 0x30 \<and> is_dig c"
  using assms
proof (induction n rule: dec_digits.induct)
  case (1 n)
  show ?case
  proof (cases "n < 10")
    case True
    have "dval (of_nat (n + 48)) = n" "is_dig (of_nat (n + 48))"
      using True dval_of_nat dec_digits_is_dig [of n] by (simp_all add: dec_digits.simps)
    then show ?thesis using True "1.prems" by (subst dec_digits.simps) (auto simp: dval_def)
  next
    case False
    then show ?thesis using 1 by (subst dec_digits.simps) force
  qed
qed

lemma dec_digits_Cons: "\<exists>c cs. dec_digits n = c # cs \<and> is_dig c"
proof (cases "n = 0")
  case True
  then show ?thesis by (subst dec_digits.simps) (simp add: is_dig_def)
next
  case False
  then show ?thesis using dec_digits_hd [of n] by blast
qed

lemma aton_number:
  assumes "\<not> is_dig c" "c \<noteq> 0x78" "c \<noteq> 0x58"
  shows "\<exists>b p. aton_base (dec_digits n @ c # r) = Inr (b, p) \<and> aton_num b 0 p = Inr (of_nat n, c # r)"
proof (cases "n = 0")
  case True
  then show ?thesis using assms by (simp add: dec_digits.simps aton_base_def)
next
  case False
  then obtain d ds where "dec_digits n = d # ds" "d \<noteq> 0x30" using dec_digits_hd by blast
  then have "aton_base (dec_digits n @ c # r) = Inr (10, dec_digits n @ c # r)" by (simp add: aton_base_def)
  then show ?thesis using aton_num_dec [OF dec_digits_is_dig assms(1), of 0 n r] by (simp add: dec_val_dec_digits)
qed

lemma aton_parts_number:
  assumes "\<not> is_dig c" "c \<noteq> 0x78" "c \<noteq> 0x58"
  shows "aton_parts parts (dec_digits n @ c # r) =
    (if c \<noteq> 0x2E then Inr (Some (parts, of_nat n, c # r))
     else if length parts \<ge> 3 then Inr None else aton_parts (parts @ [of_nat n]) r)"
proof -
  obtain b p where "aton_base (dec_digits n @ c # r) = Inr (b, p)" "aton_num b 0 p = Inr (of_nat n, c # r)"
    using aton_number [OF assms] by blast
  moreover obtain d ds where "dec_digits n = d # ds" "is_dig d" using dec_digits_Cons by blast
  ultimately show ?thesis by (subst aton_parts.simps) simp
qed

lemma ucast_le_255 [simp]: "\<not> (0xFF :: u32) < ucast (b :: u8)"
proof -
  have "unat (ucast b :: u32) = unat b" using unat_u8_lt [of b] by (simp add: unsigned_ucast_eq take_bit_nat_eq_self_iff)
  then show ?thesis using unat_u8_lt [of b] by (simp add: word_less_nat_alt)
qed

lemma ucast_ucast_u8 [simp]: "ucast (ucast (b :: u8) :: u32) = b"
  by (intro bit_word_eqI) (simp add: bit_simps)

text \<open>\<open>end\<close> is a character that may stand behind the address.\<close>

lemma aton_dotted:
  assumes "c = 0 \<or> isspace c"
  shows "netdev_ip4addr_aton (dotted a @ c # r) = Inr (Some a)"
proof -
  have c: "\<not> is_dig c" "c \<noteq> 0x78" "c \<noteq> 0x58" "c \<noteq> 0x2E"
    using assms by (auto simp: is_dig_iff isspace_def word_le_nat_alt)
  have d: "\<not> is_dig 0x2E" by (simp add: is_dig_def)
  have "aton_parts [] (dotted a @ c # r) =
      Inr (Some ([ucast (ip_byte 0 a), ucast (ip_byte 1 a), ucast (ip_byte 2 a)], ucast (ip_byte 3 a), c # r))"
    using c d by (simp add: dotted_def aton_parts_number)
  then show ?thesis using assms
    by (simp add: netdev_ip4addr_aton_def aton_combine_def htonl_bytes of_ip_bytes_id [simplified])
qed

section \<open>Printing\<close>

lemma ntoa_inv_digits: "rev (ntoa_inv b) = dec_digits (unat b)"
proof (induction b rule: ntoa_inv.induct)
  case (1 b)
  have m: "0x30 + b mod 10 = (of_nat (unat b mod 10 + 48) :: u8)"
    by (intro word_unat_eqI) (simp add: unat_of_nat unat_word_ariths unat_mod)
  have z: "b div 10 = 0 \<longleftrightarrow> unat b < 10"
  proof -
    have "b div 10 = 0 \<longleftrightarrow> unat (b div 10) = 0" by (simp only: unat_eq_0)
    then show ?thesis by (auto simp: unat_div)
  qed
  show ?case
  proof (cases "b div 10 = 0")
    case True
    then show ?thesis using m z by (subst ntoa_inv.simps, subst dec_digits.simps) simp
  next
    case False
    then show ?thesis using 1 [OF False] m z by (subst ntoa_inv.simps, subst dec_digits.simps) (simp add: unat_div)
  qed
qed

lemma ntoa_put_fits: "int (length out + length cs) \<le> n \<Longrightarrow> ntoa_put n cs out = Some (out @ cs)"
  by (induction cs arbitrary: out) auto

lemma ntoa_put_cases: "ntoa_put n cs out = (if int (length out + length cs) \<le> n \<or> cs = [] then Some (out @ cs) else None)"
  by (induction cs arbitrary: out) auto

lemma ntoa_loop_cases:
  "ntoa_loop n bs out =
    (let t = concat (map (\<lambda>b. dec_digits (unat b) @ [0x2E]) bs)
     in if int (length out + length t) \<le> n \<or> bs = [] then Some (out @ t) else None)"
proof (induction bs arbitrary: out)
  case (Cons b bs)
  then show ?case by (auto simp: ntoa_put_cases ntoa_inv_digits Let_def)
qed simp

lemma length_byte_digits: "length (dec_digits (unat (b :: u8))) \<le> 3"
  using length_dec_digits [of "unat b" 2] unat_u8_lt [of b] by simp

lemma length_dotted: "length (dotted a) \<le> 15"
  using length_byte_digits [of "ip_byte 0 a"] length_byte_digits [of "ip_byte 1 a"]
    length_byte_digits [of "ip_byte 2 a"] length_byte_digits [of "ip_byte 3 a"]
  by (simp add: dotted_def)

lemma ntoa_r_cases:
  "netdev_ip4addr_ntoa_r a n = (if int (length (dotted a)) < n then Some (dotted a @ [0]) else None)"
  by (auto simp: netdev_ip4addr_ntoa_r_def ntoa_loop_cases dotted_def Let_def butlast_append)

lemma ipstr_dotted: "ipaddr_to_ipstr a = dotted a"
  using length_dotted [of a] unfolding ipaddr_to_ipstr_def dotted_def by simp

section \<open>The layer's own reading\<close>

lemma atol_digits_dec:
  "list_all is_dig ds \<Longrightarrow> \<not> is_dig c \<Longrightarrow> atol_digits v (ds @ c # r) = Inr (v * 10 ^ length ds + of_nat (dec_val ds))"
  by (induction ds arbitrary: v) (simp_all add: algebra_simps ucast_dig)

lemma ipstr_atol_number:
  assumes "\<not> is_dig c"
  shows "ipstr_atol (dec_digits n @ c # r) = Inr (of_nat n)"
proof -
  obtain d ds where d: "dec_digits n = d # ds" "is_dig d" using dec_digits_Cons by blast
  then have "\<not> isspace d" "d \<noteq> 0x2D" "d \<noteq> 0x2B" by (auto simp: is_dig_iff isspace_def word_le_nat_alt)
  moreover have "atol_digits 0 (dec_digits n @ c # r) = Inr (of_nat n)"
    by (simp add: atol_digits_dec [OF dec_digits_is_dig assms] dec_val_dec_digits)
  ultimately show ?thesis using d by (simp add: ipstr_atol_def)
qed

lemma strchr_dot: "list_all is_dig ds \<Longrightarrow> strstr [0x2E] (ds @ c # r) = strstr [0x2E] (c # r)"
  by (induction ds) (auto simp: is_dig_def)

lemma ipstr_to_u32_dotted: "ipstr_to_u32 (dotted a @ 0 # r) = Inr a"
proof -
  have d: "\<not> is_dig 0x2E" "\<not> is_dig 0" by (simp_all add: is_dig_def)
  have "ipstr_bytes 4 (dotted a @ 0 # r) = Inr [ip_byte 0 a, ip_byte 1 a, ip_byte 2 a, ip_byte 3 a]"
    using d by (simp add: dotted_def numeral_eq_Suc ipstr_atol_number strchr_dot [OF dec_digits_is_dig])
  then show ?thesis by (simp add: ipstr_to_u32_def of_ip_bytes_id [simplified])
qed

section \<open>Terminated texts\<close>

lemma isxdigit_0 [simp]: "\<not> isxdigit 0" by (simp add: isxdigit_def)

lemma aton_num_ok: "cstring p \<Longrightarrow> \<exists>w q. aton_num b v p = Inr (w, q) \<and> cstring q"
  by (induction b v p rule: aton_num.induct) (auto simp: cstring_Cons)

lemma aton_base_ok:
  assumes "cstring p"
  shows "\<exists>b q. aton_base p = Inr (b, q) \<and> cstring q"
proof -
  obtain c cs where p: "p = c # cs" using assms by (cases p) auto
  show ?thesis
  proof (cases "c = 0x30")
    case True
    then obtain d ds where "cs = d # ds" "cstring (d # ds)" using assms p by (cases cs) (auto simp: cstring_Cons)
    then show ?thesis using True p by (auto simp: aton_base_def cstring_Cons)
  qed (use assms p in \<open>simp add: aton_base_def\<close>)
qed

lemma aton_parts_ok: "cstring p \<Longrightarrow> \<exists>r. aton_parts parts p = Inr r \<and> (\<forall>ps v q. r = Some (ps, v, q) \<longrightarrow> cstring q)"
proof (induction parts p rule: aton_parts.induct)
  case (1 parts p)
  obtain c where c: "deref p = Inr c" using "1.prems" by (cases p) auto
  obtain b q where b: "aton_base p = Inr (b, q)" "cstring q" using aton_base_ok [OF "1.prems"] by blast
  obtain v q' where v: "aton_num b 0 q = Inr (v, q')" "cstring q'" using aton_num_ok [OF b(2)] by blast
  obtain d ds where d: "q' = d # ds" using v(2) by (cases q') auto
  show ?case
  proof (cases "is_dig c \<and> d = 0x2E \<and> length parts < 3")
    case True
    then have "cstring ds" using v(2) d by (simp add: cstring_Cons)
    then show ?thesis using "1.IH" [OF c _ b(1) refl v(1) refl] True c b v d
      by (subst aton_parts.simps) simp
  next
    case False
    then show ?thesis using c b v d by (subst aton_parts.simps) auto
  qed
qed

lemma inet_aton_ok:
  assumes "cstring p"
  shows "\<exists>a. netdev_ip4addr_aton p = Inr a"
proof -
  obtain r where r: "aton_parts [] p = Inr r" "\<And>ps v q. r = Some (ps, v, q) \<Longrightarrow> cstring q"
    using aton_parts_ok [OF assms] by blast
  show ?thesis
  proof (cases r)
    case (Some t)
    obtain ps v q where t: "t = (ps, v, q)" by (cases t)
    then obtain c cs where "q = c # cs" using r(2) Some by (cases q) auto
    then show ?thesis using r(1) Some t by (simp add: netdev_ip4addr_aton_def)
  qed (use r(1) in \<open>simp add: netdev_ip4addr_aton_def\<close>)
qed

lemma inet_addr_ok: "cstring p \<Longrightarrow> \<exists>a. netdev_ipaddr_addr p = Inr a"
  using inet_aton_ok by (fastforce simp: netdev_ipaddr_addr_def)

lemma of_nat_low:
  assumes "n mod 2 ^ 32 < 256"
  shows "(of_nat n :: u32) = ucast (of_nat n :: u8)"
proof (rule word_unat_eqI)
  have "n mod 256 = n mod 2 ^ 32 mod 256" by (simp add: mod_mod_cancel)
  also have "\<dots> = n mod 2 ^ 32" using assms by simp
  finally have e: "n mod 256 = n mod 2 ^ 32" .
  have "unat (ucast (of_nat n :: u8) :: u32) = n mod 256"
    using unat_u8_lt [of "of_nat n"] by (simp add: unsigned_ucast_eq take_bit_nat_eq_self_iff unat_of_nat)
  moreover have "unat (of_nat n :: u32) = n mod 2 ^ 32" by (simp add: unat_of_nat)
  ultimately show "unat (of_nat n :: u32) = unat (ucast (of_nat n :: u8) :: u32)" using e by simp
qed

section \<open>Properties\<close>

text \<open>
  C17: every address is printed into the 16 bytes of \<open>inet_ntoa\<close>, the socket layer prints it as the
  same text, and \<open>inet_addr\<close>, \<open>inet_pton\<close> and the layer's own \<open>ipstr_to_u32\<close> all read that text back as the
  address.
\<close>

theorem inet_text_roundtrip:
  "\<exists>t. netdev_ip4addr_ntoa a = Some (t @ [0]) \<and> length t \<le> 15 \<and> ipaddr_to_ipstr a = t \<and>
     netdev_ipaddr_addr (t @ [0]) = Inr a \<and> ipstr_to_u32 (t @ [0]) = Inr a \<and> netdev_inet_pton 2 (t @ [0]) = Inr (1, Some a)"
  using length_dotted [of a] aton_dotted [of 0 a "[]"] ipstr_to_u32_dotted [of a "[]"]
  by (intro exI [of _ "dotted a"])
    (simp add: netdev_ip4addr_ntoa_def ntoa_r_cases ipstr_dotted netdev_ipaddr_addr_def netdev_inet_pton_def)

text \<open>
  Four decimal numbers of any size are read modulo \<open>2 ^ 32\<close>: the text is taken for an
  address whenever the remainders are below 256.
\<close>

theorem inet_addr_wraps:
  "netdev_ip4addr_aton (dec_digits a @ [0x2E] @ dec_digits b @ [0x2E] @ dec_digits c @ [0x2E] @ dec_digits d @ [0]) =
    Inr (if list_all (\<lambda>n. n mod 2 ^ 32 < 256) [a, b, c, d]
         then Some (of_ip_bytes [of_nat a, of_nat b, of_nat c, of_nat d]) else None)"
proof -
  have z: "\<not> is_dig 0x2E" "\<not> is_dig 0" by (simp_all add: is_dig_def)
  have m: "(of_nat n :: u32) > 0xFF \<longleftrightarrow> \<not> n mod 2 ^ 32 < 256" for n
    by (auto simp: word_less_nat_alt unat_of_nat take_bit_nat_def)
  show ?thesis
  proof (cases "list_all (\<lambda>n. n mod 2 ^ 32 < 256) [a, b, c, d]")
    case True
    then have "of_nat a = (ucast (of_nat a :: u8) :: u32)" "of_nat b = (ucast (of_nat b :: u8) :: u32)"
        "of_nat c = (ucast (of_nat c :: u8) :: u32)" "of_nat d = (ucast (of_nat d :: u8) :: u32)"
      by (intro of_nat_low; simp)+
    then show ?thesis using True z m htonl_bytes [of "of_nat d" "of_nat a" "of_nat b" "of_nat c"]
      by (simp add: netdev_ip4addr_aton_def aton_parts_number aton_combine_def)
  next
    case False
    then show ?thesis using z m by (auto simp: netdev_ip4addr_aton_def aton_parts_number aton_combine_def)
  qed
qed

end
