(* ===== verification/A9g_Device.thy ===== *)
theory A9g_Device
  imports A9g_Socket Ip_Addr
begin

text \<open>
  The modem device, \<open>applications/at_device_a9g.c\<close>: bring-up, network information, link supervision,
  the operations of the network interface and of the device.

  What the modem answers is in the record \<open>modem\<close> of \<open>A9g_Socket\<close>: \<open>m_text\<close> and \<open>m_num\<close> are what
  parsing the last response stores, if it stores anything, \<open>m_line\<close> whether a line with a keyword is
  found in it.  A text is stored in a buffer of the caller: one that does not fit is a fault.
\<close>

section \<open>Leaving a sequence of commands\<close>

text \<open>
  \<open>goto __exit\<close> carries the value of \<open>result\<close> and of \<open>qimux\<close>, which has none before the first answer
  is stored in it.
\<close>

datatype brk = Fault cfault | Exit int "int option"

type_synonym 'a am = "(brk + 'a) atm"

definition next_do :: "'a am \<Rightarrow> ('a \<Rightarrow> 'b am) \<Rightarrow> 'b am" where
  "next_do m f = do { r \<leftarrow> m; case r of Inl e \<Rightarrow> State_Monad.return (Inl e) | Inr x \<Rightarrow> f x }"

definition lift_am :: "'a atm \<Rightarrow> 'a am" where
  "lift_am m = do { x \<leftarrow> m; State_Monad.return (Inr x) }"

definition stop_am :: "brk \<Rightarrow> 'a am" where
  "stop_am e = State_Monad.return (Inl e)"

definition AT_SEND_CMD :: "modem \<Rightarrow> int option \<Rightarrow> nat \<Rightarrow> nat \<Rightarrow> mem \<Rightarrow> unit am" where
  "AT_SEND_CMD md q resp_line timeout cmd = do {
     emit_op (SetInfo 128 resp_line timeout);
     r \<leftarrow> at_obj_exec_cmd md True cmd;
     State_Monad.return (if r < 0 then Inl (Exit (- 1) q) else Inr ())
   }"

text \<open>A text parsed into a buffer of \<open>cap\<close> bytes that holds \<open>old\<close>.\<close>

definition parse_text :: "modem \<Rightarrow> string \<Rightarrow> nat \<Rightarrow> mem \<Rightarrow> mem am" where
  "parse_text md kw cap old = do {
     emit_op (ParseKw kw);
     t \<leftarrow> ask (m_text md);
     State_Monad.return (case t of None \<Rightarrow> Inr old | Some u \<Rightarrow> if length u < cap then Inr u else Inl (Fault OutOfBounds))
   }"

definition parse_num :: "modem \<Rightarrow> string \<Rightarrow> int option \<Rightarrow> (int option) atm" where
  "parse_num md kw old = do {
     emit_op (ParseKw kw);
     t \<leftarrow> ask (m_num md);
     State_Monad.return (case t of None \<Rightarrow> old | Some v \<Rightarrow> Some v)
   }"

definition get_line :: "modem \<Rightarrow> string \<Rightarrow> bool atm" where
  "get_line md kw = do { emit_op (GetLine kw); ask (m_line md) }"

definition set_nd :: "(netdev \<Rightarrow> netdev) \<Rightarrow> unit atm" where
  "set_nd f = State (\<lambda>s. ((), s\<lparr>nd := f (nd s)\<rparr>))"

definition set_init :: "bool \<Rightarrow> unit atm" where
  "set_init b = State (\<lambda>s. ((), s\<lparr>is_init := b\<rparr>))"

section \<open>Power\<close>

text \<open>
  \<open>a9g_power_on\<close> and \<open>a9g_power_off\<close> (\<open>on\<close> says which): the level written to the power pin in order,
  from the readings of the status pin.  \<open>None\<close> waits for another reading.
\<close>

fun power_wait :: "bool \<Rightarrow> bool list \<Rightarrow> bool list option" where
  "power_wait on [] = None"
| "power_wait on (r # rs) = (if r = on then Some [False] else power_wait on rs)"

fun a9g_power :: "bool \<Rightarrow> int \<Rightarrow> int \<Rightarrow> bool list \<Rightarrow> bool list option" where
  "a9g_power on power_pin status_pin rs =
     (if power_pin = - 1 \<or> status_pin = - 1 then Some []
      else case rs of
        [] \<Rightarrow> None
      | r # rs' \<Rightarrow> if r = on then Some [] else map_option (\<lambda>ws. True # ws) (power_wait on rs'))"

section \<open>Network information\<close>

definition digit_of :: "u8 \<Rightarrow> u8" where "digit_of c = c - 0x30"

text \<open>The loop that packs the digits of \<open>iemi\<close>, two for a byte, the last alone; \<open>n\<close> turns are left.\<close>

fun hwaddr_loop :: "nat \<Rightarrow> nat \<Rightarrow> nat \<Rightarrow> mem \<Rightarrow> mem" where
  "hwaddr_loop 0 i j iemi = []"
| "hwaddr_loop (Suc n) i j iemi =
     (if i < 8 \<and> j < 15
      then (if j \<noteq> 14 then digit_of (iemi ! j) * 10 + digit_of (iemi ! (j + 1)) else digit_of (iemi ! j)) #
           hwaddr_loop n (i + 1) (j + 2) iemi
      else [])"

text \<open>
  \<open>inet_aton(ipaddr, &addr)\<close>, whose result is ignored, and \<open>netdev_low_level_set_ipaddr(netdev, &addr)\<close>: where
  the text is no address, nothing was stored in \<open>addr\<close> and its reading is a fault.
\<close>

definition store_ip :: "mem \<Rightarrow> unit am" where
  "store_ip ipaddr =
     (case netdev_ip4addr_aton (ipaddr @ [0]) of
        Inl f \<Rightarrow> stop_am (Fault f)
      | Inr None \<Rightarrow> stop_am (Fault UninitRead)
      | Inr (Some addr) \<Rightarrow> lift_am (set_nd (\<lambda>d. d\<lparr>nd_ip := addr\<rparr>)))"

text \<open>The body of \<open>a9g_netdev_set_info\<close> once the response is there.\<close>

definition set_info_body :: "modem \<Rightarrow> unit am" where
  "set_info_body md =
     next_do (do { r \<leftarrow> at_obj_exec_cmd md True (bytes ''AT+GSN'');
                   State_Monad.return (if r < 0 then Inl (Exit (- 1) None) else Inr ()) }) (\<lambda>_.
     next_do (lift_am (do { emit_op (ParseLine 2); ask (m_text md) })) (\<lambda>t.
     case t of
       None \<Rightarrow> stop_am (Exit (- 1) None)
     | Some iemi \<Rightarrow>
         if 15 \<le> length iemi then stop_am (Fault OutOfBounds)
         else next_do (lift_am (set_nd (\<lambda>d. d\<lparr>hwaddr := hwaddr_loop 8 0 0 (iemi @ replicate (15 - length iemi) 0)\<rparr>))) (\<lambda>_.
         next_do (do { emit_op (SetInfo 32 2 300); r \<leftarrow> at_obj_exec_cmd md True (bytes ''AT+CIFSR'');
                       State_Monad.return (if r < 0 then Inl (Exit (- 1) None) else Inr ()) }) (\<lambda>_.
         next_do (lift_am (do { emit_op (ParseKw ''.''); ask (m_text md) })) (\<lambda>a.
         case a of
           None \<Rightarrow> stop_am (Exit (- 1) None)
         | Some ipaddr \<Rightarrow>
             if 16 \<le> length ipaddr then stop_am (Fault OutOfBounds)
             else store_ip ipaddr)))))"

text \<open>\<open>found\<close>: the device is found by the name of its interface.  A fault does not reach the end.\<close>

definition code_of :: "(brk + unit) \<Rightarrow> int res" where
  "code_of r = (case r of Inr u \<Rightarrow> Inr 0 | Inl (Exit c q) \<Rightarrow> Inr c | Inl (Fault e) \<Rightarrow> Inl e)"

definition a9g_netdev_set_info :: "modem \<Rightarrow> bool \<Rightarrow> int res atm" where
  "a9g_netdev_set_info md found =
     (if \<not> found then State_Monad.return (Inr (- 1))
      else do {
        set_nd (\<lambda>d. d\<lparr>nd_up := True, nd_link := True, nd_dhcp := True\<rparr>);
        resp \<leftarrow> at_create_resp md 32 0 300;
        if \<not> resp then State_Monad.return (Inr (- 5))
        else do {
          r \<leftarrow> set_info_body md;
          case code_of r of
            Inl e \<Rightarrow> State_Monad.return (Inl e)
          | Inr c \<Rightarrow> do { emit_op DelResp; State_Monad.return (Inr c) }
        }
      })"

section \<open>Link supervision\<close>

text \<open>One turn of the loop of \<open>check_link_status_entry\<close>; \<open>A9G_LINK_DELAY_TIME\<close> is 30000.\<close>

definition check_link_turn :: "modem \<Rightarrow> unit atm" where
  "check_link_turn md = do {
     r \<leftarrow> at_obj_exec_cmd md True (bytes ''AT+CREG?'');
     if r < 0 then emit_op (Delay 30000)
     else do {
       v \<leftarrow> parse_num md ''+CREG:'' (Some (- 1));
       s \<leftarrow> State_Monad.get;
       (if (v = Some 1) \<noteq> nd_link (nd s) then set_nd (\<lambda>d. d\<lparr>nd_link := (v = Some 1)\<rparr>) else State_Monad.return ());
       emit_op (Delay 30000)
     }
   }"

definition check_link_status_entry :: "modem \<Rightarrow> bool \<Rightarrow> nat \<Rightarrow> unit atm" where
  "check_link_status_entry md found turns =
     (if \<not> found then State_Monad.return ()
      else do {
        resp \<leftarrow> at_create_resp md 128 0 3000;
        if \<not> resp then State_Monad.return ()
        else ((\<lambda>k. do { check_link_turn md; k }) ^^ turns) (State_Monad.return ())
      })"

text \<open>\<open>tid_ok\<close>: there is memory for the thread.\<close>

definition a9g_netdev_check_link_status :: "bool \<Rightarrow> int atm" where
  "a9g_netdev_check_link_status tid_ok = do {
     (if tid_ok then emit_op (StartThread ''link'') else State_Monad.return ());
     State_Monad.return 0
   }"

section \<open>Bring-up\<close>

text \<open>The check for the SIM card; \<open>n\<close> tries are left.\<close>

fun ccid_loop :: "nat \<Rightarrow> modem \<Rightarrow> int option \<Rightarrow> unit am" where
  "ccid_loop 0 md q = stop_am (Exit (- 1) q)"
| "ccid_loop (Suc n) md q =
     next_do (AT_SEND_CMD md q 2 10000 (bytes ''AT+CCID'')) (\<lambda>_.
     next_do (lift_am (get_line md ''+CCID:'')) (\<lambda>ok.
     if ok then State_Monad.return (Inr ())
     else next_do (lift_am (emit_op (Delay 1000))) (\<lambda>_. ccid_loop n md q)))"

text \<open>\<open>for(i = 0; i<=30; i++) { i++; rt_thread_mdelay(1000); }\<close>\<close>

function restart_wait :: "nat \<Rightarrow> unit atm" where
  "restart_wait i = (if i \<le> 30 then do { emit_op (Delay 1000); restart_wait (i + 1 + 1) } else State_Monad.return ())"
  by pat_completeness auto
termination by (relation "measure (\<lambda>i. 31 - i)") auto

declare restart_wait.simps [simp del]

text \<open>Registration in the GSM network; \<open>i\<close> counts up to \<open>CREG_RETRY\<close>.\<close>

fun creg_loop :: "nat \<Rightarrow> nat \<Rightarrow> modem \<Rightarrow> int option \<Rightarrow> mem \<Rightarrow> mem am" where
  "creg_loop 0 i md q parsed = stop_am (Exit (- 1) q)"
| "creg_loop (Suc n) i md q parsed =
     next_do (AT_SEND_CMD md q 0 300 (bytes ''AT+CREG?'')) (\<lambda>_.
     next_do (parse_text md ''+CREG:'' 10 parsed) (\<lambda>p.
     if p = bytes ''1,1'' \<or> p = bytes ''1,5'' then State_Monad.return (Inr p)
     else next_do (lift_am (emit_op (Delay (1000 + 500 * (i + 1))))) (\<lambda>_. creg_loop n (i + 1) md q p)))"

text \<open>A command that is tried up to \<open>INIT_RETRY\<close> times and may fail.\<close>

fun try_cmd :: "nat \<Rightarrow> modem \<Rightarrow> mem \<Rightarrow> unit atm" where
  "try_cmd 0 md cmd = State_Monad.return ()"
| "try_cmd (Suc n) md cmd = do {
     emit_op (SetInfo 128 0 10000);
     r \<leftarrow> at_obj_exec_cmd md True cmd;
     if r = 0 then State_Monad.return () else do { emit_op (Delay 1000); try_cmd n md cmd }
   }"

text \<open>Registration in the GPRS network.\<close>

fun cgreg_loop :: "nat \<Rightarrow> modem \<Rightarrow> int option \<Rightarrow> mem \<Rightarrow> mem am" where
  "cgreg_loop 0 md q parsed = stop_am (Exit (- 1) q)"
| "cgreg_loop (Suc n) md q parsed =
     next_do (lift_am (try_cmd 5 md (bytes ''AT+CGATT=1''))) (\<lambda>_.
     next_do (AT_SEND_CMD md q 0 1000 (bytes ''AT+CGDCONT=1,'' @ [0x22] @ bytes ''IP'' @ [0x22, 0x2C, 0x22] @ bytes ''CMNET'' @ [0x22])) (\<lambda>_.
     next_do (lift_am (emit_op (Delay 10))) (\<lambda>_.
     next_do (AT_SEND_CMD md q 0 5000 (bytes ''AT+CGACT=1,1'')) (\<lambda>_.
     next_do (lift_am (emit_op (Delay 10))) (\<lambda>_.
     next_do (parse_text md ''OK'' 10 parsed) (\<lambda>p.
     if p = bytes ''OK'' then State_Monad.return (Inr p)
     else next_do (lift_am (emit_op (Delay 1000))) (\<lambda>_. cgreg_loop n md q p)))))))"

text \<open>Signal strength.\<close>

fun csq_loop :: "nat \<Rightarrow> modem \<Rightarrow> int option \<Rightarrow> mem \<Rightarrow> mem am" where
  "csq_loop 0 md q parsed = stop_am (Exit (- 1) q)"
| "csq_loop (Suc n) md q parsed =
     next_do (AT_SEND_CMD md q 0 300 (bytes ''AT+CSQ'')) (\<lambda>_.
     next_do (parse_text md ''+CSQ:'' 10 parsed) (\<lambda>p.
     if p \<noteq> bytes ''99,99'' then State_Monad.return (Inr p)
     else next_do (lift_am (emit_op (Delay 1000))) (\<lambda>_. csq_loop n md q p)))"

text \<open>\<open>if (qimux == 0) AT_SEND_CMD(...)\<close>: reading \<open>qimux\<close> before anything was stored in it is a fault.\<close>

definition if_zero :: "modem \<Rightarrow> int option \<Rightarrow> nat \<Rightarrow> mem \<Rightarrow> unit am" where
  "if_zero md q timeout cmd =
     (case q of None \<Rightarrow> stop_am (Fault UninitRead)
      | Some v \<Rightarrow> if v = 0 then AT_SEND_CMD md q 0 timeout cmd else State_Monad.return (Inr ()))"

definition cstt :: "string \<Rightarrow> mem" where
  "cstt apn = bytes ''AT+CSTT='' @ [0x22] @ bytes apn @ [0x22]"

text \<open>The operator and the access point that belongs to it.\<close>

definition cops_step :: "modem \<Rightarrow> int option \<Rightarrow> mem \<Rightarrow> mem am" where
  "cops_step md q parsed =
     next_do (AT_SEND_CMD md q 0 300 (bytes ''AT+COPS?'')) (\<lambda>_.
     next_do (parse_text md ''+COPS:'' 10 parsed) (\<lambda>p.
     next_do (if p = bytes ''CHINA MOBILE'' then AT_SEND_CMD md q 0 300 (cstt ''CMNET'')
              else if p = bytes ''CHN-UNICOM'' then AT_SEND_CMD md q 0 300 (cstt ''UNINET'')
              else if p = bytes ''CHN-CT'' then AT_SEND_CMD md q 0 300 (cstt ''CTNET'')
              else State_Monad.return (Inr ())) (\<lambda>_. State_Monad.return (Inr p))))"

text \<open>One turn of \<open>while (retry_num--)\<close> up to \<open>__exit\<close>; the value is that of \<open>qimux\<close>.\<close>

definition init_network :: "modem \<Rightarrow> int option \<Rightarrow> mem am" where
  "init_network md q =
     next_do (ccid_loop 10 md q) (\<lambda>_.
     next_do (AT_SEND_CMD md q 0 300 (bytes ''AT+RST=1'')) (\<lambda>_.
     next_do (lift_am (restart_wait 0)) (\<lambda>_.
     next_do (lift_am (emit_op (Delay 1000))) (\<lambda>_.
     next_do (creg_loop 10 0 md q []) (\<lambda>p1.
     next_do (lift_am (try_cmd 5 md (bytes ''AT+CGATT=0''))) (\<lambda>_.
     next_do (cgreg_loop 20 md q p1) (\<lambda>p2. csq_loop 10 md q p2)))))))"

definition init_services :: "modem \<Rightarrow> int option \<Rightarrow> mem \<Rightarrow> (int option) am" where
  "init_services md q p =
     next_do (AT_SEND_CMD md q 0 300 (bytes ''AT+CIPMUX?'')) (\<lambda>_.
     next_do (lift_am (parse_num md ''+CIPMUX:'' q)) (\<lambda>q1.
     next_do (if_zero md q1 1000 (bytes ''AT+CIPMUX=1'')) (\<lambda>_.
     next_do (cops_step md q1 p) (\<lambda>_.
     next_do (AT_SEND_CMD md q1 2 300 (bytes ''AT+CIFSR'')) (\<lambda>_.
     next_do (lift_am (get_line md ''ERROR'')) (\<lambda>bad.
     if bad then stop_am (Exit (- 1) q1)
     else next_do (AT_SEND_CMD md q1 0 300 (bytes ''AT+GPS?'')) (\<lambda>_.
          next_do (lift_am (parse_num md ''+GPS:'' q1)) (\<lambda>q2.
          next_do (if_zero md q2 300 (bytes ''AT+GPS=1'')) (\<lambda>_. State_Monad.return (Inr q2))))))))))"

definition init_attempt :: "modem \<Rightarrow> int option \<Rightarrow> (int option) am" where
  "init_attempt md q =
     next_do (lift_am (do { emit_op (Delay 500); emit_op (Power True); emit_op (Delay 1000);
                            emit_op (WaitConnect 5000); ask (m_wait md) })) (\<lambda>w.
     if w \<noteq> 0 then stop_am (Exit (- 2) q)
     else next_do (AT_SEND_CMD md q 0 300 (bytes ''ATE0'')) (\<lambda>_.
          next_do (AT_SEND_CMD md q 5 300 (bytes ''ATI'')) (\<lambda>_.
          next_do (init_network md q) (\<lambda>p. init_services md q p))))"

text \<open>The loop; the value is \<open>result\<close>.\<close>

fun init_loop :: "nat \<Rightarrow> modem \<Rightarrow> int option \<Rightarrow> int \<Rightarrow> int res atm" where
  "init_loop 0 md q result = State_Monad.return (Inr result)"
| "init_loop (Suc n) md q result = do {
     r \<leftarrow> init_attempt md q;
     case r of
       Inl (Fault e) \<Rightarrow> State_Monad.return (Inl e)
     | Inr q' \<Rightarrow> State_Monad.return (Inr 0)
     | Inl (Exit c q') \<Rightarrow> if c = 0 then State_Monad.return (Inr 0)
         else do { emit_op (Power False); emit_op (Delay 1000); init_loop n md q' c }
   }"

text \<open>\<open>Inl\<close> is a fault.\<close>

definition a9g_init_thread_entry :: "modem \<Rightarrow> bool \<Rightarrow> bool \<Rightarrow> unit res atm" where
  "a9g_init_thread_entry md found tid_ok = do {
     resp \<leftarrow> at_create_resp md 128 0 300;
     if \<not> resp then State_Monad.return (Inr ())
     else do {
       r \<leftarrow> init_loop 5 md None 0;
       case r of
         Inl e \<Rightarrow> State_Monad.return (Inl e)
       | Inr result \<Rightarrow> do {
           emit_op DelResp;
           if result = 0 then do {
             set_init True;
             i \<leftarrow> a9g_netdev_set_info md found;
             case i of
               Inl e \<Rightarrow> State_Monad.return (Inl e)
             | Inr c \<Rightarrow> do { a9g_netdev_check_link_status tid_ok; State_Monad.return (Inr ()) }
           } else do {
             set_init False;
             set_nd (\<lambda>d. d\<lparr>nd_up := False\<rparr>);
             State_Monad.return (Inr ())
           }
         }
     }
   }"

section \<open>The operations of the interface\<close>

text \<open>\<open>a9g_net_init\<close>, with \<open>AT_DEVICE_A9G_INIT_ASYN\<close>: the bring-up runs in a thread of its own.\<close>

definition a9g_net_init :: "bool \<Rightarrow> int atm" where
  "a9g_net_init tid_ok =
     (if tid_ok then do { emit_op (StartThread ''a9g_net_init''); State_Monad.return 0 } else State_Monad.return (- 1))"

definition a9g_netdev_set_up :: "bool \<Rightarrow> bool \<Rightarrow> int atm" where
  "a9g_netdev_set_up found tid_ok =
     (if \<not> found then State_Monad.return (- 1)
      else do {
        s \<leftarrow> State_Monad.get;
        (if \<not> is_init s
         then do { a9g_net_init tid_ok; set_init True; set_nd (\<lambda>d. d\<lparr>nd_up := True\<rparr>) }
         else State_Monad.return ());
        State_Monad.return 0
      })"

definition a9g_netdev_set_down :: "bool \<Rightarrow> int atm" where
  "a9g_netdev_set_down found =
     (if \<not> found then State_Monad.return (- 1)
      else do {
        s \<leftarrow> State_Monad.get;
        (if is_init s
         then do { emit_op (Power False); set_init False; set_nd (\<lambda>d. d\<lparr>nd_up := False\<rparr>) }
         else State_Monad.return ());
        State_Monad.return 0
      })"

text \<open>\<open>dns_server\<close> as the text of \<open>inet_ntoa\<close>.\<close>

definition a9g_netdev_set_dns_server :: "modem \<Rightarrow> bool \<Rightarrow> nat \<Rightarrow> mem \<Rightarrow> int atm" where
  "a9g_netdev_set_dns_server md found dns_num dns_server =
     (if \<not> found then State_Monad.return (- 1)
      else do {
        resp \<leftarrow> at_create_resp md 8 0 300;
        if \<not> resp then State_Monad.return (- 5)
        else do {
          result \<leftarrow> do {
            r \<leftarrow> at_obj_exec_cmd md True (bytes ''AT+CDNSCFG='' @ [0x22] @ dns_server @ [0x22]);
            if r < 0 then State_Monad.return (- 1)
            else do { set_nd (\<lambda>d. d\<lparr>nd_dns := (nd_dns d)(dns_num := dns_server)\<rparr>); State_Monad.return 0 }
          };
          emit_op DelResp;
          State_Monad.return result
        }
      })"

text \<open>
  \<open>a9g_ping_domain_resolve\<close>: the number is scanned into the value of \<open>recv_num\<close>, the null pointer, before
  anything else; when the line does not match that far, \<open>recv_ip\<close> stays empty.
\<close>

definition a9g_ping_domain_resolve :: "modem \<Rightarrow> mem \<Rightarrow> (int \<times> mem option) res atm" where
  "a9g_ping_domain_resolve md name = do {
     resp \<leftarrow> at_create_resp md 512 0 14000;
     if \<not> resp then State_Monad.return (Inr (- 5, None))
     else do {
       r \<leftarrow> at_obj_exec_cmd md True (bytes ''AT+CGACT=1,1'');
       if r < 0 then do { emit_op DelResp; State_Monad.return (Inr (- 1, None)) }
       else do {
         at_obj_exec_cmd md True (bytes ''AT+CDNSGIP='' @ [0x22] @ name @ [0x22]);
         emit_op (Delay 10);
         emit_op (ParseKw ''+CDNSGIP:'');
         found \<leftarrow> ask (m_line md);
         num \<leftarrow> ask (m_num md);
         if found \<and> num \<noteq> None then State_Monad.return (Inl NullDeref)
         else do {
           (if found then State_Monad.return () else emit_op (Delay 100));
           emit_op (Delay 100);
           emit_op DelResp;
           State_Monad.return (Inr (0, None))
         }
       }
     }
   }"

section \<open>The operations of the device\<close>

text \<open>
  \<open>a9g_init\<close>: \<open>client_ok\<close> and \<open>netdev_ok\<close> say whether the AT client is found and the interface
  allocated.  The interface is registered with its fields zero.
\<close>

definition a9g_netdev_add :: "bool \<Rightarrow> bool atm" where
  "a9g_netdev_add netdev_ok =
     (if \<not> netdev_ok then State_Monad.return False
      else do {
        set_nd (\<lambda>d. \<lparr>nd_up = False, nd_link = False, nd_dhcp = False, hwaddr = [], nd_ip = 0, nd_dns = (\<lambda>n. [])\<rparr>);
        State_Monad.return True
      })"

definition a9g_init :: "bool \<Rightarrow> bool \<Rightarrow> bool \<Rightarrow> bool \<Rightarrow> int atm" where
  "a9g_init client_ok netdev_ok found tid_ok =
     (if \<not> client_ok then State_Monad.return (- 1)
      else do {
        ok \<leftarrow> a9g_netdev_add netdev_ok;
        if \<not> ok then State_Monad.return (- 1) else a9g_netdev_set_up found tid_ok
      })"

definition a9g_deinit :: "bool \<Rightarrow> int atm" where
  "a9g_deinit found = a9g_netdev_set_down found"

definition a9g_control :: "int \<Rightarrow> int" where
  "a9g_control cmd = - 1"

section \<open>Registration\<close>

text \<open>The sample device, with the values of the build configuration.\<close>

record at_device_a9g =
  device_name :: string
  client_name :: string
  power_pin :: int
  power_status_pin :: int
  recv_line_num :: nat

definition a9g0 :: at_device_a9g where
  "a9g0 = \<lparr>device_name = ''a9g0'', client_name = ''uart3'', power_pin = - 1, power_status_pin = - 1, recv_line_num = 512\<rparr>"

text \<open>\<open>reg\<close> is what the registration of RT-Thread returns for these names.\<close>

definition a9g_device_register :: "(string \<Rightarrow> string \<Rightarrow> int) \<Rightarrow> int" where
  "a9g_device_register reg = reg (device_name a9g0) (client_name a9g0)"

text \<open>\<open>reg\<close> is given the number of sockets of the class.\<close>

definition a9g_device_class_register :: "bool \<Rightarrow> (nat \<Rightarrow> int) \<Rightarrow> int" where
  "a9g_device_class_register mem_ok reg = (if \<not> mem_ok then - 5 else reg AT_DEVICE_A9G_SOCKETS_NUM)"

text \<open>With the pins of the sample device the power functions do nothing.\<close>

lemma sample_power: "a9g_power on (power_pin a9g0) (power_status_pin a9g0) rs = Some []"
  by (simp add: a9g0_def)

end
