(* ===== verification/A9g_Socket_Props.thy ===== *)
theory A9g_Socket_Props
  imports A9g_Socket
begin

text \<open>
  The properties of the socket operations: every call gives back what it takes, whatever the modem
  does; connect ends after at most two attempts, and which event decides it; what send transmits
  and returns; what resolve returns when no address comes.
\<close>

section \<open>Definitions\<close>

text \<open>
  What a caller holds of the AT client: the responses it has allocated, whether it has the lock, and
  the end sign it has set.  A step that uses a response it does not hold, takes a lock it has, or
  sets the end sign without the lock has no successor.
\<close>

type_synonym held = "nat \<times> bool \<times> u8"

fun at_step :: "at_op \<Rightarrow> held \<Rightarrow> held option" where
  "at_step (NewResp b l t ok) (n, k, c) = Some (if ok then Suc n else n, k, c)"
| "at_step DelResp (n, k, c) = (if 0 < n then Some (n - 1, k, c) else None)"
| "at_step (Exec resp cmd) (n, k, c) = (if resp \<and> n = 0 then None else Some (n, k, c))"
| "at_step (EndSign d) (n, k, c) = (if k then Some (n, k, d) else None)"
| "at_step TakeLock (n, k, c) = (if k then None else Some (n, True, c))"
| "at_step ReleaseLock (n, k, c) = (if k then Some (n, False, c) else None)"
| "at_step (SetInfo b l t) (n, k, c) = (if 0 < n then Some (n, k, c) else None)"
| "at_step ParseErr (n, k, c) = (if 0 < n then Some (n, k, c) else None)"
| "at_step ParseIp (n, k, c) = (if 0 < n then Some (n, k, c) else None)"
| "at_step (ParseKw k) (n, l, c) = (if 0 < n then Some (n, l, c) else None)"
| "at_step (ParseLine k) (n, l, c) = (if 0 < n then Some (n, l, c) else None)"
| "at_step (GetLine k) (n, l, c) = (if 0 < n then Some (n, l, c) else None)"
| "at_step (WaitConnect t) q = Some q"
| "at_step (Power b) q = Some q"
| "at_step (StartThread t) q = Some q"
| "at_step (SendObj b) q = Some q"
| "at_step (WaitEvent w t) q = Some q"
| "at_step (Delay t) q = Some q"

fun at_run :: "at_op list \<Rightarrow> held \<Rightarrow> held option" where
  "at_run [] q = Some q"
| "at_run (e # es) q = Option.bind (at_step e q) (at_run es)"

text \<open>A computation whose trace, from every state, satisfies \<open>P\<close>.\<close>

definition emits :: "(at_op list \<Rightarrow> bool) \<Rightarrow> 'a atm \<Rightarrow> bool" where
  "emits P m \<longleftrightarrow> (\<forall>s. \<exists>es. ops (snd (run_state m s)) = ops s @ es \<and> P es)"

text \<open>A call that leaves the holdings as they are, from every holding that satisfies \<open>p\<close>.\<close>

definition steady :: "(held \<Rightarrow> bool) \<Rightarrow> 'a atm \<Rightarrow> bool" where
  "steady p m \<longleftrightarrow> emits (\<lambda>es. \<forall>q. p q \<longrightarrow> at_run es q = Some q) m"

definition has_resp :: "held \<Rightarrow> bool" where "has_resp q \<longleftrightarrow> 0 < fst q"

definition free_lock :: "held \<Rightarrow> bool" where "free_lock q \<longleftrightarrow> snd q = (False, 0)"

text \<open>
  A call that may fault: when it returns the holdings are as they were, and at the fault, which is
  the overrun of an array, one response is held that the rest of the call would have deleted.
\<close>

definition steady_or_stops :: "('a res) atm \<Rightarrow> bool" where
  "steady_or_stops m \<longleftrightarrow> (\<forall>s. \<exists>es. ops (snd (run_state m s)) = ops s @ es \<and>
     (case fst (run_state m s) of
        Inr x \<Rightarrow> (\<forall>q. free_lock q \<longrightarrow> at_run es q = Some q)
      | Inl e \<Rightarrow> e = OutOfBounds \<and> (\<forall>q. free_lock q \<longrightarrow> at_run es q = Some (Suc (fst q), snd q))))"

text \<open>
  The calls the socket layer makes through \<open>a9g_socket_ops\<close>, in any order.  A session ends at the
  fault of a call.
\<close>

datatype at_call =
    Connect int mem nat at_socket_type bool | Close int | Send int mem | Resolve mem

type_synonym connect_op = "int \<Rightarrow> mem \<Rightarrow> nat \<Rightarrow> at_socket_type \<Rightarrow> bool \<Rightarrow> int atm"

fun at_session ::
  "connect_op \<Rightarrow> (int \<Rightarrow> int atm) \<Rightarrow> (int \<Rightarrow> mem \<Rightarrow> int atm) \<Rightarrow>
   (mem \<Rightarrow> (int \<times> mem option) res atm) \<Rightarrow> at_call list \<Rightarrow> (unit res) atm" where
  "at_session co cl se re [] = State_Monad.return (Inr ())"
| "at_session co cl se re (Connect i ip port ty b # cs) = do { co i ip port ty b; at_session co cl se re cs }"
| "at_session co cl se re (Close i # cs) = do { cl i; at_session co cl se re cs }"
| "at_session co cl se re (Send i b # cs) = do { se i b; at_session co cl se re cs }"
| "at_session co cl se re (Resolve n # cs) = do {
     r \<leftarrow> re n;
     case r of Inl e \<Rightarrow> State_Monad.return (Inl e) | Inr _ \<Rightarrow> at_session co cl se re cs }"

text \<open>The connections started and the data sent in a trace.\<close>

fun starts :: "at_op list \<Rightarrow> nat" where
  "starts [] = 0"
| "starts (Exec False c # es) = Suc (starts es)"
| "starts (e # es) = starts es"

fun payload :: "at_op list \<Rightarrow> mem list" where
  "payload [] = []"
| "payload (SendObj b # es) = b # payload es"
| "payload (e # es) = payload es"

definition starts_at_most :: "nat \<Rightarrow> 'a atm \<Rightarrow> bool" where
  "starts_at_most k m \<longleftrightarrow> emits (\<lambda>es. starts es \<le> k) m"

text \<open>A modem that takes every command and every packet, and sets the events \<open>ev\<close> during a wait of 10 s.\<close>

definition good_modem :: "u32 list \<Rightarrow> mem option option \<Rightarrow> modem" where
  "good_modem ev ip = \<lparr>m_alloc = (\<lambda>h. True), m_exec = (\<lambda>h. 0),
     m_sent = (\<lambda>h. case last h of SendObj b \<Rightarrow> length b | _ \<Rightarrow> 0),
     m_events = (\<lambda>h. case last h of WaitEvent w t \<Rightarrow> (if t = 10000 then ev else []) | _ \<Rightarrow> []),
     m_err = (\<lambda>h. None), m_ip = (\<lambda>h. ip), m_first = True,
     m_wait = (\<lambda>h. 0), m_text = (\<lambda>h. None), m_num = (\<lambda>h. None), m_line = (\<lambda>h. False)\<rparr>"

section \<open>Runs\<close>

lemma at_run_append: "at_run (as @ bs) q = Option.bind (at_run as q) (at_run bs)"
  by (induction as arbitrary: q) (simp_all split: bind_splits)

lemma steady_mono: "steady p m \<Longrightarrow> (\<And>q. r q \<Longrightarrow> p q) \<Longrightarrow> steady r m"
  unfolding steady_def emits_def by meson

lemma steady_return [simp, intro]: "steady p (State_Monad.return x)"
  by (simp add: steady_def emits_def)

lemma atm_bind: "run_state (State_Monad.bind m f) s = run_state (f (fst (run_state m s))) (snd (run_state m s))"
  by (simp add: State_Monad.bind_def case_prod_unfold)

declare State_Monad.run_state_bind [simp del]

lemma create_run: "run_state (at_create_resp md b l t) s =
   (m_alloc md (ops s), s\<lparr>ops := ops s @ [NewResp b l t (m_alloc md (ops s))]\<rparr>)"
  by (simp add: at_create_resp_def emit_op_def ask_def atm_bind)

lemma emit_run: "run_state (emit_op e) s = ((), s\<lparr>ops := ops s @ [e]\<rparr>)"
  by (simp add: emit_op_def)

lemma emits_bind:
  assumes "emits P m" "\<And>x. emits Q (f x)" "\<And>a b. P a \<Longrightarrow> Q b \<Longrightarrow> R (a @ b)"
  shows "emits R (State_Monad.bind m f)"
  unfolding emits_def
proof
  fix s :: at_dev
  obtain es where e: "ops (snd (run_state m s)) = ops s @ es" "P es"
    using assms(1) unfolding emits_def by blast
  obtain fs where f: "ops (snd (run_state (State_Monad.bind m f) s)) = (ops s @ es) @ fs" "Q fs"
    using assms(2) e(1) unfolding emits_def atm_bind by metis
  then show "\<exists>es. ops (snd (run_state (State_Monad.bind m f) s)) = ops s @ es \<and> R es"
    using e(2) assms(3) by (intro exI [of _ "es @ fs"]) simp
qed

lemmas emits_defs = steady_def emits_def

lemma steady_bind: "steady p m \<Longrightarrow> (\<And>x. steady p (f x)) \<Longrightarrow> steady p (State_Monad.bind m f)"
  unfolding steady_def by (erule emits_bind) (auto simp: at_run_append)

lemma steady_ask [simp, intro]: "steady p (ask f)"
  by (simp add: emits_defs ask_def)

lemma steady_take_events [simp, intro]: "steady p (take_events md)"
  by (simp add: emits_defs take_events_def)

lemma steady_emit: "(\<And>q. p q \<Longrightarrow> at_step e q = Some q) \<Longrightarrow> steady p (emit_op e)"
  by (simp add: emits_defs emit_op_def)

lemma steady_if [intro]: "steady p a \<Longrightarrow> steady p b \<Longrightarrow> steady p (if c then a else b)"
  by simp

lemma steady_exec: "(\<And>q. resp \<Longrightarrow> p q \<Longrightarrow> has_resp q) \<Longrightarrow> steady p (at_obj_exec_cmd md resp cmd)"
  unfolding at_obj_exec_cmd_def
  by (intro steady_bind steady_emit steady_take_events steady_ask) (auto simp: has_resp_def split: prod.splits)

lemma steady_obj_send: "steady p (at_client_obj_send md b)"
  unfolding at_client_obj_send_def
  by (intro steady_bind steady_emit steady_take_events steady_ask steady_return) simp

lemma steady_recv: "steady p (a9g_socket_event_recv md w t)"
  unfolding a9g_socket_event_recv_def
  by (intro steady_bind steady_emit) (simp_all add: emits_defs Let_def split: prod.splits)

text \<open>A call that allocates a response, works with it and deletes it.\<close>

lemma steady_resp:
  assumes "steady (\<lambda>q. has_resp q \<and> p (fst q - 1, snd q)) body"
  shows "steady p (do {
     resp \<leftarrow> at_create_resp md b l t;
     if \<not> resp then State_Monad.return e
     else do { result \<leftarrow> body; emit_op DelResp; State_Monad.return result } })"
  unfolding emits_defs
proof
  fix s :: at_dev
  let ?ok = "m_alloc md (ops s)"
  let ?u = "s\<lparr>ops := ops s @ [NewResp b l t ?ok]\<rparr>"
  let ?m = "do {
     resp \<leftarrow> at_create_resp md b l t;
     if \<not> resp then State_Monad.return e
     else do { result \<leftarrow> body; emit_op DelResp; State_Monad.return result } }"
  have r: "run_state ?m s = run_state (if \<not> ?ok then State_Monad.return e
     else do { result \<leftarrow> body; emit_op DelResp; State_Monad.return result }) ?u"
    by (simp add: at_create_resp_def ask_def emit_op_def atm_bind)
  obtain es where e: "ops (snd (run_state body ?u)) = ops ?u @ es"
      "\<forall>q. has_resp q \<and> p (fst q - 1, snd q) \<longrightarrow> at_run es q = Some q"
    using assms unfolding emits_defs by blast
  show "\<exists>es. ops (snd (run_state ?m s)) = ops s @ es \<and> (\<forall>q. p q \<longrightarrow> at_run es q = Some q)"
  proof (cases ?ok)
    case False
    then show ?thesis unfolding r by (intro exI [of _ "[NewResp b l t False]"]) simp
  next
    case True
    have "ops (snd (run_state ?m s)) = ops s @ NewResp b l t True # es @ [DelResp]"
      unfolding r using True e(1) by (simp add: atm_bind emit_op_def case_prod_unfold)
    moreover have "\<forall>q. p q \<longrightarrow> at_run (NewResp b l t True # es @ [DelResp]) q = Some q"
      using e(2) by (auto simp: has_resp_def at_run_append)
    ultimately show ?thesis by blast
  qed
qed

section \<open>The operations\<close>

lemma steady_close: "steady p (a9g_socket_close md i)"
proof -
  let ?b = "do { r \<leftarrow> at_obj_exec_cmd md True (bytes ''AT+CIPCLOSE='' @ fmt_int i);
       State_Monad.return (if r < 0 then - 1 else 0 :: int) }"
  have "steady (\<lambda>q. has_resp q \<and> p (fst q - 1, snd q)) ?b"
    by (intro steady_bind steady_exec steady_return) simp
  from steady_resp [OF this, of md 64 0 600 "- 5"] show ?thesis unfolding a9g_socket_close_def by (simp cong: if_cong)
qed

lemma steady_connect_cmd: "steady p (connect_cmd md ip port ty b)"
  unfolding connect_cmd_def by (cases ty) (auto intro!: steady_bind steady_exec)

lemma steady_connect_try: "steady p (connect_try md n i ip port ty b)"
proof (induction n)
  case 0
  show ?case by (subst connect_try.simps) (auto intro!: steady_bind steady_recv steady_connect_cmd)
next
  case (Suc n)
  show ?case
    by (subst connect_try.simps) (auto intro!: steady_bind steady_recv steady_connect_cmd steady_close Suc.IH)
qed

lemma steady_connect: "steady p (a9g_socket_connect md i ip port ty b)"
  unfolding a9g_socket_connect_def by (intro steady_resp steady_connect_try)

lemma steady_send_loop: "(\<And>q. p q \<Longrightarrow> has_resp q) \<Longrightarrow> steady p (send_loop md i ps r)"
proof (induction ps arbitrary: r)
  case (Cons b ps)
  have e: "steady p (emit_op (SetInfo x y z))" for x y z
    using Cons.prems by (intro steady_emit) (force simp: has_resp_def)
  show ?case using Cons.prems by (auto intro!: steady_bind steady_exec steady_obj_send e Cons.IH)
qed simp

text \<open>A body between taking the lock and releasing it.\<close>

lemma steady_locked:
  assumes "steady has_resp body"
  shows "steady (\<lambda>q. has_resp q \<and> free_lock q) (do {
     emit_op TakeLock; emit_op (EndSign c); result \<leftarrow> body; emit_op (EndSign 0); emit_op ReleaseLock;
     State_Monad.return result })" (is "steady ?p ?m")
  unfolding emits_defs
proof
  fix s :: at_dev
  let ?u = "s\<lparr>ops := ops s @ [TakeLock, EndSign c]\<rparr>"
  obtain es where e: "ops (snd (run_state body ?u)) = ops ?u @ es" "\<forall>q. has_resp q \<longrightarrow> at_run es q = Some q"
    using assms unfolding emits_defs by blast
  have "ops (snd (run_state ?m s)) = ops s @ ([TakeLock, EndSign c] @ es @ [EndSign 0, ReleaseLock])"
    using e(1) by (simp add: atm_bind emit_op_def case_prod_unfold)
  moreover have "at_run ([TakeLock, EndSign c] @ es @ [EndSign 0, ReleaseLock]) q = Some q" if "?p q" for q
    using that e(2) by (cases q) (auto simp: has_resp_def free_lock_def at_run_append)
  ultimately show "\<exists>es. ops (snd (run_state ?m s)) = ops s @ es \<and> (\<forall>q. ?p q \<longrightarrow> at_run es q = Some q)"
    by blast
qed

lemma steady_send: "steady free_lock (a9g_socket_send md i buf)"
proof -
  let ?b = "do { emit_op TakeLock; emit_op (EndSign 0x3E); result \<leftarrow> send_loop md i (packets buf) 0;
       emit_op (EndSign 0); emit_op ReleaseLock; State_Monad.return result }"
  have "steady (\<lambda>q. has_resp q \<and> free_lock q) ?b" by (intro steady_locked steady_send_loop)
  then have "steady (\<lambda>q. has_resp q \<and> free_lock (fst q - 1, snd q)) ?b"
    by (rule steady_mono) (auto simp: free_lock_def)
  from steady_resp [OF this, of md 128 2 5000 "- 5"] show ?thesis unfolding a9g_socket_send_def by (simp cong: if_cong)
qed

lemma steady_resolve_round: "steady has_resp (resolve_round md name t)"
proof -
  have e: "steady has_resp (emit_op ParseErr)" "steady has_resp (emit_op ParseIp)" "steady has_resp (emit_op (Delay d))" for d
    by (intro steady_emit; force simp: has_resp_def)+
  show ?thesis unfolding resolve_round_def
    by (auto intro!: steady_bind steady_exec e simp: Let_def split: option.splits)
qed

lemma steady_resolve_loop: "steady has_resp (resolve_loop n md name t)"
  by (induction n arbitrary: t) (auto intro!: steady_bind steady_resolve_round split: sum.splits)

lemma resolve_round_fault: "fst (run_state (resolve_round md name t) s) = Inl e \<Longrightarrow> e = OutOfBounds"
  unfolding resolve_round_def
  by (auto simp: atm_bind Let_def split: if_splits option.splits)

lemma resolve_loop_fault: "fst (run_state (resolve_loop n md name t) s) = Inl e \<Longrightarrow> e = OutOfBounds"
proof (induction n arbitrary: t s)
  case (Suc n)
  then show ?case by (auto simp: atm_bind dest: resolve_round_fault split: sum.splits)
qed simp

lemma resolve_nomem:
  "\<not> m_alloc md (ops s) \<Longrightarrow> m_first md \<Longrightarrow>
   run_state (a9g_domain_resolve md name) s = (Inr (- 5, None), s\<lparr>ops := ops s @ [NewResp 1024 3 14000 False]\<rparr>)"
  by (simp add: a9g_domain_resolve_def atm_bind create_run)

lemma resolve_run:
  assumes "m_alloc md (ops s)" "m_first md"
  shows "run_state (a9g_domain_resolve md name) s =
     (let (r, t) = run_state (resolve_loop 5 md name []) (s\<lparr>ops := ops s @ [NewResp 1024 3 14000 True]\<rparr>)
      in (r, case r of Inl e \<Rightarrow> t | Inr x \<Rightarrow> t\<lparr>ops := ops t @ [DelResp]\<rparr>))"
  using assms by (simp add: a9g_domain_resolve_def atm_bind create_run emit_run Let_def case_prod_unfold split: sum.splits)

lemma steady_resolve: "steady_or_stops (a9g_domain_resolve md name)"
  unfolding steady_or_stops_def
proof
  fix s :: at_dev
  let ?m = "a9g_domain_resolve md name"
  let ?u = "s\<lparr>ops := ops s @ [NewResp 1024 3 14000 True]\<rparr>"
  consider "\<not> m_first md" | "m_first md" "\<not> m_alloc md (ops s)" | "m_first md" "m_alloc md (ops s)"
    by blast
  then show "\<exists>es. ops (snd (run_state ?m s)) = ops s @ es \<and>
     (case fst (run_state ?m s) of
        Inr x \<Rightarrow> (\<forall>q. free_lock q \<longrightarrow> at_run es q = Some q)
      | Inl e \<Rightarrow> e = OutOfBounds \<and> (\<forall>q. free_lock q \<longrightarrow> at_run es q = Some (Suc (fst q), snd q)))"
  proof cases
    case 1
    then show ?thesis by (simp add: a9g_domain_resolve_def)
  next
    case 2
    then show ?thesis by (simp add: resolve_nomem)
  next
    case 3
    obtain es where e: "ops (snd (run_state (resolve_loop 5 md name []) ?u)) = ops ?u @ es"
        "\<forall>q. has_resp q \<longrightarrow> at_run es q = Some q"
      using steady_resolve_loop [of 5 md name "[]"] unfolding emits_defs by blast
    note r = resolve_run [OF 3(2,1), of name, unfolded Let_def case_prod_unfold]
    show ?thesis
    proof (cases "fst (run_state (resolve_loop 5 md name []) ?u)")
      case (Inl f)
      then show ?thesis using e resolve_loop_fault [OF Inl]
        by (intro exI [of _ "NewResp 1024 3 14000 True # es"]) (simp add: r has_resp_def)
    next
      case (Inr x)
      then show ?thesis using e
        by (intro exI [of _ "NewResp 1024 3 14000 True # es @ [DelResp]"]) (simp add: r has_resp_def at_run_append)
    qed
  qed
qed

section \<open>Sessions\<close>

text \<open>The contract of a table of socket operations, and what follows for any sequence of calls.\<close>

locale at_socket_ops =
  fixes co :: connect_op and cl :: "int \<Rightarrow> int atm" and se :: "int \<Rightarrow> mem \<Rightarrow> int atm"
    and re :: "mem \<Rightarrow> (int \<times> mem option) res atm"
  assumes connect_steady: "steady free_lock (co i ip port ty b)"
    and close_steady: "steady free_lock (cl i)"
    and send_steady: "steady free_lock (se i buf)"
    and resolve_steady: "steady_or_stops (re name)"
begin

lemma steady_then:
  assumes "steady free_lock m" "\<And>x. steady_or_stops (f x)"
  shows "steady_or_stops (State_Monad.bind m f)"
  unfolding steady_or_stops_def
proof
  fix s :: at_dev
  obtain es where e: "ops (snd (run_state m s)) = ops s @ es" "\<forall>q. free_lock q \<longrightarrow> at_run es q = Some q"
    using assms(1) unfolding emits_defs by blast
  define u x where u: "u = snd (run_state m s)" and x: "x = fst (run_state m s)"
  have b: "run_state (State_Monad.bind m f) s = run_state (f x) u" by (simp add: atm_bind u x)
  obtain fs where f: "ops (snd (run_state (f x) u)) = ops u @ fs"
      "case fst (run_state (f x) u) of Inr y \<Rightarrow> (\<forall>q. free_lock q \<longrightarrow> at_run fs q = Some q)
       | Inl e \<Rightarrow> e = OutOfBounds \<and> (\<forall>q. free_lock q \<longrightarrow> at_run fs q = Some (Suc (fst q), snd q))"
    using assms(2) [of x] unfolding steady_or_stops_def by blast
  show "\<exists>es. ops (snd (run_state (State_Monad.bind m f) s)) = ops s @ es \<and>
     (case fst (run_state (State_Monad.bind m f) s) of Inr y \<Rightarrow> (\<forall>q. free_lock q \<longrightarrow> at_run es q = Some q)
      | Inl e \<Rightarrow> e = OutOfBounds \<and> (\<forall>q. free_lock q \<longrightarrow> at_run es q = Some (Suc (fst q), snd q)))"
    unfolding b using e f
    by (intro exI [of _ "es @ fs"]) (simp add: u at_run_append split: sum.splits)
qed

lemma stops_then:
  assumes "steady_or_stops m" "\<And>x. steady_or_stops (f x)"
  shows "steady_or_stops (do { r \<leftarrow> m; case r of Inl e \<Rightarrow> State_Monad.return (Inl e) | Inr x \<Rightarrow> f x })"
    (is "steady_or_stops ?m")
  unfolding steady_or_stops_def
proof
  fix s :: at_dev
  obtain es where e: "ops (snd (run_state m s)) = ops s @ es"
      "case fst (run_state m s) of Inr y \<Rightarrow> (\<forall>q. free_lock q \<longrightarrow> at_run es q = Some q)
       | Inl e \<Rightarrow> e = OutOfBounds \<and> (\<forall>q. free_lock q \<longrightarrow> at_run es q = Some (Suc (fst q), snd q))"
    using assms(1) unfolding steady_or_stops_def by blast
  show "\<exists>es. ops (snd (run_state ?m s)) = ops s @ es \<and>
     (case fst (run_state ?m s) of Inr y \<Rightarrow> (\<forall>q. free_lock q \<longrightarrow> at_run es q = Some q)
      | Inl e \<Rightarrow> e = OutOfBounds \<and> (\<forall>q. free_lock q \<longrightarrow> at_run es q = Some (Suc (fst q), snd q)))"
  proof (cases "fst (run_state m s)")
    case (Inl d)
    then show ?thesis using e by (intro exI [of _ es]) (simp add: atm_bind)
  next
    case (Inr x)
    define u where u: "u = snd (run_state m s)"
    obtain fs where f: "ops (snd (run_state (f x) u)) = ops u @ fs"
        "case fst (run_state (f x) u) of Inr y \<Rightarrow> (\<forall>q. free_lock q \<longrightarrow> at_run fs q = Some q)
         | Inl e \<Rightarrow> e = OutOfBounds \<and> (\<forall>q. free_lock q \<longrightarrow> at_run fs q = Some (Suc (fst q), snd q))"
      using assms(2) [of x] unfolding steady_or_stops_def by blast
    show ?thesis using e f Inr
      by (intro exI [of _ "es @ fs"]) (simp add: atm_bind u at_run_append split: sum.splits)
  qed
qed

lemma session_steady: "steady_or_stops (at_session co cl se re cs)"
proof (induction cs)
  case (Cons c cs)
  then show ?case
    by (cases c) (simp_all add: steady_then stops_then connect_steady close_steady send_steady resolve_steady)
qed (simp add: steady_or_stops_def)

lemma session_runs: "\<exists>es. ops (snd (run_state (at_session co cl se re cs) s)) = ops s @ es \<and>
   (case fst (run_state (at_session co cl se re cs) s) of
      Inr _ \<Rightarrow> at_run es (n, False, 0) = Some (n, False, 0)
    | Inl e \<Rightarrow> e = OutOfBounds \<and> at_run es (n, False, 0) = Some (Suc n, False, 0))"
proof -
  obtain es where "ops (snd (run_state (at_session co cl se re cs) s)) = ops s @ es"
      "case fst (run_state (at_session co cl se re cs) s) of
         Inr _ \<Rightarrow> (\<forall>q. free_lock q \<longrightarrow> at_run es q = Some q)
       | Inl e \<Rightarrow> e = OutOfBounds \<and> (\<forall>q. free_lock q \<longrightarrow> at_run es q = Some (Suc (fst q), snd q))"
    using session_steady unfolding steady_or_stops_def by blast
  then show ?thesis by (intro exI [of _ es]) (simp add: free_lock_def split: sum.splits)
qed

end

interpretation a9g: at_socket_ops "a9g_socket_connect md" "a9g_socket_close md" "a9g_socket_send md" "a9g_domain_resolve md"
  for md
  by unfold_locales (rule steady_connect steady_close steady_send steady_resolve)+

section \<open>Events\<close>

lemma less8: "(k :: nat) < 8 \<longleftrightarrow> k \<in> {0, 1, 2, 3, 4, 5, 6, 7}"
  by auto

lemma conn_bits [simp]:
  "A9G_EVENT_CONN_OK OR A9G_EVENT_CONN_FAIL = 17" "A9G_EVENT_CONN_OK = 1" "A9G_EVENT_CONN_FAIL = 16"
  by (simp_all add: A9G_EVENT_CONN_OK_def A9G_EVENT_CONN_FAIL_def)

text \<open>The word a wait for socket \<open>i\<close> meets when the event of socket \<open>j\<close> has come.\<close>

lemma event_meets:
  assumes "i < 8" "j < 8"
  shows "(SET_EVENT (int j) 1 AND SET_EVENT (int i) 0 \<noteq> 0) = (of_nat (i + 1) AND of_nat (j + 1) \<noteq> (0 :: u32))"
  using assms unfolding less8 by (elim insertE emptyE) (simp_all add: SET_EVENT_def)

lemma SET_EVENT_nz: "i < 8 \<Longrightarrow> SET_EVENT (int i) 0 \<noteq> 0" "i < 8 \<Longrightarrow> SET_EVENT (int i) 17 \<noteq> 0"
  unfolding less8 by (elim insertE emptyE; simp add: SET_EVENT_def)+

lemma SET_EVENT_or: "SET_EVENT i 17 = SET_EVENT i 0 OR 17"
  by (simp add: SET_EVENT_def)

lemma recv_run: "run_state (a9g_socket_event_recv md w t) s =
   (let u = s\<lparr>ops := ops s @ [WaitEvent w t]\<rparr>;
        (r, ev) = event_wait w (if t = 0 then [] else m_events md (ops u)) (socket_event s)
    in (case r of None \<Rightarrow> - 2 | Some x \<Rightarrow> sint x, u\<lparr>socket_event := ev\<rparr>))"
  by (simp add: a9g_socket_event_recv_def emit_op_def atm_bind Let_def case_prod_unfold)

lemma exec_run: "run_state (at_obj_exec_cmd md b c) s =
   (let u = s\<lparr>ops := ops s @ [Exec b c]\<rparr> in
    (m_exec md (ops u), u\<lparr>socket_event := fold (OR) (m_events md (ops u)) (socket_event s)\<rparr>))"
  by (simp add: at_obj_exec_cmd_def emit_op_def take_events_def ask_def atm_bind Let_def case_prod_unfold)

lemmas at_runs = atm_bind recv_run exec_run create_run emit_run Let_def case_prod_unfold

text \<open>The wait with timeout 0 leaves none of the bits it asks for.\<close>

lemma event_wait_clears: "w \<noteq> 0 \<Longrightarrow> snd (event_wait w [] ev) AND w = 0"
  by (subst event_wait.simps) (simp add: and.assoc)

lemma event_wait_one:
  assumes "w \<noteq> 0" "ev AND w = 0"
  shows "event_wait w [a] ev =
    (if a AND w = 0 then (None, ev OR a) else (Some (a AND w), (ev OR a) AND NOT w))"
proof -
  have "(ev OR a) AND w = a AND w" using assms(2) by (simp add: bit.conj_disj_distrib2)
  then show ?thesis using assms by (simp add: event_wait.simps)
qed

lemma event_bits:
  assumes "i < 8" "j < 8"
  shows "sint (SET_EVENT (int j) 1 AND SET_EVENT (int i) 0) \<ge> 0"
    "SET_EVENT (int j) 1 AND NOT (SET_EVENT (int i) 0) AND 17 = 1"
  using assms unfolding less8 by (elim insertE emptyE; simp add: SET_EVENT_def)+

lemma and_or_zero: "(a :: u32) AND (b OR c) = 0 \<longleftrightarrow> a AND b = 0 \<and> a AND c = 0"
  by (auto simp: bit.conj_disj_distrib bit_eq_iff bit_simps)

text \<open>An attempt in which the command is accepted and one event comes, the connect event of socket \<open>j\<close>.\<close>

lemma connect_try_event:
  assumes ij: "i < 8" "j < 8" and ty: "ty = AT_SOCKET_TCP \<or> ty = AT_SOCKET_UDP"
    and ex: "\<And>h. 0 \<le> m_exec md h" and ee: "\<And>h c. m_events md (h @ [Exec False c]) = []"
    and ew: "\<And>h. m_events md (h @ [WaitEvent (SET_EVENT (int i) 0) 10000]) = [SET_EVENT (int j) A9G_EVENT_CONN_OK]"
    and e2: "\<And>h w. m_events md (h @ [WaitEvent w 1000]) = []"
  shows "fst (run_state (connect_try md n (int i) ip port ty True) s) =
     (if of_nat (i + 1) AND of_nat (j + 1) = (0 :: u32) then - 2 else 0)"
proof -
  let ?w = "SET_EVENT (int i) 0" and ?a = "SET_EVENT (int j) 1"
  define ev where "ev = snd (event_wait (SET_EVENT (int i) 17) [] (socket_event s))"
  have "ev AND (?w OR 17) = 0" unfolding ev_def SET_EVENT_or [symmetric] by (rule event_wait_clears [OF SET_EVENT_nz(2) [OF ij(1)]])
  then have z: "ev AND ?w = 0" "ev AND 17 = 0" by (simp_all only: and_or_zero)
  have 2: "((ev OR ?a) AND NOT ?w) AND 17 = 1"
  proof -
    have "((ev OR ?a) AND NOT ?w) AND 17 = ((ev AND 17) AND NOT ?w) OR ((?a AND NOT ?w) AND 17)"
      by (intro bit_word_eqI) (auto simp: bit_simps)
    then show ?thesis using z(2) event_bits(2) [OF ij] by (simp add: and.assoc)
  qed
  have w2: "event_wait 17 [] ((ev OR ?a) AND NOT ?w) = (Some 1, ((ev OR ?a) AND NOT ?w) AND NOT 17)"
    using 2 by (subst event_wait.simps) simp
  have nx: "\<not> m_exec md h < 0" for h using ex [of h] by simp
  note w1 = event_wait_one [OF SET_EVENT_nz(1) [OF ij(1)] z(1), of ?a]
  note m = event_meets [OF ij]
  have cmd: "connect_cmd md ip port ty True = do {
      r \<leftarrow> at_obj_exec_cmd md False (cipstart (if ty = AT_SOCKET_TCP then ''TCP'' else ''UDP'') ip port);
      State_Monad.return (if r < 0 then - 1 else 0) }"
    using ty by (auto simp: connect_cmd_def)
  define t where "t = snd (run_state (connect_cmd md ip port ty True)
    (snd (run_state (a9g_socket_event_recv md (SET_EVENT (int i) 17) 0) s)))"
  have "m_events md (h @ [x, Exec False c]) = []" for h x c using ee [of "h @ [x]"] by simp
  then have t: "socket_event t = ev" by (simp add: t_def cmd at_runs ev_def)
  have c0: "fst (run_state (connect_cmd md ip port ty True) u) = 0" for u
    by (simp add: cmd at_runs nx)
  define u where "u = snd (run_state (a9g_socket_event_recv md ?w 10000) t)"
  have u: "fst (run_state (a9g_socket_event_recv md ?w 10000) t) = (if ?a AND ?w = 0 then - 2 else sint (?a AND ?w))"
      "?a AND ?w \<noteq> 0 \<Longrightarrow> socket_event u = (ev OR ?a) AND NOT ?w"
    using ew by (simp_all add: u_def at_runs t w1)
  have v: "fst (run_state (a9g_socket_event_recv md 17 1000) u) = 1" if "?a AND ?w \<noteq> 0"
    using e2 u(2) [OF that] by (simp add: at_runs w2)
  show ?thesis
  proof (cases "?a AND ?w = 0")
    case True
    then show ?thesis using m u(1)
      by (subst connect_try.simps) (simp add: atm_bind c0 t_def [symmetric])
  next
    case False
    then show ?thesis using m u(1) v event_bits(1) [OF ij]
      by (subst connect_try.simps) (simp add: atm_bind c0 t_def [symmetric] u_def [symmetric])
  qed
qed

section \<open>Attempts\<close>

lemma starts_append: "starts (a @ b) = starts a + starts b"
  by (induction a rule: starts.induct) auto

lemma starts_bind:
  "starts_at_most a m \<Longrightarrow> (\<And>x. starts_at_most b (f x)) \<Longrightarrow> starts_at_most (a + b) (State_Monad.bind m f)"
  unfolding starts_at_most_def
  by (erule emits_bind [where Q = "\<lambda>es. starts es \<le> b"]) (auto simp: starts_append)

lemmas starts_then = starts_bind [of 0, simplified]

lemma starts_more: "starts_at_most a m \<Longrightarrow> a \<le> b \<Longrightarrow> starts_at_most b m"
  unfolding starts_at_most_def emits_def by (meson order_trans)

lemma starts_return [simp, intro]: "starts_at_most k (State_Monad.return x)"
  by (simp add: starts_at_most_def emits_def)

lemma starts_recv: "starts_at_most 0 (a9g_socket_event_recv md w t)"
  by (simp add: starts_at_most_def emits_def recv_run Let_def case_prod_unfold)

lemma starts_exec: "starts_at_most (if resp then 0 else 1) (at_obj_exec_cmd md resp c)"
  by (simp add: starts_at_most_def emits_def exec_run Let_def)

lemma starts_connect_cmd: "starts_at_most 1 (connect_cmd md ip port ty b)"
proof -
  have "starts_at_most (1 + 0) (do { r \<leftarrow> at_obj_exec_cmd md False c; State_Monad.return (g r :: int) })" for c g
    by (rule starts_bind [OF starts_exec [of False, unfolded if_False] starts_return])
  then show ?thesis unfolding connect_cmd_def by (cases ty) simp_all
qed

lemma starts_close: "starts_at_most 0 (a9g_socket_close md i)"
proof -
  have "starts_at_most 0 (at_create_resp md b l t)" "starts_at_most 0 (emit_op DelResp)" for b l t
    by (simp_all add: starts_at_most_def emits_def create_run emit_run)
  then show ?thesis unfolding a9g_socket_close_def
    using starts_exec [of True] by (auto intro!: starts_then)
qed

text \<open>One attempt and what may follow it.\<close>

lemma starts_connect_try: "starts_at_most (1 + n) (connect_try md n i ip port ty b)"
proof (induction n)
  case 0
  show ?case
    by (subst connect_try.simps, rule starts_then [OF starts_recv], rule starts_bind [OF starts_connect_cmd])
      (auto intro!: starts_then starts_recv)
next
  case (Suc n)
  then show ?case
    by (subst connect_try.simps, intro starts_then [OF starts_recv], intro starts_bind [OF starts_connect_cmd])
      (auto intro!: starts_then starts_recv starts_close)
qed

lemma connect_try_result: "fst (run_state (connect_try md n i ip port ty b) s) \<in> {0, - 1, - 2}"
proof (induction n arbitrary: s)
  case 0
  show ?case by (subst connect_try.simps) (simp add: atm_bind)
next
  case (Suc n)
  show ?case using Suc.IH by (subst connect_try.simps) (simp add: atm_bind)
qed

section \<open>Send\<close>

lemma packets_concat: "concat (packets buf) = buf"
proof (induction buf rule: packets.induct)
  case (1 buf)
  then show ?case by (subst packets.simps) auto
qed

lemma packets_size: "p \<in> set (packets buf) \<Longrightarrow> 0 < length p \<and> length p \<le> A9G_MODULE_SEND_MAX_SIZE"
proof (induction buf rule: packets.induct)
  case (1 buf)
  show ?case
  proof (cases "buf = [] \<or> length buf < A9G_MODULE_SEND_MAX_SIZE")
    case True
    then show ?thesis using 1(2) by (subst (asm) packets.simps) (auto split: if_splits)
  next
    case False
    then have "packets buf = take A9G_MODULE_SEND_MAX_SIZE buf # packets (drop A9G_MODULE_SEND_MAX_SIZE buf)"
      by (subst packets.simps) simp
    then show ?thesis using 1 False by (auto simp: A9G_MODULE_SEND_MAX_SIZE_def)
  qed
qed

lemma packets_last: "buf \<noteq> [] \<Longrightarrow> length (last (packets buf)) = (length buf - 1) mod A9G_MODULE_SEND_MAX_SIZE + 1"
proof (induction buf rule: packets.induct)
  case (1 buf)
  let ?M = "A9G_MODULE_SEND_MAX_SIZE"
  have M: "0 < ?M" by (simp add: A9G_MODULE_SEND_MAX_SIZE_def)
  show ?case
  proof (cases "length buf < ?M")
    case True
    then show ?thesis using 1(2) by (subst packets.simps) auto
  next
    case False
    then have p: "packets buf = take ?M buf # packets (drop ?M buf)" using 1(2) by (subst packets.simps) simp
    show ?thesis
    proof (cases "length buf = ?M")
      case True
      then have "packets (drop ?M buf) = []" by (simp add: packets.simps)
      then show ?thesis using True M by (simp add: p)
    next
      case gt: False
      then have d: "drop ?M buf \<noteq> []" using False by simp
      then have "packets (drop ?M buf) \<noteq> []" by (simp add: packets.simps)
      moreover have "length (last (packets (drop ?M buf))) = (length buf - ?M - 1) mod ?M + 1"
        using 1(1) [OF 1(2) False d] by simp
      moreover have "(length buf - ?M - 1) mod ?M = (length buf - 1) mod ?M"
        using False gt le_mod_geq [of ?M "length buf - 1"] by (simp add: diff_right_commute)
      ultimately show ?thesis by (simp add: p)
    qed
  qed
qed

lemma payload_append: "payload (a @ b) = payload a @ payload b"
  by (induction a rule: payload.induct) auto

lemma obj_send_run: "run_state (at_client_obj_send md b) s =
   (let u = s\<lparr>ops := ops s @ [SendObj b]\<rparr> in
    (int (m_sent md (ops u)), u\<lparr>socket_event := fold (OR) (m_events md (ops u)) (socket_event s)\<rparr>))"
  by (simp add: at_client_obj_send_def emit_op_def take_events_def ask_def atm_bind Let_def)

text \<open>What the loop hands to the modem, and what it returns when the modem takes every packet whole.\<close>

lemma send_loop_payload:
  "\<exists>es k. ops (snd (run_state (send_loop md i ps r) s)) = ops s @ es \<and> payload es = take k ps \<and>
     (0 \<le> fst (run_state (send_loop md i ps r) s) \<longrightarrow> payload es = ps)"
proof (induction ps arbitrary: r s)
  case Nil
  show ?case by (intro exI [of _ "[]"]) simp
next
  case (Cons b ps)
  let ?c = "Exec True (bytes ''AT+CIPSEND='' @ fmt_int i @ [0x2C] @ fmt_int (int (length b)))"
  let ?r1 = "run_state (at_obj_exec_cmd md True (bytes ''AT+CIPSEND='' @ fmt_int i @ [0x2C] @ fmt_int (int (length b)))) s"
  let ?r2 = "run_state (at_client_obj_send md b) (snd ?r1)"
  let ?r3 = "run_state (at_obj_exec_cmd md True []) (snd (run_state (emit_op (SetInfo 128 0 30000)) (snd ?r2)))"
  let ?s4 = "snd (run_state (emit_op (SetInfo 128 2 5000)) (snd ?r3))"
  have o: "ops (snd ?r1) = ops s @ [?c]" "ops (snd ?r2) = ops s @ [?c, SendObj b]"
    "ops (snd ?r3) = ops s @ [?c, SendObj b, SetInfo 128 0 30000, Exec True []]"
    "ops ?s4 = ops s @ [?c, SendObj b, SetInfo 128 0 30000, Exec True [], SetInfo 128 2 5000]"
    by (simp_all add: exec_run obj_send_run emit_run Let_def)
  have run: "run_state (send_loop md i (b # ps) r) s =
      (if fst ?r1 < 0 then (- 1, snd ?r1) else if fst ?r2 = 0 then (- 1, snd ?r2)
       else if fst ?r3 < 0 then (- 1, snd ?r3) else run_state (send_loop md i ps (fst ?r2)) ?s4)"
    by (simp add: atm_bind)
  consider "fst ?r1 < 0" | "\<not> fst ?r1 < 0" "fst ?r2 = 0" | "\<not> fst ?r1 < 0" "fst ?r2 \<noteq> 0" "fst ?r3 < 0"
    | "\<not> fst ?r1 < 0" "fst ?r2 \<noteq> 0" "\<not> fst ?r3 < 0" by blast
  then show ?case
  proof cases
    case 1
    then show ?thesis unfolding run using o(1) by (intro exI [of _ "[?c]"] exI [of _ 0]) simp
  next
    case 2
    then show ?thesis unfolding run using o(2) by (intro exI [of _ "[?c, SendObj b]"] exI [of _ 1]) simp
  next
    case 3
    then show ?thesis unfolding run using o(3)
      by (intro exI [of _ "[?c, SendObj b, SetInfo 128 0 30000, Exec True []]"] exI [of _ 1]) simp
  next
    case 4
    obtain es k where "ops (snd (run_state (send_loop md i ps (fst ?r2)) ?s4)) = ops ?s4 @ es"
        "payload es = take k ps" "0 \<le> fst (run_state (send_loop md i ps (fst ?r2)) ?s4) \<longrightarrow> payload es = ps"
      using Cons.IH by blast
    then show ?thesis unfolding run using 4 o(4)
      by (intro exI [of _ "[?c, SendObj b, SetInfo 128 0 30000, Exec True [], SetInfo 128 2 5000] @ es"] exI [of _ "Suc k"]) simp
  qed
qed

lemma send_loop_last:
  assumes "\<And>h. 0 \<le> m_exec md h" "\<And>h b. m_sent md (h @ [SendObj b]) = length b"
  shows "list_all (\<lambda>p. p \<noteq> []) ps \<Longrightarrow>
    fst (run_state (send_loop md i ps r) s) = (if ps = [] then r else int (length (last ps)))"
proof (induction ps arbitrary: r s)
  case (Cons b ps)
  have n: "\<not> m_exec md h < 0" for h using assms(1) [of h] by simp
  have m: "m_sent md (h @ [c, SendObj b]) = length b" for h c using assms(2) [of "h @ [c]" b] by simp
  show ?case using Cons n m by (simp add: atm_bind exec_run obj_send_run emit_run Let_def)
qed simp

section \<open>Whole calls\<close>

text \<open>A call that has allocated its response runs its body and deletes the response.\<close>

lemma connect_run:
  assumes "m_alloc md (ops s)"
  shows "\<exists>u. ops u = ops s @ [NewResp 128 0 5000 True] \<and>
    run_state (a9g_socket_connect md i ip port ty b) s =
      (let (r, t) = run_state (connect_try md 1 i ip port ty b) u in (r, t\<lparr>ops := ops t @ [DelResp]\<rparr>))"
  using assms
  by (intro exI [of _ "s\<lparr>ops := ops s @ [NewResp 128 0 5000 True]\<rparr>"])
    (simp add: a9g_socket_connect_def atm_bind create_run emit_run Let_def case_prod_unfold)

lemma connect_nomem:
  "\<not> m_alloc md (ops s) \<Longrightarrow> run_state (a9g_socket_connect md i ip port ty b) s =
     (- 5, s\<lparr>ops := ops s @ [NewResp 128 0 5000 False]\<rparr>)"
  by (simp add: a9g_socket_connect_def atm_bind create_run)

lemma connect_starts: "\<exists>es. ops (snd (run_state (a9g_socket_connect md i ip port ty b) s)) = ops s @ es \<and> starts es \<le> 2"
proof (cases "m_alloc md (ops s)")
  case True
  obtain u where u: "ops u = ops s @ [NewResp 128 0 5000 True]"
      "run_state (a9g_socket_connect md i ip port ty b) s =
        (let (r, t) = run_state (connect_try md 1 i ip port ty b) u in (r, t\<lparr>ops := ops t @ [DelResp]\<rparr>))"
    using connect_run [OF True] by blast
  obtain es where "ops (snd (run_state (connect_try md 1 i ip port ty b) u)) = ops u @ es" "starts es \<le> 1 + 1"
    using starts_connect_try [of 1] unfolding starts_at_most_def emits_def by blast
  then show ?thesis using u
    by (intro exI [of _ "[NewResp 128 0 5000 True] @ es @ [DelResp]"]) (simp add: Let_def case_prod_unfold starts_append)
next
  case False
  then show ?thesis by (simp add: connect_nomem)
qed

lemma connect_result: "fst (run_state (a9g_socket_connect md i ip port ty b) s) \<in> {0, - 1, - 2, - 5}"
proof (cases "m_alloc md (ops s)")
  case True
  obtain u where "run_state (a9g_socket_connect md i ip port ty b) s =
      (let (r, t) = run_state (connect_try md 1 i ip port ty b) u in (r, t\<lparr>ops := ops t @ [DelResp]\<rparr>))"
    using connect_run [OF True] by blast
  then show ?thesis using connect_try_result [of md 1 i ip port ty b u] by (auto simp: Let_def case_prod_unfold)
qed (simp add: connect_nomem)

lemma send_run:
  "run_state (a9g_socket_send md i buf) s =
     (if \<not> m_alloc md (ops s) then (- 5, s\<lparr>ops := ops s @ [NewResp 128 2 5000 False]\<rparr>)
      else let (r, t) = run_state (send_loop md i (packets buf) 0)
             (s\<lparr>ops := ops s @ [NewResp 128 2 5000 True, TakeLock, EndSign 0x3E]\<rparr>)
           in (r, t\<lparr>ops := ops t @ [EndSign 0, ReleaseLock, DelResp]\<rparr>))"
  by (simp add: a9g_socket_send_def atm_bind create_run emit_run Let_def case_prod_unfold)

lemma send_payload:
  "\<exists>es k. ops (snd (run_state (a9g_socket_send md i buf) s)) = ops s @ es \<and> payload es = take k (packets buf) \<and>
     (0 \<le> fst (run_state (a9g_socket_send md i buf) s) \<longrightarrow> payload es = packets buf)"
proof (cases "m_alloc md (ops s)")
  case True
  let ?u = "s\<lparr>ops := ops s @ [NewResp 128 2 5000 True, TakeLock, EndSign 0x3E]\<rparr>"
  obtain es k where "ops (snd (run_state (send_loop md i (packets buf) 0) ?u)) = ops ?u @ es"
      "payload es = take k (packets buf)"
      "0 \<le> fst (run_state (send_loop md i (packets buf) 0) ?u) \<longrightarrow> payload es = packets buf"
    using send_loop_payload by blast
  then show ?thesis using True
    by (intro exI [of _ "[NewResp 128 2 5000 True, TakeLock, EndSign 0x3E] @ es @ [EndSign 0, ReleaseLock, DelResp]"] exI [of _ k])
      (simp add: send_run Let_def case_prod_unfold payload_append)
next
  case False
  then show ?thesis by (intro exI [of _ "[NewResp 128 2 5000 False]"] exI [of _ 0]) (simp add: send_run)
qed

lemma resolve_loop_none:
  assumes "\<And>h. 0 \<le> m_exec md h" "\<And>h. m_err md h \<noteq> Some 3" "\<And>h. m_err md h \<noteq> Some 8" "\<And>h. m_ip md h = None"
  shows "fst (run_state (resolve_loop n md name t) s) = Inr (0, None)"
proof (induction n arbitrary: t s)
  case (Suc n)
  have x: "\<not> m_exec md h < 0" for h using assms(1) [of h] by simp
  show ?case using Suc.IH assms(2-) x
    by (simp add: resolve_round_def atm_bind exec_run emit_run ask_def Let_def)
qed simp

section \<open>Properties\<close>

text \<open>
  C18: whatever sequence of connect, close, send and resolve calls is made, and whatever the modem
  answers at every point, every response used is one the caller holds, the lock is taken and released
  in turn with the end sign set only under it, and at the end no response is held, the lock is free
  and the end sign is back to 0.  The one call that can fault is a resolve whose answer overruns the
  16 bytes of \<open>recv_ip\<close>: the session ends there, with all of this kept up to that point and only the
  response of that call held.
\<close>

theorem at_session_tidy:
  "\<exists>es. ops (snd (run_state
      (at_session (a9g_socket_connect md) (a9g_socket_close md) (a9g_socket_send md) (a9g_domain_resolve md) cs) s)) =
        ops s @ es \<and>
     (case fst (run_state
        (at_session (a9g_socket_connect md) (a9g_socket_close md) (a9g_socket_send md) (a9g_domain_resolve md) cs) s) of
        Inr _ \<Rightarrow> at_run es (n, False, 0) = Some (n, False, 0)
      | Inl e \<Rightarrow> e = OutOfBounds \<and> at_run es (n, False, 0) = Some (Suc n, False, 0))"
  by (rule a9g.session_runs)

text \<open>
  A connect call starts at most two connections and returns success, an error, a timeout or no
  memory, whatever the modem does.
\<close>

theorem connect_outcome:
  "fst (run_state (a9g_socket_connect md i ip port ty b) s) \<in> {0, - 1, - 2, - 5} \<and>
   (\<exists>es. ops (snd (run_state (a9g_socket_connect md i ip port ty b) s)) = ops s @ es \<and> starts es \<le> 2)"
  by (intro conjI connect_result connect_starts)

text \<open>
  C19: when the command to connect socket \<open>i\<close> is accepted and the connect event of socket \<open>j\<close> is the
  one that comes, the call succeeds exactly if \<open>i + 1\<close> and \<open>j + 1\<close> share a bit; otherwise it times
  out.  So its own event always completes it, and so does the event of some other sockets.
\<close>

theorem connect_event_decides:
  assumes "i < 8" "j < 8" "ty = AT_SOCKET_TCP \<or> ty = AT_SOCKET_UDP" "m_alloc md (ops s)"
    "\<And>h. 0 \<le> m_exec md h" "\<And>h c. m_events md (h @ [Exec False c]) = []"
    "\<And>h. m_events md (h @ [WaitEvent (SET_EVENT (int i) 0) 10000]) = [SET_EVENT (int j) A9G_EVENT_CONN_OK]"
    "\<And>h w. m_events md (h @ [WaitEvent w 1000]) = []"
  shows "fst (run_state (a9g_socket_connect md (int i) ip port ty True) s) =
     (if of_nat (i + 1) AND of_nat (j + 1) = (0 :: u32) then - 2 else 0)"
proof -
  obtain u where u: "run_state (a9g_socket_connect md (int i) ip port ty True) s =
      (let (r, t) = run_state (connect_try md 1 (int i) ip port ty True) u in (r, t\<lparr>ops := ops t @ [DelResp]\<rparr>))"
    using connect_run [OF assms(4)] by blast
  show ?thesis unfolding u using connect_try_event [OF assms(1-3,5-8), of 1 ip port u]
    by (simp add: Let_def case_prod_unfold)
qed

theorem connect_event_decides_witness:
  "fst (run_state (a9g_socket_connect (good_modem [SET_EVENT 4 A9G_EVENT_CONN_OK] None) 0 (bytes ''h'') 80 AT_SOCKET_TCP True) idle_dev) = 0 \<and>
   fst (run_state (a9g_socket_connect (good_modem [SET_EVENT 3 A9G_EVENT_CONN_OK] None) 0 (bytes ''h'') 80 AT_SOCKET_TCP True) idle_dev) = - 2"
  using connect_event_decides [of 0 4 AT_SOCKET_TCP "good_modem [SET_EVENT 4 A9G_EVENT_CONN_OK] None" idle_dev "bytes ''h''" 80]
    connect_event_decides [of 0 3 AT_SOCKET_TCP "good_modem [SET_EVENT 3 A9G_EVENT_CONN_OK] None" idle_dev "bytes ''h''" 80]
  by (simp add: good_modem_def)

text \<open>
  C24: what a send call hands to the modem is a sequence of packets of 1 to 1000 bytes that together
  are a prefix of the buffer, whatever the modem does, and the whole buffer when the call does not
  return an error.
\<close>

theorem send_hands_over:
  "\<exists>es. ops (snd (run_state (a9g_socket_send md i buf) s)) = ops s @ es \<and>
     (\<exists>rest. buf = concat (payload es) @ rest \<and> (0 \<le> fst (run_state (a9g_socket_send md i buf) s) \<longrightarrow> rest = [])) \<and>
     list_all (\<lambda>p. 0 < length p \<and> length p \<le> 1000) (payload es)"
proof -
  obtain es k where e: "ops (snd (run_state (a9g_socket_send md i buf) s)) = ops s @ es"
      "payload es = take k (packets buf)" "0 \<le> fst (run_state (a9g_socket_send md i buf) s) \<longrightarrow> payload es = packets buf"
    using send_payload by blast
  have c: "buf = concat (payload es) @ concat (drop k (packets buf))"
    unfolding e(2) concat_append [symmetric] by (simp add: packets_concat)
  have "list_all (\<lambda>p. 0 < length p \<and> length p \<le> 1000) (payload es)"
    unfolding e(2) list_all_iff using packets_size [of _ buf, unfolded A9G_MODULE_SEND_MAX_SIZE_def]
    by (blast dest: in_set_takeD)
  moreover have "concat (drop k (packets buf)) = []" if "0 \<le> fst (run_state (a9g_socket_send md i buf) s)"
    using e(3) that c packets_concat [of buf] by simp
  ultimately show ?thesis
    using e(1) c by (intro exI [of _ es] conjI exI [of _ "concat (drop k (packets buf))"]) simp_all
qed

theorem send_hands_over_witness:
  "\<exists>es. ops (snd (run_state (a9g_socket_send (good_modem [] None) 1 [1, 2] ) idle_dev)) = es \<and> concat (payload es) = [1, 2]"
proof -
  have "0 \<le> fst (run_state (a9g_socket_send (good_modem [] None) 1 [1, 2]) idle_dev)"
    by (simp add: send_run idle_dev_def good_modem_def packets.simps A9G_MODULE_SEND_MAX_SIZE_def
        atm_bind exec_run obj_send_run emit_run Let_def)
  then show ?thesis using send_hands_over [of "good_modem [] None" 1 "[1, 2]" idle_dev]
    by (auto simp: idle_dev_def)
qed

text \<open>
  When the modem takes every packet whole, a send call returns the size of the last packet, not
  the size of the buffer.
\<close>

theorem send_returns_last_packet:
  assumes "m_alloc md (ops s)" "\<And>h. 0 \<le> m_exec md h" "\<And>h b. m_sent md (h @ [SendObj b]) = length b" "buf \<noteq> []"
  shows "fst (run_state (a9g_socket_send md i buf) s) = int ((length buf - 1) mod 1000 + 1)"
proof -
  have "list_all (\<lambda>p. p \<noteq> []) (packets buf)" using packets_size by (fastforce simp: list_all_iff)
  moreover have "packets buf \<noteq> []" using packets_concat [of buf] assms(4) by auto
  ultimately show ?thesis
    using assms(1) send_loop_last [OF assms(2,3)] packets_last [OF assms(4)]
    by (simp add: send_run case_prod_unfold Let_def A9G_MODULE_SEND_MAX_SIZE_def)
qed

theorem send_returns_last_packet_witness:
  "fst (run_state (a9g_socket_send (good_modem [] None) 1 (replicate 1500 0)) idle_dev) = 500"
  using send_returns_last_packet [of "good_modem [] None" idle_dev "replicate 1500 0" 1] by (simp add: good_modem_def)

text \<open>
  A resolve call whose answers never hold an address, and no error code it knows, returns
  success and stores no address.
\<close>

theorem resolve_without_address:
  assumes "m_first md" "m_alloc md (ops s)" "\<And>h. 0 \<le> m_exec md h" "\<And>h. m_err md h \<noteq> Some 3" "\<And>h. m_err md h \<noteq> Some 8"
    "\<And>h. m_ip md h = None"
  shows "fst (run_state (a9g_domain_resolve md name) s) = Inr (0, None)"
  using assms(1,2) resolve_loop_none [OF assms(3-6), of 5 name "[]"]
  by (simp add: a9g_domain_resolve_def atm_bind create_run)

theorem resolve_without_address_witness:
  "fst (run_state (a9g_domain_resolve (good_modem [] None) (bytes ''a.b'')) idle_dev) = Inr (0, None)"
  using resolve_without_address [of "good_modem [] None" idle_dev "bytes ''a.b''"] by (simp add: good_modem_def)

end
