(* ===== verification/A9g_Device_Props.thy ===== *)
theory A9g_Device_Props
  imports A9g_Device A9g_Socket_Props
begin

text \<open>
  The properties of the modem device: the bring-up makes at most five attempts and leaves the state
  of the device and of its interface in agreement; what decides it when the modem answers every
  command; what it gives back.
\<close>

section \<open>Definitions\<close>

text \<open>The value of a computation, from every state.\<close>

definition ends :: "'a atm \<Rightarrow> 'a \<Rightarrow> bool" where
  "ends m r \<longleftrightarrow> (\<forall>s. fst (run_state m s) = r)"

text \<open>A computation that leaves the status of device and interface alone.\<close>

definition keeps_up :: "'a atm \<Rightarrow> bool" where
  "keeps_up m \<longleftrightarrow> (\<forall>s. is_init (snd (run_state m s)) = is_init s \<and> nd_up (nd (snd (run_state m s))) = nd_up (nd s))"

text \<open>The attempts in a trace.\<close>

fun attempts :: "at_op list \<Rightarrow> nat" where
  "attempts [] = 0"
| "attempts (WaitConnect t # es) = Suc (attempts es)"
| "attempts (e # es) = attempts es"

definition attempts_at_most :: "nat \<Rightarrow> 'a atm \<Rightarrow> bool" where
  "attempts_at_most k m \<longleftrightarrow> emits (\<lambda>es. attempts es \<le> k) m"

text \<open>What the commands of the bring-up have in common: they give back what they take, keep the status and start no attempt.\<close>

definition quiet :: "'a atm \<Rightarrow> bool" where
  "quiet m \<longleftrightarrow> steady has_resp m \<and> keeps_up m \<and> attempts_at_most 0 m"

text \<open>A modem that answers every command, with this operator, number and address.\<close>

definition answers :: "modem \<Rightarrow> mem \<Rightarrow> mem \<Rightarrow> mem \<Rightarrow> bool" where
  "answers md oper imei ip \<longleftrightarrow>
     (\<forall>h. m_alloc md h \<and> m_exec md h = 0 \<and> m_wait md h = 0 \<and>
        m_line md (h @ [GetLine ''+CCID:'']) \<and> \<not> m_line md (h @ [GetLine ''ERROR'']) \<and>
        m_text md (h @ [ParseKw ''+CREG:'']) = Some (bytes ''1,1'') \<and>
        m_text md (h @ [ParseKw ''OK'']) = Some (bytes ''OK'') \<and>
        m_text md (h @ [ParseKw ''+CSQ:'']) = Some (bytes ''31,0'') \<and>
        m_text md (h @ [ParseKw ''+COPS:'']) = Some oper \<and>
        m_text md (h @ [ParseLine 2]) = Some imei \<and> m_text md (h @ [ParseKw ''.'']) = Some ip \<and>
        m_num md (h @ [ParseKw ''+CIPMUX:'']) = Some 0 \<and> m_num md (h @ [ParseKw ''+GPS:'']) = Some 0)"

definition answering_modem :: "mem \<Rightarrow> mem \<Rightarrow> mem \<Rightarrow> modem" where
  "answering_modem oper imei ip = (good_modem [] None)\<lparr>
     m_text := (\<lambda>h. case last h of
         ParseLine n \<Rightarrow> Some imei
       | ParseKw k \<Rightarrow> Some (if k = ''+CREG:'' then bytes ''1,1'' else if k = ''OK'' then bytes ''OK''
           else if k = ''+CSQ:'' then bytes ''31,0'' else if k = ''+COPS:'' then oper else ip)
       | _ \<Rightarrow> None),
     m_num := (\<lambda>h. Some 0),
     m_line := (\<lambda>h. last h = GetLine ''+CCID:'')\<rparr>"

text \<open>The state in which the network information is read, and the end of the thread.\<close>

definition after_loop :: "modem \<Rightarrow> at_dev \<Rightarrow> int res \<times> at_dev" where
  "after_loop md s = run_state (init_loop 5 md None 0) (s\<lparr>ops := ops s @ [NewResp 128 0 300 True]\<rparr>)"

definition after_info :: "modem \<Rightarrow> bool \<Rightarrow> at_dev \<Rightarrow> int res \<times> at_dev" where
  "after_info md found s = run_state (a9g_netdev_set_info md found)
     ((snd (after_loop md s))\<lparr>ops := ops (snd (after_loop md s)) @ [DelResp], is_init := True\<rparr>)"

section \<open>Composition\<close>

declare State_Monad.run_state_bind [simp del]

lemma next_run: "run_state (next_do m f) s =
   (case fst (run_state m s) of Inl e \<Rightarrow> (Inl e, snd (run_state m s)) | Inr x \<Rightarrow> run_state (f x) (snd (run_state m s)))"
  by (simp add: next_do_def atm_bind split: sum.splits)

lemma ends_next: "ends m (Inr x) \<Longrightarrow> ends (f x) r \<Longrightarrow> ends (next_do m f) r"
  by (simp add: ends_def next_run)

lemma ends_stop: "ends m (Inl e) \<Longrightarrow> ends (next_do m f) (Inl e)"
  by (simp add: ends_def next_run)

lemma ends_bind: "ends m x \<Longrightarrow> ends (f x) r \<Longrightarrow> ends (State_Monad.bind m f) r"
  by (simp add: ends_def atm_bind)

lemma ends_return: "ends (State_Monad.return x) x"
  by (simp add: ends_def)

lemma ends_emit: "ends (emit_op e) ()"
  by (simp add: ends_def emit_run)

lemma ends_lift: "ends m x \<Longrightarrow> ends (lift_am m) (Inr x)"
  unfolding lift_am_def by (rule ends_bind) (auto intro: ends_return)

lemma ends_emit_lift: "ends (lift_am (emit_op e)) (Inr ())"
  by (intro ends_lift ends_emit)

lemma keeps_bind: "keeps_up m \<Longrightarrow> (\<And>x. keeps_up (f x)) \<Longrightarrow> keeps_up (State_Monad.bind m f)"
  by (simp add: keeps_up_def atm_bind)

lemma keeps_return: "keeps_up (State_Monad.return x)"
  by (simp add: keeps_up_def)

lemma keeps_next: "keeps_up m \<Longrightarrow> (\<And>x. keeps_up (f x)) \<Longrightarrow> keeps_up (next_do m f)"
  unfolding next_do_def by (auto intro!: keeps_bind keeps_return split: sum.splits)

lemma ask_run: "run_state (ask g) s = (g (ops s), s)"
  by (simp add: ask_def)

lemma set_runs: "run_state (set_nd f) s = ((), s\<lparr>nd := f (nd s)\<rparr>)" "run_state (set_init b) s = ((), s\<lparr>is_init := b\<rparr>)"
  by (simp_all add: set_nd_def set_init_def)

lemma keeps_ops: "keeps_up (emit_op e)" "keeps_up (ask g)" "keeps_up (at_obj_exec_cmd md b c)"
    "keeps_up (at_create_resp md x y z)"
  by (simp_all add: keeps_up_def emit_run ask_run exec_run create_run Let_def)

lemma keeps_set: "(\<And>d. nd_up (f d) = nd_up d) \<Longrightarrow> keeps_up (set_nd f)"
  by (simp add: keeps_up_def set_runs)

lemma attempts_append: "attempts (a @ b) = attempts a + attempts b"
  by (induction a rule: attempts.induct) auto

lemma attempts_bind:
  "attempts_at_most a m \<Longrightarrow> (\<And>x. attempts_at_most b (f x)) \<Longrightarrow> attempts_at_most (a + b) (State_Monad.bind m f)"
  unfolding attempts_at_most_def
  by (erule emits_bind [where Q = "\<lambda>es. attempts es \<le> b"]) (auto simp: attempts_append)

section \<open>Quiet computations\<close>

lemma quiet_bind: "quiet m \<Longrightarrow> (\<And>x. quiet (f x)) \<Longrightarrow> quiet (State_Monad.bind m f)"
  unfolding quiet_def using attempts_bind [of 0 m 0 f] by (auto intro: steady_bind keeps_bind)

lemma quiet_return: "quiet (State_Monad.return x)" "quiet (stop_am e)"
  by (simp_all add: quiet_def keeps_return stop_am_def attempts_at_most_def emits_def)

lemma quiet_next: "quiet m \<Longrightarrow> (\<And>x. quiet (f x)) \<Longrightarrow> quiet (next_do m f)"
  unfolding next_do_def by (auto intro!: quiet_bind quiet_return split: sum.splits)

lemma quiet_lift: "quiet m \<Longrightarrow> quiet (lift_am m)"
  unfolding lift_am_def by (intro quiet_bind quiet_return)

lemma quiet_exec: "quiet (at_obj_exec_cmd md True c)" "quiet (ask g)"
  unfolding quiet_def
  by (auto simp: keeps_ops attempts_at_most_def emits_def exec_run ask_run Let_def intro: steady_exec steady_ask)

lemma quiet_emit:
  assumes "\<And>q. has_resp q \<Longrightarrow> at_step e q = Some q" "attempts [e] = 0"
  shows "quiet (emit_op e)"
  unfolding quiet_def using assms by (auto simp: keeps_ops attempts_at_most_def emits_def emit_run intro: steady_emit)

lemma quiet_emits: "quiet (emit_op (Delay t))" "quiet (emit_op (SetInfo a b c))" "quiet (emit_op (ParseKw k))"
    "quiet (emit_op (ParseLine n))" "quiet (emit_op (GetLine k))" "quiet (emit_op (Power b'))"
  by (intro quiet_emit; force simp: has_resp_def)+

lemma quiet_set_nd: "(\<And>d. nd_up (f d) = nd_up d) \<Longrightarrow> quiet (set_nd f)"
  unfolding quiet_def by (auto simp: keeps_set attempts_at_most_def emits_defs set_runs)

lemmas quiet_intros = quiet_bind quiet_next quiet_return quiet_lift quiet_exec quiet_emits quiet_set_nd

lemma quiet_parts: "quiet (AT_SEND_CMD md q l t c)" "quiet (parse_text md k n old)" "quiet (parse_num md k q)"
    "quiet (get_line md k)" "quiet (if_zero md q t c)"
  unfolding AT_SEND_CMD_def parse_text_def parse_num_def get_line_def if_zero_def
  by (auto intro!: quiet_intros split: option.splits)

lemma quiet_ccid: "quiet (ccid_loop n md q)"
  by (induction n) (auto intro!: quiet_intros quiet_parts)

lemma quiet_restart: "quiet (restart_wait i)"
proof (induction i rule: restart_wait.induct)
  case (1 i)
  then show ?case by (subst restart_wait.simps) (auto intro!: quiet_intros)
qed

lemma quiet_creg: "quiet (creg_loop n i md q p)"
  by (induction n arbitrary: i p) (auto intro!: quiet_intros quiet_parts)

lemma quiet_try: "quiet (try_cmd n md c)"
  by (induction n) (auto intro!: quiet_intros)

lemma quiet_cgreg: "quiet (cgreg_loop n md q p)"
  by (induction n arbitrary: p) (auto intro!: quiet_intros quiet_parts quiet_try)

lemma quiet_csq: "quiet (csq_loop n md q p)"
  by (induction n arbitrary: p) (auto intro!: quiet_intros quiet_parts)

lemmas quiet_loops = quiet_ccid quiet_restart quiet_creg quiet_try quiet_cgreg quiet_csq

lemma quiet_cops: "quiet (cops_step md q p)"
  unfolding cops_step_def by (auto intro!: quiet_intros quiet_parts)

lemma quiet_services: "quiet (init_services md q p)"
  unfolding init_services_def by (auto intro!: quiet_intros quiet_parts quiet_cops)

lemma quiet_network: "quiet (init_network md q)"
  unfolding init_network_def by (auto intro!: quiet_intros quiet_parts quiet_loops)

lemma quiet_store: "quiet (store_ip ip)"
  unfolding store_ip_def by (auto intro!: quiet_intros split: option.splits sum.splits)

lemma quiet_set_info: "quiet (set_info_body md)"
  unfolding set_info_body_def by (auto intro!: quiet_intros quiet_store split: option.splits)

section \<open>The loop\<close>

lemma attempt_parts: "steady has_resp (init_attempt md q)" "keeps_up (init_attempt md q)"
    "attempts_at_most 1 (init_attempt md q)"
proof -
  let ?w = "do { emit_op (Delay 500); emit_op (Power True); emit_op (Delay 1000); emit_op (WaitConnect 5000); ask (m_wait md) }"
  let ?f = "\<lambda>w. if w \<noteq> 0 then stop_am (Exit (- 2) q)
     else next_do (AT_SEND_CMD md q 0 300 (bytes ''ATE0'')) (\<lambda>_.
          next_do (AT_SEND_CMD md q 5 300 (bytes ''ATI'')) (\<lambda>_.
          next_do (init_network md q) (\<lambda>p. init_services md q p)))"
  have f: "quiet (?f w)" for w
    by (auto intro!: quiet_intros quiet_parts quiet_network quiet_services)
  have a: "init_attempt md q = State_Monad.bind ?w ?f"
    unfolding init_attempt_def next_do_def lift_am_def by simp
  have w: "steady has_resp ?w" "keeps_up ?w" "attempts_at_most 1 ?w"
    by (auto intro!: steady_bind steady_emit keeps_bind keeps_ops)
       (simp add: attempts_at_most_def emits_def atm_bind emit_run ask_run)
  have g: "steady has_resp (?f w)" "keeps_up (?f w)" "attempts_at_most 0 (?f w)" for w
    using f [of w] unfolding quiet_def by blast+
  show "steady has_resp (init_attempt md q)" unfolding a by (rule steady_bind [OF w(1) g(1)])
  show "keeps_up (init_attempt md q)" unfolding a by (rule keeps_bind [OF w(2) g(2)])
  have "attempts_at_most (1 + 0) (init_attempt md q)" unfolding a by (rule attempts_bind [OF w(3) g(3)])
  then show "attempts_at_most 1 (init_attempt md q)" by simp
qed

lemma loop_steady: "steady has_resp (init_loop n md q r)"
proof (induction n arbitrary: q r)
  case (Suc n)
  have "steady has_resp (emit_op (Power False))" "steady has_resp (emit_op (Delay 1000))"
    using quiet_emits by (auto simp: quiet_def)
  then show ?case using attempt_parts(1) Suc.IH
    by (auto intro!: steady_bind split: sum.splits brk.splits)
qed simp

lemma loop_keeps: "keeps_up (init_loop n md q r)"
  by (induction n arbitrary: q r)
    (auto intro!: keeps_bind keeps_return keeps_ops attempt_parts split: sum.splits brk.splits)

lemma loop_attempts: "attempts_at_most n (init_loop n md q r)"
proof (induction n arbitrary: q r)
  case (Suc n)
  let ?f = "\<lambda>r. case r of
       Inl (Fault e) \<Rightarrow> State_Monad.return (Inl e)
     | Inr q' \<Rightarrow> State_Monad.return (Inr 0)
     | Inl (Exit c q') \<Rightarrow> if c = 0 then State_Monad.return (Inr 0)
         else do { emit_op (Power False); emit_op (Delay 1000); init_loop n md q' c }"
  have r: "attempts_at_most k (State_Monad.return x)" for k and x :: "int res"
    by (simp add: attempts_at_most_def emits_def)
  have z: "attempts_at_most 0 (emit_op (Power False))" "attempts_at_most 0 (emit_op (Delay 1000))"
    using quiet_emits by (auto simp: quiet_def)
  have "attempts_at_most n (?f x)" for x
    using attempts_bind [OF z(1) attempts_bind [OF z(2) Suc.IH]] r by (auto split: sum.splits brk.splits)
  then have "attempts_at_most (1 + n) (init_loop (Suc n) md q r)"
    unfolding init_loop.simps by (intro attempts_bind attempt_parts(3))
  then show ?case by simp
qed (simp add: attempts_at_most_def emits_def)

section \<open>The whole thread\<close>

lemma quietD:
  assumes "quiet m"
  shows "\<exists>es. ops (snd (run_state m s)) = ops s @ es \<and> attempts es = 0 \<and>
      is_init (snd (run_state m s)) = is_init s \<and> nd_up (nd (snd (run_state m s))) = nd_up (nd s) \<and>
      (\<forall>q. has_resp q \<longrightarrow> at_run es q = Some q)"
proof -
  obtain es where e: "ops (snd (run_state m s)) = ops s @ es" "\<forall>q. has_resp q \<longrightarrow> at_run es q = Some q"
    using assms unfolding quiet_def emits_defs by blast
  moreover have "attempts es = 0"
    using assms e(1) unfolding quiet_def attempts_at_most_def emits_def by (metis le_zero_eq same_append_eq)
  ultimately show ?thesis using assms unfolding quiet_def keeps_up_def by blast
qed

lemma set_info_ok:
  assumes "fst (run_state (a9g_netdev_set_info md True) s) = Inr c"
  shows "\<exists>es. ops (snd (run_state (a9g_netdev_set_info md True) s)) = ops s @ es \<and> attempts es = 0 \<and>
     is_init (snd (run_state (a9g_netdev_set_info md True) s)) = is_init s \<and>
     nd_up (nd (snd (run_state (a9g_netdev_set_info md True) s))) \<and> (\<forall>q. at_run es q = Some q)"
proof (cases "m_alloc md (ops s)")
  case True
  let ?u = "s\<lparr>nd := (nd s)\<lparr>nd_up := True, nd_link := True, nd_dhcp := True\<rparr>, ops := ops s @ [NewResp 32 0 300 True]\<rparr>"
  let ?v = "run_state (set_info_body md) ?u"
  have run: "run_state (a9g_netdev_set_info md True) s =
      (case code_of (fst ?v) of Inl e \<Rightarrow> (Inl e, snd ?v) | Inr c \<Rightarrow> (Inr c, (snd ?v)\<lparr>ops := ops (snd ?v) @ [DelResp]\<rparr>))"
    using True by (simp add: a9g_netdev_set_info_def atm_bind set_runs create_run emit_run split: sum.splits)
  then have c: "code_of (fst ?v) = Inr c" using assms by (simp split: sum.splits)
  obtain es where e: "ops (snd ?v) = ops ?u @ es" "attempts es = 0" "is_init (snd ?v) = is_init s"
      "nd_up (nd (snd ?v))" "\<forall>q. has_resp q \<longrightarrow> at_run es q = Some q"
    using quietD [OF quiet_set_info, of md ?u] by auto
  have "at_run (NewResp 32 0 300 True # es @ [DelResp]) q = Some q" for q
    using e(5) by (cases q) (simp add: at_run_append has_resp_def)
  then show ?thesis unfolding run c using e
    by (intro exI [of _ "NewResp 32 0 300 True # es @ [DelResp]"]) (simp add: attempts_append)
next
  case False
  then have "run_state (a9g_netdev_set_info md True) s =
      (Inr (- 5), s\<lparr>nd := (nd s)\<lparr>nd_up := True, nd_link := True, nd_dhcp := True\<rparr>, ops := ops s @ [NewResp 32 0 300 False]\<rparr>)"
    by (simp add: a9g_netdev_set_info_def atm_bind set_runs create_run)
  then show ?thesis by (intro exI [of _ "[NewResp 32 0 300 False]"]) auto
qed

lemma entry_run:
  assumes "m_alloc md (ops s)"
  shows "run_state (a9g_init_thread_entry md found tid_ok) s =
    (let v = after_loop md s; x = after_info md found s in
     case fst v of
       Inl e \<Rightarrow> (Inl e, snd v)
     | Inr result \<Rightarrow>
         if result = 0
         then case fst x of
             Inl e \<Rightarrow> (Inl e, snd x)
           | Inr c \<Rightarrow> (Inr (), if tid_ok then (snd x)\<lparr>ops := ops (snd x) @ [StartThread ''link'']\<rparr> else snd x)
         else (Inr (), (snd v)\<lparr>ops := ops (snd v) @ [DelResp], is_init := False, nd := (nd (snd v))\<lparr>nd_up := False\<rparr>\<rparr>))"
  using assms
  by (simp add: a9g_init_thread_entry_def atm_bind create_run emit_run set_runs a9g_netdev_check_link_status_def
      after_loop_def after_info_def Let_def split: sum.splits)

lemma after_loop_trace: "\<exists>es. ops (snd (after_loop md s)) = ops s @ es \<and> attempts es \<le> 5 \<and>
   (\<forall>n. at_run (es @ [DelResp]) (n, False, 0) = Some (n, False, 0))"
proof -
  let ?u = "s\<lparr>ops := ops s @ [NewResp 128 0 300 True]\<rparr>"
  obtain es where e: "ops (snd (after_loop md s)) = ops ?u @ es" "\<forall>q. has_resp q \<longrightarrow> at_run es q = Some q"
    using loop_steady [of 5 md None 0] unfolding after_loop_def emits_defs by blast
  have "attempts es \<le> 5"
    using loop_attempts [of 5 md None 0] e(1) unfolding after_loop_def attempts_at_most_def emits_def by (metis same_append_eq)
  then show ?thesis using e
    by (intro exI [of _ "NewResp 128 0 300 True # es"]) (simp add: at_run_append has_resp_def)
qed

lemma entry_outcome:
  assumes "m_alloc md (ops s)" "fst (run_state (a9g_init_thread_entry md True tid_ok) s) = Inr ()"
  defines "t \<equiv> snd (run_state (a9g_init_thread_entry md True tid_ok) s)"
  shows "is_init t = nd_up (nd t) \<and> (\<exists>es. ops t = ops s @ es \<and> attempts es \<le> 5 \<and> at_run es (n, False, 0) = Some (n, False, 0))"
proof -
  note run = entry_run [OF assms(1), of True tid_ok]
  obtain result where r: "fst (after_loop md s) = Inr result" using assms(2) run by (auto simp: Let_def split: sum.splits)
  obtain es where e: "ops (snd (after_loop md s)) = ops s @ es" "attempts es \<le> 5"
      "\<forall>n. at_run (es @ [DelResp]) (n, False, 0) = Some (n, False, 0)" using after_loop_trace by blast
  show ?thesis
  proof (cases "result = 0")
    case True
    then obtain c where c: "fst (after_info md True s) = Inr c" using assms(2) run r by (auto simp: Let_def split: sum.splits)
    let ?w = "(snd (after_loop md s))\<lparr>ops := ops (snd (after_loop md s)) @ [DelResp], is_init := True\<rparr>"
    obtain fs where f: "ops (snd (after_info md True s)) = ops ?w @ fs" "attempts fs = 0" "is_init (snd (after_info md True s))"
        "nd_up (nd (snd (after_info md True s)))" "\<forall>q. at_run fs q = Some q"
      using set_info_ok [of md ?w c] c unfolding after_info_def by auto
    have "t = (if tid_ok then (snd (after_info md True s))\<lparr>ops := ops (snd (after_info md True s)) @ [StartThread ''link'']\<rparr>
        else snd (after_info md True s))" unfolding t_def run by (simp add: r True c Let_def)
    moreover have "at_run (es @ DelResp # fs @ g) (n, False, 0) = Some (n, False, 0)" if "g = [] \<or> g = [StartThread ''link'']" for g
      using that e(3) f(5) at_run_append [of "es @ [DelResp]" "fs @ g"] at_run_append [of fs g] by auto
    ultimately show ?thesis using e(1,2) f
      by (intro conjI exI [of _ "es @ DelResp # fs @ (if tid_ok then [StartThread ''link''] else [])"])
        (auto simp: attempts_append)
  next
    case False
    then have "t = (snd (after_loop md s))\<lparr>ops := ops (snd (after_loop md s)) @ [DelResp], is_init := False,
        nd := (nd (snd (after_loop md s)))\<lparr>nd_up := False\<rparr>\<rparr>" unfolding t_def run by (simp add: r Let_def)
    then show ?thesis using e by (auto intro!: exI [of _ "es @ [DelResp]"] simp: attempts_append)
  qed
qed

section \<open>A modem that answers\<close>

lemma answersD:
  assumes "answers md oper imei ip"
  shows "m_alloc md h" "m_exec md h = 0" "m_wait md h = 0" "m_line md (h @ [GetLine ''+CCID:''])"
    "\<not> m_line md (h @ [GetLine ''ERROR''])" "m_text md (h @ [ParseKw ''+CREG:'']) = Some (bytes ''1,1'')"
    "m_text md (h @ [ParseKw ''OK'']) = Some (bytes ''OK'')" "m_text md (h @ [ParseKw ''+CSQ:'']) = Some (bytes ''31,0'')"
    "m_text md (h @ [ParseKw ''+COPS:'']) = Some oper" "m_text md (h @ [ParseLine 2]) = Some imei"
    "m_text md (h @ [ParseKw ''.'']) = Some ip" "m_num md (h @ [ParseKw ''+CIPMUX:'']) = Some 0"
    "m_num md (h @ [ParseKw ''+GPS:'']) = Some 0"
  using assms unfolding answers_def by simp_all

lemma ends_cmd:
  assumes "answers md oper imei ip"
  shows "ends (AT_SEND_CMD md q l t c) (Inr ())"
  using answersD(2) [OF assms] by (simp add: ends_def AT_SEND_CMD_def atm_bind emit_run exec_run Let_def)

lemma ends_text:
  assumes "\<And>h. m_text md (h @ [ParseKw k]) = Some u"
  shows "ends (parse_text md k n old) (if length u < n then Inr u else Inl (Fault OutOfBounds))"
  using assms by (simp add: ends_def parse_text_def atm_bind emit_run ask_run)

lemma ends_num:
  assumes "\<And>h. m_num md (h @ [ParseKw k]) = Some v"
  shows "ends (lift_am (parse_num md k old)) (Inr (Some v))"
  using assms by (simp add: ends_def parse_num_def lift_am_def atm_bind emit_run ask_run)

lemma ends_line:
  assumes "\<And>h. m_line md (h @ [GetLine k]) = b"
  shows "ends (lift_am (get_line md k)) (Inr b)"
  using assms by (simp add: ends_def get_line_def lift_am_def atm_bind emit_run ask_run)

lemma ends_try:
  assumes "answers md oper imei ip"
  shows "ends (lift_am (try_cmd (Suc n) md c)) (Inr ())"
  using answersD(2) [OF assms] by (simp add: ends_def lift_am_def atm_bind emit_run exec_run Let_def)

lemma ends_restart: "ends (lift_am (restart_wait i)) (Inr ())"
  by (rule ends_lift) (simp add: ends_def)

lemma ends_network:
  assumes "answers md oper imei ip"
  shows "ends (init_network md q) (Inr (bytes ''31,0''))"
proof -
  note a = answersD [OF assms] and c = ends_cmd [OF assms]
  have l: "ends (lift_am (get_line md ''+CCID:'')) (Inr True)" using a(4) by (intro ends_line) simp
  have t: "ends (parse_text md ''+CREG:'' 10 p) (Inr (bytes ''1,1''))" "ends (parse_text md ''OK'' 10 p) (Inr (bytes ''OK''))"
      "ends (parse_text md ''+CSQ:'' 10 p) (Inr (bytes ''31,0''))" for p
    using ends_text [OF a(6), of 10 p] ends_text [OF a(7), of 10 p] ends_text [OF a(8), of 10 p] by simp_all
  have 1: "ends (ccid_loop (Suc n) md q) (Inr ())" for n
    unfolding ccid_loop.simps by (rule ends_next [OF c], rule ends_next [OF l]) (simp add: ends_return)
  have 2: "ends (creg_loop (Suc n) i md q p) (Inr (bytes ''1,1''))" for n i p
    unfolding creg_loop.simps by (rule ends_next [OF c], rule ends_next [OF t(1)]) (simp add: ends_return)
  have 3: "ends (cgreg_loop (Suc n) md q p) (Inr (bytes ''OK''))" for n p
    unfolding cgreg_loop.simps
    by (rule ends_next [OF ends_try [OF assms, of 4, simplified]], rule ends_next [OF c], rule ends_next [OF ends_emit_lift],
        rule ends_next [OF c], rule ends_next [OF ends_emit_lift], rule ends_next [OF t(2)]) (simp add: ends_return)
  have 4: "ends (csq_loop (Suc n) md q p) (Inr (bytes ''31,0''))" for n p
    unfolding csq_loop.simps by (rule ends_next [OF c], rule ends_next [OF t(3)]) (simp add: ends_return)
  have n: "ends (ccid_loop 10 md q) (Inr ())" "ends (creg_loop 10 0 md q []) (Inr (bytes ''1,1''))"
      "ends (cgreg_loop 20 md q p) (Inr (bytes ''OK''))" "ends (csq_loop 10 md q p) (Inr (bytes ''31,0''))" for p
    using 1 [of 9] 2 [of 9 0 "[]"] 3 [of 19 p] 4 [of 9 p] by (simp_all only: eval_nat_numeral BitM.simps numeral_One)
  show ?thesis unfolding init_network_def
    by (rule ends_next [OF n(1)], rule ends_next [OF c], rule ends_next [OF ends_restart],
        rule ends_next [OF ends_emit_lift], rule ends_next [OF n(2)],
        rule ends_next [OF ends_try [OF assms, of 4, simplified]], rule ends_next [OF n(3)], rule n(4))
qed

lemma ends_services:
  assumes "answers md oper imei ip"
  shows "ends (init_services md q p) (if length oper < 10 then Inr (Some 0) else Inl (Fault OutOfBounds))"
proof -
  note a = answersD [OF assms] and c = ends_cmd [OF assms]
  have z: "ends (if_zero md (Some 0) t cmd) (Inr ())" for t cmd using c by (simp add: if_zero_def)
  have n: "ends (lift_am (parse_num md ''+CIPMUX:'' q)) (Inr (Some 0))" "ends (lift_am (parse_num md ''+GPS:'' q')) (Inr (Some 0))" for q'
    using a(12,13) by (intro ends_num; simp)+
  have e: "ends (lift_am (get_line md ''ERROR'')) (Inr False)" using a(5) by (intro ends_line) simp
  note t = ends_text [OF a(9), of 10 p]
  have o: "ends (cops_step md q' p) (if length oper < 10 then Inr oper else Inl (Fault OutOfBounds))" for q'
  proof (cases "length oper < 10")
    case True
    have "ends (if oper = bytes ''CHINA MOBILE'' then AT_SEND_CMD md q' 0 300 (cstt ''CMNET'')
        else if oper = bytes ''CHN-UNICOM'' then AT_SEND_CMD md q' 0 300 (cstt ''UNINET'')
        else if oper = bytes ''CHN-CT'' then AT_SEND_CMD md q' 0 300 (cstt ''CTNET'')
        else State_Monad.return (Inr ())) (Inr ())" using c ends_return by auto
    then show ?thesis unfolding cops_step_def using True t
      by (auto intro!: ends_next [OF c] ends_next [where m = "parse_text md ''+COPS:'' 10 p" and x = oper]
          intro: ends_next ends_return)
  next
    case False
    then show ?thesis unfolding cops_step_def using t by (auto intro!: ends_next [OF c] intro: ends_stop)
  qed
  show ?thesis
  proof (cases "length oper < 10")
    case True
    then have "ends (cops_step md q' p) (Inr oper)" for q' using o by simp
    then show ?thesis unfolding init_services_def
      using True by (simp, intro ends_next [OF c] ends_next [OF n(1)] ends_next [OF z] ends_next [OF e] ends_next [where x = oper])
        (simp_all add: ends_next [OF c] ends_next [OF n(2)] ends_next [OF z] ends_return)
  next
    case False
    then have "ends (cops_step md q' p) (Inl (Fault OutOfBounds))" for q' using o by simp
    then show ?thesis unfolding init_services_def
      using False by (simp, intro ends_next [OF c] ends_next [OF n(1)] ends_next [OF z] ends_stop)
  qed
qed

lemma ends_attempt:
  assumes "answers md oper imei ip"
  shows "ends (init_attempt md q) (if length oper < 10 then Inr (Some 0) else Inl (Fault OutOfBounds))"
proof -
  have w: "ends (lift_am (do { emit_op (Delay 500); emit_op (Power True); emit_op (Delay 1000);
      emit_op (WaitConnect 5000); ask (m_wait md) })) (Inr 0)"
    using answersD(3) [OF assms] by (simp add: ends_def lift_am_def atm_bind emit_run ask_run)
  show ?thesis unfolding init_attempt_def
    by (rule ends_next [OF w], simp,
        intro conjI impI ends_next [OF ends_cmd [OF assms]] ends_next [OF ends_network [OF assms]])
      (use ends_services [OF assms] in \<open>simp_all split: if_splits\<close>)
qed

lemma ends_loop:
  assumes "answers md oper imei ip"
  shows "ends (init_loop (Suc n) md q r) (if length oper < 10 then Inr 0 else Inl OutOfBounds)"
proof -
  have "ends (init_attempt md q) (if length oper < 10 then Inr (Some 0) else Inl (Fault OutOfBounds))"
    by (rule ends_attempt [OF assms])
  then show ?thesis unfolding init_loop.simps by (rule ends_bind) (simp add: ends_return)
qed

text \<open>What the network information ends with, and what it stores.\<close>

lemma aton_cases:
  obtains a where "netdev_ip4addr_aton (ip @ [0]) = Inr (Some a)" | "netdev_ip4addr_aton (ip @ [0]) = Inr None"
  using inet_aton_ok [of "ip @ [0]"] by (auto simp: cstring_def) (metis option.exhaust)

definition info_end :: "mem \<Rightarrow> mem \<Rightarrow> unit res" where
  "info_end imei ip =
     (if 15 \<le> length imei \<or> 16 \<le> length ip then Inl OutOfBounds
      else case netdev_ip4addr_aton (ip @ [0]) of Inr (Some a) \<Rightarrow> Inr () | _ \<Rightarrow> Inl UninitRead)"

lemma info_run:
  assumes "answers md oper imei ip"
  shows "fst (run_state (set_info_body md) s) = (case info_end imei ip of Inl f \<Rightarrow> Inl (Fault f) | Inr u \<Rightarrow> Inr ())"
    "length imei < 15 \<Longrightarrow> length ip < 16 \<Longrightarrow> netdev_ip4addr_aton (ip @ [0]) = Inr (Some a) \<Longrightarrow>
     nd (snd (run_state (set_info_body md) s)) = (nd s)\<lparr>hwaddr := hwaddr_loop 8 0 0 (imei @ replicate (15 - length imei) 0), nd_ip := a\<rparr>"
proof -
  note a = answersD [OF assms]
  have t: "m_text md (h @ [x, ParseLine 2]) = Some imei" for h x using a(10) [of "h @ [x]"] by simp
  have u: "m_text md (h @ [w, x, y, z, ParseKw ''.'']) = Some ip" for h w x y z
    using a(11) [of "h @ [w, x, y, z]"] by simp
  note d = set_info_body_def store_ip_def next_run atm_bind exec_run emit_run ask_run set_runs lift_am_def stop_am_def Let_def a(2) t u
  show "fst (run_state (set_info_body md) s) = (case info_end imei ip of Inl f \<Rightarrow> Inl (Fault f) | Inr u \<Rightarrow> Inr ())"
    by (rule aton_cases [of ip]) (simp_all add: d info_end_def del: hwaddr_loop.simps)
  show "nd (snd (run_state (set_info_body md) s)) = (nd s)\<lparr>hwaddr := hwaddr_loop 8 0 0 (imei @ replicate (15 - length imei) 0), nd_ip := a\<rparr>"
    if "length imei < 15" "length ip < 16" "netdev_ip4addr_aton (ip @ [0]) = Inr (Some a)"
    using that by (simp add: d del: hwaddr_loop.simps)
qed

lemma set_info_run:
  assumes "answers md oper imei ip"
  shows "fst (run_state (a9g_netdev_set_info md True) s) = (case info_end imei ip of Inl f \<Rightarrow> Inl f | Inr u \<Rightarrow> Inr 0)"
    "length imei < 15 \<Longrightarrow> length ip < 16 \<Longrightarrow> netdev_ip4addr_aton (ip @ [0]) = Inr (Some a) \<Longrightarrow>
     nd (snd (run_state (a9g_netdev_set_info md True) s)) =
      (nd s)\<lparr>nd_up := True, nd_link := True, nd_dhcp := True,
        hwaddr := hwaddr_loop 8 0 0 (imei @ replicate (15 - length imei) 0), nd_ip := a\<rparr>"
proof -
  have r: "run_state (a9g_netdev_set_info md True) s =
      (let v = run_state (set_info_body md)
         (s\<lparr>nd := (nd s)\<lparr>nd_up := True, nd_link := True, nd_dhcp := True\<rparr>, ops := ops s @ [NewResp 32 0 300 True]\<rparr>)
       in case code_of (fst v) of Inl e \<Rightarrow> (Inl e, snd v) | Inr c \<Rightarrow> (Inr c, (snd v)\<lparr>ops := ops (snd v) @ [DelResp]\<rparr>))"
    using answersD(1) [OF assms]
    by (simp add: a9g_netdev_set_info_def atm_bind set_runs create_run emit_run Let_def split: sum.splits)
  show "fst (run_state (a9g_netdev_set_info md True) s) = (case info_end imei ip of Inl f \<Rightarrow> Inl f | Inr u \<Rightarrow> Inr 0)"
    unfolding r Let_def info_run(1) [OF assms] by (simp add: code_of_def split: sum.splits)
  show "nd (snd (run_state (a9g_netdev_set_info md True) s)) =
      (nd s)\<lparr>nd_up := True, nd_link := True, nd_dhcp := True,
        hwaddr := hwaddr_loop 8 0 0 (imei @ replicate (15 - length imei) 0), nd_ip := a\<rparr>"
    if "length imei < 15" "length ip < 16" "netdev_ip4addr_aton (ip @ [0]) = Inr (Some a)"
  proof -
    have "info_end imei ip = Inr ()" using that by (simp add: info_end_def)
    then show ?thesis using info_run(2) [OF assms that] unfolding r Let_def info_run(1) [OF assms]
      by (simp add: code_of_def del: hwaddr_loop.simps)
  qed
qed

lemma entry_answered:
  assumes "answers md oper imei ip"
  shows "if length oper < 10 \<and> length imei < 15 \<and> length ip < 16
    then case netdev_ip4addr_aton (ip @ [0]) of
        Inr (Some a) \<Rightarrow> fst (run_state (a9g_init_thread_entry md True tid_ok) s) = Inr () \<and>
          is_init (snd (run_state (a9g_init_thread_entry md True tid_ok) s)) \<and>
          nd_up (nd (snd (run_state (a9g_init_thread_entry md True tid_ok) s))) \<and>
          nd_ip (nd (snd (run_state (a9g_init_thread_entry md True tid_ok) s))) = a
      | _ \<Rightarrow> fst (run_state (a9g_init_thread_entry md True tid_ok) s) = Inl UninitRead
    else fst (run_state (a9g_init_thread_entry md True tid_ok) s) = Inl OutOfBounds"
proof -
  note m = answersD(1) [OF assms, of "ops s"]
  note run = entry_run [OF m, of True tid_ok]
  have "Suc 4 = 5" by simp
  then have l: "fst (after_loop md s) = (if length oper < 10 then Inr 0 else Inl OutOfBounds)"
    using ends_loop [OF assms, of 4 None 0] unfolding ends_def after_loop_def by simp
  let ?w = "(snd (after_loop md s))\<lparr>ops := ops (snd (after_loop md s)) @ [DelResp], is_init := True\<rparr>"
  note i = set_info_run [OF assms, where s = ?w, folded after_info_def]
  show ?thesis
  proof (cases "length oper < 10 \<and> length imei < 15 \<and> length ip < 16")
    case True
    show ?thesis
    proof (rule aton_cases [of ip])
      fix a
      assume a: "netdev_ip4addr_aton (ip @ [0]) = Inr (Some a)"
      then have x: "fst (after_info md True s) = Inr 0" using i(1) True by (simp add: info_end_def)
      then have "is_init (snd (after_info md True s))"
        using set_info_ok [of md ?w 0, folded after_info_def] by auto
      then show ?thesis using True l x i(2) [OF _ _ a] a by (simp add: run Let_def)
    next
      assume n: "netdev_ip4addr_aton (ip @ [0]) = Inr None"
      then have "fst (after_info md True s) = Inl UninitRead" using i(1) True by (simp add: info_end_def)
      then show ?thesis using True l n by (simp add: run Let_def)
    qed
  next
    case False
    then show ?thesis using l i(1) by (auto simp: run Let_def info_end_def)
  qed
qed

text \<open>A text that is an address, and one that is none.\<close>

lemma aton_text: "netdev_ip4addr_aton (bytes ''10.0.0.2'' @ [0]) = Inr (Some 0x0200000A)"
  by code_simp

lemma aton_none: "netdev_ip4addr_aton (bytes ''ERROR.'' @ [0]) = Inr None"
  by code_simp

lemma answering_answers: "answers (answering_modem oper imei ip) oper imei ip"
  by (simp add: answers_def answering_modem_def good_modem_def)

section \<open>Properties\<close>

text \<open>
  C40: when there is memory for its response, the bring-up makes at most five attempts, whatever the
  modem answers; unless it faults, it ends with the device marked ready exactly if its interface is
  up, and gives back every response it took.
\<close>

theorem bringup_outcome:
  assumes "m_alloc md (ops s)" "fst (run_state (a9g_init_thread_entry md True tid_ok) s) = Inr ()"
    "t = snd (run_state (a9g_init_thread_entry md True tid_ok) s)"
  shows "is_init t = nd_up (nd t) \<and>
    (\<exists>es. ops t = ops s @ es \<and> attempts es \<le> 5 \<and> at_run es (n, False, 0) = Some (n, False, 0))"
  using entry_outcome [OF assms(1,2)] assms(3) by simp

theorem bringup_outcome_witness:
  "(let t = snd (run_state (a9g_init_thread_entry (answering_modem (bytes ''CHN-CT'') (bytes ''1'') (bytes ''10.0.0.2'')) True True) idle_dev)
    in is_init t = nd_up (nd t))"
proof -
  let ?md = "answering_modem (bytes ''CHN-CT'') (bytes ''1'') (bytes ''10.0.0.2'')"
  have "fst (run_state (a9g_init_thread_entry ?md True True) idle_dev) = Inr ()"
    using entry_answered [OF answering_answers, of "bytes ''CHN-CT''" "bytes ''1''" "bytes ''10.0.0.2''" True idle_dev]
    by (simp add: aton_text del: bytes_append) (simp add: aton_text [simplified])
  from bringup_outcome [OF answersD(1) [OF answering_answers] this refl] show ?thesis unfolding Let_def by blast
qed

text \<open>
  C11: a modem that is registered, gives every command its positive answer, and answers the requests for
  the operator, its number and its address with \<open>oper\<close>, \<open>imei\<close> and \<open>ip\<close> (\<open>answers\<close>).  If the name of the
  operator is shorter than 10 characters, the number shorter than 15 and the address shorter than 16,
  the bring-up ends with the device ready and the interface up with that address, provided \<open>inet_aton\<close> takes
  the text for one; if it does not, an address that was not assigned is read.  If one of them is
  longer, its buffer is written past the end.  The number of a modem has 15 digits.
\<close>

theorem bringup_answered:
  assumes "answers md oper imei ip"
  shows "if length oper < 10 \<and> length imei < 15 \<and> length ip < 16
    then case netdev_ip4addr_aton (ip @ [0]) of
        Inr (Some a) \<Rightarrow> fst (run_state (a9g_init_thread_entry md True tid_ok) s) = Inr () \<and>
          is_init (snd (run_state (a9g_init_thread_entry md True tid_ok) s)) \<and>
          nd_up (nd (snd (run_state (a9g_init_thread_entry md True tid_ok) s))) \<and>
          nd_ip (nd (snd (run_state (a9g_init_thread_entry md True tid_ok) s))) = a
      | _ \<Rightarrow> fst (run_state (a9g_init_thread_entry md True tid_ok) s) = Inl UninitRead
    else fst (run_state (a9g_init_thread_entry md True tid_ok) s) = Inl OutOfBounds"
  using assms by (rule entry_answered)

theorem bringup_answered_witness:
  "(let f = (\<lambda>oper imei ip. run_state (a9g_init_thread_entry (answering_modem (bytes oper) (bytes imei) (bytes ip)) True True) idle_dev)
    in fst (f ''CHN-CT'' ''86123456789012'' ''10.0.0.2'') = Inr () \<and>
       nd_ip (nd (snd (f ''CHN-CT'' ''86123456789012'' ''10.0.0.2''))) = 0x0200000A \<and>
       fst (f ''CHN-CT'' ''86123456789012'' ''ERROR.'') = Inl UninitRead \<and>
       fst (f ''CHN-CT'' ''861234567890123'' ''10.0.0.2'') = Inl OutOfBounds \<and>
       fst (f ''CHINA MOBILE'' ''86123456789012'' ''10.0.0.2'') = Inl OutOfBounds)"
  using bringup_answered [OF answering_answers, of "bytes ''CHN-CT''" "bytes ''86123456789012''" "bytes ''10.0.0.2''" True idle_dev]
    bringup_answered [OF answering_answers, of "bytes ''CHN-CT''" "bytes ''86123456789012''" "bytes ''ERROR.''" True idle_dev]
    bringup_answered [OF answering_answers, of "bytes ''CHN-CT''" "bytes ''861234567890123''" "bytes ''10.0.0.2''" True idle_dev]
    bringup_answered [OF answering_answers, of "bytes ''CHINA MOBILE''" "bytes ''86123456789012''" "bytes ''10.0.0.2''" True idle_dev]
  unfolding Let_def aton_text aton_none by (simp del: bytes_Cons bytes_append)

text \<open>
  Bringing the interface up marks the device ready as soon as the thread is started, and even when it
  could not be.
\<close>

theorem set_up_marks_ready:
  "is_init (snd (run_state (a9g_netdev_set_up True tid_ok) s)) \<and> fst (run_state (a9g_netdev_set_up True tid_ok) s) = 0"
  by (simp add: a9g_netdev_set_up_def a9g_net_init_def atm_bind set_runs emit_run)

text \<open>
  Resolving a name for a ping stores the number of the answer through the null pointer as soon as the
  answer has one.
\<close>

theorem ping_resolve_null:
  assumes "m_alloc md (ops s)" "\<And>h. 0 \<le> m_exec md h" "\<And>h. m_line md h" "\<And>h. m_num md h \<noteq> None"
  shows "fst (run_state (a9g_ping_domain_resolve md name) s) = Inl NullDeref"
proof -
  have "\<not> m_exec md h < 0" for h using assms(2) [of h] by simp
  then show ?thesis using assms(1,3,4)
    by (simp add: a9g_ping_domain_resolve_def atm_bind create_run exec_run emit_run ask_run Let_def)
qed

end
