(* ===== verification/At_Client.thy ===== *)
theory At_Client
  imports A9g_Urc
begin

text \<open>
  RT-Thread's AT client below the driver of the modem: \<open>at_client.c\<close> and the output of \<open>at_utils.c\<close>.

  A caller has a response object, sends a command and waits on the semaphore \<open>resp_notice\<close>.  The parser
  thread cuts what the modem sends into lines; a line that is no report goes into the response object
  of the call in progress, and the line that ends the response clears \<open>client->resp\<close> and releases the
  semaphore.  The lock of the client lets one call run at a time.  \<open>A9g_Socket\<close> sees all this as the
  functions of the record \<open>modem\<close>.
\<close>

section \<open>Response objects\<close>

text \<open>\<open>rbuf\<close> is \<open>None\<close> when the buffer is the null pointer.\<close>

record at_response =
  rbuf :: "mem option"
  buf_size :: nat
  buf_len :: nat
  line_num :: nat
  line_counts :: nat
  resp_timeout :: int

text \<open>\<open>resp_ok\<close> and \<open>buf_ok\<close>: there is memory for the object and for the buffer.\<close>

definition at_create_response :: "bool \<Rightarrow> bool \<Rightarrow> nat \<Rightarrow> nat \<Rightarrow> int \<Rightarrow> at_response option" where
  "at_create_response resp_ok buf_ok bsize n t =
     (if resp_ok \<and> buf_ok
      then Some \<lparr>rbuf = Some (replicate bsize 0), buf_size = bsize, buf_len = 0, line_num = n, line_counts = 0, resp_timeout = t\<rparr>
      else None)"

text \<open>What \<open>rt_realloc\<close> gives: the old bytes as far as they fit, then \<open>junk\<close>.\<close>

definition realloc :: "bool \<Rightarrow> (nat \<Rightarrow> u8) \<Rightarrow> nat \<Rightarrow> mem option \<Rightarrow> mem option" where
  "realloc ok junk n old =
     (if \<not> ok then None
      else let b = (case old of None \<Rightarrow> [] | Some b \<Rightarrow> b) in Some (take n b @ map junk [length b..<n]))"

text \<open>The pointer returned (whether it is the object) and the object.\<close>

definition at_resp_set_info :: "bool \<Rightarrow> (nat \<Rightarrow> u8) \<Rightarrow> nat \<Rightarrow> nat \<Rightarrow> int \<Rightarrow> at_response \<Rightarrow> bool \<times> at_response" where
  "at_resp_set_info ok junk bsize n t r =
     (let r1 = (if buf_size r \<noteq> bsize then r\<lparr>buf_size := bsize, rbuf := realloc ok junk bsize (rbuf r)\<rparr> else r)
      in if buf_size r \<noteq> bsize \<and> rbuf r1 = None then (False, r1)
         else (True, r1\<lparr>line_num := n, resp_timeout := t\<rparr>))"

text \<open>\<open>strlen(p)\<close>, and \<open>p\<close> behind the terminator.\<close>

fun next_string :: "mem \<Rightarrow> mem res" where
  "next_string [] = Inl OutOfBounds"
| "next_string (c # cs) = (if c = 0 then Inr cs else next_string cs)"

text \<open>The loop of \<open>at_resp_get_line\<close> that goes over \<open>n\<close> lines.\<close>

fun skip_lines :: "nat \<Rightarrow> mem \<Rightarrow> mem res" where
  "skip_lines 0 p = Inr p"
| "skip_lines (Suc n) p = and_then (next_string p) (skip_lines n)"

definition resp_block :: "at_response \<Rightarrow> mem res" where
  "resp_block r = (case rbuf r of None \<Rightarrow> Inl NullDeref | Some b \<Rightarrow> Inr b)"

definition at_resp_get_line :: "at_response \<Rightarrow> nat \<Rightarrow> (mem option) res" where
  "at_resp_get_line r resp_line =
     (if resp_line > line_counts r \<or> resp_line = 0 then Inr None
      else and_then (resp_block r) (\<lambda>b. and_then (skip_lines (resp_line - 1) b) (\<lambda>p. Inr (Some p))))"

fun find_line :: "mem \<Rightarrow> nat \<Rightarrow> mem \<Rightarrow> (mem option) res" where
  "find_line keyword 0 p = Inr None"
| "find_line keyword (Suc n) p =
     and_then (strstr keyword p) (\<lambda>q.
       if q \<noteq> None then Inr (Some p) else and_then (next_string p) (find_line keyword n))"

definition at_resp_get_line_by_kw :: "at_response \<Rightarrow> mem \<Rightarrow> (mem option) res" where
  "at_resp_get_line_by_kw r keyword =
     (if line_counts r = 0 then Inr None else and_then (resp_block r) (find_line keyword (line_counts r)))"

text \<open>\<open>scan\<close> is \<open>vsscanf\<close> with the format and the arguments of the call.\<close>

definition at_resp_parse_line_args :: "(mem \<Rightarrow> int res) \<Rightarrow> at_response \<Rightarrow> nat \<Rightarrow> int res" where
  "at_resp_parse_line_args scan r resp_line =
     and_then (at_resp_get_line r resp_line) (\<lambda>p. case p of None \<Rightarrow> Inr (- 1) | Some q \<Rightarrow> scan q)"

definition at_resp_parse_line_args_by_kw :: "(mem \<Rightarrow> int res) \<Rightarrow> at_response \<Rightarrow> mem \<Rightarrow> int res" where
  "at_resp_parse_line_args_by_kw scan r keyword =
     and_then (at_resp_get_line_by_kw r keyword) (\<lambda>p. case p of None \<Rightarrow> Inr (- 1) | Some q \<Rightarrow> scan q)"

section \<open>The client\<close>

datatype at_resp_status = AT_RESP_OK | AT_RESP_ERROR | AT_RESP_TIMEOUT | AT_RESP_BUFF_FULL

text \<open>
  \<open>awaits\<close> says that \<open>client->resp\<close> is not null; it is then the object \<open>cl_resp\<close>, which stays the object
  of the caller when the pointer is cleared.  \<open>cli\<close> is \<open>status == AT_STATUS_CLI\<close>; \<open>written\<close> is what went to
  the device; \<open>resp_notice\<close> is the value of the semaphore.
\<close>

record at_client =
  cli :: bool
  end_sign :: u8
  awaits :: bool
  cl_resp :: at_response
  resp_status :: at_resp_status
  resp_notice :: nat
  written :: mem

definition at_obj_set_end_sign :: "u8 \<Rightarrow> at_client \<Rightarrow> at_client" where
  "at_obj_set_end_sign ch c = c\<lparr>end_sign := ch\<rparr>"

text \<open>
  \<open>at_vprintf\<close> formats into \<open>send_buf\<close> and writes as many bytes as the whole text has: from 512 bytes on
  the terminator takes the place of the last one, above that the bytes behind the buffer are read.
\<close>

definition AT_CMD_MAX_LEN :: nat where "AT_CMD_MAX_LEN = 512"

definition at_vprintf :: "mem \<Rightarrow> mem res" where
  "at_vprintf txt =
     (if length txt < AT_CMD_MAX_LEN then Inr txt
      else if length txt = AT_CMD_MAX_LEN then Inr (butlast txt @ [0])
      else Inl OutOfBounds)"

definition at_vprintfln :: "mem \<Rightarrow> mem res" where
  "at_vprintfln txt = and_then (at_vprintf txt) (\<lambda>out. Inr (out @ crlf))"

section \<open>The response branch of the parser\<close>

definition memcmp_eq :: "mem \<Rightarrow> mem \<Rightarrow> bool res" where
  "memcmp_eq t m = (if length m < length t then Inl OutOfBounds else Inr (take (length t) m = t))"

text \<open>\<open>rt_memcpy\<close> into the response buffer and the counters behind it.\<close>

definition resp_put :: "mem \<Rightarrow> at_response \<Rightarrow> at_response res" where
  "resp_put l r =
     and_then (resp_block r) (\<lambda>b.
       if length b < buf_len r + length l then Inl OutOfBounds
       else Inr (r\<lparr>rbuf := Some (take (buf_len r) b @ l @ drop (buf_len r + length l) b),
                   buf_len := buf_len r + length l, line_counts := line_counts r + 1\<rparr>))"

text \<open>What the line in \<open>recv_line_buf\<close> says about the response: \<open>None\<close> is \<open>continue\<close>.\<close>

definition resp_end :: "mem \<Rightarrow> at_response \<Rightarrow> (at_resp_status option) res" where
  "resp_end data r =
     and_then (memcmp_eq (bytes ''OK'') data) (\<lambda>ok.
       if ok \<and> line_num r = 0 then Inr (Some AT_RESP_OK)
       else and_then (strstr (bytes ''ERROR'') data) (\<lambda>e.
            and_then (if e \<noteq> None then Inr True else memcmp_eq (bytes ''FAIL'') data) (\<lambda>bad.
              Inr (if bad then Some AT_RESP_ERROR
                   else if line_counts r = line_num r \<and> line_num r \<noteq> 0 then Some AT_RESP_OK
                   else None))))"

text \<open>The last byte of the line is overwritten by the terminator.\<close>

definition client_response :: "nat \<Rightarrow> mem \<Rightarrow> at_client \<Rightarrow> at_client res" where
  "client_response bufsz line c =
     (let l = butlast line @ [0]; r = cl_resp c
      in and_then (if buf_len r + length line < buf_size r
                   then and_then (resp_put l r) (\<lambda>r'. Inr (c\<lparr>cl_resp := r'\<rparr>))
                   else Inr (c\<lparr>resp_status := AT_RESP_BUFF_FULL\<rparr>)) (\<lambda>c1.
         and_then (resp_end (l @ replicate (bufsz - length line) 0) (cl_resp c1)) (\<lambda>e.
           Inr (case e of None \<Rightarrow> c1
                | Some st \<Rightarrow> c1\<lparr>resp_status := st, awaits := False, resp_notice := resp_notice c1 + 1\<rparr>))))"

text \<open>A line that is no report.\<close>

definition parse_line :: "nat \<Rightarrow> mem \<Rightarrow> at_client \<Rightarrow> at_client res" where
  "parse_line bufsz line c = (if awaits c then client_response bufsz line c else Inr c)"

fun parse_lines :: "nat \<Rightarrow> mem list \<Rightarrow> at_client \<Rightarrow> at_client res" where
  "parse_lines bufsz [] c = Inr c"
| "parse_lines bufsz (l # ls) c = and_then (parse_line bufsz l c) (parse_lines bufsz ls)"

text \<open>One turn of the loop of \<open>client_parser\<close> on what the modem sends, reports included.\<close>

definition client_turn ::
  "nat \<Rightarrow> bool \<Rightarrow> bool \<Rightarrow> at_client \<times> at_dev \<times> mem \<Rightarrow> ((at_client \<times> at_dev \<times> mem) res) option" where
  "client_turn bufsz found mem_ok st =
     (case st of (c, s, rx) \<Rightarrow>
      case readline (end_sign c) bufsz [] 0 False rx of
        None \<Rightarrow> None
      | Some (Inl u, rx') \<Rightarrow> Some (Inr (c, s, rx'))
      | Some (Inr line, rx') \<Rightarrow>
          if get_urc_obj line \<noteq> None
          then map_option (\<lambda>m. and_then m (\<lambda>(s', rx''). Inr (c, s', rx''))) (run_urc bufsz found mem_ok line (s, rx'))
          else Some (and_then (parse_line bufsz line c) (\<lambda>c'. Inr (c', s, rx'))))"

section \<open>Commands\<close>

text \<open>
  \<open>rt_sem_take(client->resp_notice, resp->timeout)\<close> while the lines \<open>ls\<close> come in before the timeout:
  whether the semaphore was taken, the lines that are left, the client.
\<close>

fun wait_resp :: "nat \<Rightarrow> mem list \<Rightarrow> at_client \<Rightarrow> (bool \<times> mem list \<times> at_client) res" where
  "wait_resp bufsz ls c =
     (if resp_notice c \<noteq> 0 then Inr (True, ls, c\<lparr>resp_notice := resp_notice c - 1\<rparr>)
      else case ls of
             [] \<Rightarrow> Inr (False, [], c)
           | l # ls' \<Rightarrow> and_then (parse_line bufsz l c) (wait_resp bufsz ls'))"

declare wait_resp.simps [simp del]

text \<open>
  \<open>at_obj_exec_cmd\<close>; \<open>r\<close> is the response object.  The lines \<open>ls\<close> come in before the timeout, the lines
  \<open>late\<close> after it and before \<open>client->resp\<close> is cleared.  The value is the result, the lines that no
  one has looked at, and the client.
\<close>

definition start_resp :: "at_response \<Rightarrow> at_client \<Rightarrow> at_client" where
  "start_resp r c = c\<lparr>awaits := True, cl_resp := r\<lparr>buf_len := 0, line_counts := 0\<rparr>\<rparr>"

definition at_client_exec ::
  "nat \<Rightarrow> at_response option \<Rightarrow> mem \<Rightarrow> mem list \<Rightarrow> mem list \<Rightarrow> at_client \<Rightarrow> (int \<times> mem list \<times> at_client) res" where
  "at_client_exec bufsz r cmd ls late c =
     (if cli c \<and> r \<noteq> None then Inr (- 7, ls @ late, c)
      else and_then (at_vprintfln cmd) (\<lambda>out.
        let c1 = c\<lparr>resp_status := AT_RESP_OK, written := written c @ out\<rparr>
        in case r of
             None \<Rightarrow> Inr (0, ls @ late, c1\<lparr>awaits := False\<rparr>)
           | Some r1 \<Rightarrow>
               and_then (wait_resp bufsz ls (start_resp r1 c1)) (\<lambda>(taken, rest, c2).
                 if \<not> taken
                 then and_then (parse_lines bufsz late c2) (\<lambda>c3.
                        Inr (- 2, [], c3\<lparr>resp_status := AT_RESP_TIMEOUT, awaits := False\<rparr>))
                 else Inr (if resp_status c2 \<noteq> AT_RESP_OK then - 1 else 0, rest @ late, c2\<lparr>awaits := False\<rparr>))))"

text \<open>
  The loop of \<open>at_client_obj_wait_connect\<close>.  A round is the tick that is read, the lines that come in
  before the counters are reset and those that come in before the timeout of the round.  \<open>None\<close>: the
  loop goes on.
\<close>

fun connect_rounds ::
  "nat \<Rightarrow> u32 \<Rightarrow> u32 \<Rightarrow> (u32 \<times> mem list \<times> mem list) list \<Rightarrow> at_client \<Rightarrow> ((int \<times> mem list \<times> at_client) res) option" where
  "connect_rounds bufsz start limit [] c = None"
| "connect_rounds bufsz start limit ((t, early, ls) # rs) c =
     (case parse_lines bufsz early c of
        Inl e \<Rightarrow> Some (Inl e)
      | Inr c0 \<Rightarrow>
          if t - start > limit then Some (Inr (- 2, ls, c0))
          else case wait_resp bufsz ls (c0\<lparr>cl_resp := (cl_resp c0)\<lparr>buf_len := 0, line_counts := 0\<rparr>,
                                           written := written c0 @ bytes ''AT'' @ crlf\<rparr>) of
                 Inl e \<Rightarrow> Some (Inl e)
               | Inr (taken, rest, c2) \<Rightarrow>
                   if taken then Some (Inr (0, rest, c2)) else connect_rounds bufsz start limit rs c2)"

text \<open>\<open>c\<close> is \<open>None\<close> for the null pointer, which is used before it is compared.\<close>

definition at_client_obj_wait_connect ::
  "nat \<Rightarrow> bool \<Rightarrow> u32 \<Rightarrow> u32 \<Rightarrow> (u32 \<times> mem list \<times> mem list) list \<Rightarrow> at_client option \<Rightarrow>
     ((int \<times> mem list \<times> at_client) res) option" where
  "at_client_obj_wait_connect bufsz mem_ok limit start rounds c =
     (case c of
        None \<Rightarrow> Some (Inl NullDeref)
      | Some c \<Rightarrow>
          (case at_create_response mem_ok mem_ok 64 0 300 of
             None \<Rightarrow> Some (Inr (- 5, [], c))
           | Some r \<Rightarrow>
               map_option (\<lambda>m. and_then m (\<lambda>(result, rest, c1). Inr (result, rest, c1\<lparr>awaits := False\<rparr>)))
                 (connect_rounds bufsz start limit rounds (c\<lparr>awaits := True, cl_resp := r\<rparr>))))"

end
