(* ===== verification/At_Client_Init.thy ===== *)
theory At_Client_Init
  imports At_Client A9g_Device
begin

text \<open>
  The table of AT clients of \<open>at_client.c\<close>: creating a client, finding it, registering the tables of
  reports, and the part of \<open>a9g_init\<close> (\<open>at_device_a9g.c\<close>) and \<open>a9g_socket_init\<close> (\<open>at_socket_a9g.c\<close>)
  that does this for the modem.  The parameters say for what there is memory and what the device
  manager of RT-Thread answers.
\<close>

section \<open>Tables of reports\<close>

type_synonym urc = "mem \<times> mem \<times> urc_handler"

definition device_urc_table :: "urc list" where
  "device_urc_table = [(bytes ''READY'', crlf, UrcLog)]"

definition socket_urc_table :: "urc list" where
  "socket_urc_table =
     [([], bytes ''CONNECT OK'' @ crlf, UrcConnect),
      ([], bytes '',CONNECT FAIL'' @ crlf, UrcConnect),
      ([], bytes '',SEND FAIL'' @ crlf, UrcSend),
      (bytes ''CLOSED:'', crlf, UrcClose),
      (bytes ''+CIPRCV,'', crlf, UrcRecv)]"

text \<open>\<open>urc_table\<close> is \<open>None\<close> for the null pointer; the second component is \<open>urc_table_size\<close>.\<close>

type_synonym urc_tables = "urc list list option \<times> nat"

text \<open>\<open>calloc_ok\<close>, \<open>malloc_ok\<close> and \<open>realloc_ok\<close> say whether the three allocations succeed.\<close>

definition at_obj_set_urc_table ::
  "bool \<Rightarrow> bool \<Rightarrow> bool \<Rightarrow> urc list \<Rightarrow> urc_tables \<Rightarrow> (int \<times> urc_tables) res" where
  "at_obj_set_urc_table calloc_ok malloc_ok realloc_ok new tabs =
     (case tabs of (ts, n) \<Rightarrow>
      if n = 0
      then Inr (if calloc_ok then (0, (Some [new], 1)) else (- 5, (None, n)))
      else if \<not> malloc_ok then Inr (- 5, tabs)
      else case ts of
             None \<Rightarrow> Inl NullDeref
           | Some old \<Rightarrow> Inr (if realloc_ok then (0, (Some (take n old @ [new]), n + 1)) else (- 5, (None, n))))"

text \<open>The two loops of \<open>get_urc_obj\<close>.\<close>

fun find_report :: "mem \<Rightarrow> urc list list \<Rightarrow> urc option" where
  "find_report line [] = None"
| "find_report line (t # ts) = (case find (urc_match line) t of None \<Rightarrow> find_report line ts | Some u \<Rightarrow> Some u)"

definition get_urc_in :: "urc_tables \<Rightarrow> mem \<Rightarrow> urc_handler option" where
  "get_urc_in tabs line =
     (case tabs of (None, n) \<Rightarrow> None | (Some ts, n) \<Rightarrow> map_option (snd \<circ> snd) (find_report line (take n ts)))"

section \<open>Clients\<close>

text \<open>
  An entry of \<open>at_client_table\<close>: the device, once it is there, the tables of reports and whether the
  parser thread runs.  \<open>live\<close> are the objects that were created for clients and not deleted.
\<close>

datatype client_part = LineBuf | Lock | RxNotice | RespNotice | Parser

record entry =
  en_dev :: "string option"
  en_tabs :: urc_tables
  en_runs :: bool

record clients =
  slots :: "entry list"
  live :: "client_part list"

record init_env =
  ie_mem :: "client_part \<Rightarrow> bool"
  ie_found :: bool
  ie_char :: bool
  ie_dma :: int
  ie_int :: int

definition AT_CLIENT_NUM_MAX :: nat where "AT_CLIENT_NUM_MAX = 1"

definition no_entry :: entry where
  "no_entry = \<lparr>en_dev = None, en_tabs = (None, 0), en_runs = False\<rparr>"

definition no_clients :: clients where
  "no_clients = \<lparr>slots = replicate AT_CLIENT_NUM_MAX no_entry, live = []\<rparr>"

text \<open>The objects created until the first for which there is no memory.\<close>

definition created :: "(client_part \<Rightarrow> bool) \<Rightarrow> client_part list" where
  "created ok = takeWhile ok [LineBuf, Lock, RxNotice, RespNotice, Parser]"

text \<open>A failure deletes what was created.\<close>

definition at_client_para_init :: "(client_part \<Rightarrow> bool) \<Rightarrow> int \<times> client_part list" where
  "at_client_para_init ok = (if length (created ok) < 5 then (- 5, []) else (0, created ok))"

fun free_entry :: "nat \<Rightarrow> entry list \<Rightarrow> nat option" where
  "free_entry i [] = None"
| "free_entry i (e # es) = (if en_dev e = None then Some i else free_entry (Suc i) es)"

text \<open>\<open>-EIO\<close> of the first open leads to the second.\<close>

definition open_device :: "init_env \<Rightarrow> int" where
  "open_device env = (if ie_dma env = - 8 then ie_int env else ie_dma env)"

definition at_client_init :: "init_env \<Rightarrow> string \<Rightarrow> nat \<Rightarrow> clients \<Rightarrow> (int \<times> clients) res" where
  "at_client_init env dev_name bufsz cs =
     (if bufsz = 0 then Inl AssertFail
      else case free_entry 0 (slots cs) of
        None \<Rightarrow> Inr (- 3, cs)
      | Some k \<Rightarrow>
          let (r, new) = at_client_para_init (ie_mem env);
              cs1 = cs\<lparr>slots := (slots cs)[k := no_entry], live := live cs @ new\<rparr>
          in if r \<noteq> 0 then Inr (r, cs1)
             else if \<not> ie_found env then Inr (- 1, cs1)
             else if \<not> ie_char env \<or> open_device env \<noteq> 0 then Inl AssertFail
             else Inr (0, cs1\<lparr>slots := (slots cs)[k := no_entry\<lparr>en_dev := Some dev_name, en_runs := True\<rparr>]\<rparr>))"

text \<open>The name of the device of every entry is read, also where there is no device.\<close>

fun find_client :: "string \<Rightarrow> nat \<Rightarrow> entry list \<Rightarrow> (nat option) res" where
  "find_client dev_name i [] = Inr None"
| "find_client dev_name i (e # es) =
     (case en_dev e of
        None \<Rightarrow> Inl NullDeref
      | Some d \<Rightarrow> if d = dev_name then Inr (Some i) else find_client dev_name (Suc i) es)"

definition at_client_get :: "string \<Rightarrow> clients \<Rightarrow> (nat option) res" where
  "at_client_get dev_name cs = find_client dev_name 0 (slots cs)"

definition at_client_get_first :: "clients \<Rightarrow> nat option" where
  "at_client_get_first cs = (if en_dev (slots cs ! 0) = None then None else Some 0)"

text \<open>A table registered for the client \<open>k\<close>; the result of the call is not looked at.\<close>

definition register_table :: "bool \<Rightarrow> bool \<Rightarrow> bool \<Rightarrow> nat \<Rightarrow> urc list \<Rightarrow> clients \<Rightarrow> clients res" where
  "register_table calloc_ok malloc_ok realloc_ok k new cs =
     and_then (at_obj_set_urc_table calloc_ok malloc_ok realloc_ok new (en_tabs (slots cs ! k))) (\<lambda>(r, tabs).
       Inr (cs\<lparr>slots := (slots cs)[k := (slots cs ! k)\<lparr>en_tabs := tabs\<rparr>]\<rparr>))"

text \<open>\<open>a9g_init\<close> up to \<open>a9g_socket_init\<close>: the result is \<open>-1\<close> when there is no client.\<close>

definition a9g_init_client :: "init_env \<Rightarrow> bool \<Rightarrow> bool \<Rightarrow> bool \<Rightarrow> clients \<Rightarrow> (int \<times> clients) res" where
  "a9g_init_client env calloc_ok malloc_ok realloc_ok cs =
     and_then (at_client_init env (client_name a9g0) (recv_line_num a9g0) cs) (\<lambda>(r, cs1).
     and_then (at_client_get (client_name a9g0) cs1) (\<lambda>k.
       case k of
         None \<Rightarrow> Inr (- 1, cs1)
       | Some k \<Rightarrow>
           and_then (register_table calloc_ok malloc_ok realloc_ok k device_urc_table cs1) (\<lambda>cs2.
           and_then (register_table calloc_ok malloc_ok realloc_ok k socket_urc_table cs2) (\<lambda>cs3.
             Inr (0, cs3)))))"

text \<open>\<open>a9g_init\<close> as a whole, with the rest of it from \<open>A9g_Device\<close>.\<close>

definition a9g_device_init ::
  "init_env \<Rightarrow> bool \<Rightarrow> bool \<Rightarrow> bool \<Rightarrow> bool \<Rightarrow> bool \<Rightarrow> bool \<Rightarrow> clients \<Rightarrow> at_dev \<Rightarrow> (int \<times> clients \<times> at_dev) res" where
  "a9g_device_init env calloc_ok malloc_ok realloc_ok netdev_ok found tid_ok cs s =
     and_then (a9g_init_client env calloc_ok malloc_ok realloc_ok cs) (\<lambda>(r, cs1).
       case State_Monad.run_state (a9g_init (r = 0) netdev_ok found tid_ok) s of (r', s') \<Rightarrow> Inr (r', cs1, s'))"

section \<open>Properties\<close>

lemma find_report_concat: "find_report line ts = find (urc_match line) (concat ts)"
proof (induction ts)
  case (Cons t ts)
  have "find P (xs @ ys) = (case find P xs of None \<Rightarrow> find P ys | Some u \<Rightarrow> Some u)" for P and xs ys :: "urc list"
    by (induction xs) auto
  then show ?case by (simp add: Cons.IH split: option.split)
qed simp

lemma urc_table_split: "urc_table = device_urc_table @ socket_urc_table"
  by (simp add: urc_table_def device_urc_table_def socket_urc_table_def)

lemma created_all: "(\<forall>p. ok p) \<Longrightarrow> created ok = [LineBuf, Lock, RxNotice, RespNotice, Parser]"
  by (simp add: created_def)

lemma created_five: "length (created ok) = 5 \<Longrightarrow> created ok = [LineBuf, Lock, RxNotice, RespNotice, Parser]"
  by (auto simp: created_def split: if_splits)

text \<open>With memory and a device the modem gets the client and the reports of both tables.\<close>

lemma init_client_ok:
  assumes "\<forall>p. ie_mem env p" "ie_found env" "ie_char env" "open_device env = 0"
  shows "\<exists>cs. a9g_init_client env True True True no_clients = Inr (0, cs) \<and> at_client_get_first cs = Some 0 \<and>
    en_runs (slots cs ! 0) \<and> en_tabs (slots cs ! 0) = (Some [device_urc_table, socket_urc_table], 2)"
  using assms
  by (auto simp: a9g_init_client_def at_client_init_def no_clients_def AT_CLIENT_NUM_MAX_def no_entry_def
      at_client_para_init_def created_all a9g0_def at_client_get_def register_table_def at_obj_set_urc_table_def
      at_client_get_first_def Let_def)

end
