(* ===== verification/At_Client_Props.thy ===== *)
theory At_Client_Props
  imports At_Client At_Client_Init A9g_Urc_Props "HOL-Library.Sublist"
begin

text \<open>
  What the AT client promises its callers.  The specification \<open>reply\<close> reads a response as a list of
  texts; \<open>resp_holds\<close> says how the response object stores them.  The theorems at the end also show where
  the promise fails: a token left in the semaphore, a line that does not fit, the end sign, a client
  without a device.
\<close>

section \<open>The lines of a response\<close>

text \<open>The texts of the lines one behind the other, each with its terminator.\<close>

definition line_block :: "mem list \<Rightarrow> mem" where
  "line_block ts = concat (map (\<lambda>t. t @ [0]) ts)"

lemma line_block_Nil [simp]: "line_block [] = []"
  by (simp add: line_block_def)

lemma line_block_Cons [simp]: "line_block (t # ts) = t @ 0 # line_block ts"
  by (simp add: line_block_def)

lemma line_block_snoc [simp]: "line_block (ts @ [t]) = line_block ts @ t @ [0]"
  by (simp add: line_block_def)

definition resp_holds :: "at_response \<Rightarrow> mem list \<Rightarrow> bool" where
  "resp_holds r ts \<longleftrightarrow>
     (case rbuf r of None \<Rightarrow> False | Some b \<Rightarrow> length b = buf_size r \<and> take (buf_len r) b = line_block ts) \<and>
     buf_len r = length (line_block ts) \<and> line_counts r = length ts \<and> (\<forall>t \<in> set ts. 0 \<notin> set t)"

lemma resp_holdsE:
  assumes "resp_holds r ts"
  obtains tl where "rbuf r = Some (line_block ts @ tl)" "length (line_block ts @ tl) = buf_size r"
    "buf_len r = length (line_block ts)" "line_counts r = length ts" "\<forall>t \<in> set ts. 0 \<notin> set t"
proof -
  obtain b where b: "rbuf r = Some b" "length b = buf_size r" "take (buf_len r) b = line_block ts"
    using assms by (auto simp: resp_holds_def split: option.splits)
  then have "b = line_block ts @ drop (buf_len r) b" by (metis append_take_drop_id)
  then show ?thesis using assms b that [of "drop (buf_len r) b"] by (simp add: resp_holds_def)
qed

lemma next_string_text [simp]: "0 \<notin> set t \<Longrightarrow> next_string (t @ 0 # p) = Inr p"
  by (induction t) auto

lemma skip_lines_block:
  "\<forall>t \<in> set ts. 0 \<notin> set t \<Longrightarrow> k \<le> length ts \<Longrightarrow> skip_lines k (line_block ts @ p) = Inr (line_block (drop k ts) @ p)"
proof (induction k arbitrary: ts)
  case (Suc k)
  then obtain t ts' where "ts = t # ts'" by (cases ts) auto
  then show ?case using Suc.IH [of ts'] Suc.prems by simp
qed simp

lemma strstr_text:
  assumes "0 \<notin> set t" "0 \<notin> set needle" "needle \<noteq> []"
  shows "\<exists>x. strstr needle (t @ 0 # p) = Inr x \<and> (x \<noteq> None \<longleftrightarrow> sublist needle t)"
  using assms(1)
proof (induction t)
  case Nil
  then show ?case using assms(2,3) by (cases needle) auto
next
  case (Cons a t)
  have "has_prefix needle (a # t @ 0 # p) \<longleftrightarrow> prefix needle (a # t)"
  proof
    assume "has_prefix needle (a # t @ 0 # p)"
    then obtain r where "(a # t) @ 0 # p = needle @ r" by (auto simp: has_prefix_iff)
    then obtain us where "a # t = needle @ us \<or> (a # t) @ us = needle \<and> us @ r = 0 # p"
      by (metis append_eq_append_conv2)
    then show "prefix needle (a # t)" using assms(2) by (cases us) (auto simp: prefix_def)
  next
    assume "prefix needle (a # t)"
    then obtain r where "a # t = needle @ r" by (auto simp: prefix_def)
    then have "a # t @ 0 # p = needle @ r @ 0 # p" by (metis append_Cons append_assoc)
    then show "has_prefix needle (a # t @ 0 # p)" by (metis has_prefix_iff)
  qed
  moreover have "a \<noteq> 0" "0 \<notin> set t" using Cons.prems by auto
  ultimately show ?case using Cons.IH by (simp add: sublist_Cons_right del: has_prefix.simps)
qed

lemma find_line_block:
  assumes "\<forall>t \<in> set ts. 0 \<notin> set t" "0 \<notin> set kw" "kw \<noteq> []"
  shows "\<exists>x. find_line kw (length ts) (line_block ts @ p) = Inr x \<and> map_option str_of x = find (sublist kw) ts"
  using assms(1)
proof (induction ts)
  case (Cons t ts)
  obtain x where x: "strstr kw (t @ 0 # line_block ts @ p) = Inr x" "x \<noteq> None \<longleftrightarrow> sublist kw t"
    using strstr_text [of t kw "line_block ts @ p"] Cons.prems assms(2,3) by auto
  then show ?case using Cons by auto
qed simp

section \<open>The specification of a response\<close>

text \<open>
  \<open>ends n k t\<close>: what the text \<open>t\<close> of a line says when \<open>n\<close> lines are asked for and \<open>k\<close> are there.
  \<open>reply n sz ts ls\<close>: the result of a command with \<open>ts\<close> stored already in a buffer of \<open>sz\<close> bytes, the
  texts that are stored at the end and the lines that are left.
\<close>

definition ends :: "nat \<Rightarrow> nat \<Rightarrow> mem \<Rightarrow> at_resp_status option" where
  "ends n k t =
     (if take 2 t = bytes ''OK'' \<and> n = 0 then Some AT_RESP_OK
      else if sublist (bytes ''ERROR'') t \<or> take 4 t = bytes ''FAIL'' then Some AT_RESP_ERROR
      else if k = n \<and> n \<noteq> 0 then Some AT_RESP_OK
      else None)"

definition keep_line :: "nat \<Rightarrow> mem \<Rightarrow> mem list \<Rightarrow> mem list" where
  "keep_line sz l ts = (if length (line_block ts) + length l < sz then ts @ [butlast l] else ts)"

fun reply :: "nat \<Rightarrow> nat \<Rightarrow> mem list \<Rightarrow> mem list \<Rightarrow> int \<times> mem list \<times> mem list" where
  "reply n sz ts [] = (- 2, ts, [])"
| "reply n sz ts (l # ls) =
     (let ts' = keep_line sz l ts
      in case ends n (length ts') (butlast l) of
           None \<Rightarrow> reply n sz ts' ls
         | Some st \<Rightarrow> (if st = AT_RESP_OK then 0 else - 1, ts', ls))"

text \<open>A line the parser reads: not empty, not longer than the buffer, no NUL before its last byte.\<close>

definition resp_text :: "nat \<Rightarrow> mem \<Rightarrow> bool" where
  "resp_text bufsz l \<longleftrightarrow> l \<noteq> [] \<and> length l \<le> bufsz \<and> 0 \<notin> set (butlast l)"

lemma resp_textE:
  assumes "resp_text bufsz l"
  obtains t x where "l = t @ [x]" "0 \<notin> set t" "length t < bufsz"
  using assms by (cases l rule: rev_cases) (auto simp: resp_text_def)

lemma memcmp_text:
  assumes "0 \<notin> set needle" "length needle = n" "n \<le> length (t @ 0 # p)"
  shows "memcmp_eq needle (t @ 0 # p) = Inr (take n t = needle)"
proof (cases "n \<le> length t")
  case True
  then show ?thesis using assms by (simp add: memcmp_eq_def)
next
  case False
  then obtain k where k: "n - length t = Suc k" by (metis diff_is_0_eq not0_implies_Suc)
  then have "take n (t @ 0 # p) = t @ 0 # take k p" using False by simp
  then have "take n (t @ 0 # p) \<noteq> needle" using assms(1) by auto
  moreover have "length (take n t) \<noteq> n" using False by simp
  then have "take n t \<noteq> needle" using assms(2) by metis
  ultimately show ?thesis using assms(2,3) by (simp add: memcmp_eq_def)
qed

lemma resp_end_text:
  assumes "0 \<notin> set t" "4 \<le> length (t @ 0 # p)"
  shows "resp_end (t @ 0 # p) r = Inr (ends (line_num r) (line_counts r) t)"
proof -
  have ok: "memcmp_eq (bytes ''OK'') (t @ 0 # p) = Inr (take 2 t = bytes ''OK'')"
    using memcmp_text [of "bytes ''OK''" 2 t p] assms(2) by simp
  have fail: "memcmp_eq (bytes ''FAIL'') (t @ 0 # p) = Inr (take 4 t = bytes ''FAIL'')"
    using memcmp_text [of "bytes ''FAIL''" 4 t p] assms(2) by simp
  obtain x where x: "strstr (bytes ''ERROR'') (t @ 0 # p) = Inr x" "x \<noteq> None \<longleftrightarrow> sublist (bytes ''ERROR'') t"
    using strstr_text [of t "bytes ''ERROR''" p] assms(1) by auto
  show ?thesis
    unfolding resp_end_def ok x(1) and_then.simps
    using x(2) by (cases x) (simp_all add: fail ends_def del: bytes_Cons)
qed

lemma resp_put_holds:
  assumes "resp_holds r ts" "buf_len r + length l < buf_size r" "l = t @ [0]" "0 \<notin> set t"
  shows "\<exists>r'. resp_put l r = Inr r' \<and> resp_holds r' (ts @ [t]) \<and> buf_size r' = buf_size r \<and> line_num r' = line_num r"
proof -
  obtain tl where tl: "rbuf r = Some (line_block ts @ tl)" "length (line_block ts @ tl) = buf_size r"
    "buf_len r = length (line_block ts)" "line_counts r = length ts" "\<forall>t \<in> set ts. 0 \<notin> set t"
    by (rule resp_holdsE [OF assms(1)])
  let ?r = "r\<lparr>rbuf := Some (line_block ts @ l @ drop (length l) tl), buf_len := buf_len r + length l, line_counts := line_counts r + 1\<rparr>"
  have "resp_put l r = Inr ?r" using tl assms(2) by (simp add: resp_put_def resp_block_def)
  moreover have "resp_holds ?r (ts @ [t])" using tl assms(2-4) by (simp add: resp_holds_def)
  ultimately show ?thesis by (intro exI [of _ ?r]) simp
qed

text \<open>What a line leaves alone, and the end of a call.\<close>

definition same_call :: "at_client \<Rightarrow> at_client \<Rightarrow> bool" where
  "same_call c c1 \<longleftrightarrow> buf_size (cl_resp c1) = buf_size (cl_resp c) \<and> line_num (cl_resp c1) = line_num (cl_resp c) \<and>
     awaits c1 = awaits c \<and> resp_notice c1 = resp_notice c \<and> cli c1 = cli c \<and> written c1 = written c"

lemmas same_callD = same_call_def [THEN iffD1]

lemma same_call_refl: "same_call c c"
  by (simp add: same_call_def)

lemma same_call_trans: "same_call c c1 \<Longrightarrow> same_call c1 c2 \<Longrightarrow> same_call c c2"
  by (simp add: same_call_def)

definition end_call :: "at_resp_status \<Rightarrow> at_client \<Rightarrow> at_client" where
  "end_call st c = c\<lparr>resp_status := st, awaits := False, resp_notice := resp_notice c + 1\<rparr>"

lemma client_response_text:
  assumes "resp_text bufsz l" "4 \<le> bufsz" "resp_holds (cl_resp c) ts"
  shows "\<exists>c1. resp_holds (cl_resp c1) (keep_line (buf_size (cl_resp c)) l ts) \<and> same_call c c1 \<and>
    client_response bufsz l c = Inr (
      case ends (line_num (cl_resp c)) (length (keep_line (buf_size (cl_resp c)) l ts)) (butlast l) of
        None \<Rightarrow> c1 | Some st \<Rightarrow> end_call st c1)"
proof -
  let ?r = "cl_resp c"
  obtain t x where l: "l = t @ [x]" "0 \<notin> set t" "length t < bufsz" by (rule resp_textE [OF assms(1)])
  have len: "buf_len ?r = length (line_block ts)" using assms(3) by (simp add: resp_holds_def)
  have e: "resp_end (t @ 0 # replicate (bufsz - Suc (length t)) 0) r = Inr (ends (line_num r) (line_counts r) t)" for r
    using resp_end_text [OF l(2), of "replicate (bufsz - Suc (length t)) 0" r] assms(2) l(3) by simp
  show ?thesis
  proof (cases "buf_len ?r + length l < buf_size ?r")
    case True
    then obtain r' where r': "resp_put (t @ [0]) ?r = Inr r'" "resp_holds r' (ts @ [t])" "buf_size r' = buf_size ?r"
      "line_num r' = line_num ?r"
      using resp_put_holds [OF assms(3), of "t @ [0]" t] l by auto
    then have "line_counts r' = length (ts @ [t])" by (simp add: resp_holds_def)
    then show ?thesis
      using True r' len l(1) by (intro exI [of _ "c\<lparr>cl_resp := r'\<rparr>"])
        (simp add: client_response_def Let_def e keep_line_def same_call_def end_call_def cong: option.case_cong)
  next
    case False
    have "line_counts ?r = length ts" using assms(3) by (simp add: resp_holds_def)
    then show ?thesis
      using False assms(3) len l(1) by (intro exI [of _ "c\<lparr>resp_status := AT_RESP_BUFF_FULL\<rparr>"])
        (simp add: client_response_def Let_def e keep_line_def same_call_def end_call_def cong: option.case_cong)
  qed
qed

text \<open>The lines of a call, as the specification reads them.\<close>

lemma parse_lines_idle: "\<not> awaits c \<Longrightarrow> parse_lines bufsz ls c = Inr c"
  by (induction ls) (simp_all add: parse_line_def)

lemma wait_resp_token: "resp_notice c \<noteq> 0 \<Longrightarrow> wait_resp bufsz ls c = Inr (True, ls, c\<lparr>resp_notice := resp_notice c - 1\<rparr>)"
  by (simp add: wait_resp.simps)

lemma wait_resp_line:
  "resp_notice c = 0 \<Longrightarrow> wait_resp bufsz (l # ls) c = and_then (parse_line bufsz l c) (wait_resp bufsz ls)"
  by (simp add: wait_resp.simps)

lemma wait_resp_none: "resp_notice c = 0 \<Longrightarrow> wait_resp bufsz [] c = Inr (False, [], c)"
  by (simp add: wait_resp.simps)

text \<open>
  The lines of a call as the specification reads them: what the parser thread makes of all of them,
  and where a call that waits stops while the semaphore is empty.
\<close>

definition status_code :: "at_resp_status \<Rightarrow> int" where
  "status_code st = (if st = AT_RESP_OK then 0 else - 1)"

lemma status_code_not_timeout [simp]: "status_code st \<noteq> - 2"
  by (simp add: status_code_def)

definition call_ends :: "nat \<Rightarrow> mem list \<Rightarrow> at_client \<Rightarrow> int \<Rightarrow> mem list \<Rightarrow> at_client \<Rightarrow> bool" where
  "call_ends bufsz ls c v rest c1 \<longleftrightarrow>
     (if v = - 2
      then rest = [] \<and> parse_lines bufsz ls c = Inr c1 \<and>
           (resp_notice c = 0 \<longrightarrow> wait_resp bufsz ls c = Inr (False, [], c1))
      else \<exists>st. v = status_code st \<and> parse_lines bufsz ls c = Inr (end_call st c1) \<and>
           (resp_notice c = 0 \<longrightarrow> wait_resp bufsz ls c = Inr (True, rest, (end_call st c1)\<lparr>resp_notice := 0\<rparr>)))"

lemma call_ends_step:
  assumes "parse_line bufsz l c = Inr c0" "resp_notice c0 = resp_notice c" "call_ends bufsz ls c0 v rest c1"
  shows "call_ends bufsz (l # ls) c v rest c1"
proof (cases "v = - 2")
  case False
  then obtain st where "v = status_code st" "parse_lines bufsz ls c0 = Inr (end_call st c1)"
    "resp_notice c0 = 0 \<longrightarrow> wait_resp bufsz ls c0 = Inr (True, rest, (end_call st c1)\<lparr>resp_notice := 0\<rparr>)"
    using assms(3) by (auto simp: call_ends_def)
  then show ?thesis using False assms(1,2) by (auto simp: call_ends_def wait_resp_line)
qed (use assms in \<open>simp add: call_ends_def wait_resp_line\<close>)

lemma call_ends_now:
  assumes "parse_line bufsz l c = Inr (end_call st c1)" "resp_notice c1 = resp_notice c"
  shows "call_ends bufsz (l # ls) c (status_code st) ls c1"
proof -
  have "\<not> awaits (end_call st c1)" "resp_notice (end_call st c1) = Suc (resp_notice c)"
    using assms(2) by (simp_all add: end_call_def)
  then show ?thesis
    using assms(1) by (auto simp: call_ends_def wait_resp_line wait_resp_token parse_lines_idle intro!: exI [of _ st])
qed

lemma call_lines:
  assumes "awaits c" "4 \<le> bufsz" "\<forall>l \<in> set ls. resp_text bufsz l" "resp_holds (cl_resp c) ts"
    and "reply (line_num (cl_resp c)) (buf_size (cl_resp c)) ts ls = (v, ts', rest)"
  shows "\<exists>c1. resp_holds (cl_resp c1) ts' \<and> same_call c c1 \<and> call_ends bufsz ls c v rest c1"
  using assms
proof (induction ls arbitrary: c ts)
  case Nil
  then show ?case using same_call_refl by (auto simp: call_ends_def wait_resp_none)
next
  case (Cons l ls)
  let ?n = "line_num (cl_resp c)" and ?sz = "buf_size (cl_resp c)"
  let ?ts = "keep_line ?sz l ts"
  let ?e = "ends ?n (length ?ts) (butlast l)"
  have "resp_text bufsz l" using Cons.prems(3) by simp
  then obtain c0 where c0: "resp_holds (cl_resp c0) ?ts" "same_call c c0"
    "client_response bufsz l c = Inr (case ?e of None \<Rightarrow> c0 | Some st \<Rightarrow> end_call st c0)"
    using client_response_text [OF _ Cons.prems(2,4)] by metis
  note sc = same_callD [OF c0(2)]
  show ?case
  proof (cases ?e)
    case None
    then have "reply (line_num (cl_resp c0)) (buf_size (cl_resp c0)) ?ts ls = (v, ts', rest)"
      using Cons.prems(5) sc by (simp add: Let_def)
    then obtain c1 where c1: "resp_holds (cl_resp c1) ts'" "same_call c0 c1" "call_ends bufsz ls c0 v rest c1"
      using Cons.IH [of c0 ?ts] Cons.prems(1-3) c0(1) sc by auto
    have "parse_line bufsz l c = Inr c0" using Cons.prems(1) c0(3) None by (simp add: parse_line_def)
    then show ?thesis using c1 call_ends_step same_call_trans [OF c0(2)] sc by blast
  next
    case (Some st)
    then have v: "v = status_code st" "ts' = ?ts" "rest = ls"
      using Cons.prems(5) by (simp_all add: Let_def status_code_def)
    have "parse_line bufsz l c = Inr (end_call st c0)" using Cons.prems(1) c0(3) Some by (simp add: parse_line_def)
    then show ?thesis using v c0(1,2) call_ends_now [of bufsz l c st c0 ls] sc by auto
  qed
qed

section \<open>Commands\<close>

text \<open>A response object as \<open>at_create_resp\<close> leaves it, whatever is in the buffer.\<close>

definition resp_object :: "at_response \<Rightarrow> bool" where
  "resp_object r \<longleftrightarrow> (case rbuf r of None \<Rightarrow> False | Some b \<Rightarrow> length b = buf_size r)"

lemma create_resp_object: "at_create_response True True b n t = Some r \<Longrightarrow> resp_object r"
  by (auto simp: at_create_response_def resp_object_def)

lemma set_info_object:
  "resp_object r \<Longrightarrow> at_resp_set_info ok junk sz n t r = (True, r') \<Longrightarrow> resp_object r' \<and> buf_size r' = sz \<and> line_num r' = n"
  by (auto simp: resp_object_def at_resp_set_info_def realloc_def Let_def split: if_splits option.splits)

text \<open>The call that waits: a client on which a command may be run, and the client while it runs.\<close>

definition call_ready :: "nat \<Rightarrow> at_response \<Rightarrow> mem \<Rightarrow> at_client \<Rightarrow> bool" where
  "call_ready bufsz r cmd c \<longleftrightarrow> \<not> cli c \<and> 4 \<le> bufsz \<and> resp_object r \<and> length cmd < AT_CMD_MAX_LEN"

definition in_call :: "at_response \<Rightarrow> mem \<Rightarrow> at_client \<Rightarrow> at_client" where
  "in_call r cmd c = start_resp r (c\<lparr>resp_status := AT_RESP_OK, written := written c @ cmd @ crlf\<rparr>)"

lemma in_call_simps [simp]:
  "awaits (in_call r cmd c)" "resp_notice (in_call r cmd c) = resp_notice c" "cli (in_call r cmd c) = cli c"
  "line_num (cl_resp (in_call r cmd c)) = line_num r" "buf_size (cl_resp (in_call r cmd c)) = buf_size r"
  "written (in_call r cmd c) = written c @ cmd @ crlf" "resp_status (in_call r cmd c) = AT_RESP_OK"
  by (simp_all add: in_call_def start_resp_def)

lemma in_call_holds: "resp_object r \<Longrightarrow> resp_holds (cl_resp (in_call r cmd c)) []"
  by (auto simp: resp_object_def resp_holds_def in_call_def start_resp_def split: option.splits)

lemma exec_wait:
  assumes "call_ready bufsz r cmd c"
  shows "at_client_exec bufsz (Some r) cmd ls late c =
    and_then (wait_resp bufsz ls (in_call r cmd c)) (\<lambda>(taken, rest, c2).
      if \<not> taken
      then and_then (parse_lines bufsz late c2) (\<lambda>c3. Inr (- 2, [], c3\<lparr>resp_status := AT_RESP_TIMEOUT, awaits := False\<rparr>))
      else Inr (if resp_status c2 \<noteq> AT_RESP_OK then - 1 else 0, rest @ late, c2\<lparr>awaits := False\<rparr>))"
  using assms by (simp add: at_client_exec_def call_ready_def at_vprintfln_def at_vprintf_def Let_def in_call_def)

text \<open>What a call leaves behind.\<close>

definition after_call :: "at_client \<Rightarrow> mem \<Rightarrow> mem list \<Rightarrow> nat \<Rightarrow> at_client \<Rightarrow> bool" where
  "after_call c cmd ts n c' \<longleftrightarrow> resp_holds (cl_resp c') ts \<and> resp_notice c' = n \<and> \<not> awaits c' \<and> cli c' = cli c \<and>
     written c' = written c @ cmd @ crlf"

lemma exec_reply:
  assumes "call_ready bufsz r cmd c" "resp_notice c = 0" "\<forall>l \<in> set ls. resp_text bufsz l"
    "reply (line_num r) (buf_size r) [] ls = (v, ts, rest)"
  shows "\<exists>c'. at_client_exec bufsz (Some r) cmd ls [] c = Inr (v, rest, c') \<and> after_call c cmd ts 0 c'"
proof -
  let ?c = "in_call r cmd c"
  have obj: "resp_object r" "4 \<le> bufsz" using assms(1) by (simp_all add: call_ready_def)
  obtain c1 where c1: "resp_holds (cl_resp c1) ts" "same_call ?c c1" "call_ends bufsz ls ?c v rest c1"
    using call_lines [of ?c bufsz ls "[]" v ts rest] in_call_holds [OF obj(1)] obj(2) assms(3,4) by auto
  note sc = same_callD [OF c1(2)]
  show ?thesis
  proof (cases "v = - 2")
    case True
    then have "wait_resp bufsz ls ?c = Inr (False, [], c1)" "rest = []"
      using c1(3) assms(2) by (simp_all add: call_ends_def)
    then show ?thesis using True c1(1) sc assms(2) by (simp add: exec_wait [OF assms(1)] after_call_def)
  next
    case False
    then obtain st where st: "v = status_code st" "wait_resp bufsz ls ?c = Inr (True, rest, (end_call st c1)\<lparr>resp_notice := 0\<rparr>)"
      using c1(3) assms(2) by (auto simp: call_ends_def)
    then show ?thesis
      using c1(1) sc assms(2) by (simp add: exec_wait [OF assms(1)] after_call_def end_call_def status_code_def)
  qed
qed

text \<open>A token left in the semaphore ends the next call at once.\<close>

lemma exec_token:
  assumes "call_ready bufsz r cmd c" "resp_notice c = Suc n"
  shows "\<exists>c'. at_client_exec bufsz (Some r) cmd ls late c = Inr (0, ls @ late, c') \<and> after_call c cmd [] n c'"
  using assms(2) in_call_holds [of r cmd c] assms(1)
  by (simp add: exec_wait [OF assms(1)] wait_resp_token after_call_def call_ready_def)

text \<open>An answer between the timeout and the end of the call leaves one.\<close>

lemma exec_late:
  assumes "call_ready bufsz r cmd c" "resp_notice c = 0" "\<forall>l \<in> set (ls @ late). resp_text bufsz l"
    "reply (line_num r) (buf_size r) [] ls = (- 2, ts, [])" "reply (line_num r) (buf_size r) ts late = (v, ts', rest)" "v \<noteq> - 2"
  shows "\<exists>c'. at_client_exec bufsz (Some r) cmd ls late c = Inr (- 2, [], c') \<and> after_call c cmd ts' 1 c'"
proof -
  let ?c = "in_call r cmd c"
  have obj: "resp_object r" "4 \<le> bufsz" using assms(1) by (simp_all add: call_ready_def)
  obtain c1 where c1: "resp_holds (cl_resp c1) ts" "same_call ?c c1" "call_ends bufsz ls ?c (- 2) [] c1"
    using call_lines [of ?c bufsz ls "[]" "- 2" ts "[]"] in_call_holds [OF obj(1)] obj(2) assms(3,4) by auto
  note sc1 = same_callD [OF c1(2)]
  obtain c2 where c2: "resp_holds (cl_resp c2) ts'" "same_call c1 c2" "call_ends bufsz late c1 v rest c2"
    using call_lines [of c1 bufsz late ts v ts' rest] c1(1) sc1 obj(2) assms(3,5) by auto
  note sc2 = same_callD [OF c2(2)]
  have "wait_resp bufsz ls ?c = Inr (False, [], c1)" using c1(3) assms(2) by (simp add: call_ends_def)
  moreover obtain st where "parse_lines bufsz late c1 = Inr (end_call st c2)"
    using c2(3) assms(6) by (auto simp: call_ends_def)
  ultimately show ?thesis
    using c2(1) sc1 sc2 assms(2) by (simp add: exec_wait [OF assms(1)] after_call_def end_call_def)
qed

section \<open>Reading a response\<close>

lemma holds_get_line:
  assumes "resp_holds r ts"
  shows "\<exists>x. at_resp_get_line r k = Inr x \<and> map_option str_of x = (if 1 \<le> k \<and> k \<le> length ts then Some (ts ! (k - 1)) else None)"
proof (cases "1 \<le> k \<and> k \<le> length ts")
  case False
  then show ?thesis using assms by (auto simp: at_resp_get_line_def resp_holds_def)
next
  case True
  obtain tl where tl: "rbuf r = Some (line_block ts @ tl)" "line_counts r = length ts" "\<forall>t \<in> set ts. 0 \<notin> set t"
    by (rule resp_holdsE [OF assms])
  have "drop (k - 1) ts = ts ! (k - 1) # drop k ts" using True by (metis Cons_nth_drop_Suc Suc_diff_1 Suc_le_eq less_eq_Suc_le One_nat_def Suc_pred)
  moreover have "ts ! (k - 1) \<in> set ts" using True by (intro nth_mem) auto
  then have "0 \<notin> set (ts ! (k - 1))" using tl(3) by blast
  moreover have le: "k - 1 \<le> length ts" using True by (meson diff_le_self le_trans)
  ultimately have "at_resp_get_line r k = Inr (Some (ts ! (k - 1) @ 0 # line_block (drop k ts) @ tl))"
    using True tl(1,2) skip_lines_block [OF tl(3) le, of tl] by (simp add: at_resp_get_line_def resp_block_def)
  then show ?thesis using True \<open>0 \<notin> set (ts ! (k - 1))\<close> by simp
qed

lemma holds_find_line:
  assumes "resp_holds r ts" "0 \<notin> set kw" "kw \<noteq> []"
  shows "\<exists>x. at_resp_get_line_by_kw r kw = Inr x \<and> map_option str_of x = find (sublist kw) ts"
proof -
  obtain tl where tl: "rbuf r = Some (line_block ts @ tl)" "line_counts r = length ts" "\<forall>t \<in> set ts. 0 \<notin> set t"
    by (rule resp_holdsE [OF assms(1)])
  then show ?thesis
    using find_line_block [OF tl(3) assms(2,3), of tl] by (auto simp: at_resp_get_line_by_kw_def resp_block_def)
qed

section \<open>What the size of the buffer changes\<close>

text \<open>When no number of lines is asked for, the result does not depend on what is stored.\<close>

lemma reply_any_buffer: "fst (reply 0 sz ts ls) = fst (reply 0 sz' ts' ls)"
proof (induction ls arbitrary: ts ts')
  case (Cons l ls)
  have "ends 0 k (butlast l) = ends 0 k' (butlast l)" for k k' by (simp add: ends_def)
  then have e: "ends 0 (length (keep_line sz l ts)) (butlast l) = ends 0 (length (keep_line sz' l ts')) (butlast l)" .
  show ?case
    using Cons.IH [of "keep_line sz l ts" "keep_line sz' l ts'"]
    by (cases "ends 0 (length (keep_line sz' l ts')) (butlast l)") (simp_all add: Let_def e)
qed simp

section \<open>The end sign\<close>

lemma recv_head_plain: "0x0D \<notin> set (recv_head i n) \<and> 0x3E \<notin> set (recv_head i n)"
proof -
  have "c \<noteq> 0x0D \<and> c \<noteq> 0x3E" if "c \<in> set (dec_digits k)" for c k
    using that dec_digits_is_dig [of k] by (auto simp: list_all_iff is_dig_def)
  then show ?thesis by (auto simp: recv_head_def)
qed

lemma end_sign_line:
  assumes "no_crlf a" "0x3E \<notin> set a" "length (recv_head i n @ a) < bufsz" "end_sign c = 0x3E"
  shows "client_turn bufsz found mem_ok (c, s, recv_head i n @ a @ 0x3E # rx) =
    Some (and_then (parse_line bufsz (recv_head i n @ a @ [0x3E]) c) (\<lambda>c'. Inr (c', s, rx)))"
proof -
  have "no_crlf (recv_head i n @ a)" using no_crlf_append recv_head_plain assms(1) by blast
  then have r: "readline 0x3E bufsz [] 0 False ((recv_head i n @ a) @ 0x3E # rx) = Some (Inr ((recv_head i n @ a) @ [0x3E]), rx)"
    using assms(2,3) recv_head_plain by (intro readline_mark) auto
  have "get_urc_obj ((recv_head i n @ a) @ [0x3E]) = None"
  proof (rule ccontr)
    assume "get_urc_obj ((recv_head i n @ a) @ [0x3E]) \<noteq> None"
    then obtain x where "(recv_head i n @ a) @ [0x3E] = x @ crlf" using urc_crlf by blast
    then have "last ((recv_head i n @ a) @ [0x3E :: u8]) = last (x @ crlf)" by metis
    then show False by (simp add: crlf_def)
  qed
  then show ?thesis using r by (simp add: client_turn_def assms(4) del: readline.simps)
qed

text \<open>Without a call in progress and without end sign the parser is the \<open>parser_turn\<close> of \<open>A9g_Urc\<close>.\<close>

lemma client_turn_idle:
  assumes "\<not> awaits c" "end_sign c = 0"
  shows "client_turn bufsz found mem_ok (c, s, rx) =
    map_option (\<lambda>m. and_then m (\<lambda>(s', rx'). Inr (c, s', rx'))) (parser_turn bufsz found mem_ok (s, rx))"
proof -
  have "run_urc bufsz found mem_ok line st = Some (Inr st)" if "get_urc_obj line = None" for line st
    using that by (simp add: run_urc_def Let_def)
  then show ?thesis
    using assms by (auto simp: client_turn_def parser_turn_def parse_line_def split: option.split sum.split)
qed

section \<open>Properties\<close>

text \<open>C20: The response protocol.  While no token is left in the semaphore, a command whose lines are \<open>ls\<close> returns
  what the specification \<open>reply\<close> says (0, -1 for an error line, -2 for no end within the timeout), reads
  no line behind the one that ends the response, leaves the semaphore empty, and the response object
  then gives the stored texts by number and the first of them with a key word.\<close>

theorem command_returns_reply:
  assumes "call_ready bufsz r cmd c" "resp_notice c = 0" "\<forall>l \<in> set ls. resp_text bufsz l"
    and "reply (line_num r) (buf_size r) [] ls = (v, ts, rest)"
  shows "\<exists>c'. at_client_exec bufsz (Some r) cmd ls [] c = Inr (v, rest, c') \<and> after_call c cmd ts 0 c' \<and>
    (\<forall>k. \<exists>x. at_resp_get_line (cl_resp c') k = Inr x \<and>
       map_option str_of x = (if 1 \<le> k \<and> k \<le> length ts then Some (ts ! (k - 1)) else None)) \<and>
    (\<forall>kw. 0 \<notin> set kw \<and> kw \<noteq> [] \<longrightarrow> (\<exists>x. at_resp_get_line_by_kw (cl_resp c') kw = Inr x \<and>
       map_option str_of x = find (sublist kw) ts))"
proof -
  obtain c' where c': "at_client_exec bufsz (Some r) cmd ls [] c = Inr (v, rest, c')" "after_call c cmd ts 0 c'"
    using exec_reply [OF assms] by blast
  then have "resp_holds (cl_resp c') ts" by (simp add: after_call_def)
  then show ?thesis using c' holds_get_line holds_find_line by blast
qed

definition sample_resp :: "nat \<Rightarrow> nat \<Rightarrow> at_response" where
  "sample_resp sz n = \<lparr>rbuf = Some (replicate sz 0), buf_size = sz, buf_len = 0, line_num = n, line_counts = 0, resp_timeout = 300\<rparr>"

definition sample_client :: at_client where
  "sample_client = \<lparr>cli = False, end_sign = 0, awaits = False, cl_resp = sample_resp 0 0, resp_status = AT_RESP_OK,
     resp_notice = 0, written = []\<rparr>"

lemma sample_ready: "length cmd < 512 \<Longrightarrow> call_ready 512 (sample_resp sz n) cmd sample_client"
  by (simp add: call_ready_def sample_client_def sample_resp_def resp_object_def AT_CMD_MAX_LEN_def)

text \<open>The prompt of the modem before the data of a packet: an empty line and the end sign.\<close>

lemma command_returns_reply_witness:
  "\<exists>c'. at_client_exec 512 (Some (sample_resp 128 2)) (bytes ''AT+CIPSEND=0,5'') [crlf, [0x3E], crlf] [] sample_client =
    Inr (0, [crlf], c')"
proof -
  have "reply 2 128 [] [crlf, [0x3E], crlf] = (0, [[0x0D], []], [crlf])" by code_simp
  moreover have "\<forall>l \<in> set [crlf, [0x3E], crlf]. resp_text 512 l" by (simp add: resp_text_def crlf_def)
  ultimately show ?thesis
    using command_returns_reply [of 512 "sample_resp 128 2" "bytes ''AT+CIPSEND=0,5''" sample_client "[crlf, [0x3E], crlf]" 0
        "[[0x0D], []]" "[crlf]"]
      sample_ready [of "bytes ''AT+CIPSEND=0,5''" 128 2]
    by (fastforce simp: sample_client_def sample_resp_def)
qed

text \<open>C21: A command whose answer comes after its timeout, but before the call has ended, leaves a token in the
  semaphore: the next command returns 0 at once with an empty response, whatever the modem answers, and
  its answer is left for the command after it.\<close>

theorem late_answer_shifts:
  assumes "call_ready bufsz r cmd c" "resp_notice c = 0" "\<forall>l \<in> set (ls @ late). resp_text bufsz l"
    and "reply (line_num r) (buf_size r) [] ls = (- 2, ts, [])"
    and "reply (line_num r) (buf_size r) ts late = (v, ts', rest)" "v \<noteq> - 2"
    and "call_ready bufsz r2 cmd2 c"
  shows "\<exists>c1. at_client_exec bufsz (Some r) cmd ls late c = Inr (- 2, [], c1) \<and>
    (\<forall>ls2. \<exists>c2. at_client_exec bufsz (Some r2) cmd2 ls2 [] c1 = Inr (0, ls2, c2) \<and> after_call c1 cmd2 [] 0 c2)"
proof -
  obtain c1 where c1: "at_client_exec bufsz (Some r) cmd ls late c = Inr (- 2, [], c1)" "after_call c cmd ts' 1 c1"
    using exec_late [OF assms(1-6)] by blast
  then have "call_ready bufsz r2 cmd2 c1" using assms(7) by (simp add: call_ready_def after_call_def)
  moreover have "resp_notice c1 = Suc 0" using c1(2) by (simp add: after_call_def)
  ultimately have "\<exists>c2. at_client_exec bufsz (Some r2) cmd2 ls2 [] c1 = Inr (0, ls2, c2) \<and> after_call c1 cmd2 [] 0 c2" for ls2
    using exec_token [of bufsz r2 cmd2 c1 0 ls2 "[]"] by simp
  then show ?thesis using c1(1) by blast
qed

lemma late_answer_shifts_witness:
  "\<exists>c1 c2. at_client_exec 512 (Some (sample_resp 128 0)) (bytes ''AT+CREG?'') [] [bytes ''OK'' @ crlf] sample_client = Inr (- 2, [], c1) \<and>
    at_client_exec 512 (Some (sample_resp 128 0)) (bytes ''AT+CGATT=1'') [bytes ''ERROR'' @ crlf] [] c1 =
    Inr (0, [bytes ''ERROR'' @ crlf], c2)"
proof -
  have "reply 0 128 [] [bytes ''OK'' @ crlf] = (0, [bytes ''OK'' @ [0x0D]], [])"
    by code_simp
  moreover have "resp_text 512 (bytes ''OK'' @ crlf)" by (simp add: resp_text_def crlf_def)
  ultimately show ?thesis
    using late_answer_shifts [of 512 "sample_resp 128 0" "bytes ''AT+CREG?''" sample_client "[]" "[bytes ''OK'' @ crlf]" "[]" 0
        "[bytes ''OK'' @ [0x0D]]" "[]" "sample_resp 128 0" "bytes ''AT+CGATT=1''"]
      sample_ready [of "bytes ''AT+CREG?''" 128 0] sample_ready [of "bytes ''AT+CGATT=1''" 128 0]
    by (fastforce simp: sample_client_def sample_resp_def)
qed

text \<open>A response that does not fit is not reported.  When no number of lines is asked for, the result of a
  command is the same whatever the size of the response buffer, so a lost line never shows in it.\<close>

theorem overflow_not_reported:
  assumes "call_ready bufsz r cmd c" "call_ready bufsz r2 cmd c" "resp_notice c = 0" "\<forall>l \<in> set ls. resp_text bufsz l"
    and "line_num r = 0" "line_num r2 = 0"
    and "at_client_exec bufsz (Some r) cmd ls [] c = Inr (v, rest, c1)"
    and "at_client_exec bufsz (Some r2) cmd ls [] c = Inr (v2, rest2, c2)"
  shows "v = v2"
proof -
  have "fst (reply 0 (buf_size r) [] ls) = fst (reply 0 (buf_size r2) [] ls)" by (rule reply_any_buffer)
  moreover have "fst (reply (line_num r) (buf_size r) [] ls) = v"
    using exec_reply [OF assms(1,3,4)] assms(7) by (cases "reply (line_num r) (buf_size r) [] ls") fastforce
  moreover have "fst (reply (line_num r2) (buf_size r2) [] ls) = v2"
    using exec_reply [OF assms(2,3,4)] assms(8) by (cases "reply (line_num r2) (buf_size r2) [] ls") fastforce
  ultimately show ?thesis using assms(5,6) by simp
qed

text \<open>A buffer of 8 bytes loses the line with the number and still gives 0.\<close>

definition csq_lines :: "mem list" where
  "csq_lines = [bytes ''+CSQ: 24,99'' @ crlf, bytes ''OK'' @ crlf]"

lemma overflow_not_reported_witness:
  "\<exists>c1 c2. at_client_exec 512 (Some (sample_resp 128 0)) (bytes ''AT+CSQ'') csq_lines [] sample_client = Inr (0, [], c1) \<and>
    at_client_exec 512 (Some (sample_resp 8 0)) (bytes ''AT+CSQ'') csq_lines [] sample_client = Inr (0, [], c2) \<and>
    resp_holds (cl_resp c2) [bytes ''OK'' @ [0x0D]]"
proof -
  have ready: "call_ready 512 (sample_resp n 0) (bytes ''AT+CSQ'') sample_client" for n by (simp add: sample_ready)
  have nt: "resp_notice sample_client = 0" by (simp add: sample_client_def)
  have n: "line_num (sample_resp n 0) = 0" "buf_size (sample_resp n 0) = n" for n by (simp_all add: sample_resp_def)
  have ls: "\<forall>l \<in> set csq_lines. resp_text 512 l" by (simp add: csq_lines_def resp_text_def crlf_def)
  have r1: "reply (line_num (sample_resp 128 0)) (buf_size (sample_resp 128 0)) [] csq_lines =
      (0, [bytes ''+CSQ: 24,99'' @ [0x0D], bytes ''OK'' @ [0x0D]], [])"
    unfolding n by code_simp
  have r2: "reply (line_num (sample_resp 8 0)) (buf_size (sample_resp 8 0)) [] csq_lines = (0, [bytes ''OK'' @ [0x0D]], [])"
    unfolding n by code_simp
  obtain c1 where c1: "at_client_exec 512 (Some (sample_resp 128 0)) (bytes ''AT+CSQ'') csq_lines [] sample_client = Inr (0, [], c1)"
    using exec_reply [OF ready nt ls r1] by blast
  obtain c2 where c2: "at_client_exec 512 (Some (sample_resp 8 0)) (bytes ''AT+CSQ'') csq_lines [] sample_client = Inr (0, [], c2)"
    "after_call sample_client (bytes ''AT+CSQ'') [bytes ''OK'' @ [0x0D]] 0 c2"
    using exec_reply [OF ready nt ls r2] by blast
  have "(0 :: int) = 0" by (rule overflow_not_reported [OF ready ready nt ls n(1) n(1) c1 c2(1)])
  then show ?thesis using c1 c2 by (auto simp only: after_call_def)
qed

text \<open>While the end sign of \<open>a9g_socket_send\<close> is set, a line of received data that holds the sign is cut
  there: it is no report, the socket gets nothing, the piece counts as a line of the response in progress,
  and what follows is read as another line.\<close>

theorem end_sign_cuts_data:
  assumes "no_crlf a" "0x3E \<notin> set a" "length (recv_head i n @ a) < bufsz" "end_sign c = 0x3E"
  shows "client_turn bufsz found mem_ok (c, s, recv_head i n @ a @ 0x3E # rx) =
    Some (and_then (parse_line bufsz (recv_head i n @ a @ [0x3E]) c) (\<lambda>c'. Inr (c', s, rx)))"
  by (rule end_sign_line [OF assms])

lemma end_sign_cuts_data_witness:
  "client_turn 512 True True (at_obj_set_end_sign 0x3E sample_client, idle_dev,
      recv_head 0 6 @ bytes ''lat'' @ 0x3E # bytes ''31'' @ crlf) =
    Some (Inr (at_obj_set_end_sign 0x3E sample_client, idle_dev, bytes ''31'' @ crlf))"
proof -
  have d: "dec_digits 0 = [0x30]" "dec_digits 6 = [0x36]" by code_simp+
  have "no_crlf (bytes ''lat'')" "0x3E \<notin> set (bytes ''lat'')" by simp_all
  moreover have "length (recv_head 0 6 @ bytes ''lat'') < 512" by (simp add: recv_head_def d)
  moreover have "end_sign (at_obj_set_end_sign 0x3E sample_client) = 0x3E" by (simp add: at_obj_set_end_sign_def)
  ultimately have "client_turn 512 True True (at_obj_set_end_sign 0x3E sample_client, idle_dev,
      recv_head 0 6 @ bytes ''lat'' @ 0x3E # bytes ''31'' @ crlf) =
    Some (and_then (parse_line 512 (recv_head 0 6 @ bytes ''lat'' @ [0x3E]) (at_obj_set_end_sign 0x3E sample_client))
      (\<lambda>c'. Inr (c', idle_dev, bytes ''31'' @ crlf)))"
    by (rule end_sign_cuts_data)
  then show ?thesis by (simp add: parse_line_def at_obj_set_end_sign_def sample_client_def del: bytes_Cons)
qed

text \<open>The wait for the modem leaves an answer behind: when its first \<open>AT\<close> is answered after the timeout of
  the round, the second \<open>AT\<close> is sent and the wait ends at once; the answer to it is then taken for that
  of the next command, whose own lines are left.\<close>

theorem connect_one_behind:
  assumes "call_ready bufsz r cmd c" "resp_notice c = 0" "t1 - start \<le> limit" "t2 - start \<le> limit"
    and "resp_text bufsz ok" "take 2 (butlast ok) = bytes ''OK''" "line_num r = 0" "\<forall>l \<in> set ls. resp_text bufsz l"
  shows "\<exists>c1 c2. at_client_obj_wait_connect bufsz True limit start [(t1, [], []), (t2, [ok], [ok])] (Some c) =
      Some (Inr (0, [ok], c1)) \<and>
    at_client_exec bufsz (Some r) cmd (ok # ls) [] c1 = Inr (0, ls, c2) \<and>
    written c2 = written c @ bytes ''AT'' @ crlf @ bytes ''AT'' @ crlf @ cmd @ crlf"
proof -
  let ?r = "sample_resp 64 0"
  let ?c = "c\<lparr>awaits := True, cl_resp := ?r, written := written c @ bytes ''AT'' @ crlf\<rparr>"
  have b: "4 \<le> bufsz" "resp_object r" "\<not> cli c" using assms(1) by (simp_all add: call_ready_def)
  have e: "ends 0 k (butlast ok) = Some AT_RESP_OK" for k using assms(6) by (simp add: ends_def)
  have "resp_holds (cl_resp ?c) []" by (simp add: resp_holds_def sample_resp_def)
  moreover have "reply 0 64 [] [ok] = (0, keep_line 64 ok [], [])" by (simp add: Let_def e)
  ultimately obtain c1 where c1: "same_call ?c c1" "call_ends bufsz [ok] ?c 0 [] c1"
    using call_lines [of ?c bufsz "[ok]" "[]" 0 "keep_line 64 ok []" "[]"] b(1) assms(5) by (auto simp: sample_resp_def)
  then obtain st where st: "parse_lines bufsz [ok] ?c = Inr (end_call st c1)" by (auto simp: call_ends_def)
  let ?c2 = "(end_call st c1)\<lparr>cl_resp := (cl_resp c1)\<lparr>buf_len := 0, line_counts := 0\<rparr>,
      written := written c @ bytes ''AT'' @ crlf @ bytes ''AT'' @ crlf, resp_notice := 0\<rparr>"
  let ?c1 = "?c2\<lparr>awaits := False\<rparr>"
  note sc = same_callD [OF c1(1)]
  have nl: "\<not> limit < t1 - start" "\<not> limit < t2 - start" using assms(3,4) by (simp_all add: not_less)
  have cr: "at_create_response True True 64 0 300 = Some ?r" by (simp add: at_create_response_def sample_resp_def)
  have "connect_rounds bufsz start limit [(t1, [], []), (t2, [ok], [ok])] (c\<lparr>awaits := True, cl_resp := ?r\<rparr>) =
      connect_rounds bufsz start limit [(t2, [ok], [ok])] ?c"
    using assms(2) nl by (simp add: wait_resp_none sample_resp_def connect_rounds.simps(2) [of _ _ _ t1] del: bytes_Cons connect_rounds.simps)
  also have "\<dots> = Some (Inr (0, [ok], ?c2))"
    using nl sc assms(2) by (simp add: st wait_resp_token end_call_def del: parse_lines.simps bytes_Cons)
  finally have w: "at_client_obj_wait_connect bufsz True limit start [(t1, [], []), (t2, [ok], [ok])] (Some c) = Some (Inr (0, [ok], ?c1))"
    by (simp add: at_client_obj_wait_connect_def cr del: connect_rounds.simps)
  have c: "call_ready bufsz r cmd ?c1" "resp_notice ?c1 = 0" using assms(1) sc by (simp_all add: call_ready_def end_call_def)
  have "reply (line_num r) (buf_size r) [] (ok # ls) = (0, keep_line (buf_size r) ok [], ls)"
    using assms(7) by (simp add: Let_def e)
  then obtain c3 where "at_client_exec bufsz (Some r) cmd (ok # ls) [] ?c1 = Inr (0, ls, c3)"
    "after_call ?c1 cmd (keep_line (buf_size r) ok []) 0 c3"
    using exec_reply [OF c, of "ok # ls"] assms(5,8) by auto
  moreover from this(2) have "written c3 = written c @ bytes ''AT'' @ crlf @ bytes ''AT'' @ crlf @ cmd @ crlf"
    by (simp add: after_call_def del: bytes_Cons)
  ultimately show ?thesis using w by blast
qed

lemma connect_one_behind_witness:
  "\<exists>c1 c2. at_client_obj_wait_connect 512 True 5000 100 [(100, [], []), (450, [bytes ''OK'' @ crlf], [bytes ''OK'' @ crlf])]
      (Some sample_client) = Some (Inr (0, [bytes ''OK'' @ crlf], c1)) \<and>
    at_client_exec 512 (Some (sample_resp 128 0)) (bytes ''ATE0'') ((bytes ''OK'' @ crlf) # [bytes ''ERROR'' @ crlf]) [] c1 =
      Inr (0, [bytes ''ERROR'' @ crlf], c2) \<and>
    written c2 = written sample_client @ bytes ''AT'' @ crlf @ bytes ''AT'' @ crlf @ bytes ''ATE0'' @ crlf"
  by (rule connect_one_behind, rule sample_ready)
    (simp_all add: sample_client_def sample_resp_def resp_text_def crlf_def)

text \<open>A command longer than the client's buffer makes it write bytes from behind the buffer to the modem; the
  lookup of a name of 500 characters or more is such a command.\<close>

theorem long_command_overreads:
  assumes "\<not> cli c" "500 \<le> length name"
  shows "at_client_exec bufsz r (bytes ''AT+CDNSGIP='' @ [0x22] @ name @ [0x22]) ls late c = Inl OutOfBounds"
  using assms by (simp add: at_client_exec_def at_vprintfln_def at_vprintf_def AT_CMD_MAX_LEN_def)

lemma long_command_overreads_witness:
  "at_client_exec 512 None (bytes ''AT+CDNSGIP='' @ [0x22] @ replicate 500 0x61 @ [0x22]) [] [] sample_client = Inl OutOfBounds"
  by (rule long_command_overreads) (simp_all add: sample_client_def)

section \<open>Creating the client\<close>

definition good_env :: "bool \<Rightarrow> init_env" where
  "good_env found = \<lparr>ie_mem = (\<lambda>p. True), ie_found = found, ie_char = True, ie_dma = 0, ie_int = 0\<rparr>"

lemma reports_of_both: "get_urc_in (Some [device_urc_table, socket_urc_table], 2) line = get_urc_obj line"
  by (simp add: get_urc_in_def find_report_concat get_urc_obj_def urc_table_split)

text \<open>With memory and a serial device \<open>a9g_init\<close> creates the one client, starts its parser thread and registers
  the tables of \<open>at_device_a9g.c\<close> and \<open>at_socket_a9g.c\<close>: a line is then a report exactly when it is one of
  \<open>urc_table\<close>, in that order.\<close>

theorem init_registers_reports:
  assumes "\<forall>p. ie_mem env p" "ie_found env" "ie_char env" "open_device env = 0"
  shows "\<exists>cs. a9g_init_client env True True True no_clients = Inr (0, cs) \<and> at_client_get_first cs = Some 0 \<and>
    en_runs (slots cs ! 0) \<and> (\<forall>line. get_urc_in (en_tabs (slots cs ! 0)) line = get_urc_obj line)"
proof -
  obtain cs where cs: "a9g_init_client env True True True no_clients = Inr (0, cs)" "at_client_get_first cs = Some 0"
    "en_runs (slots cs ! 0)" "en_tabs (slots cs ! 0) = (Some [device_urc_table, socket_urc_table], 2)"
    using init_client_ok [OF assms] by blast
  then show ?thesis using reports_of_both by (intro exI [of _ cs]) simp
qed

lemma init_registers_reports_witness:
  "\<exists>cs. a9g_init_client (good_env True) True True True no_clients = Inr (0, cs) \<and> at_client_get_first cs = Some 0 \<and>
    en_runs (slots cs ! 0) \<and> (\<forall>line. get_urc_in (en_tabs (slots cs ! 0)) line = get_urc_obj line)"
  by (rule init_registers_reports) (simp_all add: good_env_def open_device_def)

text \<open>Without the serial device \<open>at_client_init\<close> returns -1 and keeps all five objects it created for an entry
  that stays free, once more at every call; \<open>a9g_init\<close> does not look at the result and then reads the name
  of the device through the null pointer.\<close>

theorem init_without_device:
  assumes "\<forall>p. ie_mem env p" "\<not> ie_found env" "0 < bufsz" "slots cs = [no_entry]"
  shows "\<exists>cs'. at_client_init env dev_name bufsz cs = Inr (- 1, cs') \<and> slots cs' = [no_entry] \<and>
      live cs' = live cs @ [LineBuf, Lock, RxNotice, RespNotice, Parser] \<and>
    a9g_device_init env calloc_ok malloc_ok realloc_ok netdev_ok found tid_ok cs s = Inl NullDeref"
  using assms
  by (simp add: at_client_init_def at_client_para_init_def created_all no_entry_def a9g_device_init_def a9g_init_client_def
      at_client_get_def a9g0_def Let_def)

lemma init_without_device_witness:
  "\<exists>cs'. at_client_init (good_env False) ''uart3'' 512 no_clients = Inr (- 1, cs') \<and> slots cs' = [no_entry] \<and>
      live cs' = live no_clients @ [LineBuf, Lock, RxNotice, RespNotice, Parser] \<and>
    a9g_device_init (good_env False) True True True True True True no_clients idle_dev = Inl NullDeref"
  by (rule init_without_device) (simp_all add: good_env_def no_clients_def AT_CLIENT_NUM_MAX_def)

end
