(* ===== verification/Board_App.thy ===== *)
theory Board_App
  imports Lcd_Text_Props
begin

text \<open>
  Lights, keys and the entry point: \<open>applications/led.c\<close>, \<open>key.c\<close> and \<open>main.c\<close>.

  The state is the level of every pin that was written, the mode of every pin that was set, and the
  delays in order; what a key reads is a parameter.
\<close>

section \<open>Definitions\<close>

datatype pin_op = PinMode nat nat | PinWrite nat bool | PinDelay nat | AttachIrq nat | EnableIrq nat | Kprintf string

text \<open>\<open>GET_PIN\<close>: sixteen pins for every port, from port A on.\<close>

definition GET_PIN :: "char \<Rightarrow> nat \<Rightarrow> nat" where
  "GET_PIN port pin = 16 * (of_char port - of_char CHR ''A'') + pin"

definition LED0_PIN :: nat where "LED0_PIN = GET_PIN (CHR ''B'') 12"
definition LED1_PIN :: nat where "LED1_PIN = GET_PIN (CHR ''B'') 13"
definition KEY1_PIN :: nat where "KEY1_PIN = GET_PIN (CHR ''G'') 2"
definition KEY2_PIN :: nat where "KEY2_PIN = GET_PIN (CHR ''G'') 3"
definition KEY3_PIN :: nat where "KEY3_PIN = GET_PIN (CHR ''G'') 4"

text \<open>\<open>PIN_MODE_OUTPUT\<close> 0, \<open>PIN_MODE_INPUT_PULLUP\<close> 2; \<open>PIN_LOW\<close> and \<open>PIN_HIGH\<close> are \<open>False\<close> and \<open>True\<close>.\<close>

definition rt_hw_led_init :: "pin_op list" where
  "rt_hw_led_init = [PinMode LED0_PIN 0, PinMode LED1_PIN 0]"

definition led_on :: "nat \<Rightarrow> pin_op list" where "led_on pin = [PinWrite pin False]"
definition led_off :: "nat \<Rightarrow> pin_op list" where "led_off pin = [PinWrite pin True]"

definition led_blink :: "nat \<Rightarrow> nat \<Rightarrow> pin_op list" where
  "led_blink pin time = led_on pin @ [PinDelay time] @ led_off pin @ [PinDelay time]"

text \<open>\<open>r1\<close> and \<open>r2\<close> are the two readings of the key.\<close>

definition key1_callback :: "int \<Rightarrow> int \<Rightarrow> pin_op list" where
  "key1_callback r1 r2 =
     (if r1 = 1 then [Kprintf ''up'', PinWrite LED1_PIN False]
      else if r2 = 0 then [Kprintf ''press'', PinWrite LED1_PIN True]
      else [])"

definition rt_hw_key_init :: "pin_op list" where
  "rt_hw_key_init = [PinMode KEY1_PIN 2, PinMode KEY2_PIN 2, PinMode KEY3_PIN 2]"

definition key_sample :: "pin_op list" where
  "key_sample = rt_hw_key_init @ [AttachIrq KEY1_PIN, EnableIrq KEY1_PIN]"

text \<open>The four labels \<open>main\<close> draws, and one turn of its loop.\<close>

definition main_labels :: "lcd \<Rightarrow> lcd res" where
  "main_labels s =
     and_then (LCD_ShowString 80 20 100 16 16 (bytes ''Car Locator'' @ [0]) s) (\<lambda>s1.
     and_then (LCD_ShowString 20 80 100 16 16 (bytes ''longitude:'' @ [0]) s1) (\<lambda>s2.
     and_then (LCD_ShowString 20 120 100 16 16 (bytes ''latitude:'' @ [0]) s2) (\<lambda>s3.
       LCD_ShowString 20 160 100 16 16 (bytes ''Speed:'' @ [0]) s3)))"

definition main_turn :: "pin_op list" where
  "main_turn = [PinWrite LED0_PIN True, PinWrite LED1_PIN False, PinDelay 500,
     PinWrite LED0_PIN False, PinWrite LED1_PIN True, PinDelay 500]"

text \<open>
  \<open>while (count++)\<close> with \<open>count\<close> 1 before: the condition of the n-th turn reads \<open>n\<close>, and the increment
  overflows when it reads the largest \<open>int\<close>.
\<close>

fun main_loop :: "nat \<Rightarrow> int \<Rightarrow> pin_op list res" where
  "main_loop 0 count = Inr []"
| "main_loop (Suc n) count =
     (if count = 2 ^ 31 - 1 then Inl IntOverflow
      else if count = 0 then Inr []
      else and_then (main_loop n (count + 1)) (\<lambda>r. Inr (main_turn @ r)))"

text \<open>The level of the pins after a sequence of writes.\<close>

fun pin_after :: "pin_op \<Rightarrow> (nat \<Rightarrow> bool) \<Rightarrow> nat \<Rightarrow> bool" where
  "pin_after (PinWrite p v) l = l(p := v)"
| "pin_after e l = l"

definition levels :: "pin_op list \<Rightarrow> (nat \<Rightarrow> bool) \<Rightarrow> nat \<Rightarrow> bool" where
  "levels es l = fold pin_after es l"

section \<open>Lemmas\<close>

lemma levels_append [simp]: "levels (a @ b) l = levels b (levels a l)"
  by (simp add: levels_def)

lemma pins_differ [simp]: "LED0_PIN \<noteq> LED1_PIN" "LED1_PIN \<noteq> LED0_PIN"
  by (simp_all add: LED0_PIN_def LED1_PIN_def GET_PIN_def)

lemma label_returns: "0 \<in> set p \<Longrightarrow> \<exists>s'. LCD_ShowString x y w h sz p s = Inr s'"
  unfolding LCD_ShowString_def by (rule show_string_returns) (simp add: cstring_def)

lemma main_loop_turns:
  "0 < count \<Longrightarrow> count + int n \<le> 2 ^ 31 - 1 \<Longrightarrow> main_loop n count = Inr (concat (replicate n main_turn))"
  by (induction n arbitrary: count) auto

lemma turn_levels: "levels (concat (replicate n main_turn)) l =
   (if n = 0 then l else l(LED0_PIN := False, LED1_PIN := True))"
proof (induction n arbitrary: l)
  case (Suc n)
  have "levels main_turn l = l(LED0_PIN := False, LED1_PIN := True)"
    by (simp add: main_turn_def levels_def fun_upd_twist)
  then have "levels (concat (replicate (Suc n) main_turn)) l =
      levels (concat (replicate n main_turn)) (l(LED0_PIN := False, LED1_PIN := True))" by simp
  also have "\<dots> = l(LED0_PIN := False, LED1_PIN := True)"
    unfolding Suc.IH by (simp add: fun_upd_twist [of LED0_PIN LED1_PIN])
  finally show ?case by simp
qed (simp add: levels_def)

lemma main_loop_overflow: "0 < count \<Longrightarrow> count + int n = 2 ^ 31 - 1 \<Longrightarrow> main_loop (Suc n) count = Inl IntOverflow"
proof (induction n arbitrary: count)
  case (Suc n)
  then have "main_loop (Suc n) (count + 1) = Inl IntOverflow" by (intro Suc.IH) simp_all
  then show ?case using Suc.prems by (subst main_loop.simps(2)) (simp del: main_loop.simps)
qed simp

lemma main_labels_returns: "\<exists>s'. main_labels s = Inr s'"
proof -
  obtain s1 where 1: "LCD_ShowString 80 20 100 16 16 (bytes ''Car Locator'' @ [0]) s = Inr s1"
    using label_returns [of "bytes ''Car Locator'' @ [0]"] by fastforce
  obtain s2 where 2: "LCD_ShowString 20 80 100 16 16 (bytes ''longitude:'' @ [0]) s1 = Inr s2"
    using label_returns [of "bytes ''longitude:'' @ [0]"] by fastforce
  obtain s3 where 3: "LCD_ShowString 20 120 100 16 16 (bytes ''latitude:'' @ [0]) s2 = Inr s3"
    using label_returns [of "bytes ''latitude:'' @ [0]"] by fastforce
  obtain s4 where 4: "LCD_ShowString 20 160 100 16 16 (bytes ''Speed:'' @ [0]) s3 = Inr s4"
    using label_returns [of "bytes ''Speed:'' @ [0]"] by fastforce
  show ?thesis unfolding main_labels_def 1 and_then.simps 2 3 4 by simp
qed

section \<open>Properties\<close>

text \<open>
  \<open>main\<close> draws its labels on every display, then blinks: after \<open>n\<close> turns, for any \<open>n\<close> below
  \<open>2 ^ 31 - 1\<close>, it is still running with the first light low and the second high; the turn after those
  overflows the counter.
\<close>

theorem main_runs:
  assumes "0 < n" "n < 2 ^ 31 - 1"
  shows "(\<exists>s'. main_labels s = Inr s') \<and>
    (\<exists>es. main_loop n 1 = Inr es \<and> levels es l = l(LED0_PIN := False, LED1_PIN := True)) \<and>
    main_loop (2 ^ 31 - 1) 1 = Inl IntOverflow"
proof (intro conjI)
  have "main_loop n 1 = Inr (concat (replicate n main_turn))" using assms(2) by (intro main_loop_turns) simp_all
  then show "\<exists>es. main_loop n 1 = Inr es \<and> levels es l = l(LED0_PIN := False, LED1_PIN := True)"
    using turn_levels [of n l] assms(1) by simp
  have "main_loop (Suc (2 ^ 31 - 2)) 1 = Inl IntOverflow" by (rule main_loop_overflow) simp_all
  moreover have "Suc (2 ^ 31 - 2) = 2 ^ 31 - 1" by simp
  ultimately show "main_loop (2 ^ 31 - 1) 1 = Inl IntOverflow" by (simp only:)
qed (rule main_labels_returns)

theorem main_runs_witness:
  "\<exists>es. main_loop 3 1 = Inr es \<and> levels es (\<lambda>p. False) = (\<lambda>p. False)(LED0_PIN := False, LED1_PIN := True)"
  using main_runs [of 3 "screen 320 240" "\<lambda>p. False"] by simp

end
