(* ===== verification/Server_Link.thy ===== *)
theory Server_Link
  imports C_String Ip_Addr
begin

text \<open>
  The connection to the server, \<open>applications/client_server.c\<close>: the shell command \<open>a9g\<close> and the
  functions around the socket layer it calls.

  The socket layer (\<open>at_socket\<close>, \<open>at_connect\<close>, \<open>at_closesocket\<close>, \<open>at_send\<close>, \<open>at_recv\<close>) is a parameter
  here, the record \<open>net\<close> of operations on a state of its own: what holds for every such layer is
  proved in this theory.  The theory \<open>Link_Stack\<close> puts the AT socket layer in its place.
\<close>

section \<open>State\<close>

datatype sock_op =
    AtSocket u8 u8 u8 int | AtConnect int u16 u16 u32 int | AtClose int int | AtSend int mem int
  | AtRecv int nat int | ThreadDelay nat | Yield | Printed mem

text \<open>
  The operations: domain, type and protocol; descriptor and the address and port of a
  \<open>sockaddr_in\<close>; descriptor; descriptor and data; descriptor and size of the buffer, with the data
  stored, \<open>None\<close> when the call does not return.
\<close>

record 'w net =
  n_socket :: "u8 \<Rightarrow> u8 \<Rightarrow> u8 \<Rightarrow> 'w \<Rightarrow> (int \<times> 'w) res"
  n_connect :: "int \<Rightarrow> u32 \<times> u16 \<Rightarrow> 'w \<Rightarrow> (int \<times> 'w) res"
  n_close :: "int \<Rightarrow> 'w \<Rightarrow> (int \<times> 'w) res"
  n_send :: "int \<Rightarrow> mem \<Rightarrow> 'w \<Rightarrow> (int \<times> 'w) res"
  n_recv :: "int \<Rightarrow> nat \<Rightarrow> 'w \<Rightarrow> ((int \<times> mem \<times> 'w) res) option"

record 'w client =
  g_socket_id :: int
  calls :: "sock_op list"
  world :: 'w

definition call :: "sock_op \<Rightarrow> 'w client \<Rightarrow> 'w client" where
  "call e c = c\<lparr>calls := calls c @ [e]\<rparr>"

text \<open>A call of the layer, recorded with its result.\<close>

definition ask_net :: "('w \<Rightarrow> (int \<times> 'w) res) \<Rightarrow> (int \<Rightarrow> sock_op) \<Rightarrow> 'w client \<Rightarrow> (int \<times> 'w client) res" where
  "ask_net f ev c = and_then (f (world c)) (\<lambda>(r, w). Inr (r, call (ev r) (c\<lparr>world := w\<rparr>)))"

text \<open>The globals at start.\<close>

definition client0 :: "'w \<Rightarrow> 'w client" where "client0 w = \<lparr>g_socket_id = - 1, calls = [], world = w\<rparr>"

section \<open>Around the socket layer\<close>

text \<open>\<open>AF_INET\<close> 2, \<open>SOCK_STREAM\<close> 1, \<open>IPPROTO_IP\<close> 0.\<close>

definition socket_create :: "'w net \<Rightarrow> 'w client \<Rightarrow> (int \<times> 'w client) res" where
  "socket_create nw c = ask_net (n_socket nw 2 1 0) (AtSocket 2 1 0) c"

text \<open>\<open>RT_EOK\<close> 0, \<open>RT_ERROR\<close> 1.\<close>

definition socket_connect :: "'w net \<Rightarrow> int \<Rightarrow> mem \<Rightarrow> int \<Rightarrow> 'w client \<Rightarrow> (int \<times> 'w client) res" where
  "socket_connect nw socket_id remote_addr remote_port c =
     and_then (netdev_ipaddr_addr remote_addr) (\<lambda>s_addr.
     and_then (ask_net (n_connect nw socket_id (s_addr, htons remote_port)) (AtConnect socket_id 2 (htons remote_port) s_addr) c) (\<lambda>(r, c1).
       Inr (if r = 0 then 0 else 1, c1)))"

definition socket_close :: "'w net \<Rightarrow> int \<Rightarrow> 'w client \<Rightarrow> (int \<times> 'w client) res" where
  "socket_close nw socket_id c =
     and_then (ask_net (n_close nw socket_id) (AtClose socket_id) c) (\<lambda>(r, c1). Inr (if r = 0 then 0 else 1, c1))"

definition socket_send :: "'w net \<Rightarrow> int \<Rightarrow> mem \<Rightarrow> 'w client \<Rightarrow> (int \<times> 'w client) res" where
  "socket_send nw socket_id data c = ask_net (n_send nw socket_id data) (AtSend socket_id data) c"

text \<open>
  \<open>at_recv\<close> with \<open>MSG_DONTWAIT\<close> stores what it received at the start of \<open>data_buf\<close>; the answer is cut
  to \<open>data_len\<close>, the most it may store.
\<close>

definition socket_receive :: "'w net \<Rightarrow> int \<Rightarrow> mem \<Rightarrow> nat \<Rightarrow> 'w client \<Rightarrow> ((int \<times> mem \<times> 'w client) res) option" where
  "socket_receive nw socket_id data_buf data_len c =
     map_option (\<lambda>m. and_then m (\<lambda>(r, d, w). let d' = take data_len d in
         Inr (r, d' @ drop (length d') data_buf, call (AtRecv socket_id data_len r) (c\<lparr>world := w\<rparr>))))
       (n_recv nw socket_id data_len (world c))"

section \<open>The receive thread\<close>

text \<open>\<open>%s\<close> of the buffer: the bytes before its first NUL.\<close>

fun print_s :: "mem \<Rightarrow> mem res" where
  "print_s [] = Inl OutOfBounds"
| "print_s (b # r) = (if b = 0 then Inr [] else and_then (print_s r) (\<lambda>t. Inr (b # t)))"

text \<open>One turn of \<open>receive_aliot_http_process_thread\<close>.\<close>

definition receive_turn :: "'w net \<Rightarrow> mem \<times> 'w client \<Rightarrow> ((mem \<times> 'w client) res) option" where
  "receive_turn nw st =
     (case st of (data_ptr, c) \<Rightarrow>
      map_option (\<lambda>m. and_then m (\<lambda>(r, buf, c1).
          and_then (if r > 0 then and_then (print_s buf) (\<lambda>t. Inr (replicate 384 0, call (Printed t) c1)) else Inr (buf, c1))
            (\<lambda>(buf', c2). Inr (buf', call Yield (call (ThreadDelay 1) c2)))))
        (socket_receive nw (g_socket_id c) data_ptr 384 c))"

section \<open>The shell command\<close>

definition connect_aliot_http_device :: "'w net \<Rightarrow> 'w client \<Rightarrow> 'w client res" where
  "connect_aliot_http_device nw c =
     and_then (if g_socket_id c \<ge> 0 then and_then (socket_close nw (g_socket_id c) c) (\<lambda>(r, c1). Inr c1) else Inr c) (\<lambda>c1.
     and_then (socket_create nw c1) (\<lambda>(socket_id, c2).
       let c3 = c2\<lparr>g_socket_id := socket_id\<rparr>
       in if g_socket_id c3 \<ge> 0
          then and_then (socket_connect nw (g_socket_id c3) (bytes ''47.100.28.6'' @ [0]) 8086 c3) (\<lambda>(r, c4).
                 Inr (if r = 0 then call (ThreadDelay 500) c4 else c4))
          else Inr c3))"

definition disconnect_aliot_http_device :: "'w net \<Rightarrow> 'w client \<Rightarrow> 'w client res" where
  "disconnect_aliot_http_device nw c =
     and_then (socket_close nw (g_socket_id c) c) (\<lambda>(r, c1). Inr (if r = 0 then call (ThreadDelay 500) c1 else c1))"

text \<open>\<open>argv\<close> as the texts of the arguments; the messages of the shell have no effect here.\<close>

definition a9g :: "'w net \<Rightarrow> string list \<Rightarrow> 'w client \<Rightarrow> 'w client res" where
  "a9g nw argv c =
     (if length argv > 1
      then if argv ! 1 = ''connect'' then connect_aliot_http_device nw c
           else if argv ! 1 = ''post''
           then and_then (socket_send nw (g_socket_id c) (bytes ''hello RT-Thread'' @ [0]) c) (\<lambda>(r, c1). Inr c1)
           else if argv ! 1 = ''get'' then Inr c
           else if argv ! 1 = ''close'' then disconnect_aliot_http_device nw c
           else Inr c
      else Inr c)"

section \<open>Open sockets\<close>

text \<open>
  The descriptors that are open after a sequence of calls: \<open>at_closesocket\<close> gives the socket back
  whatever it returns.
\<close>

fun open_after :: "sock_op \<Rightarrow> int set \<Rightarrow> int set" where
  "open_after (AtSocket d t p i) os = (if i \<ge> 0 then insert i os else os)"
| "open_after (AtClose i r) os = os - {i}"
| "open_after e os = os"

definition open_socks :: "sock_op list \<Rightarrow> int set" where
  "open_socks h = fold open_after h {}"

text \<open>States the shell can reach.\<close>

inductive shell :: "'w net \<Rightarrow> 'w \<Rightarrow> 'w client \<Rightarrow> bool" for nw w where
  shell_start: "shell nw w (client0 w)"
| shell_cmd: "shell nw w c \<Longrightarrow> a9g nw argv c = Inr c' \<Longrightarrow> shell nw w c'"

text \<open>At most the descriptor in \<open>g_socket_id\<close> is open.\<close>

definition one_socket :: "'w client \<Rightarrow> bool" where
  "one_socket c \<longleftrightarrow> open_socks (calls c) \<subseteq> {g_socket_id c} \<inter> {0..}"

text \<open>A socket layer that gives out the descriptor \<open>i\<close> and on which every call succeeds.\<close>

definition good_net :: "int \<Rightarrow> mem \<Rightarrow> unit net" where
  "good_net i d = \<lparr>n_socket = (\<lambda>f t p w. Inr (i, w)), n_connect = (\<lambda>i a w. Inr (0, w)), n_close = (\<lambda>i w. Inr (0, w)),
     n_send = (\<lambda>i b w. Inr (int (length b), w)), n_recv = (\<lambda>i n w. Some (Inr (int (length d), d, w)))\<rparr>"

section \<open>Lemmas\<close>

lemma calls_call [simp]: "calls (call e c) = calls c @ [e]" "g_socket_id (call e c) = g_socket_id c" "world (call e c) = world c"
  by (simp_all add: call_def)

lemma open_socks_append [simp]: "open_socks (h @ es) = fold open_after es (open_socks h)" "open_socks [] = {}"
  by (simp_all add: open_socks_def)

lemma ask_net_Inr [simp]:
  "ask_net f ev c = Inr (r, c') \<longleftrightarrow> (\<exists>w. f (world c) = Inr (r, w) \<and> c' = call (ev r) (c\<lparr>world := w\<rparr>))"
  by (auto simp: ask_net_def)

lemma close_Inr:
  "socket_close nw i c = Inr (x, c') \<Longrightarrow> \<exists>r. calls c' = calls c @ [AtClose i r] \<and> g_socket_id c' = g_socket_id c"
  by (auto simp: socket_close_def)

lemma create_Inr:
  "socket_create nw c = Inr (i, c') \<Longrightarrow> calls c' = calls c @ [AtSocket 2 1 0 i] \<and> g_socket_id c' = g_socket_id c"
  by (auto simp: socket_create_def)

lemma connect_Inr:
  "socket_connect nw i a p c = Inr (x, c') \<Longrightarrow> \<exists>s r. calls c' = calls c @ [AtConnect i 2 (htons p) s r] \<and> g_socket_id c' = g_socket_id c"
  by (auto simp: socket_connect_def)

lemma send_Inr:
  "socket_send nw i d c = Inr (r, c') \<Longrightarrow> calls c' = calls c @ [AtSend i d r] \<and> g_socket_id c' = g_socket_id c"
  by (auto simp: socket_send_def)

text \<open>The three steps of \<open>connect\<close>: the old socket is closed, a new one is opened, and it is connected.\<close>

lemma connect_device_cases:
  assumes "connect_aliot_http_device nw c = Inr c'"
  obtains c1 i c2 where "if 0 \<le> g_socket_id c then \<exists>x. socket_close nw (g_socket_id c) c = Inr (x, c1) else c1 = c"
    "socket_create nw c1 = Inr (i, c2)"
    "if 0 \<le> i then \<exists>x c4. socket_connect nw i (bytes ''47.100.28.6'' @ [0]) 8086 (c2\<lparr>g_socket_id := i\<rparr>) = Inr (x, c4) \<and>
       c' = (if x = 0 then call (ThreadDelay 500) c4 else c4) else c' = c2\<lparr>g_socket_id := i\<rparr>"
proof -
  obtain c1 where c1: "(if g_socket_id c \<ge> 0 then and_then (socket_close nw (g_socket_id c) c) (\<lambda>(r, c1). Inr c1) else Inr c) = Inr c1"
      "and_then (socket_create nw c1) (\<lambda>(socket_id, c2). let c3 = c2\<lparr>g_socket_id := socket_id\<rparr> in
         if g_socket_id c3 \<ge> 0
         then and_then (socket_connect nw (g_socket_id c3) (bytes ''47.100.28.6'' @ [0]) 8086 c3) (\<lambda>(r, c4).
                Inr (if r = 0 then call (ThreadDelay 500) c4 else c4))
         else Inr c3) = Inr c'"
    using assms unfolding connect_aliot_http_device_def and_then_Inr_iff by blast
  obtain i c2 where c2: "socket_create nw c1 = Inr (i, c2)" using c1(2) by (cases "socket_create nw c1") auto
  have "if 0 \<le> g_socket_id c then \<exists>x. socket_close nw (g_socket_id c) c = Inr (x, c1) else c1 = c"
    using c1(1) by (auto split: if_splits)
  moreover have "if 0 \<le> i then \<exists>x c4. socket_connect nw i (bytes ''47.100.28.6'' @ [0]) 8086 (c2\<lparr>g_socket_id := i\<rparr>) = Inr (x, c4) \<and>
       c' = (if x = 0 then call (ThreadDelay 500) c4 else c4) else c' = c2\<lparr>g_socket_id := i\<rparr>"
    using c1(2) unfolding c2 and_then.simps Let_def by (auto split: if_splits)
  ultimately show ?thesis using that c2 by blast
qed

lemma one_socket_connect:
  assumes "one_socket c" "connect_aliot_http_device nw c = Inr c'"
  shows "one_socket c'"
proof -
  obtain c1 i c2 where c1: "if 0 \<le> g_socket_id c then \<exists>x. socket_close nw (g_socket_id c) c = Inr (x, c1) else c1 = c"
    and c2: "socket_create nw c1 = Inr (i, c2)"
    and c': "if 0 \<le> i then \<exists>x c4. socket_connect nw i (bytes ''47.100.28.6'' @ [0]) 8086 (c2\<lparr>g_socket_id := i\<rparr>) = Inr (x, c4) \<and>
       c' = (if x = 0 then call (ThreadDelay 500) c4 else c4) else c' = c2\<lparr>g_socket_id := i\<rparr>"
    by (rule connect_device_cases [OF assms(2)])
  have "open_socks (calls c1) = {}"
  proof (cases "0 \<le> g_socket_id c")
    case True
    then obtain x where "socket_close nw (g_socket_id c) c = Inr (x, c1)" using c1 by auto
    from close_Inr [OF this] have "open_socks (calls c1) = open_socks (calls c) - {g_socket_id c}" by force
    then show ?thesis using assms(1) unfolding one_socket_def by blast
  qed (use c1 assms(1) in \<open>auto simp: one_socket_def\<close>)
  then have o2: "open_socks (calls c2) = (if 0 \<le> i then {i} else {})" using create_Inr [OF c2] by simp
  show ?thesis
  proof (cases "0 \<le> i")
    case True
    with c' obtain x c4 where c4: "socket_connect nw i (bytes ''47.100.28.6'' @ [0]) 8086 (c2\<lparr>g_socket_id := i\<rparr>) = Inr (x, c4)"
        "c' = (if x = 0 then call (ThreadDelay 500) c4 else c4)" by (auto simp del: bytes_Cons bytes_append)
    from connect_Inr [OF c4(1)] have "open_socks (calls c4) = open_socks (calls c2)" "g_socket_id c4 = i" by force+
    then have "open_socks (calls c') = {i}" "g_socket_id c' = i" using o2 True by (simp_all add: c4(2))
    then show ?thesis using True by (simp add: one_socket_def)
  next
    case False
    then show ?thesis using c' o2 by (simp add: one_socket_def)
  qed
qed

lemma disconnect_cases:
  "disconnect_aliot_http_device nw c = Inr c' \<Longrightarrow> \<exists>x c1. socket_close nw (g_socket_id c) c = Inr (x, c1) \<and>
     c' = (if x = 0 then call (ThreadDelay 500) c1 else c1)"
  unfolding disconnect_aliot_http_device_def by auto

lemma one_socket_disconnect:
  assumes "one_socket c" "disconnect_aliot_http_device nw c = Inr c'"
  shows "one_socket c'"
proof -
  obtain x c1 where c1: "socket_close nw (g_socket_id c) c = Inr (x, c1)" "c' = (if x = 0 then call (ThreadDelay 500) c1 else c1)"
    using disconnect_cases [OF assms(2)] by blast
  from close_Inr [OF c1(1)] have "open_socks (calls c1) = open_socks (calls c) - {g_socket_id c}" "g_socket_id c1 = g_socket_id c" by force+
  then have "open_socks (calls c') = open_socks (calls c) - {g_socket_id c}" "g_socket_id c' = g_socket_id c" by (simp_all add: c1(2))
  then show ?thesis using assms(1) unfolding one_socket_def by auto
qed

lemma a9g_cases:
  assumes "a9g nw argv c = Inr c'"
  shows "connect_aliot_http_device nw c = Inr c' \<or> disconnect_aliot_http_device nw c = Inr c' \<or> c' = c \<or>
    (\<exists>r. socket_send nw (g_socket_id c) (bytes ''hello RT-Thread'' @ [0]) c = Inr (r, c'))"
  using assms unfolding a9g_def by (auto simp del: bytes_Cons bytes_append split: if_splits)

lemma one_socket_a9g:
  assumes "one_socket c" "a9g nw argv c = Inr c'"
  shows "one_socket c'"
proof -
  have "one_socket c'" if "socket_send nw (g_socket_id c) b c = Inr (r, c')" for b r
    using send_Inr [OF that] assms(1) by (simp add: one_socket_def)
  then show ?thesis using a9g_cases [OF assms(2)] assms(1) one_socket_connect one_socket_disconnect by blast
qed

lemma one_socket_client0: "one_socket (client0 w)"
  by (simp add: one_socket_def client0_def)

lemma one_socket_shell: "shell nw w c \<Longrightarrow> one_socket c"
  by (induction rule: shell.induct) (auto intro: one_socket_client0 one_socket_a9g)

lemma print_s_cases: "if cstring m then \<exists>t. print_s m = Inr t else print_s m = Inl OutOfBounds"
proof (induction m)
  case (Cons b r)
  then show ?case by (auto simp: cstring_Cons split: if_splits)
qed (simp add: cstring_def)

text \<open>The address of the server, as \<open>inet_addr\<close> reads it.\<close>

lemma server_addr: "netdev_ipaddr_addr (bytes ''47.100.28.6'' @ [0]) = Inr 0x061C642F"
proof -
  have "dotted 0x061C642F = bytes ''47.100.28.6''"
    by (simp add: dotted_def ip_byte_def dec_digits.simps)
  then show ?thesis using aton_dotted [of 0 "0x061C642F" "[]"] by (simp add: netdev_ipaddr_addr_def)
qed

lemma good_net_sel [simp]:
  "n_socket (good_net i d) x y z w = Inr (i, w)" "n_connect (good_net i d) j a w = Inr (0, w)" "n_close (good_net i d) j w = Inr (0, w)"
  by (simp_all add: good_net_def)

lemma good_connect:
  assumes "0 \<le> i"
  shows "\<exists>c. a9g (good_net i d) [x, ''connect''] (client0 ()) = Inr c \<and> g_socket_id c = i"
  using assms server_addr
  by (simp add: a9g_def connect_aliot_http_device_def socket_create_def socket_connect_def ask_net_def client0_def Let_def)

section \<open>Properties\<close>

text \<open>
  Whatever commands are given and whatever the socket layer answers, no socket other than the
  one in \<open>g_socket_id\<close> stays open.
\<close>

theorem server_one_socket:
  assumes "shell nw w c"
  shows "open_socks (calls c) \<subseteq> {g_socket_id c} \<inter> {0..}"
  using one_socket_shell [OF assms] by (simp add: one_socket_def)

theorem server_one_socket_witness:
  "\<exists>c. a9g (good_net 5 []) [''a9g'', ''connect''] (client0 ()) = Inr c \<and> open_socks (calls c) \<subseteq> {5}"
proof -
  obtain c where c: "a9g (good_net 5 []) [''a9g'', ''connect''] (client0 ()) = Inr c" "g_socket_id c = 5"
    using good_connect [of 5] by auto
  have "shell (good_net 5 []) () c" by (rule shell_cmd [OF shell_start c(1)])
  from server_one_socket [OF this] c show ?thesis by auto
qed

text \<open>
  After \<open>close\<close> the command \<open>post\<close> still sends on the descriptor that was closed.
\<close>

theorem post_after_close:
  assumes "a9g nw [x, ''close''] c = Inr d" "a9g nw [y, ''post''] d = Inr d'"
  shows "g_socket_id c \<notin> open_socks (calls d) \<and>
    (\<exists>r. calls d' = calls d @ [AtSend (g_socket_id c) (bytes ''hello RT-Thread'' @ [0]) r])"
proof -
  have "disconnect_aliot_http_device nw c = Inr d" using assms(1) by (simp add: a9g_def)
  then obtain x c1 where c1: "socket_close nw (g_socket_id c) c = Inr (x, c1)" "d = (if x = 0 then call (ThreadDelay 500) c1 else c1)"
    using disconnect_cases by blast
  obtain r where "socket_send nw (g_socket_id d) (bytes ''hello RT-Thread'' @ [0]) d = Inr (r, d')"
    using assms(2) by (auto simp: a9g_def simp del: bytes_Cons bytes_append)
  from send_Inr [OF this] close_Inr [OF c1(1)] show ?thesis by (auto simp: c1(2))
qed

theorem post_after_close_witness:
  "\<exists>c d. a9g (good_net 5 []) [''a9g'', ''connect''] (client0 ()) = Inr c \<and> a9g (good_net 5 []) [''a9g'', ''close''] c = Inr d \<and>
     5 \<notin> open_socks (calls d)"
proof -
  obtain c where c: "a9g (good_net 5 []) [''a9g'', ''connect''] (client0 ()) = Inr c" "g_socket_id c = 5"
    using good_connect [of 5] by auto
  obtain d d' where d: "a9g (good_net 5 []) [''a9g'', ''close''] c = Inr d" "a9g (good_net 5 []) [''a9g'', ''post''] d = Inr d'"
    by (simp add: a9g_def disconnect_aliot_http_device_def socket_close_def socket_send_def ask_net_def good_net_def)
  from post_after_close [OF d] c d show ?thesis by auto
qed

text \<open>
  A turn of the receive thread prints past its buffer exactly when something was received and
  the buffer then holds no NUL byte.
\<close>

theorem receive_turn_faults:
  assumes "n_recv nw (g_socket_id c) 384 (world c) = Some (Inr (r, d, w))"
  shows "receive_turn nw (buf, c) = Some (Inl OutOfBounds) \<longleftrightarrow>
     r > 0 \<and> \<not> cstring (take 384 d @ drop (length (take 384 d)) buf)"
  using print_s_cases [of "take 384 d @ drop (length (take 384 d)) buf"] assms
  by (auto simp: receive_turn_def socket_receive_def Let_def split: if_splits)

theorem receive_turn_faults_witness:
  "receive_turn (good_net 5 (replicate 400 1)) (replicate 384 0, client0 ()) = Some (Inl OutOfBounds)"
  using receive_turn_faults [of "good_net 5 (replicate 400 1)" "client0 ()" 400 "replicate 400 1" "()" "replicate 384 0"]
  by (simp add: good_net_def cstring_def)

end
