(* ===== verification/Car_System.thy ===== *)
theory Car_System
  imports Gps_Props Board_App Server_Link
begin

text \<open>
  The threads together: the positioning thread with the display it draws on, the shell with the
  server connection, the entry point with its lights, and the key interrupt.  A step of the system is
  one turn of one of them, in any order.
\<close>

section \<open>Definitions\<close>

record 'w car =
  line_buf :: mem
  gps :: gps_sys
  panel :: lcd
  link :: "'w client"
  pins :: "nat \<Rightarrow> bool"

text \<open>The calls of the handlers carried out by the display driver.\<close>

fun serve :: "show_req list \<Rightarrow> lcd \<Rightarrow> lcd res" where
  "serve [] d = Inr d"
| "serve (ShowString x y w h sz t # rs) d = and_then (LCD_ShowString x y w h sz t d) (serve rs)"

text \<open>
  The step relation.  The turn of the positioning thread is given what the UART delivers, any input,
  and shows what the turn asked for.
\<close>

inductive car_step :: "'w net \<Rightarrow> 'w car \<Rightarrow> 'w car \<Rightarrow> bool" for nw where
  step_gps: "gps_thread_turn inp (line_buf c) (gps c) = Some (Inr (r, l, g)) \<Longrightarrow>
     shown g = shown (gps c) @ rs \<Longrightarrow> serve rs (panel c) = Inr d \<Longrightarrow>
     car_step nw c (c\<lparr>line_buf := l, gps := g, panel := d\<rparr>)"
| step_labels: "main_labels (panel c) = Inr d \<Longrightarrow> car_step nw c (c\<lparr>panel := d\<rparr>)"
| step_blink: "car_step nw c (c\<lparr>pins := levels main_turn (pins c)\<rparr>)"
| step_key: "car_step nw c (c\<lparr>pins := levels (key1_callback r1 r2) (pins c)\<rparr>)"
| step_shell: "a9g nw argv (link c) = Inr k \<Longrightarrow> car_step nw c (c\<lparr>link := k\<rparr>)"

inductive_cases car_stepE: "car_step nw c c'"

definition car_start :: "lcd \<Rightarrow> 'w \<Rightarrow> 'w car" where
  "car_start d w = \<lparr>line_buf = replicate 512 0, gps = gps_zero, panel = d, link = client0 w, pins = (\<lambda>p. False)\<rparr>"

definition req_ok :: "show_req \<Rightarrow> bool" where
  "req_ok q = (case q of ShowString x y w h sz t \<Rightarrow> length t = 50 \<and> cstring t)"

text \<open>The invariant of the system.\<close>

definition car_inv :: "'w car \<Rightarrow> bool" where
  "car_inv c \<longleftrightarrow> length (line_buf c) = GPS_DEVICE_RECV_BUFF_LEN \<and> list_all req_ok (shown (gps c)) \<and> one_socket (link c)"

text \<open>What a handler does to the requests: it adds some, all of them well-formed.\<close>

definition grows :: "gps_sys \<Rightarrow> gps_sys \<Rightarrow> bool" where
  "grows s s' \<longleftrightarrow> (\<exists>rs. shown s' = shown s @ rs \<and> list_all req_ok rs)"

section \<open>Requests\<close>

lemma growsI: "shown s' = shown s \<Longrightarrow> grows s s'"
  by (simp add: grows_def)

lemma grows_trans: "grows s s' \<Longrightarrow> grows s' s'' \<Longrightarrow> grows s s''"
  unfolding grows_def by (metis append_assoc list_all_append)

lemma sprintf50_ok: "sprintf50 t = Inr d \<Longrightarrow> length d = 50 \<and> cstring d"
  by (auto simp: sprintf50_def cstring_def split: if_splits)

lemma show_grows: "sprintf50 t = Inr d \<Longrightarrow> grows s (show_text x y d (set_msg f s))"
  using sprintf50_ok by (auto simp: grows_def show_text_def set_msg_def req_ok_def)

lemma with_field_grows:
  assumes "with_field p cx f s = Inr s'" "\<And>q a b. f q a = Inr b \<Longrightarrow> grows (v a) (v b)"
  shows "grows (v s) (v s')"
  using assms by (auto simp: with_field_def growsI split: if_splits)

lemma set_msg_shown [simp]: "shown (set_msg f s) = shown s"
  by (simp add: set_msg_def)

lemma rmc_field_grows:
  "rmc_time p s = Inr s' \<Longrightarrow> grows s s'"
  "rmc_hemi p cx u s = Inr s' \<Longrightarrow> grows s s'"
  "rmc_date p s = Inr s' \<Longrightarrow> grows s s'"
  unfolding rmc_time_def rmc_hemi_def rmc_date_def num_field_def
  by (erule with_field_grows [where v = id, simplified]; auto simp: growsI Let_def)+

lemma rmc_coord_grows: "rmc_coord p cx u h y (o3, s) = Inr (o3', s') \<Longrightarrow> grows s s'"
  unfolding rmc_coord_def
  by (drule with_field_grows [where v = snd])
    (auto simp: Let_def intro: show_grows)

lemma rmc_log_grows: "rmc_log lon lat s = Inr s' \<Longrightarrow> grows s s'"
  by (auto simp: rmc_log_def Let_def log_text_def growsI split: if_splits)

lemma rmc_grows: "NMEA_GNRMC_Analysis s buf = Inr s' \<Longrightarrow> grows s s'"
proof -
  assume "NMEA_GNRMC_Analysis s buf = Inr s'"
  then obtain p1 s1 s2 lat s3 s4 lon s5 s6 where
    "rmc_time p1 (s\<lparr>rmc_count := rmc_count s + 1\<rparr>) = Inr s1" "rmc_hemi p1 4 (\<lambda>c g. g\<lparr>nshemi := c\<rparr>) s1 = Inr s2"
    "rmc_coord p1 3 (\<lambda>d g. g\<lparr>latitude := d\<rparr>) nshemi 120 (None, s2) = Inr (lat, s3)"
    "rmc_hemi p1 6 (\<lambda>c g. g\<lparr>ewhemi := c\<rparr>) s3 = Inr s4"
    "rmc_coord p1 5 (\<lambda>d g. g\<lparr>longitude := d\<rparr>) ewhemi 80 (None, s4) = Inr (lon, s5)"
    "rmc_date p1 s5 = Inr s6" "rmc_log lon lat s6 = Inr s'"
    unfolding NMEA_GNRMC_Analysis_def Let_def by auto
  then have "grows (s\<lparr>rmc_count := rmc_count s + 1\<rparr>) s'"
    by (meson grows_trans rmc_field_grows rmc_coord_grows rmc_log_grows)
  then show ?thesis by (simp add: grows_def)
qed

lemma vtg_grows: "NMEA_GNVTG_Analysis s buf = Inr s' \<Longrightarrow> grows s s'"
  unfolding NMEA_GNVTG_Analysis_def
  by (auto simp: Let_def intro: show_grows dest!: with_field_grows [where v = id, simplified])

lemma on_tag_grows:
  assumes "on_tag tag h buf s = Inr s'" "\<And>a b. h a buf = Inr b \<Longrightarrow> grows a b"
  shows "grows s s'"
  using assms by (auto simp: on_tag_def growsI split: option.splits)

lemma lift_msg_grows: "lift_msg h s buf = Inr s' \<Longrightarrow> grows s s'"
  by (auto simp: lift_msg_def growsI)

lemma GPS_Analysis_grows:
  assumes "GPS_Analysis s buf = Inr s'"
  shows "grows s s'"
proof -
  obtain s1 s2 s3 s4 where
    "on_tag ''$GPGSV'' (lift_msg NMEA_GPGSV_Analysis) buf s = Inr s1" "on_tag ''$GNGGA'' (lift_msg NMEA_GNGGA_Analysis) buf s1 = Inr s2"
    "on_tag ''$GPGSA'' (lift_msg NMEA_GPGSA_Analysis) buf s2 = Inr s3" and
    4: "on_tag ''GNRMC'' NMEA_GNRMC_Analysis buf s3 = Inr s4" "on_tag ''$GNVTG'' NMEA_GNVTG_Analysis buf s4 = Inr s'"
    using assms unfolding GPS_Analysis_def by auto
  then have "grows s s1" "grows s1 s2" "grows s2 s3" by (auto elim!: on_tag_grows intro: lift_msg_grows)
  moreover have "grows s3 s4" "grows s4 s'"
    by (rule on_tag_grows [OF 4(1)], erule rmc_grows) (rule on_tag_grows [OF 4(2)], erule vtg_grows)
  ultimately show ?thesis by (meson grows_trans)
qed

lemma serve_returns: "list_all req_ok rs \<Longrightarrow> \<exists>d'. serve rs d = Inr d'"
proof (induction rs arbitrary: d)
  case (Cons r rs)
  obtain x y w h sz t where r: "r = ShowString x y w h sz t" by (cases r)
  obtain d1 where "LCD_ShowString x y w h sz t d = Inr d1"
    using Cons.prems show_string_returns by (fastforce simp: r req_ok_def LCD_ShowString_def)
  then show ?case using Cons.IH [of d1] Cons.prems by (simp add: r)
qed simp

section \<open>The invariant\<close>

lemma turn_cases:
  assumes "length l = GPS_DEVICE_RECV_BUFF_LEN" "gps_thread_turn inp l g = Some m"
  shows "\<exists>l' r. length l' = GPS_DEVICE_RECV_BUFF_LEN \<and> cstring l' \<and>
    m = and_then (GPS_Analysis g l') (\<lambda>g'. Inr (r, l', g'))"
proof -
  obtain n where n: "data_read inp l (int GPS_DEVICE_RECV_BUFF_LEN) = Some n"
      "m = and_then n (\<lambda>(line', r). and_then (GPS_Analysis g line') (\<lambda>s'. Inr (r, line', s')))"
    using assms(2) unfolding gps_thread_turn_def by auto
  obtain b r where "n = Inr (b, r)" "length b = GPS_DEVICE_RECV_BUFF_LEN" "cstring b"
    using data_read_safe [OF assms(1) n(1)] by blast
  then show ?thesis using n(2) by (intro exI [of _ b] exI [of _ r]) simp
qed

lemma turn_ok:
  assumes "length l = GPS_DEVICE_RECV_BUFF_LEN" "gps_thread_turn inp l g = Some (Inr (r, l', g'))"
  shows "length l' = GPS_DEVICE_RECV_BUFF_LEN \<and> grows g g'"
proof -
  obtain l1 r1 where l: "length l1 = GPS_DEVICE_RECV_BUFF_LEN" "and_then (GPS_Analysis g l1) (\<lambda>g'. Inr (r1, l1, g')) = Inr (r, l', g')"
    using turn_cases [OF assms] by metis
  from l(2) have "l1 = l'" "GPS_Analysis g l1 = Inr g'" by auto
  then show ?thesis using l(1) GPS_Analysis_grows by blast
qed

lemma car_step_inv: "car_step nw c c' \<Longrightarrow> car_inv c \<Longrightarrow> car_inv c'"
proof (induction rule: car_step.induct)
  case (step_gps inp c r l g rs d)
  then have "length l = GPS_DEVICE_RECV_BUFF_LEN" "grows (gps c) g"
    using turn_ok [OF _ step_gps(1)] by (auto simp: car_inv_def)
  then show ?case using step_gps(4) by (auto simp: car_inv_def grows_def)
qed (auto simp: car_inv_def one_socket_a9g)

lemma car_inv_start: "car_inv (car_start d w)"
  by (simp add: car_inv_def car_start_def gps_zero_def GPS_DEVICE_RECV_BUFF_LEN_def one_socket_client0)

lemma car_reach_inv: "(car_step nw)\<^sup>*\<^sup>* (car_start d w) c \<Longrightarrow> car_inv c"
  by (induction rule: rtranclp_induct) (auto intro: car_inv_start car_step_inv)

lemma car_step_enabled:
  assumes "car_inv c" "gps_thread_turn inp (line_buf c) (gps c) = Some (Inr (r, l, g))"
  shows "\<exists>d. car_step nw c (c\<lparr>line_buf := l, gps := g, panel := d\<rparr>)"
proof -
  obtain rs where rs: "shown g = shown (gps c) @ rs" "list_all req_ok rs"
    using turn_ok [OF _ assms(2)] assms(1) by (auto simp: car_inv_def grows_def)
  obtain d where "serve rs (panel c) = Inr d" using serve_returns [OF rs(2)] by blast
  with assms(2) rs(1) show ?thesis by (blast intro: step_gps)
qed

text \<open>Only a turn of the positioning thread changes the position.\<close>

lemma gps_changed: "car_step nw c c' \<Longrightarrow> gps c' \<noteq> gps c \<Longrightarrow>
   \<exists>inp r. gps_thread_turn inp (line_buf c) (gps c) = Some (Inr (r, line_buf c', gps c'))"
  by (erule car_stepE) auto

section \<open>Properties\<close>

text \<open>
  C1: in every state the system can reach, whatever the UART delivered, whatever commands were given
  and in whatever order the threads ran, the line buffer keeps its size, every text handed to the
  display is terminated inside its 50 bytes, and no socket but the current one is open; and whenever
  a turn of the positioning thread does not fault in the analyser, the display shows what it asks
  for: the step is possible.
\<close>

theorem car_system_runs:
  assumes "(car_step nw)\<^sup>*\<^sup>* (car_start d w) c"
  shows "car_inv c \<and>
    (\<forall>inp r l g. gps_thread_turn inp (line_buf c) (gps c) = Some (Inr (r, l, g)) \<longrightarrow>
       (\<exists>e. car_step nw c (c\<lparr>line_buf := l, gps := g, panel := e\<rparr>)))"
  using car_reach_inv [OF assms] car_step_enabled by blast

theorem car_system_runs_witness:
  "\<exists>k. a9g (good_net 3 []) [''a9g'', ''connect''] (client0 ()) = Inr k \<and> car_inv ((car_start (screen 320 240) ())\<lparr>link := k\<rparr>)"
proof -
  obtain k where k: "a9g (good_net 3 []) [''a9g'', ''connect''] (client0 ()) = Inr k" using good_connect [of 3] by auto
  let ?c = "car_start (screen 320 240) ()"
  have "car_step (good_net 3 []) ?c (?c\<lparr>link := k\<rparr>)" by (rule step_shell [where argv = "[''a9g'', ''connect'']"]) (simp add: car_start_def k)
  then have "(car_step (good_net 3 []))\<^sup>*\<^sup>* ?c (?c\<lparr>link := k\<rparr>)" by blast
  from car_system_runs [OF this] k show ?thesis by blast
qed

text \<open>
  A turn of the positioning thread faults only where the analyser faults on a terminated line of
  the buffer, in every state the system can reach: reading the line never does.
\<close>

theorem car_fault_origin:
  assumes "(car_step nw)\<^sup>*\<^sup>* (car_start d w) c" "gps_thread_turn inp (line_buf c) (gps c) = Some (Inl e)"
  shows "\<exists>l. length l = 512 \<and> cstring l \<and> GPS_Analysis (gps c) l = Inl e"
proof -
  have "length (line_buf c) = GPS_DEVICE_RECV_BUFF_LEN" using car_reach_inv [OF assms(1)] by (simp add: car_inv_def)
  from turn_cases [OF this assms(2)] obtain l and r :: rx where l: "length l = GPS_DEVICE_RECV_BUFF_LEN" "cstring l"
    "Inl e = and_then (GPS_Analysis (gps c) l) (\<lambda>g'. Inr (r, l, g'))" by blast
  from l(3) have "GPS_Analysis (gps c) l = Inl e" by (cases "GPS_Analysis (gps c) l") simp_all
  then show ?thesis using l(1,2) unfolding GPS_DEVICE_RECV_BUFF_LEN_def by blast
qed

end
