(* ===== verification/At_Layer.thy ===== *)
theory At_Layer
  imports A9g_Urc Ip_Addr "HOL-Library.Signed_Division"
begin

text \<open>
  The AT socket layer of RT-Thread, \<open>components/net/at/at_socket/at_socket.c\<close>: it stands between
  \<open>client_server.c\<close>, which calls it, and \<open>at_socket_a9g.c\<close>, whose operations it calls and whose
  reports come to it through two callbacks.

  The device has an array of eight sockets, a function of the index here: every index comes from a
  search of the eight entries or has passed the check of the driver's handler.  A socket in use is a node of the global list
  \<open>_socket_list\<close>; the descriptor an application holds is a position in that list.  Received data
  waits in the list of packets of its socket.  Whether memory is left, whether the interface is
  found, and whether a block still holds its contents right after it was freed are the record \<open>lenv\<close>.
  Waking the threads that poll a socket has no effect here.
\<close>

section \<open>State\<close>

datatype at_socket_state = AT_SOCKET_NONE | AT_SOCKET_OPEN | AT_SOCKET_LISTEN | AT_SOCKET_CONNECT | AT_SOCKET_CLOSED

record at_recv_pkt =
  bfsz_totle :: nat
  bfsz_index :: nat
  buff :: mem

text \<open>
  \<open>recv_notice\<close> is the pointer to the semaphore with its value, \<open>None\<close> for the null pointer; \<open>sem_freed\<close>
  that the semaphore it points to was deleted; \<open>recv_lock\<close> that there is a mutex.
\<close>

record at_sock =
  magic :: u32
  sock_no :: int
  sock_type :: at_socket_type
  sock_state :: at_socket_state
  recv_notice :: "u16 option"
  sem_freed :: bool
  recv_lock :: bool
  recvpkt_list :: "at_recv_pkt list"
  recv_timeout :: s32
  send_timeout :: s32
  rcvevent :: u16
  sendevent :: u16
  errevent :: u16

record layer =
  sockets :: "nat \<Rightarrow> at_sock"
  socket_list :: "nat list"
  at_slock :: bool
  allocs :: nat
  drv :: at_dev
  errno :: int

record lenv =
  e_mem :: "nat \<Rightarrow> bool"
  e_found :: bool
  e_keeps :: bool
  e_ip :: "at_dev \<Rightarrow> u32"
  e_by_ip :: "u32 \<Rightarrow> bool"

definition AT_SOCKET_MAGIC :: u32 where "AT_SOCKET_MAGIC = 0xA100"

text \<open>A socket with all bytes zero.\<close>

definition sock0 :: at_sock where
  "sock0 = \<lparr>magic = 0, sock_no = 0, sock_type = AT_SOCKET_INVALID, sock_state = AT_SOCKET_NONE, recv_notice = None,
     sem_freed = False, recv_lock = False, recvpkt_list = [], recv_timeout = 0, send_timeout = 0, rcvevent = 0, sendevent = 0, errevent = 0\<rparr>"

definition layer0 :: "at_dev \<Rightarrow> layer" where
  "layer0 d = \<lparr>sockets = (\<lambda>k. sock0), socket_list = [], at_slock = False, allocs = 0,
     drv = d, errno = 0\<rparr>"

abbreviation sock_of :: "layer \<Rightarrow> nat \<Rightarrow> at_sock" where
  "sock_of l k \<equiv> sockets l k"

definition upd :: "nat \<Rightarrow> (at_sock \<Rightarrow> at_sock) \<Rightarrow> layer \<Rightarrow> layer" where
  "upd k f l = l\<lparr>sockets := (sockets l)(k := f (sock_of l k))\<rparr>"

text \<open>An allocation: whether it succeeds, and the layer after it.\<close>

definition alloc :: "lenv \<Rightarrow> layer \<Rightarrow> bool \<times> layer" where
  "alloc e l = (e_mem e (allocs l), l\<lparr>allocs := Suc (allocs l)\<rparr>)"

text \<open>A call of the driver.\<close>

definition drive :: "'a atm \<Rightarrow> layer \<Rightarrow> 'a \<times> layer" where
  "drive m l = (case run_state m (drv l) of (r, d) \<Rightarrow> (r, l\<lparr>drv := d\<rparr>))"

section \<open>Descriptors\<close>

text \<open>The socket a descriptor refers to, as its index in the array of the device.\<close>

definition at_get_socket :: "int \<Rightarrow> layer \<Rightarrow> nat option" where
  "at_get_socket socket l =
     (if 0 \<le> socket \<and> socket < int (length (socket_list l)) \<and>
         magic (sock_of l (socket_list l ! nat socket)) = AT_SOCKET_MAGIC
      then Some (socket_list l ! nat socket) else None)"

section \<open>Received packets\<close>

text \<open>\<open>ok\<close>: there is memory for the node.  The value is what the function returns.\<close>

definition at_recvpkt_put :: "bool \<Rightarrow> at_recv_pkt list \<Rightarrow> mem \<Rightarrow> nat \<times> at_recv_pkt list" where
  "at_recvpkt_put ok rlist data =
     (if ok then (length data, rlist @ [\<lparr>bfsz_totle = length data, bfsz_index = 0, buff = data\<rparr>]) else (0, rlist))"

text \<open>The loop reads \<open>next\<close> of the node it has just freed.\<close>

definition at_recvpkt_all_delete :: "bool \<Rightarrow> at_recv_pkt list \<Rightarrow> unit res" where
  "at_recvpkt_all_delete keeps rlist = (if rlist = [] \<or> keeps then Inr () else Inl UseAfterFree)"

text \<open>\<open>memcpy\<close> of \<open>n\<close> bytes from \<open>pkt->buff + pkt->bfsz_index\<close>\<close>

definition pkt_copy :: "at_recv_pkt \<Rightarrow> nat \<Rightarrow> mem res" where
  "pkt_copy p n =
     (if bfsz_index p + n \<le> length (buff p) then Inr (take n (drop (bfsz_index p) (buff p))) else Inl OutOfBounds)"

text \<open>
  The loop of \<open>at_recvpkt_get\<close> with \<open>n = len - content_pos\<close> bytes to go: the bytes stored and the list
  after it.  A node that was used up is freed, and then its \<open>next\<close> is read.
\<close>

fun at_recvpkt_get :: "bool \<Rightarrow> at_recv_pkt list \<Rightarrow> nat \<Rightarrow> (mem \<times> at_recv_pkt list) res" where
  "at_recvpkt_get keeps [] n = Inr ([], [])"
| "at_recvpkt_get keeps (p # ps) n =
     (let page_pos = bfsz_totle p - bfsz_index p in
      if page_pos \<ge> n
      then and_then (pkt_copy p n) (\<lambda>d.
             Inr (d, if bfsz_index p + n = bfsz_totle p then ps else p\<lparr>bfsz_index := bfsz_index p + n\<rparr> # ps))
      else and_then (pkt_copy p page_pos) (\<lambda>d.
             if \<not> keeps then Inl UseAfterFree
             else and_then (at_recvpkt_get keeps ps (n - page_pos)) (\<lambda>(d', ps'). Inr (d @ d', ps'))))"

section \<open>Events of a socket\<close>

datatype at_event = AT_EVENT_SEND | AT_EVENT_RECV | AT_EVENT_ERROR

fun at_do_event_changes :: "at_event \<Rightarrow> bool \<Rightarrow> at_sock \<Rightarrow> at_sock" where
  "at_do_event_changes AT_EVENT_SEND is_plus sock = sock\<lparr>sendevent := if is_plus then 1 else 0\<rparr>"
| "at_do_event_changes AT_EVENT_RECV is_plus sock =
     sock\<lparr>rcvevent := if is_plus then rcvevent sock + 1 else if rcvevent sock \<noteq> 0 then rcvevent sock - 1 else 0\<rparr>"
| "at_do_event_changes AT_EVENT_ERROR is_plus sock =
     sock\<lparr>errevent := if is_plus then errevent sock + 1 else if errevent sock \<noteq> 0 then errevent sock - 1 else 0\<rparr>"

fun at_do_event_clean :: "at_event \<Rightarrow> at_sock \<Rightarrow> at_sock" where
  "at_do_event_clean AT_EVENT_SEND sock = sock\<lparr>sendevent := 0\<rparr>"
| "at_do_event_clean AT_EVENT_RECV sock = sock\<lparr>rcvevent := 0\<rparr>"
| "at_do_event_clean AT_EVENT_ERROR sock = sock\<lparr>errevent := 0\<rparr>"

section \<open>Allocating a socket\<close>

text \<open>The first entry of the array that is not marked; \<open>None\<close> when all are.\<close>

definition free_slot :: "layer \<Rightarrow> nat option" where
  "free_slot l = find (\<lambda>k. magic (sock_of l k) = 0) [0..<AT_DEVICE_A9G_SOCKETS_NUM]"

text \<open>
  \<open>rt_slist_init\<close> of the node and \<open>rt_slist_append\<close> to the global list: when the node is still in
  the list, what follows it is cut off and it stays where it is.
\<close>

definition list_enter :: "nat \<Rightarrow> nat list \<Rightarrow> nat list" where
  "list_enter k xs = takeWhile (\<lambda>j. j \<noteq> k) xs @ [k]"

text \<open>The fields that are set before the semaphore and the mutex are created.\<close>

definition fresh_sock :: "int \<Rightarrow> at_sock \<Rightarrow> at_sock" where
  "fresh_sock no s = s\<lparr>sock_no := no, magic := AT_SOCKET_MAGIC, sock_state := AT_SOCKET_NONE, rcvevent := 0, sendevent := 0,
     errevent := 0, recvpkt_list := []\<rparr>"

text \<open>
  Creating the semaphore and the mutex; when one of them cannot be created the entry stays marked, and
  in the second case the pointer to the semaphore stays after it was deleted.
\<close>

definition equip_socket :: "lenv \<Rightarrow> nat \<Rightarrow> layer \<Rightarrow> nat option \<times> layer" where
  "equip_socket e k l =
     (let (sem, l1) = alloc e l;
          l2 = upd k (\<lambda>s. s\<lparr>recv_notice := if sem then Some 0 else None, sem_freed := False\<rparr>) l1
      in if \<not> sem then (None, l2)
         else let (mtx, l3) = alloc e l2;
                  l4 = upd k (\<lambda>s. s\<lparr>recv_lock := mtx\<rparr>) l3
              in if \<not> mtx then (None, upd k (\<lambda>s. s\<lparr>sem_freed := True\<rparr>) l4) else (Some k, l4))"

text \<open>The lock of the allocation, created at the first call.\<close>

definition take_slock :: "lenv \<Rightarrow> layer \<Rightarrow> bool \<times> layer" where
  "take_slock e l = (if at_slock l then (True, l) else case alloc e l of (b, m) \<Rightarrow> (b, m\<lparr>at_slock := b\<rparr>))"

definition alloc_socket_by_device :: "lenv \<Rightarrow> layer \<Rightarrow> nat option \<times> layer" where
  "alloc_socket_by_device e l =
     (case take_slock e l of (ok, l1) \<Rightarrow>
      if \<not> ok then (None, l1)
      else case free_slot l1 of
        None \<Rightarrow> (None, l1)
      | Some k \<Rightarrow>
          let l2 = l1\<lparr>socket_list := list_enter k (socket_list l1)\<rparr>
          in equip_socket e k (upd k (fresh_sock (int (length (socket_list l2)) - 1)) l2))"

text \<open>
  \<open>alloc_socket\<close>: both ways to find an interface of the AT family take one that is up.
\<close>

definition alloc_socket :: "lenv \<Rightarrow> layer \<Rightarrow> nat option \<times> layer" where
  "alloc_socket e l = (if nd_up (nd (drv l)) \<and> e_found e then alloc_socket_by_device e l else (None, l))"

text \<open>\<open>SOCK_STREAM\<close> 1, \<open>SOCK_DGRAM\<close> 2; \<open>AF_INET\<close> 2, \<open>AF_AT\<close> 45.\<close>

definition at_socket :: "lenv \<Rightarrow> int \<Rightarrow> int \<Rightarrow> layer \<Rightarrow> (int \<times> layer) res" where
  "at_socket e domain type l =
     (if domain \<noteq> 45 \<and> domain \<noteq> 2 then Inl AssertFail
      else if type \<noteq> 1 \<and> type \<noteq> 2 then Inr (- 1, l)
      else case alloc_socket e l of
        (None, l') \<Rightarrow> Inr (- 1, l')
      | (Some k, l') \<Rightarrow>
          let l'' = upd k (\<lambda>s. s\<lparr>sock_type := if type = 1 then AT_SOCKET_TCP else AT_SOCKET_UDP, sock_state := AT_SOCKET_OPEN\<rparr>) l'
          in Inr (sock_no (sock_of l'' k), l''))"

section \<open>Closing a socket\<close>

text \<open>
  The list after the node at position \<open>sock->socket\<close> was taken out and the whole socket was zeroed,
  its own node included: when that is still in the list, the list ends there.
\<close>

definition list_leave :: "nat \<Rightarrow> int \<Rightarrow> nat list \<Rightarrow> nat list" where
  "list_leave k no xs =
     (let ys = (if 0 \<le> no \<and> nat no < length xs then take (nat no) xs @ drop (Suc (nat no)) xs else xs)
      in if k \<in> set ys then takeWhile (\<lambda>j. j \<noteq> k) ys @ [k] else ys)"

text \<open>A use of the semaphore a socket points to: a fault for the null pointer and for a deleted one.\<close>

definition sem_use :: "at_sock \<Rightarrow> u16 res" where
  "sem_use s = (case recv_notice s of None \<Rightarrow> Inl NullDeref | Some v \<Rightarrow> if sem_freed s then Inl UseAfterFree else Inr v)"

text \<open>\<open>free_socket\<close> deletes the semaphore if the pointer is not null, and only then.\<close>

definition free_socket :: "lenv \<Rightarrow> nat \<Rightarrow> layer \<Rightarrow> layer res" where
  "free_socket e k l =
     (if recv_notice (sock_of l k) \<noteq> None \<and> sem_freed (sock_of l k) then Inl UseAfterFree
      else and_then (at_recvpkt_all_delete (e_keeps e) (recvpkt_list (sock_of l k))) (\<lambda>_.
        Inr (upd k (\<lambda>s. sock0) (l\<lparr>socket_list := list_leave k (sock_no (sock_of l k)) (socket_list l)\<rparr>))))"

text \<open>What \<open>at_closesocket\<close> and \<open>at_shutdown\<close> do with the socket they found.\<close>

definition close_sock :: "lenv \<Rightarrow> modem \<Rightarrow> nat \<Rightarrow> layer \<Rightarrow> (int \<times> layer) res" where
  "close_sock e md k l =
     (let last_state = sock_state (sock_of l k);
          l1 = upd k (\<lambda>s. s\<lparr>sock_state := AT_SOCKET_CLOSED\<rparr>) l;
          (r, l2) = (if last_state \<noteq> AT_SOCKET_CLOSED then drive (a9g_socket_close md (int k)) l1 else (0, l1))
      in and_then (free_socket e k l2) (\<lambda>l3. Inr (if r \<noteq> 0 then - 1 else 0, l3)))"

definition at_shutdown :: "lenv \<Rightarrow> modem \<Rightarrow> int \<Rightarrow> layer \<Rightarrow> (int \<times> layer) res" where
  "at_shutdown e md socket l =
     (case at_get_socket socket l of None \<Rightarrow> Inr (- 1, l) | Some k \<Rightarrow> close_sock e md k l)"

definition at_closesocket :: "lenv \<Rightarrow> modem \<Rightarrow> int \<Rightarrow> layer \<Rightarrow> (int \<times> layer) res" where
  "at_closesocket e md socket l =
     (let l1 = snd (drive (emit_op (Delay 100)) l) in
      case at_get_socket socket l1 of None \<Rightarrow> Inr (- 1, l1) | Some k \<Rightarrow> close_sock e md k l1)"

section \<open>Reports of the modem\<close>

definition at_recv_notice_cb :: "lenv \<Rightarrow> nat \<Rightarrow> mem \<Rightarrow> layer \<Rightarrow> layer res" where
  "at_recv_notice_cb e k data l =
     (if magic (sock_of l k) \<noteq> AT_SOCKET_MAGIC then Inr l
      else if \<not> recv_lock (sock_of l k) then Inl NullDeref
      else case alloc e l of (ok, l1) \<Rightarrow>
        and_then (sem_use (sock_of l1 k)) (\<lambda>v. Inr (upd k (\<lambda>s. at_do_event_changes AT_EVENT_RECV True
          (s\<lparr>recvpkt_list := snd (at_recvpkt_put ok (recvpkt_list s) data), recv_notice := Some (v + 1)\<rparr>)) l1)))"

definition at_closed_notice_cb :: "nat \<Rightarrow> layer \<Rightarrow> layer res" where
  "at_closed_notice_cb k l =
     (if magic (sock_of l k) \<noteq> AT_SOCKET_MAGIC then Inr l
      else and_then (sem_use (sock_of l k)) (\<lambda>v.
        Inr (upd k (\<lambda>s. (at_do_event_changes AT_EVENT_ERROR True (at_do_event_changes AT_EVENT_RECV True s))
            \<lparr>sock_state := AT_SOCKET_CLOSED, recv_notice := Some (v + 1)\<rparr>) l)))"

text \<open>A notice of the driver, handed to the callback it is for.\<close>

fun deliver :: "lenv \<Rightarrow> notice \<Rightarrow> layer \<Rightarrow> layer res" where
  "deliver e (RecvData k data) l = at_recv_notice_cb e k data l"
| "deliver e (SockClosed k) l = at_closed_notice_cb k l"

fun deliver_all :: "lenv \<Rightarrow> notice list \<Rightarrow> layer \<Rightarrow> layer res" where
  "deliver_all e [] l = Inr l"
| "deliver_all e (n # ns) l = and_then (deliver e n l) (deliver_all e ns)"

text \<open>A turn of the parser thread with the layer's callbacks behind the driver's handlers.\<close>

definition layer_parser_turn :: "nat \<Rightarrow> bool \<Rightarrow> bool \<Rightarrow> lenv \<Rightarrow> layer \<times> mem \<Rightarrow> ((layer \<times> mem) res) option" where
  "layer_parser_turn bufsz found mem_ok e st =
     (case st of (l, rx) \<Rightarrow>
      case parser_turn bufsz found mem_ok (drv l, rx) of
        None \<Rightarrow> None
      | Some m \<Rightarrow> Some (and_then m (\<lambda>(d, rx').
          and_then (deliver_all e (drop (length (notices (drv l))) (notices d)) (l\<lparr>drv := d\<rparr>)) (\<lambda>l'. Inr (l', rx')))))"

section \<open>Connecting\<close>

text \<open>
  The call of the driver with the address of a \<open>sockaddr_in\<close>, its network-order address and port, and
  what follows a success.
\<close>

definition sock_connect :: "modem \<Rightarrow> nat \<Rightarrow> u32 \<times> u16 \<Rightarrow> layer \<Rightarrow> bool \<times> layer" where
  "sock_connect md k name l =
     (let (remote_addr, remote_port) = socketaddr_to_ipaddr_port name;
          (r, l1) = drive (a9g_socket_connect md (int k) (ipaddr_to_ipstr (fst name)) (unat remote_port) (sock_type (sock_of l k)) True) l
      in if r < 0 then (False, l1)
         else let l2 = upd k (\<lambda>s. s\<lparr>sock_state := AT_SOCKET_CONNECT\<rparr>) l1
              in (True, l2\<lparr>drv := a9g_socket_set_event_cb 1 True (a9g_socket_set_event_cb 0 True (drv l2))\<rparr>))"

definition at_connect :: "modem \<Rightarrow> int \<Rightarrow> u32 \<times> u16 \<Rightarrow> layer \<Rightarrow> int \<times> layer" where
  "at_connect md socket name l =
     (case at_get_socket socket l of
        None \<Rightarrow> (- 1, l)
      | Some k \<Rightarrow>
          let (ok, l1) = (if sock_state (sock_of l k) \<noteq> AT_SOCKET_OPEN then (False, l) else sock_connect md k name l);
              l2 = (if ok then l1 else upd k (at_do_event_changes AT_EVENT_ERROR True) l1)
          in (if ok then 0 else - 1, upd k (at_do_event_changes AT_EVENT_SEND True) l2))"

text \<open>\<open>at_bind\<close>: an address that is not the interface's own gives the socket up for a new one.\<close>

definition at_bind :: "lenv \<Rightarrow> modem \<Rightarrow> int \<Rightarrow> u32 \<times> u16 \<Rightarrow> layer \<Rightarrow> (int \<times> layer) res" where
  "at_bind e md socket name l =
     (case at_get_socket socket l of
        None \<Rightarrow> Inr (- 1, l)
      | Some k \<Rightarrow>
          let local_ipaddr = e_ip e (drv l);
              input_ipaddr = fst (socketaddr_to_ipaddr_port name)
          in if input_ipaddr = local_ipaddr then Inr (0, l)
             else let type = sock_type (sock_of l k) in
               and_then (at_closesocket e md socket l) (\<lambda>(r, l1).
                 if r < 0 \<or> \<not> e_by_ip e input_ipaddr then Inr (- 1, l1)
                 else case alloc_socket_by_device e l1 of
                   (None, l2) \<Rightarrow> Inr (- 1, l2)
                 | (Some j, l2) \<Rightarrow> Inr (0, upd j (\<lambda>s. s\<lparr>sock_type := type, sock_state := AT_SOCKET_OPEN\<rparr>) l2)))"

section \<open>Sending\<close>

text \<open>
  \<open>size > 0\<close> is the length of \<open>data\<close>; \<open>to\<close> is \<open>None\<close> for the null pointer.  A UDP socket that is only
  open is connected to \<open>to\<close> first.
\<close>

definition udp_first :: "modem \<Rightarrow> nat \<Rightarrow> (u32 \<times> u16) option \<Rightarrow> layer \<Rightarrow> bool \<times> layer" where
  "udp_first md k dst l =
     (case dst of
        None \<Rightarrow> (True, l)
      | Some name \<Rightarrow> if sock_state (sock_of l k) = AT_SOCKET_OPEN then sock_connect md k name l else (True, l))"

definition sock_send :: "modem \<Rightarrow> nat \<Rightarrow> mem \<Rightarrow> (u32 \<times> u16) option \<Rightarrow> layer \<Rightarrow> int \<times> layer" where
  "sock_send md k data to l =
     (case sock_type (sock_of l k) of
        AT_SOCKET_TCP \<Rightarrow>
          if sock_state (sock_of l k) = AT_SOCKET_CLOSED then (0, l)
          else if sock_state (sock_of l k) \<notin> {AT_SOCKET_CONNECT, AT_SOCKET_OPEN} then (- 1, l)
          else drive (a9g_socket_send md (int k) data) l
      | AT_SOCKET_UDP \<Rightarrow>
          (case udp_first md k to l of
             (False, l1) \<Rightarrow> (- 1, l1)
           | (True, l1) \<Rightarrow> drive (a9g_socket_send md (int k) data) l1)
      | AT_SOCKET_INVALID \<Rightarrow> (- 1, l))"

definition at_sendto :: "modem \<Rightarrow> int \<Rightarrow> mem \<Rightarrow> (u32 \<times> u16) option \<Rightarrow> layer \<Rightarrow> int \<times> layer" where
  "at_sendto md socket data to l =
     (if data = [] then (- 1, l)
      else case at_get_socket socket l of
        None \<Rightarrow> (- 1, l)
      | Some k \<Rightarrow>
          let (len, l1) = sock_send md k data to l
          in if len < 0 then (- 1, upd k (at_do_event_changes AT_EVENT_ERROR True) l1) else (len, l1))"

definition at_send :: "modem \<Rightarrow> int \<Rightarrow> mem \<Rightarrow> layer \<Rightarrow> int \<times> layer" where
  "at_send md socket data l = at_sendto md socket data None l"

section \<open>Receiving\<close>

text \<open>\<open>at_recvpkt_get\<close> under the mutex of the socket.\<close>

definition sock_take :: "lenv \<Rightarrow> nat \<Rightarrow> nat \<Rightarrow> layer \<Rightarrow> (mem \<times> layer) res" where
  "sock_take e k len l =
     (if \<not> recv_lock (sock_of l k) then Inl NullDeref
      else and_then (at_recvpkt_get (e_keeps e) (recvpkt_list (sock_of l k)) len) (\<lambda>(d, ps).
        Inr (d, upd k (\<lambda>s. s\<lparr>recvpkt_list := ps\<rparr>) l)))"

text \<open>The value of the semaphore of a socket: what a wait takes and a notice adds.\<close>

definition sem_value :: "nat \<Rightarrow> layer \<Rightarrow> nat" where
  "sem_value k l = (case recv_notice (sock_of l k) of None \<Rightarrow> 0 | Some v \<Rightarrow> unat v)"

lemma sem_use_ok: "sem_use s = Inr v \<longleftrightarrow> recv_notice s = Some v \<and> \<not> sem_freed s"
  by (simp add: sem_use_def split: option.splits)

lemma sem_up: "unat (v + 1) \<le> Suc (unat v)" for v :: u16
  by (cases "v + 1 = 0") (simp_all add: unat_Suc_word)

lemma sem_down: "v \<noteq> 0 \<Longrightarrow> unat (v - 1) < unat v" for v :: u16
  by (simp add: unat_minus_one unat_gt_0)

lemma deliver_sem: "deliver e n l = Inr l' \<Longrightarrow> sem_value k l' \<le> Suc (sem_value k l)"
  by (cases n) (auto simp: at_recv_notice_cb_def at_closed_notice_cb_def alloc_def sem_value_def upd_def sem_up
      sem_use_ok split: if_splits option.splits)

lemma deliver_all_sem: "deliver_all e ns l = Inr l' \<Longrightarrow> sem_value k l' \<le> length ns + sem_value k l"
proof (induction ns arbitrary: l)
  case (Cons n ns)
  then obtain l1 where "deliver e n l = Inr l1" "deliver_all e ns l1 = Inr l'" by auto
  then show ?case using Cons.IH deliver_sem [of e n l l1 k] by fastforce
qed simp

lemma sock_take_sem: "sock_take e k len l = Inr (d, l') \<Longrightarrow> sem_value j l' = sem_value j l"
  by (auto simp: sock_take_def sem_value_def upd_def split: if_splits)

text \<open>
  The loop that waits on the semaphore.  An element of \<open>arr\<close> is what the parser thread delivers while
  the caller waits, until the caller runs again; a wait without a timeout for which nothing comes
  does not return.  The value is the result, the data stored and the layer.
\<close>

function recv_wait :: "lenv \<Rightarrow> nat \<Rightarrow> nat \<Rightarrow> bool \<Rightarrow> notice list list \<Rightarrow> layer \<Rightarrow> ((int \<times> mem \<times> layer) res) option" where
  "recv_wait e k len forever arr l =
     (case sem_use (sock_of l k) of
        Inl f \<Rightarrow> Some (Inl f)
      | Inr v \<Rightarrow>
          if v \<noteq> 0
          then let l1 = upd k (\<lambda>s. s\<lparr>recv_notice := Some (v - 1)\<rparr>) l in
               if sock_state (sock_of l1 k) \<noteq> AT_SOCKET_CONNECT then Some (Inr (0, [], l1))
               else (case sock_take e k len l1 of
                       Inl f \<Rightarrow> Some (Inl f)
                     | Inr (d, l2) \<Rightarrow> if d \<noteq> [] then Some (Inr (int (length d), d, l2)) else recv_wait e k len forever arr l2)
          else case arr of
                 [] \<Rightarrow> if forever then None else Some (Inr (- 1, [], l\<lparr>errno := 11\<rparr>))
               | ns # arr' \<Rightarrow> (case deliver_all e ns l of Inl f \<Rightarrow> Some (Inl f) | Inr l1 \<Rightarrow> recv_wait e k len forever arr' l1))"
  by pat_completeness auto

termination
proof (relation "measure (\<lambda>(e, k, len, forever, arr, l). (\<Sum>ns\<leftarrow>arr. Suc (length ns)) + sem_value k l)", goal_cases)
  case (2 e k len forever arr l v l1 x d l2)
  then have "sem_value k l2 = unat (v - 1)" using sock_take_sem [of e k len l1 d l2 k] by (simp add: sem_value_def upd_def)
  then show ?case using 2 sem_down by (simp add: sem_value_def sem_use_ok)
next
  case (3 e k len forever arr l v ns arr' l1)
  then show ?case using deliver_all_sem [of e ns l l1 k] by simp
qed simp

declare recv_wait.simps [simp del]

text \<open>What follows \<open>__exit\<close> for a socket that was found.\<close>

definition recv_exit :: "nat \<Rightarrow> int \<Rightarrow> mem \<Rightarrow> layer \<Rightarrow> int \<times> mem \<times> layer" where
  "recv_exit k result data l =
     (if data \<noteq> []
      then (int (length data), data,
            upd k (\<lambda>s. let s1 = at_do_event_changes AT_EVENT_RECV False s
                       in if recvpkt_list s1 \<noteq> [] then at_do_event_changes AT_EVENT_RECV True s1
                          else at_do_event_clean AT_EVENT_RECV s1) (l\<lparr>errno := 0\<rparr>))
      else (result, [], upd k (at_do_event_changes AT_EVENT_ERROR True) l))"

text \<open>
  From the first look at the packets on.  \<open>dontwait\<close> is \<open>flags & MSG_DONTWAIT\<close>; a timeout that is not
  positive waits forever.  The value is the result, the data stored and the layer.
\<close>

definition sock_recv :: "lenv \<Rightarrow> nat \<Rightarrow> nat \<Rightarrow> bool \<Rightarrow> notice list list \<Rightarrow> layer \<Rightarrow> ((int \<times> mem \<times> layer) res) option" where
  "sock_recv e k len dontwait arr l =
     (case sock_take e k len l of
        Inl f \<Rightarrow> Some (Inl f)
      | Inr (d, l2) \<Rightarrow>
          if d \<noteq> [] then Some (Inr (recv_exit k 0 d l2))
          else if sock_state (sock_of l2 k) = AT_SOCKET_CLOSED then Some (Inr (recv_exit k 0 [] l2))
          else if sock_state (sock_of l2 k) \<notin> {AT_SOCKET_CONNECT, AT_SOCKET_OPEN} then Some (Inr (recv_exit k (- 1) [] l2))
          else if dontwait then Some (Inr (recv_exit k 0 [] l2))
          else map_option (\<lambda>m. and_then m (\<lambda>(r, d, l3). Inr (recv_exit k r d l3)))
                 (recv_wait e k len (sint (recv_timeout (sock_of l2 k)) \<le> 0) arr l2))"

definition at_recvfrom ::
  "lenv \<Rightarrow> modem \<Rightarrow> int \<Rightarrow> nat \<Rightarrow> bool \<Rightarrow> (u32 \<times> u16) option \<Rightarrow> notice list list \<Rightarrow> layer \<Rightarrow> ((int \<times> mem \<times> layer) res) option" where
  "at_recvfrom e md socket len dontwait from arr l =
     (if len = 0 then Some (Inr (- 1, [], l))
      else case at_get_socket socket l of
        None \<Rightarrow> Some (Inr (- 1, [], l))
      | Some k \<Rightarrow>
          (case (if sock_type (sock_of l k) = AT_SOCKET_UDP then udp_first md k from l else (True, l)) of
             (False, l1) \<Rightarrow> Some (Inr (recv_exit k (- 1) [] l1))
           | (True, l1) \<Rightarrow> sock_recv e k len dontwait arr l1))"

definition at_recv :: "lenv \<Rightarrow> modem \<Rightarrow> int \<Rightarrow> nat \<Rightarrow> bool \<Rightarrow> notice list list \<Rightarrow> layer \<Rightarrow> ((int \<times> mem \<times> layer) res) option" where
  "at_recv e md s len dontwait arr l = at_recvfrom e md s len dontwait None arr l"

section \<open>Options\<close>

text \<open>
  \<open>SOL_SOCKET\<close> 0xfff with \<open>SO_RCVTIMEO\<close> 0x1006 or \<open>SO_SNDTIMEO\<close> 0x1005, and \<open>IPPROTO_TCP\<close> 6.  A
  \<open>timeval\<close> is its seconds and microseconds.
\<close>

definition at_getsockopt :: "int \<Rightarrow> int \<Rightarrow> int \<Rightarrow> layer \<Rightarrow> int \<times> (u32 \<times> u32) option" where
  "at_getsockopt socket level optname l =
     (case at_get_socket socket l of
        None \<Rightarrow> (- 1, None)
      | Some k \<Rightarrow>
          if level \<noteq> 0xFFF then (- 1, None)
          else if optname = 0x1006 then (let t = recv_timeout (sock_of l k) in (0, Some (t div 1000, t mod 1000 * 1000)))
          else if optname = 0x1005 then (let t = send_timeout (sock_of l k) in (0, Some (t div 1000, t mod 1000 * 1000)))
          else (- 1, None))"

definition at_setsockopt :: "int \<Rightarrow> int \<Rightarrow> int \<Rightarrow> s32 \<times> s32 \<Rightarrow> layer \<Rightarrow> int \<times> layer" where
  "at_setsockopt socket level optname optval l =
     (case at_get_socket socket l of
        None \<Rightarrow> (- 1, l)
      | Some k \<Rightarrow>
          let t = fst optval * 1000 + word_of_int (sint (snd optval) sdiv 1000) in
          if level = 0xFFF
          then if optname = 0x1006 then (0, upd k (\<lambda>s. s\<lparr>recv_timeout := t\<rparr>) l)
               else if optname = 0x1005 then (0, upd k (\<lambda>s. s\<lparr>send_timeout := t\<rparr>) l)
               else (- 1, l)
          else if level = 6 then (0, l)
          else (- 1, l))"

end
