(* ===== verification/At_Layer_Props.thy ===== *)
theory At_Layer_Props
  imports At_Layer A9g_Urc_Props A9g_Socket_Props
begin

text \<open>
  The properties of the AT socket layer: the packets of a socket are a byte stream; the structure of
  the socket list under every sequence of calls; what a descriptor refers to when sockets are opened
  and closed; what a receive call returns, and that it returns; and a message from the bytes the
  modem sends to the bytes the application reads.
\<close>

section \<open>Definitions\<close>

text \<open>
  A use of a queue of bytes: data that arrives, with whether there is memory for it, and reads of at
  most so many bytes.
\<close>

datatype stream_op = Put bool mem | Get nat

text \<open>The bytes read, in order, and the queue at the end.\<close>

fun stream_run :: "(bool \<Rightarrow> 'q \<Rightarrow> mem \<Rightarrow> 'q) \<Rightarrow> ('q \<Rightarrow> nat \<Rightarrow> (mem \<times> 'q) res) \<Rightarrow> stream_op list \<Rightarrow> 'q \<Rightarrow> (mem list \<times> 'q) res" where
  "stream_run put get [] q = Inr ([], q)"
| "stream_run put get (Put b d # os) q = stream_run put get os (put b q d)"
| "stream_run put get (Get n # os) q =
     and_then (get q n) (\<lambda>(d, q'). and_then (stream_run put get os q') (\<lambda>(ds, q''). Inr (d # ds, q'')))"

text \<open>The bytes that arrive while there is memory.\<close>

fun puts :: "stream_op list \<Rightarrow> mem" where
  "puts [] = []"
| "puts (Put b d # os) = (if b then d else []) @ puts os"
| "puts (Get n # os) = puts os"

text \<open>The same on the bytes themselves: the specification.\<close>

fun spec_reads :: "stream_op list \<Rightarrow> mem \<Rightarrow> mem list" where
  "spec_reads [] b = []"
| "spec_reads (Put ok d # os) b = spec_reads os (if ok then b @ d else b)"
| "spec_reads (Get n # os) b = take n b # spec_reads os (drop n b)"

text \<open>
  Whether a read asks for more than is left of the first packet, for packets with \<open>ls\<close> bytes left,
  when none has asked for more before.
\<close>

fun crosses :: "stream_op list \<Rightarrow> nat list \<Rightarrow> bool" where
  "crosses [] ls = False"
| "crosses (Put ok d # os) ls = crosses os (if ok then ls @ [length d] else ls)"
| "crosses (Get n # os) [] = crosses os []"
| "crosses (Get n # os) (m # ls) = (m < n \<or> crosses os (if n = m then ls else (m - n) # ls))"

definition pkt_ok :: "at_recv_pkt \<Rightarrow> bool" where
  "pkt_ok p \<longleftrightarrow> bfsz_index p \<le> bfsz_totle p \<and> bfsz_totle p = length (buff p)"

definition pkt_rest :: "at_recv_pkt \<Rightarrow> mem" where
  "pkt_rest p = drop (bfsz_index p) (buff p)"

definition stream_of :: "at_recv_pkt list \<Rightarrow> mem" where
  "stream_of ps = concat (map pkt_rest ps)"

text \<open>The structure of the layer that every call keeps.\<close>

definition layer_wf :: "layer \<Rightarrow> bool" where
  "layer_wf l \<longleftrightarrow> distinct (socket_list l) \<and> set (socket_list l) \<subseteq> {..<AT_DEVICE_A9G_SOCKETS_NUM} \<and>
     (\<forall>k. list_all pkt_ok (recvpkt_list (sock_of l k)))"

text \<open>The calls of the application and the reports of the modem, in any order.\<close>

inductive layer_step :: "lenv \<Rightarrow> modem \<Rightarrow> layer \<Rightarrow> layer \<Rightarrow> bool" for e md where
  step_socket: "at_socket e d t l = Inr (r, l') \<Longrightarrow> layer_step e md l l'"
| step_close: "at_closesocket e md i l = Inr (r, l') \<Longrightarrow> layer_step e md l l'"
| step_shutdown: "at_shutdown e md i l = Inr (r, l') \<Longrightarrow> layer_step e md l l'"
| step_bind: "at_bind e md i name l = Inr (r, l') \<Longrightarrow> layer_step e md l l'"
| step_connect: "at_connect md i name l = (r, l') \<Longrightarrow> layer_step e md l l'"
| step_send: "at_sendto md i data dst l = (r, l') \<Longrightarrow> layer_step e md l l'"
| step_recv: "at_recvfrom e md i n dw src arr l = Some (Inr (r, d, l')) \<Longrightarrow> layer_step e md l l'"
| step_option: "at_setsockopt i lv nm tv l = (r, l') \<Longrightarrow> layer_step e md l l'"
| step_notice: "deliver e n l = Inr l' \<Longrightarrow> layer_step e md l l'"

text \<open>
  Descriptors in order: the socket at position \<open>p\<close> of the list is marked and knows \<open>p\<close> as its
  descriptor, and no socket outside the list is marked.
\<close>

definition fd_ok :: "layer \<Rightarrow> bool" where
  "fd_ok l \<longleftrightarrow> layer_wf l \<and>
     (\<forall>p < length (socket_list l). sock_no (sock_of l (socket_list l ! p)) = int p) \<and>
     (\<forall>k. magic (sock_of l k) = (if k \<in> set (socket_list l) then AT_SOCKET_MAGIC else 0))"

definition open_env :: lenv where
  "open_env = \<lparr>e_mem = (\<lambda>n. True), e_found = True, e_keeps = True, e_ip = (\<lambda>d. 0), e_by_ip = (\<lambda>a. False)\<rparr>"

definition up_dev :: at_dev where
  "up_dev = idle_dev\<lparr>nd := (nd idle_dev)\<lparr>nd_up := True\<rparr>\<rparr>"

text \<open>A layer whose only socket is connected and has the packets \<open>ps\<close>.\<close>

definition conn_layer :: "at_recv_pkt list \<Rightarrow> layer" where
  "conn_layer ps = (layer0 up_dev)\<lparr>sockets := (\<lambda>k. sock0)(0 := sock0\<lparr>magic := AT_SOCKET_MAGIC, sock_type := AT_SOCKET_TCP,
     sock_state := AT_SOCKET_CONNECT, recv_notice := Some 0, recv_lock := True, recvpkt_list := ps\<rparr>),
     socket_list := [0], at_slock := True\<rparr>"

section \<open>The packets as a stream\<close>

locale byte_stream =
  fixes put :: "bool \<Rightarrow> 'q \<Rightarrow> mem \<Rightarrow> 'q" and get :: "'q \<Rightarrow> nat \<Rightarrow> (mem \<times> 'q) res"
    and ok :: "'q \<Rightarrow> bool" and str :: "'q \<Rightarrow> mem"
  assumes put_ok: "ok q \<Longrightarrow> ok (put b q d)" and put_str: "ok q \<Longrightarrow> str (put b q d) = str q @ (if b then d else [])"
    and get_spec: "ok q \<Longrightarrow> \<exists>q'. get q n = Inr (take n (str q), q') \<and> ok q' \<and> str q' = drop n (str q)"
begin

lemma run_spec:
  "ok q \<Longrightarrow> \<exists>q'. stream_run put get os q = Inr (spec_reads os (str q), q') \<and> ok q' \<and>
     concat (spec_reads os (str q)) @ str q' = str q @ puts os"
proof (induction os arbitrary: q)
  case (Cons x os)
  show ?case
  proof (cases x)
    case (Put b d)
    then show ?thesis using Cons.IH [of "put b q d"] Cons.prems put_ok [of q b d] put_str [of q b d] by (cases b) simp_all
  next
    case (Get n)
    obtain q1 where "get q n = Inr (take n (str q), q1)" "ok q1" "str q1 = drop n (str q)"
      using get_spec [OF Cons.prems] by blast
    then show ?thesis using Get Cons.IH [of q1] by auto
  qed
qed simp

end

lemma pkt_copy_ok: "pkt_ok p \<Longrightarrow> n \<le> length (pkt_rest p) \<Longrightarrow> pkt_copy p n = Inr (take n (pkt_rest p))"
  by (auto simp: pkt_copy_def pkt_ok_def pkt_rest_def)

lemma pkt_page: "pkt_ok p \<Longrightarrow> bfsz_totle p - bfsz_index p = length (pkt_rest p)"
  by (simp add: pkt_ok_def pkt_rest_def)

lemma recvpkt_get_spec:
  "list_all pkt_ok ps \<Longrightarrow> \<exists>ps'. at_recvpkt_get True ps n = Inr (take n (stream_of ps), ps') \<and> list_all pkt_ok ps' \<and>
     stream_of ps' = drop n (stream_of ps)"
proof (induction ps arbitrary: n)
  case (Cons p ps)
  then have p: "pkt_ok p" by simp
  show ?case
  proof (cases "n \<le> length (pkt_rest p)")
    case True
    then have "at_recvpkt_get True (p # ps) n = Inr (take n (pkt_rest p),
        if bfsz_index p + n = bfsz_totle p then ps else p\<lparr>bfsz_index := bfsz_index p + n\<rparr> # ps)"
      using p by (simp add: pkt_page pkt_copy_ok)
    then show ?thesis using True Cons.prems
      by (auto simp: stream_of_def pkt_rest_def pkt_ok_def add.commute)
  next
    case False
    obtain ps' where i: "at_recvpkt_get True ps (n - length (pkt_rest p)) = Inr (take (n - length (pkt_rest p)) (stream_of ps), ps')"
        "list_all pkt_ok ps'" "stream_of ps' = drop (n - length (pkt_rest p)) (stream_of ps)"
      using Cons by fastforce
    then have "at_recvpkt_get True (p # ps) n = Inr (pkt_rest p @ take (n - length (pkt_rest p)) (stream_of ps), ps')"
      using False p by (simp add: pkt_page pkt_copy_ok)
    then show ?thesis using False i by (auto simp: stream_of_def)
  qed
qed (simp add: stream_of_def)

interpretation rq: byte_stream "\<lambda>b q d. snd (at_recvpkt_put b q d)" "at_recvpkt_get True" "list_all pkt_ok" stream_of
proof
  show "list_all pkt_ok q \<Longrightarrow> \<exists>q'. at_recvpkt_get True q n = Inr (take n (stream_of q), q') \<and> list_all pkt_ok q' \<and>
    stream_of q' = drop n (stream_of q)" for q n by (rule recvpkt_get_spec)
qed (auto simp: at_recvpkt_put_def pkt_ok_def stream_of_def pkt_rest_def)

text \<open>Where the contents of a freed block cannot be relied on.\<close>

lemma recvpkt_get_freed:
  assumes "pkt_ok p"
  shows "at_recvpkt_get False (p # ps) n =
    (if n \<le> length (pkt_rest p) then at_recvpkt_get True (p # ps) n else Inl UseAfterFree)"
  using assms by (simp add: pkt_page pkt_copy_ok)

lemma recvpkt_get_ok:
  "list_all pkt_ok ps \<Longrightarrow> at_recvpkt_get b ps n = Inr (d, ps') \<Longrightarrow>
     list_all pkt_ok ps' \<and> d = take n (stream_of ps) \<and> stream_of ps' = drop n (stream_of ps)"
  using recvpkt_get_spec [of ps n] recvpkt_get_freed [of "hd ps" "tl ps" n]
  by (cases b; cases ps) (auto split: if_splits simp del: at_recvpkt_get.simps(2))

text \<open>There a run of arrivals and reads goes on exactly until a read crosses a packet.\<close>

lemma run_freed:
  "list_all pkt_ok ps \<Longrightarrow> stream_run (\<lambda>b q d. snd (at_recvpkt_put b q d)) (at_recvpkt_get False) os ps =
    (if crosses os (map (\<lambda>p. length (pkt_rest p)) ps) then Inl UseAfterFree
     else stream_run (\<lambda>b q d. snd (at_recvpkt_put b q d)) (at_recvpkt_get True) os ps)"
proof (induction os arbitrary: ps)
  case (Cons x os)
  show ?case
  proof (cases x)
    case (Put b d)
    have "list_all pkt_ok (snd (at_recvpkt_put b ps d))" using Cons.prems by (auto simp: at_recvpkt_put_def pkt_ok_def list_all_iff)
    from Cons.IH [OF this] show ?thesis using Put by (simp add: at_recvpkt_put_def pkt_rest_def)
  next
    case (Get n)
    note IH = Cons.IH
    show ?thesis
    proof (cases ps)
      case Nil
      then show ?thesis using Get Cons.IH [of "[]"] by simp
    next
      case (Cons p qs)
      have p: "pkt_ok p" "list_all pkt_ok qs" using \<open>list_all pkt_ok ps\<close> Cons by simp_all
      show ?thesis
      proof (cases "n \<le> length (pkt_rest p)")
        case True
        define q where "q = (if bfsz_index p + n = bfsz_totle p then qs else p\<lparr>bfsz_index := bfsz_index p + n\<rparr> # qs)"
        have g: "at_recvpkt_get b ps n = Inr (take n (pkt_rest p), q)" for b
          using True p Cons by (simp add: pkt_page pkt_copy_ok q_def)
        have q: "list_all pkt_ok q" "map (\<lambda>p. length (pkt_rest p)) q =
            (if n = length (pkt_rest p) then map (\<lambda>p. length (pkt_rest p)) qs
             else (length (pkt_rest p) - n) # map (\<lambda>p. length (pkt_rest p)) qs)"
          using p True by (auto simp: q_def pkt_ok_def pkt_rest_def)
        have c: "crosses (x # os) (map (\<lambda>p. length (pkt_rest p)) ps) = crosses os (map (\<lambda>p. length (pkt_rest p)) q)"
          unfolding q(2) using Get Cons True by simp
        show ?thesis unfolding c using IH [OF q(1)] by (simp add: Get g del: at_recvpkt_get.simps)
      next
        case False
        then have "at_recvpkt_get False ps n = Inl UseAfterFree" using recvpkt_get_freed [OF p(1)] Cons by simp
        then show ?thesis using Get Cons False by simp
      qed
    qed
  qed
qed simp

section \<open>Updates\<close>

lemma sock_of_upd [simp]: "sock_of (upd k f l) j = (if j = k then f (sock_of l k) else sock_of l j)"
  by (simp add: upd_def)

lemma upd_rest [simp]:
  "socket_list (upd k f l) = socket_list l" "drv (upd k f l) = drv l" "allocs (upd k f l) = allocs l"
  "at_slock (upd k f l) = at_slock l" "errno (upd k f l) = errno l"
  by (simp_all add: upd_def)

lemma drive_rest: "sockets (snd (drive m l)) = sockets l" "socket_list (snd (drive m l)) = socket_list l"
  "allocs (snd (drive m l)) = allocs l" "at_slock (snd (drive m l)) = at_slock l" "errno (snd (drive m l)) = errno l"
  by (simp_all add: drive_def split: prod.splits)

lemma drive_run: "fst (drive m l) = fst (run_state m (drv l))" "drv (snd (drive m l)) = snd (run_state m (drv l))"
  by (simp_all add: drive_def split: prod.splits)

lemma event_changes_keeps [simp]:
  "recvpkt_list (at_do_event_changes ev b s) = recvpkt_list s" "magic (at_do_event_changes ev b s) = magic s"
  "sock_no (at_do_event_changes ev b s) = sock_no s" "sock_state (at_do_event_changes ev b s) = sock_state s"
  "sock_type (at_do_event_changes ev b s) = sock_type s" "recv_lock (at_do_event_changes ev b s) = recv_lock s"
  "recv_notice (at_do_event_changes ev b s) = recv_notice s" "recv_timeout (at_do_event_changes ev b s) = recv_timeout s"
  "sem_freed (at_do_event_changes ev b s) = sem_freed s"
  by (cases ev; simp)+

lemma event_clean_keeps [simp]:
  "recvpkt_list (at_do_event_clean ev s) = recvpkt_list s" "magic (at_do_event_clean ev s) = magic s"
  "sock_no (at_do_event_clean ev s) = sock_no s" "sock_state (at_do_event_clean ev s) = sock_state s"
  "recv_lock (at_do_event_clean ev s) = recv_lock s" "recv_notice (at_do_event_clean ev s) = recv_notice s"
  "sem_freed (at_do_event_clean ev s) = sem_freed s"
  by (cases ev; simp)+

section \<open>The invariant\<close>

text \<open>
  The part of the layer the calls on a socket leave alone: the list, the mark and the number of
  every socket, and whether its semaphore was deleted; the packets stay well-formed.
\<close>

definition same_fds :: "layer \<Rightarrow> layer \<Rightarrow> bool" where
  "same_fds l l' \<longleftrightarrow> socket_list l' = socket_list l \<and>
     (\<forall>k. magic (sock_of l' k) = magic (sock_of l k) \<and> sock_no (sock_of l' k) = sock_no (sock_of l k) \<and>
       sem_freed (sock_of l' k) = sem_freed (sock_of l k) \<and>
       (list_all pkt_ok (recvpkt_list (sock_of l k)) \<longrightarrow> list_all pkt_ok (recvpkt_list (sock_of l' k))))"

lemma same_fds_refl [simp, intro]: "same_fds l l"
  by (simp add: same_fds_def)

lemma same_fds_trans: "same_fds l l' \<Longrightarrow> same_fds l' l'' \<Longrightarrow> same_fds l l''"
  by (simp add: same_fds_def)

lemma same_fds_upd: "magic (f (sock_of l k)) = magic (sock_of l k) \<Longrightarrow> sock_no (f (sock_of l k)) = sock_no (sock_of l k) \<Longrightarrow>
   sem_freed (f (sock_of l k)) = sem_freed (sock_of l k) \<Longrightarrow>
   (list_all pkt_ok (recvpkt_list (sock_of l k)) \<Longrightarrow> list_all pkt_ok (recvpkt_list (f (sock_of l k)))) \<Longrightarrow> same_fds l (upd k f l)"
  by (simp add: same_fds_def)

lemma same_fds_drive: "same_fds l (snd (drive m l))"
  by (simp add: same_fds_def drive_rest)

lemma same_fds_wf: "same_fds l l' \<Longrightarrow> layer_wf l \<Longrightarrow> layer_wf l'"
  by (simp add: same_fds_def layer_wf_def)

lemma same_fds_ok: "same_fds l l' \<Longrightarrow> fd_ok l \<Longrightarrow> fd_ok l'"
  by (auto simp: fd_ok_def same_fds_wf) (auto simp: same_fds_def)

lemma same_fds_get: "same_fds l l' \<Longrightarrow> at_get_socket i l' = at_get_socket i l"
  by (simp add: same_fds_def at_get_socket_def)

lemma connect_same: "same_fds l (snd (sock_connect md k name l))"
  by (auto simp: sock_connect_def Let_def case_prod_unfold same_fds_def drive_rest)

lemma deliver_same: "deliver e n l = Inr l' \<Longrightarrow> same_fds l l'"
  by (cases n) (auto simp: at_recv_notice_cb_def at_closed_notice_cb_def alloc_def same_fds_def at_recvpkt_put_def pkt_ok_def
      split: if_splits option.splits)

lemma deliver_all_same: "deliver_all e ns l = Inr l' \<Longrightarrow> same_fds l l'"
  by (induction ns arbitrary: l) (auto intro: same_fds_trans deliver_same)

lemma take_same: "sock_take e k n l = Inr (d, l') \<Longrightarrow> same_fds l l'"
  by (auto simp: sock_take_def dest: recvpkt_get_ok intro!: same_fds_upd split: if_splits)

lemma wait_same: "recv_wait e k n f arr l = Some (Inr (r, d, l')) \<Longrightarrow> same_fds l l'"
proof (induction e k n f arr l rule: recv_wait.induct)
  case (1 e k n f arr l)
  obtain v where v: "sem_use (sock_of l k) = Inr v"
    using "1.prems" by (subst (asm) recv_wait.simps) (auto split: sum.splits)
  let ?u = "upd k (\<lambda>s. s\<lparr>recv_notice := Some (v - 1)\<rparr>) l"
  have u: "same_fds l ?u" by (rule same_fds_upd) simp_all
  show ?case
  proof (cases "v = 0")
    case True
    then show ?thesis using "1.prems" "1.IH"(2) v
      by (subst (asm) recv_wait.simps)
        (auto split: list.splits sum.splits if_splits intro: same_fds_trans deliver_all_same simp: same_fds_def [of l "l\<lparr>errno := 11\<rparr>"])
  next
    case False
    show ?thesis
    proof (cases "sock_state (sock_of ?u k) = AT_SOCKET_CONNECT")
      case True
      obtain d1 l1 where t: "sock_take e k n ?u = Inr (d1, l1)"
        using "1.prems" v False True by (subst (asm) recv_wait.simps) (auto split: sum.splits)
      have l1: "same_fds l l1" by (rule same_fds_trans [OF u take_same [OF t]])
      have "same_fds l1 l'"
        using "1.prems" "1.IH"(1) [OF v False refl _ t refl] v False True t
        by (subst (asm) recv_wait.simps) (auto split: if_splits)
      then show ?thesis by (rule same_fds_trans [OF l1])
    next
      case st: False
      then show ?thesis using "1.prems" v False u by (subst (asm) recv_wait.simps) simp
    qed
  qed
qed

section \<open>Every call keeps the structure\<close>

lemma wf_list: "layer_wf l \<Longrightarrow> distinct xs \<Longrightarrow> set xs \<subseteq> {..<AT_DEVICE_A9G_SOCKETS_NUM} \<Longrightarrow> layer_wf (l\<lparr>socket_list := xs\<rparr>)"
  by (simp add: layer_wf_def)

lemma wf_upd: "layer_wf l \<Longrightarrow> list_all pkt_ok (recvpkt_list (f (sock_of l k))) \<Longrightarrow> layer_wf (upd k f l)"
  by (simp add: layer_wf_def)

lemma set_list_enter: "set (list_enter k xs) \<subseteq> insert k (set xs)"
  by (auto simp: list_enter_def dest: set_takeWhileD)

lemma distinct_takeWhile_snoc: "distinct xs \<Longrightarrow> distinct (takeWhile (\<lambda>j. j \<noteq> k) xs @ [k])"
  by (auto dest: set_takeWhileD)

lemma distinct_list_enter: "distinct xs \<Longrightarrow> distinct (list_enter k xs)"
  by (simp add: list_enter_def distinct_takeWhile_snoc del: distinct_append)

lemma list_leave_ok:
  assumes "distinct xs"
  shows "distinct (list_leave k no xs) \<and> set (list_leave k no xs) \<subseteq> set xs"
proof -
  define ys where "ys = (if 0 \<le> no \<and> nat no < length xs then take (nat no) xs @ drop (Suc (nat no)) xs else xs)"
  have d: "distinct ys"
    using assms set_take_disj_set_drop_if_distinct [of xs "nat no" "Suc (nat no)"] by (auto simp: ys_def)
  have s: "set ys \<subseteq> set xs" by (auto simp: ys_def dest: in_set_takeD in_set_dropD)
  have "distinct (takeWhile (\<lambda>j. j \<noteq> k) ys @ [k])" by (rule distinct_takeWhile_snoc [OF d])
  moreover have "k \<in> set ys \<Longrightarrow> set (takeWhile (\<lambda>j. j \<noteq> k) ys @ [k]) \<subseteq> set xs"
    using s by (auto dest: set_takeWhileD)
  ultimately show ?thesis unfolding list_leave_def ys_def [symmetric] Let_def using d s by simp
qed

lemma free_slot_lt: "free_slot l = Some k \<Longrightarrow> k < AT_DEVICE_A9G_SOCKETS_NUM \<and> magic (sock_of l k) = 0"
  by (auto simp: free_slot_def find_Some_iff)

lemma fresh_sock_pkts [simp]: "recvpkt_list (fresh_sock n s) = []"
  by (simp add: fresh_sock_def)

lemma take_slock_keeps:
  "take_slock e l = (ok, l') \<Longrightarrow> sockets l' = sockets l" "take_slock e l = (ok, l') \<Longrightarrow> socket_list l' = socket_list l"
  "take_slock e l = (ok, l') \<Longrightarrow> drv l' = drv l"
  by (auto simp: take_slock_def alloc_def split: if_splits)

lemma equip_cases:
  assumes "equip_socket e k l = (r, l')"
  shows "\<exists>s b m. (r = None \<or> r = Some k) \<and> socket_list l' = socket_list l \<and> drv l' = drv l \<and>
    sockets l' = (sockets l)(k := (sock_of l k)\<lparr>recv_notice := s, sem_freed := b, recv_lock := m\<rparr>) \<and>
    (r = Some k \<longrightarrow> s = Some 0 \<and> \<not> b \<and> m)"
proof -
  let ?s = "sock_of l k" and ?a = "e_mem e (allocs l)"
  have "?s\<lparr>recv_notice := None, sem_freed := False\<rparr> = ?s\<lparr>recv_notice := None, sem_freed := False, recv_lock := recv_lock ?s\<rparr>"
    by (cases ?s) simp
  then show ?thesis using assms
    by (intro exI [of _ "if ?a then Some 0 else None"] exI [of _ "?a \<and> r = None"] exI [of _ "if ?a then r \<noteq> None else recv_lock ?s"])
      (auto simp: equip_socket_def alloc_def upd_def Let_def split: if_splits)
qed

text \<open>The two ways an allocation ends: with no socket taken from the array, or with one.\<close>

lemma alloc_device_cases:
  assumes "alloc_socket_by_device e l = (r, l')"
  shows "(r = None \<and> sockets l' = sockets l \<and> socket_list l' = socket_list l \<and> drv l' = drv l) \<or>
    (\<exists>k s b m. free_slot l = Some k \<and> (r = None \<or> r = Some k) \<and> socket_list l' = list_enter k (socket_list l) \<and> drv l' = drv l \<and>
      sockets l' = (sockets l)(k := (fresh_sock (int (length (list_enter k (socket_list l))) - 1) (sock_of l k))
         \<lparr>recv_notice := s, sem_freed := b, recv_lock := m\<rparr>) \<and> (r = Some k \<longrightarrow> s = Some 0 \<and> \<not> b \<and> m))"
proof -
  obtain ok l1 where l1: "take_slock e l = (ok, l1)" by (metis surj_pair)
  note s1 = take_slock_keeps [OF l1]
  then have f1: "free_slot l1 = free_slot l" by (simp add: free_slot_def)
  show ?thesis
  proof (cases "if ok then free_slot l else None")
    case None
    then show ?thesis using assms s1 f1 unfolding alloc_socket_by_device_def l1 by (auto split: if_splits)
  next
    case (Some k)
    let ?n = "int (length (list_enter k (socket_list l))) - 1"
    have "equip_socket e k (upd k (fresh_sock ?n) (l1\<lparr>socket_list := list_enter k (socket_list l)\<rparr>)) = (r, l')"
      using assms Some unfolding alloc_socket_by_device_def l1 by (simp add: f1 s1 Let_def split: if_splits)
    from equip_cases [OF this] show ?thesis using Some s1
      by (intro disjI2 exI [of _ k]) (auto simp: upd_def split: if_splits)
  qed
qed

lemma alloc_device_wf:
  assumes "layer_wf l" "alloc_socket_by_device e l = (r, l')"
  shows "layer_wf l'"
proof -
  consider "sockets l' = sockets l" "socket_list l' = socket_list l"
    | k s b m where "free_slot l = Some k" "socket_list l' = list_enter k (socket_list l)"
      "sockets l' = (sockets l)(k := (fresh_sock (int (length (list_enter k (socket_list l))) - 1) (sock_of l k))
        \<lparr>recv_notice := s, sem_freed := b, recv_lock := m\<rparr>)"
    using alloc_device_cases [OF assms(2)] by blast
  then show ?thesis
  proof cases
    case 1
    then show ?thesis using assms(1) by (simp add: layer_wf_def)
  next
    case (2 k s b m)
    have "set (list_enter k (socket_list l)) \<subseteq> {..<AT_DEVICE_A9G_SOCKETS_NUM}"
      using set_list_enter [of k "socket_list l"] free_slot_lt [OF 2(1)] assms(1) by (auto simp: layer_wf_def)
    then show ?thesis using assms(1) 2(2,3) distinct_list_enter by (simp add: layer_wf_def)
  qed
qed

lemma wf_pkts: "layer_wf l \<Longrightarrow> list_all pkt_ok (recvpkt_list (sock_of l k))"
  by (simp add: layer_wf_def)

lemma wf_upd_keep: "layer_wf l \<Longrightarrow> recvpkt_list (f (sock_of l k)) = recvpkt_list (sock_of l k) \<Longrightarrow> layer_wf (upd k f l)"
  by (simp add: wf_upd wf_pkts)

lemma socket_wf: "layer_wf l \<Longrightarrow> at_socket e d t l = Inr (r, l') \<Longrightarrow> layer_wf l'"
  by (auto simp: at_socket_def alloc_socket_def Let_def intro!: wf_upd_keep dest: alloc_device_wf
      split: if_splits prod.splits option.splits)

lemma free_wf:
  assumes "layer_wf l" "free_socket e k l = Inr l'"
  shows "layer_wf l'"
proof -
  have l': "l' = upd k (\<lambda>s. sock0) (l\<lparr>socket_list := list_leave k (sock_no (sock_of l k)) (socket_list l)\<rparr>)"
    using assms(2) by (auto simp: free_socket_def split: if_splits)
  show ?thesis unfolding l' using assms(1) list_leave_ok [of "socket_list l" k "sock_no (sock_of l k)"]
    by (intro wf_upd wf_list) (auto simp: layer_wf_def sock0_def)
qed

text \<open>Before it frees the socket, a close changes only the state of the socket and the driver.\<close>

lemma close_sock_cases:
  assumes "close_sock e md k l = Inr (r, l')"
  shows "\<exists>l2. same_fds l l2 \<and> free_socket e k l2 = Inr l' \<and> (\<forall>j. recvpkt_list (sock_of l2 j) = recvpkt_list (sock_of l j))"
proof -
  let ?l1 = "upd k (\<lambda>s. s\<lparr>sock_state := AT_SOCKET_CLOSED\<rparr>) l"
  let ?l2 = "snd (if sock_state (sock_of l k) \<noteq> AT_SOCKET_CLOSED then drive (a9g_socket_close md (int k)) ?l1 else (0, ?l1))"
  have "same_fds l ?l1" by (rule same_fds_upd) simp_all
  then have "same_fds l ?l2" by (auto intro: same_fds_trans [OF _ same_fds_drive])
  moreover have "free_socket e k ?l2 = Inr l'"
    using assms by (auto simp: close_sock_def Let_def case_prod_unfold)
  moreover have "\<forall>j. recvpkt_list (sock_of ?l2 j) = recvpkt_list (sock_of l j)" by (simp add: drive_rest)
  ultimately show ?thesis by blast
qed

lemma close_sock_wf: "layer_wf l \<Longrightarrow> close_sock e md k l = Inr (r, l') \<Longrightarrow> layer_wf l'"
  using close_sock_cases free_wf same_fds_wf by blast

lemma closesocket_wf: "layer_wf l \<Longrightarrow> at_closesocket e md i l = Inr (r, l') \<Longrightarrow> layer_wf l'"
  using same_fds_wf [OF same_fds_drive]
  by (auto simp: at_closesocket_def Let_def split: option.splits intro: close_sock_wf)

lemma bind_wf:
  assumes "layer_wf l" "at_bind e md i name l = Inr (r, l')"
  shows "layer_wf l'"
proof (cases "at_get_socket i l = None \<or> fst (socketaddr_to_ipaddr_port name) = e_ip e (drv l)")
  case False
  then obtain k where k: "at_get_socket i l = Some k" by auto
  obtain r1 l1 where c: "at_closesocket e md i l = Inr (r1, l1)"
    using assms(2) k False by (auto simp: at_bind_def Let_def)
  have l1: "layer_wf l1" by (rule closesocket_wf [OF assms(1) c])
  obtain j l2 where l2: "alloc_socket_by_device e l1 = (j, l2)" by (metis surj_pair)
  show ?thesis using assms(2) k False c l1 alloc_device_wf [OF l1 l2] l2
    by (auto simp: at_bind_def Let_def intro!: wf_upd_keep split: if_splits option.splits)
qed (use assms in \<open>auto simp: at_bind_def Let_def split: option.splits\<close>)

section \<open>Calls that keep the descriptors\<close>

lemma upd_same_keep:
  "same_fds l l' \<Longrightarrow> magic (f (sock_of l' k)) = magic (sock_of l' k) \<Longrightarrow> sock_no (f (sock_of l' k)) = sock_no (sock_of l' k) \<Longrightarrow>
   sem_freed (f (sock_of l' k)) = sem_freed (sock_of l' k) \<Longrightarrow> recvpkt_list (f (sock_of l' k)) = recvpkt_list (sock_of l' k) \<Longrightarrow> same_fds l (upd k f l')"
  by (rule same_fds_trans [OF _ same_fds_upd]) simp_all

lemma connect_fds:
  assumes "at_connect md i name l = (r, l')"
  shows "same_fds l l'"
proof -
  have "same_fds l (snd (sock_connect md k name l))" for k by (rule connect_same)
  then show ?thesis using assms
    by (auto simp: at_connect_def Let_def case_prod_unfold intro!: upd_same_keep split: option.splits if_splits)
qed

lemma udp_first_same: "same_fds l (snd (udp_first md k dst l))"
  by (simp add: udp_first_def connect_same split: option.split)

lemma send_same: "same_fds l (snd (sock_send md k data dst l))"
proof -
  have c: "same_fds l (snd (udp_first md k dst l))" by (rule udp_first_same)
  have d: "same_fds l (snd (drive m (snd (udp_first md k dst l))))" for m :: "int atm"
    by (rule same_fds_trans [OF c same_fds_drive])
  show ?thesis using c d same_fds_drive
    by (auto simp: sock_send_def case_prod_unfold split: at_socket_type.splits bool.splits)
qed

lemma send_fds:
  assumes "at_sendto md i data dst l = (r, l')"
  shows "same_fds l l'"
proof -
  have s: "same_fds l (snd (sock_send md k data dst l))" for k by (rule send_same)
  show ?thesis
  proof (cases "data = [] \<or> at_get_socket i l = None")
    case False
    then obtain k where "at_get_socket i l = Some k" by auto
    then show ?thesis using assms False s [of k]
      by (cases "sock_send md k data dst l") (auto simp: at_sendto_def intro!: upd_same_keep split: if_splits)
  qed (use assms in \<open>auto simp: at_sendto_def split: option.splits\<close>)
qed

lemma exit_fds:
  assumes "same_fds l l1" "recv_exit k r d l1 = (r', d', l')"
  shows "same_fds l l'"
proof (cases "d = []")
  case True
  then have "l' = upd k (at_do_event_changes AT_EVENT_ERROR True) l1" using assms(2) by (simp add: recv_exit_def)
  then show ?thesis by (simp add: upd_same_keep [OF assms(1)])
next
  case False
  let ?f = "\<lambda>s. let s1 = at_do_event_changes AT_EVENT_RECV False s
    in if recvpkt_list s1 \<noteq> [] then at_do_event_changes AT_EVENT_RECV True s1 else at_do_event_clean AT_EVENT_RECV s1"
  have "same_fds l (l1\<lparr>errno := 0\<rparr>)" using assms(1) by (simp add: same_fds_def)
  then have "same_fds l (upd k ?f (l1\<lparr>errno := 0\<rparr>))" by (rule upd_same_keep) (simp_all add: Let_def)
  moreover have "l' = upd k ?f (l1\<lparr>errno := 0\<rparr>)" using assms(2) False by (simp add: recv_exit_def)
  ultimately show ?thesis by simp
qed

lemma sock_recv_fds:
  assumes "sock_recv e k n dw arr l = Some (Inr (r, d, l'))"
  shows "same_fds l l'"
proof -
  obtain d2 l2 where t: "sock_take e k n l = Inr (d2, l2)"
    using assms by (auto simp: sock_recv_def split: sum.splits)
  have l2: "same_fds l l2" by (rule take_same [OF t])
  have "same_fds l l'" if "recv_wait e k n b arr l2 = Some (Inr (x, y, l3))" "recv_exit k x y l3 = (r, d, l')" for b x y l3
    by (rule exit_fds [OF same_fds_trans [OF l2 wait_same [OF that(1)]] that(2)])
  then show ?thesis using assms t exit_fds [OF l2] by (auto simp: sock_recv_def split: if_splits)
qed

lemma recv_fds:
  assumes "at_recvfrom e md i n dw src arr l = Some (Inr (r, d, l'))"
  shows "same_fds l l'"
proof (cases "n = 0 \<or> at_get_socket i l = None")
  case True
  then show ?thesis using assms by (auto simp: at_recvfrom_def split: if_splits option.splits)
next
  case False
  then obtain k where k: "at_get_socket i l = Some k" by auto
  obtain b l1 where c: "(if sock_type (sock_of l k) = AT_SOCKET_UDP then udp_first md k src l else (True, l)) = (b, l1)"
    by (metis surj_pair)
  have l1: "same_fds l l1" using c udp_first_same [of l md k src] by (auto split: if_splits)
  show ?thesis using assms k False c exit_fds [OF l1] same_fds_trans [OF l1 sock_recv_fds]
    by (cases b) (auto simp: at_recvfrom_def)
qed

lemma option_fds: "at_setsockopt i lv nm tv l = (r, l') \<Longrightarrow> same_fds l l'"
  by (auto simp: at_setsockopt_def Let_def intro!: upd_same_keep split: option.splits if_splits)

lemma step_wf: "layer_step e md l l' \<Longrightarrow> layer_wf l \<Longrightarrow> layer_wf l'"
proof (induction rule: layer_step.induct)
  case (step_shutdown i l r l')
  then show ?case by (auto simp: at_shutdown_def split: option.splits intro: close_sock_wf)
qed (auto intro: socket_wf closesocket_wf bind_wf same_fds_wf connect_fds send_fds recv_fds option_fds deliver_same)

lemma layer0_wf: "layer_wf (layer0 d)"
  by (simp add: layer_wf_def layer0_def sock0_def)

lemma reach_wf: "(layer_step e md)\<^sup>*\<^sup>* (layer0 d) l \<Longrightarrow> layer_wf l"
  by (induction rule: rtranclp_induct) (auto intro: layer0_wf step_wf)

section \<open>Opening and closing\<close>

lemma list_enter_new: "k \<notin> set xs \<Longrightarrow> list_enter k xs = xs @ [k]"
  by (auto simp: list_enter_def intro!: takeWhile_eq_all_conv [THEN iffD2])

lemma free_slot_fd:
  assumes "fd_ok l"
  shows "free_slot l = None \<longleftrightarrow> length (socket_list l) = AT_DEVICE_A9G_SOCKETS_NUM"
    and "free_slot l = Some k \<Longrightarrow> k \<notin> set (socket_list l)"
proof -
  let ?n = AT_DEVICE_A9G_SOCKETS_NUM
  have d: "distinct (socket_list l)" "set (socket_list l) \<subseteq> {..<?n}" using assms by (auto simp: fd_ok_def layer_wf_def)
  have m: "magic (sock_of l k) = 0 \<longleftrightarrow> k \<notin> set (socket_list l)" for k
    using assms by (simp add: fd_ok_def AT_SOCKET_MAGIC_def)
  have "free_slot l = None \<longleftrightarrow> {..<?n} \<subseteq> set (socket_list l)" by (auto simp: free_slot_def find_None_iff m)
  also have "\<dots> \<longleftrightarrow> length (socket_list l) = ?n"
    using d distinct_card [OF d(1)] card_subset_eq [OF finite_lessThan d(2)] card_lessThan [of ?n]
    by (metis subset_antisym subset_refl)
  finally show "free_slot l = None \<longleftrightarrow> length (socket_list l) = ?n" .
  show "free_slot l = Some k \<Longrightarrow> k \<notin> set (socket_list l)" using free_slot_lt m by blast
qed

text \<open>A layer with one more entry in the list, which knows its position.\<close>

lemma fd_ok_enter:
  assumes "fd_ok l" "k \<notin> set (socket_list l)" "k < AT_DEVICE_A9G_SOCKETS_NUM" "socket_list l' = socket_list l @ [k]"
    "sockets l' = (sockets l)(k := s)" "magic s = AT_SOCKET_MAGIC" "sock_no s = int (length (socket_list l))" "recvpkt_list s = []"
  shows "fd_ok l'"
proof -
  have n: "socket_list l ! p \<noteq> k" if "p < length (socket_list l)" for p using that assms(2) nth_mem by blast
  show ?thesis using assms n by (auto simp: fd_ok_def layer_wf_def nth_append less_Suc_eq)
qed

lemma get_enter:
  assumes "fd_ok l" "k \<notin> set (socket_list l)" "socket_list l' = socket_list l @ [k]" "sockets l' = (sockets l)(k := s)"
    "magic s = AT_SOCKET_MAGIC"
  shows "at_get_socket i l' = (if i = int (length (socket_list l)) then Some k else at_get_socket i l)"
proof -
  have n: "socket_list l ! p \<noteq> k" if "p < length (socket_list l)" for p using that assms(2) nth_mem by blast
  show ?thesis using assms(3-) n by (auto simp: at_get_socket_def nth_append nat_less_iff)
qed

lemma socket_opens:
  assumes "fd_ok l" "at_socket e d t l = Inr (r, l')" "0 \<le> r"
  shows "\<exists>k s. k < AT_DEVICE_A9G_SOCKETS_NUM \<and> k \<notin> set (socket_list l) \<and> r = int (length (socket_list l)) \<and>
    socket_list l' = socket_list l @ [k] \<and> sockets l' = (sockets l)(k := s) \<and> drv l' = drv l \<and>
    magic s = AT_SOCKET_MAGIC \<and> sock_no s = r \<and> recvpkt_list s = [] \<and> sock_state s = AT_SOCKET_OPEN \<and>
    sock_type s = (if t = 1 then AT_SOCKET_TCP else AT_SOCKET_UDP) \<and> recv_notice s = Some 0 \<and> \<not> sem_freed s \<and> recv_lock s"
proof -
  have dt: "\<not> (d \<noteq> 45 \<and> d \<noteq> 2)" "\<not> (t \<noteq> 1 \<and> t \<noteq> 2)" "nd_up (nd (drv l)) \<and> e_found e"
    using assms(2,3) by (auto simp: at_socket_def alloc_socket_def split: if_splits)
  obtain q l1 where a: "alloc_socket_by_device e l = (q, l1)" by (metis surj_pair)
  have "q \<noteq> None" using assms(2,3) dt a by (auto simp: at_socket_def alloc_socket_def split: if_splits option.splits)
  with alloc_device_cases [OF a] obtain k where k: "free_slot l = Some k" "q = Some k" "drv l1 = drv l"
      "socket_list l1 = list_enter k (socket_list l)"
      "sockets l1 = (sockets l)(k := (fresh_sock (int (length (list_enter k (socket_list l))) - 1) (sock_of l k))
        \<lparr>recv_notice := Some 0, sem_freed := False, recv_lock := True\<rparr>)"
    by auto
  have n: "k \<notin> set (socket_list l)" "k < AT_DEVICE_A9G_SOCKETS_NUM"
    using free_slot_fd(2) [OF assms(1) k(1)] free_slot_lt [OF k(1)] by auto
  have l': "l' = upd k (\<lambda>s. s\<lparr>sock_type := if t = 1 then AT_SOCKET_TCP else AT_SOCKET_UDP, sock_state := AT_SOCKET_OPEN\<rparr>) l1"
      "r = sock_no (sock_of l' k)"
    using assms(2) dt a k(2) by (auto simp: at_socket_def alloc_socket_def Let_def split: if_splits)
  show ?thesis using n k(3-5) l' list_enter_new [OF n(1)]
    by (intro exI [of _ k] exI [of _ "sock_of l' k"]) (simp add: upd_def fresh_sock_def)
qed

lemma list_leave_own:
  assumes "distinct xs" "p < length xs"
  shows "list_leave (xs ! p) (int p) xs = take p xs @ drop (Suc p) xs"
proof -
  have "xs ! p \<notin> set (take p xs)" "xs ! p \<notin> set (drop (Suc p) xs)"
    using assms by (auto simp: in_set_conv_nth nth_eq_iff_index_eq)
  then show ?thesis using assms(2) by (simp add: list_leave_def)
qed

lemma close_sock_list:
  assumes "fd_ok l" "p < length (socket_list l)" "close_sock e md (socket_list l ! p) l = Inr (r, l')"
  shows "socket_list l' = take p (socket_list l) @ drop (Suc p) (socket_list l)" "sock_of l' (socket_list l ! p) = sock0"
    and "\<forall>k. k \<noteq> socket_list l ! p \<longrightarrow> magic (sock_of l' k) = magic (sock_of l k) \<and> sock_no (sock_of l' k) = sock_no (sock_of l k)"
proof -
  let ?k = "socket_list l ! p"
  obtain l2 where l2: "same_fds l l2" "free_socket e ?k l2 = Inr l'" using close_sock_cases [OF assms(3)] by blast
  have no: "sock_no (sock_of l2 ?k) = int p" "socket_list l2 = socket_list l"
    using assms(1,2) l2(1) by (auto simp: fd_ok_def same_fds_def)
  have d: "distinct (socket_list l)" using assms(1) by (simp add: fd_ok_def layer_wf_def)
  have l': "l' = upd ?k (\<lambda>s. sock0) (l2\<lparr>socket_list := take p (socket_list l) @ drop (Suc p) (socket_list l)\<rparr>)"
    using l2(2) no list_leave_own [OF d assms(2)] by (auto simp: free_socket_def split: if_splits)
  show "socket_list l' = take p (socket_list l) @ drop (Suc p) (socket_list l)" "sock_of l' ?k = sock0"
      "\<forall>k. k \<noteq> ?k \<longrightarrow> magic (sock_of l' k) = magic (sock_of l k) \<and> sock_no (sock_of l' k) = sock_no (sock_of l k)"
    unfolding l' using l2(1) by (auto simp: same_fds_def)
qed

lemma close_moves:
  assumes "fd_ok l" "p < length (socket_list l)" "close_sock e md (socket_list l ! p) l = Inr (r, l')" "0 \<le> j"
  shows "at_get_socket j l' = at_get_socket (if j < int p then j else j + 1) l"
proof -
  let ?xs = "socket_list l"
  note c = close_sock_list [OF assms(1-3)]
  have d: "distinct ?xs" using assms(1) by (simp add: fd_ok_def layer_wf_def)
  obtain q where q: "j = int q" using assms(4) nonneg_int_cases by blast
  let ?q = "if q < p then q else Suc q"
  have n: "socket_list l' ! q = ?xs ! ?q" "?xs ! ?q \<noteq> ?xs ! p" if "q < length ?xs - 1"
    using that assms(2) d by (auto simp: c(1) nth_append min_def nth_eq_iff_index_eq)
  have i: "(if j < int p then j else j + 1) = int ?q" using q by simp
  have len: "length (socket_list l') = length ?xs - 1" "q < length ?xs - 1 \<longleftrightarrow> ?q < length ?xs" using assms(2) by (auto simp: c(1))
  have "nat (int q + 1) = Suc q" by (simp add: nat_add_distrib)
  then show ?thesis unfolding i q using n c(3) len by (auto simp: at_get_socket_def)
qed

text \<open>Only the close of the newest socket leaves the descriptors in order.\<close>

lemma close_order:
  assumes "fd_ok l" "p < length (socket_list l)" "close_sock e md (socket_list l ! p) l = Inr (r, l')"
  shows "fd_ok l' \<longleftrightarrow> Suc p = length (socket_list l)"
proof
  let ?xs = "socket_list l"
  note c = close_sock_list [OF assms]
  have d: "distinct ?xs" using assms(1) by (simp add: fd_ok_def layer_wf_def)
  have wf: "layer_wf l'" using close_sock_wf [OF _ assms(3)] assms(1) by (simp add: fd_ok_def)
  { assume f: "fd_ok l'"
    show "Suc p = length ?xs"
    proof (rule ccontr)
      assume "Suc p \<noteq> length ?xs"
      then have p: "Suc p < length ?xs" using assms(2) by simp
      then have "socket_list l' ! p = ?xs ! Suc p" "p < length (socket_list l')" by (simp_all add: c(1) nth_append)
      moreover have "?xs ! Suc p \<noteq> ?xs ! p" using d p by (simp add: nth_eq_iff_index_eq)
      ultimately have "sock_no (sock_of l' (?xs ! Suc p)) = int p" "sock_no (sock_of l' (?xs ! Suc p)) = int (Suc p)"
        using f c(3) assms(1) p unfolding fd_ok_def by metis+
      then show False by simp
    qed }
  { assume p: "Suc p = length ?xs"
    then have l: "socket_list l' = take p ?xs" by (simp add: c(1))
    have x: "?xs = take p ?xs @ [?xs ! p]" using p by (metis take_Suc_conv_app_nth lessI take_all le_refl)
    have np: "?xs ! q \<noteq> ?xs ! p" if "q < p" for q using that d p by (simp add: nth_eq_iff_index_eq)
    have s: "set ?xs = insert (?xs ! p) (set (take p ?xs))" by (subst x) simp
    have ni: "?xs ! p \<notin> set (take p ?xs)" using d p by (auto simp: in_set_conv_nth nth_eq_iff_index_eq)
    have "sock_no (sock_of l' (socket_list l' ! q)) = int q" if "q < length (socket_list l')" for q
      using that assms(1) c(3) np p by (simp add: l fd_ok_def)
    moreover have "magic (sock_of l' k) = (if k \<in> set (socket_list l') then AT_SOCKET_MAGIC else 0)" for k
      using assms(1) c(2,3) s ni by (cases "k = ?xs ! p") (auto simp: l fd_ok_def sock0_def)
    ultimately show "fd_ok l'" using wf by (simp add: fd_ok_def) }
qed

lemma fd_ok_get: "fd_ok l \<Longrightarrow> at_get_socket i l = Some k \<Longrightarrow> 0 \<le> i \<and> nat i < length (socket_list l) \<and> k = socket_list l ! nat i"
  by (auto simp: at_get_socket_def split: if_splits)

lemma closesocket_sock:
  assumes "at_closesocket e md i l = Inr (r, l')" "at_get_socket i l = Some k"
  shows "\<exists>l1. same_fds l l1 \<and> close_sock e md k l1 = Inr (r, l')"
proof -
  have s: "same_fds l (snd (drive (emit_op (Delay 100)) l))" by (rule same_fds_drive)
  then show ?thesis using assms same_fds_get [OF s] by (auto simp: at_closesocket_def Let_def)
qed

lemma closesocket_moves:
  assumes "fd_ok l" "at_closesocket e md i l = Inr (r, l')" "at_get_socket i l = Some k"
  shows "0 \<le> j \<Longrightarrow> at_get_socket j l' = at_get_socket (if j < i then j else j + 1) l"
    and "fd_ok l' \<longleftrightarrow> nat i + 1 = length (socket_list l)"
proof -
  obtain l1 where l1: "same_fds l l1" "close_sock e md k l1 = Inr (r, l')" using closesocket_sock [OF assms(2,3)] by blast
  have f: "fd_ok l1" by (rule same_fds_ok [OF l1(1) assms(1)])
  have i: "0 \<le> i" "nat i < length (socket_list l1)" "k = socket_list l1 ! nat i"
    using fd_ok_get [OF assms(1,3)] l1(1) by (auto simp: same_fds_def)
  note c = l1(2) [unfolded i(3)]
  show "0 \<le> j \<Longrightarrow> at_get_socket j l' = at_get_socket (if j < i then j else j + 1) l"
    using close_moves [OF f i(2) c] same_fds_get [OF l1(1)] i(1) by simp
  show "fd_ok l' \<longleftrightarrow> nat i + 1 = length (socket_list l)"
    using close_order [OF f i(2) c] l1(1) by (simp add: same_fds_def)
qed

section \<open>Receiving\<close>

text \<open>Every socket in use has its semaphore and its mutex, and the semaphore was not deleted.\<close>

definition equipped :: "layer \<Rightarrow> bool" where
  "equipped l \<longleftrightarrow> (\<forall>k. magic (sock_of l k) = AT_SOCKET_MAGIC \<longrightarrow> recv_lock (sock_of l k) \<and>
     recv_notice (sock_of l k) \<noteq> None \<and> \<not> sem_freed (sock_of l k))"

fun about :: "notice \<Rightarrow> nat" where
  "about (RecvData k d) = k"
| "about (SockClosed k) = k"

lemma deliver_other:
  assumes "equipped l" "about n \<noteq> k"
  shows "\<exists>l'. deliver e n l = Inr l' \<and> equipped l' \<and> sock_of l' k = sock_of l k"
  using assms
  by (cases n) (auto simp: at_recv_notice_cb_def at_closed_notice_cb_def alloc_def equipped_def sem_use_def split: option.splits if_splits)

lemma deliver_all_other:
  "equipped l \<Longrightarrow> \<forall>n \<in> set ns. about n \<noteq> k \<Longrightarrow> \<exists>l'. deliver_all e ns l = Inr l' \<and> equipped l' \<and> sock_of l' k = sock_of l k"
proof (induction ns arbitrary: l)
  case (Cons n ns)
  obtain l1 where l1: "deliver e n l = Inr l1" "equipped l1" "sock_of l1 k = sock_of l k"
    using deliver_other [OF Cons.prems(1)] Cons.prems(2) by (metis list.set_intros(1))
  obtain l2 where "deliver_all e ns l1 = Inr l2" "equipped l2" "sock_of l2 k = sock_of l1 k"
    using Cons.IH [OF l1(2)] Cons.prems(2) by auto
  then show ?case using l1 by simp
qed simp

text \<open>Data that arrives for a socket.\<close>

lemma deliver_data:
  assumes "equipped l" "magic (sock_of l k) = AT_SOCKET_MAGIC" "e_mem e (allocs l)"
  shows "\<exists>l' v. deliver e (RecvData k d) l = Inr l' \<and> equipped l' \<and> recv_notice (sock_of l k) = Some v \<and>
    sock_of l' k = at_do_event_changes AT_EVENT_RECV True ((sock_of l k)\<lparr>recvpkt_list :=
      recvpkt_list (sock_of l k) @ [\<lparr>bfsz_totle = length d, bfsz_index = 0, buff = d\<rparr>], recv_notice := Some (v + 1)\<rparr>) \<and>
    (\<forall>j. j \<noteq> k \<longrightarrow> sock_of l' j = sock_of l j) \<and> socket_list l' = socket_list l \<and> drv l' = drv l"
proof -
  obtain v where "recv_notice (sock_of l k) = Some v" using assms(1,2) by (auto simp: equipped_def)
  then show ?thesis using assms by (auto simp: at_recv_notice_cb_def alloc_def equipped_def at_recvpkt_put_def sem_use_def)
qed

text \<open>
  What a call ends with that reads up to \<open>n\<close> bytes of the stream \<open>b\<close> with \<open>m\<close> bytes in its first
  packet: the first bytes, or the fault of reading on after the packet was freed.
\<close>

definition reads_stream :: "lenv \<Rightarrow> nat \<Rightarrow> nat \<Rightarrow> nat \<Rightarrow> mem \<Rightarrow> ((int \<times> mem \<times> layer) res) option \<Rightarrow> bool" where
  "reads_stream e k n m b out \<longleftrightarrow> (if e_keeps e \<or> n \<le> m
     then \<exists>l'. out = Some (Inr (int (length (take n b)), take n b, l')) \<and> stream_of (recvpkt_list (sock_of l' k)) = drop n b
     else out = Some (Inl UseAfterFree))"

definition first_left :: "at_recv_pkt list \<Rightarrow> nat" where
  "first_left ps = (case ps of [] \<Rightarrow> 0 | p # qs \<Rightarrow> length (pkt_rest p))"

text \<open>A read of the packets under the mutex.\<close>

lemma take_spec:
  assumes "recv_lock (sock_of l k)" "list_all pkt_ok (recvpkt_list (sock_of l k))" "recvpkt_list (sock_of l k) \<noteq> []"
  shows "if e_keeps e \<or> n \<le> first_left (recvpkt_list (sock_of l k))
    then \<exists>ps. sock_take e k n l = Inr (take n (stream_of (recvpkt_list (sock_of l k))), upd k (\<lambda>s. s\<lparr>recvpkt_list := ps\<rparr>) l) \<and>
      list_all pkt_ok ps \<and> stream_of ps = drop n (stream_of (recvpkt_list (sock_of l k)))
    else sock_take e k n l = Inl UseAfterFree"
proof -
  obtain p qs where ps: "recvpkt_list (sock_of l k) = p # qs" using assms(3) by (cases "recvpkt_list (sock_of l k)") auto
  have "pkt_ok p" using assms(2) ps by simp
  then have g: "at_recvpkt_get (e_keeps e) (recvpkt_list (sock_of l k)) n =
      (if e_keeps e \<or> n \<le> first_left (recvpkt_list (sock_of l k)) then at_recvpkt_get True (recvpkt_list (sock_of l k)) n
       else Inl UseAfterFree)"
    using recvpkt_get_freed [of p qs n] ps by (cases "e_keeps e") (simp_all add: first_left_def del: at_recvpkt_get.simps)
  show ?thesis using recvpkt_get_spec [OF assms(2), of n] assms(1) unfolding sock_take_def g by auto
qed

lemma take_none:
  assumes "recv_lock (sock_of l k)" "recvpkt_list (sock_of l k) = []"
  shows "sock_take e k n l = Inr ([], upd k (\<lambda>s. s\<lparr>recvpkt_list := []\<rparr>) l)"
  using assms by (simp add: sock_take_def)

text \<open>The wait, with nothing to read at its start.\<close>

definition waiting :: "nat \<Rightarrow> layer \<Rightarrow> bool" where
  "waiting k l \<longleftrightarrow> equipped l \<and> magic (sock_of l k) = AT_SOCKET_MAGIC \<and> sock_state (sock_of l k) = AT_SOCKET_CONNECT \<and>
     recvpkt_list (sock_of l k) = []"

lemma wait_one:
  assumes "equipped l" "magic (sock_of l k) = AT_SOCKET_MAGIC" "sock_state (sock_of l k) = AT_SOCKET_CONNECT"
    "recv_notice (sock_of l k) = Some v" "v \<noteq> 0" "recvpkt_list (sock_of l k) = [\<lparr>bfsz_totle = length d, bfsz_index = 0, buff = d\<rparr>]"
    "d \<noteq> []" "0 < n"
  shows "reads_stream e k n (length d) d (recv_wait e k n f arr l)"
proof -
  let ?u = "upd k (\<lambda>s. s\<lparr>recv_notice := Some (v - 1)\<rparr>) l"
  have p: "recv_lock (sock_of ?u k)" "list_all pkt_ok (recvpkt_list (sock_of ?u k))" "recvpkt_list (sock_of ?u k) \<noteq> []"
      "stream_of (recvpkt_list (sock_of ?u k)) = d" "first_left (recvpkt_list (sock_of ?u k)) = length d"
    using assms by (simp_all add: equipped_def pkt_ok_def stream_of_def pkt_rest_def first_left_def)
  have sem: "sem_use (sock_of l k) = Inr v" using assms by (simp add: sem_use_def equipped_def)
  note t = take_spec [OF p(1-3), of e n, unfolded p(4,5)]
  show ?thesis
  proof (cases "e_keeps e \<or> n \<le> length d")
    case True
    then obtain ps where "sock_take e k n ?u = Inr (take n d, upd k (\<lambda>s. s\<lparr>recvpkt_list := ps\<rparr>) ?u)" "stream_of ps = drop n d"
      using t by auto
    then show ?thesis using assms True sem by (subst recv_wait.simps) (simp add: reads_stream_def)
  next
    case False
    then have "sock_take e k n ?u = Inl UseAfterFree" using t by (simp split: if_splits)
    then show ?thesis using assms False sem by (subst recv_wait.simps) (simp add: reads_stream_def)
  qed
qed

lemma wait_deliver:
  "sem_use (sock_of l k) = Inr 0 \<Longrightarrow> deliver_all e ns l = Inr l1 \<Longrightarrow> recv_wait e k n f (ns # arr) l = recv_wait e k n f arr l1"
  by (subst recv_wait.simps) simp

lemma wait_closed:
  "sem_use (sock_of l k) = Inr v \<Longrightarrow> v \<noteq> 0 \<Longrightarrow> sock_state (sock_of l k) \<noteq> AT_SOCKET_CONNECT \<Longrightarrow>
     recv_wait e k n f arr l = Some (Inr (0, [], upd k (\<lambda>s. s\<lparr>recv_notice := Some (v - 1)\<rparr>) l))"
  by (subst recv_wait.simps) simp

lemma wait_wakes:
  assumes "\<And>m. e_mem e m" "d \<noteq> []" "0 < n"
  shows "waiting k l \<Longrightarrow> arr = pre @ [RecvData k d] # post \<Longrightarrow> \<forall>ns \<in> set pre. \<forall>x \<in> set ns. about x \<noteq> k \<Longrightarrow>
    reads_stream e k n (length d) d (recv_wait e k n f arr l)"
  using assms
proof (induction e k n f arr l arbitrary: pre rule: recv_wait.induct)
  case (1 e k n f arr l)
  obtain v where v': "recv_notice (sock_of l k) = Some v" using "1.prems"(1) by (auto simp: waiting_def equipped_def)
  have v: "sem_use (sock_of l k) = Inr v" using "1.prems"(1) v' by (simp add: sem_use_def waiting_def equipped_def)
  show ?case
  proof (cases "v = 0")
    case False
    let ?u = "upd k (\<lambda>s. s\<lparr>recv_notice := Some (v - 1)\<rparr>) l"
    let ?w = "upd k (\<lambda>s. s\<lparr>recvpkt_list := []\<rparr>) ?u"
    have t: "sock_take e k n ?u = Inr ([], ?w)" using "1.prems"(1) by (intro take_none) (simp_all add: waiting_def equipped_def)
    have "waiting k ?w" using "1.prems"(1) by (auto simp: waiting_def equipped_def)
    then have "reads_stream e k n (length d) d (recv_wait e k n f arr ?w)"
      using "1.IH"(1) [OF v False refl _ t refl] "1.prems" by (simp add: waiting_def)
    then show ?thesis using "1.prems"(1) v False t by (subst recv_wait.simps) (simp add: waiting_def)
  next
    case True
    show ?thesis
    proof (cases pre)
      case Nil
      obtain l1 v' where l1: "deliver e (RecvData k d) l = Inr l1" "equipped l1" "recv_notice (sock_of l k) = Some v'"
          "sock_of l1 k = at_do_event_changes AT_EVENT_RECV True ((sock_of l k)\<lparr>recvpkt_list :=
             recvpkt_list (sock_of l k) @ [\<lparr>bfsz_totle = length d, bfsz_index = 0, buff = d\<rparr>], recv_notice := Some (v' + 1)\<rparr>)"
        using deliver_data [of l k e d] "1.prems"(1,4) by (auto simp: waiting_def)
      have "reads_stream e k n (length d) d (recv_wait e k n f post l1)"
        using "1.prems" l1 v' True by (intro wait_one [where v = 1]) (auto simp: waiting_def)
      then show ?thesis using "1.prems"(2) Nil v True l1(1) wait_deliver [of l k e "[RecvData k d]" l1] by simp
    next
      case (Cons ns pre')
      obtain l1 where l1: "deliver_all e ns l = Inr l1" "equipped l1" "sock_of l1 k = sock_of l k"
        using deliver_all_other [of l ns k e] "1.prems"(1,3) Cons by (auto simp: waiting_def)
      then have "waiting k l1" using "1.prems"(1) by (simp add: waiting_def)
      then have "reads_stream e k n (length d) d (recv_wait e k n f (pre' @ [RecvData k d] # post) l1)"
        using "1.IH"(2) [OF v _ _ l1(1)] "1.prems" Cons True by simp
      then show ?thesis using "1.prems"(2) Cons v True wait_deliver [OF _ l1(1)] by simp
    qed
  qed
qed

lemma exit_data: "d \<noteq> [] \<Longrightarrow> \<exists>l'. recv_exit k r d l = (int (length d), d, l') \<and> recvpkt_list (sock_of l' k) = recvpkt_list (sock_of l k)"
  by (simp add: recv_exit_def Let_def)

lemma recv_found:
  assumes "at_get_socket i l = Some k" "0 < n"
  shows "at_recv e md i n dw arr l = sock_recv e k n dw arr l"
  using assms by (simp add: at_recv_def at_recvfrom_def udp_first_def)

lemma get_magic: "at_get_socket i l = Some k \<Longrightarrow> magic (sock_of l k) = AT_SOCKET_MAGIC"
  by (auto simp: at_get_socket_def split: if_splits)

text \<open>A call that finds data in the packets of its socket.\<close>

lemma recv_now:
  assumes "layer_wf l" "equipped l" "at_get_socket i l = Some k" "0 < n" "stream_of (recvpkt_list (sock_of l k)) \<noteq> []"
  shows "reads_stream e k n (first_left (recvpkt_list (sock_of l k))) (stream_of (recvpkt_list (sock_of l k))) (at_recv e md i n dw arr l)"
proof -
  let ?b = "stream_of (recvpkt_list (sock_of l k))"
  have r: "recv_lock (sock_of l k)" using assms(2) get_magic [OF assms(3)] by (simp add: equipped_def)
  have "recvpkt_list (sock_of l k) \<noteq> []" using assms(5) by (auto simp: stream_of_def)
  note t = take_spec [OF r wf_pkts [OF assms(1)] this, of e n]
  show ?thesis
  proof (cases "e_keeps e \<or> n \<le> first_left (recvpkt_list (sock_of l k))")
    case True
    then obtain ps where
      ps: "sock_take e k n l = Inr (take n ?b, upd k (\<lambda>s. s\<lparr>recvpkt_list := ps\<rparr>) l)" "stream_of ps = drop n ?b" using t by auto
    have ne: "take n ?b \<noteq> []" using assms(4,5) by simp
    obtain l' where "recv_exit k 0 (take n ?b) (upd k (\<lambda>s. s\<lparr>recvpkt_list := ps\<rparr>) l) = (int (length (take n ?b)), take n ?b, l')"
        "recvpkt_list (sock_of l' k) = ps"
      using exit_data [OF ne, of k 0 "upd k (\<lambda>s. s\<lparr>recvpkt_list := ps\<rparr>) l"] by auto
    then show ?thesis using ps ne True unfolding recv_found [OF assms(3,4)] sock_recv_def reads_stream_def by auto
  next
    case False
    then have "sock_take e k n l = Inl UseAfterFree" using t by (simp split: if_splits)
    then show ?thesis using False unfolding recv_found [OF assms(3,4)] sock_recv_def reads_stream_def by simp
  qed
qed

lemma recv_wakes:
  assumes "waiting k l" "at_get_socket i l = Some k" "0 < n" "\<And>m. e_mem e m" "d \<noteq> []"
    "\<forall>ns \<in> set pre. \<forall>x \<in> set ns. about x \<noteq> k"
  shows "reads_stream e k n (length d) d (at_recv e md i n False (pre @ [RecvData k d] # post) l)"
proof -
  let ?w = "upd k (\<lambda>s. s\<lparr>recvpkt_list := []\<rparr>) l"
  have t: "sock_take e k n l = Inr ([], ?w)" using assms(1) by (intro take_none) (simp_all add: waiting_def equipped_def)
  have w: "waiting k ?w" using assms(1) by (auto simp: waiting_def equipped_def)
  let ?o = "recv_wait e k n (sint (recv_timeout (sock_of ?w k)) \<le> 0) (pre @ [RecvData k d] # post) ?w"
  have o: "reads_stream e k n (length d) d ?o" by (rule wait_wakes [OF assms(4,5,3) w refl assms(6)])
  have c: "at_recv e md i n False (pre @ [RecvData k d] # post) l =
      map_option (\<lambda>m. and_then m (\<lambda>(r, d, l3). Inr (recv_exit k r d l3))) ?o"
    using w unfolding recv_found [OF assms(2,3)] sock_recv_def t by (simp add: waiting_def)
  have ne: "take n d \<noteq> []" using assms(3,5) by simp
  show ?thesis
  proof (cases "e_keeps e \<or> n \<le> length d")
    case True
    then obtain l1 where l1: "?o = Some (Inr (int (length (take n d)), take n d, l1))" "stream_of (recvpkt_list (sock_of l1 k)) = drop n d"
      using o by (auto simp: reads_stream_def)
    obtain l' where "recv_exit k (int (length (take n d))) (take n d) l1 = (int (length (take n d)), take n d, l')"
        "recvpkt_list (sock_of l' k) = recvpkt_list (sock_of l1 k)" using exit_data [OF ne] by blast
    then show ?thesis using l1 True unfolding c by (simp add: reads_stream_def)
  next
    case False
    then have "?o = Some (Inl UseAfterFree)" using o by (simp add: reads_stream_def split: if_splits)
    then show ?thesis using False unfolding c by (simp add: reads_stream_def)
  qed
qed

text \<open>A line of received data, down to the packets of its socket.\<close>

lemma parser_data:
  assumes "k < 8" "0 < length p" "length p < 2 ^ 31" "plain_data p" "length (recv_head k (length p) @ p) + 2 \<le> bufsz" "bufsz < 2 ^ 32"
    "at_evt_cb_set (drv l) ! 0" "equipped l" "magic (sock_of l k) = AT_SOCKET_MAGIC" "e_mem e (allocs l)"
  shows "\<exists>l'. layer_parser_turn bufsz True True e (l, recv_head k (length p) @ p @ crlf @ rx) = Some (Inr (l', rx)) \<and> equipped l' \<and>
    same_fds l l' \<and> recvpkt_list (sock_of l' k) = recvpkt_list (sock_of l k) @ [\<lparr>bfsz_totle = length p, bfsz_index = 0, buff = p\<rparr>] \<and>
    (\<forall>j. j \<noteq> k \<longrightarrow> sock_of l' j = sock_of l j)"
proof -
  let ?d = "notify 0 (RecvData k p) (drv l)"
  have t: "parser_turn bufsz True True (drv l, recv_head k (length p) @ p @ crlf @ rx) = Some (Inr (?d, rx))"
    using parser_ciprcv [OF assms(1-6)] by simp
  have "equipped (l\<lparr>drv := ?d\<rparr>)" "magic (sock_of (l\<lparr>drv := ?d\<rparr>) k) = AT_SOCKET_MAGIC" "e_mem e (allocs (l\<lparr>drv := ?d\<rparr>))"
    using assms(8-10) by (simp_all add: equipped_def)
  from deliver_data [OF this, of p] obtain l' v where
    l': "deliver e (RecvData k p) (l\<lparr>drv := ?d\<rparr>) = Inr l'" "equipped l'"
      "sock_of l' k = at_do_event_changes AT_EVENT_RECV True ((sock_of l k)\<lparr>recvpkt_list :=
         recvpkt_list (sock_of l k) @ [\<lparr>bfsz_totle = length p, bfsz_index = 0, buff = p\<rparr>], recv_notice := Some (v + 1)\<rparr>)"
      "\<forall>j. j \<noteq> k \<longrightarrow> sock_of l' j = sock_of l j" by auto
  have "same_fds (l\<lparr>drv := ?d\<rparr>) l'" by (rule deliver_same [OF l'(1)])
  then have "same_fds l l'" by (simp add: same_fds_def)
  moreover have "layer_parser_turn bufsz True True e (l, recv_head k (length p) @ p @ crlf @ rx) = Some (Inr (l', rx))"
    using l'(1) assms(7) by (simp add: layer_parser_turn_def t notify_def)
  ultimately show ?thesis using l'(2-4) by auto
qed

lemma alloc_mem:
  assumes "\<And>n. e_mem e n" "alloc_socket_by_device e l = (r, l')"
  shows "r = free_slot l"
proof -
  obtain ok l1 where l1: "take_slock e l = (ok, l1)" by (metis surj_pair)
  have ok: "ok" using l1 assms(1) by (auto simp: take_slock_def alloc_def split: if_splits)
  have f: "free_slot l1 = free_slot l" using take_slock_keeps [OF l1] by (simp add: free_slot_def)
  have "fst (equip_socket e k m) = Some k" for k m using assms(1) by (simp add: equip_socket_def alloc_def Let_def)
  then show ?thesis using assms(2) ok unfolding alloc_socket_by_device_def l1 f [symmetric]
    by (auto simp: Let_def split: option.splits) (metis fst_conv)+
qed

lemma socket_mem:
  assumes "fd_ok l" "nd_up (nd (drv l))" "e_found e" "\<And>n. e_mem e n" "t = 1 \<or> t = 2"
  shows "\<exists>r l'. at_socket e 2 t l = Inr (r, l') \<and> (if length (socket_list l) = AT_DEVICE_A9G_SOCKETS_NUM then r = - 1 \<and>
    sockets l' = sockets l \<and> socket_list l' = socket_list l else r = int (length (socket_list l)))"
proof -
  obtain q l1 where a: "alloc_socket_by_device e l = (q, l1)" by (metis surj_pair)
  have q: "q = free_slot l" by (rule alloc_mem [OF assms(4) a])
  show ?thesis
  proof (cases q)
    case None
    then have "length (socket_list l) = AT_DEVICE_A9G_SOCKETS_NUM" using free_slot_fd(1) [OF assms(1)] q by simp
    moreover have "sockets l1 = sockets l" "socket_list l1 = socket_list l" using alloc_device_cases [OF a] None q by auto
    ultimately show ?thesis using assms a None by (simp add: at_socket_def alloc_socket_def)
  next
    case (Some k)
    then have n: "length (socket_list l) \<noteq> AT_DEVICE_A9G_SOCKETS_NUM" using free_slot_fd(1) [OF assms(1)] q by auto
    have "sock_no (sock_of l1 k) = int (length (list_enter k (socket_list l))) - 1"
      using alloc_device_cases [OF a] Some by (auto simp: fresh_sock_def)
    also have "\<dots> = int (length (socket_list l))"
      using list_enter_new [OF free_slot_fd(2) [OF assms(1)]] Some q by simp
    finally show ?thesis using assms a Some n by (auto simp: at_socket_def alloc_socket_def Let_def)
  qed
qed

text \<open>While memory lasts, no socket has the pointer to a deleted semaphore.\<close>

definition no_freed :: "layer \<Rightarrow> bool" where
  "no_freed l \<longleftrightarrow> (\<forall>k. \<not> sem_freed (sock_of l k))"

lemma same_no_freed: "same_fds l l' \<Longrightarrow> no_freed l' \<longleftrightarrow> no_freed l"
  by (simp add: same_fds_def no_freed_def)

lemma layer0_no_freed: "no_freed (layer0 d)"
  by (simp add: no_freed_def layer0_def sock0_def)

lemma free_no_freed: "no_freed l \<Longrightarrow> free_socket e k l = Inr l' \<Longrightarrow> no_freed l'"
  by (auto simp: free_socket_def no_freed_def sock0_def split: if_splits)

lemma closesocket_no_freed:
  assumes "no_freed l" "at_closesocket e md i l = Inr (r, l')"
  shows "no_freed l'"
proof (cases "at_get_socket i l")
  case None
  then show ?thesis using assms same_fds_get [OF same_fds_drive [of l "emit_op (Delay 100)"]]
      same_no_freed [OF same_fds_drive [of l "emit_op (Delay 100)"]] by (simp add: at_closesocket_def Let_def)
next
  case (Some k)
  obtain l1 where "same_fds l l1" "close_sock e md k l1 = Inr (r, l')" using closesocket_sock [OF assms(2) Some] by blast
  then show ?thesis using close_sock_cases free_no_freed same_no_freed assms(1) by metis
qed

lemma socket_no_freed:
  assumes "no_freed l" "\<And>n. e_mem e n" "at_socket e d t l = Inr (r, l')"
  shows "no_freed l'"
proof -
  obtain q l1 where a: "alloc_socket_by_device e l = (q, l1)" by (metis surj_pair)
  have "q = free_slot l" by (rule alloc_mem [OF assms(2) a])
  then have 1: "no_freed l1" using alloc_device_cases [OF a] assms(1) by (auto simp: no_freed_def split: if_splits)
  have u: "no_freed (upd k (\<lambda>s. s\<lparr>sock_type := ty, sock_state := st\<rparr>) l1)" for k ty st using 1 by (simp add: no_freed_def)
  show ?thesis using assms(1,3) a 1 u
    by (auto simp: at_socket_def alloc_socket_def Let_def split: if_splits option.splits)
qed

text \<open>A close call returns exactly when no packet is left or freed blocks keep their contents.\<close>

lemma close_sock_outcome:
  assumes "\<not> sem_freed (sock_of l k)"
  shows "if e_keeps e \<or> recvpkt_list (sock_of l k) = [] then \<exists>r l'. close_sock e md k l = Inr (r, l')
    else close_sock e md k l = Inl UseAfterFree"
  using assms by (auto simp: close_sock_def free_socket_def at_recvpkt_all_delete_def drive_rest Let_def case_prod_unfold)

lemma closesocket_outcome:
  assumes "no_freed l"
  shows "case at_get_socket i l of
      None \<Rightarrow> \<exists>r l'. at_closesocket e md i l = Inr (r, l')
    | Some k \<Rightarrow> if e_keeps e \<or> recvpkt_list (sock_of l k) = [] then \<exists>r l'. at_closesocket e md i l = Inr (r, l')
        else at_closesocket e md i l = Inl UseAfterFree"
proof -
  let ?l1 = "snd (drive (emit_op (Delay 100)) l)"
  have "sock_of ?l1 k = sock_of l k" for k by (simp add: drive_rest)
  then show ?thesis using assms close_sock_outcome [of ?l1 _ e md]
    by (auto simp: at_closesocket_def Let_def same_fds_get [OF same_fds_drive] no_freed_def split: option.splits if_splits)
qed

lemma conn_layer_ok:
  assumes "list_all pkt_ok ps"
  shows "fd_ok (conn_layer ps)" "equipped (conn_layer ps)" "at_get_socket 0 (conn_layer ps) = Some 0"
    "recvpkt_list (sock_of (conn_layer ps) 0) = ps"
  using assms by (auto simp: conn_layer_def fd_ok_def layer_wf_def equipped_def at_get_socket_def layer0_def sock0_def
      AT_SOCKET_MAGIC_def AT_DEVICE_A9G_SOCKETS_NUM_def)

section \<open>Properties\<close>

text \<open>
  C12: the packets of a socket implement a byte stream.  Data arrives, with memory for it or without,
  and is read in whatever order.  Where a freed block keeps its contents until it is given out again,
  each read returns the next bytes of what arrived while there was memory, as many as asked for or all
  there are, and what was read and what is left together are those bytes.  Where it does not, the same
  holds as long as no read asks for more than is left of the first packet; from the first such read on
  the run is a fault, a read of the block just freed.
\<close>

theorem recvpkts_are_stream:
  "\<exists>q. stream_run (\<lambda>b q d. snd (at_recvpkt_put b q d)) (at_recvpkt_get keeps) os [] =
      (if crosses os [] \<and> \<not> keeps then Inl UseAfterFree else Inr (spec_reads os [], q)) \<and>
     concat (spec_reads os []) @ stream_of q = puts os"
proof -
  obtain q where "stream_run (\<lambda>b q d. snd (at_recvpkt_put b q d)) (at_recvpkt_get True) os [] = Inr (spec_reads os [], q)"
      "concat (spec_reads os []) @ stream_of q = puts os"
    using rq.run_spec [of "[]" os] by (auto simp: stream_of_def)
  then show ?thesis using run_freed [of "[]" os] by (cases keeps) auto
qed

text \<open>
  C14: whatever calls an application makes and whatever the modem reports, in whatever order and with
  whatever memory, the list of sockets has no node twice and only nodes of the eight sockets, and
  every packet of every socket is well-formed.
\<close>

theorem layer_structure:
  assumes "(layer_step e md)\<^sup>*\<^sup>* (layer0 d) l"
  shows "distinct (socket_list l) \<and> (\<forall>k \<in> set (socket_list l). k < 8) \<and>
    (\<forall>k. list_all pkt_ok (recvpkt_list (sock_of l k)))"
  using reach_wf [OF assms] by (auto simp: layer_wf_def AT_DEVICE_A9G_SOCKETS_NUM_def)

theorem layer_structure_witness:
  "\<exists>l. at_socket open_env 2 1 (layer0 up_dev) = Inr (0, l) \<and> distinct (socket_list l)"
proof -
  obtain l where l: "at_socket open_env 2 1 (layer0 up_dev) = Inr (0, l)"
    by (simp add: at_socket_def alloc_socket_def open_env_def up_dev_def idle_dev_def layer0_def alloc_socket_by_device_def
        take_slock_def alloc_def free_slot_def AT_DEVICE_A9G_SOCKETS_NUM_def sock0_def upt_rec equip_socket_def upd_def
        fresh_sock_def list_enter_def Let_def)
  then have "(layer_step open_env (good_modem [] None))\<^sup>*\<^sup>* (layer0 up_dev) l" by (blast intro: step_socket)
  from layer_structure [OF this] l show ?thesis by blast
qed



text \<open>
  C13: while the descriptors are in order, that is, each open socket knows its position in the list as
  its descriptor (\<open>fd_ok\<close>, so since the start or the last time only the newest was closed), a close
  that returns moves every later descriptor: afterwards each refers to the socket the next one
  referred to, so the newest refers to none and the others to the wrong socket.  The descriptors are
  in order after it only when the newest was closed; otherwise the sockets above no longer know their
  position, and nothing is said of a second close.
\<close>

theorem close_moves_descriptors:
  assumes "fd_ok l" "at_closesocket e md i l = Inr (r, l')" "at_get_socket i l \<noteq> None"
  shows "(\<forall>j \<ge> 0. at_get_socket j l' = at_get_socket (if j < i then j else j + 1) l) \<and>
    (fd_ok l' \<longleftrightarrow> nat i + 1 = length (socket_list l))"
proof -
  obtain k where "at_get_socket i l = Some k" using assms(3) by blast
  from closesocket_moves [OF assms(1,2) this] show ?thesis by blast
qed

theorem close_moves_descriptors_witness:
  "\<exists>r l'. at_closesocket open_env (good_modem [] None) 0 (conn_layer []) = Inr (r, l') \<and> fd_ok l'"
proof -
  obtain r l' where c: "at_closesocket open_env (good_modem [] None) 0 (conn_layer []) = Inr (r, l')"
  proof -
    let ?l = "snd (drive (emit_op (Delay 100)) (conn_layer []))"
    have g: "at_get_socket 0 ?l = Some 0" using conn_layer_ok(3) [of "[]"] by (simp add: same_fds_get [OF same_fds_drive])
    have "recvpkt_list (sock_of ?l 0) = []" using conn_layer_ok(4) [of "[]"] by (simp add: drive_rest)
    then have "\<exists>x. close_sock open_env (good_modem [] None) 0 ?l = Inr x"
      by (auto simp: close_sock_def free_socket_def at_recvpkt_all_delete_def drive_rest Let_def case_prod_unfold
          conn_layer_def layer0_def sock0_def)
    then show ?thesis using that g by (auto simp: at_closesocket_def Let_def)
  qed
  have "fd_ok (conn_layer [])" "at_get_socket 0 (conn_layer []) \<noteq> None" by (simp_all add: conn_layer_ok)
  from close_moves_descriptors [OF this(1) c this(2)] c show ?thesis by (auto simp: conn_layer_def)
qed

text \<open>
  A receive call that asks for more than the first packet holds reads a block it has freed; where
  the contents of freed blocks are not kept, that is a fault.
\<close>

theorem receive_reads_freed:
  assumes "layer_wf l" "at_get_socket i l = Some k" "recv_lock (sock_of l k)" "recvpkt_list (sock_of l k) = p # ps"
    "length (pkt_rest p) < n" "\<not> e_keeps e"
  shows "at_recv e md i n dw arr l = Some (Inl UseAfterFree)"
proof -
  have "pkt_ok p" using wf_pkts [OF assms(1), of k] assms(4) by simp
  then have "at_recvpkt_get False (p # ps) n = Inl UseAfterFree" using recvpkt_get_freed assms(5) by simp
  then have "sock_take e k n l = Inl UseAfterFree" using assms(3,4,6) by (simp add: sock_take_def)
  then show ?thesis using recv_found [OF assms(2)] assms(5) by (simp add: sock_recv_def)
qed

theorem receive_reads_freed_witness:
  "at_recv (open_env\<lparr>e_keeps := False\<rparr>) (good_modem [] None) 0 384 False []
     (conn_layer [\<lparr>bfsz_totle = 2, bfsz_index = 0, buff = bytes ''hi''\<rparr>]) = Some (Inl UseAfterFree)"
proof -
  have p: "list_all pkt_ok [\<lparr>bfsz_totle = 2, bfsz_index = 0, buff = bytes ''hi''\<rparr>]" by (simp add: pkt_ok_def)
  have "layer_wf (conn_layer [\<lparr>bfsz_totle = 2, bfsz_index = 0, buff = bytes ''hi''\<rparr>])"
    using conn_layer_ok(1) [OF p] by (simp add: fd_ok_def)
  from receive_reads_freed [OF this conn_layer_ok(3) [OF p]] show ?thesis
    using conn_layer_ok(4) [OF p] by (simp add: conn_layer_def pkt_rest_def)
qed

text \<open>
  C15: a receive call that waits on a connected socket ends when data for the socket is delivered on
  its own, with no report of a close before the caller runs, and memory lasts: whatever was reported
  for other sockets before and however often the semaphore was left released.  It returns the first
  bytes of that data, and the rest stays for the next call; only when it asked for more than the data
  and freed blocks do not keep their contents, it reads the freed packet instead.
\<close>

theorem receive_wakes:
  assumes "waiting k l" "at_get_socket i l = Some k" "0 < n" "\<And>m. e_mem e m" "d \<noteq> []"
    "\<forall>ns \<in> set pre. \<forall>x \<in> set ns. about x \<noteq> k"
  shows "if e_keeps e \<or> n \<le> length d
    then \<exists>l'. at_recv e md i n False (pre @ [RecvData k d] # post) l = Some (Inr (int (min n (length d)), take n d, l')) \<and>
      stream_of (recvpkt_list (sock_of l' k)) = drop n d
    else at_recv e md i n False (pre @ [RecvData k d] # post) l = Some (Inl UseAfterFree)"
  using recv_wakes [OF assms, of md post] unfolding reads_stream_def length_take min.commute [of n] .

theorem receive_wakes_witness:
  "\<exists>l'. at_recv open_env (good_modem [] None) 0 384 False [[SockClosed 1], [RecvData 0 [1, 2]]] (conn_layer []) =
     Some (Inr (2, [1, 2], l'))"
proof -
  have "waiting 0 (conn_layer [])" using conn_layer_ok [of "[]"] by (auto simp: waiting_def conn_layer_def)
  from receive_wakes [OF this conn_layer_ok(3), of 384 open_env "[1, 2]" "[[SockClosed 1]]" "good_modem [] None" "[]"]
  show ?thesis by (auto simp: open_env_def)
qed

text \<open>
  C4: a message from the modem to the application.  The modem sends a line that carries \<open>p\<close> for socket
  \<open>k\<close>; the line fits the receive buffer, no part of \<open>p\<close> completes another report of the modem
  (\<open>plain_data\<close>), the layer's callback is set, the socket has its semaphore and mutex and there is
  memory for the packet.  Then one turn of the parser thread takes exactly that line and adds \<open>p\<close> to
  the stream of the socket and to no other, and the next receive call returns the first bytes of the
  stream; only when it asks for more than is left of the first packet and freed blocks do not keep
  their contents, it reads the packet it has freed instead.
\<close>

theorem message_reaches_application:
  assumes "k < 8" "0 < length p" "length p < 2 ^ 31" "plain_data p" "length (recv_head k (length p) @ p) + 2 \<le> bufsz" "bufsz < 2 ^ 32"
    "at_evt_cb_set (drv l) ! 0" "layer_wf l" "equipped l" "at_get_socket i l = Some k" "e_mem e (allocs l)" "0 < n"
  shows "\<exists>l1. layer_parser_turn bufsz True True e (l, recv_head k (length p) @ p @ crlf @ rx) = Some (Inr (l1, rx)) \<and>
    (\<forall>j. j \<noteq> k \<longrightarrow> sock_of l1 j = sock_of l j) \<and>
    (let ps = recvpkt_list (sock_of l k); b = stream_of ps @ p
     in if e_keeps e \<or> n \<le> (case ps of [] \<Rightarrow> length p | q # qs \<Rightarrow> length (pkt_rest q))
        then \<exists>l2. at_recv e md i n dw arr l1 = Some (Inr (int (length (take n b)), take n b, l2)) \<and>
          stream_of (recvpkt_list (sock_of l2 k)) = drop n b
        else at_recv e md i n dw arr l1 = Some (Inl UseAfterFree))"
proof -
  let ?ps = "recvpkt_list (sock_of l k)"
  obtain l1 where l1: "layer_parser_turn bufsz True True e (l, recv_head k (length p) @ p @ crlf @ rx) = Some (Inr (l1, rx))"
      "equipped l1" "same_fds l l1" "recvpkt_list (sock_of l1 k) = ?ps @ [\<lparr>bfsz_totle = length p, bfsz_index = 0, buff = p\<rparr>]"
      "\<forall>j. j \<noteq> k \<longrightarrow> sock_of l1 j = sock_of l j"
    using parser_data [OF assms(1-7,9) get_magic [OF assms(10)] assms(11)] by blast
  have "layer_wf l1" "at_get_socket i l1 = Some k" using same_fds_wf [OF l1(3) assms(8)] same_fds_get [OF l1(3)] assms(10) by auto
  moreover have s: "stream_of (recvpkt_list (sock_of l1 k)) = stream_of ?ps @ p"
      "first_left (recvpkt_list (sock_of l1 k)) = (case ?ps of [] \<Rightarrow> length p | q # qs \<Rightarrow> length (pkt_rest q))"
    unfolding l1(4) by (simp_all add: stream_of_def pkt_rest_def first_left_def split: list.split)
  ultimately have "reads_stream e k n (case ?ps of [] \<Rightarrow> length p | q # qs \<Rightarrow> length (pkt_rest q)) (stream_of ?ps @ p) (at_recv e md i n dw arr l1)"
    using recv_now [of l1 i k n e md dw arr] l1(2) assms(2,12) by simp
  then show ?thesis using l1(1,5) unfolding reads_stream_def Let_def by blast
qed

theorem message_reaches_application_witness:
  "\<exists>l1 l2. layer_parser_turn 512 True True open_env (conn_layer [], recv_head 0 (length (bytes ''hi'')) @ bytes ''hi'' @ crlf @ []) = Some (Inr (l1, [])) \<and>
     at_recv open_env (good_modem [] None) 0 384 False [] l1 = Some (Inr (2, bytes ''hi'', l2))"
proof -
  have "plain_data (bytes ''hi'')" by (simp add: plain_data_def ends_with_def)
  moreover have "length (recv_head 0 (length (bytes ''hi'')) @ bytes ''hi'') + 2 \<le> 512" by (simp add: recv_head_def dec_digits.simps)
  moreover have "layer_wf (conn_layer [])" using conn_layer_ok(1) [of "[]"] by (simp add: fd_ok_def)
  moreover have "at_evt_cb_set (drv (conn_layer [])) ! 0" by (simp add: conn_layer_def layer0_def up_dev_def idle_dev_def)
  ultimately show ?thesis
    using message_reaches_application [of 0 "bytes ''hi''" 512 "conn_layer []" 0 open_env 384 "[]" "good_modem [] None" False "[]"]
      conn_layer_ok [of "[]"] by (auto simp: open_env_def stream_of_def)
qed

text \<open>
  A socket for which no semaphore can be created is reported as a failure, but its entry of
  the array stays marked and in the list.
\<close>

theorem failed_socket_stays:
  assumes "fd_ok l" "nd_up (nd (drv l))" "e_found e" "at_slock l" "\<not> e_mem e (allocs l)" "length (socket_list l) \<noteq> 8"
  shows "\<exists>l' k. at_socket e 2 1 l = Inr (- 1, l') \<and> socket_list l' = socket_list l @ [k] \<and> magic (sock_of l' k) = AT_SOCKET_MAGIC"
proof -
  obtain k where k: "free_slot l = Some k" using free_slot_fd(1) [OF assms(1)] assms(6) by (auto simp: AT_DEVICE_A9G_SOCKETS_NUM_def)
  show ?thesis using assms k list_enter_new [OF free_slot_fd(2) [OF assms(1) k]]
    by (auto simp: at_socket_def alloc_socket_def alloc_socket_by_device_def take_slock_def equip_socket_def alloc_def Let_def
        fresh_sock_def)
qed

theorem failed_socket_stays_witness:
  "\<exists>l' k. at_socket (open_env\<lparr>e_mem := \<lambda>n. False\<rparr>) 2 1 (conn_layer []) = Inr (- 1, l') \<and> socket_list l' = [0, k]"
  using failed_socket_stays [OF conn_layer_ok(1), of "[]" "open_env\<lparr>e_mem := \<lambda>n. False\<rparr>"]
  by (force simp: conn_layer_def layer0_def up_dev_def open_env_def)

text \<open>
  A socket for which no mutex can be created is reported as a failure and stays in the list, too, with
  the pointer to the semaphore that was deleted: a close of its descriptor deletes the semaphore again.
\<close>

theorem failed_socket_deletes_twice:
  assumes "fd_ok l" "nd_up (nd (drv l))" "e_found e" "at_slock l" "e_mem e (allocs l)" "\<not> e_mem e (Suc (allocs l))"
    "length (socket_list l) \<noteq> 8"
  shows "\<exists>l'. at_socket e 2 1 l = Inr (- 1, l') \<and>
    at_closesocket e md (int (length (socket_list l))) l' = Inl UseAfterFree"
proof -
  obtain k where k: "free_slot l = Some k" using free_slot_fd(1) [OF assms(1)] assms(7) by (auto simp: AT_DEVICE_A9G_SOCKETS_NUM_def)
  obtain l' where l': "at_socket e 2 1 l = Inr (- 1, l')" "socket_list l' = socket_list l @ [k]"
      "magic (sock_of l' k) = AT_SOCKET_MAGIC" "recv_notice (sock_of l' k) = Some 0" "sem_freed (sock_of l' k)"
    using assms k list_enter_new [OF free_slot_fd(2) [OF assms(1) k]]
    by (auto simp: at_socket_def alloc_socket_def alloc_socket_by_device_def take_slock_def equip_socket_def alloc_def Let_def
        fresh_sock_def)
  have "at_get_socket (int (length (socket_list l))) (snd (drive (emit_op (Delay 100)) l')) = Some k"
    using l'(2,3) by (simp add: at_get_socket_def drive_rest)
  then have "at_closesocket e md (int (length (socket_list l))) l' = Inl UseAfterFree"
    using l'(4,5) by (simp add: at_closesocket_def close_sock_def free_socket_def drive_rest Let_def case_prod_unfold)
  then show ?thesis using l'(1) by blast
qed

theorem failed_socket_deletes_twice_witness:
  "\<exists>l'. at_socket (open_env\<lparr>e_mem := \<lambda>n. n = 0\<rparr>) 2 1 (conn_layer []) = Inr (- 1, l') \<and>
     at_closesocket (open_env\<lparr>e_mem := \<lambda>n. n = 0\<rparr>) (good_modem [] None) 1 l' = Inl UseAfterFree"
  using failed_socket_deletes_twice [OF conn_layer_ok(1), of "[]" "open_env\<lparr>e_mem := \<lambda>n. n = 0\<rparr>" "good_modem [] None"]
  by (force simp: conn_layer_def layer0_def up_dev_def open_env_def)

text \<open>
  When the data and the report of the close arrive before the waiting caller runs, the call
  returns 0, the end of the stream, with the data still in the packets of the socket.
\<close>

theorem end_before_data:
  assumes "waiting k l" "at_get_socket i l = Some k" "recv_notice (sock_of l k) = Some 0" "0 < n" "e_mem e (allocs l)" 
  shows "\<exists>l'. at_recv e md i n False ([RecvData k d, SockClosed k] # post) l = Some (Inr (0, [], l')) \<and>
    stream_of (recvpkt_list (sock_of l' k)) = d"
proof -
  let ?w = "upd k (\<lambda>s. s\<lparr>recvpkt_list := []\<rparr>) l"
  have t: "sock_take e k n l = Inr ([], ?w)" using assms(1) by (intro take_none) (simp_all add: waiting_def equipped_def)
  have w: "sock_of ?w k = sock_of l k" using assms(1) by (cases "sock_of l k") (simp add: waiting_def)
  have "equipped ?w" "magic (sock_of ?w k) = AT_SOCKET_MAGIC" "e_mem e (allocs ?w)"
    using assms(1,5) by (auto simp: waiting_def equipped_def)
  from deliver_data [OF this, of d] obtain la where la: "deliver e (RecvData k d) ?w = Inr la"
      "sock_of la k = at_do_event_changes AT_EVENT_RECV True ((sock_of l k)\<lparr>recvpkt_list :=
        [\<lparr>bfsz_totle = length d, bfsz_index = 0, buff = d\<rparr>], recv_notice := Some 1\<rparr>)"
    unfolding w using assms(1,3) by (auto simp: waiting_def)
  have "\<exists>l1. deliver e (SockClosed k) la = Inr l1 \<and> recv_notice (sock_of l1 k) = Some 2 \<and>
      sock_state (sock_of l1 k) = AT_SOCKET_CLOSED \<and> recvpkt_list (sock_of l1 k) = [\<lparr>bfsz_totle = length d, bfsz_index = 0, buff = d\<rparr>]"
    using la(2) assms(1) by (simp add: at_closed_notice_cb_def waiting_def sem_use_def equipped_def)
  then obtain l1 where l1: "deliver_all e [RecvData k d, SockClosed k] ?w = Inr l1" "recv_notice (sock_of l1 k) = Some 2"
      "sock_state (sock_of l1 k) = AT_SOCKET_CLOSED" "stream_of (recvpkt_list (sock_of l1 k)) = d"
    using la(1) by (auto simp: stream_of_def pkt_rest_def)
  have "equipped l" "magic (sock_of l k) = AT_SOCKET_MAGIC" using assms(1) by (simp_all add: waiting_def)
  then have "\<not> sem_freed (sock_of l k)" by (simp add: equipped_def)
  moreover have "\<not> sem_freed (sock_of l1 k)"
    using deliver_all_same [OF l1(1)] \<open>\<not> sem_freed (sock_of l k)\<close> by (simp add: same_fds_def)
  ultimately have "sem_use (sock_of ?w k) = Inr 0" "sem_use (sock_of l1 k) = Inr 2"
    using assms(3) l1(2) by (simp_all add: sem_use_def)
  then have "recv_wait e k n f ([RecvData k d, SockClosed k] # post) ?w = Some (Inr (0, [], upd k (\<lambda>s. s\<lparr>recv_notice := Some 1\<rparr>) l1))" for f
    using wait_deliver [OF _ l1(1)] wait_closed [of l1 k 2] l1(3) by simp
  then show ?thesis using l1(4) assms(1) unfolding recv_found [OF assms(2,4)] sock_recv_def t
    by (simp add: waiting_def recv_exit_def)
qed

theorem end_before_data_witness:
  "\<exists>l'. at_recv open_env (good_modem [] None) 0 384 False [[RecvData 0 [1, 2], SockClosed 0]] (conn_layer []) = Some (Inr (0, [], l')) \<and>
     stream_of (recvpkt_list (sock_of l' 0)) = [1, 2]"
proof -
  have "waiting 0 (conn_layer [])" "recv_notice (sock_of (conn_layer []) 0) = Some 0"
    using conn_layer_ok [of "[]"] by (auto simp: waiting_def conn_layer_def)
  from end_before_data [OF this(1) conn_layer_ok(3) this(2), of 384 open_env "good_modem [] None" "[1, 2]" "[]"]
  show ?thesis by (auto simp: open_env_def)
qed

end
