(* ===== verification/At_Resolve.thy ===== *)
theory At_Resolve
  imports A9g_Socket_Props Ip_Addr
begin

text \<open>
  Host names in the AT socket layer: \<open>at_gethostbyname\<close> and \<open>at_getaddrinfo\<close> of \<open>at_socket.c\<close>.  The first
  asks the modem for a name with a letter in it; in the second that call is commented out and a fixed
  address stands in its place.
\<close>

section \<open>Definitions\<close>

definition DNS_MAX_NAME_LENGTH :: nat where "DNS_MAX_NAME_LENGTH = 256"

definition isalpha :: "u8 \<Rightarrow> bool" where
  "isalpha c \<longleftrightarrow> 0x41 \<le> c \<and> c \<le> 0x5A \<or> 0x61 \<le> c \<and> c \<le> 0x7A"

text \<open>\<open>for (idx = 0; idx < strlen(name) && !isalpha(name[idx]); idx++);\<close> and \<open>idx < strlen(name)\<close>\<close>

definition has_alpha :: "mem \<Rightarrow> bool res" where
  "has_alpha name = and_then (strlen name) (\<lambda>n. Inr (list_ex isalpha (take n name)))"

text \<open>\<open>strncpy(ipstr, name, strlen(name))\<close>: the characters without a NUL, over what the buffer holds.\<close>

definition strncpy_all :: "mem \<Rightarrow> mem \<Rightarrow> mem res" where
  "strncpy_all ipstr name =
     and_then (strlen name) (\<lambda>n. if n > length ipstr then Inl OutOfBounds else Inr (take n name @ drop n ipstr))"

text \<open>The address and the name of the static \<open>hostent\<close>; \<open>None\<close> for the null pointer.\<close>

definition at_gethostbyname :: "modem \<Rightarrow> mem option \<Rightarrow> (((u32 \<times> mem) option) res) atm" where
  "at_gethostbyname md name =
     (case name of
        None \<Rightarrow> State_Monad.return (Inr None)
      | Some name \<Rightarrow>
          let finish = (\<lambda>ipstr. and_then (ipstr_to_u32 ipstr) (\<lambda>a. and_then (strlen name) (\<lambda>n.
                Inr (Some (a, take DNS_MAX_NAME_LENGTH (take n name))))))
          in if \<not> m_first md then State_Monad.return (Inr None)
             else case has_alpha name of
               Inl f \<Rightarrow> State_Monad.return (Inl f)
             | Inr False \<Rightarrow> State_Monad.return (and_then (strncpy_all (replicate 16 0) name) finish)
             | Inr True \<Rightarrow> do {
                 r \<leftarrow> a9g_domain_resolve md (str_of name);
                 State_Monad.return (and_then r (\<lambda>(result, ip).
                   if result < 0 then Inr None else finish (case ip of None \<Rightarrow> replicate 16 0 | Some t \<Rightarrow> t)))
               })"

record hint =
  ai_family :: int
  ai_socktype :: int
  ai_protocol :: int
  ai_flags :: u32

text \<open>The filled \<open>addrinfo\<close> with its \<open>sockaddr_in\<close>.\<close>

record addrinfo =
  s_addr :: u32
  s_port :: u16
  r_family :: int
  r_socktype :: int
  r_protocol :: int
  canonname :: "mem option"

text \<open>\<open>EAI_NONAME\<close> 200, \<open>EAI_SERVICE\<close> 201, \<open>EAI_FAIL\<close> 202, \<open>EAI_MEMORY\<close> 203, \<open>EAI_FAMILY\<close> 204.\<close>

definition gai_port :: "mem option \<Rightarrow> (int option) res" where
  "gai_port servname =
     (case servname of
        None \<Rightarrow> Inr (Some 0)
      | Some t \<Rightarrow> and_then (strtol t) (\<lambda>(port_nr, e). Inr (if port_nr \<le> 0 \<or> port_nr > 0xFFFF then None else Some port_nr)))"

text \<open>
  The address: an error code or the value, and \<open>None\<close> when the variable \<open>addr\<close> was not assigned.
\<close>

definition gai_addr :: "hint option \<Rightarrow> mem option \<Rightarrow> (int + u32 option) res" where
  "gai_addr hints nodename =
     (case nodename of
        None \<Rightarrow> Inr (Inr None)
      | Some name \<Rightarrow>
          let family = (case hints of None \<Rightarrow> 0 | Some h \<Rightarrow> ai_family h)
          in if (case hints of None \<Rightarrow> False | Some h \<Rightarrow> ai_flags h AND 4 \<noteq> 0)
             then and_then (netdev_ip4addr_aton name) (\<lambda>r. case r of
                    None \<Rightarrow> Inr (Inl 200)
                  | Some a \<Rightarrow> Inr (if family = 45 \<or> family = 2 then Inl 200 else Inr (Some a)))
             else and_then (has_alpha name) (\<lambda>alpha.
                  let ip_str = bytes ''106.15.83.29'' @ replicate 4 0 in
                  and_then (if alpha then Inr ip_str else strncpy_all ip_str name) (\<lambda>ip_str.
                  and_then (ipstr_to_u32 ip_str) (\<lambda>a. Inr (if a = 0 then Inl 202 else Inr (Some a))))))"

text \<open>
  The result and what \<open>res\<close> points to.  \<open>mem_ok\<close>: the block can be allocated.
\<close>

definition at_getaddrinfo ::
  "bool \<Rightarrow> bool \<Rightarrow> mem option \<Rightarrow> mem option \<Rightarrow> hint option \<Rightarrow> (int \<times> addrinfo option) res" where
  "at_getaddrinfo init mem_ok nodename servname hints =
     (if \<not> init then Inr (202, None)
      else if nodename = None \<and> servname = None then Inr (200, None)
      else if (case hints of None \<Rightarrow> False | Some h \<Rightarrow> ai_family h \<noteq> 45 \<and> ai_family h \<noteq> 2 \<and> ai_family h \<noteq> 0) then Inr (204, None)
      else and_then (gai_port servname) (\<lambda>p. case p of
        None \<Rightarrow> Inr (201, None)
      | Some port_nr \<Rightarrow>
          and_then (gai_addr hints nodename) (\<lambda>q. case q of
            Inl err \<Rightarrow> Inr (err, None)
          | Inr addr \<Rightarrow>
              and_then (case nodename of None \<Rightarrow> Inr 0 | Some n \<Rightarrow> strlen n) (\<lambda>namelen.
              if namelen > DNS_MAX_NAME_LENGTH then Inr (202, None)
              else if \<not> mem_ok then Inr (203, None)
              else case addr of
                None \<Rightarrow> Inl UninitRead
              | Some a \<Rightarrow> Inr (0, Some \<lparr>s_addr = a, s_port = htons port_nr, r_family = 2,
                  r_socktype = (case hints of None \<Rightarrow> 0 | Some h \<Rightarrow> ai_socktype h),
                  r_protocol = (case hints of None \<Rightarrow> 0 | Some h \<Rightarrow> ai_protocol h),
                  canonname = map_option (take namelen) nodename\<rparr>)))))"

section \<open>Lemmas\<close>

lemma fixed_text: "dotted 0x1D530F6A = bytes ''106.15.83.29''"
  by (simp add: dotted_def ip_byte_def dec_digits.simps)

lemma fixed_addr: "ipstr_to_u32 (bytes ''106.15.83.29'' @ replicate 4 0) = Inr 0x1D530F6A"
proof -
  have "replicate 4 0 = 0 # replicate 3 (0 :: u8)" by (simp add: numeral_eq_Suc)
  then show ?thesis using ipstr_to_u32_dotted [of "0x1D530F6A" "replicate 3 0"] by (simp only: fixed_text)
qed

lemma has_alpha_ok: "cstring t \<Longrightarrow> has_alpha t = Inr (list_ex isalpha (str_of t))"
proof -
  assume c: "cstring t"
  then obtain r where r: "t = str_of t @ 0 # r" using cstring_split by blast
  have "take (length (str_of t)) t = str_of t" by (subst (2) r) simp
  then show ?thesis using c by (simp add: has_alpha_def strlen_ok)
qed

lemma str_of_nodename: "0 \<notin> set t \<Longrightarrow> str_of (t @ [0]) = t" "cstring (t @ [0])"
  by (simp_all add: cstring_def)

text \<open>A call without hints for a terminated name.\<close>

lemma getaddrinfo_name:
  assumes "0 \<notin> set t" "length t \<le> DNS_MAX_NAME_LENGTH"
    "and_then (if list_ex isalpha t then Inr (bytes ''106.15.83.29'' @ replicate 4 0)
               else strncpy_all (bytes ''106.15.83.29'' @ replicate 4 0) (t @ [0])) ipstr_to_u32 = Inr a" "a \<noteq> 0"
  shows "at_getaddrinfo True True (Some (t @ [0])) None None =
    Inr (0, Some \<lparr>s_addr = a, s_port = 0, r_family = 2, r_socktype = 0, r_protocol = 0, canonname = Some t\<rparr>)"
proof -
  have h: "has_alpha (t @ [0]) = Inr (list_ex isalpha t)" "strlen (t @ [0]) = Inr (length t)"
    using has_alpha_ok [OF str_of_nodename(2)] strlen_ok [OF str_of_nodename(2)] str_of_nodename(1) [OF assms(1)] by simp_all
  have "gai_addr None (Some (t @ [0])) = Inr (Inr (Some a))"
    using assms(3,4) h(1) by (auto simp: gai_addr_def Let_def simp del: bytes_Cons bytes_append split: if_splits)
  then show ?thesis using assms(2) h(2) by (simp add: at_getaddrinfo_def gai_port_def htons_def)
qed

section \<open>Properties\<close>

text \<open>
  C40: \<open>at_getaddrinfo\<close> answers every host name that contains a letter with the address 106.15.83.29,
  without asking the modem.
\<close>

theorem getaddrinfo_fixed:
  assumes "0 \<notin> set t" "length t \<le> 256" "list_ex isalpha t"
  shows "at_getaddrinfo True True (Some (t @ [0])) None None =
    Inr (0, Some \<lparr>s_addr = 0x1D530F6A, s_port = 0, r_family = 2, r_socktype = 0, r_protocol = 0, canonname = Some t\<rparr>)"
proof -
  have "and_then (if list_ex isalpha t then Inr (bytes ''106.15.83.29'' @ replicate 4 0)
      else strncpy_all (bytes ''106.15.83.29'' @ replicate 4 0) (t @ [0])) ipstr_to_u32 = Inr 0x1D530F6A"
    using assms(3) fixed_addr by simp
  from getaddrinfo_name [OF assms(1) _ this] show ?thesis using assms(2) by (simp add: DNS_MAX_NAME_LENGTH_def)
qed

theorem getaddrinfo_fixed_witness:
  "\<exists>i. at_getaddrinfo True True (Some (bytes ''a.com'' @ [0])) None None = Inr (0, Some i) \<and> ipaddr_to_ipstr (s_addr i) = bytes ''106.15.83.29''"
  using getaddrinfo_fixed [of "bytes ''a.com''"]
  by (simp add: isalpha_def ipstr_dotted fixed_text)

text \<open>
  A numeric address is copied over that text without a terminator, so what it does not cover
  stays behind it: the address 10.0.0.1 is answered with 10.0.0.13.
\<close>

theorem getaddrinfo_numeric:
  "\<exists>i. at_getaddrinfo True True (Some (bytes ''10.0.0.1'' @ [0])) None None = Inr (0, Some i) \<and> ipaddr_to_ipstr (s_addr i) = bytes ''10.0.0.13''"
proof -
  have d: "dotted 0x0D00000A = bytes ''10.0.0.13''" by (simp add: dotted_def ip_byte_def dec_digits.simps)
  have "strncpy_all (bytes ''106.15.83.29'' @ replicate 4 0) (bytes ''10.0.0.1'' @ [0]) = Inr (bytes ''10.0.0.13.29'' @ replicate 4 0)"
    by code_simp
  moreover have "ipstr_to_u32 (bytes ''10.0.0.13.29'' @ replicate 4 0) = Inr 0x0D00000A"
    by code_simp
  ultimately have "and_then (if list_ex isalpha (bytes ''10.0.0.1'') then Inr (bytes ''106.15.83.29'' @ replicate 4 0)
      else strncpy_all (bytes ''106.15.83.29'' @ replicate 4 0) (bytes ''10.0.0.1'' @ [0])) ipstr_to_u32 = Inr 0x0D00000A"
    by (simp add: isalpha_def)
  from getaddrinfo_name [OF _ _ this] d show ?thesis by (simp add: DNS_MAX_NAME_LENGTH_def ipstr_dotted)
qed

text \<open>Without a host name the address that is stored was never assigned.\<close>

theorem getaddrinfo_uninitialised:
  assumes "gai_port (Some s) = Inr (Some p)"
  shows "at_getaddrinfo True True None (Some s) None = Inl UninitRead"
  using assms by (simp add: at_getaddrinfo_def gai_addr_def DNS_MAX_NAME_LENGTH_def)

theorem getaddrinfo_uninitialised_witness: "at_getaddrinfo True True None (Some (bytes ''80'' @ [0])) None = Inl UninitRead"
  by (rule getaddrinfo_uninitialised [where p = 80])
    (simp add: gai_port_def strtol_def is_dig_def isspace_def dval_def)

text \<open>
  When no answer of the modem holds an address, \<open>at_gethostbyname\<close> does not fail: the name
  is resolved to 0.0.0.0.
\<close>

theorem gethostbyname_zero:
  assumes "m_first md" "m_alloc md (ops s)" "\<And>h. 0 \<le> m_exec md h" "\<And>h. m_err md h \<noteq> Some 3" "\<And>h. m_err md h \<noteq> Some 8"
    "\<And>h. m_ip md h = None" "0 \<notin> set t" "list_ex isalpha t"
  shows "fst (run_state (at_gethostbyname md (Some (t @ [0]))) s) = Inr (Some (0, take 256 t))"
proof -
  have "fst (run_state (a9g_domain_resolve md t) s) = Inr (0, None)"
    using assms(1,2) resolve_loop_none [OF assms(3-6), of 5 t "[]"] by (simp add: a9g_domain_resolve_def atm_bind create_run)
  moreover have "ipstr_to_u32 (replicate 16 0) = Inr 0"
    by code_simp
  moreover have "has_alpha (t @ [0]) = Inr True" "strlen (t @ [0]) = Inr (length t)"
    using has_alpha_ok [OF str_of_nodename(2)] strlen_ok [OF str_of_nodename(2)] str_of_nodename(1) [OF assms(7)] assms(8) by simp_all
  ultimately show ?thesis using assms(1) str_of_nodename(1) [OF assms(7)]
    by (simp add: at_gethostbyname_def atm_bind DNS_MAX_NAME_LENGTH_def min_def)
qed

theorem gethostbyname_zero_witness:
  "fst (run_state (at_gethostbyname (good_modem [] None) (Some (bytes ''a.b'' @ [0]))) idle_dev) = Inr (Some (0, bytes ''a.b''))"
  using gethostbyname_zero [of "good_modem [] None" idle_dev "bytes ''a.b''"] by (simp add: good_modem_def isalpha_def)

end
