(* ===== verification/Internet_Check.thy ===== *)
theory Internet_Check
  imports At_Layer_Props At_Resolve
begin

text \<open>
  The check of the internet connection, \<open>check_netdev_internet_up_work\<close> of RT-Thread's \<open>sal_socket.c\<close>.  The
  system work queue runs it a second after the link or the address of the interface comes up.  It opens a
  socket of the AT socket layer, on which the application has its connection.
\<close>

section \<open>Definitions\<close>

definition months :: "mem list" where
  "months = map bytes [''Jan'', ''Feb'', ''Mar'', ''Apr'', ''May'', ''Jun'', ''Jul'', ''Aug'', ''Sep'', ''Oct'', ''Nov'', ''Dec'']"

text \<open>The loop over \<open>month\<close>: the number of the first that matches, or 0.\<close>

fun month_num :: "mem \<Rightarrow> nat \<Rightarrow> mem list \<Rightarrow> nat" where
  "month_num date i [] = 0"
| "month_num date i (m # ms) = (if take 3 date = m then i + 1 else month_num date (i + 1) ms)"

text \<open>What is sent; \<open>hwaddr_len\<close> is at most 8.\<close>

definition internet_packet :: "mem \<Rightarrow> nat \<Rightarrow> mem" where
  "internet_packet hw m = [0] @ map (\<lambda>b. b + of_nat m) hw @ replicate (8 - length hw) 0 @ [4, 0, 2]"

definition SAL_INTERNET_TIMEOUT :: s32 where "SAL_INTERNET_TIMEOUT = 2 * 1000"

text \<open>From the label \<open>__exit\<close> on: the flag of the interface, and the two sockets that are closed.\<close>

definition check_exit :: "lenv \<Rightarrow> modem \<Rightarrow> int \<Rightarrow> int \<Rightarrow> layer \<Rightarrow> (bool \<times> layer) res" where
  "check_exit e md result sockfd l =
     and_then (if sockfd \<ge> 0 then at_closesocket e md sockfd l else Inr (0, l)) (\<lambda>(r, l1).
     and_then (at_closesocket e md 0 l1) (\<lambda>(r', l2). Inr (result > 0, l2)))"

text \<open>
  With the socket: the options, the packet, the answer.  \<open>arr\<close> is what comes in while the check waits, as
  for \<open>at_recvfrom\<close>; without a value it does not return.
\<close>

definition check_exchange :: "lenv \<Rightarrow> modem \<Rightarrow> mem \<Rightarrow> notice list list \<Rightarrow> u32 \<Rightarrow> int \<Rightarrow> layer \<Rightarrow> ((bool \<times> layer) res) option" where
  "check_exchange e md date arr addr sockfd l =
     (let server = (addr, htons 8101);
          (r1, l1) = at_setsockopt sockfd 0xFFF 0x1006 (SAL_INTERNET_TIMEOUT, 0) l;
          (r2, l2) = at_setsockopt sockfd 0xFFF 0x1005 (SAL_INTERNET_TIMEOUT, 0) l1;
          m = month_num date 0 months
      in if m = 0 then Some (check_exit e md (- 1) sockfd l2)
         else let (r3, l3) = at_sendto md sockfd (internet_packet (hwaddr (nd (drv l2))) m) (Some server) l2
              in case at_recvfrom e md sockfd 1 False (Some server) arr l3 of
                   None \<Rightarrow> None
                 | Some (Inl f) \<Rightarrow> Some (Inl f)
                 | Some (Inr (result, d, l4)) \<Rightarrow>
                     Some (check_exit e md (if result < 0 then result else if d = [] \<or> hd d = 0 then - 1 else result) sockfd l4))"

text \<open>
  \<open>pf\<close>: the interface has a protocol family.  The value says whether the interface has internet now; both
  \<open>goto\<close> before \<open>skt_ops\<close> is assigned lead to a call through it.
\<close>

definition check_netdev_internet_up_work ::
  "lenv \<Rightarrow> modem \<Rightarrow> bool \<Rightarrow> mem \<Rightarrow> notice list list \<Rightarrow> layer \<Rightarrow> ((bool \<times> layer) res) option" where
  "check_netdev_internet_up_work e md pf date arr l =
     (if \<not> pf then Some (Inl UninitRead)
      else case drive (at_gethostbyname md (Some (bytes ''link.rt-thread.org'' @ [0]))) l of
        (Inl f, l1) \<Rightarrow> Some (Inl f)
      | (Inr None, l1) \<Rightarrow> Some (Inl UninitRead)
      | (Inr (Some (addr, nm)), l1) \<Rightarrow>
          (case at_socket e 2 2 l1 of
             Inl f \<Rightarrow> Some (Inl f)
           | Inr (sockfd, l2) \<Rightarrow>
               if sockfd < 0 then Some (check_exit e md (- 1) sockfd l2)
               else check_exchange e md date arr addr sockfd l2))"

section \<open>What becomes of the descriptors\<close>

lemma exchange_exit:
  assumes "check_exchange e md date arr addr sockfd l = Some (Inr (up, l'))"
  shows "\<exists>r l1. same_fds l l1 \<and> check_exit e md r sockfd l1 = Inr (up, l')"
proof -
  let ?server = "(addr, htons 8101)" and ?m = "month_num date 0 months"
  obtain r1 l1 where l1: "at_setsockopt sockfd 0xFFF 0x1006 (SAL_INTERNET_TIMEOUT, 0) l = (r1, l1)" by (metis surj_pair)
  obtain r2 l2 where l2: "at_setsockopt sockfd 0xFFF 0x1005 (SAL_INTERNET_TIMEOUT, 0) l1 = (r2, l2)" by (metis surj_pair)
  obtain r3 l3 where l3: "at_sendto md sockfd (internet_packet (hwaddr (nd (drv l2))) ?m) (Some ?server) l2 = (r3, l3)"
    by (metis surj_pair)
  have s2: "same_fds l l2" by (rule same_fds_trans [OF option_fds [OF l1] option_fds [OF l2]])
  show ?thesis
  proof (cases "?m = 0")
    case True
    then have "check_exit e md (- 1) sockfd l2 = Inr (up, l')" using assms l1 l2 by (simp add: check_exchange_def)
    then show ?thesis using s2 by blast
  next
    case False
    then obtain r d l4 where l4: "at_recvfrom e md sockfd 1 False (Some ?server) arr l3 = Some (Inr (r, d, l4))"
      and x: "\<exists>q. check_exit e md q sockfd l4 = Inr (up, l')"
      using assms l1 l2 l3 by (auto simp: check_exchange_def Let_def split: option.splits sum.splits)
    have "same_fds l l4" by (rule same_fds_trans [OF same_fds_trans [OF s2 send_fds [OF l3]] recv_fds [OF l4]])
    then show ?thesis using x by blast
  qed
qed

text \<open>The open descriptors are the positions of the list.\<close>

lemma fd_open: "fd_ok l \<Longrightarrow> at_get_socket j l \<noteq> None \<longleftrightarrow> 0 \<le> j \<and> j < int (length (socket_list l))"
  by (auto simp: at_get_socket_def fd_ok_def)

lemma fd_ok_first: "fd_ok l \<Longrightarrow> socket_list l \<noteq> [] \<Longrightarrow> at_get_socket 0 l \<noteq> None"
  using fd_open [of l 0] by simp

lemma fd_same_length:
  assumes "fd_ok l" "fd_ok l'" "\<And>j. 0 \<le> j \<Longrightarrow> at_get_socket j l' = at_get_socket j l"
  shows "length (socket_list l') = length (socket_list l)"
proof -
  have "int n < int (length (socket_list l')) \<longleftrightarrow> int n < int (length (socket_list l))" for n
    using fd_open [OF assms(1), of "int n"] fd_open [OF assms(2), of "int n"] assms(3) [of "int n"] by simp
  then have "n < length (socket_list l') \<longleftrightarrow> n < length (socket_list l)" for n by simp
  then show ?thesis by (meson linorder_cases less_irrefl)
qed

text \<open>Closing descriptor 0: all others move down by one.\<close>

lemma close_first:
  assumes "fd_ok l" "at_closesocket e md 0 l = Inr (r, l')" "0 \<le> j"
  shows "at_get_socket j l' = at_get_socket (j + 1) l"
proof (cases "at_get_socket 0 l")
  case None
  then have e: "socket_list l = []" using fd_ok_first [OF assms(1)] by blast
  have "same_fds l l'"
    using assms(2) None same_fds_get [OF same_fds_drive, of 0 "emit_op (Delay 100)" l] same_fds_drive [of l "emit_op (Delay 100)"]
    by (auto simp: at_closesocket_def Let_def)
  then show ?thesis using same_fds_get [of l l' j] e by (simp add: at_get_socket_def)
next
  case (Some k)
  then show ?thesis using closesocket_moves(1) [OF assms(1,2) Some assms(3)] assms(3) by simp
qed

lemma close_last:
  assumes "fd_ok l" "at_closesocket e md i l = Inr (r, l')" "i = int (length (socket_list l)) - 1" "0 \<le> i"
  shows "fd_ok l'" "0 \<le> j \<Longrightarrow> at_get_socket j l' = (if j < i then at_get_socket j l else None)"
proof -
  obtain k where k: "at_get_socket i l = Some k" using fd_open [OF assms(1), of i] assms(3,4) by auto
  have "nat i + 1 = length (socket_list l)" using assms(3,4) by arith
  then show "fd_ok l'" using closesocket_moves(2) [OF assms(1,2) k] by simp
  assume j: "0 \<le> j"
  have "at_get_socket (j + 1) l = None" if "\<not> j < i"
    using fd_open [OF assms(1), of "j + 1"] that assms(3) j by auto
  then show "at_get_socket j l' = (if j < i then at_get_socket j l else None)"
    using closesocket_moves(1) [OF assms(1,2) k j] by simp
qed

text \<open>The start of a check that returns.\<close>

lemma check_start:
  assumes "check_netdev_internet_up_work e md pf date arr l = Some (Inr (up, l'))"
  obtains addr la sockfd lb where "same_fds l la" "at_socket e 2 2 la = Inr (sockfd, lb)"
    "if sockfd < 0 then check_exit e md (- 1) sockfd lb = Inr (up, l')
      else check_exchange e md date arr addr sockfd lb = Some (Inr (up, l'))"
proof -
  obtain h la where la: "drive (at_gethostbyname md (Some (bytes ''link.rt-thread.org'' @ [0]))) l = (h, la)" by (metis surj_pair)
  have "same_fds l la" using same_fds_drive la by (metis snd_conv)
  moreover obtain addr nm sockfd lb where "h = Inr (Some (addr, nm))" "at_socket e 2 2 la = Inr (sockfd, lb)"
    using assms la by (auto simp: check_netdev_internet_up_work_def split: if_splits sum.splits option.splits)
  ultimately show thesis using that [of la sockfd lb addr] assms la
    by (auto simp: check_netdev_internet_up_work_def split: if_splits)
qed

lemma check_no_freed:
  assumes "no_freed l" "\<And>n. e_mem e n" "check_netdev_internet_up_work e md pf date arr l = Some (Inr (up, l'))"
  shows "no_freed l'"
proof -
  obtain addr la sockfd lb where b: "same_fds l la" "at_socket e 2 2 la = Inr (sockfd, lb)"
    and x: "if sockfd < 0 then check_exit e md (- 1) sockfd lb = Inr (up, l')
      else check_exchange e md date arr addr sockfd lb = Some (Inr (up, l'))" by (rule check_start [OF assms(3)])
  have lb: "no_freed lb" using socket_no_freed [OF _ assms(2) b(2)] same_no_freed [OF b(1)] assms(1) by simp
  obtain q lc where lc: "same_fds lb lc" "check_exit e md q sockfd lc = Inr (up, l')"
    using x exchange_exit [of e md date arr addr sockfd lb up l'] by (auto split: if_splits)
  have "no_freed lc" using same_no_freed [OF lc(1)] lb by simp
  then show ?thesis using lc(2) by (auto simp: check_exit_def split: if_splits dest: closesocket_no_freed)
qed

text \<open>Up to the last call the descriptors are as they were.\<close>

lemma check_fds:
  assumes "fd_ok l" "\<And>n. e_mem e n" "check_netdev_internet_up_work e md pf date arr l = Some (Inr (up, l'))"
  shows "\<exists>l1 r. fd_ok l1 \<and> (\<forall>j \<ge> 0. at_get_socket j l1 = at_get_socket j l) \<and> at_closesocket e md 0 l1 = Inr (r, l')"
proof -
  let ?n = "int (length (socket_list l))"
  obtain addr la sockfd lb where b: "same_fds l la" "at_socket e 2 2 la = Inr (sockfd, lb)"
    and x: "if sockfd < 0 then check_exit e md (- 1) sockfd lb = Inr (up, l')
      else check_exchange e md date arr addr sockfd lb = Some (Inr (up, l'))" by (rule check_start [OF assms(3)])
  have fa: "fd_ok la" "length (socket_list la) = length (socket_list l)" "at_get_socket j la = at_get_socket j l" for j
    using same_fds_ok [OF b(1) assms(1)] same_fds_get [OF b(1)] b(1) by (auto simp: same_fds_def)
  show ?thesis
  proof (cases "sockfd < 0")
    case True
    have "same_fds la lb"
    proof (cases "nd_up (nd (drv la)) \<and> e_found e")
      case True
      have "sockets lb = sockets la \<and> socket_list lb = socket_list la"
        using socket_mem [OF fa(1) _ _ assms(2), of 2] True \<open>sockfd < 0\<close> b(2) by (auto split: if_splits)
      then show ?thesis by (simp add: same_fds_def)
    next
      case False
      then show ?thesis using b(2) by (auto simp: at_socket_def alloc_socket_def)
    qed
    then have "fd_ok lb" "at_get_socket j lb = at_get_socket j l" for j
      using same_fds_ok fa(1,3) same_fds_get by metis+
    moreover obtain r where "at_closesocket e md 0 lb = Inr (r, l')" using x True by (auto simp: check_exit_def)
    ultimately show ?thesis by blast
  next
    case False
    then obtain k s where k: "k \<notin> set (socket_list la)" "k < AT_DEVICE_A9G_SOCKETS_NUM" "sockfd = ?n"
      "socket_list lb = socket_list la @ [k]" "sockets lb = (sockets la)(k := s)" "magic s = AT_SOCKET_MAGIC" "sock_no s = ?n"
      "recvpkt_list s = []"
      using socket_opens [OF fa(1) b(2)] fa(2) by auto
    have lb: "fd_ok lb" by (rule fd_ok_enter [OF fa(1) k(1,2,4,5,6) _ k(8)]) (simp add: k(7) fa(2))
    obtain q lc where lc: "same_fds lb lc" "check_exit e md q sockfd lc = Inr (up, l')"
      using x False exchange_exit [of e md date arr addr sockfd lb up l'] by auto
    then obtain r ld r' where ld: "at_closesocket e md ?n lc = Inr (r, ld)" "at_closesocket e md 0 ld = Inr (r', l')"
      using k(3) by (auto simp: check_exit_def)
    have c: "fd_ok lc" "?n = int (length (socket_list lc)) - 1" "at_get_socket j lc = at_get_socket j lb" for j
      using same_fds_ok [OF lc(1) lb] same_fds_get [OF lc(1)] lc(1) k(4) fa(2) by (auto simp: same_fds_def)
    have "fd_ok ld" using close_last(1) [OF c(1) ld(1) c(2)] by simp
    moreover have "at_get_socket j ld = at_get_socket j l" if "0 \<le> j" for j
    proof (cases "j < ?n")
      case True
      then have "at_get_socket j ld = at_get_socket j lb" using close_last(2) [OF c(1) ld(1) c(2) _ that] c(3) by simp
      also have "\<dots> = at_get_socket j la"
        using True that fa(2) k(1,4,5) by (auto simp: at_get_socket_def nth_append)
      finally show ?thesis using fa(3) by simp
    next
      case False
      then have "at_get_socket j ld = None" using close_last(2) [OF c(1) ld(1) c(2) _ that] by simp
      moreover have "at_get_socket j l = None" using fd_open [OF assms(1), of j] False by auto
      ultimately show ?thesis by simp
    qed
    ultimately show ?thesis using ld(2) by blast
  qed
qed

section \<open>Properties\<close>

text \<open>C22: The check of the internet connection closes the application's connection.  Where descriptors are the positions
  of the list and there is memory, whatever the modem answers and whatever comes in meanwhile, when the
  check has returned descriptor 0 is what descriptor 1 was, and so on: its own socket is closed, and so is
  the first socket of the application.\<close>

theorem check_closes_first:
  assumes "fd_ok l" "\<And>n. e_mem e n" "check_netdev_internet_up_work e md pf date arr l = Some (Inr (up, l'))" "0 \<le> j"
  shows "at_get_socket j l' = at_get_socket (j + 1) l"
proof -
  obtain l1 r where l1: "fd_ok l1" "\<forall>j \<ge> 0. at_get_socket j l1 = at_get_socket j l" "at_closesocket e md 0 l1 = Inr (r, l')"
    using check_fds [OF assms(1-3)] by blast
  show ?thesis using close_first [OF l1(1,3) assms(4)] l1(2) assms(4) by simp
qed

text \<open>A check that finds no device: its socket call fails, and the connection is closed all the same.\<close>

lemma check_host_resolved:
  "fst (drive (at_gethostbyname (good_modem [] None) (Some (bytes ''link.rt-thread.org'' @ [0]))) l)
   = Inr (Some (0, bytes ''link.rt-thread.org''))"
  using gethostbyname_zero [of "good_modem [] None" "drv l" "bytes ''link.rt-thread.org''"]
  by (simp add: drive_run good_modem_def isalpha_def)

theorem check_closes_first_witness:
  "\<exists>up l'. check_netdev_internet_up_work (open_env\<lparr>e_found := False\<rparr>) (good_modem [] None) True [] [] (conn_layer []) = Some (Inr (up, l')) \<and>
     at_get_socket 0 (conn_layer []) = Some 0 \<and> at_get_socket 0 l' = None"
proof -
  let ?e = "open_env\<lparr>e_found := False\<rparr>" and ?md = "good_modem [] None"
  obtain h l1 where l1: "drive (at_gethostbyname ?md (Some (bytes ''link.rt-thread.org'' @ [0]))) (conn_layer []) = (h, l1)" by (metis surj_pair)
  have h: "h = Inr (Some (0, bytes ''link.rt-thread.org''))" using check_host_resolved [of "conn_layer []"] l1 by simp
  have "at_socket ?e 2 2 l1 = Inr (- 1, l1)" by (simp add: at_socket_def alloc_socket_def)
  moreover have "no_freed (conn_layer [])" by (simp add: no_freed_def conn_layer_def layer0_def sock0_def)
  then have "no_freed l1" using same_no_freed [OF same_fds_drive] l1 by (metis snd_conv)
  then obtain r l' where "at_closesocket ?e ?md 0 l1 = Inr (r, l')"
    using closesocket_outcome [where l = l1 and i = 0 and e = ?e and md = ?md] by (auto simp: open_env_def split: option.splits)
  ultimately have c: "check_netdev_internet_up_work ?e ?md True [] [] (conn_layer []) = Some (Inr (False, l'))"
    using l1 h by (simp add: check_netdev_internet_up_work_def check_exit_def del: bytes_Cons bytes_append)
  have "at_get_socket 0 l' = at_get_socket (0 + 1) (conn_layer [])"
    by (rule check_closes_first [OF conn_layer_ok(1) _ c]) (simp_all add: open_env_def)
  moreover have "at_get_socket 1 (conn_layer []) = None" by (simp add: at_get_socket_def conn_layer_def)
  ultimately have "at_get_socket 0 l' = None" by simp
  then show ?thesis using c conn_layer_ok(3) [of "[]"] by auto
qed

text \<open>Without a name server the check calls through a variable that was not assigned.  When the host of the check
  cannot be resolved, which is so while there is no internet connection, or the interface has no protocol
  family, \<open>check_netdev_internet_up_work\<close> calls \<open>closesocket\<close> of an unassigned table of operations.\<close>

theorem check_unresolved_faults:
  assumes "\<not> pf \<or> fst (drive (at_gethostbyname md (Some (bytes ''link.rt-thread.org'' @ [0]))) l) = Inr None"
  shows "check_netdev_internet_up_work e md pf date arr l = Some (Inl UninitRead)"
  using assms
  by (cases "drive (at_gethostbyname md (Some (bytes ''link.rt-thread.org'' @ [0]))) l")
    (auto simp: check_netdev_internet_up_work_def simp del: bytes_Cons bytes_append)

lemma check_unresolved_faults_witness:
  "check_netdev_internet_up_work open_env ((good_modem [] None)\<lparr>m_first := False\<rparr>) True [] [] (conn_layer []) = Some (Inl UninitRead)"
  by (rule check_unresolved_faults) (simp add: drive_def at_gethostbyname_def Let_def)

end
