(* ===== verification/Link_Stack.thy ===== *)
theory Link_Stack
  imports Server_Link Internet_Check
begin

text \<open>
  The whole way from the shell command to the modem: \<open>client_server.c\<close> on the AT socket layer on the
  driver of the modem.  The parameter of \<open>Server_Link\<close> is given the operations of \<open>At_Layer\<close>.
\<close>

section \<open>Definitions\<close>

definition at_net :: "lenv \<Rightarrow> modem \<Rightarrow> layer net" where
  "at_net e md = \<lparr>n_socket = (\<lambda>d t p. at_socket e (uint d) (uint t)), n_connect = (\<lambda>i a l. Inr (at_connect md i a l)),
     n_close = at_closesocket e md, n_send = (\<lambda>i b l. Inr (at_send md i b l)), n_recv = (\<lambda>i n l. at_recv e md i n True [] l)\<rparr>"

text \<open>
  The threads around a connection: a command of the shell, a turn of the receive thread, a turn of
  the parser thread, a check of the internet connection on the system work queue, and whatever the
  modem's own threads do to the device, its interface included.
\<close>

inductive link_step :: "lenv \<Rightarrow> modem \<Rightarrow> layer client \<Rightarrow> layer client \<Rightarrow> bool" for e md where
  link_cmd: "a9g (at_net e md) argv c = Inr c' \<Longrightarrow> link_step e md c c'"
| link_recv: "receive_turn (at_net e md) (buf, c) = Some (Inr (buf', c')) \<Longrightarrow> link_step e md c c'"
| link_parse: "layer_parser_turn bufsz found mem_ok e (world c, rx) = Some (Inr (l, rx')) \<Longrightarrow> link_step e md c (c\<lparr>world := l\<rparr>)"
| link_check: "check_netdev_internet_up_work e md pf date arr (world c) = Some (Inr (up, l)) \<Longrightarrow> link_step e md c (c\<lparr>world := l\<rparr>)"
| link_dev: "link_step e md c (c\<lparr>world := (world c)\<lparr>drv := d\<rparr>\<rparr>)"

text \<open>At most one socket is open, \<open>g_socket_id\<close> is its descriptor, and no semaphore is used after it was deleted.\<close>

definition link_inv :: "layer client \<Rightarrow> bool" where
  "link_inv c \<longleftrightarrow> fd_ok (world c) \<and> no_freed (world c) \<and> length (socket_list (world c)) \<le> 1 \<and> (socket_list (world c) \<noteq> [] \<longrightarrow> g_socket_id c = 0)"

text \<open>The commands that start a connection in a trace, in order.\<close>

fun started :: "at_op list \<Rightarrow> mem list" where
  "started [] = []"
| "started (Exec False c # es) = c # started es"
| "started (e # es) = started es"

section \<open>The descriptor of the client\<close>

lemma fd_ok_layer0: "fd_ok (layer0 d)"
  by (simp add: fd_ok_def layer0_wf) (simp add: layer0_def sock0_def)

lemma layer_parser_same:
  assumes "layer_parser_turn bufsz found mem_ok e (l, rx) = Some (Inr (l', rx'))"
  shows "same_fds l l'"
proof -
  obtain d where "deliver_all e (drop (length (notices (drv l))) (notices d)) (l\<lparr>drv := d\<rparr>) = Inr l'"
    using assms by (auto simp: layer_parser_turn_def split: option.splits)
  from deliver_all_same [OF this] show ?thesis by (simp add: same_fds_def)
qed

lemma close_only:
  assumes "fd_ok l" "length (socket_list l) \<le> 1" "at_closesocket e md i l = Inr (r, l')" "socket_list l \<noteq> [] \<longrightarrow> i = 0"
  shows "fd_ok l' \<and> socket_list l' = []"
proof (cases "at_get_socket i l")
  case None
  have "socket_list l = []" using fd_ok_first [OF assms(1)] None assms(4) by metis
  moreover have "same_fds l l'"
    using assms(3) None same_fds_drive [of l "emit_op (Delay 100)"] same_fds_get [OF same_fds_drive, of i "emit_op (Delay 100)" l]
    by (auto simp: at_closesocket_def Let_def)
  ultimately show ?thesis using same_fds_ok [OF _ assms(1)] by (simp add: same_fds_def)
next
  case (Some k)
  then have i: "i = 0" "length (socket_list l) = 1" using assms(2,4) fd_ok_get [OF assms(1) Some] by auto
  then have "fd_ok l'" using closesocket_moves(2) [OF assms(1,3) Some] by simp
  moreover have "at_get_socket 0 l' = None"
    using closesocket_moves(1) [OF assms(1,3) Some, of 0] i by (simp add: at_get_socket_def)
  ultimately show ?thesis using fd_ok_first by blast
qed

lemma create_only:
  assumes "fd_ok l" "socket_list l = []" "\<And>n. e_mem e n"
  shows "\<exists>r l'. at_socket e 2 1 l = Inr (r, l') \<and> fd_ok l' \<and> length (socket_list l') \<le> 1 \<and> (socket_list l' \<noteq> [] \<longrightarrow> r = 0) \<and>
    (nd_up (nd (drv l)) \<and> e_found e \<longrightarrow> r = 0)"
proof (cases "nd_up (nd (drv l)) \<and> e_found e")
  case True
  obtain r l' where r: "at_socket e 2 1 l = Inr (r, l')" "r = 0"
    using socket_mem [OF assms(1) _ _ assms(3), of 1] True assms(2) by (auto simp: AT_DEVICE_A9G_SOCKETS_NUM_def)
  then obtain k s where k: "k < AT_DEVICE_A9G_SOCKETS_NUM" "k \<notin> set (socket_list l)" "socket_list l' = socket_list l @ [k]"
      "sockets l' = (sockets l)(k := s)" "magic s = AT_SOCKET_MAGIC" "sock_no s = r" "recvpkt_list s = []"
    using socket_opens [OF assms(1), of e 2 1 r l'] by auto
  have "fd_ok l'" by (rule fd_ok_enter [OF assms(1) k(2,1,3,4,5) _ k(7)]) (simp add: k(6) r(2) assms(2))
  then show ?thesis using r k(3) assms(2) by simp
next
  case False
  then show ?thesis using assms(1,2) by (auto simp: at_socket_def alloc_socket_def)
qed

lemma at_net_sel [simp]:
  "n_socket (at_net e md) d t p l = at_socket e (uint d) (uint t) l" "n_connect (at_net e md) i a l = Inr (at_connect md i a l)"
  "n_close (at_net e md) i l = at_closesocket e md i l" "n_send (at_net e md) i b l = Inr (at_send md i b l)"
  "n_recv (at_net e md) i n l = at_recv e md i n True [] l"
  by (simp_all add: at_net_def)

lemma inv_same:
  assumes "link_inv c" "same_fds (world c) (world c')" "g_socket_id c' = g_socket_id c"
  shows "link_inv c'"
proof -
  have "fd_ok (world c')" using same_fds_ok [OF assms(2)] assms(1) unfolding link_inv_def by blast
  moreover have "socket_list (world c') = socket_list (world c)" using assms(2) unfolding same_fds_def by blast
  ultimately show ?thesis using assms(1,3) same_no_freed [OF assms(2)] unfolding link_inv_def by simp
qed

lemma inv_empty: "fd_ok (world c) \<Longrightarrow> no_freed (world c) \<Longrightarrow> socket_list (world c) = [] \<Longrightarrow> link_inv c"
  by (simp add: link_inv_def)

lemma inv_close:
  assumes "link_inv c" "socket_close (at_net e md) (g_socket_id c) c = Inr (x, c')"
  shows "fd_ok (world c') \<and> no_freed (world c') \<and> socket_list (world c') = []"
proof -
  obtain r l where "at_closesocket e md (g_socket_id c) (world c) = Inr (r, l)" "world c' = l"
    using assms(2) by (auto simp: socket_close_def)
  then show ?thesis using close_only closesocket_no_freed assms(1) unfolding link_inv_def by blast
qed

lemma inv_connect:
  assumes "link_inv c" "\<And>n. e_mem e n" "connect_aliot_http_device (at_net e md) c = Inr c'"
  shows "link_inv c'"
proof -
  obtain c1 i c2 where c1: "if 0 \<le> g_socket_id c then \<exists>x. socket_close (at_net e md) (g_socket_id c) c = Inr (x, c1) else c1 = c"
    and c2: "socket_create (at_net e md) c1 = Inr (i, c2)"
    and c': "if 0 \<le> i then \<exists>x c4. socket_connect (at_net e md) i (bytes ''47.100.28.6'' @ [0]) 8086 (c2\<lparr>g_socket_id := i\<rparr>) = Inr (x, c4) \<and>
       c' = (if x = 0 then call (ThreadDelay 500) c4 else c4) else c' = c2\<lparr>g_socket_id := i\<rparr>"
    by (rule connect_device_cases [OF assms(3)])
  have 1: "fd_ok (world c1)" "socket_list (world c1) = []" "no_freed (world c1)"
  proof -
    have "fd_ok (world c1) \<and> no_freed (world c1) \<and> socket_list (world c1) = []"
    proof (cases "0 \<le> g_socket_id c")
      case True
      then obtain x where "socket_close (at_net e md) (g_socket_id c) c = Inr (x, c1)" using c1 by auto
      then show ?thesis by (rule inv_close [OF assms(1)])
    qed (use c1 assms(1) in \<open>auto simp: link_inv_def\<close>)
    then show "fd_ok (world c1)" "socket_list (world c1) = []" "no_freed (world c1)" by blast+
  qed
  obtain r l' where r: "at_socket e 2 1 (world c1) = Inr (r, l')" "fd_ok l'" "length (socket_list l') \<le> 1" "socket_list l' \<noteq> [] \<longrightarrow> r = 0"
    using create_only [OF 1(1,2) assms(2)] by blast
  have "no_freed l'" by (rule socket_no_freed [OF 1(3) assms(2) r(1)])
  have "i = r" "world c2 = l'" using c2 r(1) by (auto simp: socket_create_def)
  then have 2: "link_inv (c2\<lparr>g_socket_id := i\<rparr>)" using r(2-4) \<open>no_freed l'\<close> by (simp add: link_inv_def)
  show ?thesis
  proof (cases "0 \<le> i")
    case True
    with c' obtain x c4 where c4: "socket_connect (at_net e md) i (bytes ''47.100.28.6'' @ [0]) 8086 (c2\<lparr>g_socket_id := i\<rparr>) = Inr (x, c4)"
        "c' = (if x = 0 then call (ThreadDelay 500) c4 else c4)" by (auto simp del: bytes_Cons bytes_append)
    obtain a y where "at_connect md i a (world c2) = (y, world c4)" "g_socket_id c4 = i"
      using c4(1) by (auto simp: socket_connect_def simp del: bytes_Cons bytes_append)
    then have "link_inv c4" using inv_same [OF 2, of c4] connect_fds by simp
    then show ?thesis by (simp add: c4(2) link_inv_def)
  next
    case False
    then show ?thesis using c' 2 by simp
  qed
qed

lemma inv_a9g:
  assumes "link_inv c" "\<And>n. e_mem e n" "a9g (at_net e md) argv c = Inr c'"
  shows "link_inv c'"
proof -
  have "link_inv c'" if d: "disconnect_aliot_http_device (at_net e md) c = Inr c'"
  proof -
    obtain x c1 where c1: "socket_close (at_net e md) (g_socket_id c) c = Inr (x, c1)" "c' = (if x = 0 then call (ThreadDelay 500) c1 else c1)"
      using disconnect_cases [OF d] by blast
    then show ?thesis using inv_close [OF assms(1) c1(1)] by (intro inv_empty) simp_all
  qed
  moreover have "link_inv c'" if d: "socket_send (at_net e md) (g_socket_id c) b c = Inr (r, c')" for b r
  proof -
    obtain l where "at_send md (g_socket_id c) b (world c) = (r, l)" "world c' = l" "g_socket_id c' = g_socket_id c"
      using d unfolding socket_send_def ask_net_Inr by auto
    then show ?thesis using inv_same [OF assms(1)] send_fds unfolding at_send_def by blast
  qed
  ultimately show ?thesis using a9g_cases [OF assms(3)] assms(1) inv_connect [OF assms(1,2)] by blast
qed

lemma inv_recv:
  assumes "link_inv c" "receive_turn (at_net e md) (buf, c) = Some (Inr (buf', c'))"
  shows "link_inv c'"
proof -
  obtain r d l where l: "at_recv e md (g_socket_id c) 384 True [] (world c) = Some (Inr (r, d, l))" "world c' = l" "g_socket_id c' = g_socket_id c"
    using assms(2) by (auto simp: receive_turn_def socket_receive_def Let_def split: if_splits)
  then show ?thesis using inv_same [OF assms(1)] recv_fds unfolding at_recv_def by blast
qed

lemma inv_check:
  assumes "link_inv c" "\<And>n. e_mem e n" "check_netdev_internet_up_work e md pf date arr (world c) = Some (Inr (up, l))"
  shows "link_inv (c\<lparr>world := l\<rparr>)"
proof -
  have ok: "fd_ok (world c)" "length (socket_list (world c)) \<le> 1" using assms(1) by (simp_all add: link_inv_def)
  obtain l1 r where l1: "fd_ok l1" "\<forall>j \<ge> 0. at_get_socket j l1 = at_get_socket j (world c)" "at_closesocket e md 0 l1 = Inr (r, l)"
    using check_fds [OF ok(1) assms(2,3)] by blast
  then have "length (socket_list l1) \<le> 1" using fd_same_length [OF ok(1) l1(1)] ok(2) by simp
  then have "fd_ok l \<and> socket_list l = []" using close_only [OF l1(1) _ l1(3)] by simp
  moreover have "no_freed l" using check_no_freed [OF _ assms(2,3)] assms(1) by (simp add: link_inv_def)
  ultimately show ?thesis by (intro inv_empty) simp_all
qed

lemma link_step_inv: "link_step e md c c' \<Longrightarrow> (\<And>n. e_mem e n) \<Longrightarrow> link_inv c \<Longrightarrow> link_inv c'"
proof (induction rule: link_step.induct)
  case (link_parse bufsz found mem_ok c rx l rx')
  then show ?case using inv_same [OF link_parse(3), of "c\<lparr>world := l\<rparr>"] layer_parser_same [OF link_parse(1)] by simp
next
  case (link_dev c d)
  then show ?case using inv_same [OF link_dev(2), of "c\<lparr>world := (world c)\<lparr>drv := d\<rparr>\<rparr>"] by (simp add: same_fds_def)
qed (auto intro: inv_a9g inv_recv inv_check)

lemma link_reach_inv:
  assumes "(link_step e md)\<^sup>*\<^sup>* (client0 (layer0 d)) c" "\<And>n. e_mem e n"
  shows "link_inv c"
  using assms(1)
proof (induction rule: rtranclp_induct)
  case base
  show ?case by (rule inv_empty) (simp_all add: client0_def fd_ok_layer0 layer0_no_freed, simp add: layer0_def)
next
  case (step c c')
  then show ?case using link_step_inv assms(2) by blast
qed

section \<open>What reaches the modem\<close>

lemma started_append: "started (a @ b) = started a @ started b"
  by (induction a rule: started.induct) auto

lemma length_started: "length (started es) = starts es"
  by (induction es rule: started.induct) auto

text \<open>A computation that starts connections only with the command \<open>cmd\<close>, and one that does so at least once.\<close>

definition only_starts :: "mem \<Rightarrow> 'a atm \<Rightarrow> bool" where
  "only_starts cmd m \<longleftrightarrow> emits (\<lambda>es. set (started es) \<subseteq> {cmd}) m"

lemma only_bind: "only_starts c m \<Longrightarrow> (\<And>x. only_starts c (f x)) \<Longrightarrow> only_starts c (State_Monad.bind m f)"
  unfolding only_starts_def by (erule emits_bind) (auto simp: started_append)

lemma only_return [simp, intro]: "only_starts c (State_Monad.return x)"
  by (simp add: only_starts_def emits_def)

lemma only_emit: "started [x] = [] \<Longrightarrow> only_starts c (emit_op x)"
  by (simp add: only_starts_def emits_def emit_op_def)

lemma only_recv: "only_starts c (a9g_socket_event_recv md w t)"
  by (simp add: only_starts_def emits_def recv_run Let_def case_prod_unfold)

lemma only_exec: "b \<or> c = cmd \<Longrightarrow> only_starts c (at_obj_exec_cmd md b cmd)"
  by (cases b) (auto simp: only_starts_def emits_def exec_run Let_def)

lemma only_create: "only_starts c (at_create_resp md b l t)"
  by (simp add: only_starts_def emits_def create_run)

lemma only_close: "only_starts c (a9g_socket_close md i)"
  unfolding a9g_socket_close_def by (intro only_bind) (auto intro!: only_bind only_create only_exec only_emit)

lemma only_connect_cmd: "only_starts (cipstart ''TCP'' ip port) (connect_cmd md ip port AT_SOCKET_TCP b)"
  unfolding connect_cmd_def by (auto intro!: only_bind only_exec)

lemma only_connect_try: "only_starts (cipstart ''TCP'' ip port) (connect_try md n i ip port AT_SOCKET_TCP b)"
proof (induction n)
  case 0
  show ?case by (subst connect_try.simps) (auto intro!: only_bind only_recv only_connect_cmd)
next
  case (Suc n)
  show ?case by (subst connect_try.simps) (auto intro!: only_bind only_recv only_connect_cmd only_close Suc.IH)
qed

lemma only_connect: "only_starts (cipstart ''TCP'' ip port) (a9g_socket_connect md i ip port AT_SOCKET_TCP b)"
  unfolding a9g_socket_connect_def by (auto intro!: only_bind only_create only_connect_try only_emit)

text \<open>The first attempt always sends the command.\<close>

lemma emits_mono: "emits P m \<Longrightarrow> (\<And>es. P es \<Longrightarrow> Q es) \<Longrightarrow> emits Q m"
  unfolding emits_def by meson

lemma emits_any: "only_starts c m \<Longrightarrow> emits (\<lambda>es. True) m"
  unfolding only_starts_def by (erule emits_mono) simp

lemma emits_first: "emits P m \<Longrightarrow> (\<And>x. emits (\<lambda>es. True) (f x)) \<Longrightarrow> (\<And>a b. P a \<Longrightarrow> P (a @ b)) \<Longrightarrow> emits P (State_Monad.bind m f)"
  by (rule emits_bind [where P = P and Q = "\<lambda>es. True"])

lemma emits_later: "emits (\<lambda>es. True) m \<Longrightarrow> (\<And>x. emits P (f x)) \<Longrightarrow> (\<And>a b. P b \<Longrightarrow> P (a @ b)) \<Longrightarrow> emits P (State_Monad.bind m f)"
  by (rule emits_bind [where P = "\<lambda>es. True" and Q = P])

lemma connect_cmd_started: "emits (\<lambda>es. started es \<noteq> []) (connect_cmd md ip port AT_SOCKET_TCP True)"
  by (simp add: connect_cmd_def emits_def atm_bind exec_run Let_def)

lemma connect_try_started: "emits (\<lambda>es. started es \<noteq> []) (connect_try md n i ip port AT_SOCKET_TCP True)"
proof (subst connect_try.simps, rule emits_later, rule emits_any [OF only_recv], rule emits_first, rule connect_cmd_started)
  show "emits (\<lambda>es. True) (if r < 0 then State_Monad.return (- 1)
     else do {
       e1 \<leftarrow> a9g_socket_event_recv md (SET_EVENT i 0) 10000;
       if e1 < 0 then State_Monad.return (- 2)
       else do {
         e2 \<leftarrow> a9g_socket_event_recv md (A9G_EVENT_CONN_OK OR A9G_EVENT_CONN_FAIL) 1000;
         if e2 < 0 then State_Monad.return (- 2)
         else if (word_of_int e2 :: u32) AND A9G_EVENT_CONN_FAIL \<noteq> 0
         then (case n of
             0 \<Rightarrow> State_Monad.return (- 1)
           | Suc n' \<Rightarrow> do {
               c \<leftarrow> a9g_socket_close md i;
               if c < 0 then State_Monad.return (- 1)
               else connect_try md n' i ip port AT_SOCKET_TCP True
             })
         else State_Monad.return 0
       }
     })" for r
    by (rule emits_any [where c = "cipstart ''TCP'' ip port"])
      (auto intro!: only_bind only_recv only_close only_connect_try split: nat.splits)
qed (auto simp: started_append)

lemma connect_started:
  assumes "\<And>h. m_alloc md h"
  shows "emits (\<lambda>es. started es \<noteq> []) (a9g_socket_connect md i ip port AT_SOCKET_TCP True)"
proof -
  have "\<exists>es. ops (snd (run_state (a9g_socket_connect md i ip port AT_SOCKET_TCP True) s)) = ops s @ es \<and> started es \<noteq> []" for s
  proof -
    obtain u where u: "ops u = ops s @ [NewResp 128 0 5000 True]" "run_state (a9g_socket_connect md i ip port AT_SOCKET_TCP True) s =
        (let (r, t) = run_state (connect_try md 1 i ip port AT_SOCKET_TCP True) u in (r, t\<lparr>ops := ops t @ [DelResp]\<rparr>))"
      using connect_run [OF assms] by blast
    obtain es where "ops (snd (run_state (connect_try md 1 i ip port AT_SOCKET_TCP True) u)) = ops u @ es" "started es \<noteq> []"
      using connect_try_started unfolding emits_def by blast
    then show ?thesis unfolding u(2) using u(1)
      by (intro exI [of _ "[NewResp 128 0 5000 True] @ es @ [DelResp]"]) (simp add: Let_def case_prod_unfold started_append)
  qed
  then show ?thesis by (simp add: emits_def)
qed

text \<open>What a connect call of the layer sends for a TCP socket.\<close>

lemma connect_sends:
  assumes "\<And>h. m_alloc md h"
  shows "\<exists>es. ops (snd (run_state (a9g_socket_connect md i ip port AT_SOCKET_TCP True) s)) = ops s @ es \<and>
    (started es = [cipstart ''TCP'' ip port] \<or> started es = [cipstart ''TCP'' ip port, cipstart ''TCP'' ip port])"
proof -
  let ?c = "cipstart ''TCP'' ip port" and ?o = "ops (snd (run_state (a9g_socket_connect md i ip port AT_SOCKET_TCP True) s))"
  obtain es where es: "?o = ops s @ es" "starts es \<le> 2" using connect_starts by blast
  obtain fs where fs: "?o = ops s @ fs" "set (started fs) \<subseteq> {?c}" using only_connect unfolding only_starts_def emits_def by blast
  obtain gs where gs: "?o = ops s @ gs" "started gs \<noteq> []" using connect_started [OF assms] unfolding emits_def by blast
  have e: "fs = es" "gs = es" using es fs gs by auto
  have "length (started es) \<le> 2" using es(2) by (simp add: length_started)
  then show ?thesis using es(1) fs(2) gs(2) unfolding e
    by (cases "started es" rule: remdups_adj.cases) auto
qed

text \<open>A close call that returns starts no connection and leaves the interface as it was.\<close>

lemma a9g_close_run:
  "nd (snd (run_state (a9g_socket_close md i) s)) = nd s"
  "\<exists>es. ops (snd (run_state (a9g_socket_close md i) s)) = ops s @ es \<and> started es = []"
  by (simp_all add: a9g_socket_close_def at_runs)

lemma close_sock_drv:
  assumes "close_sock e md k l = Inr (r, l')"
  shows "nd (drv l') = nd (drv l) \<and> (\<exists>es. ops (drv l') = ops (drv l) @ es \<and> started es = [])"
proof -
  let ?l1 = "upd k (\<lambda>s. s\<lparr>sock_state := AT_SOCKET_CLOSED\<rparr>) l"
  obtain q l2 where l2: "(if sock_state (sock_of l k) \<noteq> AT_SOCKET_CLOSED then drive (a9g_socket_close md (int k)) ?l1 else (0, ?l1)) = (q, l2)"
    by (metis surj_pair)
  have "nd (drv l2) = nd (drv l) \<and> (\<exists>es. ops (drv l2) = ops (drv l) @ es \<and> started es = [])"
  proof (cases "sock_state (sock_of l k) \<noteq> AT_SOCKET_CLOSED")
    case True
    then have "drv l2 = snd (run_state (a9g_socket_close md (int k)) (drv l))"
      using l2 drive_run(2) [of "a9g_socket_close md (int k)" ?l1] by simp
    then show ?thesis using a9g_close_run [of md "int k" "drv l"] by simp
  qed (use l2 in auto)
  moreover have "drv l' = drv l2" using assms l2 by (auto simp: close_sock_def free_socket_def split: if_splits)
  ultimately show ?thesis by simp
qed

lemma closesocket_drv:
  assumes "at_closesocket e md i l = Inr (r, l')"
  shows "nd (drv l') = nd (drv l) \<and> (\<exists>es. ops (drv l') = ops (drv l) @ es \<and> started es = [])"
proof -
  let ?l1 = "snd (drive (emit_op (Delay 100)) l)"
  have 1: "drv ?l1 = (drv l)\<lparr>ops := ops (drv l) @ [Delay 100]\<rparr>" by (simp add: drive_run emit_run)
  show ?thesis
  proof (cases "at_get_socket i ?l1")
    case None
    then show ?thesis using 1 assms by (simp add: at_closesocket_def Let_def)
  next
    case (Some k)
    then have c: "close_sock e md k ?l1 = Inr (r, l')" using assms by (simp add: at_closesocket_def Let_def)
    obtain es where "nd (drv l') = nd (drv ?l1)" "ops (drv l') = ops (drv ?l1) @ es" "started es = []"
      using close_sock_drv [OF c] by blast
    then show ?thesis using 1 by (intro conjI exI [of _ "Delay 100 # es"]) simp_all
  qed
qed

lemma connect_ops:
  assumes "at_get_socket i l = Some k" "sock_state (sock_of l k) = AT_SOCKET_OPEN"
  shows "ops (drv (snd (at_connect md i name l))) = ops (snd (run_state
    (a9g_socket_connect md (int k) (ipaddr_to_ipstr (fst name)) (unat (HTONS_PORT (snd name))) (sock_type (sock_of l k)) True) (drv l)))"
  using assms
  by (simp add: at_connect_def sock_connect_def socketaddr_to_ipaddr_port_def a9g_socket_set_event_cb_def drive_run Let_def case_prod_unfold)

lemma server_port: "unat (HTONS_PORT (htons 8086)) = 8086"
  by (simp add: HTONS_PORT_def htons_def)

lemma server_text: "ipaddr_to_ipstr 0x061C642F = bytes ''47.100.28.6''"
  unfolding ipstr_dotted by (simp add: dotted_def ip_byte_def dec_digits.simps)

text \<open>Connecting from a layer without open sockets.\<close>

lemma fresh_connect:
  assumes "fd_ok l" "socket_list l = []" "nd_up (nd (drv l))" "e_found e" "\<And>n. e_mem e n" "\<And>h. m_alloc md h"
  shows "\<exists>l1 l2 r. at_socket e 2 1 l = Inr (0, l1) \<and> at_connect md 0 (0x061C642F, htons 8086) l1 = (r, l2) \<and>
    (\<exists>es. ops (drv l2) = ops (drv l) @ es \<and> (let cmd = cipstart ''TCP'' (bytes ''47.100.28.6'') 8086 in started es = [cmd] \<or> started es = [cmd, cmd]))"
proof -
  obtain r l1 where r: "at_socket e 2 1 l = Inr (r, l1)" "r = 0"
    using socket_mem [OF assms(1,3,4,5), of 1] assms(2) by (auto simp: AT_DEVICE_A9G_SOCKETS_NUM_def)
  obtain k s where k: "k \<notin> set (socket_list l)" "socket_list l1 = socket_list l @ [k]" "sockets l1 = (sockets l)(k := s)" "drv l1 = drv l"
      "magic s = AT_SOCKET_MAGIC" "sock_state s = AT_SOCKET_OPEN" "sock_type s = AT_SOCKET_TCP"
    using socket_opens [OF assms(1) r(1)] r(2) by auto
  have g: "at_get_socket 0 l1 = Some k" using get_enter [OF assms(1) k(1,2,3,5)] assms(2) by simp
  obtain es where "ops (snd (run_state (a9g_socket_connect md (int k) (bytes ''47.100.28.6'') 8086 AT_SOCKET_TCP True) (drv l))) = ops (drv l) @ es"
      "started es = [cipstart ''TCP'' (bytes ''47.100.28.6'') 8086] \<or>
       started es = [cipstart ''TCP'' (bytes ''47.100.28.6'') 8086, cipstart ''TCP'' (bytes ''47.100.28.6'') 8086]"
    using connect_sends [OF assms(6)] by blast
  then have "\<exists>es. ops (drv (snd (at_connect md 0 (0x061C642F, htons 8086) l1))) = ops (drv l) @ es \<and>
      (let cmd = cipstart ''TCP'' (bytes ''47.100.28.6'') 8086 in started es = [cmd] \<or> started es = [cmd, cmd])"
    using connect_ops [OF g, of md "(0x061C642F, htons 8086)"] k(3,4,6,7) unfolding fst_conv snd_conv server_port server_text
    by (simp add: Let_def del: bytes_Cons bytes_append)
  then show ?thesis using r by (metis prod.collapse)
qed

lemma connect_forward:
  assumes "if 0 \<le> g_socket_id c then \<exists>x. at_closesocket e md (g_socket_id c) (world c) = Inr (x, l) else l = world c"
    "at_socket e 2 1 l = Inr (0, l1)" "at_connect md 0 (0x061C642F, htons 8086) l1 = (r, l2)"
  shows "\<exists>c'. a9g (at_net e md) [x, ''connect''] c = Inr c' \<and> g_socket_id c' = 0 \<and> world c' = l2"
proof -
  have "\<exists>c1. (if g_socket_id c \<ge> 0 then and_then (socket_close (at_net e md) (g_socket_id c) c) (\<lambda>(r, c1). Inr c1) else Inr c) = Inr c1 \<and> world c1 = l"
    using assms(1) by (auto simp: socket_close_def ask_net_def split: if_splits)
  then obtain c1 where c1: "(if g_socket_id c \<ge> 0 then and_then (socket_close (at_net e md) (g_socket_id c) c) (\<lambda>(r, c1). Inr c1) else Inr c) = Inr c1"
    "world c1 = l" by blast
  have c2: "socket_create (at_net e md) c1 = Inr (0, call (AtSocket 2 1 0 0) (c1\<lparr>world := l1\<rparr>))"
    using assms(2) c1(2) by (simp add: socket_create_def ask_net_def)
  show ?thesis unfolding a9g_def connect_aliot_http_device_def c1(1) and_then.simps c2 using assms(3)
    by (auto simp: socket_connect_def server_addr ask_net_def Let_def simp del: bytes_Cons bytes_append)
qed

text \<open>
  Whether the socket the client closes before it connects can be closed: it is not open, or it has no
  packet that was not read, or freed blocks keep their contents.
\<close>

definition can_close :: "lenv \<Rightarrow> layer client \<Rightarrow> bool" where
  "can_close e c \<longleftrightarrow> (case at_get_socket (g_socket_id c) (world c) of
     None \<Rightarrow> True | Some k \<Rightarrow> e_keeps e \<or> recvpkt_list (sock_of (world c) k) = [])"

lemma close_cannot:
  assumes "link_inv c" "\<not> can_close e c"
  shows "0 \<le> g_socket_id c \<and> at_closesocket e md (g_socket_id c) (world c) = Inl UseAfterFree"
proof -
  obtain k where k: "at_get_socket (g_socket_id c) (world c) = Some k" "\<not> (e_keeps e \<or> recvpkt_list (sock_of (world c) k) = [])"
    using assms(2) by (auto simp: can_close_def split: option.splits)
  have "0 \<le> g_socket_id c" using k(1) by (auto simp: at_get_socket_def split: if_splits)
  then show ?thesis using closesocket_outcome [where l = "world c" and i = "g_socket_id c" and e = e and md = md] assms(1) k by (simp add: link_inv_def)
qed

lemma device_step:
  assumes "link_inv c" "can_close e c"
  shows "\<exists>l. (if 0 \<le> g_socket_id c then \<exists>x. at_closesocket e md (g_socket_id c) (world c) = Inr (x, l) else l = world c) \<and>
    fd_ok l \<and> socket_list l = [] \<and> nd (drv l) = nd (drv (world c)) \<and> (\<exists>es. ops (drv l) = ops (drv (world c)) @ es \<and> started es = [])"
proof (cases "0 \<le> g_socket_id c")
  case True
  obtain x l where l: "at_closesocket e md (g_socket_id c) (world c) = Inr (x, l)"
    using closesocket_outcome [where l = "world c" and i = "g_socket_id c" and e = e and md = md] assms
    by (auto simp: link_inv_def can_close_def split: option.splits)
  have "fd_ok l \<and> socket_list l = []" using close_only [OF _ _ l] assms(1) by (simp add: link_inv_def)
  then show ?thesis using l True closesocket_drv [OF l] by (intro exI [of _ l]) simp
next
  case False
  then show ?thesis using assms(1) by (intro exI [of _ "world c"]) (auto simp: link_inv_def)
qed

section \<open>Properties\<close>

text \<open>
  C5: the shell, the receive thread, the parser thread, the check of the internet connection and the
  modem's threads on the real socket layer, in any order, with any modem, while memory lasts: at most
  one socket is open, and only the descriptor in \<open>g_socket_id\<close> refers to it.
\<close>

theorem link_one_descriptor:
  assumes "(link_step e md)\<^sup>*\<^sup>* (client0 (layer0 d)) c" "\<And>n. e_mem e n"
  shows "length (socket_list (world c)) \<le> 1 \<and> (\<forall>i k. at_get_socket i (world c) = Some k \<longrightarrow> i = g_socket_id c)"
proof -
  have i: "link_inv c" by (rule link_reach_inv [OF assms])
  have "i = g_socket_id c" if "at_get_socket i (world c) = Some k" for i k
    using that i by (auto simp: link_inv_def at_get_socket_def split: if_splits)
  then show ?thesis using i by (simp add: link_inv_def)
qed

theorem link_one_descriptor_witness:
  "\<exists>c. a9g (at_net open_env (good_modem [] None)) [''a9g'', ''close''] (client0 (layer0 up_dev)) = Inr c \<and> length (socket_list (world c)) \<le> 1"
proof -
  obtain r l where "at_closesocket open_env (good_modem [] None) (- 1) (layer0 up_dev) = Inr (r, l)"
    using closesocket_outcome [OF layer0_no_freed [of up_dev], where i = "- 1" and e = open_env and md = "good_modem [] None"] by (auto simp: at_get_socket_def)
  then obtain c where c: "a9g (at_net open_env (good_modem [] None)) [''a9g'', ''close''] (client0 (layer0 up_dev)) = Inr c"
    by (simp add: a9g_def disconnect_aliot_http_device_def socket_close_def ask_net_def client0_def)
  have "(link_step open_env (good_modem [] None))\<^sup>*\<^sup>* (client0 (layer0 up_dev)) c" by (blast intro: link_cmd [OF c])
  from link_one_descriptor [OF this] c show ?thesis by (simp add: open_env_def)
qed

text \<open>
  C2: in every state the threads can reach while memory lasts, with the interface up and the device
  found, the command \<open>connect\<close> opens descriptor 0 and makes the modem start a TCP connection to port
  8086 of 47.100.28.6, once or, after a failure, twice, and no other connection.  Only when the socket
  that is open before has a packet that was not read, and the contents of a freed block are not kept,
  the command ends in a fault instead: closing that socket reads the packet it has just freed.
\<close>

theorem connect_reaches_server:
  assumes "(link_step e md)\<^sup>*\<^sup>* (client0 (layer0 d)) c" "\<And>n. e_mem e n" "\<And>h. m_alloc md h" "e_found e"
    "nd_up (nd (drv (world c)))"
  shows "case a9g (at_net e md) [x, ''connect''] c of
      Inl f \<Rightarrow> f = UseAfterFree \<and> \<not> e_keeps e \<and>
        (\<exists>k. at_get_socket (g_socket_id c) (world c) = Some k \<and> recvpkt_list (sock_of (world c) k) \<noteq> [])
    | Inr c' \<Rightarrow> (e_keeps e \<or> (\<forall>k. at_get_socket (g_socket_id c) (world c) = Some k \<longrightarrow> recvpkt_list (sock_of (world c) k) = [])) \<and>
        g_socket_id c' = 0 \<and>
        (\<exists>es. ops (drv (world c')) = ops (drv (world c)) @ es \<and>
          (let cmd = cipstart ''TCP'' (bytes ''47.100.28.6'') 8086 in started es = [cmd] \<or> started es = [cmd, cmd]))"
proof (cases "can_close e c")
  case True
  obtain l es where l: "if 0 \<le> g_socket_id c then \<exists>x. at_closesocket e md (g_socket_id c) (world c) = Inr (x, l) else l = world c"
      "fd_ok l" "socket_list l = []" "nd (drv l) = nd (drv (world c))" "ops (drv l) = ops (drv (world c)) @ es" "started es = []"
    using device_step [OF link_reach_inv [OF assms(1,2)] True] by blast
  have "nd_up (nd (drv l))" using l(4) assms(5) by simp
  from fresh_connect [OF l(2,3) this assms(4,2,3)] obtain l1 l2 r fs where
    f: "at_socket e 2 1 l = Inr (0, l1)" "at_connect md 0 (0x061C642F, htons 8086) l1 = (r, l2)" "ops (drv l2) = ops (drv l) @ fs"
      "let cmd = cipstart ''TCP'' (bytes ''47.100.28.6'') 8086 in started fs = [cmd] \<or> started fs = [cmd, cmd]" by blast
  obtain c' where c': "a9g (at_net e md) [x, ''connect''] c = Inr c'" "g_socket_id c' = 0" "world c' = l2"
    using connect_forward [OF l(1) f(1,2)] by blast
  have "started (es @ fs) = started fs" using l(6) by (simp add: started_append)
  then have "\<exists>es. ops (drv (world c')) = ops (drv (world c)) @ es \<and>
      (let cmd = cipstart ''TCP'' (bytes ''47.100.28.6'') 8086 in started es = [cmd] \<or> started es = [cmd, cmd])"
    using f(3,4) l(5) c'(3) by (intro exI [of _ "es @ fs"]) simp
  then show ?thesis using c'(1,2) True by (auto simp: can_close_def split: option.splits)
next
  case False
  note u = close_cannot [OF link_reach_inv [OF assms(1,2)] False]
  have "a9g (at_net e md) [x, ''connect''] c = Inl UseAfterFree"
    using u by (simp add: a9g_def connect_aliot_http_device_def socket_close_def ask_net_def)
  then show ?thesis using False by (simp add: can_close_def split: option.splits)
qed

theorem connect_reaches_server_witness:
  "\<exists>c. a9g (at_net open_env (good_modem [] None)) [''a9g'', ''connect''] (client0 (layer0 up_dev)) = Inr c \<and> g_socket_id c = 0"
  using connect_reaches_server [of open_env "good_modem [] None" up_dev "client0 (layer0 up_dev)" "''a9g''"]
  by (auto simp: open_env_def good_modem_def client0_def layer0_def up_dev_def at_get_socket_def split: sum.splits)

end
