(* ===== verification/Serial.thy ===== *)
theory Serial
  imports Prelude
begin

text \<open>
  The serial driver below the positioning thread and the AT client: RT-Thread's \<open>serial.c\<close> with the calls
  of \<open>device.c\<close> that lead to it, and the interrupt handlers of \<open>drv_usart.c\<close>.

  Received bytes go through a ring buffer: the interrupt handler, or the DMA controller and its two
  interrupts, put them in, the thread takes them out.  The indices are 16 bit numbers.  What the
  application can reach is modelled; an allocation that fails stops the program by an assertion.
\<close>

section \<open>State\<close>

record rx_fifo =
  fbuf :: mem
  put_index :: nat
  get_index :: nat
  is_full :: bool

text \<open>What \<open>serial_rx\<close> and \<open>serial_tx\<close> point to; the flag of the DMA objects is \<open>activated\<close>.\<close>

datatype rx_obj = RxFifo rx_fifo | RxDma bool
datatype tx_obj = TxFifo | TxDma bool

record serial_configure =
  baud_rate :: nat
  data_bits :: nat
  stop_bits :: nat
  parity :: nat
  bufsz :: nat

text \<open>The calls of the low level operations: the configuration applied, a control command and its argument.\<close>

datatype low_call = Configure serial_configure | Control nat u16

text \<open>
  The device.  \<open>blocks\<close> is the number of blocks it has allocated and not freed, \<open>rx_cb\<close> says whether
  \<open>rx_indicate\<close> is set, \<open>indicated\<close> are the lengths it was called with, \<open>sent\<close> are the bytes sent.
\<close>

record serial =
  dflag :: u16
  open_flag :: u16
  ref_count :: u8
  rx_cb :: bool
  s_config :: serial_configure
  serial_rx :: "rx_obj option"
  serial_tx :: "tx_obj option"
  low_calls :: "low_call list"
  blocks :: nat
  indicated :: "nat list"
  sent :: mem

definition RT_DEVICE_FLAG_STANDALONE :: u16 where "RT_DEVICE_FLAG_STANDALONE = 0x008"
definition RT_DEVICE_FLAG_ACTIVATED :: u16 where "RT_DEVICE_FLAG_ACTIVATED = 0x010"
definition RT_DEVICE_FLAG_SUSPENDED :: u16 where "RT_DEVICE_FLAG_SUSPENDED = 0x020"
definition RT_DEVICE_FLAG_STREAM :: u16 where "RT_DEVICE_FLAG_STREAM = 0x040"
definition RT_DEVICE_FLAG_INT_RX :: u16 where "RT_DEVICE_FLAG_INT_RX = 0x100"
definition RT_DEVICE_FLAG_DMA_RX :: u16 where "RT_DEVICE_FLAG_DMA_RX = 0x200"
definition RT_DEVICE_FLAG_INT_TX :: u16 where "RT_DEVICE_FLAG_INT_TX = 0x400"
definition RT_DEVICE_FLAG_DMA_TX :: u16 where "RT_DEVICE_FLAG_DMA_TX = 0x800"
definition RT_DEVICE_OFLAG_RDWR :: u16 where "RT_DEVICE_OFLAG_RDWR = 0x003"
definition RT_DEVICE_OFLAG_OPEN :: u16 where "RT_DEVICE_OFLAG_OPEN = 0x008"
definition RT_DEVICE_CTRL_CONFIG :: nat where "RT_DEVICE_CTRL_CONFIG = 3"
definition RT_DEVICE_CTRL_SET_INT :: nat where "RT_DEVICE_CTRL_SET_INT = 0x10"
definition RT_DEVICE_CTRL_CLR_INT :: nat where "RT_DEVICE_CTRL_CLR_INT = 0x11"

lemmas device_flags =
  RT_DEVICE_FLAG_STANDALONE_def RT_DEVICE_FLAG_ACTIVATED_def RT_DEVICE_FLAG_SUSPENDED_def RT_DEVICE_FLAG_STREAM_def
  RT_DEVICE_FLAG_INT_RX_def RT_DEVICE_FLAG_DMA_RX_def RT_DEVICE_FLAG_INT_TX_def RT_DEVICE_FLAG_DMA_TX_def
  RT_DEVICE_OFLAG_RDWR_def RT_DEVICE_OFLAG_OPEN_def

definition has_flag :: "u16 \<Rightarrow> u16 \<Rightarrow> bool" where
  "has_flag f m \<longleftrightarrow> f AND m \<noteq> 0"

text \<open>An assignment to a \<open>rt_uint16_t\<close>.\<close>

definition wrap16 :: "nat \<Rightarrow> nat" where
  "wrap16 x = x mod 65536"

section \<open>The ring buffer\<close>

text \<open>\<open>index += 1; if (index >= bufsz) index = 0;\<close>\<close>

definition next_index :: "nat \<Rightarrow> nat \<Rightarrow> nat" where
  "next_index n i = (if n \<le> wrap16 (i + 1) then 0 else wrap16 (i + 1))"

definition no_data :: "rx_fifo \<Rightarrow> bool" where
  "no_data f \<longleftrightarrow> get_index f = put_index f \<and> \<not> is_full f"

text \<open>The loop of \<open>_serial_int_rx\<close>: the bytes stored and the buffer.\<close>

fun serial_int_rx :: "nat \<Rightarrow> nat \<Rightarrow> rx_fifo \<Rightarrow> (mem \<times> rx_fifo) res" where
  "serial_int_rx n 0 f = Inr ([], f)"
| "serial_int_rx n (Suc k) f =
     (if no_data f then Inr ([], f)
      else and_then (mem_at (fbuf f) (get_index f)) (\<lambda>ch.
           and_then (serial_int_rx n k (f\<lparr>get_index := next_index n (get_index f), is_full := False\<rparr>)) (\<lambda>(d, f').
             Inr (ch # d, f'))))"

text \<open>One byte in \<open>rt_hw_serial_isr\<close>: when the ring is full the oldest byte is dropped.\<close>

definition isr_put :: "nat \<Rightarrow> u8 \<Rightarrow> rx_fifo \<Rightarrow> rx_fifo res" where
  "isr_put n ch f =
     (if length (fbuf f) \<le> put_index f then Inl OutOfBounds
      else let f1 = f\<lparr>fbuf := (fbuf f)[put_index f := ch], put_index := next_index n (put_index f)\<rparr>
           in Inr (if put_index f1 = get_index f1
                   then f1\<lparr>get_index := next_index n (get_index f1), is_full := True\<rparr> else f1))"

text \<open>The bytes \<open>getc\<close> returns until it returns -1.\<close>

fun isr_puts :: "nat \<Rightarrow> mem \<Rightarrow> rx_fifo \<Rightarrow> rx_fifo res" where
  "isr_puts n [] f = Inr f"
| "isr_puts n (ch # chs) f = and_then (isr_put n ch f) (isr_puts n chs)"

definition isr_rx_length :: "nat \<Rightarrow> rx_fifo \<Rightarrow> nat" where
  "isr_rx_length n f =
     (if get_index f \<le> put_index f then put_index f - get_index f else n - (get_index f - put_index f))"

definition serial_fifo_calc_recved_len :: "nat \<Rightarrow> rx_fifo \<Rightarrow> nat" where
  "serial_fifo_calc_recved_len n f =
     (if put_index f = get_index f then if is_full f then n else 0
      else if put_index f > get_index f then put_index f - get_index f
      else n - (get_index f - put_index f))"

definition rt_dma_recv_update_get_index :: "nat \<Rightarrow> nat \<Rightarrow> rx_fifo \<Rightarrow> rx_fifo res" where
  "rt_dma_recv_update_get_index n len f =
     (if serial_fifo_calc_recved_len n f < len then Inl AssertFail
      else let g = wrap16 (get_index f + len)
           in Inr (f\<lparr>is_full := (is_full f \<and> len = 0), get_index := (if n \<le> g then g mod n else g)\<rparr>))"

definition rt_dma_recv_update_put_index :: "nat \<Rightarrow> nat \<Rightarrow> rx_fifo \<Rightarrow> rx_fifo" where
  "rt_dma_recv_update_put_index n len f =
     (let p = wrap16 (put_index f + len);
          f1 = (if get_index f \<le> put_index f
                then if n \<le> p then f\<lparr>put_index := p mod n, is_full := (is_full f \<or> get_index f \<le> p mod n)\<rparr>
                     else f\<lparr>put_index := p\<rparr>
                else if get_index f \<le> p then f\<lparr>put_index := (if n \<le> p then p mod n else p), is_full := True\<rparr>
                     else f\<lparr>put_index := p\<rparr>)
      in if is_full f1 then f1\<lparr>get_index := put_index f1\<rparr> else f1)"

text \<open>\<open>rt_memcpy\<close> of \<open>k\<close> bytes from offset \<open>i\<close>.\<close>

definition mem_slice :: "mem \<Rightarrow> nat \<Rightarrow> nat \<Rightarrow> mem res" where
  "mem_slice b i k = (if length b < i + k then Inl OutOfBounds else Inr (take k (drop i b)))"

text \<open>
  \<open>_serial_dma_rx\<close> with a ring; without one (\<open>bufsz\<close> 0) it needs \<open>ops->dma_transmit\<close>, which the driver of
  the board does not have.
\<close>

definition fifo_dma_rx :: "nat \<Rightarrow> nat \<Rightarrow> rx_fifo \<Rightarrow> (mem \<times> rx_fifo) res" where
  "fifo_dma_rx n k f =
     (let recv_len = min k (serial_fifo_calc_recved_len n f)
      in and_then (if get_index f + recv_len < n then mem_slice (fbuf f) (get_index f) recv_len
                   else and_then (mem_slice (fbuf f) (get_index f) (n - get_index f)) (\<lambda>a.
                        and_then (mem_slice (fbuf f) 0 (recv_len + get_index f - n)) (\<lambda>b. Inr (a @ b)))) (\<lambda>d.
         and_then (rt_dma_recv_update_get_index n recv_len f) (\<lambda>f'. Inr (d, f'))))"

definition serial_dma_rx :: "nat \<Rightarrow> nat \<Rightarrow> rx_obj \<Rightarrow> (mem \<times> rx_obj) res" where
  "serial_dma_rx n k obj =
     (if n = 0 then case obj of RxDma act \<Rightarrow> if act then Inr ([], obj) else Inl AssertFail | RxFifo f \<Rightarrow> Inl OutOfBounds
      else case obj of RxDma act \<Rightarrow> Inl OutOfBounds
         | RxFifo f \<Rightarrow> and_then (fifo_dma_rx n k f) (\<lambda>(d, f'). Inr (d, RxFifo f')))"

text \<open>\<open>_serial_poll_rx\<close>: \<open>chs\<close> is what \<open>getc\<close> returns until -1; a line end stops the loop.\<close>

fun serial_poll_rx :: "nat \<Rightarrow> mem \<Rightarrow> mem" where
  "serial_poll_rx 0 chs = []"
| "serial_poll_rx (Suc k) [] = []"
| "serial_poll_rx (Suc k) (c # cs) = (if c = 0x0A then [c] else c # serial_poll_rx k cs)"

text \<open>\<open>_serial_poll_tx\<close>: what \<open>putc\<close> sends.\<close>

fun serial_poll_tx :: "bool \<Rightarrow> mem \<Rightarrow> mem" where
  "serial_poll_tx stream [] = []"
| "serial_poll_tx stream (c # cs) = (if c = 0x0A \<and> stream then [0x0D, c] else [c]) @ serial_poll_tx stream cs"

section \<open>Opening and closing\<close>

definition new_fifo :: "nat \<Rightarrow> rx_fifo" where
  "new_fifo n = \<lparr>fbuf = replicate n 0, put_index = 0, get_index = 0, is_full = False\<rparr>"

definition low :: "low_call \<Rightarrow> serial \<Rightarrow> serial" where
  "low c s = s\<lparr>low_calls := low_calls s @ [c]\<rparr>"

definition set_open :: "u16 \<Rightarrow> serial \<Rightarrow> serial" where
  "set_open m s = s\<lparr>open_flag := open_flag s OR m\<rparr>"

text \<open>The receive part of \<open>rt_serial_open\<close>.\<close>

definition open_rx :: "u16 \<Rightarrow> serial \<Rightarrow> serial" where
  "open_rx oflag s =
     (let n = bufsz (s_config s) in
      case serial_rx s of
        None \<Rightarrow>
          if has_flag oflag RT_DEVICE_FLAG_INT_RX
          then low (Control RT_DEVICE_CTRL_SET_INT RT_DEVICE_FLAG_INT_RX)
                 (set_open RT_DEVICE_FLAG_INT_RX (s\<lparr>serial_rx := Some (RxFifo (new_fifo n)), blocks := blocks s + 1\<rparr>))
          else if has_flag oflag RT_DEVICE_FLAG_DMA_RX
          then set_open RT_DEVICE_FLAG_DMA_RX
                 (if n = 0 then s\<lparr>serial_rx := Some (RxDma False), blocks := blocks s + 1\<rparr>
                  else low (Control RT_DEVICE_CTRL_CONFIG RT_DEVICE_FLAG_DMA_RX)
                         (s\<lparr>serial_rx := Some (RxFifo (new_fifo n)), blocks := blocks s + 1\<rparr>))
          else s
      | Some obj \<Rightarrow>
          if has_flag oflag RT_DEVICE_FLAG_INT_RX then set_open RT_DEVICE_FLAG_INT_RX s
          else if has_flag oflag RT_DEVICE_FLAG_DMA_RX then set_open RT_DEVICE_FLAG_DMA_RX s
          else s)"

definition open_tx :: "u16 \<Rightarrow> serial \<Rightarrow> serial" where
  "open_tx oflag s =
     (case serial_tx s of
        None \<Rightarrow>
          if has_flag oflag RT_DEVICE_FLAG_INT_TX
          then low (Control RT_DEVICE_CTRL_SET_INT RT_DEVICE_FLAG_INT_TX)
                 (set_open RT_DEVICE_FLAG_INT_TX (s\<lparr>serial_tx := Some TxFifo, blocks := blocks s + 1\<rparr>))
          else if has_flag oflag RT_DEVICE_FLAG_DMA_TX
          then low (Control RT_DEVICE_CTRL_CONFIG RT_DEVICE_FLAG_DMA_TX)
                 (set_open RT_DEVICE_FLAG_DMA_TX (s\<lparr>serial_tx := Some (TxDma False), blocks := blocks s + 1\<rparr>))
          else s
      | Some obj \<Rightarrow>
          if has_flag oflag RT_DEVICE_FLAG_INT_TX then set_open RT_DEVICE_FLAG_INT_TX s
          else if has_flag oflag RT_DEVICE_FLAG_DMA_TX then set_open RT_DEVICE_FLAG_DMA_TX s
          else s)"

text \<open>The result is \<open>-RT_EIO\<close> when the device was not registered for a mode that is asked for.\<close>

definition rt_serial_open :: "u16 \<Rightarrow> serial \<Rightarrow> int \<times> serial" where
  "rt_serial_open oflag s =
     (if list_ex (\<lambda>m. has_flag oflag m \<and> \<not> has_flag (dflag s) m)
           [RT_DEVICE_FLAG_DMA_RX, RT_DEVICE_FLAG_DMA_TX, RT_DEVICE_FLAG_INT_RX, RT_DEVICE_FLAG_INT_TX]
      then (- 8, s)
      else let stream = (if has_flag oflag RT_DEVICE_FLAG_STREAM \<or> has_flag (open_flag s) RT_DEVICE_FLAG_STREAM
                         then RT_DEVICE_FLAG_STREAM else 0)
           in (0, set_open stream (open_tx oflag (open_rx oflag (s\<lparr>open_flag := oflag AND 0xff\<rparr>)))))"

definition close_rx :: "serial \<Rightarrow> serial res" where
  "close_rx s =
     (if has_flag (open_flag s) RT_DEVICE_FLAG_INT_RX
      then if serial_rx s = None then Inl AssertFail
           else Inr (low (Control RT_DEVICE_CTRL_CLR_INT RT_DEVICE_FLAG_INT_RX)
                  (s\<lparr>serial_rx := None, blocks := blocks s - 1, open_flag := open_flag s AND NOT RT_DEVICE_FLAG_INT_RX\<rparr>))
      else if has_flag (open_flag s) RT_DEVICE_FLAG_DMA_RX
      then if serial_rx s = None then Inl AssertFail
           else Inr (low (Control RT_DEVICE_CTRL_CLR_INT RT_DEVICE_FLAG_DMA_RX)
                  (s\<lparr>serial_rx := None, blocks := blocks s - 1, open_flag := open_flag s AND NOT RT_DEVICE_FLAG_DMA_RX\<rparr>))
      else Inr s)"

definition close_tx :: "serial \<Rightarrow> serial res" where
  "close_tx s =
     (if has_flag (open_flag s) RT_DEVICE_FLAG_INT_TX
      then if serial_tx s = None then Inl AssertFail
           else Inr (low (Control RT_DEVICE_CTRL_CLR_INT RT_DEVICE_FLAG_INT_TX)
                  (s\<lparr>serial_tx := None, blocks := blocks s - 1, open_flag := open_flag s AND NOT RT_DEVICE_FLAG_INT_TX\<rparr>))
      else if has_flag (open_flag s) RT_DEVICE_FLAG_DMA_TX
      then if serial_tx s = None then Inl AssertFail
           else Inr (s\<lparr>serial_tx := None, blocks := blocks s - 1, open_flag := open_flag s AND NOT RT_DEVICE_FLAG_DMA_TX\<rparr>)
      else Inr s)"

definition rt_serial_close :: "serial \<Rightarrow> (int \<times> serial) res" where
  "rt_serial_close s =
     (if ref_count s > 1 then Inr (0, s)
      else and_then (close_rx s) (\<lambda>s1. and_then (close_tx s1) (\<lambda>s2. Inr (0, s2))))"

text \<open>\<open>ok\<close>: the low level configuration succeeds.\<close>

definition rt_serial_init :: "bool \<Rightarrow> serial \<Rightarrow> int \<times> serial" where
  "rt_serial_init ok s = (if ok then 0 else - 1, low (Configure (s_config s)) (s\<lparr>serial_rx := None, serial_tx := None\<rparr>))"

section \<open>Reading, writing, control\<close>

text \<open>\<open>chs\<close> is what the receiver holds, for a device that is polled.\<close>

definition rt_serial_read :: "mem \<Rightarrow> nat \<Rightarrow> serial \<Rightarrow> (mem \<times> serial) res" where
  "rt_serial_read chs k s =
     (let n = bufsz (s_config s) in
      if k = 0 then Inr ([], s)
      else if has_flag (open_flag s) RT_DEVICE_FLAG_INT_RX
      then (case serial_rx s of
              None \<Rightarrow> Inl AssertFail
            | Some (RxDma act) \<Rightarrow> Inl OutOfBounds
            | Some (RxFifo f) \<Rightarrow> and_then (serial_int_rx n k f) (\<lambda>(d, f'). Inr (d, s\<lparr>serial_rx := Some (RxFifo f')\<rparr>)))
      else if has_flag (open_flag s) RT_DEVICE_FLAG_DMA_RX
      then (case serial_rx s of
              None \<Rightarrow> Inl AssertFail
            | Some obj \<Rightarrow> and_then (serial_dma_rx n k obj) (\<lambda>(d, obj'). Inr (d, s\<lparr>serial_rx := Some obj'\<rparr>)))
      else Inr (serial_poll_rx k chs, s))"

text \<open>The \<open>putc\<close> of the board always succeeds, and there is no \<open>dma_transmit\<close> to call.\<close>

definition rt_serial_write :: "mem \<Rightarrow> serial \<Rightarrow> (nat \<times> serial) res" where
  "rt_serial_write d s =
     (if d = [] then Inr (0, s)
      else if has_flag (open_flag s) RT_DEVICE_FLAG_INT_TX
      then if serial_tx s = None then Inl AssertFail else Inr (length d, s\<lparr>sent := sent s @ d\<rparr>)
      else if has_flag (open_flag s) RT_DEVICE_FLAG_DMA_TX
      then (case serial_tx s of Some (TxDma True) \<Rightarrow> Inr (length d, s) | _ \<Rightarrow> Inl NullDeref)
      else Inr (length d, s\<lparr>sent := sent s @ serial_poll_tx (has_flag (open_flag s) RT_DEVICE_FLAG_STREAM) d\<rparr>))"

datatype serial_cmd = CtrlSuspend | CtrlResume | CtrlConfig "serial_configure option" | CtrlFionread | CtrlOther nat u16

text \<open>The value is the result and the number stored by \<open>FIONREAD\<close>.\<close>

definition rt_serial_control :: "serial_cmd \<Rightarrow> serial \<Rightarrow> (int \<times> nat option \<times> serial) res" where
  "rt_serial_control cmd s =
     (case cmd of
        CtrlSuspend \<Rightarrow> Inr (0, None, s\<lparr>dflag := dflag s OR RT_DEVICE_FLAG_SUSPENDED\<rparr>)
      | CtrlResume \<Rightarrow> Inr (0, None, s\<lparr>dflag := dflag s AND NOT RT_DEVICE_FLAG_SUSPENDED\<rparr>)
      | CtrlConfig None \<Rightarrow> Inr (0, None, s)
      | CtrlConfig (Some p) \<Rightarrow>
          if bufsz p \<noteq> bufsz (s_config s) \<and> ref_count s \<noteq> 0 then Inr (7, None, s)
          else let s1 = s\<lparr>s_config := p\<rparr> in Inr (0, None, if ref_count s \<noteq> 0 then low (Configure p) s1 else s1)
      | CtrlFionread \<Rightarrow>
          (case serial_rx s of
             None \<Rightarrow> Inl AssertFail
           | Some (RxDma act) \<Rightarrow> Inl OutOfBounds
           | Some (RxFifo f) \<Rightarrow> Inr (0, Some (serial_fifo_calc_recved_len (bufsz (s_config s)) f), s))
      | CtrlOther c a \<Rightarrow> Inr (0, None, low (Control c a) s))"

section \<open>The device calls\<close>

definition rt_device_open :: "bool \<Rightarrow> u16 \<Rightarrow> serial \<Rightarrow> (int \<times> serial) res" where
  "rt_device_open ok oflag s =
     (let (r0, s1) = (if has_flag (dflag s) RT_DEVICE_FLAG_ACTIVATED then (0, s) else rt_serial_init ok s) in
      if r0 \<noteq> 0 then Inr (r0, s1)
      else let s2 = s1\<lparr>dflag := dflag s1 OR RT_DEVICE_FLAG_ACTIVATED\<rparr> in
           if has_flag (dflag s2) RT_DEVICE_FLAG_STANDALONE \<and> has_flag (open_flag s2) RT_DEVICE_OFLAG_OPEN
           then Inr (- 7, s2)
           else let (r, s3) = rt_serial_open oflag s2 in
                if r \<noteq> 0 then Inr (r, s3)
                else if ref_count s3 + 1 = 0 then Inl AssertFail
                else Inr (0, (set_open RT_DEVICE_OFLAG_OPEN s3)\<lparr>ref_count := ref_count s3 + 1\<rparr>))"

definition rt_device_close :: "serial \<Rightarrow> (int \<times> serial) res" where
  "rt_device_close s =
     (if ref_count s = 0 then Inr (- 1, s)
      else let s1 = s\<lparr>ref_count := ref_count s - 1\<rparr> in
           if ref_count s1 \<noteq> 0 then Inr (0, s1)
           else and_then (rt_serial_close s1) (\<lambda>(r, s2). Inr (r, s2\<lparr>open_flag := 0\<rparr>)))"

definition rt_device_read :: "mem \<Rightarrow> nat \<Rightarrow> serial \<Rightarrow> (mem \<times> serial) res" where
  "rt_device_read chs k s = (if ref_count s = 0 then Inr ([], s) else rt_serial_read chs k s)"

definition rt_device_write :: "mem \<Rightarrow> serial \<Rightarrow> (nat \<times> serial) res" where
  "rt_device_write d s = (if ref_count s = 0 then Inr (0, s) else rt_serial_write d s)"

definition rt_device_control :: "serial_cmd \<Rightarrow> serial \<Rightarrow> (int \<times> nat option \<times> serial) res" where
  "rt_device_control cmd s = rt_serial_control cmd s"

definition rt_device_set_rx_indicate :: "bool \<Rightarrow> serial \<Rightarrow> int \<times> serial" where
  "rt_device_set_rx_indicate cb s = (0, s\<lparr>rx_cb := cb\<rparr>)"

section \<open>Interrupts\<close>

definition indicate :: "nat \<Rightarrow> serial \<Rightarrow> serial" where
  "indicate len s = (if rx_cb s then s\<lparr>indicated := indicated s @ [len]\<rparr> else s)"

text \<open>\<open>RT_SERIAL_EVENT_RX_IND\<close>; \<open>chs\<close> is what \<open>getc\<close> returns until -1.\<close>

definition isr_rx_ind :: "mem \<Rightarrow> serial \<Rightarrow> serial res" where
  "isr_rx_ind chs s =
     (case serial_rx s of
        None \<Rightarrow> Inl AssertFail
      | Some (RxDma act) \<Rightarrow> Inl OutOfBounds
      | Some (RxFifo f) \<Rightarrow>
          and_then (isr_puts (bufsz (s_config s)) chs f) (\<lambda>f'.
            let s1 = s\<lparr>serial_rx := Some (RxFifo f')\<rparr>; l = isr_rx_length (bufsz (s_config s)) f'
            in Inr (if l \<noteq> 0 then indicate l s1 else s1)))"

text \<open>\<open>RT_SERIAL_EVENT_RX_DMADONE\<close> with \<open>len\<close> bytes.\<close>

definition isr_rx_dmadone :: "nat \<Rightarrow> serial \<Rightarrow> serial res" where
  "isr_rx_dmadone len s =
     (let n = bufsz (s_config s) in
      case serial_rx s of
        None \<Rightarrow> Inl AssertFail
      | Some (RxDma act) \<Rightarrow>
          if n \<noteq> 0 then Inl OutOfBounds
          else if \<not> rx_cb s then Inl AssertFail
          else Inr ((indicate len s)\<lparr>serial_rx := Some (RxDma False)\<rparr>)
      | Some (RxFifo f) \<Rightarrow>
          if n = 0 then Inl OutOfBounds
          else let f' = rt_dma_recv_update_put_index n len f
               in Inr (indicate (serial_fifo_calc_recved_len n f') (s\<lparr>serial_rx := Some (RxFifo f')\<rparr>)))"

text \<open>The two DMA interrupts of \<open>drv_usart.c\<close>; \<open>counter\<close> is the number of bytes the DMA controller has left.\<close>

record uart =
  ser :: serial
  last_index :: u32

definition dma_report :: "u32 \<Rightarrow> uart \<Rightarrow> uart res" where
  "dma_report recv_len u =
     (if recv_len = 0 then Inr u
      else and_then (isr_rx_dmadone (unat (signed_drop_bit 8 (push_bit 8 recv_len))) (ser u)) (\<lambda>s. Inr (u\<lparr>ser := s\<rparr>)))"

definition uart_idle_isr :: "u32 \<Rightarrow> uart \<Rightarrow> uart res" where
  "uart_idle_isr counter u =
     (let total = of_nat (bufsz (s_config (ser u))) - counter
      in dma_report (total - last_index u) (u\<lparr>last_index := total\<rparr>))"

definition HAL_UART_RxCpltCallback :: "uart \<Rightarrow> uart res" where
  "HAL_UART_RxCpltCallback u =
     dma_report (of_nat (bufsz (s_config (ser u))) - last_index u) (u\<lparr>last_index := 0\<rparr>)"

text \<open>
  \<open>uart_isr\<close>: the flags are receiver not empty, its interrupt enabled, idle line, its interrupt enabled;
  \<open>dma_flag\<close> is \<open>uart_dma_flag\<close>.  The other branch only clears error flags.
\<close>

definition uart_isr :: "bool \<Rightarrow> bool \<Rightarrow> bool \<Rightarrow> bool \<Rightarrow> bool \<Rightarrow> mem \<Rightarrow> u32 \<Rightarrow> uart \<Rightarrow> uart res" where
  "uart_isr rxne rxne_it dma_flag idle idle_it chs counter u =
     (if rxne \<and> rxne_it then and_then (isr_rx_ind chs (ser u)) (\<lambda>s. Inr (u\<lparr>ser := s\<rparr>))
      else if dma_flag \<and> idle \<and> idle_it then uart_idle_isr counter u
      else Inr u)"

text \<open>\<open>rt_hw_usart_init\<close> and \<open>rt_hw_serial_register\<close>: a device as it is registered.\<close>

definition RT_SERIAL_RB_BUFSZ :: nat where "RT_SERIAL_RB_BUFSZ = 64"

definition RT_SERIAL_CONFIG_DEFAULT :: serial_configure where
  "RT_SERIAL_CONFIG_DEFAULT = \<lparr>baud_rate = 115200, data_bits = 8, stop_bits = 0, parity = 0, bufsz = RT_SERIAL_RB_BUFSZ\<rparr>"

definition registered :: "bool \<Rightarrow> serial" where
  "registered dma_flag =
     \<lparr>dflag = RT_DEVICE_OFLAG_RDWR OR RT_DEVICE_FLAG_INT_RX OR (if dma_flag then RT_DEVICE_FLAG_DMA_RX else 0),
      open_flag = 0, ref_count = 0, rx_cb = False, s_config = RT_SERIAL_CONFIG_DEFAULT, serial_rx = None,
      serial_tx = None, low_calls = [], blocks = 0, indicated = [], sent = []\<rparr>"

end
