(* ===== verification/Serial_Ring.thy ===== *)
theory Serial_Ring
  imports Serial
begin

text \<open>
  The ring buffer of the serial driver as a queue.  \<open>unread\<close> is the queue a ring holds.  In interrupt
  mode a ring of \<open>n\<close> bytes keeps the last \<open>n - 1\<close>, in DMA mode the last \<open>n\<close>.
\<close>

section \<open>Rings\<close>

definition ring_bytes :: "nat \<Rightarrow> mem \<Rightarrow> nat \<Rightarrow> nat \<Rightarrow> mem" where
  "ring_bytes n b g k = map (\<lambda>i. b ! ((g + i) mod n)) [0..<k]"

lemma length_ring [simp]: "length (ring_bytes n b g k) = k"
  by (simp add: ring_bytes_def)

lemma ring_0 [simp]: "ring_bytes n b g 0 = []"
  by (simp add: ring_bytes_def)

lemma ring_nth [simp]: "i < k \<Longrightarrow> ring_bytes n b g k ! i = b ! ((g + i) mod n)"
  by (simp add: ring_bytes_def)

lemma ring_take: "take j (ring_bytes n b g k) = ring_bytes n b g (min j k)"
  by (rule nth_equalityI) auto

lemma ring_drop: "drop j (ring_bytes n b g k) = ring_bytes n b ((g + j) mod n) (k - j)"
  by (rule nth_equalityI) (auto simp: mod_add_left_eq add.assoc)

lemma ring_append: "ring_bytes n b g (j + k) = ring_bytes n b g j @ ring_bytes n b ((g + j) mod n) k"
  by (metis append_take_drop_id ring_take ring_drop min.absorb1 le_add1 add_diff_cancel_left')

lemma ring_mod: "ring_bytes n b (g mod n) k = ring_bytes n b g k"
  by (rule nth_equalityI) (auto simp: mod_add_left_eq)

lemma ring_slot: "k < n \<Longrightarrow> i < k \<Longrightarrow> (g + i) mod n \<noteq> (g + k) mod n"
  for n :: nat
proof
  assume h: "k < n" "i < k" "(g + i) mod n = (g + k) mod n"
  then have "n dvd (g + k) - (g + i)" by (metis mod_eq_dvd_iff_nat add_le_cancel_left less_imp_le)
  then have "n dvd k - i" by simp
  then show False using h(1,2) by (meson dvd_imp_le zero_less_diff less_imp_diff_less not_le)
qed

text \<open>A byte written behind the last one.\<close>

lemma ring_snoc:
  assumes "k < n" "length b = n"
  shows "ring_bytes n (b[(g + k) mod n := c]) g (Suc k) = ring_bytes n b g k @ [c]"
proof (rule nth_equalityI)
  fix i
  assume "i < length (ring_bytes n (b[(g + k) mod n := c]) g (Suc k))"
  then consider "i < k" | "i = k" by fastforce
  then show "ring_bytes n (b[(g + k) mod n := c]) g (Suc k) ! i = (ring_bytes n b g k @ [c]) ! i"
  proof cases
    case 1
    then show ?thesis using ring_slot [OF assms(1) 1, of g] by (simp add: nth_append)
  next
    case 2
    then show ?thesis using assms by (simp add: nth_append)
  qed
qed simp

lemma ring_other:
  assumes "k \<le> j" "j < n" "length b = n"
  shows "ring_bytes n (b[(g + j) mod n := c]) g k = ring_bytes n b g k"
proof (rule nth_equalityI)
  fix i
  assume "i < length (ring_bytes n (b[(g + j) mod n := c]) g k)"
  then have "i < j" using assms(1) by simp
  then show "ring_bytes n (b[(g + j) mod n := c]) g k ! i = ring_bytes n b g k ! i"
    using ring_slot [OF assms(2) \<open>i < j\<close>, of g] \<open>i < length _\<close> by simp
qed simp

text \<open>The two copies of \<open>_serial_dma_rx\<close>.\<close>

lemma ring_split:
  assumes "g < n" "r \<le> n" "length b = n"
  shows "ring_bytes n b g r = (if g + r < n then take r (drop g b) else drop g b @ take (g + r - n) b)"
proof (cases "g + r < n")
  case True
  then show ?thesis using assms by (auto intro!: nth_equalityI)
next
  case False
  have "ring_bytes n b g r = drop g b @ take (g + r - n) b"
  proof (rule nth_equalityI)
    show "length (ring_bytes n b g r) = length (drop g b @ take (g + r - n) b)" using assms False by simp
    fix i
    assume i: "i < length (ring_bytes n b g r)"
    show "ring_bytes n b g r ! i = (drop g b @ take (g + r - n) b) ! i"
    proof (cases "g + i < n")
      case True
      then have "i < n - g" by simp
      then show ?thesis using True i assms by (simp add: nth_append)
    next
      case False
      then have "(g + i) mod n = g + i - n" using i assms by (simp add: mod_if)
      moreover have "\<not> i < length (drop g b)" "i - length (drop g b) = g + i - n" "g + i - n < g + r - n"
        using False i assms by auto
      ultimately show ?thesis using i by (simp add: nth_append)
    qed
  qed
  then show ?thesis using False by simp
qed

section \<open>The queue of a ring buffer\<close>

definition fifo_ok :: "nat \<Rightarrow> rx_fifo \<Rightarrow> bool" where
  "fifo_ok n f \<longleftrightarrow> 0 < n \<and> n \<le> 32768 \<and> length (fbuf f) = n \<and> put_index f < n \<and> get_index f < n"

definition unread :: "nat \<Rightarrow> rx_fifo \<Rightarrow> mem" where
  "unread n f = ring_bytes n (fbuf f) (get_index f) (serial_fifo_calc_recved_len n f)"

text \<open>The last \<open>k\<close> elements.\<close>

definition last_n :: "nat \<Rightarrow> 'a list \<Rightarrow> 'a list" where
  "last_n k xs = drop (length xs - k) xs"

lemma last_n_short [simp]: "length xs \<le> k \<Longrightarrow> last_n k xs = xs"
  by (simp add: last_n_def)

lemma length_last_n [simp]: "length (last_n k xs) = min k (length xs)"
  by (simp add: last_n_def)

lemma last_n_append: "last_n k (last_n k xs @ ys) = last_n k (xs @ ys)"
proof (cases "length xs \<le> k")
  case False
  then have "length (drop (length xs - k) xs) = k" by simp
  then show ?thesis using False by (cases "length ys \<le> k") (auto simp: last_n_def add.commute)
qed simp

lemma next_index_mod: "n \<le> 32768 \<Longrightarrow> i < n \<Longrightarrow> next_index n i = (i + 1) mod n"
  by (auto simp: next_index_def wrap16_def mod_if)

lemma count_put: "fifo_ok n f \<Longrightarrow> (get_index f + serial_fifo_calc_recved_len n f) mod n = put_index f"
  by (auto simp: fifo_ok_def serial_fifo_calc_recved_len_def)

lemma count_le: "fifo_ok n f \<Longrightarrow> serial_fifo_calc_recved_len n f \<le> n"
  by (auto simp: fifo_ok_def serial_fifo_calc_recved_len_def)

lemma count_eq:
  assumes "fifo_ok n f" "put_index f = (get_index f + c) mod n" "c \<le> n" "c = 0 \<Longrightarrow> \<not> is_full f" "c = n \<Longrightarrow> is_full f"
  shows "serial_fifo_calc_recved_len n f = c"
  using assms by (cases "get_index f + c < n") (auto simp: fifo_ok_def serial_fifo_calc_recved_len_def mod_if)

section \<open>Interrupt mode\<close>

text \<open>The ring is never full with equal indices: one byte stays free.\<close>

definition int_ok :: "nat \<Rightarrow> rx_fifo \<Rightarrow> bool" where
  "int_ok n f \<longleftrightarrow> fifo_ok n f \<and> 2 \<le> n \<and> \<not> (put_index f = get_index f \<and> is_full f)"

lemma int_ok_count: "int_ok n f \<Longrightarrow> serial_fifo_calc_recved_len n f < n"
  by (auto simp: int_ok_def fifo_ok_def serial_fifo_calc_recved_len_def)

lemma int_okI:
  assumes "fifo_ok n f" "2 \<le> n" "put_index f = (get_index f + c) mod n" "c < n" "c = 0 \<Longrightarrow> \<not> is_full f"
  shows "int_ok n f \<and> serial_fifo_calc_recved_len n f = c"
proof -
  have c: "serial_fifo_calc_recved_len n f = c" using assms count_eq [of n f c] by auto
  have "c = 0" if "put_index f = get_index f"
    using that assms(1,3,4) by (cases "get_index f + c < n") (auto simp: fifo_ok_def mod_if split: if_splits)
  then show ?thesis using assms c by (auto simp: int_ok_def)
qed

lemma isr_put_queue:
  assumes "int_ok n f"
  shows "\<exists>f'. isr_put n ch f = Inr f' \<and> int_ok n f' \<and> unread n f' = last_n (n - 1) (unread n f @ [ch])"
proof -
  let ?k = "serial_fifo_calc_recved_len n f" and ?g = "get_index f"
  let ?b = "(fbuf f)[put_index f := ch]" and ?p = "(put_index f + 1) mod n"
  have ok: "fifo_ok n f" "2 \<le> n" "?k < n" using assms int_ok_count by (simp_all add: int_ok_def)
  have len: "length (fbuf f) = n" "put_index f < n" "?g < n" "n \<le> 32768" using ok(1) by (simp_all add: fifo_ok_def)
  have p: "put_index f = (?g + ?k) mod n" using count_put [OF ok(1)] by simp
  have p1: "?p = (?g + Suc ?k) mod n" unfolding p by (simp add: mod_Suc_eq)
  have q: "ring_bytes n ?b ?g (Suc ?k) = unread n f @ [ch]"
    unfolding unread_def p using ring_snoc ok(3) len(1) by blast
  have nx: "next_index n (put_index f) = ?p" "next_index n ?g = (?g + 1) mod n"
    using next_index_mod len by simp_all
  show ?thesis
  proof (cases "Suc ?k = n")
    case True
    let ?f = "f\<lparr>fbuf := ?b, put_index := ?p, get_index := (?g + 1) mod n, is_full := True\<rparr>"
    have "?p = ?g" using True p1 len(3) by simp
    then have e: "isr_put n ch f = Inr ?f" using len(1,2) nx by (simp add: isr_put_def)
    have "?g + 1 + (n - 1) = ?g + Suc ?k" using True ok(2) by simp
    then have pp: "?p = ((?g + 1) mod n + (n - 1)) mod n" unfolding p1 mod_add_left_eq by simp
    have "fifo_ok n ?f" using ok(1,2) by (simp add: fifo_ok_def)
    then have i: "int_ok n ?f \<and> serial_fifo_calc_recved_len n ?f = n - 1"
      using int_okI [of n ?f "n - 1"] pp ok(2) by simp
    have "unread n ?f = drop 1 (ring_bytes n ?b ?g (Suc ?k))" using i True by (simp add: unread_def ring_drop)
    then have "unread n ?f = last_n (n - 1) (unread n f @ [ch])"
      using q True by (simp add: last_n_def unread_def)
    then show ?thesis using e i by blast
  next
    case False
    let ?f = "f\<lparr>fbuf := ?b, put_index := ?p\<rparr>"
    have k: "Suc ?k < n" using False ok(3) by simp
    have "?p \<noteq> ?g" using ring_slot [OF k, of 0 ?g] p1 len(3) by simp
    then have e: "isr_put n ch f = Inr ?f" using len(1,2) nx by (simp add: isr_put_def)
    have "fifo_ok n ?f" using ok(1,2) by (simp add: fifo_ok_def)
    then have i: "int_ok n ?f \<and> serial_fifo_calc_recved_len n ?f = Suc ?k"
      using int_okI [of n ?f "Suc ?k"] p1 ok(2) k by simp
    then have "unread n ?f = last_n (n - 1) (unread n f @ [ch])"
      using q k by (simp add: unread_def)
    then show ?thesis using e i by blast
  qed
qed

lemma isr_puts_queue:
  "int_ok n f \<Longrightarrow> \<exists>f'. isr_puts n chs f = Inr f' \<and> int_ok n f' \<and> unread n f' = last_n (n - 1) (unread n f @ chs)"
proof (induction chs arbitrary: f)
  case Nil
  then have "length (unread n f) \<le> n - 1" using int_ok_count [OF Nil] by (simp add: unread_def)
  then show ?case using Nil by simp
next
  case (Cons ch chs)
  obtain f1 where f1: "isr_put n ch f = Inr f1" "int_ok n f1" "unread n f1 = last_n (n - 1) (unread n f @ [ch])"
    using isr_put_queue [OF Cons.prems] by blast
  obtain f2 where f2: "isr_puts n chs f1 = Inr f2" "int_ok n f2" "unread n f2 = last_n (n - 1) (unread n f1 @ chs)"
    using Cons.IH [OF f1(2)] by blast
  have "unread n f2 = last_n (n - 1) (unread n f @ ch # chs)"
    unfolding f2(3) f1(3) last_n_append by simp
  then show ?case using f1(1) f2(1,2) by simp
qed

lemma serial_int_rx_queue:
  "int_ok n f \<Longrightarrow> \<exists>f'. serial_int_rx n k f = Inr (take k (unread n f), f') \<and> int_ok n f' \<and> unread n f' = drop k (unread n f)"
proof (induction k arbitrary: f)
  case (Suc k)
  let ?c = "serial_fifo_calc_recved_len n f" and ?g = "get_index f"
  have ok: "fifo_ok n f" "2 \<le> n" "?c < n" using Suc.prems int_ok_count by (simp_all add: int_ok_def)
  have len: "length (fbuf f) = n" "put_index f < n" "?g < n" "n \<le> 32768" using ok(1) by (simp_all add: fifo_ok_def)
  show ?case
  proof (cases "no_data f")
    case True
    then have "unread n f = []" by (simp add: unread_def no_data_def serial_fifo_calc_recved_len_def)
    then show ?thesis using True Suc.prems by simp
  next
    case False
    have "?c \<noteq> 0" if "put_index f \<noteq> ?g" using that count_put [OF ok(1)] len(3) by (cases "?c = 0") simp_all
    then have c: "?c \<noteq> 0" using False Suc.prems by (auto simp: no_data_def int_ok_def)
    let ?f = "f\<lparr>get_index := (?g + 1) mod n, is_full := False\<rparr>"
    have "?g + 1 + (?c - 1) = ?g + ?c" using c by simp
    then have "put_index f = ((?g + 1) mod n + (?c - 1)) mod n" unfolding mod_add_left_eq using count_put [OF ok(1)] by simp
    moreover have "fifo_ok n ?f" using ok(1,2) by (simp add: fifo_ok_def)
    ultimately have i: "int_ok n ?f" "serial_fifo_calc_recved_len n ?f = ?c - 1"
      using int_okI [of n ?f "?c - 1"] ok by auto
    have u: "unread n f = fbuf f ! ?g # unread n ?f"
    proof -
      have "ring_bytes n (fbuf f) ?g (1 + (?c - 1)) = ring_bytes n (fbuf f) ?g 1 @ ring_bytes n (fbuf f) ((?g + 1) mod n) (?c - 1)"
        by (rule ring_append)
      moreover have "ring_bytes n (fbuf f) ?g 1 = [fbuf f ! ?g]" using len(3) by (simp add: ring_bytes_def)
      ultimately show ?thesis using c i(2) by (simp add: unread_def)
    qed
    obtain f' where "serial_int_rx n k ?f = Inr (take k (unread n ?f), f')" "int_ok n f'" "unread n f' = drop k (unread n ?f)"
      using Suc.IH [OF i(1)] by blast
    then show ?thesis using False len next_index_mod u by (simp add: mem_at_def)
  qed
qed simp

section \<open>DMA mode\<close>

definition dma_ok :: "nat \<Rightarrow> rx_fifo \<Rightarrow> bool" where
  "dma_ok n f \<longleftrightarrow> fifo_ok n f \<and> (is_full f \<longrightarrow> put_index f = get_index f)"

lemma dma_okI:
  assumes "fifo_ok n f" "put_index f = (get_index f + c) mod n" "c \<le> n" "is_full f \<longleftrightarrow> c = n"
  shows "dma_ok n f \<and> serial_fifo_calc_recved_len n f = c"
proof -
  have "0 < n" "get_index f < n" using assms(1) by (simp_all add: fifo_ok_def)
  then show ?thesis using assms count_eq [of n f c] by (auto simp: dma_ok_def)
qed

lemma dma_ok_full: "dma_ok n f \<Longrightarrow> is_full f \<longleftrightarrow> serial_fifo_calc_recved_len n f = n"
  by (auto simp: dma_ok_def fifo_ok_def serial_fifo_calc_recved_len_def split: if_splits)

text \<open>What the report of \<open>len\<close> bytes makes of the indices.\<close>

lemma dma_put_count:
  assumes "dma_ok n f" "len \<le> n"
  shows "let f' = rt_dma_recv_update_put_index n len f; c = serial_fifo_calc_recved_len n f in
    dma_ok n f' \<and> fbuf f' = fbuf f \<and> put_index f' = (put_index f + len) mod n \<and>
    serial_fifo_calc_recved_len n f' = min n (c + len) \<and>
    get_index f' = (if c + len < n then get_index f else put_index f')"
proof -
  let ?f = "rt_dma_recv_update_put_index n len f" and ?c = "serial_fifo_calc_recved_len n f"
  have ok: "0 < n" "n \<le> 32768" "length (fbuf f) = n" "put_index f < n" "get_index f < n"
    "is_full f \<Longrightarrow> put_index f = get_index f"
    using assms(1) by (simp_all add: dma_ok_def fifo_ok_def)
  have w: "wrap16 (put_index f + len) = put_index f + len" using ok assms(2) by (simp add: wrap16_def)
  have m: "(put_index f + len) mod n = (if n \<le> put_index f + len then put_index f + len - n else put_index f + len)"
    using ok(4) assms(2) by (auto simp: mod_if)
  have i: "put_index ?f = (put_index f + len) mod n" "fbuf ?f = fbuf f" "is_full ?f \<longleftrightarrow> n \<le> ?c + len"
    "get_index ?f = (if ?c + len < n then get_index f else put_index ?f)"
    using ok assms(2) m by (auto simp: rt_dma_recv_update_put_index_def w Let_def serial_fifo_calc_recved_len_def)
  have "fifo_ok n ?f" using i ok by (auto simp: fifo_ok_def)
  moreover have "put_index ?f = (get_index ?f + min n (?c + len)) mod n"
  proof (cases "?c + len < n")
    case True
    then show ?thesis using i count_put [of n f] assms(1) by (simp add: dma_ok_def mod_add_left_eq flip: add.assoc) (metis mod_add_left_eq)
  next
    case False
    then show ?thesis using i ok by simp
  qed
  ultimately have "dma_ok n ?f \<and> serial_fifo_calc_recved_len n ?f = min n (?c + len)"
    using dma_okI [of n ?f "min n (?c + len)"] i(3) by auto
  then show ?thesis using i by (simp add: Let_def)
qed

lemma fifo_dma_rx_queue:
  assumes "dma_ok n f"
  shows "\<exists>f'. fifo_dma_rx n k f = Inr (take k (unread n f), f') \<and> dma_ok n f' \<and> unread n f' = drop k (unread n f) \<and>
    fbuf f' = fbuf f \<and> put_index f' = put_index f"
proof -
  let ?c = "serial_fifo_calc_recved_len n f" and ?g = "get_index f"
  define r where "r = min k ?c"
  define g where "g = (?g + r) mod n"
  let ?r = r
  let ?f = "f\<lparr>is_full := (is_full f \<and> r = 0), get_index := g\<rparr>"
  have r: "r \<le> ?c" by (simp add: r_def)
  have ok: "fifo_ok n f" "0 < n" "n \<le> 32768" "length (fbuf f) = n" "put_index f < n" "?g < n"
    using assms by (simp_all add: dma_ok_def fifo_ok_def)
  have cn: "?c \<le> n" by (rule count_le [OF ok(1)])
  then have rn: "r \<le> n" using r by simp
  have cp: "(if ?g + ?r < n then mem_slice (fbuf f) ?g ?r
         else and_then (mem_slice (fbuf f) ?g (n - ?g)) (\<lambda>a. and_then (mem_slice (fbuf f) 0 (?r + ?g - n)) (\<lambda>b. Inr (a @ b)))) =
      Inr (ring_bytes n (fbuf f) ?g ?r)"
    using ring_split [of ?g n ?r "fbuf f"] ok rn by (auto simp: mem_slice_def add.commute)
  have tk: "ring_bytes n (fbuf f) ?g ?r = take k (unread n f)" by (simp add: unread_def ring_take r_def)
  have "wrap16 (?g + ?r) = ?g + ?r" using ok rn by (simp add: wrap16_def)
  then have ug: "rt_dma_recv_update_get_index n ?r f = Inr ?f"
    using ok(2) r by (auto simp: rt_dma_recv_update_get_index_def Let_def g_def)
  have e: "fifo_dma_rx n k f = Inr (take k (unread n f), ?f)"
    unfolding fifo_dma_rx_def Let_def r_def [symmetric] cp tk and_then.simps ug ..
  have "?g + r + (?c - r) = ?g + ?c" using r by simp
  then have "put_index f = (g + (?c - r)) mod n" unfolding g_def mod_add_left_eq using count_put [OF ok(1)] by simp
  then have "put_index ?f = (get_index ?f + (?c - ?r)) mod n" by simp
  moreover have "is_full ?f \<longleftrightarrow> ?c - ?r = n" using dma_ok_full [OF assms] cn ok(2) r by auto
  moreover have "fifo_ok n ?f" using ok by (simp add: fifo_ok_def g_def)
  ultimately have d: "dma_ok n ?f" "serial_fifo_calc_recved_len n ?f = ?c - ?r"
    using dma_okI [of n ?f "?c - ?r"] cn by auto
  have "unread n ?f = drop ?r (unread n f)" using d(2) by (simp add: unread_def ring_drop g_def)
  moreover have "drop ?r (unread n f) = drop k (unread n f)" by (simp add: unread_def min_def r_def)
  ultimately show ?thesis using e d(1) by (intro exI [of _ ?f]) simp
qed

end
