(* ===== verification/Serial_Props.thy ===== *)
theory Serial_Props
  imports Serial_Ring "HOL-Library.Sublist"
begin

text \<open>
  What the serial driver delivers.  The locale \<open>byte_fifo\<close> is the contract of a bounded queue that drops
  the oldest bytes, interpreted on the ring in interrupt mode and in DMA mode.
\<close>

section \<open>Bounded queues\<close>

datatype fifo_op = Arrive mem | Fetch nat

fun run_fifo :: "(mem \<Rightarrow> 'q \<Rightarrow> 'q res) \<Rightarrow> (nat \<Rightarrow> 'q \<Rightarrow> (mem \<times> 'q) res) \<Rightarrow> fifo_op list \<Rightarrow> 'q \<Rightarrow> (mem \<times> 'q) res" where
  "run_fifo put get [] q = Inr ([], q)"
| "run_fifo put get (Arrive bs # ops) q = and_then (put bs q) (run_fifo put get ops)"
| "run_fifo put get (Fetch k # ops) q =
     and_then (get k q) (\<lambda>(d, q1). and_then (run_fifo put get ops q1) (\<lambda>(e, q2). Inr (d @ e, q2)))"

text \<open>The specification: what is fetched and what is left of a queue that holds at most \<open>cap\<close> bytes.\<close>

fun fetched :: "nat \<Rightarrow> fifo_op list \<Rightarrow> mem \<Rightarrow> mem \<times> mem" where
  "fetched cap [] q = ([], q)"
| "fetched cap (Arrive bs # ops) q = fetched cap ops (last_n cap (q @ bs))"
| "fetched cap (Fetch k # ops) q = (case fetched cap ops (drop k q) of (d, r) \<Rightarrow> (take k q @ d, r))"

fun arrivals :: "fifo_op list \<Rightarrow> mem" where
  "arrivals [] = []"
| "arrivals (Arrive bs # ops) = bs @ arrivals ops"
| "arrivals (Fetch k # ops) = arrivals ops"

text \<open>The reader keeps up: at no time do more than \<open>cap\<close> bytes wait.\<close>

fun reader_keeps_up :: "nat \<Rightarrow> fifo_op list \<Rightarrow> mem \<Rightarrow> bool" where
  "reader_keeps_up cap [] q = True"
| "reader_keeps_up cap (Arrive bs # ops) q = (length q + length bs \<le> cap \<and> reader_keeps_up cap ops (q @ bs))"
| "reader_keeps_up cap (Fetch k # ops) q = reader_keeps_up cap ops (drop k q)"

lemma fetched_all: "reader_keeps_up cap ops q \<Longrightarrow> fetched cap ops q = (d, r) \<Longrightarrow> d @ r = q @ arrivals ops"
proof (induction ops arbitrary: q d r)
  case (Cons opn ops)
  show ?case
  proof (cases opn)
    case (Arrive bs)
    then have "last_n cap (q @ bs) = q @ bs" using Cons.prems(1) by simp
    then have "fetched cap ops (q @ bs) = (d, r)" "reader_keeps_up cap ops (q @ bs)" using Cons.prems Arrive by simp_all
    then show ?thesis using Cons.IH [of "q @ bs" d r] Arrive by simp
  next
    case (Fetch k)
    then obtain d1 where d1: "fetched cap ops (drop k q) = (d1, r)" "d = take k q @ d1"
      using Cons.prems(2) by (auto split: prod.splits)
    then have "d1 @ r = drop k q @ arrivals ops" using Cons.IH Cons.prems(1) Fetch by simp
    then have "take k q @ (d1 @ r) = (take k q @ drop k q) @ arrivals ops" by simp
    then show ?thesis using d1(2) Fetch by simp
  qed
qed simp

lemma fetched_subseq: "fetched cap ops q = (d, r) \<Longrightarrow> subseq (d @ r) (q @ arrivals ops)"
proof (induction cap ops q arbitrary: d r rule: fetched.induct)
  case (2 cap bs ops q)
  have "subseq (last_n cap (q @ bs)) (q @ bs)" unfolding last_n_def by (rule suffix_imp_subseq [OF suffix_drop])
  then have "subseq (last_n cap (q @ bs) @ arrivals ops) ((q @ bs) @ arrivals ops)"
    by (rule list_emb_append_mono) simp
  moreover have "subseq (d @ r) (last_n cap (q @ bs) @ arrivals ops)" using 2 by simp
  ultimately have "subseq (d @ r) ((q @ bs) @ arrivals ops)" by (meson subseq_order.order_trans)
  then show ?case by simp
next
  case (3 cap k ops q)
  obtain d1 where d1: "fetched cap ops (drop k q) = (d1, r)" "d = take k q @ d1"
    using "3.prems" by (auto split: prod.splits)
  then have "subseq (d1 @ r) (drop k q @ arrivals ops)" using "3.IH" by blast
  then have "subseq (take k q @ (d1 @ r)) (take k q @ (drop k q @ arrivals ops))"
    by (rule list_emb_append_mono [OF subseq_order.order_refl])
  moreover have "take k q @ (drop k q @ arrivals ops) = q @ arrivals ops"
    unfolding append_assoc [symmetric] append_take_drop_id ..
  ultimately show ?case using d1(2) by simp
qed simp

locale byte_fifo =
  fixes ok :: "'q \<Rightarrow> bool" and content :: "'q \<Rightarrow> mem" and cap :: nat and fits :: "mem \<Rightarrow> bool"
    and put :: "mem \<Rightarrow> 'q \<Rightarrow> 'q res" and get :: "nat \<Rightarrow> 'q \<Rightarrow> (mem \<times> 'q) res"
  assumes put_law: "ok q \<Longrightarrow> fits bs \<Longrightarrow> \<exists>q'. put bs q = Inr q' \<and> ok q' \<and> content q' = last_n cap (content q @ bs)"
    and get_law: "ok q \<Longrightarrow> \<exists>q'. get k q = Inr (take k (content q), q') \<and> ok q' \<and> content q' = drop k (content q)"
begin

definition fit_ops :: "fifo_op list \<Rightarrow> bool" where
  "fit_ops ops \<longleftrightarrow> (\<forall>bs. Arrive bs \<in> set ops \<longrightarrow> fits bs)"

lemma run_refines:
  assumes "ok q" "fit_ops ops" "fetched cap ops (content q) = (d, r)"
  shows "\<exists>q'. run_fifo put get ops q = Inr (d, q') \<and> ok q' \<and> content q' = r"
  using assms
proof (induction ops arbitrary: q d)
  case (Cons opn ops)
  have fo: "fit_ops ops" using Cons.prems(2) by (simp add: fit_ops_def)
  show ?case
  proof (cases opn)
    case (Arrive bs)
    then obtain q1 where q1: "put bs q = Inr q1" "ok q1" "content q1 = last_n cap (content q @ bs)"
      using put_law [OF Cons.prems(1)] Cons.prems(2) by (auto simp: fit_ops_def)
    then show ?thesis using Cons.IH [OF q1(2) fo] Cons.prems(3) Arrive by simp
  next
    case (Fetch k)
    obtain q1 where q1: "get k q = Inr (take k (content q), q1)" "ok q1" "content q1 = drop k (content q)"
      using get_law [OF Cons.prems(1)] by blast
    obtain d1 where d1: "fetched cap ops (content q1) = (d1, r)" "d = take k (content q) @ d1"
      using Cons.prems(3) Fetch q1(3) by (auto split: prod.splits)
    obtain q2 where "run_fifo put get ops q1 = Inr (d1, q2)" "ok q2" "content q2 = r"
      using Cons.IH [OF q1(2) fo d1(1)] by blast
    then show ?thesis using Fetch q1(1) d1(2) by simp
  qed
qed simp

lemma run_ordered:
  assumes "ok q" "fit_ops ops"
  shows "\<exists>d q'. run_fifo put get ops q = Inr (d, q') \<and> ok q' \<and> subseq (d @ content q') (content q @ arrivals ops) \<and>
    (reader_keeps_up cap ops (content q) \<longrightarrow> d @ content q' = content q @ arrivals ops)"
proof -
  obtain d r where dr: "fetched cap ops (content q) = (d, r)" by fastforce
  then obtain q' where "run_fifo put get ops q = Inr (d, q')" "ok q'" "content q' = r"
    using run_refines [OF assms] by blast
  then show ?thesis using fetched_subseq [OF dr] fetched_all [OF _ dr] by auto
qed

lemma run_is_spec:
  assumes "ok q" "fit_ops ops"
  shows "\<exists>d q'. run_fifo put get ops q = Inr (d, q') \<and> fetched cap ops (content q) = (d, content q')"
proof -
  obtain d r where dr: "fetched cap ops (content q) = (d, r)" by fastforce
  then show ?thesis using run_refines [OF assms] by auto
qed

end

text \<open>The ring in interrupt mode.\<close>

interpretation irq: byte_fifo "int_ok n" "unread n" "n - 1" "\<lambda>bs. True" "isr_puts n" "serial_int_rx n" for n
  by unfold_locales (use isr_puts_queue serial_int_rx_queue in blast)+

text \<open>
  The ring in DMA mode: the controller writes the bytes from the position of \<open>put_index\<close> on, round the
  ring, and the interrupt reports them.
\<close>

fun dma_fill :: "nat \<Rightarrow> nat \<Rightarrow> mem \<Rightarrow> mem \<Rightarrow> mem" where
  "dma_fill n p [] b = b"
| "dma_fill n p (c # cs) b = dma_fill n (Suc p mod n) cs (b[p := c])"

definition dma_arrive :: "nat \<Rightarrow> mem \<Rightarrow> rx_fifo \<Rightarrow> rx_fifo res" where
  "dma_arrive n bs f = Inr (rt_dma_recv_update_put_index n (length bs) (f\<lparr>fbuf := dma_fill n (put_index f) bs (fbuf f)\<rparr>))"

lemma length_dma_fill [simp]: "length (dma_fill n p bs b) = length b"
  by (induction n p bs b rule: dma_fill.induct) auto

lemma ring_fill:
  "p = (g + k) mod n \<Longrightarrow> k + length bs \<le> n \<Longrightarrow> length b = n \<Longrightarrow>
   ring_bytes n (dma_fill n p bs b) g (k + length bs) = ring_bytes n b g k @ bs"
proof (induction n p bs b arbitrary: k rule: dma_fill.induct)
  case (2 n p c cs b)
  have "ring_bytes n (dma_fill n (Suc p mod n) cs (b[p := c])) g (Suc k + length cs) = ring_bytes n (b[p := c]) g (Suc k) @ cs"
    using "2.IH" [of "Suc k"] "2.prems" by (simp add: mod_Suc_eq)
  moreover have "ring_bytes n (b[p := c]) g (Suc k) = ring_bytes n b g k @ [c]" using ring_snoc "2.prems" by simp
  ultimately show ?case by simp
qed simp

lemma dma_arrive_queue:
  assumes "dma_ok n f" "length bs \<le> n"
  shows "\<exists>f'. dma_arrive n bs f = Inr f' \<and> dma_ok n f' \<and> unread n f' = last_n n (unread n f @ bs)"
proof -
  let ?b = "dma_fill n (put_index f) bs (fbuf f)" and ?l = "length bs" and ?c = "serial_fifo_calc_recved_len n f"
  let ?f = "f\<lparr>fbuf := ?b\<rparr>"
  let ?f' = "rt_dma_recv_update_put_index n ?l ?f"
  have ok: "fifo_ok n f" "length (fbuf f) = n" "put_index f < n" "get_index f < n"
    using assms(1) by (simp_all add: dma_ok_def fifo_ok_def)
  have "dma_ok n ?f" using assms(1) by (simp add: dma_ok_def fifo_ok_def)
  moreover have cf: "serial_fifo_calc_recved_len n ?f = ?c" by (simp add: serial_fifo_calc_recved_len_def)
  ultimately have f': "dma_ok n ?f'" "fbuf ?f' = ?b" "put_index ?f' = (put_index f + ?l) mod n"
    "serial_fifo_calc_recved_len n ?f' = min n (?c + ?l)"
    "get_index ?f' = (if ?c + ?l < n then get_index f else put_index ?f')"
    using dma_put_count [of n ?f ?l] assms(2) by (simp_all add: Let_def)
  have "unread n ?f' = last_n n (unread n f @ bs)"
  proof (cases "?c + ?l < n")
    case True
    then show ?thesis using f' ring_fill [of "put_index f" "get_index f" ?c n bs "fbuf f"] count_put [OF ok(1)] ok(2)
      by (simp add: unread_def)
  next
    case False
    let ?g = "(put_index f + ?l) mod n"
    have "(?g + (n - ?l)) mod n = (put_index f + n) mod n"
      unfolding mod_add_left_eq using assms(2) by simp
    then have p: "put_index f = (?g + (n - ?l)) mod n" using ok(3) by simp
    have "ring_bytes n ?b ?g (n - ?l + ?l) = ring_bytes n (fbuf f) ?g (n - ?l) @ bs"
      using ring_fill [OF p, of bs "fbuf f"] assms(2) ok(2) by simp
    moreover have "ring_bytes n (fbuf f) ?g (n - ?l) = drop (?c + ?l - n) (unread n f)"
    proof -
      have "(get_index f + (?c + ?l - n)) mod n = (get_index f + (?c + ?l - n) + n) mod n" by simp
      also have "\<dots> = (get_index f + ?c + ?l) mod n" using False by (simp add: add.assoc)
      also have "\<dots> = ?g" using count_put [OF ok(1)] by (metis mod_add_left_eq)
      finally show ?thesis using False count_le [OF ok(1)] assms(2) by (simp add: unread_def ring_drop)
    qed
    ultimately show ?thesis using False f' assms(2) by (simp add: unread_def last_n_def)
  qed
  then show ?thesis using f'(1) by (simp add: dma_arrive_def)
qed

interpretation dmaq: byte_fifo "dma_ok n" "unread n" n "\<lambda>bs. length bs \<le> n" "dma_arrive n" "\<lambda>k. fifo_dma_rx n k" for n
  by unfold_locales (use dma_arrive_queue fifo_dma_rx_queue in blast)+

lemma new_fifo_ok:
  assumes "2 \<le> n" "n \<le> 32768"
  shows "int_ok n (new_fifo n)" "dma_ok n (new_fifo n)" "unread n (new_fifo n) = []"
  using assms by (simp_all add: int_ok_def dma_ok_def fifo_ok_def new_fifo_def unread_def serial_fifo_calc_recved_len_def)

text \<open>C8: The receive ring as a queue.  Let bytes come in and be read in any order and any amounts, on a ring of \<open>n\<close> bytes.
  In interrupt mode the bytes read and those left in the ring are those of a queue that holds \<open>n - 1\<close> bytes
  and drops the oldest; in DMA mode, where no more than \<open>n\<close> bytes come in between two interrupts, those of a
  queue of \<open>n\<close> bytes.  In both modes what is read keeps the order of the wire, with nothing twice and
  nothing made up, and nothing is lost as long as the reader keeps up with the ring.\<close>

theorem serial_queue:
  assumes "2 \<le> n" "n \<le> 32768"
  shows "(\<exists>d f. run_fifo (isr_puts n) (serial_int_rx n) ops (new_fifo n) = Inr (d, f) \<and> fetched (n - 1) ops [] = (d, unread n f) \<and>
      subseq (d @ unread n f) (arrivals ops) \<and> (reader_keeps_up (n - 1) ops [] \<longrightarrow> d @ unread n f = arrivals ops)) \<and>
    ((\<forall>bs. Arrive bs \<in> set ops \<longrightarrow> length bs \<le> n) \<longrightarrow>
      (\<exists>d f. run_fifo (dma_arrive n) (fifo_dma_rx n) ops (new_fifo n) = Inr (d, f) \<and> fetched n ops [] = (d, unread n f) \<and>
      subseq (d @ unread n f) (arrivals ops) \<and> (reader_keeps_up n ops [] \<longrightarrow> d @ unread n f = arrivals ops)))"
proof -
  note new = new_fifo_ok [OF assms]
  have "irq.fit_ops ops" by (simp add: irq.fit_ops_def)
  from irq.run_is_spec [OF new(1) this] irq.run_ordered [OF new(1) this]
  have "\<exists>d f. run_fifo (isr_puts n) (serial_int_rx n) ops (new_fifo n) = Inr (d, f) \<and> fetched (n - 1) ops [] = (d, unread n f) \<and>
      subseq (d @ unread n f) (arrivals ops) \<and> (reader_keeps_up (n - 1) ops [] \<longrightarrow> d @ unread n f = arrivals ops)"
    by (auto simp: new(3))
  moreover have "\<exists>d f. run_fifo (dma_arrive n) (fifo_dma_rx n) ops (new_fifo n) = Inr (d, f) \<and> fetched n ops [] = (d, unread n f) \<and>
      subseq (d @ unread n f) (arrivals ops) \<and> (reader_keeps_up n ops [] \<longrightarrow> d @ unread n f = arrivals ops)"
    if "\<forall>bs. Arrive bs \<in> set ops \<longrightarrow> length bs \<le> n"
  proof -
    have "dmaq.fit_ops n ops" using that by (simp add: dmaq.fit_ops_def)
    from dmaq.run_is_spec [OF new(2) this] dmaq.run_ordered [OF new(2) this] show ?thesis by (auto simp: new(3))
  qed
  ultimately show ?thesis by blast
qed

lemma serial_queue_witness:
  "\<exists>d f. run_fifo (isr_puts 4) (serial_int_rx 4) [Arrive [1, 2, 3, 4, 5], Fetch 2, Arrive [6]] (new_fifo 4) = Inr (d, f) \<and>
    (d, unread 4 f) = ([3, 4], [5, 6])"
proof -
  let ?ops = "[Arrive [1, 2, 3, 4, 5], Fetch 2, Arrive [6 :: u8]]"
  have "fetched 3 ?ops [] = ([3, 4], [5, 6])" by (simp add: last_n_def)
  then show ?thesis using serial_queue [of 4 ?ops] by auto
qed

end
