(* ===== verification/Serial_System.thy ===== *)
theory Serial_System
  imports Serial_Props
begin

text \<open>
  The serial device as a whole: the DMA controller, its two interrupts and a reading thread in any
  order, and the device calls and interrupts in any order.
\<close>

section \<open>Reception by DMA\<close>

text \<open>
  \<open>dpos\<close> is the position the DMA controller writes to next, \<open>dpend\<close> says that it has come to the end of
  the ring and its interrupt has not run yet.  \<open>on_wire\<close> and \<open>taken\<close> are the bytes that have come in and
  those the thread has read; \<open>lost\<close> says that a byte came in when the ring was full of bytes to be read.
\<close>

record dma_sys =
  du :: uart
  dpos :: nat
  dpend :: bool
  on_wire :: mem
  taken :: mem
  lost :: bool

definition the_fifo :: "serial \<Rightarrow> rx_fifo" where
  "the_fifo s = (case serial_rx s of Some (RxFifo f) \<Rightarrow> f | _ \<Rightarrow> new_fifo 0)"

definition ring_size :: "dma_sys \<Rightarrow> nat" where
  "ring_size d = bufsz (s_config (ser (du d)))"

text \<open>Bytes written that no interrupt has reported, and all that wait.\<close>

definition in_flight :: "dma_sys \<Rightarrow> nat" where
  "in_flight d =
     (if dpend d then ring_size d - unat (last_index (du d)) + dpos d else dpos d - unat (last_index (du d)))"

definition queued :: "dma_sys \<Rightarrow> nat" where
  "queued d = serial_fifo_calc_recved_len (ring_size d) (the_fifo (ser (du d))) + in_flight d"

definition dma_write :: "u8 \<Rightarrow> dma_sys \<Rightarrow> dma_sys" where
  "dma_write c d =
     (let s = ser (du d); f = the_fifo s; f' = f\<lparr>fbuf := (fbuf f)[dpos d := c]\<rparr>
      in d\<lparr>du := (du d)\<lparr>ser := s\<lparr>serial_rx := Some (RxFifo f')\<rparr>\<rparr>,
           dpos := (if Suc (dpos d) = ring_size d then 0 else Suc (dpos d)),
           dpend := (dpend d \<or> Suc (dpos d) = ring_size d), on_wire := on_wire d @ [c],
           lost := (lost d \<or> queued d \<ge> ring_size d)\<rparr>)"

text \<open>
  The DMA controller writes each byte that comes in, whether there is room or not.  Its interrupt has the
  higher priority, so the idle interrupt does not run while it is pending.
\<close>

inductive dma_step :: "dma_sys \<Rightarrow> dma_sys \<Rightarrow> bool" where
  dma_byte: "dma_step d (dma_write c d)"
| dma_complete: "dpend d \<Longrightarrow> HAL_UART_RxCpltCallback (du d) = Inr u \<Longrightarrow> dma_step d (d\<lparr>du := u, dpend := False\<rparr>)"
| dma_idle: "\<not> dpend d \<Longrightarrow> uart_idle_isr (of_nat (ring_size d - dpos d)) (du d) = Inr u \<Longrightarrow> dma_step d (d\<lparr>du := u\<rparr>)"
| dma_read: "rt_device_read chs k (ser (du d)) = Inr (bs, s) \<Longrightarrow>
    dma_step d (d\<lparr>du := (du d)\<lparr>ser := s\<rparr>, taken := taken d @ bs\<rparr>)"

definition dma_oflag :: u16 where
  "dma_oflag = RT_DEVICE_OFLAG_RDWR OR RT_DEVICE_FLAG_DMA_RX"

definition dma_opened :: "serial \<Rightarrow> rx_fifo \<Rightarrow> bool" where
  "dma_opened s f \<longleftrightarrow> serial_rx s = Some (RxFifo f) \<and> ref_count s = 1 \<and> open_flag s = dma_oflag OR RT_DEVICE_OFLAG_OPEN"

lemma dma_flags [simp]:
  "\<not> has_flag (dma_oflag OR RT_DEVICE_OFLAG_OPEN) RT_DEVICE_FLAG_INT_RX"
  "has_flag (dma_oflag OR RT_DEVICE_OFLAG_OPEN) RT_DEVICE_FLAG_DMA_RX"
  by (simp_all add: has_flag_def dma_oflag_def device_flags)

definition dma_inv :: "dma_sys \<Rightarrow> bool" where
  "dma_inv d \<longleftrightarrow>
     (let n = ring_size d; f = the_fifo (ser (du d)); l = unat (last_index (du d)) in
      dma_opened (ser (du d)) f \<and> dma_ok n f \<and> put_index f = l \<and> dpos d < n \<and>
      (if dpend d then dpos d \<le> l else l \<le> dpos d) \<and> queued d \<le> n \<and>
      taken d @ ring_bytes n (fbuf f) (get_index f) (queued d) = on_wire d)"

lemma the_fifo_Some [simp]: "serial_rx s = Some (RxFifo f) \<Longrightarrow> the_fifo s = f"
  by (simp add: the_fifo_def)

lemma dma_invD:
  assumes "dma_inv d"
  shows "dma_opened (ser (du d)) (the_fifo (ser (du d)))" "dma_ok (ring_size d) (the_fifo (ser (du d)))"
    "put_index (the_fifo (ser (du d))) = unat (last_index (du d))" "dpos d < ring_size d"
    "if dpend d then dpos d \<le> unat (last_index (du d)) else unat (last_index (du d)) \<le> dpos d"
    "queued d \<le> ring_size d"
    "taken d @ ring_bytes (ring_size d) (fbuf (the_fifo (ser (du d)))) (get_index (the_fifo (ser (du d)))) (queued d) = on_wire d"
    "unat (last_index (du d)) < ring_size d" "ring_size d \<le> 32768"
  using assms by (auto simp: dma_inv_def Let_def dma_ok_def fifo_ok_def)

text \<open>The length through the event number, an \<open>int\<close>.\<close>

lemma report_length:
  assumes "len \<le> 32768"
  shows "unat (signed_drop_bit 8 (push_bit 8 (of_nat len :: u32))) = len"
proof -
  have si: "sint (of_int k :: u32) = signed_take_bit 31 k" for k by (simp add: signed_of_int)
  have small: "signed_take_bit 31 (256 * int len) = 256 * int len" "signed_take_bit 31 (int len) = int len"
    using assms by (auto intro!: signed_take_bit_int_eq_self)
  have "push_bit 8 (of_nat len :: u32) = of_int (256 * int len)" by (simp add: push_bit_eq_mult)
  then have "sint (push_bit 8 (of_nat len :: u32)) = 256 * int len" using small(1) by (simp only: si)
  then have "sint (signed_drop_bit 8 (push_bit 8 (of_nat len :: u32))) = int len"
    by (simp add: sint_signed_drop_bit_eq drop_bit_eq_div)
  moreover have "sint (of_nat len :: u32) = int len" using si [of "int len"] small(2) by simp
  ultimately have "sint (signed_drop_bit 8 (push_bit 8 (of_nat len :: u32))) = sint (of_nat len :: u32)" by simp
  then have "signed_drop_bit 8 (push_bit 8 (of_nat len :: u32)) = of_nat len" by (rule signed_word_eqI)
  moreover have "unat (of_nat len :: u32) = len" using assms by (intro unat_of_nat_small) simp
  ultimately show ?thesis by simp
qed

text \<open>The report of one of the two interrupts, while the ring has room for it.\<close>

lemma dma_report_fifo:
  assumes "dma_opened s f" "dma_ok n f" "bufsz (s_config s) = n" "serial_fifo_calc_recved_len n f + len \<le> n"
  shows "\<exists>s' f'. dma_report (of_nat len) \<lparr>ser = s, last_index = l\<rparr> = Inr \<lparr>ser = s', last_index = l\<rparr> \<and>
    dma_opened s' f' \<and> s_config s' = s_config s \<and> dma_ok n f' \<and> fbuf f' = fbuf f \<and> get_index f' = get_index f \<and>
    put_index f' = (put_index f + len) mod n \<and>
    serial_fifo_calc_recved_len n f' = serial_fifo_calc_recved_len n f + len"
proof -
  have n: "0 < n" "n \<le> 32768" "put_index f < n" "get_index f < n" using assms(2) by (simp_all add: dma_ok_def fifo_ok_def)
  have ln: "len \<le> n" using assms(4) by simp
  show ?thesis
  proof (cases "len = 0")
    case True
    then show ?thesis using assms n by (intro exI [of _ s] exI [of _ f]) (simp add: dma_report_def)
  next
    case False
    let ?f' = "rt_dma_recv_update_put_index n len f"
    have u: "unat (of_nat len :: u32) = len" using ln n(2) by (intro unat_of_nat_small) simp
    then have nz: "(of_nat len :: u32) \<noteq> 0" using False by (metis unat_0)
    have sh: "unat (signed_drop_bit 8 (push_bit 8 (of_nat len :: u32))) = len" using report_length ln n(2) by simp
    let ?s' = "indicate (serial_fifo_calc_recved_len n ?f') (s\<lparr>serial_rx := Some (RxFifo ?f')\<rparr>)"
    have "dma_report (of_nat len) \<lparr>ser = s, last_index = l\<rparr> = Inr \<lparr>ser = ?s', last_index = l\<rparr>"
      using assms(1,3) n(1) nz by (simp add: dma_report_def sh isr_rx_dmadone_def dma_opened_def Let_def)
    moreover have "dma_opened ?s' ?f'" "s_config ?s' = s_config s" using assms(1) by (simp_all add: dma_opened_def indicate_def)
    moreover have "dma_ok n ?f' \<and> fbuf ?f' = fbuf f \<and> put_index ?f' = (put_index f + len) mod n \<and>
        serial_fifo_calc_recved_len n ?f' = serial_fifo_calc_recved_len n f + len \<and> get_index ?f' = get_index f"
    proof -
      have p: "dma_ok n ?f'" "fbuf ?f' = fbuf f" "put_index ?f' = (put_index f + len) mod n"
        "serial_fifo_calc_recved_len n ?f' = min n (serial_fifo_calc_recved_len n f + len)"
        "get_index ?f' = (if serial_fifo_calc_recved_len n f + len < n then get_index f else put_index ?f')"
        using dma_put_count [OF assms(2) ln] by (simp_all add: Let_def)
      have "(get_index f + serial_fifo_calc_recved_len n f) mod n = put_index f"
        using count_put assms(2) by (simp add: dma_ok_def)
      then have "put_index ?f' = (get_index f + (serial_fifo_calc_recved_len n f + len)) mod n"
        unfolding p(3) by (metis add.assoc mod_add_left_eq)
      then have "put_index ?f' = get_index f" if "serial_fifo_calc_recved_len n f + len = n"
        using that n(4) by simp
      then show ?thesis using p assms(4) by (cases "serial_fifo_calc_recved_len n f + len < n") auto
    qed
    ultimately show ?thesis by blast
  qed
qed

text \<open>The report whether there is room or not.\<close>

lemma dma_report_safe:
  assumes "dma_opened s f" "dma_ok n f" "bufsz (s_config s) = n" "len \<le> n"
  shows "\<exists>s' f'. dma_report (of_nat len) \<lparr>ser = s, last_index = l\<rparr> = Inr \<lparr>ser = s', last_index = l\<rparr> \<and>
    dma_opened s' f' \<and> s_config s' = s_config s \<and> dma_ok n f' \<and> put_index f' = (put_index f + len) mod n"
proof -
  have n: "0 < n" "n \<le> 32768" "put_index f < n" using assms(2) by (simp_all add: dma_ok_def fifo_ok_def)
  show ?thesis
  proof (cases "len = 0")
    case True
    then show ?thesis using assms n by (intro exI [of _ s] exI [of _ f]) (simp add: dma_report_def)
  next
    case False
    let ?f' = "rt_dma_recv_update_put_index n len f"
    have "unat (of_nat len :: u32) = len" using assms(4) n(2) by (intro unat_of_nat_small) simp
    then have nz: "(of_nat len :: u32) \<noteq> 0" using False by (metis unat_0)
    have sh: "unat (signed_drop_bit 8 (push_bit 8 (of_nat len :: u32))) = len" using report_length assms(4) n(2) by simp
    let ?s' = "indicate (serial_fifo_calc_recved_len n ?f') (s\<lparr>serial_rx := Some (RxFifo ?f')\<rparr>)"
    have "dma_report (of_nat len) \<lparr>ser = s, last_index = l\<rparr> = Inr \<lparr>ser = ?s', last_index = l\<rparr>"
      using assms(1,3) n(1) nz by (simp add: dma_report_def sh isr_rx_dmadone_def dma_opened_def Let_def)
    moreover have "dma_opened ?s' ?f'" "s_config ?s' = s_config s" using assms(1) by (simp_all add: dma_opened_def indicate_def)
    moreover have "dma_ok n ?f'" "put_index ?f' = (put_index f + len) mod n"
      using dma_put_count [OF assms(2,4)] by (simp_all add: Let_def)
    ultimately show ?thesis by blast
  qed
qed

text \<open>Both interrupts move bytes from \<open>in_flight\<close> to the ring; \<open>pos\<close> and \<open>pend\<close> are the DMA state after it.\<close>

lemma dma_inv_report:
  assumes "dma_inv d" "len \<le> in_flight d" "l' < 2 ^ 32" "(unat (last_index (du d)) + len) mod ring_size d = l'"
    and "if pend then dpos d \<le> l' else l' \<le> dpos d"
    and "(if pend then ring_size d - l' + dpos d else dpos d - l') = in_flight d - len"
  shows "\<exists>u. dma_report (of_nat len) ((du d)\<lparr>last_index := of_nat l'\<rparr>) = Inr u \<and> dma_inv (d\<lparr>du := u, dpend := pend\<rparr>) \<and>
    on_wire (d\<lparr>du := u, dpend := pend\<rparr>) = on_wire d"
proof -
  let ?s = "ser (du d)" and ?f = "the_fifo (ser (du d))" and ?n = "ring_size d"
  note i = dma_invD [OF assms(1)]
  have "serial_fifo_calc_recved_len ?n ?f + len \<le> ?n" using i(6) assms(2) by (simp add: queued_def)
  then obtain s' f' where r: "dma_report (of_nat len) \<lparr>ser = ?s, last_index = of_nat l'\<rparr> = Inr \<lparr>ser = s', last_index = of_nat l'\<rparr>"
    "dma_opened s' f'" "s_config s' = s_config ?s" "dma_ok ?n f'" "fbuf f' = fbuf ?f" "get_index f' = get_index ?f"
    "put_index f' = (put_index ?f + len) mod ?n"
    "serial_fifo_calc_recved_len ?n f' = serial_fifo_calc_recved_len ?n ?f + len"
    using dma_report_fifo [OF i(1,2), of len "of_nat l'"] by (auto simp: ring_size_def)
  let ?u = "\<lparr>ser = s', last_index = of_nat l'\<rparr> :: uart"
  let ?d = "d\<lparr>du := ?u, dpend := pend\<rparr>"
  have "unat (of_nat l' :: u32) = l'" using assms(3) by (intro unat_of_nat_small) simp
  moreover have ue: "(du d)\<lparr>last_index := of_nat l'\<rparr> = \<lparr>ser = ?s, last_index = of_nat l'\<rparr>" by simp
  moreover have tf: "the_fifo s' = f'" using r(2) by (simp add: dma_opened_def)
  moreover have rs: "ring_size ?d = ?n" using r(3) by (simp add: ring_size_def)
  ultimately have fl: "in_flight ?d = in_flight d - len" using assms(6) unfolding in_flight_def [of ?d] rs by (cases pend) simp_all
  have w: "queued ?d = queued d" using fl assms(2) r(8) tf rs by (simp add: queued_def)
  have "put_index f' = l'" using r(7) i(3) assms(4) by simp
  then have "dma_inv ?d"
    unfolding dma_inv_def Let_def w rs
    using r tf i assms(5) \<open>unat (of_nat l' :: u32) = l'\<close> by simp
  then show ?thesis using r(1) unfolding ue by (intro exI [of _ ?u]) simp
qed

lemma dma_write_sel [simp]:
  "ring_size (dma_write c d) = ring_size d" "last_index (du (dma_write c d)) = last_index (du d)"
  "dpos (dma_write c d) = (if Suc (dpos d) = ring_size d then 0 else Suc (dpos d))"
  "dpend (dma_write c d) = (dpend d \<or> Suc (dpos d) = ring_size d)"
  "on_wire (dma_write c d) = on_wire d @ [c]" "taken (dma_write c d) = taken d"
  "lost (dma_write c d) = (lost d \<or> queued d \<ge> ring_size d)"
  "the_fifo (ser (du (dma_write c d))) = (the_fifo (ser (du d)))\<lparr>fbuf := (fbuf (the_fifo (ser (du d))))[dpos d := c]\<rparr>"
  "dma_opened (ser (du (dma_write c d))) f' = (f' = the_fifo (ser (du (dma_write c d))) \<and>
     (\<exists>f. dma_opened (ser (du d)\<lparr>serial_rx := Some (RxFifo f)\<rparr>) f))"
  by (auto simp: dma_write_def Let_def ring_size_def dma_opened_def)

lemma dma_inv_write:
  assumes "dma_inv d" "queued d < ring_size d"
  shows "dma_inv (dma_write c d)"
proof -
  define n f l where "n = ring_size d" and "f = the_fifo (ser (du d))" and "l = unat (last_index (du d))"
  note i = dma_invD [OF assms(1), folded n_def f_def l_def]
  have ok: "fifo_ok n f" "length (fbuf f) = n" "put_index f < n" using i(2) by (simp_all add: dma_ok_def fifo_ok_def)
  have wt: "queued d = serial_fifo_calc_recved_len n f + in_flight d" by (simp add: queued_def n_def f_def)
  have fl: "in_flight d = (if dpend d then n - l + dpos d else dpos d - l)" by (simp add: in_flight_def n_def l_def)
  have lt: "queued d < n" using assms(2) by (simp add: n_def)
  have np: "\<not> (dpend d \<and> Suc (dpos d) = n)" using lt wt fl i(8) by auto
  have fl1: "in_flight (dma_write c d) = Suc (in_flight d)"
    unfolding in_flight_def [of "dma_write c d"] dma_write_sel n_def [symmetric] l_def [symmetric] fl using i(5,8) np by auto
  have cn: "serial_fifo_calc_recved_len n (f\<lparr>fbuf := b\<rparr>) = serial_fifo_calc_recved_len n f" for b
    by (simp add: serial_fifo_calc_recved_len_def)
  have w: "queued (dma_write c d) = Suc (queued d)"
    unfolding queued_def [of "dma_write c d"] dma_write_sel n_def [symmetric] f_def [symmetric] cn fl1 wt by simp
  have "(get_index f + queued d) mod n = (put_index f + in_flight d) mod n"
    unfolding wt add.assoc [symmetric] using count_put [OF ok(1)] by (metis mod_add_left_eq)
  also have "\<dots> = dpos d" using i(3-5,8) unfolding fl by auto
  finally have p: "dpos d = (get_index f + queued d) mod n" by simp
  have "ring_bytes n ((fbuf f)[dpos d := c]) (get_index f) (Suc (queued d)) = ring_bytes n (fbuf f) (get_index f) (queued d) @ [c]"
    unfolding p by (rule ring_snoc [OF lt ok(2)])
  moreover have "dma_ok n (f\<lparr>fbuf := (fbuf f)[dpos d := c]\<rparr>)" using i(2) by (simp add: dma_ok_def fifo_ok_def)
  moreover have "if dpend d \<or> Suc (dpos d) = n then (if Suc (dpos d) = n then 0 else Suc (dpos d)) \<le> l
      else l \<le> (if Suc (dpos d) = n then 0 else Suc (dpos d))"
    using i(4,5,8) np lt unfolding wt fl by (auto split: if_splits)
  moreover have "\<exists>f. dma_opened (ser (du d)\<lparr>serial_rx := Some (RxFifo f)\<rparr>) f" using i(1) by (auto simp: dma_opened_def)
  ultimately show ?thesis
    unfolding dma_inv_def Let_def dma_write_sel w n_def [symmetric] f_def [symmetric] l_def [symmetric]
    using i(3,4) lt i(7) by (simp flip: append_assoc split: if_splits)
qed

lemma dma_device_read:
  assumes "dma_opened s f" "bufsz (s_config s) = n" "0 < n"
  shows "rt_device_read chs k s = (if k = 0 then Inr ([], s)
    else and_then (fifo_dma_rx n k f) (\<lambda>(d, f'). Inr (d, s\<lparr>serial_rx := Some (RxFifo f')\<rparr>)))"
proof -
  have s: "serial_rx s = Some (RxFifo f)" "ref_count s \<noteq> 0" "\<not> has_flag (open_flag s) RT_DEVICE_FLAG_INT_RX"
    "has_flag (open_flag s) RT_DEVICE_FLAG_DMA_RX"
    using assms(1) by (simp_all add: dma_opened_def)
  then have "rt_device_read chs k s = (if k = 0 then Inr ([], s)
      else and_then (serial_dma_rx n k (RxFifo f)) (\<lambda>(d, obj'). Inr (d, s\<lparr>serial_rx := Some obj'\<rparr>)))"
    by (simp add: rt_device_read_def rt_serial_read_def Let_def assms(2))
  then show ?thesis using assms(3) by (cases "fifo_dma_rx n k f") (simp_all add: serial_dma_rx_def split_beta)
qed

lemma dma_inv_read:
  assumes "dma_inv d"
  shows "\<exists>s. rt_device_read chs k (ser (du d)) = Inr (take k (unread (ring_size d) (the_fifo (ser (du d)))), s) \<and>
    dma_inv (d\<lparr>du := (du d)\<lparr>ser := s\<rparr>, taken := taken d @ take k (unread (ring_size d) (the_fifo (ser (du d))))\<rparr>)"
proof (cases "k = 0")
  case True
  have "0 < ring_size d" using dma_invD(2) [OF assms] by (simp add: dma_ok_def fifo_ok_def)
  then have "rt_device_read chs k (ser (du d)) = Inr ([], ser (du d))"
    using dma_device_read [OF dma_invD(1) [OF assms]] True by (simp add: ring_size_def)
  then show ?thesis using assms True by (intro exI [of _ "ser (du d)"]) simp
next
  case False
  define n f l where "n = ring_size d" and "f = the_fifo (ser (du d))" and "l = unat (last_index (du d))"
  note i = dma_invD [OF assms(1), folded n_def f_def l_def]
  have n0: "bufsz (s_config (ser (du d))) = n" "0 < n" using i(2) by (simp_all add: n_def ring_size_def dma_ok_def fifo_ok_def)
  obtain f' where f': "fifo_dma_rx n k f = Inr (take k (unread n f), f')" "dma_ok n f'" "unread n f' = drop k (unread n f)"
    "fbuf f' = fbuf f" "put_index f' = put_index f"
    using fifo_dma_rx_queue [OF i(2)] by blast
  define s where "s = (ser (du d))\<lparr>serial_rx := Some (RxFifo f')\<rparr>"
  define e where "e = d\<lparr>du := (du d)\<lparr>ser := s\<rparr>, taken := taken d @ take k (unread n f)\<rparr>"
  have rd: "rt_device_read chs k (ser (du d)) = Inr (take k (unread n f), s)"
    unfolding dma_device_read [OF i(1) n0] s_def using False f'(1) by simp
  have sel: "ring_size e = n" "the_fifo (ser (du e)) = f'" "last_index (du e) = last_index (du d)" "dpos e = dpos d"
    "dpend e = dpend d" "on_wire e = on_wire d" "taken e = taken d @ take k (unread n f)" "dma_opened (ser (du e)) f'"
    using i(1) n0 by (simp_all add: e_def s_def ring_size_def dma_opened_def)
  have fl: "in_flight e = in_flight d" by (simp add: in_flight_def sel n_def)
  define a b where "a = serial_fifo_calc_recved_len n f" and "b = serial_fifo_calc_recved_len n f'"
  have "length (unread n f') = length (unread n f) - k" by (simp add: f'(3))
  then have b: "b = a - k" by (simp add: unread_def a_def b_def)
  have w: "queued d = a + in_flight d" "queued e = b + in_flight d"
    using fl sel by (simp_all add: queued_def n_def f_def a_def b_def)
  have ok: "fifo_ok n f" "fifo_ok n f'" using i(2) f'(2) by (simp_all add: dma_ok_def)
  have q: "ring_bytes n (fbuf g) (get_index g) (serial_fifo_calc_recved_len n g + m) = unread n g @ ring_bytes n (fbuf g) (put_index g) m"
    if "fifo_ok n g" for g m
    unfolding ring_append unread_def count_put [OF that] ..
  have r: "ring_bytes n (fbuf f) (get_index f) (queued d) = take k (unread n f) @ ring_bytes n (fbuf f') (get_index f') (queued e)"
    unfolding w a_def b_def q [OF ok(1)] q [OF ok(2)] unfolding f'(3-5) append_assoc [symmetric] append_take_drop_id ..
  have "taken d @ (take k (unread n f) @ ring_bytes n (fbuf f') (get_index f') (queued e)) = on_wire d"
    using i(7) unfolding r .
  moreover have "queued e \<le> n" using i(6) w b by simp
  ultimately have "dma_inv e"
    unfolding dma_inv_def Let_def sel append_assoc using i(3,4,5) f'(2,5) sel(8) unfolding l_def [symmetric] by simp
  then show ?thesis using rd unfolding e_def n_def f_def by blast
qed

lemma dma_inv_complete:
  assumes "dma_inv d" "dpend d"
  shows "\<exists>u. HAL_UART_RxCpltCallback (du d) = Inr u \<and> dma_inv (d\<lparr>du := u, dpend := False\<rparr>)"
proof -
  define l where "l = unat (last_index (du d))"
  note i = dma_invD [OF assms(1), folded l_def]
  have fl: "in_flight d = ring_size d - l + dpos d" using assms(2) by (simp add: in_flight_def l_def)
  have "of_nat (ring_size d - l) = (of_nat (ring_size d) :: u32) - of_nat l" using i(8) by (simp add: of_nat_diff)
  then have e: "HAL_UART_RxCpltCallback (du d) = dma_report (of_nat (ring_size d - l)) ((du d)\<lparr>last_index := of_nat 0\<rparr>)"
    by (simp add: HAL_UART_RxCpltCallback_def ring_size_def l_def)
  have "(unat (last_index (du d)) + (ring_size d - l)) mod ring_size d = 0" using i(8) by (simp add: l_def)
  then show ?thesis
    using dma_inv_report [OF assms(1), of "ring_size d - l" 0 False] fl unfolding e by auto
qed

lemma dma_inv_idle:
  assumes "dma_inv d" "\<not> dpend d"
  shows "\<exists>u. uart_idle_isr (of_nat (ring_size d - dpos d)) (du d) = Inr u \<and> dma_inv (d\<lparr>du := u\<rparr>) \<and> in_flight (d\<lparr>du := u\<rparr>) = 0"
proof -
  define l where "l = unat (last_index (du d))"
  note i = dma_invD [OF assms(1), folded l_def]
  have fl: "in_flight d = dpos d - l" "l \<le> dpos d" using assms(2) i(5) by (simp_all add: in_flight_def l_def)
  have "of_nat (dpos d - l) = (of_nat (dpos d) :: u32) - of_nat l"
    "of_nat (ring_size d) - (of_nat (ring_size d - dpos d) :: u32) = of_nat (dpos d)"
    using fl(2) i(4) by (simp_all add: of_nat_diff)
  then have e: "uart_idle_isr (of_nat (ring_size d - dpos d)) (du d) =
      dma_report (of_nat (dpos d - l)) ((du d)\<lparr>last_index := of_nat (dpos d)\<rparr>)"
    unfolding uart_idle_isr_def Let_def ring_size_def [symmetric] by (simp add: l_def)
  have m: "(unat (last_index (du d)) + (dpos d - l)) mod ring_size d = dpos d" "dpos d < 2 ^ 32"
    using i(4,9) fl(2) by (simp_all add: l_def)
  obtain u where u: "dma_report (of_nat (dpos d - l)) ((du d)\<lparr>last_index := of_nat (dpos d)\<rparr>) = Inr u"
    "dma_inv (d\<lparr>du := u, dpend := False\<rparr>)"
    using dma_inv_report [OF assms(1) _ m(2,1), of False] fl by auto
  have d: "d\<lparr>du := u, dpend := False\<rparr> = d\<lparr>du := u\<rparr>" using assms(2) by simp
  have "last_index u = of_nat (dpos d)"
    using u(1) by (auto simp: dma_report_def split: if_splits sum.splits)
  moreover have "unat (of_nat (dpos d) :: u32) = dpos d" using m(2) by (intro unat_of_nat_small) simp
  ultimately have "in_flight (d\<lparr>du := u\<rparr>) = 0" using assms(2) by (simp add: in_flight_def)
  then show ?thesis using u d e by simp
qed

lemma dma_report_config: "dma_report k u = Inr u' \<Longrightarrow> s_config (ser u') = s_config (ser u)"
  by (auto simp: dma_report_def isr_rx_dmadone_def indicate_def Let_def split: if_splits option.splits rx_obj.splits)

text \<open>What holds whether bytes were lost or not.\<close>

definition dma_safe :: "dma_sys \<Rightarrow> bool" where
  "dma_safe d \<longleftrightarrow>
     (let n = ring_size d; f = the_fifo (ser (du d)); l = unat (last_index (du d)) in
      dma_opened (ser (du d)) f \<and> dma_ok n f \<and> put_index f = l \<and> dpos d < n \<and> (\<not> dpend d \<longrightarrow> l \<le> dpos d))"

lemma dma_inv_safe: "dma_inv d \<Longrightarrow> dma_safe d"
  by (simp add: dma_inv_def dma_safe_def Let_def)

lemma dma_safeD:
  assumes "dma_safe d"
  shows "dma_opened (ser (du d)) (the_fifo (ser (du d)))" "dma_ok (ring_size d) (the_fifo (ser (du d)))"
    "put_index (the_fifo (ser (du d))) = unat (last_index (du d))" "dpos d < ring_size d"
    "\<not> dpend d \<Longrightarrow> unat (last_index (du d)) \<le> dpos d" "unat (last_index (du d)) < ring_size d" "ring_size d \<le> 32768"
  using assms by (auto simp: dma_safe_def Let_def dma_ok_def fifo_ok_def)

lemma dma_safe_write: "dma_safe d \<Longrightarrow> dma_safe (dma_write c d)"
proof -
  assume a: "dma_safe d"
  note i = dma_safeD [OF a]
  have "dma_ok (ring_size d) ((the_fifo (ser (du d)))\<lparr>fbuf := (fbuf (the_fifo (ser (du d))))[dpos d := c]\<rparr>)"
    using i(2) by (simp add: dma_ok_def fifo_ok_def)
  moreover have "\<exists>f. dma_opened (ser (du d)\<lparr>serial_rx := Some (RxFifo f)\<rparr>) f" using i(1) by (auto simp: dma_opened_def)
  ultimately show ?thesis unfolding dma_safe_def Let_def dma_write_sel using i by auto
qed

lemma dma_safe_report:
  assumes "dma_safe d" "len \<le> ring_size d" "l' < 2 ^ 32" "(unat (last_index (du d)) + len) mod ring_size d = l'" "l' \<le> dpos d"
  shows "\<exists>u. dma_report (of_nat len) ((du d)\<lparr>last_index := of_nat l'\<rparr>) = Inr u \<and> dma_safe (d\<lparr>du := u, dpend := False\<rparr>)"
proof -
  let ?s = "ser (du d)" and ?f = "the_fifo (ser (du d))" and ?n = "ring_size d"
  note i = dma_safeD [OF assms(1)]
  obtain s' f' where r: "dma_report (of_nat len) \<lparr>ser = ?s, last_index = of_nat l'\<rparr> = Inr \<lparr>ser = s', last_index = of_nat l'\<rparr>"
    "dma_opened s' f'" "s_config s' = s_config ?s" "dma_ok ?n f'" "put_index f' = (put_index ?f + len) mod ?n"
    using dma_report_safe [OF i(1,2) _ assms(2), of "of_nat l'"] by (auto simp: ring_size_def)
  let ?u = "\<lparr>ser = s', last_index = of_nat l'\<rparr> :: uart"
  have "unat (of_nat l' :: u32) = l'" using assms(3) by (intro unat_of_nat_small) simp
  moreover have tf: "the_fifo s' = f'" using r(2) by (simp add: dma_opened_def)
  moreover have rs: "ring_size (d\<lparr>du := ?u, dpend := False\<rparr>) = ?n" using r(3) by (simp add: ring_size_def)
  moreover have "put_index f' = l'" using r(5) i(3) assms(4) by simp
  ultimately have "dma_safe (d\<lparr>du := ?u, dpend := False\<rparr>)"
    unfolding dma_safe_def Let_def rs using r(2,4) i(4) assms(5) by simp
  moreover have ue: "(du d)\<lparr>last_index := of_nat l'\<rparr> = \<lparr>ser = ?s, last_index = of_nat l'\<rparr>" by simp
  ultimately show ?thesis unfolding ue using r(1) by blast
qed

lemma dma_safe_complete:
  assumes "dma_safe d"
  shows "\<exists>u. HAL_UART_RxCpltCallback (du d) = Inr u \<and> dma_safe (d\<lparr>du := u, dpend := False\<rparr>)"
proof -
  define l where "l = unat (last_index (du d))"
  note i = dma_safeD [OF assms, folded l_def]
  have "of_nat (ring_size d - l) = (of_nat (ring_size d) :: u32) - of_nat l" using i(6) by (simp add: of_nat_diff)
  then have e: "HAL_UART_RxCpltCallback (du d) = dma_report (of_nat (ring_size d - l)) ((du d)\<lparr>last_index := of_nat 0\<rparr>)"
    by (simp add: HAL_UART_RxCpltCallback_def ring_size_def l_def)
  have "(unat (last_index (du d)) + (ring_size d - l)) mod ring_size d = 0" using i(6) by (simp add: l_def)
  then show ?thesis unfolding e using dma_safe_report [OF assms, of "ring_size d - l" 0] by simp
qed

lemma dma_safe_idle:
  assumes "dma_safe d" "\<not> dpend d"
  shows "\<exists>u. uart_idle_isr (of_nat (ring_size d - dpos d)) (du d) = Inr u \<and> dma_safe (d\<lparr>du := u\<rparr>)"
proof -
  define l where "l = unat (last_index (du d))"
  note i = dma_safeD [OF assms(1), folded l_def]
  have "of_nat (dpos d - l) = (of_nat (dpos d) :: u32) - of_nat l"
    "of_nat (ring_size d) - (of_nat (ring_size d - dpos d) :: u32) = of_nat (dpos d)"
    using i(4) i(5) [OF assms(2)] by (simp_all add: of_nat_diff)
  then have e: "uart_idle_isr (of_nat (ring_size d - dpos d)) (du d) =
      dma_report (of_nat (dpos d - l)) ((du d)\<lparr>last_index := of_nat (dpos d)\<rparr>)"
    unfolding uart_idle_isr_def Let_def ring_size_def [symmetric] by (simp add: l_def)
  have m: "(unat (last_index (du d)) + (dpos d - l)) mod ring_size d = dpos d" "dpos d < 2 ^ 32" "dpos d - l \<le> ring_size d"
    using i(4,7) i(5) [OF assms(2)] by (simp_all add: l_def)
  have "d\<lparr>du := u, dpend := False\<rparr> = d\<lparr>du := u\<rparr>" for u using assms(2) by simp
  then show ?thesis unfolding e using dma_safe_report [OF assms(1) m(3,2,1)] by simp
qed

lemma dma_safe_read:
  assumes "dma_safe d"
  shows "\<exists>bs s. rt_device_read chs k (ser (du d)) = Inr (bs, s) \<and> dma_safe (d\<lparr>du := (du d)\<lparr>ser := s\<rparr>, taken := taken d @ bs\<rparr>) \<and>
    s_config s = s_config (ser (du d))"
proof (cases "k = 0")
  case True
  have "0 < ring_size d" using dma_safeD(2) [OF assms] by (simp add: dma_ok_def fifo_ok_def)
  then have "rt_device_read chs k (ser (du d)) = Inr ([], ser (du d))"
    using dma_device_read [OF dma_safeD(1) [OF assms]] True by (simp add: ring_size_def)
  then show ?thesis using assms by (intro exI [of _ "[]"] exI [of _ "ser (du d)"]) simp
next
  case False
  define n f where "n = ring_size d" and "f = the_fifo (ser (du d))"
  note i = dma_safeD [OF assms, folded n_def f_def]
  have n0: "bufsz (s_config (ser (du d))) = n" "0 < n" using i(2) by (simp_all add: n_def ring_size_def dma_ok_def fifo_ok_def)
  obtain f' where f': "fifo_dma_rx n k f = Inr (take k (unread n f), f')" "dma_ok n f'" "put_index f' = put_index f"
    using fifo_dma_rx_queue [OF i(2)] by blast
  define s where "s = (ser (du d))\<lparr>serial_rx := Some (RxFifo f')\<rparr>"
  define e where "e = d\<lparr>du := (du d)\<lparr>ser := s\<rparr>, taken := taken d @ take k (unread n f)\<rparr>"
  have rd: "rt_device_read chs k (ser (du d)) = Inr (take k (unread n f), s)"
    unfolding dma_device_read [OF i(1) n0] s_def using False f'(1) by simp
  have sel: "ring_size e = n" "the_fifo (ser (du e)) = f'" "last_index (du e) = last_index (du d)" "dpos e = dpos d"
    "dpend e = dpend d" "dma_opened (ser (du e)) f'"
    using i(1) n0 by (simp_all add: e_def s_def ring_size_def dma_opened_def)
  have "dma_safe e" unfolding dma_safe_def Let_def sel using i(3-5) f'(2,3) sel(6) by simp
  then show ?thesis using rd unfolding e_def by (intro exI [of _ "take k (unread n f)"] exI [of _ s]) (simp add: s_def)
qed

lemma dma_config:
  "HAL_UART_RxCpltCallback v = Inr u \<Longrightarrow> s_config (ser u) = s_config (ser v)"
  "uart_idle_isr c v = Inr u \<Longrightarrow> s_config (ser u) = s_config (ser v)"
  unfolding HAL_UART_RxCpltCallback_def uart_idle_isr_def Let_def by (auto dest: dma_report_config)

lemma dma_safe_step: "dma_step d e \<Longrightarrow> dma_safe d \<Longrightarrow> dma_safe e \<and> ring_size e = ring_size d \<and> (lost d \<longrightarrow> lost e)"
proof (induction rule: dma_step.induct)
  case (dma_byte d c)
  then show ?case using dma_safe_write by simp
next
  case (dma_complete d u)
  then show ?case using dma_config(1) [OF dma_complete.hyps(2)] dma_safe_complete [of d] by (auto simp: ring_size_def)
next
  case (dma_idle d u)
  then show ?case using dma_config(2) [OF dma_idle.hyps(2)] dma_safe_idle [of d] by (auto simp: ring_size_def)
next
  case (dma_read chs k d bs s)
  then show ?case using dma_safe_read [of d chs k] by (auto simp: ring_size_def)
qed

lemma dma_inv_step: "dma_step d e \<Longrightarrow> dma_inv d \<Longrightarrow> \<not> lost e \<Longrightarrow> dma_inv e"
proof (induction rule: dma_step.induct)
  case (dma_byte d c)
  then show ?case using dma_inv_write by simp
next
  case (dma_complete d u)
  then show ?case using dma_inv_complete [of d] by auto
next
  case (dma_idle d u)
  then show ?case using dma_inv_idle [of d] by auto
next
  case (dma_read chs k d bs s)
  then show ?case using dma_inv_read [OF dma_read.prems(1), of chs k] by auto
qed

lemma dma_reach:
  "dma_step\<^sup>*\<^sup>* d e \<Longrightarrow> dma_inv d \<Longrightarrow> dma_safe e \<and> ring_size e = ring_size d \<and> (\<not> lost e \<longrightarrow> dma_inv e)"
proof (induction rule: rtranclp_induct)
  case base
  then show ?case using dma_inv_safe by blast
next
  case (step e e')
  then show ?case using dma_safe_step [OF step.hyps(2)] dma_inv_step [OF step.hyps(2)] by auto
qed

text \<open>The controller and the device when \<open>rt_device_open\<close> has returned \<open>s\<close>.\<close>

definition dma_start :: "serial \<Rightarrow> dma_sys" where
  "dma_start s = \<lparr>du = \<lparr>ser = s, last_index = 0\<rparr>, dpos = 0, dpend = False, on_wire = [], taken = [], lost = False\<rparr>"

definition configured :: "serial_configure \<Rightarrow> bool \<Rightarrow> serial" where
  "configured cfg cb = (registered True)\<lparr>s_config := cfg, rx_cb := cb\<rparr>"

lemma fifo_ok_new: "0 < n \<Longrightarrow> n \<le> 32768 \<Longrightarrow> fifo_ok n (new_fifo n)"
  by (simp add: fifo_ok_def new_fifo_def)

lemma dma_open:
  assumes "0 < bufsz cfg"
  shows "\<exists>s. rt_device_open True dma_oflag (configured cfg cb) = Inr (0, s) \<and>
    dma_opened s (new_fifo (bufsz cfg)) \<and> s_config s = cfg"
  using assms
  by (simp add: rt_device_open_def configured_def registered_def rt_serial_init_def rt_serial_open_def open_rx_def open_tx_def
      has_flag_def device_flags set_open_def low_def Let_def dma_opened_def dma_oflag_def)

lemma dma_inv_start:
  assumes "dma_opened s (new_fifo n)" "bufsz (s_config s) = n" "0 < n" "n \<le> 32768"
  shows "dma_inv (dma_start s)"
proof -
  have "the_fifo s = new_fifo n" using assms(1) by (simp add: dma_opened_def)
  moreover have "serial_fifo_calc_recved_len n (new_fifo n) = 0" by (simp add: new_fifo_def serial_fifo_calc_recved_len_def)
  ultimately show ?thesis
    using assms fifo_ok_new [OF assms(3,4)]
    by (simp add: dma_inv_def dma_start_def ring_size_def queued_def in_flight_def dma_ok_def Let_def)
      (simp add: new_fifo_def)
qed

text \<open>C7: Reception by DMA as a stream.  A uart whose ring has between 1 and 32768 bytes is opened for DMA
  reception; bytes come in, the complete interrupt, the idle interrupt and reads of any size happen in any
  order, except that the complete interrupt, which has the higher priority, runs first when both are pending.
  No interrupt and no read goes out of bounds or fails an assertion, even when bytes come in faster than
  they are read.  As long as no byte has come in while the ring was full of bytes to be read, what has been
  read is a prefix of what came in on the wire, and after an idle interrupt one read of the size of the ring
  returns all the rest; once one has, the controller has overwritten bytes to be read and nothing is said
  of the contents.\<close>

theorem dma_stream:
  assumes "0 < bufsz cfg" "bufsz cfg \<le> 32768"
    and "rt_device_open True dma_oflag (configured cfg cb) = Inr (r, s)"
    and "dma_step\<^sup>*\<^sup>* (dma_start s) d"
  shows "r = 0 \<and> (\<exists>bs s'. rt_device_read chs k (ser (du d)) = Inr (bs, s')) \<and>
    (\<not> lost d \<longrightarrow> (\<exists>rest. on_wire d = taken d @ rest)) \<and>
    (if dpend d then \<exists>u. HAL_UART_RxCpltCallback (du d) = Inr u
     else \<exists>u. uart_idle_isr (of_nat (bufsz cfg - dpos d)) (du d) = Inr u \<and>
       (\<exists>bs s'. rt_device_read [] (bufsz cfg) (ser u) = Inr (bs, s') \<and> (\<not> lost d \<longrightarrow> taken d @ bs = on_wire d)))"
proof -
  have o: "r = 0" "dma_opened s (new_fifo (bufsz cfg))" "s_config s = cfg" using dma_open [OF assms(1), of cb] assms(3) by simp_all
  have i: "dma_safe d" "ring_size d = bufsz cfg" "\<not> lost d \<Longrightarrow> dma_inv d"
    using dma_reach [OF assms(4)] dma_inv_start [OF o(2)] assms(1,2) o(3) by (auto simp: dma_start_def ring_size_def)
  have "\<exists>u bs s'. uart_idle_isr (of_nat (bufsz cfg - dpos d)) (du d) = Inr u \<and>
      rt_device_read [] (bufsz cfg) (ser u) = Inr (bs, s') \<and> (\<not> lost d \<longrightarrow> taken d @ bs = on_wire d)" if nd: "\<not> dpend d"
  proof (cases "lost d")
    case True
    obtain u where u: "uart_idle_isr (of_nat (bufsz cfg - dpos d)) (du d) = Inr u" "dma_safe (d\<lparr>du := u\<rparr>)"
      using dma_safe_idle [OF i(1) nd] i(2) by auto
    then show ?thesis using dma_safe_read [OF u(2), of "[]" "bufsz cfg"] True by auto
  next
    case False
    obtain u where u: "uart_idle_isr (of_nat (bufsz cfg - dpos d)) (du d) = Inr u" "dma_inv (d\<lparr>du := u\<rparr>)"
      "in_flight (d\<lparr>du := u\<rparr>) = 0"
      using dma_inv_idle [OF i(3) [OF False] nd] i(2) by auto
    then have n: "ring_size (d\<lparr>du := u\<rparr>) = bufsz cfg"
      using i(2) dma_config(2) [OF u(1)] by (simp add: ring_size_def)
    let ?q = "unread (bufsz cfg) (the_fifo (ser u))"
    have "taken d @ ?q = on_wire d" using dma_invD(7) [OF u(2)] u(3) n by (simp add: unread_def queued_def)
    moreover have "length ?q \<le> bufsz cfg"
      using dma_invD(2) [OF u(2)] n count_le by (simp add: unread_def dma_ok_def)
    ultimately show ?thesis using dma_inv_read [OF u(2), of "[]" "bufsz cfg"] u(1) n by auto
  qed
  moreover have "\<not> lost d \<longrightarrow> (\<exists>rest. on_wire d = taken d @ rest)" using dma_invD(7) [OF i(3)] by (auto intro: sym)
  moreover have "\<exists>bs s'. rt_device_read chs k (ser (du d)) = Inr (bs, s')" using dma_safe_read [OF i(1), of chs k] by auto
  moreover have "\<exists>u. HAL_UART_RxCpltCallback (du d) = Inr u" using dma_safe_complete [OF i(1)] by blast
  ultimately show ?thesis using o(1) by auto
qed

lemma dma_stream_witness:
  "\<exists>s d. rt_device_open True dma_oflag (configured RT_SERIAL_CONFIG_DEFAULT True) = Inr (0, s) \<and>
    dma_step\<^sup>*\<^sup>* (dma_start s) d \<and> on_wire d = [1] \<and> (\<exists>rest. [1] = taken d @ rest)"
proof -
  let ?c = RT_SERIAL_CONFIG_DEFAULT
  have c: "bufsz ?c = 64" by (simp add: RT_SERIAL_CONFIG_DEFAULT_def RT_SERIAL_RB_BUFSZ_def)
  obtain s where s: "rt_device_open True dma_oflag (configured ?c True) = Inr (0, s)"
    "dma_opened s (new_fifo 64)" "s_config s = ?c" using dma_open [of ?c True] c by auto
  let ?d = "dma_write 1 (dma_start s)"
  have f: "the_fifo s = new_fifo 64" using s(2) by (simp add: dma_opened_def)
  have "\<not> lost ?d"
    using s(3) c f by (simp add: queued_def ring_size_def dma_start_def in_flight_def serial_fifo_calc_recved_len_def new_fifo_def)
  moreover have st: "dma_step\<^sup>*\<^sup>* (dma_start s) ?d" by (intro r_into_rtranclp dma_byte)
  moreover have w: "on_wire ?d = [1]" by (simp add: dma_start_def)
  ultimately have "\<exists>rest. on_wire ?d = taken ?d @ rest" using dma_stream [OF _ _ s(1) st] c by simp
  then show ?thesis using s(1) st w by auto
qed

section \<open>After the close\<close>

lemma dma_close:
  assumes "dma_opened s f"
  shows "\<exists>s'. rt_device_close s = Inr (0, s') \<and> serial_rx s' = None \<and> s_config s' = s_config s \<and>
    low_calls s' = low_calls s @ [Control RT_DEVICE_CTRL_CLR_INT RT_DEVICE_FLAG_DMA_RX]"
proof -
  have s: "ref_count s = 1" "open_flag s = dma_oflag OR RT_DEVICE_OFLAG_OPEN" "serial_rx s \<noteq> None"
    using assms by (simp_all add: dma_opened_def)
  have t: "\<not> has_flag ((dma_oflag OR RT_DEVICE_OFLAG_OPEN) AND NOT RT_DEVICE_FLAG_DMA_RX) RT_DEVICE_FLAG_INT_TX"
    "\<not> has_flag ((dma_oflag OR RT_DEVICE_OFLAG_OPEN) AND NOT RT_DEVICE_FLAG_DMA_RX) RT_DEVICE_FLAG_DMA_TX"
    by (simp_all add: has_flag_def dma_oflag_def device_flags)
  show ?thesis using s t
    by (simp add: rt_device_close_def rt_serial_close_def close_rx_def close_tx_def low_def Let_def)
qed

lemma complete_without_ring:
  assumes "serial_rx (ser u) = None" "unat (last_index u) < bufsz (s_config (ser u))" "bufsz (s_config (ser u)) \<le> 32768"
  shows "HAL_UART_RxCpltCallback u = Inl AssertFail"
proof -
  have "unat (of_nat (bufsz (s_config (ser u))) :: u32) = bufsz (s_config (ser u))"
    using assms(3) by (intro unat_of_nat_small) simp
  then have "of_nat (bufsz (s_config (ser u))) \<noteq> last_index u" using assms(2) by auto
  then show ?thesis using assms(1) by (simp add: HAL_UART_RxCpltCallback_def dma_report_def isr_rx_dmadone_def Let_def)
qed

text \<open>A device used with DMA cannot be closed.  When it was opened for DMA reception and is closed again, after any
  traffic, \<open>rt_serial_close\<close> frees the ring and asks the driver to disable the interrupt; the driver disables
  the interrupt of the uart, while the DMA controller goes on writing to the freed ring.  When it comes to
  its end, its interrupt fails the assertion that there is a ring.\<close>

theorem closed_dma_asserts:
  assumes "0 < bufsz cfg" "bufsz cfg \<le> 32768"
    and "rt_device_open True dma_oflag (configured cfg cb) = Inr (r, s)" "dma_step\<^sup>*\<^sup>* (dma_start s) d"
  shows "\<exists>s'. rt_device_close (ser (du d)) = Inr (0, s') \<and> serial_rx s' = None \<and>
    low_calls s' = low_calls (ser (du d)) @ [Control RT_DEVICE_CTRL_CLR_INT RT_DEVICE_FLAG_DMA_RX] \<and>
    HAL_UART_RxCpltCallback ((du d)\<lparr>ser := s'\<rparr>) = Inl AssertFail"
proof -
  have o: "dma_opened s (new_fifo (bufsz cfg))" "s_config s = cfg" using dma_open [OF assms(1), of cb] assms(3) by simp_all
  have "dma_safe d" using dma_reach [OF assms(4)] dma_inv_start [OF o(1)] assms(1,2) o(2) by auto
  note i = dma_safeD [OF this]
  obtain s' where s': "rt_device_close (ser (du d)) = Inr (0, s')" "serial_rx s' = None" "s_config s' = s_config (ser (du d))"
    "low_calls s' = low_calls (ser (du d)) @ [Control RT_DEVICE_CTRL_CLR_INT RT_DEVICE_FLAG_DMA_RX]"
    using dma_close [OF i(1)] by blast
  moreover have "HAL_UART_RxCpltCallback ((du d)\<lparr>ser := s'\<rparr>) = Inl AssertFail"
    using s'(2,3) i(6,7) by (intro complete_without_ring) (simp_all add: ring_size_def)
  ultimately show ?thesis by blast
qed

lemma closed_dma_asserts_witness:
  "\<exists>s s'. rt_device_open True dma_oflag (configured RT_SERIAL_CONFIG_DEFAULT True) = Inr (0, s) \<and>
    rt_device_close s = Inr (0, s') \<and> HAL_UART_RxCpltCallback \<lparr>ser = s', last_index = 0\<rparr> = Inl AssertFail"
proof -
  let ?c = RT_SERIAL_CONFIG_DEFAULT
  have c: "bufsz ?c = 64" by (simp add: RT_SERIAL_CONFIG_DEFAULT_def RT_SERIAL_RB_BUFSZ_def)
  obtain s where s: "rt_device_open True dma_oflag (configured ?c True) = Inr (0, s)" using dma_open [of ?c True] c by auto
  then show ?thesis
    using closed_dma_asserts [of ?c True 0 s "dma_start s"] c by (auto simp: dma_start_def)
qed

end
