(* ===== verification/Serial_Device.thy ===== *)
theory Serial_Device
  imports Serial_Props
begin

text \<open>
  The life of a serial device used in interrupt mode: opens, closes, reads, writes, control commands and
  receive interrupts in any order.  \<open>serial_wf\<close> is what they keep.  The last section shows what happens
  outside this use.
\<close>

section \<open>Flags\<close>

lemma has_flag_or: "has_flag (a OR b) m \<longleftrightarrow> has_flag a m \<or> has_flag b m"
  by (simp add: has_flag_def bit.conj_disj_distrib2 or_eq_0_iff)

lemma has_flag_and_not: "NOT b AND m = m \<Longrightarrow> has_flag (a AND NOT b) m \<longleftrightarrow> has_flag a m"
  by (simp add: has_flag_def and.assoc)

text \<open>A device that can be opened for interrupt reception, by several users.\<close>

definition activated :: "u16 \<Rightarrow> bool" where
  "activated d \<longleftrightarrow> has_flag d RT_DEVICE_FLAG_ACTIVATED"

definition int_device :: "u16 \<Rightarrow> bool" where
  "int_device d \<longleftrightarrow> has_flag d RT_DEVICE_FLAG_INT_RX \<and> \<not> has_flag d RT_DEVICE_FLAG_STANDALONE"

lemma int_device_set:
  "activated (d OR RT_DEVICE_FLAG_ACTIVATED)" "activated (d OR RT_DEVICE_FLAG_SUSPENDED) = activated d"
  "activated (d AND NOT RT_DEVICE_FLAG_SUSPENDED) = activated d"
  "int_device d \<Longrightarrow> int_device (d OR RT_DEVICE_FLAG_ACTIVATED)"
  "int_device d \<Longrightarrow> int_device (d OR RT_DEVICE_FLAG_SUSPENDED)"
  "int_device d \<Longrightarrow> int_device (d AND NOT RT_DEVICE_FLAG_SUSPENDED)"
proof -
  have "has_flag (d AND NOT RT_DEVICE_FLAG_SUSPENDED) RT_DEVICE_FLAG_INT_RX = has_flag d RT_DEVICE_FLAG_INT_RX"
    "has_flag (d AND NOT RT_DEVICE_FLAG_SUSPENDED) RT_DEVICE_FLAG_STANDALONE = has_flag d RT_DEVICE_FLAG_STANDALONE"
    "activated (d AND NOT RT_DEVICE_FLAG_SUSPENDED) = activated d"
    unfolding activated_def
    by (rule has_flag_and_not; simp add: device_flags)+
  then show "int_device d \<Longrightarrow> int_device (d AND NOT RT_DEVICE_FLAG_SUSPENDED)"
    "activated (d AND NOT RT_DEVICE_FLAG_SUSPENDED) = activated d" by (simp_all add: int_device_def)
qed (simp_all add: int_device_def activated_def has_flag_or, simp_all add: has_flag_def device_flags)

section \<open>The invariant\<close>

definition int_oflag :: u16 where
  "int_oflag = RT_DEVICE_OFLAG_RDWR OR RT_DEVICE_FLAG_INT_RX"

definition int_mode :: u16 where
  "int_mode = int_oflag OR RT_DEVICE_OFLAG_OPEN"

definition bufsz_ok :: "nat \<Rightarrow> bool" where
  "bufsz_ok n \<longleftrightarrow> 2 \<le> n \<and> n \<le> 32768"

definition serial_wf :: "serial \<Rightarrow> bool" where
  "serial_wf s \<longleftrightarrow> int_device (dflag s) \<and> bufsz_ok (bufsz (s_config s)) \<and> serial_tx s = None \<and>
     (if ref_count s = 0 then serial_rx s = None \<and> open_flag s = 0 \<and> blocks s = 0
      else (\<exists>f. serial_rx s = Some (RxFifo f) \<and> int_ok (bufsz (s_config s)) f) \<and> open_flag s = int_mode \<and> blocks s = 1 \<and>
        activated (dflag s))"

text \<open>What the application and the hardware do with the device, and the result of it as a number.\<close>

datatype dev_act =
  DOpen bool | DClose | DRead nat | DWrite mem | DControl serial_cmd | DIndicate bool | DInterrupt mem

definition dev_event :: "dev_act \<Rightarrow> serial \<Rightarrow> serial res" where
  "dev_event e s =
     (case e of
        DOpen ok \<Rightarrow> and_then (rt_device_open ok int_oflag s) (\<lambda>(r, s'). Inr s')
      | DClose \<Rightarrow> and_then (rt_device_close s) (\<lambda>(r, s'). Inr s')
      | DRead k \<Rightarrow> and_then (rt_device_read [] k s) (\<lambda>(d, s'). Inr s')
      | DWrite d \<Rightarrow> and_then (rt_device_write d s) (\<lambda>(k, s'). Inr s')
      | DControl c \<Rightarrow> and_then (rt_device_control c s) (\<lambda>(r, k, s'). Inr s')
      | DIndicate cb \<Rightarrow> Inr (snd (rt_device_set_rx_indicate cb s))
      | DInterrupt chs \<Rightarrow> isr_rx_ind chs s)"

text \<open>
  The receive interrupt is enabled from the first open to the last close.  At most 255 opens are
  outstanding, sizes are sensible, and \<open>FIONREAD\<close> is asked of an open device.
\<close>

fun allowed :: "serial \<Rightarrow> dev_act \<Rightarrow> bool" where
  "allowed s (DOpen ok) = (ref_count s \<noteq> 255)"
| "allowed s (DInterrupt chs) = (ref_count s \<noteq> 0)"
| "allowed s (DControl (CtrlConfig (Some p))) = bufsz_ok (bufsz p)"
| "allowed s (DControl CtrlFionread) = (ref_count s \<noteq> 0)"
| "allowed s _ = True"

lemma int_ok_new: "bufsz_ok n \<Longrightarrow> int_ok n (new_fifo n)"
  by (auto simp: int_ok_def bufsz_ok_def fifo_ok_def new_fifo_def)

lemma int_flags [simp]:
  "has_flag int_mode RT_DEVICE_FLAG_INT_RX" "\<not> has_flag int_mode RT_DEVICE_FLAG_DMA_RX"
  "\<not> has_flag int_mode RT_DEVICE_FLAG_INT_TX" "\<not> has_flag int_mode RT_DEVICE_FLAG_DMA_TX"
  "\<not> has_flag int_mode RT_DEVICE_FLAG_STREAM"
  "has_flag int_oflag RT_DEVICE_FLAG_INT_RX" "\<not> has_flag int_oflag RT_DEVICE_FLAG_DMA_RX"
  "\<not> has_flag int_oflag RT_DEVICE_FLAG_INT_TX" "\<not> has_flag int_oflag RT_DEVICE_FLAG_DMA_TX"
  "\<not> has_flag int_oflag RT_DEVICE_FLAG_STREAM"
  by (simp_all add: has_flag_def int_mode_def int_oflag_def device_flags)

text \<open>An open in interrupt mode, first or not.\<close>

lemma open_int:
  assumes "int_device (dflag s)" "serial_tx s = None" "\<not> has_flag (open_flag s) RT_DEVICE_FLAG_STREAM"
  shows "\<exists>s'. rt_serial_open int_oflag s = (0, s') \<and> serial_tx s' = None \<and> dflag s' = dflag s \<and> s_config s' = s_config s \<and>
    ref_count s' = ref_count s \<and> rx_cb s' = rx_cb s \<and> open_flag s' OR RT_DEVICE_OFLAG_OPEN = int_mode \<and>
    (case serial_rx s of
       None \<Rightarrow> serial_rx s' = Some (RxFifo (new_fifo (bufsz (s_config s)))) \<and> blocks s' = blocks s + 1
     | Some obj \<Rightarrow> serial_rx s' = Some obj \<and> blocks s' = blocks s)"
proof -
  have f: "int_oflag AND 0xff OR RT_DEVICE_FLAG_INT_RX OR RT_DEVICE_OFLAG_OPEN = int_mode"
    by (simp add: int_oflag_def int_mode_def device_flags)
  have d: "has_flag (dflag s) RT_DEVICE_FLAG_INT_RX" using assms(1) by (simp add: int_device_def)
  have m: "has_flag (int_oflag AND 0xff OR RT_DEVICE_FLAG_INT_RX) RT_DEVICE_FLAG_STREAM = False"
    by (simp add: has_flag_def int_oflag_def device_flags)
  show ?thesis
    using assms(2,3) d f m
    by (simp add: rt_serial_open_def open_rx_def open_tx_def set_open_def low_def Let_def has_flag_or or.assoc split: option.splits)
qed

lemma wf_open:
  assumes "serial_wf s" "ref_count s \<noteq> 255"
  shows "\<exists>r s'. rt_device_open ok int_oflag s = Inr (r, s') \<and> serial_wf s' \<and>
    (ok \<longrightarrow> r = 0 \<and> ref_count s' = ref_count s + 1 \<and> s_config s' = s_config s \<and> rx_cb s' = rx_cb s \<and>
      (ref_count s = 0 \<longrightarrow> serial_rx s' = Some (RxFifo (new_fifo (bufsz (s_config s))))))"
proof -
  define s1 where "s1 = (if activated (dflag s) then (0, s) else rt_serial_init ok s)"
  have wf1: "serial_wf (snd s1)" "ref_count (snd s1) = ref_count s" "s_config (snd s1) = s_config s" "rx_cb (snd s1) = rx_cb s"
    "ok \<Longrightarrow> fst s1 = 0"
    using assms(1) by (auto simp: s1_def serial_wf_def rt_serial_init_def low_def split: if_splits)
  show ?thesis
  proof (cases "fst s1 = 0")
    case False
    then show ?thesis using wf1
      by (cases "rt_serial_init ok s") (auto simp: rt_device_open_def s1_def activated_def Let_def)
  next
    case True
    define s2 where "s2 = (snd s1)\<lparr>dflag := dflag (snd s1) OR RT_DEVICE_FLAG_ACTIVATED\<rparr>"
    have wf2: "serial_wf s2" "ref_count s2 = ref_count s" "activated (dflag s2)" "s_config s2 = s_config s" "rx_cb s2 = rx_cb s"
      using wf1 by (auto simp: serial_wf_def s2_def int_device_set)
    have sa: "\<not> has_flag (dflag s2) RT_DEVICE_FLAG_STANDALONE" "serial_tx s2 = None" "int_device (dflag s2)"
      "\<not> has_flag (open_flag s2) RT_DEVICE_FLAG_STREAM" "bufsz_ok (bufsz (s_config s2))"
      using wf2(1) by (auto simp: serial_wf_def int_device_def has_flag_def [of 0] split: if_splits)
    obtain s3 where s3: "rt_serial_open int_oflag s2 = (0, s3)" "serial_tx s3 = None" "dflag s3 = dflag s2"
      "s_config s3 = s_config s2" "ref_count s3 = ref_count s2" "rx_cb s3 = rx_cb s2" "open_flag s3 OR RT_DEVICE_OFLAG_OPEN = int_mode"
      "case serial_rx s2 of None \<Rightarrow> serial_rx s3 = Some (RxFifo (new_fifo (bufsz (s_config s2)))) \<and> blocks s3 = blocks s2 + 1
       | Some obj \<Rightarrow> serial_rx s3 = Some obj \<and> blocks s3 = blocks s2"
      using open_int [OF sa(3,2,4)] by blast
    have nz: "ref_count s3 + 1 \<noteq> 0" 
    proof -
      have "(255 :: u8) = - 1" by simp
      then show ?thesis using assms(2) s3(5) wf2(2) by (simp only: eq_neg_iff_add_eq_0 [symmetric]) simp
    qed
    define s4 where "s4 = (set_open RT_DEVICE_OFLAG_OPEN s3)\<lparr>ref_count := ref_count s3 + 1\<rparr>"
    have "(\<exists>f. serial_rx s3 = Some (RxFifo f) \<and> int_ok (bufsz (s_config s2)) f) \<and> blocks s3 = 1"
      using s3(8) wf2(1) int_ok_new [OF sa(5)] by (auto simp: serial_wf_def split: if_splits)
    then have "serial_wf s4" using s3 sa nz wf2(3) by (simp add: serial_wf_def s4_def set_open_def)
    moreover have "rt_device_open ok int_oflag s = Inr (0, s4)"
      using True s3(1) [unfolded s2_def] sa(1) [unfolded s2_def] nz
      by (simp add: rt_device_open_def s1_def [unfolded activated_def, symmetric] split_beta Let_def s4_def)
    moreover have "ref_count s4 = ref_count s + 1" "s_config s4 = s_config s" "rx_cb s4 = rx_cb s"
      "ref_count s = 0 \<Longrightarrow> serial_rx s4 = Some (RxFifo (new_fifo (bufsz (s_config s))))"
      using s3(4-6,8) wf2 by (auto simp: s4_def set_open_def serial_wf_def)
    ultimately show ?thesis by blast
  qed
qed

lemma wf_close:
  assumes "serial_wf s"
  shows "\<exists>r s'. rt_device_close s = Inr (r, s') \<and> serial_wf s'"
proof (cases "ref_count s = 0")
  case False
  then obtain f where f: "serial_rx s = Some (RxFifo f)" "int_ok (bufsz (s_config s)) f" "open_flag s = int_mode" "blocks s = 1"
    "serial_tx s = None" "activated (dflag s)" "int_device (dflag s)" "bufsz_ok (bufsz (s_config s))"
    using assms by (auto simp: serial_wf_def)
  have t: "\<not> has_flag (int_mode AND NOT RT_DEVICE_FLAG_INT_RX) RT_DEVICE_FLAG_INT_TX"
    "\<not> has_flag (int_mode AND NOT RT_DEVICE_FLAG_INT_RX) RT_DEVICE_FLAG_DMA_TX"
    by (simp_all add: has_flag_def int_mode_def int_oflag_def device_flags)
  show ?thesis
  proof (cases "ref_count s - 1 = 0")
    case True
    then show ?thesis using False f t
      by (simp add: rt_device_close_def rt_serial_close_def close_rx_def close_tx_def low_def serial_wf_def Let_def)
  next
    case nz: False
    then show ?thesis using False f by (simp add: rt_device_close_def serial_wf_def Let_def)
  qed
qed (use assms in \<open>simp add: rt_device_close_def\<close>)

lemma wf_read:
  assumes "serial_wf s"
  shows "\<exists>d s'. rt_device_read chs k s = Inr (d, s') \<and> serial_wf s'"
proof (cases "ref_count s = 0 \<or> k = 0")
  case True
  then show ?thesis using assms by (auto simp: rt_device_read_def rt_serial_read_def)
next
  case False
  let ?n = "bufsz (s_config s)"
  obtain f where f: "serial_rx s = Some (RxFifo f)" "int_ok ?n f" "open_flag s = int_mode"
    using assms False by (auto simp: serial_wf_def)
  obtain d f' where f': "serial_int_rx ?n k f = Inr (d, f')" "int_ok ?n f'" using serial_int_rx_queue [OF f(2)] by blast
  have "rt_device_read chs k s = Inr (d, s\<lparr>serial_rx := Some (RxFifo f')\<rparr>)"
    using False f f'(1) by (simp add: rt_device_read_def rt_serial_read_def Let_def)
  then show ?thesis using assms False f'(2) by (simp add: serial_wf_def)
qed

lemma wf_write:
  assumes "serial_wf s"
  shows "\<exists>k s'. rt_device_write d s = Inr (k, s') \<and> serial_wf s'"
proof (cases "ref_count s = 0 \<or> d = []")
  case True
  then show ?thesis using assms by (auto simp: rt_device_write_def rt_serial_write_def)
next
  case False
  then have "open_flag s = int_mode" using assms by (simp add: serial_wf_def)
  then have "rt_device_write d s = Inr (length d, s\<lparr>sent := sent s @ serial_poll_tx False d\<rparr>)"
    using False by (simp add: rt_device_write_def rt_serial_write_def)
  then show ?thesis using assms by (simp add: serial_wf_def)
qed

lemma wf_control:
  assumes "serial_wf s" "allowed s (DControl c)"
  shows "\<exists>r k s'. rt_device_control c s = Inr (r, k, s') \<and> serial_wf s'"
proof (cases c)
  case (CtrlConfig q)
  then show ?thesis
  proof (cases q)
    case (Some p)
    have b: "bufsz_ok (bufsz p)" using assms(2) CtrlConfig Some by simp
    consider "bufsz p \<noteq> bufsz (s_config s)" "ref_count s \<noteq> 0" | "ref_count s = 0"
      | "bufsz p = bufsz (s_config s)" "ref_count s \<noteq> 0" by blast
    then show ?thesis
      using assms(1) CtrlConfig Some b
      by cases (simp_all add: rt_device_control_def rt_serial_control_def serial_wf_def low_def Let_def)
  qed (use assms in \<open>simp add: rt_device_control_def rt_serial_control_def\<close>)
next
  case CtrlFionread
  then obtain f where "serial_rx s = Some (RxFifo f)" using assms by (auto simp: serial_wf_def)
  then show ?thesis using CtrlFionread assms(1) by (simp add: rt_device_control_def rt_serial_control_def)
qed (use assms(1) in \<open>simp_all add: rt_device_control_def rt_serial_control_def serial_wf_def low_def int_device_set\<close>)

lemma wf_interrupt:
  assumes "serial_wf s" "ref_count s \<noteq> 0"
  shows "\<exists>s'. isr_rx_ind chs s = Inr s' \<and> serial_wf s'"
proof -
  let ?n = "bufsz (s_config s)"
  obtain f where f: "serial_rx s = Some (RxFifo f)" "int_ok ?n f" using assms by (auto simp: serial_wf_def)
  obtain f' where f': "isr_puts ?n chs f = Inr f'" "int_ok ?n f'" using isr_puts_queue [OF f(2)] by blast
  show ?thesis using assms f f' by (simp add: isr_rx_ind_def Let_def indicate_def serial_wf_def)
qed

section \<open>Any use of an interrupt device\<close>

lemma wf_event:
  assumes "serial_wf s" "allowed s e"
  shows "\<exists>s'. dev_event e s = Inr s' \<and> serial_wf s'"
proof (cases e)
  case (DOpen ok)
  then obtain r s' where "rt_device_open ok int_oflag s = Inr (r, s')" "serial_wf s'"
    using wf_open [OF assms(1), of ok] assms(2) by auto
  then show ?thesis using DOpen by (simp add: dev_event_def)
next
  case (DControl c)
  then show ?thesis using wf_control assms by (fastforce simp: dev_event_def)
next
  case (DIndicate cb)
  then show ?thesis using assms(1) by (simp add: dev_event_def rt_device_set_rx_indicate_def serial_wf_def)
next
  case (DInterrupt chs)
  then show ?thesis using wf_interrupt assms by (simp add: dev_event_def)
qed (use assms(1) wf_close [OF assms(1)] wf_read [OF assms(1)] wf_write [OF assms(1)] in \<open>fastforce simp: dev_event_def\<close>)+

inductive dev_step :: "serial \<Rightarrow> serial \<Rightarrow> bool" where
  "allowed s e \<Longrightarrow> dev_event e s = Inr s' \<Longrightarrow> dev_step s s'"

lemma wf_reach: "dev_step\<^sup>*\<^sup>* s s' \<Longrightarrow> serial_wf s \<Longrightarrow> serial_wf s'"
proof (induction rule: rtranclp_induct)
  case (step t u)
  then obtain e where "allowed t e" "dev_event e t = Inr u" by (auto elim: dev_step.cases)
  then show ?case using wf_event [of t e] step by auto
qed

lemma serial_wf_registered: "serial_wf (registered b)"
  by (simp add: serial_wf_def registered_def int_device_def has_flag_def device_flags bufsz_ok_def RT_SERIAL_CONFIG_DEFAULT_def
      RT_SERIAL_RB_BUFSZ_def)



section \<open>An open for another use\<close>

text \<open>A user opens the device again without receiving, both close it, and it is configured and opened again.\<close>

definition opened_apart :: "serial_configure \<Rightarrow> serial \<Rightarrow> serial res" where
  "opened_apart p s =
     and_then (rt_device_open True int_oflag s) (\<lambda>(r1, s1).
     and_then (rt_device_open True RT_DEVICE_OFLAG_RDWR s1) (\<lambda>(r2, s2).
     and_then (rt_device_close s2) (\<lambda>(r3, s3).
     and_then (rt_device_close s3) (\<lambda>(r4, s4).
     and_then (rt_device_control (CtrlConfig (Some p)) s4) (\<lambda>(r5, k, s5).
     and_then (rt_device_open True int_oflag s5) (\<lambda>(r6, s6).
       if r1 = 0 \<and> r2 = 0 \<and> r3 = 0 \<and> r4 = 0 \<and> r5 = 0 \<and> r6 = 0 \<and> ref_count s4 = 0 then Inr s6 else Inl AssertFail))))))"

text \<open>A ring shorter than the configured size.\<close>

lemma isr_puts_overrun:
  assumes "length (fbuf f) < m" "m \<le> 32768" "put_index f \<le> length (fbuf f)" "length (fbuf f) < put_index f + length chs"
  shows "isr_puts m chs f = Inl OutOfBounds"
  using assms(3,4) assms(1)
proof (induction chs arbitrary: f)
  case (Cons c chs)
  show ?case
  proof (cases "put_index f = length (fbuf f)")
    case True
    then show ?thesis by (simp add: isr_put_def)
  next
    case False
    let ?f = "f\<lparr>fbuf := (fbuf f)[put_index f := c], put_index := put_index f + 1\<rparr>"
    have "next_index m (put_index f) = put_index f + 1"
      using Cons.prems False assms(2) by (simp add: next_index_def wrap16_def)
    then obtain g where g: "isr_put m c f = Inr g" "put_index g = put_index f + 1" "length (fbuf g) = length (fbuf f)"
      using Cons.prems False by (simp add: isr_put_def Let_def)
    have "isr_puts m chs g = Inl OutOfBounds" using g(2,3) Cons.prems False by (intro Cons.IH) simp_all
    then show ?thesis using g(1) by simp
  qed
qed simp

text \<open>C36: A second user breaks the receiver.  The open of a second user sets the mode of the device to its own flags.
  When it does not receive, the last close frees nothing and leaves the receive interrupt enabled; a larger
  buffer may then be configured, since the device is closed, and the next open for interrupt reception keeps
  the old ring.  All calls succeed, but as soon as more bytes come in than the old ring holds, the interrupt
  handler writes behind it.\<close>

theorem second_user_overruns:
  assumes "bufsz_ok (bufsz cfg)" "bufsz cfg < bufsz p" "bufsz p \<le> 32768"
  shows "\<exists>s. opened_apart p ((registered b)\<lparr>s_config := cfg\<rparr>) = Inr s \<and> ref_count s = 1 \<and> s_config s = p \<and> blocks s = 1 \<and>
    low_calls s = [Configure cfg, Control RT_DEVICE_CTRL_SET_INT RT_DEVICE_FLAG_INT_RX] \<and>
    (length chs > bufsz cfg \<longrightarrow> isr_rx_ind chs s = Inl OutOfBounds)"
proof -
  let ?n = "bufsz cfg"
  obtain s where s: "opened_apart p ((registered b)\<lparr>s_config := cfg\<rparr>) = Inr s" "ref_count s = 1" "s_config s = p" "blocks s = 1"
    "low_calls s = [Configure cfg, Control RT_DEVICE_CTRL_SET_INT RT_DEVICE_FLAG_INT_RX]" "serial_rx s = Some (RxFifo (new_fifo ?n))"
    by (cases b) (simp_all add: opened_apart_def rt_device_open_def rt_device_close_def rt_device_control_def rt_serial_control_def
        registered_def rt_serial_init_def rt_serial_open_def rt_serial_close_def close_rx_def close_tx_def open_rx_def open_tx_def
        has_flag_def int_oflag_def device_flags set_open_def low_def Let_def)
  have "isr_puts (bufsz p) chs (new_fifo ?n) = Inl OutOfBounds" if "length chs > ?n"
    using assms that by (intro isr_puts_overrun) (simp_all add: new_fifo_def)
  then show ?thesis using s by (simp add: isr_rx_ind_def)
qed

lemma second_user_overruns_witness:
  "\<exists>s. opened_apart (RT_SERIAL_CONFIG_DEFAULT\<lparr>bufsz := 1024\<rparr>) ((registered True)\<lparr>s_config := RT_SERIAL_CONFIG_DEFAULT\<rparr>) = Inr s \<and>
     isr_rx_ind (replicate 65 0) s = Inl OutOfBounds"
  using second_user_overruns [of RT_SERIAL_CONFIG_DEFAULT "RT_SERIAL_CONFIG_DEFAULT\<lparr>bufsz := 1024\<rparr>" True "replicate 65 0"]
  by (auto simp: RT_SERIAL_CONFIG_DEFAULT_def RT_SERIAL_RB_BUFSZ_def bufsz_ok_def)

end
