(* ===== verification/Gps_Wire.thy ===== *)
theory Gps_Wire
  imports Gps_Uart Serial_Device
begin

text \<open>
  The positioning thread on its uart: the calls of \<open>gps_init\<close> on the serial driver, and \<open>data_read\<close> on what
  the receive interrupt and the ring deliver.
\<close>

section \<open>The device of \<open>gps.c\<close>\<close>

definition gps_use_config :: serial_configure where
  "gps_use_config = \<lparr>baud_rate = 9600, data_bits = 8, stop_bits = 0, parity = 0, bufsz = 1024\<rparr>"

text \<open>\<open>gps_init\<close> with the results of the driver's calls, each made when the one before has succeeded.\<close>

definition gps_init_on :: "bool \<Rightarrow> serial \<Rightarrow> (int \<times> serial) res" where
  "gps_init_on thread_ok s =
     and_then (rt_device_control (CtrlConfig (Some gps_use_config)) s) (\<lambda>(c1, k1, s1).
       if c1 \<noteq> 0 then and_then (gps_init True c1 0 0 0 thread_ok) (\<lambda>(ops, r). Inr (r, s1))
       else case rt_device_set_rx_indicate True s1 of (x, s2) \<Rightarrow>
         and_then (rt_device_open True int_oflag s2) (\<lambda>(ro, s3).
           if ro \<noteq> 0 then and_then (gps_init True c1 x ro 0 thread_ok) (\<lambda>(ops, r). Inr (r, s3))
           else and_then (rt_device_control (CtrlConfig (Some gps_use_config)) s3) (\<lambda>(c2, k2, s4).
             and_then (gps_init True c1 x ro c2 thread_ok) (\<lambda>(ops, r). Inr (r, s4)))))"

text \<open>
  The traffic: interrupts with the bytes that have come in, and the calls \<open>rt_device_read(uart, 0, &ch, 1)\<close>
  of \<open>uart_getchar\<close>.  The value is what these calls gave.
\<close>

datatype uart_act = Rx mem | Get

fun wire_rx :: "uart_act list \<Rightarrow> serial \<Rightarrow> (rx \<times> serial) res" where
  "wire_rx [] s = Inr ([], s)"
| "wire_rx (Rx chs # w) s = and_then (isr_rx_ind chs s) (wire_rx w)"
| "wire_rx (Get # w) s =
     and_then (rt_device_read [] 1 s) (\<lambda>(d, s1). and_then (wire_rx w s1) (\<lambda>(r, s2).
       Inr ((case d of [] \<Rightarrow> None | c # cs \<Rightarrow> Some c) # r, s2)))"

fun fifo_of :: "uart_act \<Rightarrow> fifo_op" where
  "fifo_of (Rx chs) = Arrive chs"
| "fifo_of Get = Fetch 1"

definition int_opened :: "nat \<Rightarrow> serial \<Rightarrow> rx_fifo \<Rightarrow> bool" where
  "int_opened n s f \<longleftrightarrow> serial_rx s = Some (RxFifo f) \<and> ref_count s \<noteq> 0 \<and> open_flag s = int_mode \<and> bufsz (s_config s) = n"

section \<open>The driver under the thread\<close>

lemma int_opened_isr:
  assumes "int_opened n s f" "isr_puts n chs f = Inr f'"
  shows "\<exists>s'. isr_rx_ind chs s = Inr s' \<and> int_opened n s' f'"
  using assms by (simp add: isr_rx_ind_def int_opened_def indicate_def Let_def)

lemma int_opened_read:
  assumes "int_opened n s f" "serial_int_rx n 1 f = Inr (d, f')"
  shows "\<exists>s'. rt_device_read [] 1 s = Inr (d, s') \<and> int_opened n s' f'"
  using assms by (simp add: rt_device_read_def rt_serial_read_def int_opened_def Let_def)

lemma wire_rx_fifo:
  "int_ok n f \<Longrightarrow> int_opened n s f \<Longrightarrow> run_fifo (isr_puts n) (serial_int_rx n) (map fifo_of w) f = Inr (d, f') \<Longrightarrow>
   \<exists>inp s'. wire_rx w s = Inr (inp, s') \<and> arrived inp = d \<and> int_opened n s' f'"
proof (induction w arbitrary: s f d)
  case (Cons e w)
  show ?case
  proof (cases e)
    case (Rx chs)
    obtain f1 where f1: "isr_puts n chs f = Inr f1" "int_ok n f1" using isr_puts_queue [OF Cons.prems(1)] by blast
    obtain s1 where s1: "isr_rx_ind chs s = Inr s1" "int_opened n s1 f1" using int_opened_isr [OF Cons.prems(2) f1(1)] by blast
    have "run_fifo (isr_puts n) (serial_int_rx n) (map fifo_of w) f1 = Inr (d, f')" using Cons.prems(3) Rx f1(1) by simp
    then show ?thesis using Cons.IH [OF f1(2) s1(2)] Rx s1(1) by simp
  next
    case Get
    obtain f1 where f1: "serial_int_rx n 1 f = Inr (take 1 (unread n f), f1)" "int_ok n f1"
      using serial_int_rx_queue [OF Cons.prems(1)] by blast
    obtain s1 where s1: "rt_device_read [] 1 s = Inr (take 1 (unread n f), s1)" "int_opened n s1 f1"
      using int_opened_read [OF Cons.prems(2) f1(1)] by blast
    obtain d1 where d1: "run_fifo (isr_puts n) (serial_int_rx n) (map fifo_of w) f1 = Inr (d1, f')" "d = take 1 (unread n f) @ d1"
      using Cons.prems(3) Get f1(1) by (auto simp del: serial_int_rx.simps One_nat_def)
    obtain inp s' where w: "wire_rx w s1 = Inr (inp, s')" "arrived inp = d1" "int_opened n s' f'"
      using Cons.IH [OF f1(2) s1(2) d1(1)] by blast
    show ?thesis using Get s1(1) w d1(2) by (cases "unread n f") simp_all
  qed
qed simp

lemma gps_config_ok: "bufsz_ok (bufsz gps_use_config)" "bufsz gps_use_config = 1024"
  by (simp_all add: gps_use_config_def bufsz_ok_def)

lemma gps_init_opens:
  assumes "serial_wf s" "ref_count s = 0"
  shows "\<exists>s'. gps_init_on True s = Inr (0, s') \<and> int_opened 1024 s' (new_fifo 1024) \<and> s_config s' = gps_use_config \<and> rx_cb s'"
proof -
  let ?s2 = "s\<lparr>s_config := gps_use_config, rx_cb := True\<rparr>"
  have "serial_wf ?s2" "ref_count ?s2 \<noteq> 255" using assms gps_config_ok(1) by (simp_all add: serial_wf_def)
  from wf_open [OF this, of True] obtain s3 where s3: "rt_device_open True int_oflag ?s2 = Inr (0, s3)" "serial_wf s3"
    "ref_count s3 = 1" "s_config s3 = gps_use_config" "rx_cb s3" "serial_rx s3 = Some (RxFifo (new_fifo 1024))"
    using assms(2) gps_config_ok(2) by auto
  let ?s4 = "low (Configure gps_use_config) s3"
  have c1: "rt_device_control (CtrlConfig (Some gps_use_config)) s = Inr (0, None, s\<lparr>s_config := gps_use_config\<rparr>)"
    using assms(2) by (simp add: rt_device_control_def rt_serial_control_def)
  have e: "s3\<lparr>s_config := gps_use_config\<rparr> = s3" using s3(4) by simp
  have c2: "rt_device_control (CtrlConfig (Some gps_use_config)) s3 = Inr (0, None, ?s4)"
    by (simp add: rt_device_control_def rt_serial_control_def s3(3,4) e)
  have "gps_init_on True s = Inr (0, ?s4)"
    unfolding gps_init_on_def c1 using s3(1) c2 by (simp add: rt_device_set_rx_indicate_def gps_init_def uart_open_def)
  moreover have "open_flag s3 = int_mode" using s3(2,3) by (simp add: serial_wf_def)
  ultimately show ?thesis using s3 gps_config_ok(2) by (simp add: int_opened_def low_def)
qed

text \<open>C6: A line of positioning data from the wire to the parser.  On a uart that nobody has open, the calls of
  \<open>gps_init\<close> on the serial driver succeed and leave the ring of 1024 bytes at 9600 baud with receive
  interrupts.  Then let bytes come in, by interrupts, and the thread ask for single bytes, in any order in which
  the thread keeps up (\<open>reader_keeps_up 1023\<close>): at no point are more than 1023 bytes waiting.  Under this condition no
  step fails and no byte is lost, and when the thread has been given the first line feed (the line holds no 0
  byte), \<open>data_read\<close> on what it was given leaves in its buffer a terminated string that ends the first line on the
  wire, the whole of it up to 254 bytes, and the bytes behind it are still to come.  A thread that falls
  further behind does lose bytes: the ring then drops the oldest, as \<open>serial_queue\<close> of \<open>Serial_Props\<close> states.\<close>

theorem gps_line_from_wire:
  assumes "serial_wf s" "ref_count s = 0" "reader_keeps_up 1023 (map fifo_of w) []" "fetched 1023 (map fifo_of w) [] = (d, q)"
    and "arrivals (map fifo_of w) = bs @ 0x0A # rest" "0x0A \<notin> set bs" "0 \<notin> set bs" "length bs < length d"
    and "length buff = GPS_DEVICE_RECV_BUFF_LEN"
  shows "\<exists>s1 inp s2 buff' r. gps_init_on True s = Inr (0, s1) \<and> s_config s1 = gps_use_config \<and> wire_rx w s1 = Inr (inp, s2) \<and>
    arrived inp = d \<and> data_read inp buff (int GPS_DEVICE_RECV_BUFF_LEN) = Some (Inr (buff', r)) \<and>
    arrived r @ q = rest \<and> cstring buff' \<and> (\<exists>pre. bs @ [0x0A] = pre @ str_of buff') \<and>
    (if length bs < 255 then str_of buff' = bs @ [0x0A] else length (str_of buff') = Suc (length bs) mod 256)"
proof -
  obtain s1 where s1: "gps_init_on True s = Inr (0, s1)" "int_opened 1024 s1 (new_fifo 1024)" "s_config s1 = gps_use_config"
    using gps_init_opens [OF assms(1,2)] by blast
  have new: "int_ok 1024 (new_fifo 1024)" "unread 1024 (new_fifo 1024) = []" using new_fifo_ok [of 1024] by simp_all
  have "irq.fit_ops (map fifo_of w)" by (simp add: irq.fit_ops_def)
  from irq.run_is_spec [OF new(1) this] obtain f where
    f: "run_fifo (isr_puts 1024) (serial_int_rx 1024) (map fifo_of w) (new_fifo 1024) = Inr (d, f)" "unread 1024 f = q"
    using assms(4) new(2) by auto
  obtain inp s2 where w: "wire_rx w s1 = Inr (inp, s2)" "arrived inp = d" using wire_rx_fifo [OF new(1) s1(2) f(1)] by blast
  have dq: "d @ q = bs @ 0x0A # rest" using fetched_all [OF assms(3,4)] assms(5) by simp
  have "take (Suc (length bs)) d = take (Suc (length bs)) (d @ q)" using assms(8) by simp
  then have "take (Suc (length bs)) d = bs @ [0x0A]" unfolding dq by simp
  then have d: "d = bs @ 0x0A # drop (Suc (length bs)) d"
    using append_take_drop_id [of "Suc (length bs)" d] by (metis append.assoc append_Cons append_Nil)
  then have "bs @ 0x0A # drop (Suc (length bs)) d @ q = bs @ 0x0A # rest" using dq by (metis append.assoc append_Cons)
  then have rr: "drop (Suc (length bs)) d @ q = rest" by simp
  obtain buff' r where b: "data_read inp buff (int GPS_DEVICE_RECV_BUFF_LEN) = Some (Inr (buff', r))" "arrived r = drop (Suc (length bs)) d"
    "cstring buff'" "\<exists>pre. bs @ [0x0A] = pre @ str_of buff'" "length (str_of buff') = Suc (length bs) mod 256"
    using data_read_line [OF d [folded w(2)] assms(6,7,9)] unfolding w(2) by blast
  have "str_of buff' = bs @ [0x0A]" if "length bs < 255"
  proof -
    obtain pre where p: "bs @ [0x0A] = pre @ str_of buff'" using b(4) by blast
    have "length (bs @ [0x0A]) = length pre + length (str_of buff')" unfolding p by simp
    then have "pre = []" using b(5) that by simp
    then show ?thesis using p by simp
  qed
  then show ?thesis using s1(1,3) w b rr by auto
qed

lemma gps_line_from_wire_witness:
  "\<exists>s1 inp s2 buff' r. gps_init_on True (registered True) = Inr (0, s1) \<and>
    wire_rx [Get, Rx [0x24, 0x0A], Get, Get, Rx [0x31], Get] s1 = Inr (inp, s2) \<and>
    data_read inp (replicate 512 0) 512 = Some (Inr (buff', r)) \<and> str_of buff' = [0x24, 0x0A]"
proof -
  let ?w = "[Get, Rx [0x24, 0x0A], Get, Get, Rx [0x31], Get]"
  have s: "serial_wf (registered True)" "ref_count (registered True) = 0" by (rule serial_wf_registered) (simp add: registered_def)
  have w: "reader_keeps_up 1023 (map fifo_of ?w) []" "fetched 1023 (map fifo_of ?w) [] = ([0x24, 0x0A, 0x31], [])"
    "arrivals (map fifo_of ?w) = [0x24] @ 0x0A # [0x31]" by simp_all
  have b: "length (replicate 512 (0 :: u8)) = GPS_DEVICE_RECV_BUFF_LEN" by (simp add: GPS_DEVICE_RECV_BUFF_LEN_def)
  from gps_line_from_wire [OF s w _ _ _ b] show ?thesis
    by (simp add: GPS_DEVICE_RECV_BUFF_LEN_def del: wire_rx.simps) blast
qed

text \<open>The uart of the positioning thread is taken.  When somebody has the uart open, with the ring of another size,
  \<open>gps_init\<close> returns an error after its first call and leaves the device as it is: no thread is started.\<close>

theorem gps_init_taken:
  assumes "ref_count s \<noteq> 0" "bufsz (s_config s) \<noteq> 1024"
  shows "gps_init_on thread_ok s = Inr (1, s)"
  using assms by (simp add: gps_init_on_def rt_device_control_def rt_serial_control_def gps_use_config_def gps_init_def)

end
