(* ===== verification/Netdev.thy ===== *)
theory Netdev
  imports Ip_Addr
begin

text \<open>
  The network interfaces of RT-Thread, \<open>netdev.c\<close>: the list of interfaces and the default one, lookups, the
  calls that go to the driver of an interface, the calls a driver makes when something changed, and the
  commands of the shell that configure interfaces.

  An interface is at an address of the store \<open>devs\<close>, 0 is the null pointer.  The list runs through the
  member \<open>list\<close> of the interfaces, so a loop over it need not end.  Callbacks and calls of the socket
  abstraction layer are recorded; a table of driver operations is a parameter, found under the pointer
  \<open>ops\<close> of the interface.
\<close>

section \<open>Definitions\<close>

subsection \<open>Data\<close>

datatype cb_type =
  NETDEV_CB_ADDR_IP | NETDEV_CB_ADDR_NETMASK | NETDEV_CB_ADDR_GATEWAY | NETDEV_CB_ADDR_DNS_SERVER
| NETDEV_CB_STATUS_UP | NETDEV_CB_STATUS_DOWN | NETDEV_CB_STATUS_LINK_UP | NETDEV_CB_STATUS_LINK_DOWN
| NETDEV_CB_STATUS_INTERNET_UP | NETDEV_CB_STATUS_INTERNET_DOWN | NETDEV_CB_STATUS_DHCP_ENABLE | NETDEV_CB_STATUS_DHCP_DISABLE

text \<open>What of the protocol family of an interface is used here.\<close>

record proto_family =
  family :: int
  sec_family :: int
  skt_ops :: bool

record ndev =
  slist_next :: nat
  name :: mem
  ip_addr :: u32
  netmask :: u32
  gw :: u32
  dns_servers :: "u32 list"
  hw_bytes :: mem
  flags :: u16
  mtu :: u16
  dev_ops :: nat
  status_callback :: nat
  addr_callback :: nat
  sal_user_data :: "proto_family option"
  user_data :: nat

text \<open>An interface all of whose bytes are 0.\<close>

definition zero_dev :: ndev where
  "zero_dev = \<lparr>slist_next = 0, name = replicate 8 0, ip_addr = 0, netmask = 0, gw = 0, dns_servers = [0, 0], hw_bytes = replicate 9 0,
     flags = 0, mtu = 0, dev_ops = 0, status_callback = 0, addr_callback = 0, sal_user_data = None, user_data = 0\<rparr>"

datatype nd_call = StatusCall nat nat cb_type | AddrCall nat nat cb_type | SalCheck nat | SalCleanup nat

record netif =
  devs :: "nat \<Rightarrow> ndev"
  netdev_list :: nat
  netdev_default :: nat
  nd_calls :: "nd_call list"

text \<open>A table of driver operations; \<open>None\<close> for a null pointer.\<close>

record netdev_ops =
  set_up :: "(nat \<Rightarrow> netif \<Rightarrow> int \<times> netif) option"
  set_down :: "(nat \<Rightarrow> netif \<Rightarrow> int \<times> netif) option"
  set_addr_info :: "(nat \<Rightarrow> u32 option \<Rightarrow> u32 option \<Rightarrow> u32 option \<Rightarrow> netif \<Rightarrow> int \<times> netif) option"
  set_dns_server :: "(nat \<Rightarrow> u8 \<Rightarrow> u32 \<Rightarrow> netif \<Rightarrow> int \<times> netif) option"
  set_dhcp :: "(nat \<Rightarrow> bool \<Rightarrow> netif \<Rightarrow> int \<times> netif) option"
  ping :: "(nat \<Rightarrow> mem \<Rightarrow> nat \<Rightarrow> netif \<Rightarrow> int \<times> netif) option"
  netstat :: "(nat \<Rightarrow> netif \<Rightarrow> netif) option"
  set_default :: "(nat \<Rightarrow> netif \<Rightarrow> int \<times> netif) option"

definition NETDEV_FLAG_UP :: u16 where "NETDEV_FLAG_UP = 0x01"
definition NETDEV_FLAG_LINK_UP :: u16 where "NETDEV_FLAG_LINK_UP = 0x04"
definition NETDEV_FLAG_INTERNET_UP :: u16 where "NETDEV_FLAG_INTERNET_UP = 0x80"
definition NETDEV_FLAG_DHCP :: u16 where "NETDEV_FLAG_DHCP = 0x100"
definition NETDEV_DNS_SERVERS_NUM :: nat where "NETDEV_DNS_SERVERS_NUM = 2"

definition netdev_is_up :: "ndev \<Rightarrow> bool" where "netdev_is_up d \<longleftrightarrow> flags d AND NETDEV_FLAG_UP \<noteq> 0"
definition netdev_is_link_up :: "ndev \<Rightarrow> bool" where "netdev_is_link_up d \<longleftrightarrow> flags d AND NETDEV_FLAG_LINK_UP \<noteq> 0"
definition netdev_is_internet_up :: "ndev \<Rightarrow> bool" where "netdev_is_internet_up d \<longleftrightarrow> flags d AND NETDEV_FLAG_INTERNET_UP \<noteq> 0"
definition netdev_is_dhcp_enabled :: "ndev \<Rightarrow> bool" where "netdev_is_dhcp_enabled d \<longleftrightarrow> flags d AND NETDEV_FLAG_DHCP \<noteq> 0"

subsection \<open>The list\<close>

definition setdev :: "nat \<Rightarrow> (ndev \<Rightarrow> ndev) \<Rightarrow> netif \<Rightarrow> netif" where
  "setdev a f w = w\<lparr>devs := (devs w)(a := f (devs w a))\<rparr>"

definition log_call :: "nd_call \<Rightarrow> netif \<Rightarrow> netif" where
  "log_call c w = w\<lparr>nd_calls := nd_calls w @ [c]\<rparr>"

abbreviation nx :: "netif \<Rightarrow> nat \<Rightarrow> nat" where
  "nx w n \<equiv> slist_next (devs w n)"

text \<open>\<open>for (node = p; node; node = rt_slist_next(node)) if (P) return node; return NULL;\<close>\<close>

partial_function (option) find_dev :: "(nat \<Rightarrow> bool res) \<Rightarrow> (nat \<Rightarrow> nat) \<Rightarrow> nat \<Rightarrow> (nat res) option" where
  "find_dev P nxt node =
     (if node = 0 then Some (Inr 0)
      else case P node of
        Inl f \<Rightarrow> Some (Inl f)
      | Inr b \<Rightarrow> if b then Some (Inr node) else find_dev P nxt (nxt node))"

text \<open>The walk of \<open>rt_slist_append\<close> and \<open>rt_slist_remove\<close>: the node whose next is \<open>n\<close>, or the last.\<close>

partial_function (option) walk_to :: "nat \<Rightarrow> (nat \<Rightarrow> nat) \<Rightarrow> nat \<Rightarrow> nat option" where
  "walk_to n nxt node = (if nxt node = 0 \<or> nxt node = n then Some node else walk_to n nxt (nxt node))"

definition rt_slist_append :: "nat \<Rightarrow> nat \<Rightarrow> netif \<Rightarrow> netif option" where
  "rt_slist_append l n w = map_option (\<lambda>node.
     setdev n (\<lambda>d. d\<lparr>slist_next := 0\<rparr>) (setdev node (\<lambda>d. d\<lparr>slist_next := n\<rparr>) w)) (walk_to 0 (nx w) l)"

definition rt_slist_remove :: "nat \<Rightarrow> nat \<Rightarrow> netif \<Rightarrow> netif option" where
  "rt_slist_remove l n w = map_option (\<lambda>node.
     if nx w node \<noteq> 0 then setdev node (\<lambda>d. d\<lparr>slist_next := nx w (nx w node)\<rparr>) w else w) (walk_to n (nx w) l)"

text \<open>\<open>rt_strncmp(cs, ct, count) == 0\<close>\<close>

fun rt_strncmp_eq :: "mem \<Rightarrow> mem \<Rightarrow> nat \<Rightarrow> bool res" where
  "rt_strncmp_eq cs ct 0 = Inr True"
| "rt_strncmp_eq cs ct (Suc n) = and_then (deref cs) (\<lambda>a. and_then (deref ct) (\<lambda>b.
     if a \<noteq> b then Inr False else if a = 0 then Inr True else rt_strncmp_eq (drop 1 cs) (drop 1 ct) n))"

text \<open>
  Registration.  The name is copied without its terminator, as many bytes as it has; writing past
  the 8 bytes of the member is a fault.
\<close>

definition reg_fill :: "mem \<Rightarrow> nat \<Rightarrow> nat \<Rightarrow> ndev \<Rightarrow> ndev" where
  "reg_fill nm n ud d = d\<lparr>flags := flags d AND NOT (NETDEV_FLAG_UP OR NETDEV_FLAG_LINK_UP OR NETDEV_FLAG_INTERNET_UP OR NETDEV_FLAG_DHCP),
     ip_addr := 0, netmask := 0, gw := 0, dns_servers := replicate NETDEV_DNS_SERVERS_NUM 0, status_callback := 0, addr_callback := 0,
     name := take n nm @ drop n (name d), user_data := ud, slist_next := 0\<rparr>"

definition netdev_register :: "nat \<Rightarrow> mem \<Rightarrow> nat \<Rightarrow> netif \<Rightarrow> ((int \<times> netif) res) option" where
  "netdev_register a nm ud w =
     (if a = 0 then Some (Inl AssertFail)
      else case strlen nm of
        Inl f \<Rightarrow> Some (Inl f)
      | Inr n \<Rightarrow>
          if n > 8 then Some (Inl OutOfBounds)
          else let w1 = setdev a (reg_fill nm n ud) w
               in if netdev_list w1 = 0 then Some (Inr (0, w1\<lparr>netdev_list := a, netdev_default := a\<rparr>))
                  else map_option (\<lambda>w2. Inr (0, w2)) (rt_slist_append (netdev_list w1) a w1))"

definition netdev_unregister :: "nat \<Rightarrow> netif \<Rightarrow> ((int \<times> netif) res) option" where
  "netdev_unregister a w =
     (if a = 0 then Some (Inl AssertFail)
      else if netdev_list w = 0 then Some (Inr (- 1, w))
      else case find_dev (\<lambda>n. Inr (n = a)) (nx w) (netdev_list w) of
        None \<Rightarrow> None
      | Some (Inl f) \<Rightarrow> Some (Inl f)
      | Some (Inr n) \<Rightarrow>
          if n \<noteq> a then Some (Inr (- 1, w))
          else map_option (\<lambda>w1.
                 let w2 = (if netdev_default w1 = a then w1\<lparr>netdev_default := netdev_list w1\<rparr> else w1)
                 in Inr (- 1, setdev a (\<lambda>d. zero_dev) (log_call (SalCleanup a) w2)))
               (if netdev_list w = a \<and> nx w (netdev_list w) = 0 then Some (w\<lparr>netdev_list := 0\<rparr>)
                else rt_slist_remove (netdev_list w) a w))"

subsection \<open>Lookups\<close>

definition netdev_get_first_by_flags :: "u16 \<Rightarrow> netif \<Rightarrow> (nat res) option" where
  "netdev_get_first_by_flags msk w = find_dev (\<lambda>n. Inr (flags (devs w n) AND msk \<noteq> 0)) (nx w) (netdev_list w)"

definition netdev_get_by_ipaddr :: "u32 \<Rightarrow> netif \<Rightarrow> (nat res) option" where
  "netdev_get_by_ipaddr ip w = find_dev (\<lambda>n. Inr (ip_addr (devs w n) = ip)) (nx w) (netdev_list w)"

definition name_matches :: "mem \<Rightarrow> ndev \<Rightarrow> bool res" where
  "name_matches nm d = and_then (strlen (name d)) (\<lambda>n. rt_strncmp_eq (name d) nm n)"

definition netdev_get_by_name :: "mem \<Rightarrow> netif \<Rightarrow> (nat res) option" where
  "netdev_get_by_name nm w = find_dev (\<lambda>n. name_matches nm (devs w n)) (nx w) (netdev_list w)"

definition serves :: "(proto_family \<Rightarrow> int) \<Rightarrow> int \<Rightarrow> ndev \<Rightarrow> bool" where
  "serves which fam d \<longleftrightarrow> (case sal_user_data d of None \<Rightarrow> False | Some pf \<Rightarrow> skt_ops pf \<and> which pf = fam \<and> netdev_is_up d)"

definition netdev_get_by_family :: "int \<Rightarrow> netif \<Rightarrow> (nat res) option" where
  "netdev_get_by_family fam w =
     (case find_dev (\<lambda>n. Inr (serves family fam (devs w n))) (nx w) (netdev_list w) of
        Some (Inr 0) \<Rightarrow> find_dev (\<lambda>n. Inr (serves sec_family fam (devs w n))) (nx w) (netdev_list w)
      | r \<Rightarrow> r)"

definition netdev_family_get :: "nat \<Rightarrow> netif \<Rightarrow> int res" where
  "netdev_family_get a w =
     (if a = 0 then Inl AssertFail else case sal_user_data (devs w a) of None \<Rightarrow> Inl NullDeref | Some pf \<Rightarrow> Inr (family pf))"

subsection \<open>Calls of the user, which go to the driver\<close>

text \<open>\<open>netdev->ops && netdev->ops->f\<close>\<close>

definition op_of :: "(nat \<Rightarrow> netdev_ops) \<Rightarrow> (netdev_ops \<Rightarrow> 'f option) \<Rightarrow> nat \<Rightarrow> netif \<Rightarrow> 'f option" where
  "op_of T sel a w = (if dev_ops (devs w a) = 0 then None else sel (T (dev_ops (devs w a))))"

definition netdev_set_default :: "(nat \<Rightarrow> netdev_ops) \<Rightarrow> nat \<Rightarrow> netif \<Rightarrow> netif res" where
  "netdev_set_default T a w =
     (if a = 0 then Inr w
      else let w1 = w\<lparr>netdev_default := a\<rparr>
           in if dev_ops (devs w1 a) = 0 then Inl NullDeref
              else case set_default (T (dev_ops (devs w1 a))) of None \<Rightarrow> Inr w1 | Some f \<Rightarrow> Inr (snd (f a w1)))"

definition netdev_set_up :: "(nat \<Rightarrow> netdev_ops) \<Rightarrow> nat \<Rightarrow> netif \<Rightarrow> (int \<times> netif) res" where
  "netdev_set_up T a w =
     (if a = 0 then Inl AssertFail
      else case op_of T set_up a w of
        None \<Rightarrow> Inr (- 1, w)
      | Some f \<Rightarrow> if netdev_is_up (devs w a) then Inr (0, w) else Inr (f a w))"

definition netdev_set_down :: "(nat \<Rightarrow> netdev_ops) \<Rightarrow> nat \<Rightarrow> netif \<Rightarrow> (int \<times> netif) res" where
  "netdev_set_down T a w =
     (if a = 0 then Inl AssertFail
      else case op_of T set_down a w of
        None \<Rightarrow> Inr (- 1, w)
      | Some f \<Rightarrow> if \<not> netdev_is_up (devs w a) then Inr (0, w) else Inr (f a w))"

definition netdev_dhcp_enabled :: "(nat \<Rightarrow> netdev_ops) \<Rightarrow> nat \<Rightarrow> bool \<Rightarrow> netif \<Rightarrow> (int \<times> netif) res" where
  "netdev_dhcp_enabled T a is_enabled w =
     (if a = 0 then Inl AssertFail
      else case op_of T set_dhcp a w of
        None \<Rightarrow> Inr (- 1, w)
      | Some f \<Rightarrow> if netdev_is_dhcp_enabled (devs w a) = is_enabled then Inr (0, w) else Inr (f a is_enabled w))"

definition set_addr :: "(nat \<Rightarrow> netdev_ops) \<Rightarrow> nat \<Rightarrow> u32 option \<Rightarrow> u32 option \<Rightarrow> u32 option \<Rightarrow> netif \<Rightarrow> (int \<times> netif) res" where
  "set_addr T a ip nm g w =
     (if a = 0 then Inl AssertFail
      else case op_of T set_addr_info a w of
        None \<Rightarrow> Inr (- 1, w)
      | Some f \<Rightarrow> if netdev_is_dhcp_enabled (devs w a) then Inr (- 1, w) else Inr (f a ip nm g w))"

definition netdev_set_ipaddr :: "(nat \<Rightarrow> netdev_ops) \<Rightarrow> nat \<Rightarrow> u32 \<Rightarrow> netif \<Rightarrow> (int \<times> netif) res" where
  "netdev_set_ipaddr T a ip = set_addr T a (Some ip) None None"

definition netdev_set_netmask :: "(nat \<Rightarrow> netdev_ops) \<Rightarrow> nat \<Rightarrow> u32 \<Rightarrow> netif \<Rightarrow> (int \<times> netif) res" where
  "netdev_set_netmask T a m = set_addr T a None (Some m) None"

definition netdev_set_gw :: "(nat \<Rightarrow> netdev_ops) \<Rightarrow> nat \<Rightarrow> u32 \<Rightarrow> netif \<Rightarrow> (int \<times> netif) res" where
  "netdev_set_gw T a g = set_addr T a None None (Some g)"

text \<open>The address is \<open>None\<close> when what the pointer refers to was never assigned.\<close>

definition netdev_set_dns_server :: "(nat \<Rightarrow> netdev_ops) \<Rightarrow> nat \<Rightarrow> u8 \<Rightarrow> u32 option \<Rightarrow> netif \<Rightarrow> (int \<times> netif) res" where
  "netdev_set_dns_server T a dns_num dns_server w =
     (if a = 0 then Inl AssertFail
      else if unat dns_num \<ge> NETDEV_DNS_SERVERS_NUM then Inr (- 1, w)
      else case op_of T set_dns_server a w of
        None \<Rightarrow> Inr (- 1, w)
      | Some f \<Rightarrow> (case dns_server of None \<Rightarrow> Inl UninitRead | Some s \<Rightarrow> Inr (f a dns_num s w)))"

definition netdev_set_status_callback :: "nat \<Rightarrow> nat \<Rightarrow> netif \<Rightarrow> netif res" where
  "netdev_set_status_callback a cb w = (if a = 0 \<or> cb = 0 then Inl AssertFail else Inr (setdev a (\<lambda>d. d\<lparr>status_callback := cb\<rparr>) w))"

definition netdev_set_addr_callback :: "nat \<Rightarrow> nat \<Rightarrow> netif \<Rightarrow> netif res" where
  "netdev_set_addr_callback a cb w = (if a = 0 \<or> cb = 0 then Inl AssertFail else Inr (setdev a (\<lambda>d. d\<lparr>addr_callback := cb\<rparr>) w))"

subsection \<open>Calls of the driver\<close>

definition status_call :: "nat \<Rightarrow> cb_type \<Rightarrow> netif \<Rightarrow> netif" where
  "status_call a t w = (if status_callback (devs w a) \<noteq> 0 then log_call (StatusCall (status_callback (devs w a)) a t) w else w)"

definition addr_call :: "nat \<Rightarrow> cb_type \<Rightarrow> netif \<Rightarrow> netif" where
  "addr_call a t w = (if addr_callback (devs w a) \<noteq> 0 then log_call (AddrCall (addr_callback (devs w a)) a t) w else w)"

definition sal_check :: "bool \<Rightarrow> nat \<Rightarrow> netif \<Rightarrow> netif" where
  "sal_check c a w = (if c then log_call (SalCheck a) w else w)"

definition netdev_low_level_set_ipaddr :: "nat \<Rightarrow> u32 \<Rightarrow> netif \<Rightarrow> netif" where
  "netdev_low_level_set_ipaddr a ip w =
     (if a \<noteq> 0 \<and> ip_addr (devs w a) \<noteq> ip
      then let w1 = setdev a (\<lambda>d. d\<lparr>ip_addr := ip\<rparr>) w
           in addr_call a NETDEV_CB_ADDR_IP (sal_check (netdev_is_up (devs w1 a) \<and> netdev_is_link_up (devs w1 a)) a w1)
      else w)"

definition netdev_low_level_set_netmask :: "nat \<Rightarrow> u32 \<Rightarrow> netif \<Rightarrow> netif" where
  "netdev_low_level_set_netmask a m w =
     (if a \<noteq> 0 \<and> netmask (devs w a) \<noteq> m
      then let w1 = setdev a (\<lambda>d. d\<lparr>netmask := m\<rparr>) w
           in addr_call a NETDEV_CB_ADDR_NETMASK
                (sal_check (netdev_is_up (devs w1 a) \<and> netdev_is_link_up (devs w1 a) \<and> ip_addr (devs w1 a) \<noteq> 0) a w1)
      else w)"

definition netdev_low_level_set_gw :: "nat \<Rightarrow> u32 \<Rightarrow> netif \<Rightarrow> netif" where
  "netdev_low_level_set_gw a g w =
     (if a \<noteq> 0 \<and> gw (devs w a) \<noteq> g
      then let w1 = setdev a (\<lambda>d. d\<lparr>gw := g\<rparr>) w
           in addr_call a NETDEV_CB_ADDR_GATEWAY
                (sal_check (netdev_is_up (devs w1 a) \<and> netdev_is_link_up (devs w1 a) \<and> ip_addr (devs w1 a) \<noteq> 0) a w1)
      else w)"

definition netdev_low_level_set_dns_server :: "nat \<Rightarrow> u8 \<Rightarrow> u32 \<Rightarrow> netif \<Rightarrow> netif" where
  "netdev_low_level_set_dns_server a dns_num s w =
     (if a = 0 \<or> s \<in> set (dns_servers (devs w a)) then w
      else if unat dns_num < NETDEV_DNS_SERVERS_NUM
      then addr_call a NETDEV_CB_ADDR_DNS_SERVER (setdev a (\<lambda>d. d\<lparr>dns_servers := (dns_servers d)[unat dns_num := s]\<rparr>) w)
      else w)"

text \<open>\<open>rt_memcmp\<close> compares what the two pointers refer to.\<close>

definition netdev_auto_change_default :: "(nat \<Rightarrow> netdev_ops) \<Rightarrow> nat \<Rightarrow> netif \<Rightarrow> (netif res) option" where
  "netdev_auto_change_default T a w =
     (if netdev_default w = 0 then Some (Inl NullDeref)
      else if devs w a = devs w (netdev_default w)
      then (case netdev_get_first_by_flags NETDEV_FLAG_LINK_UP w of
              None \<Rightarrow> None
            | Some (Inl f) \<Rightarrow> Some (Inl f)
            | Some (Inr n) \<Rightarrow> Some (if n \<noteq> 0 then netdev_set_default T n w else Inr w))
      else Some (Inr w))"

definition set_flag :: "nat \<Rightarrow> u16 \<Rightarrow> netif \<Rightarrow> netif" where
  "set_flag a msk = setdev a (\<lambda>d. d\<lparr>flags := flags d OR msk\<rparr>)"

definition clear_flag :: "nat \<Rightarrow> u16 \<Rightarrow> netif \<Rightarrow> netif" where
  "clear_flag a msk = setdev a (\<lambda>d. d\<lparr>flags := flags d AND NOT msk\<rparr>)"

definition netdev_low_level_set_status :: "(nat \<Rightarrow> netdev_ops) \<Rightarrow> nat \<Rightarrow> bool \<Rightarrow> netif \<Rightarrow> (netif res) option" where
  "netdev_low_level_set_status T a upv w =
     (if a \<noteq> 0 \<and> netdev_is_up (devs w a) \<noteq> upv
      then map_option (\<lambda>r. and_then r (\<lambda>w1. Inr (status_call a (if upv then NETDEV_CB_STATUS_UP else NETDEV_CB_STATUS_DOWN) w1)))
             (if upv then Some (Inr (set_flag a NETDEV_FLAG_UP w)) else netdev_auto_change_default T a (clear_flag a NETDEV_FLAG_UP w))
      else Some (Inr w))"

definition netdev_low_level_set_link_status :: "(nat \<Rightarrow> netdev_ops) \<Rightarrow> nat \<Rightarrow> bool \<Rightarrow> netif \<Rightarrow> (netif res) option" where
  "netdev_low_level_set_link_status T a upv w =
     (if a \<noteq> 0 \<and> netdev_is_link_up (devs w a) \<noteq> upv
      then map_option (\<lambda>r. and_then r (\<lambda>w1. Inr (status_call a (if upv then NETDEV_CB_STATUS_LINK_UP else NETDEV_CB_STATUS_LINK_DOWN) w1)))
             (if upv
              then let w1 = set_flag a NETDEV_FLAG_LINK_UP w
                   in Some (Inr (sal_check (netdev_is_up (devs w1 a) \<and> ip_addr (devs w1 a) \<noteq> 0) a w1))
              else netdev_auto_change_default T a (clear_flag a NETDEV_FLAG_INTERNET_UP (clear_flag a NETDEV_FLAG_LINK_UP w)))
      else Some (Inr w))"

definition netdev_low_level_set_dhcp_status :: "nat \<Rightarrow> bool \<Rightarrow> netif \<Rightarrow> netif" where
  "netdev_low_level_set_dhcp_status a is_enable w =
     (if a \<noteq> 0 \<and> netdev_is_dhcp_enabled (devs w a) \<noteq> is_enable
      then status_call a (if is_enable then NETDEV_CB_STATUS_DHCP_ENABLE else NETDEV_CB_STATUS_DHCP_DISABLE)
             (if is_enable then set_flag a NETDEV_FLAG_DHCP w else clear_flag a NETDEV_FLAG_DHCP w)
      else w)"

subsection \<open>Commands of the shell\<close>

text \<open>The commands list, print and call; what they print is left out.  With a lookup first:\<close>

definition with_dev :: "(nat res) option \<Rightarrow> (nat \<Rightarrow> (netif res) option) \<Rightarrow> netif \<Rightarrow> (netif res) option" where
  "with_dev r k w =
     (case r of None \<Rightarrow> None | Some (Inl f) \<Rightarrow> Some (Inl f) | Some (Inr n) \<Rightarrow> if n = 0 then Some (Inr w) else k n)"

text \<open>One of the three texts of \<open>ifconfig\<close>.\<close>

definition set_if_addr :: "(u32 \<Rightarrow> netif \<Rightarrow> (int \<times> netif) res) \<Rightarrow> mem option \<Rightarrow> netif \<Rightarrow> netif res" where
  "set_if_addr f t w =
     (case t of
        None \<Rightarrow> Inr w
      | Some t \<Rightarrow> and_then (netdev_ip4addr_aton t) (\<lambda>r. case r of
            None \<Rightarrow> Inr w
          | Some x \<Rightarrow> and_then (f x w) (\<lambda>(e, w'). Inr w')))"

definition netdev_set_if :: "(nat \<Rightarrow> netdev_ops) \<Rightarrow> mem \<Rightarrow> mem option \<Rightarrow> mem option \<Rightarrow> mem option \<Rightarrow> netif \<Rightarrow> (netif res) option" where
  "netdev_set_if T nm ip gwt nmask w =
     with_dev (netdev_get_by_name nm w) (\<lambda>a. Some
       (and_then (set_if_addr (netdev_set_ipaddr T a) ip w) (\<lambda>w1.
        and_then (set_if_addr (netdev_set_gw T a) gwt w1) (\<lambda>w2. set_if_addr (netdev_set_netmask T a) nmask w2)))) w"

definition netdev_ifconfig :: "(nat \<Rightarrow> netdev_ops) \<Rightarrow> mem list \<Rightarrow> netif \<Rightarrow> (netif res) option" where
  "netdev_ifconfig T argv w =
     (if length argv = 5 then netdev_set_if T (argv ! 1) (Some (argv ! 2)) (Some (argv ! 3)) (Some (argv ! 4)) w else Some (Inr w))"

definition NETDEV_PING_IS_COMMONICABLE :: "(nat \<Rightarrow> netdev_ops) \<Rightarrow> nat \<Rightarrow> netif \<Rightarrow> bool" where
  "NETDEV_PING_IS_COMMONICABLE T a w \<longleftrightarrow>
     a \<noteq> 0 \<and> op_of T ping a w \<noteq> None \<and> netdev_is_up (devs w a) \<and> netdev_is_link_up (devs w a)"

fun ping_times :: "(nat \<Rightarrow> netdev_ops) \<Rightarrow> nat \<Rightarrow> nat \<Rightarrow> mem \<Rightarrow> nat \<Rightarrow> netif \<Rightarrow> netif res" where
  "ping_times T 0 a target n w = Inr w"
| "ping_times T (Suc k) a target n w =
     (case op_of T ping a w of None \<Rightarrow> Inl NullDeref | Some f \<Rightarrow> ping_times T k a target n (snd (f a target n w)))"

definition netdev_cmd_ping :: "(nat \<Rightarrow> netdev_ops) \<Rightarrow> mem \<Rightarrow> nat \<Rightarrow> nat \<Rightarrow> netif \<Rightarrow> ((int \<times> netif) res) option" where
  "netdev_cmd_ping T target cnt n w =
     (let n' = (if n = 0 then 32 else n); go = (\<lambda>a. and_then (ping_times T cnt a target n' w) (\<lambda>w'. Inr (0, w')))
      in if NETDEV_PING_IS_COMMONICABLE T (netdev_default w) w then Some (go (netdev_default w))
         else case netdev_get_first_by_flags NETDEV_FLAG_LINK_UP w of
           None \<Rightarrow> None
         | Some (Inl f) \<Rightarrow> Some (Inl f)
         | Some (Inr a) \<Rightarrow> if \<not> NETDEV_PING_IS_COMMONICABLE T a w then Some (Inr (- 1, w)) else Some (go a))"

definition netdev_ping :: "(nat \<Rightarrow> netdev_ops) \<Rightarrow> mem list \<Rightarrow> netif \<Rightarrow> (netif res) option" where
  "netdev_ping T argv w =
     (if length argv = 1 then Some (Inr w)
      else map_option (\<lambda>r. and_then r (\<lambda>(e, w'). Inr w')) (netdev_cmd_ping T (argv ! 1) 4 0 w))"

text \<open>The value of \<open>inet_aton\<close> is not looked at; without an address \<open>dns_addr\<close> stays unassigned.\<close>

definition netdev_set_dns :: "(nat \<Rightarrow> netdev_ops) \<Rightarrow> mem \<Rightarrow> u8 \<Rightarrow> mem \<Rightarrow> netif \<Rightarrow> (netif res) option" where
  "netdev_set_dns T nm dns_num server w =
     with_dev (netdev_get_by_name nm w) (\<lambda>a. Some
       (and_then (netdev_ip4addr_aton server) (\<lambda>r. and_then (netdev_set_dns_server T a dns_num r w) (\<lambda>(e, w'). Inr w')))) w"

definition netdev_dns :: "(nat \<Rightarrow> netdev_ops) \<Rightarrow> mem list \<Rightarrow> netif \<Rightarrow> (netif res) option" where
  "netdev_dns T argv w =
     (if length argv = 3 then netdev_set_dns T (argv ! 1) 0 (argv ! 2) w
      else if length argv = 4
      then (case strtol (argv ! 2) of Inl f \<Rightarrow> Some (Inl f) | Inr (v, q) \<Rightarrow> netdev_set_dns T (argv ! 1) (of_int v) (argv ! 3) w)
      else Some (Inr w))"

text \<open>\<open>netdev\<close> is the first interface with the operation, or the last of the list.\<close>

definition netdev_cmd_netstat :: "(nat \<Rightarrow> netdev_ops) \<Rightarrow> netif \<Rightarrow> (netif res) option" where
  "netdev_cmd_netstat T w =
     (if netdev_list w = 0 then Some (Inr w)
      else let call = (\<lambda>a. if dev_ops (devs w a) = 0 then Inl NullDeref
                 else case netstat (T (dev_ops (devs w a))) of None \<Rightarrow> Inr w | Some f \<Rightarrow> Inr (f a w))
           in case find_dev (\<lambda>n. Inr (op_of T netstat n w \<noteq> None)) (nx w) (netdev_list w) of
                None \<Rightarrow> None
              | Some (Inl f) \<Rightarrow> Some (Inl f)
              | Some (Inr a) \<Rightarrow> if a \<noteq> 0 then Some (call a) else map_option call (walk_to 0 (nx w) (netdev_list w)))"

definition netdev_netstat :: "(nat \<Rightarrow> netdev_ops) \<Rightarrow> mem list \<Rightarrow> netif \<Rightarrow> (netif res) option" where
  "netdev_netstat T argv w = (if length argv \<noteq> 1 then Some (Inr w) else netdev_cmd_netstat T w)"

end
