(* ===== verification/Netdev_Props.thy ===== *)
theory Netdev_Props
  imports Netdev
begin

text \<open>
  The list of interfaces as a list of addresses: \<open>chain\<close> relates the linked list to it, \<open>net_inv\<close> is what
  every call keeps, \<open>net_step\<close> runs the calls of drivers and users in any order.
\<close>

section \<open>Linked lists\<close>

fun chain :: "(nat \<Rightarrow> nat) \<Rightarrow> nat \<Rightarrow> nat list \<Rightarrow> bool" where
  "chain f p [] \<longleftrightarrow> p = 0"
| "chain f p (x # xs) \<longleftrightarrow> p = x \<and> x \<noteq> 0 \<and> chain f (f x) xs"

text \<open>The first of a list of addresses with a property, 0 when there is none.\<close>

fun first_dev :: "(nat \<Rightarrow> bool) \<Rightarrow> nat list \<Rightarrow> nat" where
  "first_dev Q [] = 0"
| "first_dev Q (x # xs) = (if Q x then x else first_dev Q xs)"

lemma chain_cong: "(\<And>x. x \<in> set xs \<Longrightarrow> f x = g x) \<Longrightarrow> chain f p xs \<longleftrightarrow> chain g p xs"
  by (induction xs arbitrary: p) auto

lemma chain_upd [simp]: "a \<notin> set xs \<Longrightarrow> chain (f(a := v)) p xs \<longleftrightarrow> chain f p xs"
  by (rule chain_cong) auto

lemma chain_nonzero: "chain f p xs \<Longrightarrow> 0 \<notin> set xs"
  by (induction xs arbitrary: p) auto

lemma chain_unique: "chain f p xs \<Longrightarrow> chain f p ys \<Longrightarrow> xs = ys"
proof (induction xs arbitrary: p ys)
  case (Cons x xs)
  then show ?case by (cases ys) auto
qed (case_tac ys, auto)

lemma chain_append: "chain f p (xs @ y # ys) \<Longrightarrow> y \<noteq> 0 \<and> chain f y (y # ys)"
  by (induction xs arbitrary: p) auto

lemma chain_distinct: "chain f p xs \<Longrightarrow> distinct xs"
proof (induction xs arbitrary: p)
  case (Cons x xs)
  have "x \<notin> set xs"
  proof
    assume "x \<in> set xs"
    then obtain as bs where s: "xs = as @ x # bs" by (meson split_list)
    then have "chain f x (x # bs)" using Cons.prems chain_append [of f "f x" as x bs] by simp
    moreover have "chain f x (x # xs)" using Cons.prems by simp
    ultimately have "x # bs = x # xs" by (rule chain_unique)
    then have "length bs = length xs" by simp
    then show False using s by simp
  qed
  then show ?case using Cons by auto
qed simp

lemma find_chain:
  "chain f p xs \<Longrightarrow> (\<And>x. x \<in> set xs \<Longrightarrow> P x = Inr (Q x)) \<Longrightarrow> find_dev P f p = Some (Inr (first_dev Q xs))"
proof (induction xs arbitrary: p)
  case Nil
  then show ?case by (simp add: find_dev.simps)
next
  case (Cons x xs)
  then show ?case by (subst find_dev.simps) simp
qed

lemma first_dev_eq: "0 \<notin> set xs \<Longrightarrow> first_dev (\<lambda>n. n = a) xs = (if a \<in> set xs then a else 0)"
  by (induction xs) auto

lemma first_dev_in: "first_dev Q xs \<noteq> 0 \<Longrightarrow> first_dev Q xs \<in> set xs \<and> Q (first_dev Q xs)"
  by (induction xs) (auto split: if_splits)

lemma first_dev_cong: "(\<And>x. x \<in> set xs \<Longrightarrow> Q x = R x) \<Longrightarrow> first_dev Q xs = first_dev R xs"
  by (induction xs) auto

text \<open>The walk to the end, and to the node before another.\<close>

lemma walk_chain:
  assumes "chain f p (as @ x # bs)" "n \<notin> set (as @ [x])" "bs = [] \<or> hd bs = n" "bs = [] \<or> n \<noteq> 0"
  shows "walk_to n f (hd (as @ [x])) = Some x"
  using assms
proof (induction as arbitrary: p)
  case Nil
  then show ?case by (cases bs) (auto simp: walk_to.simps)
next
  case (Cons a as)
  have "f a \<noteq> 0" "f a = hd (as @ [x])" using Cons.prems(1) by (cases as; auto)+
  moreover have "f a \<noteq> n" using calculation(2) Cons.prems(2) by (cases as) auto
  moreover have "walk_to n f (hd (as @ [x])) = Some x"
    by (rule Cons.IH [of "f a"]) (use Cons.prems in auto)
  ultimately show ?case by (subst walk_to.simps) simp
qed

lemma chain_snoc:
  assumes "chain f p (as @ [x])" "n \<notin> set (as @ [x])" "n \<noteq> 0"
  shows "chain (f(x := n, n := 0)) p (as @ [x, n])"
  using assms
proof (induction as arbitrary: p)
  case (Cons a as)
  have d: "distinct (a # as @ [x])" using chain_distinct [OF Cons.prems(1)] by simp
  have "chain (f(x := n, n := 0)) (f a) (as @ [x, n])" by (rule Cons.IH) (use Cons.prems in auto)
  moreover have "(f(x := n, n := 0)) a = f a" using Cons.prems d by auto
  ultimately have "chain (f(x := n, n := 0)) a (a # as @ [x, n])" using Cons.prems(1) by (simp del: fun_upd_apply)
  moreover have "p = a" using Cons.prems(1) by simp
  ultimately show ?case by (simp only: append_Cons)
qed auto

lemma chain_del:
  assumes "chain f p (as @ x # y # bs)"
  shows "chain (f(x := f y)) p (as @ x # bs)"
  using assms
proof (induction as arbitrary: p)
  case Nil
  have "distinct (x # y # bs)" using chain_distinct Nil by fastforce
  then have "chain (f(x := f y)) (f y) bs" using Nil by (simp del: fun_upd_apply)
  moreover have "(f(x := f y)) x = f y" by simp
  ultimately have "chain (f(x := f y)) x (x # bs)" using Nil by (simp del: fun_upd_apply)
  moreover have "p = x" using Nil by simp
  ultimately show ?case by (simp only: append_Nil)
next
  case (Cons a as)
  have "distinct (a # as @ x # y # bs)" using chain_distinct [OF Cons.prems] by simp
  then have "(f(x := f y)) a = f a" by auto
  moreover have "chain (f(x := f y)) (f a) (as @ x # bs)" by (rule Cons.IH) (use Cons.prems in auto)
  ultimately have "chain (f(x := f y)) a (a # as @ x # bs)" using Cons.prems by (simp del: fun_upd_apply)
  moreover have "p = a" using Cons.prems by simp
  ultimately show ?case by (simp only: append_Cons)
qed

section \<open>What every call keeps\<close>

definition ndev_ok :: "ndev \<Rightarrow> bool" where
  "ndev_ok d \<longleftrightarrow> dev_ops d \<noteq> 0 \<and> length (name d) = 8 \<and> name d ! 7 = 0"

definition net_inv :: "nat list \<Rightarrow> netif \<Rightarrow> bool" where
  "net_inv xs w \<longleftrightarrow> chain (nx w) (netdev_list w) xs \<and> (if xs = [] then netdev_default w = 0 else netdev_default w \<in> set xs) \<and>
     (\<forall>x \<in> set xs. ndev_ok (devs w x))"

text \<open>A change that leaves the links alone.\<close>

definition same_links :: "netif \<Rightarrow> netif \<Rightarrow> bool" where
  "same_links w w' \<longleftrightarrow> netdev_list w' = netdev_list w \<and> netdev_default w' = netdev_default w \<and> (\<forall>x. nx w' x = nx w x) \<and>
     (\<forall>x. ndev_ok (devs w x) \<longrightarrow> ndev_ok (devs w' x))"

lemma same_links_inv: "net_inv xs w \<Longrightarrow> same_links w w' \<Longrightarrow> net_inv xs w'"
  using chain_cong [of xs "nx w'" "nx w" "netdev_list w"] by (auto simp: net_inv_def same_links_def)

lemma same_links_refl [simp]: "same_links w w"
  by (simp add: same_links_def)

lemma same_links_trans: "same_links w w1 \<Longrightarrow> same_links w1 w2 \<Longrightarrow> same_links w w2"
  by (simp add: same_links_def)

lemma same_links_log [simp]: "same_links w (log_call c w)"
  by (simp add: same_links_def log_call_def)

lemma same_links_calls [simp]: "same_links w (status_call a t w)" "same_links w (addr_call a t w)" "same_links w (sal_check b a w)"
  by (simp_all add: status_call_def addr_call_def sal_check_def)

lemma same_links_setdev:
  "(\<And>d. slist_next (f d) = slist_next d \<and> name (f d) = name d \<and> dev_ops (f d) = dev_ops d) \<Longrightarrow> same_links w (setdev a f w)"
  by (auto simp: same_links_def setdev_def ndev_ok_def)

lemma same_links_flags [simp]: "same_links w (set_flag a m w)" "same_links w (clear_flag a m w)"
  by (simp_all add: set_flag_def clear_flag_def same_links_setdev)

lemma low_level_links:
  "same_links w (netdev_low_level_set_ipaddr a ip w)" "same_links w (netdev_low_level_set_netmask a ip w)"
  "same_links w (netdev_low_level_set_gw a ip w)" "same_links w (netdev_low_level_set_dns_server a k ip w)"
  "same_links w (netdev_low_level_set_dhcp_status a b w)"
proof -
  have s: "same_links w (addr_call a t (sal_check b a (setdev a f w)))" "same_links w (addr_call a t (setdev a f w))"
    if "\<And>d. slist_next (f d) = slist_next d \<and> name (f d) = name d \<and> dev_ops (f d) = dev_ops d" for t b f
    using same_links_setdev [of f w a] that same_links_calls same_links_trans by meson+
  show "same_links w (netdev_low_level_set_ipaddr a ip w)" "same_links w (netdev_low_level_set_netmask a ip w)"
    "same_links w (netdev_low_level_set_gw a ip w)" "same_links w (netdev_low_level_set_dns_server a k ip w)"
    by (simp_all add: netdev_low_level_set_ipaddr_def netdev_low_level_set_netmask_def netdev_low_level_set_gw_def
        netdev_low_level_set_dns_server_def Let_def s)
  show "same_links w (netdev_low_level_set_dhcp_status a b w)"
    using same_links_trans [OF same_links_flags(1) same_links_calls(1)] same_links_trans [OF same_links_flags(2) same_links_calls(1)]
    by (simp add: netdev_low_level_set_dhcp_status_def)
qed

text \<open>Two interfaces of the list are the same bytes only if they are the same: their links differ.\<close>

lemma chain_inj:
  assumes "chain f p xs" "a \<in> set xs" "b \<in> set xs" "f a = f b"
  shows "a = b"
proof (rule ccontr)
  assume n: "a \<noteq> b"
  have "\<exists>as bs. xs = as @ x # bs \<and> chain f (f x) bs" if "x \<in> set xs" for x
  proof -
    obtain as bs where s: "xs = as @ x # bs" using \<open>x \<in> set xs\<close> by (meson split_list)
    then show ?thesis using chain_append assms(1) by fastforce
  qed
  then obtain as bs as' bs' where s: "xs = as @ a # bs" "chain f (f a) bs" "xs = as' @ b # bs'" "chain f (f b) bs'"
    using assms(2,3) by meson
  then have "bs = bs'" using chain_unique assms(4) by metis
  then show False using s(1,3) n by simp
qed

lemma inv_memcmp:
  assumes "net_inv xs w" "a \<in> set xs" "b \<in> set xs"
  shows "devs w a = devs w b \<longleftrightarrow> a = b"
  using chain_inj [of "nx w" "netdev_list w" xs a b] assms by (auto simp: net_inv_def)

section \<open>Lookups\<close>

lemma strncmp_prefix: "cstring nm \<Longrightarrow> 0 \<notin> set p \<Longrightarrow> rt_strncmp_eq (p @ r) nm (length p) = Inr (has_prefix p nm)"
proof (induction p arbitrary: nm)
  case (Cons a p)
  then obtain b ns where "nm = b # ns" by (cases nm) auto
  then show ?case using Cons by (auto simp: cstring_Cons)
qed simp

lemma name_prefix:
  assumes "ndev_ok d" "cstring nm"
  shows "name_matches nm d = Inr (has_prefix (str_of (name d)) nm)"
proof -
  have "name d ! 7 \<in> set (name d)" using assms(1) by (intro nth_mem) (simp add: ndev_ok_def)
  then have c: "cstring (name d)" using assms(1) by (simp add: ndev_ok_def cstring_def)
  then obtain r where "name d = str_of (name d) @ 0 # r" using cstring_split by blast
  then show ?thesis using strncmp_prefix [OF assms(2) str_of_no_nul, of "name d" "0 # r"] strlen_ok [OF c]
    by (simp add: name_matches_def)
qed

lemma net_lookups:
  assumes "net_inv xs w"
  shows "netdev_get_by_ipaddr ip w = Some (Inr (first_dev (\<lambda>x. ip_addr (devs w x) = ip) xs))"
    "netdev_get_first_by_flags m w = Some (Inr (first_dev (\<lambda>x. flags (devs w x) AND m \<noteq> 0) xs))"
    "cstring nm \<Longrightarrow> netdev_get_by_name nm w = Some (Inr (first_dev (\<lambda>x. has_prefix (str_of (name (devs w x))) nm) xs))"
proof -
  have c: "chain (nx w) (netdev_list w) xs" and d: "x \<in> set xs \<Longrightarrow> ndev_ok (devs w x)" for x
    using assms by (simp_all add: net_inv_def)
  show "netdev_get_by_ipaddr ip w = Some (Inr (first_dev (\<lambda>x. ip_addr (devs w x) = ip) xs))"
    "netdev_get_first_by_flags m w = Some (Inr (first_dev (\<lambda>x. flags (devs w x) AND m \<noteq> 0) xs))"
    unfolding netdev_get_by_ipaddr_def netdev_get_first_by_flags_def by (rule find_chain [OF c]; simp)+
  show "cstring nm \<Longrightarrow> netdev_get_by_name nm w = Some (Inr (first_dev (\<lambda>x. has_prefix (str_of (name (devs w x))) nm) xs))"
    unfolding netdev_get_by_name_def by (rule find_chain [OF c]) (simp add: name_prefix d)
qed

section \<open>Register and unregister\<close>

lemma nx_setdev: "nx (setdev a f w) x = (if x = a then slist_next (f (devs w a)) else nx w x)"
  by (simp add: setdev_def)

lemma devs_setdev: "devs (setdev a f w) x = (if x = a then f (devs w a) else devs w x)"
  by (simp add: setdev_def)

lemma setdev_heads [simp]:
  "netdev_list (setdev a f w) = netdev_list w" "netdev_default (setdev a f w) = netdev_default w"
  by (simp_all add: setdev_def)

lemma chain_hd: "chain f p xs \<Longrightarrow> p = (if xs = [] then 0 else hd xs)"
  by (cases xs) auto

lemma reg_fill_ok: "ndev_ok d \<Longrightarrow> n \<le> 7 \<Longrightarrow> n \<le> length nm \<Longrightarrow> ndev_ok (reg_fill nm n ud d)"
  by (simp add: ndev_ok_def reg_fill_def nth_append)

lemma append_inv:
  assumes "net_inv xs w" "xs \<noteq> []" "a \<noteq> 0" "a \<notin> set xs" "ndev_ok (devs w a)"
  shows "\<exists>w'. rt_slist_append (netdev_list w) a w = Some w' \<and> net_inv (xs @ [a]) w'"
proof -
  obtain as x where xs: "xs = as @ [x]" using assms(2) by (metis append_butlast_last_id)
  have c: "chain (nx w) (netdev_list w) (as @ [x])" using assms(1) by (simp add: net_inv_def xs)
  have "netdev_list w = hd (as @ [x])" using chain_hd [OF c] by simp
  moreover have "walk_to 0 (nx w) (hd (as @ [x])) = Some x"
    using walk_chain [of "nx w" "netdev_list w" as x "[]" 0] c chain_nonzero [OF c] by simp
  ultimately have w: "rt_slist_append (netdev_list w) a w =
      Some (setdev a (\<lambda>d. d\<lparr>slist_next := 0\<rparr>) (setdev x (\<lambda>d. d\<lparr>slist_next := a\<rparr>) w))" (is "_ = Some ?w")
    by (simp add: rt_slist_append_def)
  have "chain ((nx w)(x := a, a := 0)) (netdev_list w) (as @ [x, a])"
    using chain_snoc [OF c _ assms(3)] assms(4) xs by simp
  moreover have "nx ?w y = ((nx w)(x := a, a := 0)) y" for y using assms(4) xs by (simp add: setdev_def)
  ultimately have "chain (nx ?w) (netdev_list w) (as @ [x, a])" by (simp only: chain_cong [of _ "nx ?w" "(nx w)(x := a, a := 0)"])
  moreover have "ndev_ok (devs ?w y)" if "y \<in> set (xs @ [a])" for y
    using that assms(1,5) by (auto simp: net_inv_def devs_setdev ndev_ok_def)
  moreover have "netdev_default ?w \<in> set (xs @ [a])" using assms(1,2) by (simp add: net_inv_def)
  ultimately have "net_inv (xs @ [a]) ?w" by (simp add: net_inv_def xs)
  then show ?thesis using w by blast
qed

lemma register_inv:
  assumes "net_inv xs w" "a \<noteq> 0" "a \<notin> set xs" "ndev_ok (devs w a)" "cstring nm" "length (str_of nm) \<le> 7"
  shows "\<exists>w'. netdev_register a nm ud w = Some (Inr (0, w')) \<and> net_inv (xs @ [a]) w' \<and>
    (xs = [] \<longrightarrow> netdev_default w' = a)"
proof -
  let ?n = "length (str_of nm)"
  let ?w = "setdev a (reg_fill nm ?n ud) w"
  have n: "?n \<le> length nm" by (rule length_str_of)
  have ok: "ndev_ok (devs ?w a)" using reg_fill_ok [OF assms(4,6) n] by (simp add: devs_setdev)
  have "nx ?w x = nx w x" if "x \<in> set xs" for x using that assms(3) by (auto simp: devs_setdev)
  then have "chain (nx ?w) (netdev_list w) xs \<longleftrightarrow> chain (nx w) (netdev_list w) xs" by (rule chain_cong)
  then have i: "net_inv xs ?w" using assms(1,3) unfolding net_inv_def by (auto simp: devs_setdev)
  have l: "netdev_list w = 0 \<longleftrightarrow> xs = []"
    using assms(1) chain_hd [of "nx w" "netdev_list w" xs] chain_nonzero [of "nx w" "netdev_list w" xs] by (cases xs) (auto simp: net_inv_def)
  show ?thesis
  proof (cases "xs = []")
    case True
    have "net_inv [a] (?w\<lparr>netdev_list := a, netdev_default := a\<rparr>)"
      using ok assms(2) by (simp add: net_inv_def devs_setdev reg_fill_def)
    then show ?thesis using True l assms(2,6) strlen_ok [OF assms(5)] by (simp add: netdev_register_def Let_def)
  next
    case False
    obtain w' where "rt_slist_append (netdev_list ?w) a ?w = Some w'" "net_inv (xs @ [a]) w'"
      using append_inv [OF i False assms(2,3) ok] by blast
    then show ?thesis using False l assms(2,6) strlen_ok [OF assms(5)] by (simp add: netdev_register_def Let_def)
  qed
qed

lemma remove_inner:
  assumes "net_inv xs w" "a \<in> set xs" "a \<noteq> hd xs"
  shows "\<exists>w1. rt_slist_remove (netdev_list w) a w = Some w1 \<and> chain (nx w1) (netdev_list w) (remove1 a xs) \<and>
    netdev_list w1 = netdev_list w \<and> netdev_default w1 = netdev_default w \<and> (\<forall>x. ndev_ok (devs w x) \<longrightarrow> ndev_ok (devs w1 x))"
proof -
  obtain cs bs where s: "xs = cs @ a # bs" using assms(2) by (meson split_list)
  then obtain as x where cs: "cs = as @ [x]" using assms(3) by (cases cs rule: rev_cases) auto
  have c: "chain (nx w) (netdev_list w) (as @ x # a # bs)" using assms(1) s cs by (simp add: net_inv_def)
  have d: "distinct (as @ x # a # bs)" "0 \<notin> set (as @ x # a # bs)" using chain_distinct [OF c] chain_nonzero [OF c] by blast+
  have "netdev_list w = hd (as @ [x])" using chain_hd [OF c] by (cases as) auto
  moreover have "walk_to a (nx w) (hd (as @ [x])) = Some x" by (rule walk_chain [OF c]) (use d in auto)
  moreover have x: "nx w x = a" using chain_append [OF c] by simp
  ultimately have w: "rt_slist_remove (netdev_list w) a w = Some (setdev x (\<lambda>d. d\<lparr>slist_next := nx w a\<rparr>) w)" (is "_ = Some ?w")
    using d(2) by (simp add: rt_slist_remove_def)
  have "chain ((nx w)(x := nx w a)) (netdev_list w) (as @ x # bs)" by (rule chain_del [OF c])
  moreover have "nx ?w y = ((nx w)(x := nx w a)) y" for y by (simp add: setdev_def)
  ultimately have "chain (nx ?w) (netdev_list w) (as @ x # bs)" by (simp only: chain_cong [of _ "nx ?w" "(nx w)(x := nx w a)"])
  moreover have "remove1 a xs = as @ x # bs" using s cs d(1) by (simp add: remove1_append)
  ultimately show ?thesis using w by (simp add: devs_setdev ndev_ok_def)
qed

lemma unregister_inv:
  assumes "net_inv xs w" "a \<noteq> 0" "a \<in> set xs \<longrightarrow> a \<noteq> hd xs \<or> xs = [a]"
  shows "\<exists>w'. netdev_unregister a w = Some (Inr (- 1, w')) \<and> net_inv (remove1 a xs) w'"
proof -
  have c: "chain (nx w) (netdev_list w) xs" using assms(1) by (simp add: net_inv_def)
  have f: "find_dev (\<lambda>n. Inr (n = a)) (nx w) (netdev_list w) = Some (Inr (if a \<in> set xs then a else 0))"
    using find_chain [OF c, of "\<lambda>n. Inr (n = a)" "\<lambda>n. n = a"] first_dev_eq [OF chain_nonzero [OF c]] by simp
  consider "a \<notin> set xs" | "xs = [a]" | "a \<in> set xs" "a \<noteq> hd xs" using assms(3) by blast
  then show ?thesis
  proof cases
    case 1
    then show ?thesis using assms(1,2) f by (simp add: netdev_unregister_def remove1_idem)
  next
    case 2
    then have "netdev_list w = a" "nx w a = 0" "netdev_default w = a" using assms(1) by (auto simp: net_inv_def)
    then show ?thesis using 2 assms(2) f by (simp add: netdev_unregister_def net_inv_def log_call_def Let_def)
  next
    case 3
    obtain w1 where w1: "rt_slist_remove (netdev_list w) a w = Some w1" "chain (nx w1) (netdev_list w) (remove1 a xs)"
      "netdev_list w1 = netdev_list w" "netdev_default w1 = netdev_default w" "\<forall>x. ndev_ok (devs w x) \<longrightarrow> ndev_ok (devs w1 x)"
      using remove_inner [OF assms(1) 3] by blast
    have n: "a \<notin> set (remove1 a xs)" using chain_distinct [OF c] by simp
    have l: "netdev_list w = hd xs" "hd xs \<in> set (remove1 a xs)" "remove1 a xs \<noteq> []" "netdev_list w \<noteq> 0"
      using chain_hd [OF c] chain_nonzero [OF c] 3 by (cases xs; auto)+
    define w2 where "w2 = (if netdev_default w1 = a then w1\<lparr>netdev_default := netdev_list w1\<rparr> else w1)"
    define w3 where "w3 = setdev a (\<lambda>d. zero_dev) (log_call (SalCleanup a) w2)"
    have e: "netdev_unregister a w = Some (Inr (- 1, w3))"
      using 3 l(1,4) w1(1) f assms(2)
      by (auto simp: netdev_unregister_def Let_def w2_def w3_def)
    have 2: "devs w2 = devs w1" "netdev_list w2 = netdev_list w" "netdev_default w2 \<in> set (remove1 a xs)"
      using l w1(3,4) assms(1) 3(1) by (auto simp: w2_def net_inv_def in_set_remove1 split: if_splits)
    have d3: "devs w3 x = devs w1 x" if "x \<noteq> a" for x using that 2(1) by (simp add: w3_def devs_setdev log_call_def)
    have r: "devs w3 x = devs w1 x" if "x \<in> set (remove1 a xs)" for x
    proof -
      have "x \<noteq> a" using n that by metis
      then show ?thesis by (rule d3)
    qed
    then have "nx w3 x = nx w1 x" if "x \<in> set (remove1 a xs)" for x using that by metis
    then have "chain (nx w3) (netdev_list w) (remove1 a xs)"
      using w1(2) chain_cong [of "remove1 a xs" "nx w3" "nx w1" "netdev_list w"] by blast
    moreover have "ndev_ok (devs w3 x)" if "x \<in> set (remove1 a xs)" for x
    proof -
      have "x \<in> set xs" using that notin_set_remove1 by fast
      then have "ndev_ok (devs w x)" using assms(1) by (simp add: net_inv_def)
      then show ?thesis using r [OF that] w1(5) by simp
    qed
    moreover have "netdev_list w3 = netdev_list w" "netdev_default w3 = netdev_default w2"
      using 2 by (simp_all add: w3_def log_call_def)
    ultimately have "net_inv (remove1 a xs) w3" using 2(3) l(3) by (simp add: net_inv_def)
    then show ?thesis using e by blast
  qed
qed

section \<open>The default interface\<close>

definition link_up :: "netif \<Rightarrow> nat \<Rightarrow> bool" where
  "link_up w x \<longleftrightarrow> netdev_is_link_up (devs w x)"

text \<open>No driver has an operation of its own for the default interface; that of the A9G has none.\<close>

definition plain_table :: "(nat \<Rightarrow> netdev_ops) \<Rightarrow> bool" where
  "plain_table T \<longleftrightarrow> (\<forall>p. set_default (T p) = None)"

lemma auto_default:
  assumes "net_inv xs w" "xs \<noteq> []" "plain_table T"
  shows "netdev_auto_change_default T a w = Some (Inr
    (if devs w a = devs w (netdev_default w) \<and> first_dev (link_up w) xs \<noteq> 0 then w\<lparr>netdev_default := first_dev (link_up w) xs\<rparr> else w))"
proof -
  let ?n = "first_dev (link_up w) xs"
  have c: "chain (nx w) (netdev_list w) xs" using assms(1) by (simp add: net_inv_def)
  have "netdev_default w \<in> set xs" using assms(1,2) by (simp add: net_inv_def)
  then have "netdev_default w \<noteq> 0" using chain_nonzero [OF c] by metis
  moreover have g: "netdev_get_first_by_flags NETDEV_FLAG_LINK_UP w = Some (Inr ?n)"
    using net_lookups(2) [OF assms(1)] by (simp add: link_up_def [abs_def] netdev_is_link_up_def)
  moreover have "netdev_set_default T ?n w = Inr (w\<lparr>netdev_default := ?n\<rparr>)" if "?n \<noteq> 0"
    using that first_dev_in [OF that] assms(1,3) by (auto simp: netdev_set_default_def net_inv_def ndev_ok_def plain_table_def Let_def)
  ultimately show ?thesis by (simp add: netdev_auto_change_default_def)
qed

lemma default_inv: "net_inv xs w \<Longrightarrow> a \<in> set xs \<Longrightarrow> net_inv xs (w\<lparr>netdev_default := a\<rparr>)"
  by (auto simp: net_inv_def)

lemma auto_default_inv:
  assumes "net_inv xs w" "xs \<noteq> []" "plain_table T"
  shows "\<exists>w'. netdev_auto_change_default T a w = Some (Inr w') \<and> net_inv xs w'"
  using auto_default [OF assms, of a] assms(1) default_inv [OF assms(1)] first_dev_in [of "link_up w" xs] by (auto split: if_splits)

lemma status_inv:
  assumes "net_inv xs w" "xs \<noteq> []" "plain_table T"
  shows "\<exists>w'. netdev_low_level_set_status T a b w = Some (Inr w') \<and> net_inv xs w'"
proof -
  have "net_inv xs (clear_flag a NETDEV_FLAG_UP w)" using same_links_inv [OF assms(1)] by simp
  then obtain w1 where w1: "netdev_auto_change_default T a (clear_flag a NETDEV_FLAG_UP w) = Some (Inr w1)" "net_inv xs w1"
    using auto_default_inv [OF _ assms(2,3)] by blast
  have "net_inv xs (status_call a t w1)" "net_inv xs (status_call a t (set_flag a NETDEV_FLAG_UP w))" for t
    using same_links_inv [OF w1(2)] same_links_inv [OF assms(1) same_links_trans [OF same_links_flags(1) same_links_calls(1)]] by simp_all
  then show ?thesis using w1(1) assms(1) by (simp add: netdev_low_level_set_status_def)
qed

lemma link_inv_keeps:
  assumes "net_inv xs w" "xs \<noteq> []" "plain_table T"
  shows "\<exists>w'. netdev_low_level_set_link_status T a b w = Some (Inr w') \<and> net_inv xs w'"
proof -
  let ?c = "clear_flag a NETDEV_FLAG_INTERNET_UP (clear_flag a NETDEV_FLAG_LINK_UP w)"
  have "net_inv xs ?c" by (rule same_links_inv [OF assms(1) same_links_trans [OF same_links_flags(2) same_links_flags(2)]])
  then obtain w1 where w1: "netdev_auto_change_default T a ?c = Some (Inr w1)" "net_inv xs w1"
    using auto_default_inv [OF _ assms(2,3)] by blast
  have "net_inv xs (status_call a t w1)" "net_inv xs (status_call a t (sal_check q a (set_flag a NETDEV_FLAG_LINK_UP w)))" for t q
    using same_links_inv [OF w1(2)]
      same_links_inv [OF assms(1) same_links_trans [OF same_links_trans [OF same_links_flags(1) same_links_calls(3)] same_links_calls(1)]]
    by simp_all
  then show ?thesis using w1(1) assms(1) by (simp add: netdev_low_level_set_link_status_def Let_def)
qed

section \<open>Calls in any order\<close>

datatype net_act =
  NAlloc nat ndev | NRegister nat mem nat | NUnregister nat | NDefault nat
| NIp nat u32 | NMask nat u32 | NGw nat u32 | NDns nat u8 u32 | NStatus nat bool | NLink nat bool | NDhcp nat bool
| NStatusCb nat nat | NAddrCb nat nat

definition net_event :: "(nat \<Rightarrow> netdev_ops) \<Rightarrow> net_act \<Rightarrow> netif \<Rightarrow> (netif res) option" where
  "net_event T e w =
     (case e of
        NAlloc a d \<Rightarrow> Some (Inr (setdev a (\<lambda>_. d) w))
      | NRegister a nm ud \<Rightarrow> map_option (\<lambda>r. and_then r (\<lambda>(x, w'). Inr w')) (netdev_register a nm ud w)
      | NUnregister a \<Rightarrow> map_option (\<lambda>r. and_then r (\<lambda>(x, w'). Inr w')) (netdev_unregister a w)
      | NDefault a \<Rightarrow> Some (netdev_set_default T a w)
      | NIp a x \<Rightarrow> Some (Inr (netdev_low_level_set_ipaddr a x w))
      | NMask a x \<Rightarrow> Some (Inr (netdev_low_level_set_netmask a x w))
      | NGw a x \<Rightarrow> Some (Inr (netdev_low_level_set_gw a x w))
      | NDns a k x \<Rightarrow> Some (Inr (netdev_low_level_set_dns_server a k x w))
      | NStatus a b \<Rightarrow> netdev_low_level_set_status T a b w
      | NLink a b \<Rightarrow> netdev_low_level_set_link_status T a b w
      | NDhcp a b \<Rightarrow> Some (Inr (netdev_low_level_set_dhcp_status a b w))
      | NStatusCb a cb \<Rightarrow> Some (netdev_set_status_callback a cb w)
      | NAddrCb a cb \<Rightarrow> Some (netdev_set_addr_callback a cb w))"

text \<open>
  How the calls are used: an interface is allocated with a table of operations before it is registered, its
  name has at most 7 characters, it is registered once, and the first of several is not unregistered.
\<close>

definition net_pre :: "nat list \<Rightarrow> netif \<Rightarrow> net_act \<Rightarrow> bool" where
  "net_pre xs w e \<longleftrightarrow>
     (case e of
        NAlloc a d \<Rightarrow> a \<notin> set xs
      | NRegister a nm ud \<Rightarrow> a \<noteq> 0 \<and> a \<notin> set xs \<and> ndev_ok (devs w a) \<and> cstring nm \<and> length (str_of nm) \<le> 7
      | NUnregister a \<Rightarrow> a \<noteq> 0 \<and> (a \<in> set xs \<longrightarrow> a \<noteq> hd xs \<or> xs = [a])
      | NDefault a \<Rightarrow> a \<in> set xs
      | NStatus a b \<Rightarrow> a \<in> set xs
      | NLink a b \<Rightarrow> a \<in> set xs
      | NStatusCb a cb \<Rightarrow> a \<noteq> 0 \<and> cb \<noteq> 0
      | NAddrCb a cb \<Rightarrow> a \<noteq> 0 \<and> cb \<noteq> 0
      | _ \<Rightarrow> True)"

text \<open>The abstract list.\<close>

definition listed_after :: "net_act \<Rightarrow> nat list \<Rightarrow> nat list" where
  "listed_after e xs = (case e of NRegister a nm ud \<Rightarrow> xs @ [a] | NUnregister a \<Rightarrow> remove1 a xs | _ \<Rightarrow> xs)"

lemma alloc_inv:
  assumes "net_inv xs w" "a \<notin> set xs"
  shows "net_inv xs (setdev a f w)"
proof -
  have d: "devs (setdev a f w) x = devs w x" if "x \<in> set xs" for x using that assms(2) by (auto simp: devs_setdev)
  then have "nx (setdev a f w) x = nx w x" if "x \<in> set xs" for x using that by metis
  then have "chain (nx (setdev a f w)) (netdev_list w) xs \<longleftrightarrow> chain (nx w) (netdev_list w) xs" by (rule chain_cong)
  then show ?thesis using assms(1) d by (simp add: net_inv_def)
qed

lemma set_default_inv:
  assumes "net_inv xs w" "a \<in> set xs" "plain_table T"
  shows "\<exists>w'. netdev_set_default T a w = Inr w' \<and> net_inv xs w'"
proof -
  have "ndev_ok (devs w a)" using assms(1,2) by (simp add: net_inv_def)
  then have "a = 0 \<or> netdev_set_default T a w = Inr (w\<lparr>netdev_default := a\<rparr>)"
    using assms(3) by (simp add: netdev_set_default_def ndev_ok_def plain_table_def)
  then show ?thesis using default_inv [OF assms(1,2)] assms(1) by (auto simp: netdev_set_default_def)
qed

lemma net_event_inv:
  assumes "net_inv xs w" "net_pre xs w e" "plain_table T"
  shows "\<exists>w'. net_event T e w = Some (Inr w') \<and> net_inv (listed_after e xs) w'"
proof (cases e)
  case (NRegister a nm ud)
  then show ?thesis using register_inv [OF assms(1), of a nm ud] assms(2) by (auto simp: net_event_def net_pre_def listed_after_def)
next
  case (NUnregister a)
  then show ?thesis using unregister_inv [OF assms(1), of a] assms(2) by (auto simp: net_event_def net_pre_def listed_after_def)
next
  case (NDefault a)
  then show ?thesis using set_default_inv [OF assms(1) _ assms(3), of a] assms(2) by (auto simp: net_event_def net_pre_def listed_after_def)
next
  case (NStatus a b)
  then have "xs \<noteq> []" using assms(2) by (auto simp: net_pre_def)
  then show ?thesis using NStatus status_inv [OF assms(1) _ assms(3), of a b] by (simp add: net_event_def listed_after_def)
next
  case (NLink a b)
  then have "xs \<noteq> []" using assms(2) by (auto simp: net_pre_def)
  then show ?thesis using NLink link_inv_keeps [OF assms(1) _ assms(3), of a b] by (simp add: net_event_def listed_after_def)
next
  case (NStatusCb a cb)
  then show ?thesis using assms(2) same_links_inv [OF assms(1) same_links_setdev]
    by (simp add: net_event_def net_pre_def listed_after_def netdev_set_status_callback_def)
next
  case (NAddrCb a cb)
  then show ?thesis using assms(2) same_links_inv [OF assms(1) same_links_setdev]
    by (simp add: net_event_def net_pre_def listed_after_def netdev_set_addr_callback_def)
next
  case (NAlloc a d)
  then show ?thesis using alloc_inv [OF assms(1)] assms(2) by (simp add: net_event_def net_pre_def listed_after_def)
qed (use same_links_inv [OF assms(1)] low_level_links in \<open>simp_all add: net_event_def listed_after_def\<close>)

inductive net_step :: "(nat \<Rightarrow> netdev_ops) \<Rightarrow> nat list \<times> netif \<Rightarrow> nat list \<times> netif \<Rightarrow> bool" for T where
  "net_pre xs w e \<Longrightarrow> net_event T e w = Some (Inr w') \<Longrightarrow> net_step T (xs, w) (listed_after e xs, w')"

inductive_cases net_stepE: "net_step T (xs, w) s"

definition netif0 :: "(nat \<Rightarrow> ndev) \<Rightarrow> netif" where
  "netif0 d = \<lparr>devs = d, netdev_list = 0, netdev_default = 0, nd_calls = []\<rparr>"

lemma net_reach_inv:
  assumes "(net_step T)\<^sup>*\<^sup>* ([], netif0 d) s" "plain_table T"
  shows "net_inv (fst s) (snd s)"
  using assms(1)
proof (induction rule: rtranclp_induct)
  case base
  show ?case by (simp add: net_inv_def netif0_def)
next
  case (step s t)
  obtain xs w where s: "s = (xs, w)" by (cases s)
  from step.hyps(2) obtain e w' where e: "net_pre xs w e" "net_event T e w = Some (Inr w')" "t = (listed_after e xs, w')"
    unfolding s by (rule net_stepE)
  show ?case using net_event_inv [OF _ e(1) assms(2)] step.IH e(2,3) s by fastforce
qed

section \<open>Properties\<close>

text \<open>
  C39: from the start, with drivers that register, unregister and report changes and users that choose the
  default interface, in any order of calls that keep to the conditions of \<open>net_pre\<close>: an interface is registered
  (and its memory set up anew) only while it is not in the list, with a table of operations and a terminated
  name of at most 7 bytes; the one taken out is not the first while there are others; the default
  interface, a status or a link is set for a listed interface only; and a callback is set on an interface, and
  is one.  No driver brings an operation \<open>set_default\<close> of its own (\<open>plain_table\<close>).  Then every such call returns,
  the linked list has no cycle and holds exactly the interfaces registered and not unregistered, in the order of
  registration, the default interface is one of them while there are any, and a lookup gives the first of
  them that fits, a name also when it only begins with the name of the interface.  A call outside these
  conditions may break the list: \<open>unregister_head_loses\<close> shows it for the first of several.
\<close>

theorem interfaces_listed:
  assumes "(net_step T)\<^sup>*\<^sup>* ([], netif0 d) (xs, w)" "plain_table T"
  shows "distinct xs \<and> (if xs = [] then netdev_default w = 0 else netdev_default w \<in> set xs) \<and>
    netdev_get_by_ipaddr ip w = Some (Inr (first_dev (\<lambda>x. ip_addr (devs w x) = ip) xs)) \<and>
    netdev_get_first_by_flags m w = Some (Inr (first_dev (\<lambda>x. flags (devs w x) AND m \<noteq> 0) xs)) \<and>
    (cstring nm \<longrightarrow> netdev_get_by_name nm w = Some (Inr (first_dev (\<lambda>x. has_prefix (str_of (name (devs w x))) nm) xs))) \<and>
    (net_pre xs w e \<longrightarrow> (\<exists>w'. net_event T e w = Some (Inr w')))"
proof -
  have i: "net_inv xs w" using net_reach_inv [OF assms] by simp
  have "distinct xs" using i chain_distinct by (auto simp: net_inv_def)
  moreover have "if xs = [] then netdev_default w = 0 else netdev_default w \<in> set xs" using i by (simp add: net_inv_def)
  moreover have "net_pre xs w e \<longrightarrow> (\<exists>w'. net_event T e w = Some (Inr w'))" using net_event_inv [OF i _ assms(2)] by blast
  ultimately show ?thesis using net_lookups [OF i] by simp
qed

text \<open>Two interfaces with tables of operations, as the driver allocates them.\<close>

definition fresh_dev :: ndev where
  "fresh_dev = zero_dev\<lparr>dev_ops := 1, mtu := 1500\<rparr>"

definition no_ops :: netdev_ops where
  "no_ops = \<lparr>set_up = None, set_down = None, set_addr_info = None, set_dns_server = None, set_dhcp = None, ping = None,
     netstat = None, set_default = None\<rparr>"

definition linked :: netif where
  "linked = \<lparr>devs = (\<lambda>a. if a = 1 then fresh_dev\<lparr>slist_next := 2, flags := 5\<rparr> else if a = 2 then fresh_dev\<lparr>flags := 5\<rparr> else zero_dev),
     netdev_list = 1, netdev_default = 1, nd_calls = []\<rparr>"

lemma linked_ok: "net_inv [1, 2] linked" "plain_table (\<lambda>p. no_ops)"
  by (simp_all add: net_inv_def linked_def ndev_ok_def fresh_dev_def zero_dev_def plain_table_def no_ops_def eval_nat_numeral)

theorem interfaces_listed_witness:
  "\<exists>w. netdev_register 1 (bytes ''a9g'' @ [0]) 0 (netif0 (\<lambda>a. fresh_dev)) = Some (Inr (0, w)) \<and>
     netdev_get_by_name (bytes ''a9g0'' @ [0]) w = Some (Inr (first_dev (\<lambda>x. has_prefix (str_of (name (devs w x))) (bytes ''a9g0'' @ [0])) [1])) \<and>
     netdev_default w \<in> {1}"
proof -
  let ?T = "\<lambda>p :: nat. no_ops" and ?w = "netif0 (\<lambda>a. fresh_dev)" and ?n = "bytes ''a9g'' @ [0] :: mem"
  have n: "cstring ?n" "length (str_of ?n) = 3" "cstring (bytes ''a9g0'' @ [0])" by (simp_all add: cstring_def)
  have p: "net_pre [] ?w (NRegister 1 ?n 0)" using n
    by (simp add: net_pre_def netif0_def fresh_dev_def zero_dev_def ndev_ok_def eval_nat_numeral del: bytes_Cons bytes_append)
  obtain w where w: "netdev_register 1 ?n 0 ?w = Some (Inr (0, w))"
    using register_inv [of "[]" ?w 1 ?n 0] n by (auto simp: net_inv_def netif0_def fresh_dev_def zero_dev_def ndev_ok_def eval_nat_numeral)
  then have "net_event ?T (NRegister 1 ?n 0) ?w = Some (Inr w)" by (simp add: net_event_def del: bytes_Cons bytes_append)
  from net_step.intros [OF p this] have "(net_step ?T)\<^sup>*\<^sup>* ([], ?w) ([1], w)" by (simp add: listed_after_def r_into_rtranclp)
  from interfaces_listed [OF this linked_ok(2), of 0 0 "bytes ''a9g0'' @ [0]" "NIp 1 0"] show ?thesis
    using w n(3) by (simp del: bytes_Cons bytes_append)
qed

text \<open>
  When the link of the default interface goes down, the first other interface of the list that has a link
  becomes the default one; there being none, or for another interface, the default interface stays.
\<close>

theorem link_down_moves_default:
  assumes "net_inv xs w" "a \<in> set xs" "netdev_is_link_up (devs w a)" "plain_table T"
  shows "\<exists>w'. netdev_low_level_set_link_status T a False w = Some (Inr w') \<and>
    netdev_default w' = (let b = first_dev (\<lambda>x. x \<noteq> a \<and> link_up w x) xs
      in if a = netdev_default w \<and> b \<noteq> 0 then b else netdev_default w)"
proof -
  define v where "v = clear_flag a NETDEV_FLAG_INTERNET_UP (clear_flag a NETDEV_FLAG_LINK_UP w)"
  have l: "same_links w v" unfolding v_def by (rule same_links_trans [OF same_links_flags(2) same_links_flags(2)])
  have c: "net_inv xs v" by (rule same_links_inv [OF assms(1) l])
  have "0 \<notin> set xs" using assms(1) chain_nonzero [of "nx w" "netdev_list w" xs] by (simp add: net_inv_def)
  then have "a \<noteq> 0" using assms(2) by metis
  moreover have "xs \<noteq> []" using assms(2) by auto
  ultimately have xs: "xs \<noteq> []" "a \<noteq> 0" by blast+
  have d: "netdev_default v = netdev_default w" "netdev_default w \<in> set xs" using l assms(1) xs(1) by (simp_all add: same_links_def net_inv_def)
  have u: "link_up v x \<longleftrightarrow> x \<noteq> a \<and> link_up w x" for x
    by (simp add: v_def link_up_def clear_flag_def devs_setdev netdev_is_link_up_def NETDEV_FLAG_LINK_UP_def NETDEV_FLAG_INTERNET_UP_def
        and.assoc)
  define b where "b = first_dev (\<lambda>x. x \<noteq> a \<and> link_up w x) xs"
  have f: "first_dev (link_up v) xs = b" unfolding b_def by (rule first_dev_cong) (rule u)
  have "devs v a = devs v (netdev_default w) \<longleftrightarrow> a = netdev_default w" by (rule inv_memcmp [OF c assms(2) d(2)])
  then have r: "netdev_auto_change_default T a v = Some (Inr (if a = netdev_default w \<and> b \<noteq> 0 then v\<lparr>netdev_default := b\<rparr> else v))"
    unfolding auto_default [OF c xs(1) assms(4)] d(1) f by simp
  have k: "netdev_default (status_call a t u) = netdev_default u" for t u by (simp add: status_call_def log_call_def)
  show ?thesis using assms(3) xs(2) r d(1) by (simp add: netdev_low_level_set_link_status_def k Let_def flip: v_def b_def)
qed

theorem link_down_moves_default_witness:
  "\<exists>w'. netdev_low_level_set_link_status (\<lambda>p. no_ops) 1 False linked = Some (Inr w') \<and> netdev_default w' = 2"
  using link_down_moves_default [OF linked_ok(1) _ _ linked_ok(2), of 1]
  by (simp add: linked_def netdev_is_link_up_def NETDEV_FLAG_LINK_UP_def link_up_def fresh_dev_def Let_def)

text \<open>
  Unregistering the first of several interfaces does not take it out of the list: its bytes are zeroed
  where it is, the others are lost, and every name is then the name of the zeroed interface.
\<close>

theorem unregister_head_loses:
  assumes "net_inv (a # b # xs) w"
  shows "\<exists>w'. netdev_unregister a w = Some (Inr (- 1, w')) \<and> chain (nx w') (netdev_list w') [a] \<and> devs w' a = zero_dev \<and>
    netdev_get_by_name nm w' = Some (Inr a)"
proof -
  let ?l = "a # b # xs"
  have c: "chain (nx w) (netdev_list w) ?l" using assms by (simp add: net_inv_def)
  have a: "a \<noteq> 0" "netdev_list w = a" "nx w a = b" "b \<noteq> 0" using c by auto
  have f: "find_dev (\<lambda>n. Inr (n = a)) (nx w) a = Some (Inr a)" using a by (simp add: find_dev.simps)
  obtain as y where y: "?l = as @ [y]" by (metis append_butlast_last_id list.distinct(1))
  have cy: "chain (nx w) a (as @ [y])" using c a(2) y by simp
  have "walk_to a (nx w) (hd (tl ?l)) = Some y"
  proof (cases as)
    case Nil
    then show ?thesis using y by simp
  next
    case (Cons z zs)
    then have z: "z = a" "b # xs = zs @ [y]" using y by auto
    have "chain (nx w) b (zs @ [y])" using c z(2) a by simp
    moreover have "a \<notin> set (zs @ [y])" using chain_distinct [OF c] z(2) by (metis distinct.simps(2))
    ultimately have "walk_to a (nx w) (hd (zs @ [y])) = Some y" using walk_chain [of "nx w" b zs y "[]" a] by simp
    then show ?thesis using z(2) by (metis list.sel(1,3))
  qed
  moreover have "b \<noteq> a" using chain_distinct [OF c] by simp
  ultimately have "walk_to a (nx w) a = Some y" using a(3,4) by (subst walk_to.simps) simp
  moreover have "nx w y = 0"
    using chain_append [of "nx w" a as y "[]"] cy by simp
  ultimately have r: "rt_slist_remove a a w = Some w" by (simp add: rt_slist_remove_def)
  define w2 where "w2 = (if netdev_default w = a then w\<lparr>netdev_default := a\<rparr> else w)"
  define w' where "w' = setdev a (\<lambda>d. zero_dev) (log_call (SalCleanup a) w2)"
  have e: "netdev_unregister a w = Some (Inr (- 1, w'))"
    using a f r by (simp add: netdev_unregister_def w2_def w'_def)
  have z: "devs w' a = zero_dev" "netdev_list w' = a" using a(2) by (simp_all add: w'_def w2_def devs_setdev log_call_def)
  then have h: "chain (nx w') (netdev_list w') [a]" using a(1) by (simp add: zero_dev_def)
  have "netdev_get_by_name nm w' = Some (Inr (first_dev (\<lambda>x. True) [a]))"
    unfolding netdev_get_by_name_def by (rule find_chain [OF h]) (use z in \<open>simp add: name_matches_def zero_dev_def eval_nat_numeral\<close>)
  then show ?thesis using e h z by simp
qed

theorem unregister_head_loses_witness:
  "\<exists>w'. netdev_unregister 1 linked = Some (Inr (- 1, w')) \<and> netdev_get_by_name (bytes ''a9g'' @ [0]) w' = Some (Inr 1)"
  using unregister_head_loses [OF linked_ok(1), of "bytes ''a9g'' @ [0]"] by blast

text \<open>
  Setting the default interface down leaves it the default one while its link is up and it is the first
  with a link, whatever other interface is up.
\<close>

theorem down_stays_default:
  assumes "net_inv (a # xs) w" "netdev_default w = a" "netdev_is_up (devs w a)" "netdev_is_link_up (devs w a)" "plain_table T"
  shows "\<exists>w'. netdev_low_level_set_status T a False w = Some (Inr w') \<and> netdev_default w' = a \<and> \<not> netdev_is_up (devs w' a)"
proof -
  let ?c = "clear_flag a NETDEV_FLAG_UP w"
  have c: "net_inv (a # xs) ?c" by (rule same_links_inv [OF assms(1) same_links_flags(2)])
  have a: "a \<noteq> 0" using assms(1) by (simp add: net_inv_def)
  have u: "link_up ?c a" "netdev_default ?c = a" "\<not> netdev_is_up (devs ?c a)" using assms(2,4)
    by (simp_all add: link_up_def clear_flag_def devs_setdev netdev_is_link_up_def netdev_is_up_def NETDEV_FLAG_LINK_UP_def
        NETDEV_FLAG_UP_def and.assoc)
  have "netdev_auto_change_default T a ?c = Some (Inr (?c\<lparr>netdev_default := a\<rparr>))"
    using auto_default [OF c _ assms(5), of a] u a by simp
  then show ?thesis using assms(3) a u(3)
    by (simp add: netdev_low_level_set_status_def status_call_def log_call_def)
qed

theorem down_stays_default_witness:
  "\<exists>w'. netdev_low_level_set_status (\<lambda>p. no_ops) 1 False linked = Some (Inr w') \<and> netdev_default w' = 1"
  using down_stays_default [OF linked_ok(1) _ _ _ linked_ok(2)]
  by (auto simp: linked_def netdev_is_up_def netdev_is_link_up_def NETDEV_FLAG_LINK_UP_def NETDEV_FLAG_UP_def fresh_dev_def)

text \<open>
  The command \<open>dns\<close> with a text that is no address hands an address that was never assigned to the driver.
\<close>

theorem dns_unassigned:
  assumes "net_inv xs w" "cstring nm" "first_dev (\<lambda>x. has_prefix (str_of (name (devs w x))) nm) xs = a" "a \<noteq> 0"
    "op_of T set_dns_server a w \<noteq> None" "netdev_ip4addr_aton t = Inr None"
  shows "netdev_dns T [cmd, nm, t] w = Some (Inl UninitRead)"
  using net_lookups(3) [OF assms(1,2)] assms(3-6)
  by (auto simp: netdev_dns_def netdev_set_dns_def with_dev_def netdev_set_dns_server_def NETDEV_DNS_SERVERS_NUM_def)

text \<open>
  The command \<open>ifconfig\<close> cannot set the addresses of an interface whose driver has no operation for it, as the
  A9G: it changes nothing, and says so for each address only in the log.
\<close>

theorem ifconfig_unsupported:
  assumes "net_inv xs w" "\<And>p. set_addr_info (T p) = None" "cstring nm" "\<And>t. t \<in> {ip, g, m} \<Longrightarrow> returns (netdev_ip4addr_aton t)"
  shows "netdev_ifconfig T [cmd, nm, ip, g, m] w = Some (Inr w)"
proof -
  have n: "op_of T set_addr_info a w = None" for a using assms(2) by (simp add: op_of_def)
  have s: "set_addr T a i j k w = Inr (- 1, w)" if "a \<noteq> 0" for a i j k using that n by (simp add: set_addr_def)
  have f: "set_if_addr f (Some t) w = Inr w" if "t \<in> {ip, g, m}" "\<And>x. f x w = Inr (- 1, w)" for f t
    using assms(4) [OF that(1)] that(2) by (auto simp: set_if_addr_def returns_iff split: option.splits)
  have "set_if_addr (netdev_set_ipaddr T a) (Some ip) w = Inr w" "set_if_addr (netdev_set_gw T a) (Some g) w = Inr w"
    "set_if_addr (netdev_set_netmask T a) (Some m) w = Inr w" if "a \<noteq> 0" for a
    by (rule f; simp add: netdev_set_ipaddr_def netdev_set_gw_def netdev_set_netmask_def s that)+
  then show ?thesis
    using net_lookups(3) [OF assms(1,3)] by (simp add: netdev_ifconfig_def netdev_set_if_def with_dev_def eval_nat_numeral)
qed

end
