(* ===== verification/Spec2Isabelle.thy ===== *)
theory Spec2Isabelle
  imports Gps_Props Lcd_Props Lcd_Text_Props Rc522_Props Minmea_Props A9g_Urc_Props A9g_Device_Props At_Client_Props Car_System Link_Stack
    At_Resolve Serial_System Gps_Wire Netdev_Props
begin

text \<open>
  Verification of the firmware of a car locator: the application code under
  \<open>src/software/Car_Locator/applications\<close>, which runs on RT-Thread on an STM32F407.

  \<^bold>\<open>The program.\<close>  A positioning thread (\<open>gps.c\<close>) reads lines from the UART of the A9G module,
  finds the NMEA sentences in them, stores what they say in the global record \<open>gps_data\<close> and shows
  position and speed on a display.  The display driver (\<open>lcd.c\<close>, \<open>font.h\<close>) serves fifteen
  controllers over a parallel bus.  The modem driver (\<open>at_device_a9g.c\<close>, \<open>at_socket_a9g.c\<close>) brings the
  A9G into the network by AT commands and offers socket operations; RT-Thread's AT socket layer
  (\<open>at_socket.c\<close>) makes descriptors and byte streams of them, and the shell command of
  \<open>client_server.c\<close> opens and uses a connection to a server over it.  A card reader driver (\<open>rc522.c\<close>) talks to an RC522
  chip over SPI.  \<open>minmea.c\<close> is a second parser of NMEA sentences.  \<open>main.c\<close> draws labels and blinks
  two lights; \<open>key.c\<close> and \<open>led.c\<close> handle a key and the lights.  The parts interact by calls (the
  handlers of \<open>gps.c\<close> call \<open>LCD_ShowString\<close>), by the event set of the modem device, which the parser
  thread sets and a connecting thread waits on, and by running side by side.

  \<^bold>\<open>Conventions\<close> (\<open>Prelude\<close>).  Machine integers keep their width as words; a C \<open>int\<close> is its 32 bit
  pattern in \<open>gps.c\<close> and an integer in the other files, where no sum leaves its range or the overflow
  is written out.  A pointer into a buffer is the list of bytes from there on.  Undefined behaviour
  and unchecked pointers are values of \<open>cfault\<close>; a computation that may fault returns
  \<open>cfault + 'a\<close>.  Reading a variable that was never assigned is the fault \<open>UninitRead\<close>, except for bytes of an
  array, where the contents of the stack are a parameter.  A loop that may not end is a \<open>partial_function (option)\<close> whose value is then
  \<open>None\<close>; all others are total functions, so no fuel is needed anywhere.  \<open>C_String\<close> has the functions
  of the C library on strings and characters, \<open>C_Format\<close> the formats of \<open>sprintf\<close>.

  \<^bold>\<open>Positioning\<close> (\<open>gps.c\<close>, \<open>gps.h\<close>).
  \<open>Nmea_Number\<close> has the field scanner (\<open>NMEA_Comma_Pos\<close>, \<open>NMEA_Pow\<close>, \<open>NMEA_Str2num\<close>);
  \<open>Binary_Float\<close> the rounding of \<open>float\<close> and \<open>double\<close>, with error bounds; \<open>Gps\<close> the record
  \<open>nmea_msg\<close>, the five handlers and \<open>GPS_Analysis\<close>.
  \<open>Gps_Degrees\<close>, \<open>Gps_Safety\<close>, \<open>Gps_Fields\<close>, \<open>Gps_Rmc\<close> and \<open>Gps_Handlers\<close> hold the lemmas: accuracy
  of the conversion to degrees, absence of faults, what a handler finds in a well-formed sentence,
  and the locale \<open>handler\<close>, the contract between the dispatcher and a handler, interpreted on the
  four handlers without log output.  \<open>Gps_Uart\<close> has the receive path: \<open>uart_getchar\<close> on a list of
  what the driver returns (a byte, or nothing yet), \<open>data_read\<close>, the output functions, one turn of the
  thread, opening and creating it.  \<open>Gps_Props\<close> states the properties.

  \<^bold>\<open>Serial driver\<close> (\<open>serial.c\<close>, \<open>device.c\<close>, \<open>drv_usart.c\<close>).  \<open>Serial\<close> has the device, the receive ring, the
  device calls and the interrupt handlers; the calls into the hardware are a list.  \<open>Serial_Ring\<close> has the
  lemmas on the ring as a queue in both modes.  \<open>Serial_Props\<close> has the locale \<open>byte_fifo\<close>, the contract of a
  bounded queue that drops the oldest bytes, interpreted on the ring in interrupt mode and in DMA mode.
  \<open>Serial_System\<close> runs the DMA controller, its two interrupts and the reader in any order, as the step
  relation \<open>dma_step\<close>, in which bytes come in also when the ring is full; whether that has happened is noted
  in the state, and the stream is promised while it has not; \<open>Serial_Device\<close> any sequence of device calls and receive interrupts, as \<open>dev_step\<close>.
  \<open>Gps_Wire\<close> puts the positioning thread on the driver: what \<open>gps_init\<close> makes of the uart and how a line
  comes from the wire to \<open>data_read\<close>.

  \<^bold>\<open>Second parser\<close> (\<open>minmea.c\<close>, \<open>minmea.h\<close>).  \<open>Minmea\<close> has the checksum, the check of a sentence and
  the scanner with its nine conversions; \<open>Minmea_Parse\<close> the records, the eight sentence parsers and the
  conversions of the header.  \<open>Minmea_Safe\<close> proves, in the locale \<open>conversion\<close> interpreted on every
  conversion, that the scanner stays inside the sentence and stores values of the kinds its format
  names; \<open>Minmea_Check\<close> characterises the sentences that are accepted; \<open>Minmea_Fields\<close> what each
  conversion reads.  \<open>Minmea_Props\<close> states the properties, among them that its fractional
  conversion agrees with \<open>NMEA_Str2num\<close>.

  \<^bold>\<open>Display\<close> (\<open>lcd.c\<close>, \<open>lcd.h\<close>, \<open>font.h\<close>).  \<open>Lcd\<close> has the parameter record \<open>lcddev\<close>, the bus accesses
  as a list of events in order, cursor, window, scan and display direction, points, clearing and
  filling; values read from the bus are a parameter.  \<open>Lcd_Init_Tables\<close> has the set-up sequences of
  the controllers and \<open>Lcd_Init\<close> the identification and \<open>LCD_Init\<close>; \<open>Lcd_Draw\<close> lines, rectangles and
  circles; \<open>Lcd_Font\<close> the three font tables; \<open>Lcd_Text\<close> characters, numbers and strings.  \<open>Lcd_Glyph\<close>
  proves, in the locale \<open>glyph_font\<close> interpreted on the three fonts, that the byte and bit loops of
  \<open>LCD_ShowChar\<close> draw the bitmap of the table.  \<open>Lcd_Props\<close> and \<open>Lcd_Text_Props\<close> state the properties; the first has the
  controllers as a specification of their own, with the registers, geometry and write timing of each
  (\<open>panel_cmds\<close>, \<open>screen_size\<close>, \<open>write_timing\<close>), how they show in the answers to the probes (\<open>id_seen\<close>), and
  how they take coordinates from what comes over the bus (\<open>cursor_of\<close>).

  \<^bold>\<open>Modem\<close> (\<open>at_socket_a9g.c\<close>, \<open>at_device_a9g.c\<close>, \<open>at_sample_a9g.c\<close>).  The state \<open>at_dev\<close> holds the event
  set, the callbacks, the ready mark, the interface and the trace of the calls made to the AT client.
  What the client and the modem answer at any point is a function of the trace, in the record
  \<open>modem\<close>, so a statement about every \<open>modem\<close> covers every order of answers and events.
  \<open>A9g_Socket\<close> has connect, close, send, resolve and the events; \<open>A9g_Urc\<close> the handlers of the lines the
  modem sends by itself, with the line reader and the lookup of RT-Thread's \<open>at_client.c\<close>;
  \<open>A9g_Device\<close> the bring-up thread command by command, network information, link supervision, the
  operations of interface and device and the registration.  \<open>A9g_Socket_Props\<close> has the locale
  \<open>at_socket_ops\<close>, the contract of a table of socket operations, interpreted on the four operations,
  and shows what connect waits for, what send transmits and returns; \<open>A9g_Urc_Props\<close> what reaches a
  socket for a line of received data; \<open>A9g_Device_Props\<close> when the bring-up succeeds, how often it tries
  and in which state it leaves the device.  The address of the interface is what \<open>netdev_ip4addr_aton\<close> of \<open>Ip_Addr\<close>
  makes of the text of the modem, and an unassigned one when it makes none.

  \<^bold>\<open>AT client\<close> (\<open>at_client.c\<close>, \<open>at_utils.c\<close>).  \<open>At_Client\<close> has the response objects, the branch of the parser
  thread that fills them, the whole turn of that thread with end sign and reports, commands, the wait
  for the modem and the output.  The lines that come in during a call, and those between its timeout
  and its end, are arguments.  \<open>At_Client_Init\<close> has the creation and lookup of a client, the tables of
  reports and the part of \<open>a9g_init\<close> that sets them up.  \<open>At_Client_Props\<close> has the specification \<open>reply\<close> of a
  command as a function of the lines, shows that the client implements it while no token is left in
  the semaphore, and what happens otherwise.

  \<^bold>\<open>Socket layer\<close> (\<open>at_socket.c\<close>, \<open>at_socket.h\<close>, \<open>netdev_ipaddr.c\<close>).  \<open>At_Layer\<close> has the sockets of the
  device, the global list whose positions are the descriptors, the packets received, and every call
  of the layer, over the driver of \<open>A9g_Socket\<close>; \<open>layer_parser_turn\<close> puts the callbacks behind the
  handlers of \<open>A9g_Urc\<close>.  A wait takes the reports that arrive during it as a list of batches, one per
  time the caller runs.  Freed blocks are read by the code; whether they still hold their contents is
  a parameter, and where they do not the read is the fault \<open>UseAfterFree\<close>.  A semaphore that was deleted while
  its pointer stayed, as happens when the mutex cannot be created, is noted in the socket, and each use of
  it is that fault.  \<open>At_Layer_Props\<close> has the locale
  \<open>byte_stream\<close>, the contract of a queue of bytes, interpreted on the packets of a socket; the structure
  of the list under every sequence of calls, as an invariant of the step relation \<open>layer_step\<close>; what
  descriptors refer to when sockets come and go; that a receive call returns; and a message from the
  modem's bytes to the application.  \<open>Ip_Addr\<close> has addresses as texts and \<open>At_Resolve\<close> host names.
  \<open>Internet_Check\<close> has the check of the internet connection (\<open>sal_socket.c\<close>) that the system work queue runs
  over this layer, and what it does to the descriptors of the application.

  \<^bold>\<open>Network interfaces\<close> (\<open>netdev.c\<close>, \<open>netdev.h\<close>).  \<open>Netdev\<close> has the linked list of interfaces in a store, the
  default interface, the lookups, the calls to and from a driver and the shell commands; the tables of
  driver operations are a parameter.  \<open>Netdev_Props\<close> relates the links to a list of addresses and shows that
  every order of calls, as the step relation \<open>net_step\<close>, keeps them in agreement.

  \<^bold>\<open>Card reader\<close> (\<open>rc522.c\<close>, \<open>rc522.h\<close>).  \<open>Rc522\<close> has the driver in the state monad: the state is the
  history of the wire (chip select, reset and bytes exchanged) and the globals; the chip is a
  parameter, a function from the history to the byte it answers, and what the stack holds where the
  driver reads past an answer is another.  \<open>Rc522_Props\<close> shows that answers fit
  their buffers, that success is reported only for five bytes of the buffer that pass the check, wherever
  they come from, and the framing of every operation on the wire.

  \<^bold>\<open>Server connection, lights and keys, the whole.\<close>  \<open>Server_Link\<close> has \<open>client_server.c\<close>, with the socket
  layer as a record of operations on a state of its own and the states of the shell as an inductive
  predicate; \<open>Link_Stack\<close> gives it the operations of \<open>At_Layer\<close> and shows, for the shell, the receive
  thread, the parser thread and the check of the internet connection in any order, which descriptor is
  open and which command reaches the modem.  \<open>Board_App\<close> has \<open>led.c\<close>,
  \<open>key.c\<close> and \<open>main.c\<close>.  \<open>Car_System\<close> puts the positioning thread with the display, the shell, the
  entry point and the key together as a step relation \<open>car_step\<close>, one turn of one thread at a time in
  any order, and shows its invariant and that what the positioning thread asks for can be shown.

  \<^bold>\<open>Not modelled.\<close>  \<open>minmea_gettime\<close> is disabled in the source; the ping and statistics callbacks only
  print.  \<open>at_decive_a9g.c\<close> and \<open>a9g_gps_drv.c\<close> are not part of the build, nor is IPv6.  RT-Thread, the
  vendor library and the packages are vendored: what the application uses of them is a parameter,
  except the event set, the serial driver, the AT client, the socket layer, the internet check, the network
  interfaces and the address texts.  Of the serial driver the access through file descriptors is left
  out, of the socket abstraction layer its table of sockets, which the application does not use, and of
  the commands on interfaces the texts they print.  The text of a response is
  scanned by \<open>vsscanf\<close>, which is a parameter there, and the raw dumps of \<open>at_utils.c\<close> only print.
  Busy waits and delays have no effect in the model, and a turn of a thread is not interrupted except
  where it waits.
\<close>

end
